(* ===== verification/Prelude.thy ===== *)
theory Prelude
  imports Main "HOL-Library.Word"
begin

text \<open>
  Shared vocabulary of the development.
  \<^item> \<open>out\<close>: the outcome of a C++ call. \<open>Ret x\<close> is a call that returns \<open>x\<close>; \<open>Fault f\<close> is a
    call that leaves the defined behaviour of the program (null or dangling pointer, access
    out of bounds), lets a standard exception escape, aborts, or never returns.
  \<^item> \<open>errno_t\<close>: the values of \<open>errno\<close> the library sets or tests.
  \<^item> Machine integers: \<open>size_t\<close> is \<open>64 word\<close>; \<open>ssize_t\<close> and \<open>int\<close> results are read as \<open>int\<close>.
  \<^item> \<open>std::map\<close> as a key-sorted association list (it is iterated in key order), behind the
    locale \<open>std_map\<close>, which is the contract the components rely on.
\<close>

section \<open>Outcomes\<close>

datatype fault =
    Null_deref        \<comment> \<open>a member access through a null pointer\<close>
  | Use_after_free    \<comment> \<open>a member access through a pointer to a deleted object\<close>
  | Out_of_bounds     \<comment> \<open>a write or read outside a buffer or a bit set\<close>
  | Out_of_range      \<comment> \<open>\<open>std::out_of_range\<close> escapes\<close>
  | Invalid_argument  \<comment> \<open>\<open>std::invalid_argument\<close> escapes\<close>
  | Library_exception \<comment> \<open>an exception of a third-party library escapes\<close>
  | Aborted           \<comment> \<open>an assertion fails, or \<open>abort\<close> is called\<close>
  | No_return         \<comment> \<open>the call has not returned within the given number of steps\<close>

datatype 'a out = Ret 'a | Fault fault

primrec bnd :: "'a out \<Rightarrow> ('a \<Rightarrow> 'b out) \<Rightarrow> 'b out" where
  "bnd (Ret x) f = f x"
| "bnd (Fault e) f = Fault e"

named_theorems out_simps \<open>unfolding of sequenced calls\<close>

lemma bnd_Ret_conv [out_simps]: "(bnd m f = Ret y) \<longleftrightarrow> (\<exists>x. m = Ret x \<and> f x = Ret y)"
  by (cases m) auto

lemma bnd_assoc [simp]: "bnd (bnd m f) g = bnd m (\<lambda>x. bnd (f x) g)"
  by (cases m) auto

lemma bnd_Ret_right [simp]: "bnd m Ret = m"
  by (cases m) auto

lemma if_Ret_conv [out_simps]:
  "((if b then m else m') = Ret y) \<longleftrightarrow> (b \<and> m = Ret y \<or> \<not> b \<and> m' = Ret y)"
  by simp

lemma bnd_cong [fundef_cong]:
  "m = m' \<Longrightarrow> (\<And>x. m' = Ret x \<Longrightarrow> f x = g x) \<Longrightarrow> bnd m f = bnd m' g"
  by (cases m') auto

lemma bnd_eqI: "(\<And>x. m = Ret x \<Longrightarrow> f x = g x) \<Longrightarrow> bnd m f = bnd m g"
  by (cases m) auto

text \<open>Dereference of a possibly null pointer.\<close>

definition deref :: "'a option \<Rightarrow> ('a \<Rightarrow> 'b out) \<Rightarrow> 'b out" where
  "deref p f = (case p of None \<Rightarrow> Fault Null_deref | Some x \<Rightarrow> f x)"

lemma deref_simps [simp]: "deref None f = Fault Null_deref" "deref (Some x) f = f x"
  by (simp_all add: deref_def)

section \<open>errno and machine integers\<close>

datatype errno_t =
    OK_errno
  | EBADF | EINVAL | ECONNRESET | EWOULDBLOCK | ENOMEM | ECOMM | EPROTO | EPERM
  | EHOSTUNREACH | EINPROGRESS | EINTR
  | Other_errno int   \<comment> \<open>any other value the operating system reports\<close>

text \<open>On the platforms the code runs on, \<open>EAGAIN\<close> and \<open>EWOULDBLOCK\<close> are the same number.\<close>

abbreviation EAGAIN :: errno_t where
  "EAGAIN \<equiv> EWOULDBLOCK"

text \<open>\<open>errno\<close> after a call that has set it to \<open>e\<close>, or left it alone.\<close>

definition keep_errno :: "errno_t option \<Rightarrow> errno_t \<Rightarrow> errno_t" where
  "keep_errno e old = (case e of None \<Rightarrow> old | Some e \<Rightarrow> e)"

type_synonym byte = "8 word"
type_synonym u64 = "64 word"

text \<open>\<open>return size;\<close> in a function of type \<open>ssize_t\<close>.\<close>

definition ssize_of :: "u64 \<Rightarrow> int" where
  "ssize_of n = sint n"

abbreviation sizeof_size_t :: int where
  "sizeof_size_t \<equiv> 8"

abbreviation sizeof_int :: u64 where
  "sizeof_int \<equiv> 4"

lemma ssize_of_nat:
  assumes "n < 2 ^ 63"
  shows "ssize_of (of_nat n) = int n"
proof -
  have "int n < 2 ^ 63" using assms by (metis of_nat_less_iff of_nat_numeral of_nat_power)
  then show ?thesis
    unfolding ssize_of_def
    by (simp add: sint_uint unsigned_of_nat take_bit_nat_eq_self_iff signed_of_nat signed_take_bit_int_eq_self
        take_bit_eq_mod)
qed

lemma unat_of_nat_u64: "n < 2 ^ 64 \<Longrightarrow> unat (of_nat n :: u64) = n"
  by (simp add: unat_of_nat take_bit_nat_eq_self_iff unsigned_of_nat)

lemma of_nat_u64_eq_0:
  assumes "n < 2 ^ 64"
  shows "(of_nat n :: u64) = 0 \<longleftrightarrow> n = 0"
proof
  assume "(of_nat n :: u64) = 0"
  then have "unat (of_nat n :: u64) = 0" by simp
  with unat_of_nat_u64 [OF assms] show "n = 0" by simp
qed simp

section \<open>Ordered maps\<close>

type_synonym ('k, 'v) smap = "('k \<times> 'v) list"

text \<open>\<open>m[k] = v\<close>, \<open>m.emplace(k, v)\<close> / \<open>m.insert({k, v})\<close>, \<open>m.erase(k)\<close>, \<open>m.find(k)\<close>.\<close>

fun smap_put :: "'k::linorder \<Rightarrow> 'v \<Rightarrow> ('k, 'v) smap \<Rightarrow> ('k, 'v) smap" where
  "smap_put k v [] = [(k, v)]"
| "smap_put k v ((k', v') # m) =
     (if k < k' then (k, v) # (k', v') # m
      else if k = k' then (k, v) # m
      else (k', v') # smap_put k v m)"

definition smap_get :: "('k, 'v) smap \<Rightarrow> 'k \<Rightarrow> 'v option" where
  "smap_get m k = map_of m k"

definition smap_emplace :: "'k::linorder \<Rightarrow> 'v \<Rightarrow> ('k, 'v) smap \<Rightarrow> ('k, 'v) smap" where
  "smap_emplace k v m = (case smap_get m k of None \<Rightarrow> smap_put k v m | Some _ \<Rightarrow> m)"

definition smap_erase :: "'k \<Rightarrow> ('k, 'v) smap \<Rightarrow> ('k, 'v) smap" where
  "smap_erase k m = filter (\<lambda>e. fst e \<noteq> k) m"

definition smap_has :: "('k, 'v) smap \<Rightarrow> 'k \<Rightarrow> bool" where
  "smap_has m k = (smap_get m k \<noteq> None)"

definition smap_ok :: "('k::linorder, 'v) smap \<Rightarrow> bool" where
  "smap_ok m = sorted_wrt (<) (map fst m)"

text \<open>The contract of \<open>std::map\<close> that the library's components rely on.\<close>

locale std_map =
  fixes put :: "'k::linorder \<Rightarrow> 'v \<Rightarrow> 'm \<Rightarrow> 'm"
    and emplace :: "'k \<Rightarrow> 'v \<Rightarrow> 'm \<Rightarrow> 'm"
    and erase :: "'k \<Rightarrow> 'm \<Rightarrow> 'm"
    and get :: "'m \<Rightarrow> 'k \<Rightarrow> 'v option"
    and keys :: "'m \<Rightarrow> 'k list"
    and valid :: "'m \<Rightarrow> bool"
  assumes get_put: "get (put k v m) j = (if j = k then Some v else get m j)"
    and get_emplace:
      "get (emplace k v m) j = (if j = k \<and> get m k = None then Some v else get m j)"
    and get_erase: "get (erase k m) j = (if j = k then None else get m j)"
    and keys_get: "k \<in> set (keys m) \<longleftrightarrow> get m k \<noteq> None"
    and keys_sorted: "valid m \<Longrightarrow> sorted_wrt (<) (keys m)"
    and valid_put: "valid m \<Longrightarrow> valid (put k v m)"
    and valid_emplace: "valid m \<Longrightarrow> valid (emplace k v m)"
    and valid_erase: "valid m \<Longrightarrow> valid (erase k m)"
begin

lemma get_put_same [simp]: "get (put k v m) k = Some v"
  by (simp add: get_put)

lemma get_put_other [simp]: "j \<noteq> k \<Longrightarrow> get (put k v m) j = get m j"
  by (simp add: get_put)

lemma erase_put: "get (erase k (put k v m)) = get (erase k m)"
  by (rule ext) (simp add: get_put get_erase)

lemma keys_put: "set (keys (put k v m)) = insert k (set (keys m))"
  by (auto simp: keys_get get_put split: if_splits)

lemma keys_erase: "set (keys (erase k m)) = set (keys m) - {k}"
  by (auto simp: keys_get get_erase split: if_splits)

lemma keys_distinct: "valid m \<Longrightarrow> distinct (keys m)"
  using keys_sorted strict_sorted_iff by blast

end

lemma smap_put_get: "smap_get (smap_put k v m) j = (if j = k then Some v else smap_get m j)"
  unfolding smap_get_def by (induction k v m rule: smap_put.induct) auto

lemma smap_erase_get: "smap_get (smap_erase k m) j = (if j = k then None else smap_get m j)"
  unfolding smap_get_def smap_erase_def by (induction m) auto

lemma smap_put_keys: "set (map fst (smap_put k v m)) = insert k (set (map fst m))"
  by (induction k v m rule: smap_put.induct) auto

lemma smap_put_ok: "smap_ok m \<Longrightarrow> smap_ok (smap_put k v m)"
proof (induction k v m rule: smap_put.induct)
  case (2 k v k' v' m)
  have "\<forall>x \<in> set (map fst (smap_put k v m)). k' < x"
    if "\<not> k < k'" "k \<noteq> k'" using that 2(2) unfolding smap_put_keys smap_ok_def by auto
  with 2 show ?case by (auto simp: smap_ok_def)
qed (simp add: smap_ok_def)

lemma smap_erase_ok: "smap_ok m \<Longrightarrow> smap_ok (smap_erase k m)"
  unfolding smap_ok_def smap_erase_def by (induction m) auto

lemma smap_emplace_ok: "smap_ok m \<Longrightarrow> smap_ok (smap_emplace k v m)"
  by (simp add: smap_emplace_def smap_put_ok split: option.splits)

interpretation smap: std_map smap_put smap_emplace smap_erase smap_get "map fst" smap_ok
proof
  show "k \<in> set (map fst m) \<longleftrightarrow> smap_get m k \<noteq> None" for k :: "'a" and m :: "('a, 'b) smap"
    by (simp add: smap_get_def map_of_eq_None_iff)
  show "sorted_wrt (<) (map fst m)" if "smap_ok m" for m :: "('a, 'b) smap"
    using that by (simp add: smap_ok_def)
qed (auto simp: smap_put_get smap_erase_get smap_put_ok smap_erase_ok smap_emplace_ok smap_emplace_def
      split: option.splits)

lemma smap_has_get [simp]: "smap_has m k \<longleftrightarrow> (\<exists>v. smap_get m k = Some v)"
  by (simp add: smap_has_def)

lemmas smap_laws = smap_put_get smap_erase_get smap.get_emplace

lemma smap_get_Nil [simp]: "smap_get [] k = None"
  by (simp add: smap_get_def)

end
