(* ===== verification/Handle.thy ===== *)
theory Handle
  imports Prelude
begin

text \<open>
  \<open>include/handle.hpp\<close> and \<open>include/protocolInterface.hpp\<close>: the communication handles.
  \<^item> \<open>hobj\<close> holds the members of \<open>CommunicationHandle\<close> and \<open>Handle\<close>; a \<open>Handle*\<close> is a \<open>hid\<close>, and the
    \<open>heap\<close> of a \<open>world\<close> maps the live objects, so that \<open>delete this\<close> is visible and a later access
    is \<open>Fault Use_after_free\<close>. Ids are never reused.
  \<^item> \<open>vtable\<close> is the dynamic dispatch: the virtual members a transport implements
    (\<open>send\<close>, \<open>probe\<close>, \<open>receive\<close>, \<open>sendEOS\<close>, \<open>peek\<close>) and the two notifications of its \<open>ConnType\<close>.
  \<^item> The locale \<open>transport\<close> is the contract between the handles and a transport: whatever a
    virtual member does to the transport's own state, it leaves the handle objects alone.
    The lemmas about closing, the reference counter and \<open>setAsClosed\<close> are proved in it once.
\<close>

section \<open>Objects\<close>

datatype handle_type = BROADCAST | FANIN | FANOUT | GATHER | P2P | INVALID_TYPE

type_synonym hid = nat

record hobj =
  handleName :: string
  probed :: "bool \<times> u64"
  closed_rd :: bool
  closed_wr :: bool
  counter :: int
  htype :: handle_type
  parent :: string   \<comment> \<open>\<open>instanceName\<close> of the \<open>ConnType\<close> that made the handle\<close>

definition new_handle :: "string \<Rightarrow> hobj" where
  "new_handle p = \<lparr>handleName = ''no-name-provided'', probed = (False, 0), closed_rd = False,
     closed_wr = False, counter = 0, htype = P2P, parent = p\<rparr>"

text \<open>\<open>net\<close> is the state of the registered transports.\<close>

record 'n world =
  heap :: "hid \<rightharpoonup> hobj"
  errno :: errno_t
  next_hid :: hid
  net :: 'n

definition obj :: "hid \<Rightarrow> ('n, 'x) world_scheme \<Rightarrow> hobj out" where
  "obj h w = (case heap w h of None \<Rightarrow> Fault Use_after_free | Some ob \<Rightarrow> Ret ob)"

definition put_obj :: "hid \<Rightarrow> hobj \<Rightarrow> ('n, 'x) world_scheme \<Rightarrow> ('n, 'x) world_scheme" where
  "put_obj h ob w = w\<lparr>heap := (heap w)(h \<mapsto> ob)\<rparr>"

definition upd_obj :: "hid \<Rightarrow> (hobj \<Rightarrow> hobj) \<Rightarrow> ('n, 'x) world_scheme \<Rightarrow> ('n, 'x) world_scheme out" where
  "upd_obj h f w = bnd (obj h w) (\<lambda>ob. Ret (put_obj h (f ob) w))"

definition delete_obj :: "hid \<Rightarrow> ('n, 'x) world_scheme \<Rightarrow> ('n, 'x) world_scheme" where
  "delete_obj h w = w\<lparr>heap := (heap w)(h := None)\<rparr>"

definition set_errno :: "errno_t \<Rightarrow> ('n, 'x) world_scheme \<Rightarrow> ('n, 'x) world_scheme" where
  "set_errno e w = w\<lparr>errno := e\<rparr>"

definition with_net ::
  "('n \<Rightarrow> 'n) \<Rightarrow> ('n, 'x) world_scheme \<Rightarrow> ('n, 'x) world_scheme" where
  "with_net f w = w\<lparr>net := f (net w)\<rparr>"

text \<open>\<open>new Handle...(parent)\<close>: the base members of a fresh object.\<close>

definition alloc_handle :: "string \<Rightarrow> ('n, 'x) world_scheme \<Rightarrow> hid \<times> ('n, 'x) world_scheme" where
  "alloc_handle p w =
     (next_hid w, w\<lparr>heap := (heap w)(next_hid w \<mapsto> new_handle p), next_hid := Suc (next_hid w)\<rparr>)"

lemma obj_Ret [simp]: "obj h w = Ret ob \<longleftrightarrow> heap w h = Some ob"
  by (auto simp: obj_def split: option.splits)

lemma obj_Some: "heap w h = Some ob \<Longrightarrow> obj h w = Ret ob"
  by simp

lemma obj_None: "heap w h = None \<Longrightarrow> obj h w = Fault Use_after_free"
  by (simp add: obj_def)

lemma heap_simps [simp]:
  "heap (put_obj h ob w) = (heap w)(h \<mapsto> ob)"
  "heap (delete_obj h w) = (heap w)(h := None)"
  "heap (set_errno e w) = heap w"
  "errno (set_errno e w) = e"
  "errno (put_obj h ob w) = errno w"
  "errno (delete_obj h w) = errno w"
  by (simp_all add: put_obj_def delete_obj_def set_errno_def)

lemma with_net_simps [simp]:
  "heap (with_net f w) = heap w"
  "errno (with_net f w) = errno w"
  "next_hid (with_net f w) = next_hid w"
  "net (with_net f w) = f (net w)"
  by (simp_all add: with_net_def)

lemma put_put_obj [simp]: "put_obj h ob (put_obj h ob' w) = put_obj h ob w"
  by (simp add: put_obj_def)

lemma upd_obj_Ret:
  "upd_obj h f w = Ret w' \<longleftrightarrow> (\<exists>ob. heap w h = Some ob \<and> w' = put_obj h (f ob) w)"
  by (auto simp: upd_obj_def out_simps)

lemma upd_obj_Some: "heap w h = Some ob \<Longrightarrow> upd_obj h f w = Ret (put_obj h (f ob) w)"
  by (simp add: upd_obj_def obj_Some)

lemma closed_same [simp]:
  "closed_wr ob \<Longrightarrow> ob\<lparr>closed_wr := True\<rparr> = ob"
  "\<not> closed_wr ob \<Longrightarrow> ob\<lparr>closed_wr := False\<rparr> = ob"
  "closed_rd ob \<Longrightarrow> ob\<lparr>closed_rd := True\<rparr> = ob"
  "\<not> closed_rd ob \<Longrightarrow> ob\<lparr>closed_rd := False\<rparr> = ob"
  by (cases ob; simp)+

section \<open>Virtual members\<close>

text \<open>
  \<open>probe(size_t& size, bool blocking)\<close> takes the current value of \<open>size\<close> and returns the new one.
  \<open>receive(buff, n)\<close> returns the bytes it has written to the start of \<open>buff\<close>.
\<close>

record 'w vtable =
  vt_send :: "hid \<Rightarrow> byte list \<Rightarrow> 'w \<Rightarrow> (int \<times> 'w) out"
  vt_probe :: "hid \<Rightarrow> bool \<Rightarrow> u64 \<Rightarrow> 'w \<Rightarrow> (int \<times> u64 \<times> 'w) out"
  vt_receive :: "hid \<Rightarrow> u64 \<Rightarrow> 'w \<Rightarrow> (int \<times> byte list \<times> 'w) out"
  vt_sendEOS :: "hid \<Rightarrow> 'w \<Rightarrow> (int \<times> 'w) out"
  vt_peek :: "hid \<Rightarrow> 'w \<Rightarrow> (bool \<times> 'w) out"
  vt_notify_close :: "hid \<Rightarrow> bool \<Rightarrow> bool \<Rightarrow> 'w \<Rightarrow> 'w out"
  vt_notify_yield :: "hid \<Rightarrow> 'w \<Rightarrow> 'w out"

section \<open>Operations of Handle\<close>

definition isClosed :: "hobj \<Rightarrow> bool" where
  "isClosed ob = (closed_rd ob \<and> closed_wr ob)"

definition comm_sendrecv :: "('n, 'x) world_scheme \<Rightarrow> int \<times> ('n, 'x) world_scheme" where
  "comm_sendrecv w = (-1, set_errno EINVAL w)"

definition incrementReferenceCounter :: "hid \<Rightarrow> ('n, 'x) world_scheme \<Rightarrow> ('n, 'x) world_scheme out" where
  "incrementReferenceCounter h w = upd_obj h (\<lambda>ob. ob\<lparr>counter := counter ob + 1\<rparr>) w"

definition decrementReferenceCounter :: "hid \<Rightarrow> ('n, 'x) world_scheme \<Rightarrow> ('n, 'x) world_scheme out" where
  "decrementReferenceCounter h w =
     bnd (upd_obj h (\<lambda>ob. ob\<lparr>counter := counter ob - 1\<rparr>) w) (\<lambda>w.
     bnd (obj h w) (\<lambda>ob.
     if counter ob = 0 \<and> closed_wr ob \<and> closed_rd ob then Ret (delete_obj h w) else Ret w))"

definition handle_yield ::
  "('n, 'x) world_scheme vtable \<Rightarrow> hid \<Rightarrow> ('n, 'x) world_scheme \<Rightarrow> ('n, 'x) world_scheme out" where
  "handle_yield V h w =
     bnd (obj h w) (\<lambda>ob. if \<not> closed_rd ob then vt_notify_yield V h w else Ret w)"

definition handle_close ::
  "('n, 'x) world_scheme vtable \<Rightarrow> hid \<Rightarrow> bool \<Rightarrow> bool \<Rightarrow> ('n, 'x) world_scheme \<Rightarrow> ('n, 'x) world_scheme out" where
  "handle_close V h close_wr close_rd w =
     bnd (obj h w) (\<lambda>ob.
     bnd (if close_wr \<and> \<not> closed_wr ob
          then bnd (vt_sendEOS V h w) (\<lambda>(_, w). upd_obj h (\<lambda>ob. ob\<lparr>closed_wr := True\<rparr>) w)
          else Ret w) (\<lambda>w.
     bnd (obj h w) (\<lambda>ob.
     bnd (if close_rd \<and> \<not> closed_rd ob
          then upd_obj h (\<lambda>ob. ob\<lparr>closed_rd := True\<rparr>) w else Ret w) (\<lambda>w.
     bnd (obj h w) (\<lambda>ob.
     bnd (vt_notify_close V h (closed_wr ob) (closed_rd ob) w) (\<lambda>w.
     bnd (obj h w) (\<lambda>ob.
     if counter ob = 0 \<and> closed_rd ob \<and> closed_wr ob then Ret (delete_obj h w) else Ret w)))))))"

text \<open>
  The \<open>while(true)\<close> loop of \<open>ConnType::setAsClosed\<close>, with a bound on the iterations. The result
  tells whether the loop was left by \<open>break\<close> (\<open>True\<close>) or by one of the two \<open>return\<close>s (\<open>False\<close>).
\<close>

fun drain_eos ::
  "nat \<Rightarrow> ('n, 'x) world_scheme vtable \<Rightarrow> hid \<Rightarrow> u64 \<Rightarrow> ('n, 'x) world_scheme \<Rightarrow> (bool \<times> ('n, 'x) world_scheme) out"
where
  "drain_eos 0 V h sz w = Fault No_return"
| "drain_eos (Suc n) V h sz w =
     bnd (obj h w) (\<lambda>ob.
     bnd (if fst (probed ob) then Ret (0, snd (probed ob), w) else vt_probe V h True sz w)
       (\<lambda>(r, sz, w).
     if r = -1 then Ret (False, w)
     else if sz = 0 then Ret (True, w)
     else bnd (vt_receive V h sz w) (\<lambda>(r, _, w).
       if r = -1 then Ret (False, w)
       else bnd (upd_obj h (\<lambda>ob. ob\<lparr>probed := (False, 0)\<rparr>) w) (\<lambda>w. drain_eos n V h sz w))))"

definition setAsClosed ::
  "nat \<Rightarrow> ('n, 'x) world_scheme vtable \<Rightarrow> hid \<Rightarrow> bool \<Rightarrow> ('n, 'x) world_scheme \<Rightarrow> ('n, 'x) world_scheme out" where
  "setAsClosed n V h blockflag w =
     bnd (obj h w) (\<lambda>ob.
     bnd (if \<not> closed_wr ob then handle_close V h True False w else Ret w) (\<lambda>w.
     bnd (if blockflag
          then bnd (obj h w) (\<lambda>ob. if \<not> closed_rd ob then drain_eos n V h 1 w else Ret (True, w))
          else Ret (True, w)) (\<lambda>(go_on, w).
     if go_on then handle_close V h False True w else Ret w)))"

text \<open>The loop of every \<open>end\<close>, over a copy of the table of connections.\<close>

fun each_handle ::
  "(hid \<Rightarrow> 'w \<Rightarrow> 'w out) \<Rightarrow> hid list \<Rightarrow> 'w \<Rightarrow> 'w out" where
  "each_handle f [] w = Ret w"
| "each_handle f (h # hs) w = bnd (f h w) (each_handle f hs)"

section \<open>The contract of a transport\<close>

locale transport =
  fixes V :: "('n, 'x) world_scheme vtable"
  assumes send_frame: "vt_send V h bs w = Ret (r, w') \<Longrightarrow> heap w' = heap w"
    and probe_frame: "vt_probe V h b sz w = Ret (r, sz', w') \<Longrightarrow> heap w' = heap w"
    and receive_frame: "vt_receive V h n w = Ret (r, bs, w') \<Longrightarrow> heap w' = heap w"
    and sendEOS_frame: "vt_sendEOS V h w = Ret (r, w') \<Longrightarrow> heap w' = heap w"
    and notify_close_frame: "vt_notify_close V h cw cr w = Ret w' \<Longrightarrow> heap w' = heap w"
    and notify_yield_frame: "vt_notify_yield V h w = Ret w' \<Longrightarrow> heap w' = heap w"
begin

lemmas frames = send_frame probe_frame receive_frame sendEOS_frame notify_close_frame
  notify_yield_frame

text \<open>The object after a close, and what remains of it in the heap.\<close>

lemma close_effect:
  assumes "handle_close V h cw cr w = Ret w'" and "heap w h = Some ob"
  shows "heap w' = (heap w)(h :=
           (if counter ob = 0 \<and> (closed_rd ob \<or> cr) \<and> (closed_wr ob \<or> cw) then None
            else Some (ob\<lparr>closed_wr := closed_wr ob \<or> cw, closed_rd := closed_rd ob \<or> cr\<rparr>)))"
  using assms
  by (cases cw; cases cr; cases "closed_wr ob"; cases "closed_rd ob")
    (auto simp: handle_close_def out_simps upd_obj_Ret split: if_splits
      dest!: notify_close_frame sendEOS_frame)

lemma close_keeps_referenced:
  assumes "handle_close V h cw cr w = Ret w'" and "heap w h = Some ob" and "counter ob \<noteq> 0"
  shows "heap w' h = Some (ob\<lparr>closed_wr := closed_wr ob \<or> cw, closed_rd := closed_rd ob \<or> cr\<rparr>)"
  using close_effect [OF assms(1,2)] assms(3) by simp

lemma close_live: "handle_close V h cw cr w = Ret w' \<Longrightarrow> \<exists>ob. heap w h = Some ob"
  by (auto simp: handle_close_def bnd_Ret_conv)

lemma close_other: "handle_close V h cw cr w = Ret w' \<Longrightarrow> k \<noteq> h \<Longrightarrow> heap w' k = heap w k"
  using close_live close_effect by (metis fun_upd_apply)

lemma close_dangling: "heap w h = None \<Longrightarrow> handle_close V h cw cr w = Fault Use_after_free"
  by (simp add: handle_close_def obj_None)

text \<open>The draining loop changes nothing of the objects but the pending header of \<open>h\<close>.\<close>

lemma drain_eos_object:
  assumes "drain_eos n V h sz w = Ret (b, w')" and "heap w h = Some ob"
  shows "\<exists>p. heap w' = (heap w)(h \<mapsto> ob\<lparr>probed := p\<rparr>)"
  using assms
proof (induction n arbitrary: sz w ob)
  case (Suc n)
  have same: "heap w = (heap w)(h \<mapsto> ob\<lparr>probed := probed ob\<rparr>)"
    using Suc.prems(2) by auto
  from Suc.prems obtain r sz1 w1 where
      step: "(if fst (probed ob) then Ret (0, snd (probed ob), w) else vt_probe V h True sz w)
        = Ret (r, sz1, w1)"
    and rest: "(if r = -1 then Ret (False, w1)
       else if sz1 = 0 then Ret (True, w1)
       else bnd (vt_receive V h sz1 w1) (\<lambda>(r, _, w).
         if r = -1 then Ret (False, w)
         else bnd (upd_obj h (\<lambda>ob. ob\<lparr>probed := (False, 0)\<rparr>) w) (\<lambda>w. drain_eos n V h sz1 w)))
        = Ret (b, w')"
    by (auto simp: out_simps obj_Some)
  have w1: "heap w1 = heap w"
    using step by (auto split: if_splits dest: probe_frame)
  show ?case
  proof (cases "r = -1 \<or> sz1 = 0")
    case True
    with rest w1 have "heap w' = heap w" by (auto split: if_splits)
    with same show ?thesis by (intro exI [of _ "probed ob"]) simp
  next
    case False
    with rest obtain r2 bs w2 where recv: "vt_receive V h sz1 w1 = Ret (r2, bs, w2)"
      and rest2: "(if r2 = -1 then Ret (False, w2)
         else bnd (upd_obj h (\<lambda>ob. ob\<lparr>probed := (False, 0)\<rparr>) w2) (\<lambda>w. drain_eos n V h sz1 w))
        = Ret (b, w')"
      by (auto simp: bnd_Ret_conv)
    from recv w1 have w2: "heap w2 = heap w" by (auto dest: receive_frame)
    show ?thesis
    proof (cases "r2 = -1")
      case True
      with rest2 w2 have "heap w' = heap w" by auto
      with same show ?thesis by (intro exI [of _ "probed ob"]) simp
    next
      case False
      let ?ob = "ob\<lparr>probed := (False, 0)\<rparr>"
      from False rest2 w2 Suc.prems(2)
      have again: "drain_eos n V h sz1 (put_obj h ?ob w2) = Ret (b, w')"
        by (auto simp: upd_obj_def bnd_Ret_conv)
      have live: "heap (put_obj h ?ob w2) h = Some ?ob" by simp
      from Suc.IH [OF again live] obtain p
        where "heap w' = (heap (put_obj h ?ob w2))(h \<mapsto> ?ob\<lparr>probed := p\<rparr>)" by blast
      with w2 show ?thesis by (intro exI [of _ p]) simp
    qed
  qed
qed simp

text \<open>
  A handle that survives \<open>setAsClosed\<close> is closed in both directions unless the draining loop
  was left by an error; a handle that no \<open>HandleUser\<close> references is freed.
\<close>

lemma setAsClosed_no_wait:
  assumes "setAsClosed n V h False w = Ret w'" and "heap w h = Some ob" and "\<not> closed_rd ob"
  shows "heap w' = (heap w)(h :=
           (if counter ob = 0 then None else Some (ob\<lparr>closed_wr := True, closed_rd := True\<rparr>)))"
proof (cases "closed_wr ob")
  case True
  with assms have "handle_close V h False True w = Ret w'"
    by (auto simp: setAsClosed_def bnd_Ret_conv)
  from close_effect [OF this assms(2)] True show ?thesis by simp
next
  case False
  with assms obtain w1 where w1: "handle_close V h True False w = Ret w1"
    and w': "handle_close V h False True w1 = Ret w'"
    by (auto simp: setAsClosed_def bnd_Ret_conv)
  from close_effect [OF w1 assms(2)] assms(3)
  have h1: "heap w1 = (heap w)(h \<mapsto> ob\<lparr>closed_wr := True\<rparr>)" by simp
  from close_effect [OF w', of "ob\<lparr>closed_wr := True\<rparr>"] h1 show ?thesis by simp
qed

end

end
