(* ===== verification/HandleUser.thy ===== *)
theory HandleUser
  imports Handle
begin

text \<open>
  \<open>include/handleUser.hpp\<close>: the object the application holds. It wraps a
  \<open>CommunicationHandle*\<close> (a transport handle or a collective context) together with the flags
  \<open>isReadable\<close> and \<open>newConnection\<close>, and it owns one unit of the wrapped object's reference counter.
  \<^item> \<open>comm\<close> is the dynamic dispatch of \<open>CommunicationHandle\<close>; \<open>handle_comm V\<close> are the members
    \<open>Handle\<close> gives it, \<open>CollectiveContext\<close> overrides them in its own theory.
  \<^item> A member function takes the \<open>HandleUser\<close> and returns it updated; \<open>errno\<close> and the objects are
    in the \<open>world\<close>.
  \<^item> The locale \<open>comm_frame\<close> says what the wrapper relies on: probing, sending and receiving leave
    the objects alone and closing keeps an object that is referenced. It is interpreted for every
    transport handle.
\<close>

record 'w comm =
  c_send :: "hid \<Rightarrow> byte list \<Rightarrow> 'w \<Rightarrow> (int \<times> 'w) out"
  c_probe :: "hid \<Rightarrow> bool \<Rightarrow> u64 \<Rightarrow> 'w \<Rightarrow> (int \<times> u64 \<times> 'w) out"
  c_receive :: "hid \<Rightarrow> u64 \<Rightarrow> 'w \<Rightarrow> (int \<times> byte list \<times> 'w) out"
  c_sendrecv :: "hid \<Rightarrow> byte list \<Rightarrow> byte list \<Rightarrow> u64 \<Rightarrow> 'w \<Rightarrow> (int \<times> byte list \<times> 'w) out"
  c_yield :: "hid \<Rightarrow> 'w \<Rightarrow> 'w out"
  c_close :: "hid \<Rightarrow> bool \<Rightarrow> bool \<Rightarrow> 'w \<Rightarrow> 'w out"
  c_getSize :: "hid \<Rightarrow> 'w \<Rightarrow> int out"

definition handle_comm :: "('n, 'x) world_scheme vtable \<Rightarrow> ('n, 'x) world_scheme comm" where
  "handle_comm V = \<lparr>c_send = vt_send V, c_probe = vt_probe V, c_receive = vt_receive V,
     c_sendrecv = (\<lambda>h sendbuff recvbuff recvsize w.
       Ret (fst (comm_sendrecv w), recvbuff, snd (comm_sendrecv w))),
     c_yield = handle_yield V, c_close = handle_close V, c_getSize = (\<lambda>h w. Ret 1)\<rparr>"

section \<open>Construction, assignment, destruction\<close>

record huser =
  realHandle :: "hid option"
  isReadable :: bool
  newConnection :: bool

definition huser_null :: huser where
  "huser_null = \<lparr>realHandle = None, isReadable = False, newConnection = False\<rparr>"

definition huser_new ::
  "hid option \<Rightarrow> bool \<Rightarrow> bool \<Rightarrow> ('n, 'x) world_scheme \<Rightarrow> (huser \<times> ('n, 'x) world_scheme) out" where
  "huser_new p r n w =
     bnd (case p of None \<Rightarrow> Ret w | Some h \<Rightarrow> incrementReferenceCounter h w) (\<lambda>w.
     Ret (\<lparr>realHandle = p, isReadable = r, newConnection = n\<rparr>, w))"

text \<open>\<open>*this = std::move(o)\<close> and the move constructor: the new \<open>*this\<close> and what is left in \<open>o\<close>.\<close>

definition huser_move_assign :: "huser \<Rightarrow> huser \<Rightarrow> huser \<times> huser" where
  "huser_move_assign this o1 =
     (this\<lparr>realHandle := realHandle o1, isReadable := isReadable o1,
           newConnection := newConnection o1\<rparr>,
      o1\<lparr>realHandle := None, isReadable := False, newConnection := False\<rparr>)"

definition huser_move :: "huser \<Rightarrow> huser \<times> huser" where
  "huser_move h =
     (\<lparr>realHandle = realHandle h, isReadable = isReadable h, newConnection = newConnection h\<rparr>,
      h\<lparr>realHandle := None, isReadable := False, newConnection := False\<rparr>)"

section \<open>Member functions\<close>

definition huser_yield ::
  "('n, 'x) world_scheme comm \<Rightarrow> huser \<Rightarrow> ('n, 'x) world_scheme \<Rightarrow> (huser \<times> ('n, 'x) world_scheme) out" where
  "huser_yield C u w =
     (let u = u\<lparr>isReadable := False, newConnection := False\<rparr>
      in bnd (case realHandle u of None \<Rightarrow> Ret w | Some h \<Rightarrow> c_yield C h w) (\<lambda>w. Ret (u, w)))"

definition huser_isValid :: "huser \<Rightarrow> bool" where
  "huser_isValid u = (realHandle u \<noteq> None)"

definition huser_isNewConnection :: "huser \<Rightarrow> bool" where
  "huser_isNewConnection u = newConnection u"

text \<open>\<open>(size_t)realHandle\<close>: the address, 0 for the null pointer.\<close>

definition huser_getID :: "huser \<Rightarrow> nat" where
  "huser_getID u = (case realHandle u of None \<Rightarrow> 0 | Some h \<Rightarrow> Suc h)"

definition huser_getName :: "huser \<Rightarrow> ('n, 'x) world_scheme \<Rightarrow> string out" where
  "huser_getName u w = deref (realHandle u) (\<lambda>h. bnd (obj h w) (\<lambda>ob. Ret (handleName ob)))"

definition huser_setName :: "huser \<Rightarrow> string \<Rightarrow> ('n, 'x) world_scheme \<Rightarrow> ('n, 'x) world_scheme out" where
  "huser_setName u s w = deref (realHandle u) (\<lambda>h. upd_obj h (\<lambda>ob. ob\<lparr>handleName := s\<rparr>) w)"

definition huser_send ::
  "('n, 'x) world_scheme comm \<Rightarrow> huser \<Rightarrow> byte list \<Rightarrow> ('n, 'x) world_scheme
     \<Rightarrow> (int \<times> huser \<times> ('n, 'x) world_scheme) out" where
  "huser_send C u bs w =
     (let u = u\<lparr>newConnection := False\<rparr>
      in case realHandle u of
           None \<Rightarrow> Ret (-1, u, set_errno EBADF w)
         | Some h \<Rightarrow> bnd (obj h w) (\<lambda>ob.
             if closed_wr ob then Ret (-1, u, set_errno EBADF w)
             else bnd (c_send C h bs w) (\<lambda>(r, w). Ret (r, u, w))))"

text \<open>
  \<open>probe\<close>. The first access to \<open>realHandle\<close> comes before its null check, so the check
  that sets \<open>EBADF\<close> is never reached with a null pointer.
\<close>

definition huser_probe ::
  "('n, 'x) world_scheme comm \<Rightarrow> huser \<Rightarrow> u64 \<Rightarrow> bool \<Rightarrow> ('n, 'x) world_scheme
     \<Rightarrow> (int \<times> u64 \<times> huser \<times> ('n, 'x) world_scheme) out" where
  "huser_probe C u sz blocking w =
     (let u = u\<lparr>newConnection := False\<rparr>
      in deref (realHandle u) (\<lambda>h.
      bnd (obj h w) (\<lambda>ob.
      if fst (probed ob)
      then Ret (if snd (probed ob) \<noteq> 0 then sizeof_size_t else 0, snd (probed ob), u, w)
      else if \<not> isReadable u then Ret (0, sz, u, w)
      else if closed_rd ob then Ret (0, sz, u, w)
      else bnd (c_probe C h blocking sz w) (\<lambda>(r, sz, w).
        if r \<le> 0 then
          (if r = 0 then
             bnd (c_close C h True True w) (\<lambda>w. Ret (0, sz, u\<lparr>isReadable := False\<rparr>, w))
           else if r = -1 \<and> errno w = EINVAL then Ret (-1, sz, u, w)
           else if r = -1 \<and> errno w = ECONNRESET then
             bnd (c_close C h True True w) (\<lambda>w. Ret (0, sz, u, w))
           else if r = -1 \<and> errno w = EWOULDBLOCK then
             Ret (-1, sz, u, set_errno EWOULDBLOCK w)
           else Ret (r, sz, u, w))
        else
          bnd (upd_obj h (\<lambda>ob. ob\<lparr>probed := (True, sz)\<rparr>) w) (\<lambda>w.
          if sz = 0 then
            bnd (c_close C h False True w) (\<lambda>w. Ret (0, sz, u\<lparr>isReadable := False\<rparr>, w))
          else Ret (r, sz, u, w))))))"

text \<open>
  \<open>receive(buff, size)\<close>: \<open>sz\<close> is the room in \<open>buff\<close>; the bytes are those written to its start.
  The local \<open>size_t\<close> given to \<open>probe\<close> is an output only, its initial value is immaterial.
\<close>

definition huser_receive ::
  "('n, 'x) world_scheme comm \<Rightarrow> huser \<Rightarrow> u64 \<Rightarrow> ('n, 'x) world_scheme
     \<Rightarrow> (int \<times> byte list \<times> huser \<times> ('n, 'x) world_scheme) out" where
  "huser_receive C u sz w =
     deref (realHandle u) (\<lambda>h.
     bnd (obj h w) (\<lambda>ob.
     bnd (if \<not> fst (probed ob)
          then bnd (huser_probe C u 0 True w) (\<lambda>(r, _, u, w).
                 Ret (if r \<le> 0 then Some r else None, u, w))
          else (let u = u\<lparr>newConnection := False\<rparr>
                in if \<not> isReadable u then Ret (Some 0, u, w)
                   else if closed_rd ob then Ret (Some 0, u, w)
                   else Ret (None, u, w))) (\<lambda>(early, u, w).
     case early of
       Some r \<Rightarrow> Ret (r, [], u, w)
     | None \<Rightarrow>
         bnd (obj h w) (\<lambda>ob.
         let n = snd (probed ob)
         in if n > sz then Ret (-1, [], u, set_errno ENOMEM w)
            else bnd (upd_obj h (\<lambda>ob. ob\<lparr>probed := (False, 0)\<rparr>) w) (\<lambda>w.
                 bnd (c_receive C h (min n sz) w) (\<lambda>(r, bs, w). Ret (r, bs, u, w)))))))"

definition huser_sendrecv ::
  "('n, 'x) world_scheme comm \<Rightarrow> huser \<Rightarrow> byte list \<Rightarrow> byte list \<Rightarrow> u64 \<Rightarrow> ('n, 'x) world_scheme
     \<Rightarrow> (int \<times> byte list \<times> ('n, 'x) world_scheme) out" where
  "huser_sendrecv C u sendbuff recvbuff recvsize w =
     deref (realHandle u) (\<lambda>h.
     bnd (upd_obj h (\<lambda>ob. ob\<lparr>probed := (False, 0)\<rparr>) w) (\<lambda>w.
     c_sendrecv C h sendbuff recvbuff recvsize w))"

definition huser_close ::
  "('n, 'x) world_scheme comm \<Rightarrow> huser \<Rightarrow> ('n, 'x) world_scheme \<Rightarrow> ('n, 'x) world_scheme out" where
  "huser_close C u w =
     (case realHandle u of None \<Rightarrow> Ret w | Some h \<Rightarrow> c_close C h True False w)"

definition huser_size ::
  "('n, 'x) world_scheme comm \<Rightarrow> huser \<Rightarrow> ('n, 'x) world_scheme \<Rightarrow> int out" where
  "huser_size C u w = deref (realHandle u) (\<lambda>h. c_getSize C h w)"

definition huser_isClosed :: "huser \<Rightarrow> ('n, 'x) world_scheme \<Rightarrow> (bool \<times> bool) out" where
  "huser_isClosed u w =
     (case realHandle u of
        None \<Rightarrow> Ret (True, True)
      | Some h \<Rightarrow> bnd (obj h w) (\<lambda>ob. Ret (closed_rd ob, closed_wr ob)))"

definition huser_getType :: "huser \<Rightarrow> ('n, 'x) world_scheme \<Rightarrow> handle_type out" where
  "huser_getType u w =
     (case realHandle u of
        None \<Rightarrow> Ret INVALID_TYPE
      | Some h \<Rightarrow> bnd (obj h w) (\<lambda>ob. Ret (htype ob)))"

definition huser_destroy ::
  "('n, 'x) world_scheme comm \<Rightarrow> huser \<Rightarrow> ('n, 'x) world_scheme \<Rightarrow> ('n, 'x) world_scheme out" where
  "huser_destroy C u w =
     (case realHandle u of
        None \<Rightarrow> Ret w
      | Some h \<Rightarrow>
          bnd (if isReadable u then bnd (huser_yield C u w) (\<lambda>(_, w). Ret w) else Ret w) (\<lambda>w.
          decrementReferenceCounter h w))"

section \<open>What the wrapper relies on\<close>

locale comm_frame =
  fixes C :: "('n, 'x) world_scheme comm"
  assumes c_send_frame: "c_send C h bs w = Ret (r, w') \<Longrightarrow> heap w' h = heap w h"
    and c_probe_frame: "c_probe C h b sz w = Ret (r, sz', w') \<Longrightarrow> heap w' h = heap w h"
    and c_receive_frame: "c_receive C h n w = Ret (r, bs, w') \<Longrightarrow> heap w' h = heap w h"
    and c_yield_frame: "c_yield C h w = Ret w' \<Longrightarrow> heap w' h = heap w h"
    and c_close_referenced:
      "c_close C h cw cr w = Ret w' \<Longrightarrow> heap w h = Some ob \<Longrightarrow> counter ob \<noteq> 0 \<Longrightarrow>
       heap w' h = Some (ob\<lparr>closed_wr := closed_wr ob \<or> cw, closed_rd := closed_rd ob \<or> cr\<rparr>)"
begin

text \<open>The header of an end-of-stream closes the reading side for good.\<close>

lemma probe_eos:
  assumes "huser_probe C u sz b w = Ret (r, sz', u', w')"
    and "realHandle u = Some h" and "heap w h = Some ob" and "counter ob \<noteq> 0"
    and "isReadable u" and "\<not> fst (probed ob)" and "\<not> closed_rd ob"
    and "c_probe C h b sz w = Ret (n, 0, w1)" and "0 < n"
  shows "r = 0 \<and> sz' = 0 \<and> \<not> isReadable u' \<and>
     heap w' h = Some (ob\<lparr>probed := (True, 0), closed_rd := True\<rparr>)"
proof -
  have w1: "heap w1 h = Some ob" using assms(3,8) c_probe_frame by metis
  from assms w1 obtain w2
    where cl: "c_close C h False True (put_obj h (ob\<lparr>probed := (True, 0)\<rparr>) w1) = Ret w2"
      and res: "r = 0" "sz' = 0" "\<not> isReadable u'" "w' = w2"
    by (auto simp: huser_probe_def Let_def obj_Some upd_obj_Some bnd_Ret_conv)
  from c_close_referenced [OF cl, of "ob\<lparr>probed := (True, 0)\<rparr>"] assms(4) res show ?thesis
    by simp
qed

text \<open>A probe keeps the wrapped object alive and changes its reference counter never.\<close>

lemma probe_keeps_object:
  assumes "huser_probe C u sz b w = Ret (r, sz', u', w')"
    and "realHandle u = Some h" and "heap w h = Some ob" and "counter ob \<noteq> 0"
  shows "realHandle u' = Some h \<and> (\<exists>ob'. heap w' h = Some ob' \<and> counter ob' = counter ob)"
proof (cases "fst (probed ob) \<or> \<not> isReadable u \<or> closed_rd ob")
  case True
  with assms show ?thesis
    by (auto simp: huser_probe_def Let_def obj_Some split: if_splits)
next
  case False
  with assms obtain n s w1 where p: "c_probe C h b sz w = Ret (n, s, w1)"
    by (auto simp: huser_probe_def Let_def obj_Some bnd_Ret_conv)
  from p assms(3) have w1: "heap w1 h = Some ob" using c_probe_frame by metis
  have closing: "\<exists>ob'. heap w2 h = Some ob' \<and> counter ob' = counter ob"
    if "c_close C h cw cr (put_obj h (ob\<lparr>probed := q\<rparr>) w1) = Ret w2" for cw cr q w2
    using c_close_referenced [OF that, of "ob\<lparr>probed := q\<rparr>"] assms(4) by simp
  have closing0: "\<exists>ob'. heap w2 h = Some ob' \<and> counter ob' = counter ob"
    if "c_close C h cw cr w1 = Ret w2" for cw cr w2
    using c_close_referenced [OF that w1 assms(4)] by simp
  from False assms p w1 show ?thesis
    by (auto simp: huser_probe_def Let_def obj_Some upd_obj_Some bnd_Ret_conv
        split: if_splits dest!: closing closing0)
qed

end

sublocale transport \<subseteq> handle: comm_frame "handle_comm V"
proof
  fix h cw cr ob and w w' :: "('n, 'x) world_scheme"
  assume "c_close (handle_comm V) h cw cr w = Ret w'" "heap w h = Some ob" "counter ob \<noteq> 0"
  then show "heap w' h =
      Some (ob\<lparr>closed_wr := closed_wr ob \<or> cw, closed_rd := closed_rd ob \<or> cr\<rparr>)"
    by (simp add: handle_comm_def close_keeps_referenced)
qed (auto simp: handle_comm_def handle_yield_def bnd_Ret_conv split: if_splits dest: frames)

section \<open>Reading\<close>

text \<open>A header that has been read is handed out again without another read.\<close>

lemma probe_pending:
  assumes "realHandle u = Some h" and "heap w h = Some ob" and "probed ob = (True, n)"
  shows "huser_probe C u sz b w =
     Ret (if n = 0 then 0 else sizeof_size_t, n, u\<lparr>newConnection := False\<rparr>, w)"
  using assms by (simp add: huser_probe_def obj_Some Let_def)

lemma receive_pending:
  assumes "realHandle u = Some h" and "heap w h = Some ob" and "probed ob = (True, n)"
    and "isReadable u" and "\<not> closed_rd ob"
  shows "huser_receive C u sz w =
     (let u = u\<lparr>newConnection := False\<rparr>
      in if n > sz then Ret (-1, [], u, set_errno ENOMEM w)
         else bnd (c_receive C h n (put_obj h (ob\<lparr>probed := (False, 0)\<rparr>) w))
                (\<lambda>(r, bs, w). Ret (r, bs, u, w)))"
  using assms by (auto simp: huser_receive_def obj_Some upd_obj_Some Let_def min_def not_le)

lemma receive_after_eos:
  assumes "realHandle u = Some h" and "heap w h = Some ob" and "fst (probed ob)"
    and "closed_rd ob"
  shows "huser_receive C u sz w = Ret (0, [], u\<lparr>newConnection := False\<rparr>, w)"
  using assms by (simp add: huser_receive_def obj_Some Let_def)

section \<open>Reference counting\<close>

lemma huser_new_destroy:
  assumes "huser_new (Some h) False n w = Ret (u, w1)" and "heap w h = Some ob"
    and "huser_destroy C u w1 = Ret w2"
  shows "heap w2 = (if counter ob = 0 \<and> closed_wr ob \<and> closed_rd ob then (heap w)(h := None)
                    else heap w)"
  using assms
  by (auto simp: huser_new_def huser_destroy_def incrementReferenceCounter_def
      decrementReferenceCounter_def upd_obj_Ret bnd_Ret_conv obj_Some fun_upd_idem_iff
      split: if_splits)

end
