(* ===== verification/TcpSocket.thy ===== *)
theory TcpSocket
  imports HandleUser
begin

unbundle bit_operations_syntax

text \<open>
  The byte stream of \<open>include/protocols/tcp.hpp\<close>: \<open>readn\<close>, \<open>writen\<close>, \<open>writevn\<close> and the members of
  \<open>HandleTCP\<close> on a file descriptor.
  \<^item> The operating system is a parameter: \<open>sock_io\<close> holds the system calls as functions over an
    arbitrary state \<open>'o\<close>. What POSIX documents of a connected stream socket is \<open>reads_stream\<close>
    (a read delivers a non-empty prefix of the pending bytes) and \<open>writes_stream\<close> (a write takes
    a non-empty prefix); how long the prefixes are is left open.
  \<^item> The header is \<open>htobe64(size)\<close> as it lies in the memory of a little-endian host.
\<close>

section \<open>Byte order\<close>

fun le_list :: "nat \<Rightarrow> u64 \<Rightarrow> byte list" where
  "le_list 0 x = []"
| "le_list (Suc n) x = ucast x # le_list n (drop_bit 8 x)"

fun of_le_bytes :: "byte list \<Rightarrow> u64" where
  "of_le_bytes [] = 0"
| "of_le_bytes (b # bs) = ucast b OR push_bit 8 (of_le_bytes bs)"

definition le_bytes :: "u64 \<Rightarrow> byte list" where
  "le_bytes x = le_list 8 x"

definition htobe64 :: "u64 \<Rightarrow> u64" where
  "htobe64 x = of_le_bytes (rev (le_bytes x))"

definition be64toh :: "u64 \<Rightarrow> u64" where
  "be64toh x = of_le_bytes (rev (le_bytes x))"

lemma le_list_length [simp]: "length (le_list n x) = n"
  by (induction n arbitrary: x) auto

lemma le_bytes_length [simp]: "length (le_bytes x) = 8"
  by (simp add: le_bytes_def)

lemma split_byte:
  "(ucast (ucast x :: byte) :: u64) OR push_bit 8 (take_bit n (drop_bit 8 x)) = take_bit (n + 8) x"
  by (rule bit_eqI) (auto simp: bit_simps)

lemma of_le_bytes_le_list: "of_le_bytes (le_list n x) = take_bit (8 * n) x"
  by (induction n arbitrary: x) (simp_all add: split_byte add.commute)

lemma of_le_bytes_le_bytes [simp]: "of_le_bytes (le_bytes x) = x"
  using of_le_bytes_le_list [of 8 x] by (simp add: le_bytes_def take_bit_word_eq_self)

lemma of_le_bytes_bound: "take_bit (8 * length bs) (of_le_bytes bs) = of_le_bytes bs"
proof (induction bs)
  case (Cons b bs)
  have "take_bit (8 + 8 * length bs) (ucast b OR push_bit 8 (of_le_bytes bs)) =
      ucast b OR push_bit 8 (take_bit (8 * length bs) (of_le_bytes bs))"
    by (rule bit_eqI) (auto simp: bit_simps dest: bit_imp_le_length)
  with Cons.IH show ?case by simp
qed simp

lemma low_byte: "(ucast (ucast b OR push_bit 8 y :: u64) :: byte) = b"
  by (rule bit_eqI) (auto simp: bit_simps)

lemma high_bytes: "take_bit 56 y = y \<Longrightarrow> drop_bit 8 (ucast (b :: byte) OR push_bit 8 y :: u64) = y"
proof (rule bit_eqI)
  fix n
  assume y: "take_bit 56 y = y"
  have "bit y n \<Longrightarrow> n < 56" by (subst (asm) y [symmetric]) (simp add: bit_simps)
  then show "bit (drop_bit 8 (ucast b OR push_bit 8 y)) n = bit y n"
    by (auto simp: bit_simps dest: bit_imp_le_length)
qed

lemma le_list_of_le_bytes: "length bs \<le> 8 \<Longrightarrow> le_list (length bs) (of_le_bytes bs) = bs"
proof (induction bs)
  case (Cons b bs)
  have "take_bit 56 (of_le_bytes bs) = take_bit 56 (take_bit (8 * length bs) (of_le_bytes bs))"
    by (simp only: of_le_bytes_bound)
  also have "\<dots> = take_bit (8 * length bs) (of_le_bytes bs)"
    using Cons.prems by (simp add: min_def)
  finally have "take_bit 56 (of_le_bytes bs) = of_le_bytes bs"
    by (simp only: of_le_bytes_bound)
  with Cons show ?case by (simp add: low_byte high_bytes del: drop_bit_or)
qed simp

lemma le_bytes_of_le_bytes: "length bs = 8 \<Longrightarrow> le_bytes (of_le_bytes bs) = bs"
  using le_list_of_le_bytes [of bs] by (simp add: le_bytes_def)

lemma be64toh_htobe64 [simp]: "be64toh (htobe64 x) = x"
  by (simp add: be64toh_def htobe64_def le_bytes_of_le_bytes)

lemma htobe64_0 [simp]: "htobe64 0 = 0"
  by (simp add: htobe64_def le_bytes_def numeral_eq_Suc)

section \<open>System calls\<close>

datatype rd_result = RErr errno_t | RBytes "byte list"   \<comment> \<open>\<open>RBytes []\<close> is end of file\<close>
datatype wr_result = WErr errno_t | WOk nat

text \<open>\<open>sk_junk\<close> is the indeterminate content of the local \<open>size_t sz\<close> of \<open>probe\<close>.\<close>

record 'o sock_io =
  sk_read :: "int \<Rightarrow> nat \<Rightarrow> 'o \<Rightarrow> rd_result \<times> 'o"
  sk_recv_nowait :: "int \<Rightarrow> nat \<Rightarrow> 'o \<Rightarrow> rd_result \<times> 'o"
  sk_recv_peek :: "int \<Rightarrow> nat \<Rightarrow> 'o \<Rightarrow> rd_result \<times> 'o"
  sk_write :: "int \<Rightarrow> byte list \<Rightarrow> 'o \<Rightarrow> wr_result \<times> 'o"
  sk_writev :: "int \<Rightarrow> byte list list \<Rightarrow> 'o \<Rightarrow> wr_result \<times> 'o"
  sk_junk :: "byte list"

section \<open>readn, writen, writevn\<close>

text \<open>The result: the return value, the bytes moved, the \<open>errno\<close> of a failed call, the new state.\<close>

function readn_loop ::
  "('o, 'a) sock_io_scheme \<Rightarrow> int \<Rightarrow> nat \<Rightarrow> nat \<Rightarrow> byte list \<Rightarrow> 'o
     \<Rightarrow> int \<times> byte list \<times> errno_t option \<times> 'o" where
  "readn_loop A fd n nleft got os =
     (if nleft = 0 then (int (n - nleft), got, None, os)
      else case sk_read A fd nleft os of
        (RErr e, os) \<Rightarrow>
          (if nleft = n then (-1, got, Some e, os) else (int (n - nleft), got, Some e, os))
      | (RBytes bs, os) \<Rightarrow>
          (if bs = [] then (int (n - nleft), got, None, os)
           else readn_loop A fd n (nleft - length bs) (got @ bs) os))"
  by pat_completeness auto
termination
  by (relation "measure (\<lambda>(A, fd, n, nleft, got, os). nleft)") auto

declare readn_loop.simps [simp del]

definition readn ::
  "('o, 'a) sock_io_scheme \<Rightarrow> int \<Rightarrow> nat \<Rightarrow> 'o \<Rightarrow> int \<times> byte list \<times> errno_t option \<times> 'o" where
  "readn A fd n os = readn_loop A fd n n [] os"

function writen_loop ::
  "('o, 'a) sock_io_scheme \<Rightarrow> int \<Rightarrow> nat \<Rightarrow> byte list \<Rightarrow> 'o \<Rightarrow> int \<times> errno_t option \<times> 'o" where
  "writen_loop A fd n bs os =
     (if bs = [] then (int (n - length bs), None, os)
      else case sk_write A fd bs os of
        (WErr e, os) \<Rightarrow>
          (if length bs = n then (-1, Some e, os) else (int (n - length bs), Some e, os))
      | (WOk k, os) \<Rightarrow>
          (if k = 0 then (int (n - length bs), None, os)
           else writen_loop A fd n (drop k bs) os))"
  by pat_completeness auto
termination
  by (relation "measure (\<lambda>(A, fd, n, bs, os). length bs)") (auto simp: length_greater_0_conv)

declare writen_loop.simps [simp del]

definition writen ::
  "('o, 'a) sock_io_scheme \<Rightarrow> int \<Rightarrow> byte list \<Rightarrow> 'o \<Rightarrow> int \<times> errno_t option \<times> 'o" where
  "writen A fd bs os = writen_loop A fd (length bs) bs os"

text \<open>The inner loop of \<open>writevn\<close>: what is left of the vector after \<open>k\<close> bytes of it.\<close>

fun iov_advance :: "nat \<Rightarrow> byte list list \<Rightarrow> byte list list" where
  "iov_advance k [] = []"
| "iov_advance k (v # vs) =
     (if length v \<le> k then iov_advance (k - length v) vs else drop k v # vs)"

text \<open>
  \<open>writevn\<close> calls \<open>writev\<close> again as long as bytes are left, also when the call has written
  nothing, so the number of calls is bounded here.
\<close>

fun writevn ::
  "nat \<Rightarrow> ('o, 'a) sock_io_scheme \<Rightarrow> int \<Rightarrow> byte list list \<Rightarrow> 'o \<Rightarrow> (int \<times> errno_t option \<times> 'o) out"
where
  "writevn 0 A fd iov os = Fault No_return"
| "writevn (Suc c) A fd iov os =
     (case sk_writev A fd iov os of
        (WErr e, os) \<Rightarrow> Ret (-1, Some e, os)
      | (WOk k, os) \<Rightarrow>
          (case iov_advance k iov of
             [] \<Rightarrow> Ret (1, None, os)
           | v # vs \<Rightarrow> writevn c A fd (v # vs) os))"

section \<open>HandleTCP on a descriptor\<close>

definition tcp_frame :: "byte list \<Rightarrow> byte list list" where
  "tcp_frame bs = [le_bytes (htobe64 (of_nat (length bs))), bs]"

definition fd_sendEOS ::
  "('o, 'a) sock_io_scheme \<Rightarrow> int \<Rightarrow> 'o \<Rightarrow> int \<times> errno_t option \<times> 'o" where
  "fd_sendEOS A fd os = writen A fd (le_bytes 0) os"

definition fd_send ::
  "('o, 'a) sock_io_scheme \<Rightarrow> int \<Rightarrow> byte list \<Rightarrow> 'o \<Rightarrow> (int \<times> errno_t option \<times> 'o) out" where
  "fd_send A fd bs os =
     bnd (writevn (length (concat (tcp_frame bs))) A fd (tcp_frame bs) os) (\<lambda>(r, e, os).
     if r < 0 then Ret (-1, e, os) else Ret (ssize_of (of_nat (length bs)), e, os))"

definition fd_probe ::
  "('o, 'a) sock_io_scheme \<Rightarrow> int \<Rightarrow> bool \<Rightarrow> u64 \<Rightarrow> 'o \<Rightarrow> int \<times> u64 \<times> errno_t option \<times> 'o" where
  "fd_probe A fd blocking sz os =
     (let (r, bs, e, os) =
        (if blocking then readn A fd 8 os
         else case sk_recv_nowait A fd 8 os of
                (RErr e, os) \<Rightarrow> (-1, [], Some e, os)
              | (RBytes bs, os) \<Rightarrow> (int (length bs), bs, None, os))
      in if r \<le> 0 then (r, sz, e, os)
         else (sizeof_size_t, be64toh (of_le_bytes (bs @ drop (length bs) (take 8 (sk_junk A)))), e, os))"

text \<open>\<open>return r;\<close> in \<open>bool peek()\<close>: every value but 0 is \<open>true\<close>.\<close>

definition fd_peek ::
  "('o, 'a) sock_io_scheme \<Rightarrow> int \<Rightarrow> 'o \<Rightarrow> bool \<times> errno_t option \<times> 'o" where
  "fd_peek A fd os =
     (case sk_recv_peek A fd 8 os of
        (RErr e, os) \<Rightarrow> ((-1 :: int) \<noteq> 0, Some e, os)
      | (RBytes bs, os) \<Rightarrow> (int (length bs) \<noteq> 0, None, os))"

definition fd_receive ::
  "('o, 'a) sock_io_scheme \<Rightarrow> int \<Rightarrow> u64 \<Rightarrow> 'o \<Rightarrow> int \<times> byte list \<times> errno_t option \<times> 'o" where
  "fd_receive A fd sz os = readn A fd (unat sz) os"

section \<open>Stream sockets\<close>

text \<open>
  \<open>inq fd os\<close> are the bytes the peer has written that have not been read yet, \<open>outq fd os\<close> all
  bytes written so far.
\<close>

definition reads_stream :: "('o, 'a) sock_io_scheme \<Rightarrow> (int \<Rightarrow> 'o \<Rightarrow> byte list) \<Rightarrow> bool" where
  "reads_stream A inq \<longleftrightarrow>
     (\<forall>fd n os. 0 < n \<and> inq fd os \<noteq> [] \<longrightarrow>
        (\<exists>k os'. 0 < k \<and> k \<le> n \<and> k \<le> length (inq fd os) \<and>
           sk_read A fd n os = (RBytes (take k (inq fd os)), os') \<and>
           inq fd os' = drop k (inq fd os)))"

definition writes_stream :: "('o, 'a) sock_io_scheme \<Rightarrow> (int \<Rightarrow> 'o \<Rightarrow> byte list) \<Rightarrow> bool" where
  "writes_stream A outq \<longleftrightarrow>
     (\<forall>fd iov os. concat iov \<noteq> [] \<longrightarrow>
        (\<exists>k os'. 0 < k \<and> k \<le> length (concat iov) \<and>
           sk_writev A fd iov os = (WOk k, os') \<and>
           outq fd os' = outq fd os @ take k (concat iov)))"

lemma readn_loop_stream:
  assumes "reads_stream A inq" and "nleft \<le> n" and "nleft \<le> length (inq fd os)"
  shows "\<exists>os'. readn_loop A fd n nleft got os = (int n, got @ take nleft (inq fd os), None, os')
           \<and> inq fd os' = drop nleft (inq fd os)"
  using assms(2,3)
proof (induction nleft arbitrary: got os rule: less_induct)
  case (less nleft)
  show ?case
  proof (cases "nleft = 0")
    case True
    then show ?thesis by (simp add: readn_loop.simps [of A fd n 0])
  next
    case False
    with less.prems have "inq fd os \<noteq> []" by auto
    with False assms(1) obtain k os1 where k: "0 < k" "k \<le> nleft" "k \<le> length (inq fd os)"
      and rd: "sk_read A fd nleft os = (RBytes (take k (inq fd os)), os1)"
      and inq1: "inq fd os1 = drop k (inq fd os)"
      unfolding reads_stream_def by blast
    have "nleft - k \<le> length (inq fd os1)" "nleft - k < nleft"
      using less.prems k inq1 False by auto
    with less.IH [of "nleft - k" os1 "got @ take k (inq fd os)"] less.prems obtain os2
      where os2: "readn_loop A fd n (nleft - k) (got @ take k (inq fd os)) os1 =
          (int n, (got @ take k (inq fd os)) @ take (nleft - k) (inq fd os1), None, os2)"
        "inq fd os2 = drop (nleft - k) (inq fd os1)"
      by auto
    have "take k (inq fd os) @ take (nleft - k) (inq fd os1) = take nleft (inq fd os)"
      using k inq1 by (metis le_add_diff_inverse take_add)
    moreover have "drop (nleft - k) (inq fd os1) = drop nleft (inq fd os)"
      using k inq1 by simp
    moreover have "take k (inq fd os) \<noteq> []" "length (take k (inq fd os)) = k" using k by auto
    ultimately show ?thesis
      using False rd os2 by (simp add: readn_loop.simps [of A fd n nleft got os] del: take_eq_Nil length_take)
  qed
qed

lemma readn_stream:
  assumes "reads_stream A inq" and "n \<le> length (inq fd os)"
  shows "\<exists>os'. readn A fd n os = (int n, take n (inq fd os), None, os')
           \<and> inq fd os' = drop n (inq fd os)"
  unfolding readn_def using readn_loop_stream [OF assms(1) order_refl assms(2), of "[]"] by simp

lemma iov_advance_concat: "concat (iov_advance k iov) = drop k (concat iov)"
  by (induction k iov rule: iov_advance.induct) auto

lemma iov_advance_Nil:
  "k < length (concat iov) \<Longrightarrow> iov_advance k iov \<noteq> []"
  using iov_advance_concat [of k iov] by auto

lemma iov_advance_all: "length (concat iov) \<le> k \<Longrightarrow> iov_advance k iov = []"
  by (induction k iov rule: iov_advance.induct) auto

lemma writevn_stream:
  assumes "writes_stream A outq"
  shows "concat iov \<noteq> [] \<Longrightarrow> length (concat iov) \<le> c \<Longrightarrow>
    \<exists>os'. writevn c A fd iov os = Ret (1, None, os') \<and> outq fd os' = outq fd os @ concat iov"
proof (induction c arbitrary: iov os)
  case (Suc c)
  from Suc.prems(1) assms obtain k os1 where k: "0 < k" "k \<le> length (concat iov)"
    and wr: "sk_writev A fd iov os = (WOk k, os1)"
    and outq1: "outq fd os1 = outq fd os @ take k (concat iov)"
    unfolding writes_stream_def by blast
  show ?case
  proof (cases "k = length (concat iov)")
    case True
    then show ?thesis using wr outq1 by (simp add: iov_advance_all)
  next
    case False
    with k have "iov_advance k iov \<noteq> []" by (intro iov_advance_Nil) simp
    then obtain v vs where vs: "iov_advance k iov = v # vs" by (cases "iov_advance k iov") auto
    then have rest: "concat (v # vs) = drop k (concat iov)" using iov_advance_concat by metis
    with False k have "concat (v # vs) \<noteq> []" "length (concat (v # vs)) \<le> c"
      using Suc.prems(2) by (auto simp del: concat.simps)
    from Suc.IH [OF this, of os1] obtain os2
      where "writevn c A fd (v # vs) os1 = Ret (1, None, os2)"
        "outq fd os2 = outq fd os1 @ concat (v # vs)" by blast
    then show ?thesis using wr vs outq1 rest by (simp del: concat.simps)
  qed
qed simp

section \<open>Messages\<close>

lemma frame_length: "length (concat (tcp_frame bs)) = 8 + length bs"
  by (simp add: tcp_frame_def)

lemma fd_send_stream:
  assumes "writes_stream A outq" and "length bs < 2 ^ 63"
  shows "\<exists>os'. fd_send A fd bs os = Ret (int (length bs), None, os')
           \<and> outq fd os' = outq fd os @ concat (tcp_frame bs)"
proof -
  have "concat (tcp_frame bs) \<noteq> []" using frame_length [of bs] by (metis add_is_0 list.size(3) zero_neq_numeral)
  from writevn_stream [OF assms(1) this order_refl, of fd os] assms(2) show ?thesis
    by (auto simp: fd_send_def ssize_of_nat)
qed

lemma fd_probe_stream:
  assumes "reads_stream A inq" and "inq fd os = concat (tcp_frame bs) @ rest"
  shows "\<exists>os'. fd_probe A fd True sz os = (sizeof_size_t, of_nat (length bs), None, os')
           \<and> inq fd os' = bs @ rest"
  using readn_stream [OF assms(1), of 8 fd os] assms(2)
  by (auto simp: fd_probe_def tcp_frame_def le_bytes_of_le_bytes)

lemma fd_receive_stream:
  assumes "reads_stream A inq" and "inq fd os = bs @ rest" and "length bs < 2 ^ 64"
  shows "\<exists>os'. fd_receive A fd (of_nat (length bs)) os = (int (length bs), bs, None, os')
           \<and> inq fd os' = rest"
  using readn_stream [OF assms(1), of "length bs" fd os] assms(2,3)
  by (auto simp: fd_receive_def unat_of_nat_u64)

end
