(* ===== verification/CxxString.thy ===== *)
theory CxxString
  imports Prelude
begin

text \<open>
  The members of \<open>std::string\<close> and the conversions of the standard library that the sources use,
  with the exceptions they throw, and \<open>getPoolFromHost\<close> of \<open>include/utils.hpp\<close>.
\<close>

text \<open>\<open>s.find(c)\<close>: the first position, \<open>None\<close> for \<open>npos\<close>.\<close>

fun find_char :: "char \<Rightarrow> string \<Rightarrow> nat option" where
  "find_char c [] = None"
| "find_char c (x # xs) = (if x = c then Some 0 else map_option Suc (find_char c xs))"

definition colon :: char where
  "colon = CHR '':''"

text \<open>\<open>s.find(t)\<close> for a string \<open>t\<close>, as the test \<open>!= npos\<close>.\<close>

fun is_prefix :: "string \<Rightarrow> string \<Rightarrow> bool" where
  "is_prefix [] s = True"
| "is_prefix (t # ts) [] = False"
| "is_prefix (t # ts) (c # s) = (t = c \<and> is_prefix ts s)"

fun contains :: "string \<Rightarrow> string \<Rightarrow> bool" where
  "contains t [] = (t = [])"
| "contains t (c # s) = (is_prefix t (c # s) \<or> contains t s)"

text \<open>\<open>s.substr(pos)\<close>, \<open>s.substr(0, n)\<close> and \<open>s.substr(0, s.find(':'))\<close>.\<close>

definition substr_from :: "nat \<Rightarrow> string \<Rightarrow> string out" where
  "substr_from pos s = (if length s < pos then Fault Out_of_range else Ret (drop pos s))"

definition before_colon :: "string \<Rightarrow> string" where
  "before_colon s = (case find_char colon s of None \<Rightarrow> s | Some p \<Rightarrow> take p s)"

text \<open>\<open>s.substr(s.find(':') + 1, \<dots>)\<close>: \<open>npos + 1\<close> is 0.\<close>

definition after_colon :: "string \<Rightarrow> string" where
  "after_colon s = (case find_char colon s of None \<Rightarrow> s | Some p \<Rightarrow> drop (Suc p) s)"

definition getPoolFromHost :: "string \<Rightarrow> string" where
  "getPoolFromHost host = (case find_char colon host of None \<Rightarrow> [] | Some pos \<Rightarrow> take pos host)"

text \<open>\<open>std::stoi\<close> and \<open>std::stol\<close>: leading white space, a sign, digits; what follows the digits is ignored. The result
  has \<open>b\<close> bits.\<close>

definition is_space :: "char \<Rightarrow> bool" where
  "is_space c = (c \<in> {CHR '' '', CHR 0x09, CHR 0x0A, CHR 0x0B, CHR 0x0C, CHR 0x0D})"

definition digit_value :: "char \<Rightarrow> nat option" where
  "digit_value c =
     (let n = (of_char c :: nat) in if 48 \<le> n \<and> n \<le> 57 then Some (n - 48) else None)"

fun digits_value :: "nat \<Rightarrow> string \<Rightarrow> nat" where
  "digits_value acc [] = acc"
| "digits_value acc (c # s) =
     (case digit_value c of None \<Rightarrow> acc | Some d \<Rightarrow> digits_value (10 * acc + d) s)"

definition string_to_int :: "nat \<Rightarrow> string \<Rightarrow> int out" where
  "string_to_int b s =
     (let s = dropWhile is_space s;
          (neg, s) = (case s of
            CHR ''-'' # t \<Rightarrow> (True, t) | CHR ''+'' # t \<Rightarrow> (False, t) | _ \<Rightarrow> (False, s));
          v = int (digits_value 0 s);
          v = (if neg then - v else v)
      in if (case s of [] \<Rightarrow> True | c # _ \<Rightarrow> digit_value c = None) then Fault Invalid_argument
         else if v < - (2 ^ (b - 1)) \<or> 2 ^ (b - 1) \<le> v then Fault Out_of_range
         else Ret v)"

definition stoi :: "string \<Rightarrow> int out" where
  "stoi s = string_to_int 32 s"

definition stol :: "string \<Rightarrow> int out" where
  "stol s = string_to_int 64 s"

text \<open>\<open>std::to_string\<close>.\<close>

definition digit_char :: "nat \<Rightarrow> char" where
  "digit_char d = char_of (48 + d)"

fun nat_to_string :: "nat \<Rightarrow> string" where
  "nat_to_string n = (if n < 10 then [digit_char n] else nat_to_string (n div 10) @ [digit_char (n mod 10)])"

declare nat_to_string.simps [simp del]

definition to_string :: "int \<Rightarrow> string" where
  "to_string i = (if i < 0 then CHR ''-'' # nat_to_string (nat (- i)) else nat_to_string (nat i))"

text \<open>The loop \<open>while(std::getline(is, line, ':'))\<close>: the lines of a string.\<close>

fun split_aux :: "string \<Rightarrow> string \<Rightarrow> string list" where
  "split_aux cur [] = (if cur = [] then [] else [rev cur])"
| "split_aux cur (c # s) = (if c = colon then rev cur # split_aux [] s else split_aux (c # cur) s)"

definition getlines :: "string \<Rightarrow> string list" where
  "getlines s = split_aux [] s"

text \<open>The bytes of a string, and \<open>std::string(p)\<close> for a character pointer: up to the first NUL.\<close>

definition bytes_of_string :: "string \<Rightarrow> byte list" where
  "bytes_of_string s = map (\<lambda>c. of_nat (of_char c)) s"

definition c_string :: "byte list \<Rightarrow> string" where
  "c_string bs = map (\<lambda>b. char_of (unat b)) (takeWhile (\<lambda>b. b \<noteq> 0) bs)"

lemma bytes_of_string_length [simp]: "length (bytes_of_string s) = length s"
  by (simp add: bytes_of_string_def)

lemma char_byte: "char_of (unat (of_nat (of_char c) :: byte)) = c"
proof -
  have "(of_char c :: nat) < 2 ^ 8" using mod_less_divisor [of 256 "of_char c"] by simp
  then have "unat (of_nat (of_char c) :: byte) = of_char c"
    by (simp add: unsigned_of_nat take_bit_nat_eq_self)
  then show ?thesis by simp
qed

lemma char_byte_0: "(of_nat (of_char c) :: byte) = 0 \<longleftrightarrow> c = CHR 0x00"
proof
  assume "(of_nat (of_char c) :: byte) = 0"
  then have "char_of (unat (of_nat (of_char c) :: byte)) = char_of (unat (0 :: byte))" by simp
  then have "c = char_of (0 :: nat)" unfolding char_byte by simp
  then show "c = CHR 0x00" by (simp add: char_of_def)
qed simp

lemma c_string_bytes:
  assumes "CHR 0x00 \<notin> set s"
  shows "c_string (bytes_of_string s) = s"
proof -
  have "takeWhile (\<lambda>b. b \<noteq> 0) (bytes_of_string s) = bytes_of_string s"
    unfolding takeWhile_eq_all_conv using assms by (auto simp: bytes_of_string_def char_byte_0)
  then show ?thesis unfolding c_string_def
    by (simp only: bytes_of_string_def map_map comp_def char_byte map_ident)
qed

lemma find_char_None: "find_char c s = None \<longleftrightarrow> c \<notin> set s"
  by (induction s) auto

lemma find_char_append: "c \<notin> set s \<Longrightarrow> find_char c (s @ c # t) = Some (length s)"
  by (induction s) auto

lemma before_after_colon:
  assumes "colon \<notin> set s"
  shows "before_colon (s @ colon # t) = s" and "after_colon (s @ colon # t) = t"
  using assms by (simp_all add: before_colon_def after_colon_def find_char_append)

lemma before_colon_no_colon: "colon \<notin> set s \<Longrightarrow> before_colon s = s"
  by (simp add: before_colon_def find_char_None [THEN iffD2])

lemma substr_after_colon:
  "colon \<notin> set s \<Longrightarrow> substr_from (length s + 1) (s @ colon # t) = Ret t"
  by (simp add: substr_from_def)

lemma getPool_no_colon: "colon \<notin> set s \<Longrightarrow> getPoolFromHost s = []"
  by (simp add: getPoolFromHost_def find_char_None [THEN iffD2])

lemma getPool_colon: "colon \<notin> set s \<Longrightarrow> getPoolFromHost (s @ colon # t) = s"
  by (simp add: getPoolFromHost_def find_char_append)

lemma digit_value_char: "d < 10 \<Longrightarrow> digit_value (digit_char d) = Some d"
  by (simp add: digit_value_def digit_char_def Let_def of_char_of)

lemma digits_value_append:
  "\<forall>c \<in> set s. digit_value c \<noteq> None \<Longrightarrow> digits_value acc (s @ t) = digits_value (digits_value acc s) t"
  by (induction acc s rule: digits_value.induct) auto

lemma nat_to_string_digits: "\<forall>c \<in> set (nat_to_string n). digit_value c \<noteq> None"
  by (induction n rule: nat_to_string.induct)
    (subst nat_to_string.simps, auto simp: digit_value_char)

lemma digits_value_nat_to_string: "digits_value 0 (nat_to_string n) = n"
proof (induction n rule: nat_to_string.induct)
  case (1 n)
  then show ?case
    using nat_to_string_digits
    by (subst nat_to_string.simps) (auto simp: digit_value_char digits_value_append)
qed

lemma split_aux_append_colon:
  "colon \<notin> set x \<Longrightarrow> split_aux cur (x @ colon # s) = (rev cur @ x) # split_aux [] s"
  by (induction x arbitrary: cur) auto

lemma split_aux_last: "colon \<notin> set x \<Longrightarrow> x \<noteq> [] \<or> cur \<noteq> [] \<Longrightarrow> split_aux cur x = [rev cur @ x]"
  by (induction x arbitrary: cur) auto

text \<open>Joining component names with colons, the form of a \<open>participants\<close> string.\<close>

fun join_colon :: "string list \<Rightarrow> string" where
  "join_colon [] = []"
| "join_colon [x] = x"
| "join_colon (x # y # xs) = x @ colon # join_colon (y # xs)"

lemma getlines_join:
  "\<forall>x \<in> set xs. colon \<notin> set x \<and> x \<noteq> [] \<Longrightarrow> getlines (join_colon xs) = xs"
  unfolding getlines_def
  by (induction xs rule: join_colon.induct) (auto simp: split_aux_append_colon split_aux_last)

end
