(* ===== verification/TcpConnect.thy ===== *)
theory TcpConnect
  imports TcpSocket CxxString "HOL-Library.Signed_Division"
begin

text \<open>
  The two \<open>internal_connect\<close> functions of \<open>include/utils.hpp\<close>: a connect with a deadline on one
  address, and the loop over the resolved addresses with retries. The system calls are fields of
  \<open>tcp_sys\<close>; each returns its result and the \<open>errno\<close> it sets, if any.
\<close>

type_synonym sockaddr = "byte list"
type_synonym sysret = "int \<times> errno_t option"

record 'o tcp_sys = "'o sock_io" +
  sk_fcntl_getfl :: "int \<Rightarrow> 'o \<Rightarrow> sysret \<times> 'o"
  sk_fcntl_setfl :: "int \<Rightarrow> int \<Rightarrow> 'o \<Rightarrow> sysret \<times> 'o"
  sk_connect :: "int \<Rightarrow> sockaddr \<Rightarrow> 'o \<Rightarrow> sysret \<times> 'o"
  sk_clock :: "'o \<Rightarrow> (sysret \<times> int \<times> int) \<times> 'o"   \<comment> \<open>\<open>tv_sec\<close>, \<open>tv_nsec\<close>\<close>
  sk_poll_out :: "int \<Rightarrow> int \<Rightarrow> 'o \<Rightarrow> sysret \<times> 'o"
  sk_so_error :: "int \<Rightarrow> 'o \<Rightarrow> (sysret \<times> errno_t) \<times> 'o"
  sk_getaddrinfo :: "bool \<Rightarrow> string \<Rightarrow> string \<Rightarrow> 'o \<Rightarrow> (sockaddr list option) \<times> 'o"
  sk_socket :: "sockaddr option \<Rightarrow> 'o \<Rightarrow> sysret \<times> 'o"
  sk_setsockopt :: "int \<Rightarrow> 'o \<Rightarrow> sysret \<times> 'o"
  sk_bind :: "int \<Rightarrow> sockaddr \<Rightarrow> 'o \<Rightarrow> sysret \<times> 'o"
  sk_listen :: "int \<Rightarrow> nat \<Rightarrow> 'o \<Rightarrow> sysret \<times> 'o"
  sk_accept :: "int \<Rightarrow> 'o \<Rightarrow> sysret \<times> 'o"
  sk_select :: "int \<Rightarrow> int set \<Rightarrow> 'o \<Rightarrow> (sysret \<times> int set) \<times> 'o"
  sk_shutdown_wr :: "int \<Rightarrow> 'o \<Rightarrow> 'o"
  sk_shutdown_rd :: "int \<Rightarrow> 'o \<Rightarrow> 'o"
  sk_close :: "int \<Rightarrow> 'o \<Rightarrow> 'o"
  sk_sleep_ms :: "nat \<Rightarrow> 'o \<Rightarrow> 'o"

definition O_NONBLOCK :: int where
  "O_NONBLOCK = 2048"

definition UNREACHABLE_ADDR_TIMOUT :: int where
  "UNREACHABLE_ADDR_TIMOUT = 100"

section \<open>Waiting for one connect\<close>

definition ms_until :: "int \<times> int \<Rightarrow> int \<times> int \<Rightarrow> int" where
  "ms_until deadline now =
     (fst deadline - fst now) * 1000 + (snd deadline - snd now) sdiv 1000000"

text \<open>
  The inner \<open>do \<dots> while(rc==-1 && errno==EINTR)\<close>, with a bound on its iterations. State:
  \<open>rc\<close> is the result, then \<open>saved_errno\<close>, \<open>errno\<close> and the system.
\<close>

fun poll_loop ::
  "nat \<Rightarrow> ('o, 'a) tcp_sys_scheme \<Rightarrow> int \<Rightarrow> int \<times> int \<Rightarrow> errno_t \<Rightarrow> errno_t \<Rightarrow> 'o
     \<Rightarrow> (int \<times> errno_t \<times> errno_t \<times> 'o) out" where
  "poll_loop 0 A fd deadline saved en os = Fault No_return"
| "poll_loop (Suc c) A fd deadline saved en os =
     (let (((r, e), now), os) = sk_clock A os; en = keep_errno e en
      in if r < 0 then Ret (-1, saved, en, os)
         else let ms = ms_until deadline now
         in if ms < 0 then Ret (0, saved, en, os)
            else
              let ((rc, e), os) = sk_poll_out A fd ms os;
                  en = keep_errno e en;
                  (rc, saved, en, os) =
                    (if 0 < rc then
                       let (((retval, e), error), os) = sk_so_error A fd os;
                           error = (if retval = 0 then error else OK_errno);
                           saved = (if retval = 0 then error else saved)
                       in (if error \<noteq> OK_errno then -1 else rc, saved, keep_errno e en, os)
                     else (rc, saved, en, os))
              in if rc = -1 \<and> en = EINTR then poll_loop c A fd deadline saved en os
                 else Ret (rc, saved, en, os))"

definition connect_fd ::
  "nat \<Rightarrow> ('o, 'a) tcp_sys_scheme \<Rightarrow> int \<Rightarrow> sockaddr \<Rightarrow> errno_t \<Rightarrow> 'o
     \<Rightarrow> (int \<times> errno_t \<times> 'o) out" where
  "connect_fd c A fd addr en os =
     (let ((r, e), os) = sk_fcntl_getfl A fd os;
          en = keep_errno e en;
          sockfd_flags_before = (if r < 0 then 1 else 0)  \<comment> \<open>\<open>(x = fcntl(\<dots>) < 0)\<close> binds this way\<close>
      in if sockfd_flags_before \<noteq> 0 then Ret (-1, en, os)
      else
      let ((r, e), os) = sk_fcntl_setfl A fd (or sockfd_flags_before O_NONBLOCK) os;
          en = keep_errno e en
      in if r < 0 then Ret (-1, en, os)
      else
      let ((r, e), os) = sk_connect A fd addr os;
          en = keep_errno e en
      in bnd
        (if r < 0 then
           (if en \<noteq> EWOULDBLOCK \<and> en \<noteq> EINPROGRESS then Ret (-1, en, en, os)
            else let (((r, e), now), os) = sk_clock A os; en = keep_errno e en
            in if r < 0 then Ret (-1, EHOSTUNREACH, en, os)
               else bnd (poll_loop c A fd
                      (fst now, snd now + UNREACHABLE_ADDR_TIMOUT * 1000000) EHOSTUNREACH en os)
                    (\<lambda>(rc, saved, en, os). Ret (if rc = 0 then -1 else rc, saved, en, os)))
         else Ret (0, OK_errno, en, os)) (\<lambda>(rc, saved, en, os).
      let ((r, e), os) = sk_fcntl_setfl A fd sockfd_flags_before os
      in if r < 0 then Ret (-1, keep_errno e en, os) else Ret (rc, saved, os)))"

section \<open>Trying the resolved addresses\<close>

text \<open>
  The \<open>for\<close> loop over the results of \<open>getaddrinfo\<close>: the connected descriptor and whether one was
  found.
\<close>

fun try_addrs ::
  "nat \<Rightarrow> ('o, 'a) tcp_sys_scheme \<Rightarrow> sockaddr list \<Rightarrow> errno_t \<Rightarrow> 'o
     \<Rightarrow> (int option \<times> errno_t \<times> 'o) out" where
  "try_addrs c A [] en os = Ret (None, en, os)"
| "try_addrs c A (rp # rps) en os =
     (let ((fd, e), os) = sk_socket A (Some rp) os; en = keep_errno e en
      in if fd = -1 then try_addrs c A rps en os
         else bnd (connect_fd c A fd rp en os) (\<lambda>(r, en, os).
              if r \<noteq> -1 then Ret (Some fd, en, os)
              else try_addrs c A rps en (sk_close A fd os)))"

text \<open>The outer \<open>do \<dots> while(retry>0)\<close>.\<close>

function retry_loop ::
  "nat \<Rightarrow> ('o, 'a) tcp_sys_scheme \<Rightarrow> sockaddr list \<Rightarrow> int \<Rightarrow> nat \<Rightarrow> errno_t \<Rightarrow> 'o
     \<Rightarrow> (int option \<times> errno_t \<times> 'o) out" where
  "retry_loop c A addrs retry timeout_ms en os =
     bnd (try_addrs c A addrs en os) (\<lambda>(fd, en, os).
     case fd of
       Some fd \<Rightarrow> Ret (Some fd, en, os)
     | None \<Rightarrow>
         let os = sk_sleep_ms A timeout_ms os
         in if 0 < retry - 1 then retry_loop c A addrs (retry - 1) timeout_ms en os
            else Ret (None, en, os))"
  by pat_completeness auto
termination
  by (relation "measure (\<lambda>(c, A, addrs, retry, timeout_ms, en, os). nat retry)") auto

declare retry_loop.simps [simp del]

definition internal_connect ::
  "nat \<Rightarrow> ('o, 'a) tcp_sys_scheme \<Rightarrow> string \<Rightarrow> int \<Rightarrow> nat \<Rightarrow> errno_t \<Rightarrow> 'o
     \<Rightarrow> (int \<times> errno_t \<times> 'o) out" where
  "internal_connect c A address retry timeout_ms en os =
     (let host = before_colon address
      in bnd (substr_from (length host + 1) address) (\<lambda>svc.
         case sk_getaddrinfo A False host svc os of
           (None, os) \<Rightarrow> Ret (-1, en, os)
         | (Some addrs, os) \<Rightarrow>
             bnd (retry_loop c A addrs retry timeout_ms en os) (\<lambda>(fd, en, os).
             case fd of None \<Rightarrow> Ret (-1, en, os) | Some fd \<Rightarrow> Ret (fd, en, os))))"

section \<open>Lemmas\<close>

text \<open>With \<open>retry \<le> 1\<close>, the default of \<open>Manager::connect\<close> among them, the addresses are tried once.\<close>

lemma retry_once:
  "retry \<le> 1 \<Longrightarrow> retry_loop c A addrs retry t en os =
     bnd (try_addrs c A addrs en os) (\<lambda>(fd, en, os).
     Ret (fd, en, case fd of None \<Rightarrow> sk_sleep_ms A t os | Some _ \<Rightarrow> os))"
  by (subst retry_loop.simps, cases "try_addrs c A addrs en os")
    (auto simp: Let_def split: option.splits)

lemma internal_connect_no_port:
  assumes "colon \<notin> set address"
  shows "internal_connect c A address retry t en os = Fault Out_of_range"
  using assms by (simp add: internal_connect_def before_colon_no_colon substr_from_def)

end
