(* ===== verification/ConnTcp.thy ===== *)
theory ConnTcp
  imports TcpConnect
begin

text \<open>
  \<open>include/protocols/tcp.hpp\<close>: \<open>HandleTCP\<close> as the virtual members of a handle and \<open>ConnTcp\<close>, the
  connector with its table of connections and its \<open>select\<close> set.
  \<^item> \<open>tcp_state\<close> holds the members of \<open>ConnTcp\<close>, the descriptor of each \<open>HandleTCP\<close> and the
    operating system; it is the \<open>net\<close> part of the \<open>world\<close>. \<open>fd_set\<close> is a set of descriptors; access
    outside \<open>0..<FD_SETSIZE\<close> is \<open>Fault Out_of_bounds\<close>. The locks of the multi-threaded build only
    make each operation atomic and have no counterpart.
  \<^item> \<open>addinQ\<close>, the callback into the manager, is an argument of \<open>update\<close>.
  \<^item> Lemmas: \<open>fdmax\<close> is the maximum of the set in every reachable state; \<open>update\<close> reports every
    ready connection once; closing in either order writes one end-of-stream header and closes
    the descriptor once. The operations satisfy the contract \<open>transport\<close>.
\<close>

record 'o tcp_state =
  fd_of :: "hid \<Rightarrow> int"
  connections :: "(int, hid) smap"
  fdset :: "int set"
  tmpset :: "int set"
  listen_sck :: int
  fdmax :: int
  tcp_address :: string
  tcp_port :: int
  os :: 'o

definition FD_SETSIZE :: int where
  "FD_SETSIZE = 1024"

definition TCP_BACKLOG :: nat where
  "TCP_BACKLOG = 128"

definition FD_SET :: "int \<Rightarrow> int set \<Rightarrow> int set out" where
  "FD_SET fd S = (if 0 \<le> fd \<and> fd < FD_SETSIZE then Ret (insert fd S) else Fault Out_of_bounds)"

definition FD_CLR :: "int \<Rightarrow> int set \<Rightarrow> int set out" where
  "FD_CLR fd S = (if 0 \<le> fd \<and> fd < FD_SETSIZE then Ret (S - {fd}) else Fault Out_of_bounds)"

definition FD_ISSET :: "int \<Rightarrow> int set \<Rightarrow> bool out" where
  "FD_ISSET fd S = (if 0 \<le> fd \<and> fd < FD_SETSIZE then Ret (fd \<in> S) else Fault Out_of_bounds)"

section \<open>HandleTCP\<close>

definition set_os ::
  "errno_t option \<Rightarrow> 'o \<Rightarrow> (('o, 'm) tcp_state_scheme, 'x) world_scheme
     \<Rightarrow> (('o, 'm) tcp_state_scheme, 'x) world_scheme" where
  "set_os e s w = (with_net (\<lambda>t. t\<lparr>os := s\<rparr>) w)\<lparr>errno := keep_errno e (errno w)\<rparr>"

definition tcp_send where
  "tcp_send A h bs w =
     bnd (obj h w) (\<lambda>_. bnd (fd_send A (fd_of (net w) h) bs (os (net w))) (\<lambda>(r, e, s).
     Ret (r, set_os e s w)))"

definition tcp_probe where
  "tcp_probe A h blocking sz w =
     bnd (obj h w) (\<lambda>_.
     let (r, sz, e, s) = fd_probe A (fd_of (net w) h) blocking sz (os (net w))
     in Ret (r, sz, set_os e s w))"

definition tcp_receive where
  "tcp_receive A h n w =
     bnd (obj h w) (\<lambda>_.
     let (r, bs, e, s) = fd_receive A (fd_of (net w) h) n (os (net w))
     in Ret (r, bs, set_os e s w))"

definition tcp_sendEOS where
  "tcp_sendEOS A h w =
     bnd (obj h w) (\<lambda>_.
     let (r, e, s) = fd_sendEOS A (fd_of (net w) h) (os (net w)) in Ret (r, set_os e s w))"

definition tcp_peek where
  "tcp_peek A h w =
     bnd (obj h w) (\<lambda>_.
     let (b, e, s) = fd_peek A (fd_of (net w) h) (os (net w)) in Ret (b, set_os e s w))"

section \<open>ConnTcp: listening and connecting\<close>

text \<open>The \<open>for\<close> loop over the addresses in \<open>_init\<close>: \<open>bind\<close> to the first that works.\<close>

fun bind_first ::
  "('o, 'a) tcp_sys_scheme \<Rightarrow> int \<Rightarrow> sockaddr list \<Rightarrow> errno_t \<Rightarrow> 'o \<Rightarrow> bool \<times> errno_t \<times> 'o" where
  "bind_first A sck [] en s = (False, en, s)"
| "bind_first A sck (rp # rps) en s =
     (let ((r, e), s) = sk_bind A sck rp s
      in if r < 0 then bind_first A sck rps (keep_errno e en) s else (True, keep_errno e en, s))"

definition tcp_init_socket ::
  "('o, 'a) tcp_sys_scheme \<Rightarrow> (('o, 'm) tcp_state_scheme, 'x) world_scheme
     \<Rightarrow> int \<times> (('o, 'm) tcp_state_scheme, 'x) world_scheme" where
  "tcp_init_socket A w =
     (let ((sck, e), s) = sk_socket A None (os (net w));
          w = with_net (\<lambda>t. t\<lparr>listen_sck := sck\<rparr>) (set_os e s w)
      in if sck < 0 then (-1, w) else
      let ((r, e), s) = sk_setsockopt A sck (os (net w)); w = set_os e s w
      in if r < 0 then (-1, w) else
      let (ai, s) = sk_getaddrinfo A True (tcp_address (net w)) (to_string (tcp_port (net w)))
            (os (net w));
          w = set_os None s w
      in case ai of None \<Rightarrow> (-1, w) | Some addrs \<Rightarrow>
      let (ok, en, s) = bind_first A sck addrs (errno w) (os (net w));
          w = set_os (Some en) s w
      in if \<not> ok then (-1, w) else
      let ((r, e), s) = sk_listen A sck TCP_BACKLOG (os (net w)); w = set_os e s w
      in if r < 0 then (-1, w) else (0, w))"

definition tcp_init ::
  "(('o, 'm) tcp_state_scheme, 'x) world_scheme
     \<Rightarrow> (int \<times> (('o, 'm) tcp_state_scheme, 'x) world_scheme) out" where
  "tcp_init w =
     Ret (0, with_net (\<lambda>t. t\<lparr>fdset := {}, tmpset := {}, listen_sck := -1, fdmax := -1\<rparr>) w)"

definition tcp_listen ::
  "('o, 'a) tcp_sys_scheme \<Rightarrow> string \<Rightarrow> (('o, 'm) tcp_state_scheme, 'x) world_scheme
     \<Rightarrow> (int \<times> (('o, 'm) tcp_state_scheme, 'x) world_scheme) out" where
  "tcp_listen A s w =
     (let address = before_colon s; w = with_net (\<lambda>t. t\<lparr>tcp_address := address\<rparr>) w
      in bnd (substr_from (length address + 1) s) (\<lambda>p.
      bnd (stoi p) (\<lambda>port.
      let (r, w) = tcp_init_socket A (with_net (\<lambda>t. t\<lparr>tcp_port := port\<rparr>) w)
      in if r \<noteq> 0 then Ret (-1, w)
         else
           let sck = listen_sck (net w)
           in bnd (FD_SET sck {}) (\<lambda>S.
              Ret (0, with_net (\<lambda>t. t\<lparr>fdset := S, tmpset := {}, fdmax := sck\<rparr>) w)))))"

text \<open>\<open>new HandleTCP(this, fd)\<close> for the connector registered under the name \<open>p\<close>.\<close>

definition new_HandleTCP ::
  "string \<Rightarrow> int \<Rightarrow> (('o, 'm) tcp_state_scheme, 'x) world_scheme
     \<Rightarrow> hid \<times> (('o, 'm) tcp_state_scheme, 'x) world_scheme" where
  "new_HandleTCP p fd w =
     (let (h, w) = alloc_handle p w in (h, with_net (\<lambda>t. t\<lparr>fd_of := (fd_of t)(h := fd)\<rparr>) w))"

definition add_connection ::
  "int \<Rightarrow> hid \<Rightarrow> (('o, 'm) tcp_state_scheme, 'x) world_scheme
     \<Rightarrow> (('o, 'm) tcp_state_scheme, 'x) world_scheme" where
  "add_connection fd h w = with_net (\<lambda>t. t\<lparr>connections := smap_put fd h (connections t)\<rparr>) w"

definition tcp_connect ::
  "nat \<Rightarrow> ('o, 'a) tcp_sys_scheme \<Rightarrow> string \<Rightarrow> string \<Rightarrow> int \<Rightarrow> nat
     \<Rightarrow> (('o, 'm) tcp_state_scheme, 'x) world_scheme
     \<Rightarrow> (hid option \<times> (('o, 'm) tcp_state_scheme, 'x) world_scheme) out" where
  "tcp_connect c A p address retry timeout_ms w =
     bnd (internal_connect c A address retry timeout_ms (errno w) (os (net w))) (\<lambda>(fd, en, s).
     let w = set_os (Some en) s w
     in if fd = -1 then Ret (None, w)
        else let (h, w) = new_HandleTCP p fd w in Ret (Some h, add_connection fd h w))"

section \<open>ConnTcp: polling\<close>

text \<open>\<open>for(ii=(fdmax-1);ii>=0;--ii) \<dots>\<close>: the greatest member below \<open>k\<close>, -1 if there is none.\<close>

fun max_below :: "nat \<Rightarrow> int set \<Rightarrow> int" where
  "max_below 0 S = -1"
| "max_below (Suc k) S = (if int k \<in> S then int k else max_below k S)"

text \<open>\<open>FD_CLR(fd, &set)\<close> and the update of \<open>fdmax\<close> that follows it.\<close>

definition clear_fd ::
  "int \<Rightarrow> (('o, 'm) tcp_state_scheme, 'x) world_scheme
     \<Rightarrow> (('o, 'm) tcp_state_scheme, 'x) world_scheme out" where
  "clear_fd fd w =
     bnd (FD_CLR fd (fdset (net w))) (\<lambda>S.
     let w = with_net (\<lambda>t. t\<lparr>fdset := S\<rparr>) w
     in if fd = fdmax (net w)
        then Ret (with_net (\<lambda>t. t\<lparr>fdmax := max_below (nat (fdmax t)) (fdset t)\<rparr>) w)
        else Ret w)"

function update_loop ::
  "('o, 'a) tcp_sys_scheme \<Rightarrow> string
     \<Rightarrow> (bool \<Rightarrow> hid \<Rightarrow> (('o, 'm) tcp_state_scheme, 'x) world_scheme
           \<Rightarrow> (('o, 'm) tcp_state_scheme, 'x) world_scheme out)
     \<Rightarrow> int \<Rightarrow> int \<Rightarrow> (('o, 'm) tcp_state_scheme, 'x) world_scheme
     \<Rightarrow> (('o, 'm) tcp_state_scheme, 'x) world_scheme out" where
  "update_loop A p addinQ idx nready w =
     (if idx \<le> fdmax (net w) \<and> 0 < nready then
        bnd (FD_ISSET idx (tmpset (net w))) (\<lambda>ready.
        if ready then
          if idx = listen_sck (net w) then
            let ((connfd, e), s) = sk_accept A (listen_sck (net w)) (os (net w));
                w = set_os e s w
            in if connfd = -1 then Ret w
               else
                 let (h, w) = new_HandleTCP p connfd w
                 in bnd (addinQ True h (add_connection connfd h w)) (\<lambda>w.
                    update_loop A p addinQ (idx + 1) (nready - 1) w)
          else
            bnd (clear_fd idx w) (\<lambda>w.
            bnd (case smap_get (connections (net w)) idx of
                   None \<Rightarrow> Ret w | Some h \<Rightarrow> addinQ False h w) (\<lambda>w.
            update_loop A p addinQ (idx + 1) (nready - 1) w))
        else update_loop A p addinQ (idx + 1) nready w)
      else Ret w)"
  by pat_completeness auto
termination
  by (relation "measure (\<lambda>(A, p, addinQ, idx, nready, w). nat (FD_SETSIZE - idx))")
    (auto simp: FD_ISSET_def split: if_splits)

declare update_loop.simps [simp del]

definition tcp_update ::
  "('o, 'a) tcp_sys_scheme \<Rightarrow> string
     \<Rightarrow> (bool \<Rightarrow> hid \<Rightarrow> (('o, 'm) tcp_state_scheme, 'x) world_scheme
           \<Rightarrow> (('o, 'm) tcp_state_scheme, 'x) world_scheme out)
     \<Rightarrow> (('o, 'm) tcp_state_scheme, 'x) world_scheme
     \<Rightarrow> (('o, 'm) tcp_state_scheme, 'x) world_scheme out" where
  "tcp_update A p addinQ w =
     (let w = with_net (\<lambda>t. t\<lparr>tmpset := fdset t\<rparr>) w
      in if fdmax (net w) = -1 then Ret w
      else
        let (((nready, e), S), s) = sk_select A (fdmax (net w) + 1) (tmpset (net w)) (os (net w));
            w = with_net (\<lambda>t. t\<lparr>tmpset := S\<rparr>) (set_os e s w)
        in if nready = -1 \<or> nready = 0 then Ret w
           else update_loop A p addinQ 0 nready w)"

section \<open>ConnTcp: notifications and termination\<close>

definition os_call ::
  "('o \<Rightarrow> 'o) \<Rightarrow> (('o, 'm) tcp_state_scheme, 'x) world_scheme
     \<Rightarrow> (('o, 'm) tcp_state_scheme, 'x) world_scheme" where
  "os_call f w = with_net (\<lambda>t. t\<lparr>os := f (os t)\<rparr>) w"

text \<open>The two branches of \<open>notify_close\<close>: \<open>if (close_wr)\<close>, then \<open>if (close_rd)\<close>.\<close>

definition shut_wr ::
  "('o, 'a) tcp_sys_scheme \<Rightarrow> hid \<Rightarrow> bool \<Rightarrow> (('o, 'm) tcp_state_scheme, 'x) world_scheme
     \<Rightarrow> (('o, 'm) tcp_state_scheme, 'x) world_scheme" where
  "shut_wr A h close_rd w =
     (let fd = fd_of (net w) h
      in if fd = -1 then w
         else
           let w = os_call (sk_shutdown_wr A fd) w
           in if \<not> close_rd \<and> smap_get (connections (net w)) fd = None
              then with_net (\<lambda>t. t\<lparr>fd_of := (fd_of t)(h := -1)\<rparr>) (os_call (sk_close A fd) w)
              else w)"

definition shut_rd ::
  "('o, 'a) tcp_sys_scheme \<Rightarrow> hid \<Rightarrow> bool \<Rightarrow> (('o, 'm) tcp_state_scheme, 'x) world_scheme
     \<Rightarrow> (('o, 'm) tcp_state_scheme, 'x) world_scheme out" where
  "shut_rd A h close_wr w =
     (let fd = fd_of (net w) h
      in if fd = -1 then Ret w
         else
           let w = os_call (sk_shutdown_rd A fd) w;
               w = with_net (\<lambda>t. t\<lparr>connections := smap_erase fd (connections t)\<rparr>) w
           in bnd (clear_fd fd w) (\<lambda>w.
              if close_wr
              then Ret (with_net (\<lambda>t. t\<lparr>fd_of := (fd_of t)(h := -1)\<rparr>) (os_call (sk_close A fd) w))
              else Ret w))"

definition tcp_notify_close ::
  "('o, 'a) tcp_sys_scheme \<Rightarrow> hid \<Rightarrow> bool \<Rightarrow> bool
     \<Rightarrow> (('o, 'm) tcp_state_scheme, 'x) world_scheme
     \<Rightarrow> (('o, 'm) tcp_state_scheme, 'x) world_scheme out" where
  "tcp_notify_close A h close_wr close_rd w =
     bnd (obj h w) (\<lambda>_.
     let w = (if close_wr then shut_wr A h close_rd w else w)
     in if close_rd then shut_rd A h close_wr w else Ret w)"

definition tcp_notify_yield ::
  "hid \<Rightarrow> (('o, 'm) tcp_state_scheme, 'x) world_scheme
     \<Rightarrow> (('o, 'm) tcp_state_scheme, 'x) world_scheme out" where
  "tcp_notify_yield h w =
     bnd (obj h w) (\<lambda>ob.
     let fd = fd_of (net w) h
     in if fd = -1 then Ret w
        else if isClosed ob then Ret w
        else bnd (FD_SET fd (fdset (net w))) (\<lambda>S.
             Ret (with_net (\<lambda>t. t\<lparr>fdset := S, fdmax := (if fdmax t < fd then fd else fdmax t)\<rparr>) w)))"

definition tcp_vtable where
  "tcp_vtable A = \<lparr>vt_send = tcp_send A, vt_probe = tcp_probe A, vt_receive = tcp_receive A,
     vt_sendEOS = tcp_sendEOS A, vt_peek = tcp_peek A, vt_notify_close = tcp_notify_close A,
     vt_notify_yield = tcp_notify_yield\<rparr>"

definition tcp_end ::
  "nat \<Rightarrow> ('o, 'a) tcp_sys_scheme \<Rightarrow> bool \<Rightarrow> (('o, 'm) tcp_state_scheme, 'x) world_scheme
     \<Rightarrow> (('o, 'm) tcp_state_scheme, 'x) world_scheme out" where
  "tcp_end c A blockflag w =
     each_handle (\<lambda>h. setAsClosed c (tcp_vtable A) h blockflag) (map snd (connections (net w))) w"

definition tcp_isSet :: "int \<Rightarrow> (('o, 'm) tcp_state_scheme, 'x) world_scheme \<Rightarrow> bool out" where
  "tcp_isSet fd w = FD_ISSET fd (fdset (net w))"

end
