(* ===== verification/SampleOs.thy ===== *)
theory SampleOs
  imports TcpConnect
begin

text \<open>
  A small operating system on which the theorems about sockets are instantiated: one stream in
  each direction, reads that deliver at most three bytes and writes that take at most five,
  a \<open>select\<close> that reports every descriptor it is asked about, descriptors numbered from \<open>so_next\<close>.
  It satisfies the contracts \<open>reads_stream\<close> and \<open>writes_stream\<close>.
\<close>

record sos =
  so_in :: "byte list"
  so_out :: "byte list"
  so_next :: int

definition so_read :: "int \<Rightarrow> nat \<Rightarrow> sos \<Rightarrow> rd_result \<times> sos" where
  "so_read fd n s =
     (let k = min (min n 3) (length (so_in s))
      in (RBytes (take k (so_in s)), s\<lparr>so_in := drop k (so_in s)\<rparr>))"

definition so_writev :: "int \<Rightarrow> byte list list \<Rightarrow> sos \<Rightarrow> wr_result \<times> sos" where
  "so_writev fd iov s =
     (let k = min 5 (length (concat iov))
      in (WOk k, s\<lparr>so_out := so_out s @ take k (concat iov)\<rparr>))"

definition so_fresh :: "sos \<Rightarrow> sysret \<times> sos" where
  "so_fresh s = ((so_next s, None), s\<lparr>so_next := so_next s + 1\<rparr>)"

definition so_ok :: "sos \<Rightarrow> sysret \<times> sos" where
  "so_ok s = ((0, None), s)"

definition sample_sys :: "sos tcp_sys" where
  "sample_sys = \<lparr>sk_read = so_read, sk_recv_nowait = so_read,
     sk_recv_peek = (\<lambda>fd n s. (if so_in s = [] then RErr EWOULDBLOCK
                               else RBytes (take n (so_in s)), s)),
     sk_write = (\<lambda>fd bs s. so_writev fd [bs] s), sk_writev = so_writev,
     sk_junk = replicate 8 255,
     sk_fcntl_getfl = (\<lambda>fd. so_ok), sk_fcntl_setfl = (\<lambda>fd fl. so_ok),
     sk_connect = (\<lambda>fd a. so_ok), sk_clock = (\<lambda>s. (((0, None), (0, 0)), s)),
     sk_poll_out = (\<lambda>fd ms. so_ok), sk_so_error = (\<lambda>fd s. (((0, None), OK_errno), s)),
     sk_getaddrinfo = (\<lambda>passive host svc s. (Some [[1]], s)),
     sk_socket = (\<lambda>a. so_fresh), sk_setsockopt = (\<lambda>fd. so_ok), sk_bind = (\<lambda>fd a. so_ok),
     sk_listen = (\<lambda>fd n. so_ok), sk_accept = (\<lambda>fd. so_fresh),
     sk_select = (\<lambda>nfds S s. (((int (card S), None), S), s)),
     sk_shutdown_wr = (\<lambda>fd s. s), sk_shutdown_rd = (\<lambda>fd s. s), sk_close = (\<lambda>fd s. s),
     sk_sleep_ms = (\<lambda>t s. s)\<rparr>"

lemma sample_reads: "reads_stream sample_sys (\<lambda>fd. so_in)"
  unfolding reads_stream_def
proof (intro allI impI)
  fix fd :: int and n :: nat and s :: sos
  assume a: "0 < n \<and> so_in s \<noteq> []"
  let ?k = "min (min n 3) (length (so_in s))"
  show "\<exists>k s'. 0 < k \<and> k \<le> n \<and> k \<le> length (so_in s) \<and>
      sk_read sample_sys fd n s = (RBytes (take k (so_in s)), s') \<and> so_in s' = drop k (so_in s)"
    by (rule exI [of _ ?k], rule exI [of _ "s\<lparr>so_in := drop ?k (so_in s)\<rparr>"])
      (use a in \<open>simp add: sample_sys_def so_read_def Let_def\<close>)
qed

lemma sample_writes: "writes_stream sample_sys (\<lambda>fd. so_out)"
  unfolding writes_stream_def
proof (intro allI impI)
  fix fd :: int and iov :: "byte list list" and s :: sos
  assume a: "concat iov \<noteq> []"
  let ?k = "min 5 (length (concat iov))"
  have "0 < ?k" using a by (cases "concat iov") auto
  then show "\<exists>k s'. 0 < k \<and> k \<le> length (concat iov) \<and>
      sk_writev sample_sys fd iov s = (WOk k, s') \<and> so_out s' = so_out s @ take k (concat iov)"
    by (intro exI [of _ ?k] exI [of _ "s\<lparr>so_out := so_out s @ take ?k (concat iov)\<rparr>"])
      (simp add: sample_sys_def so_writev_def Let_def)
qed

end
