(* ===== verification/TcpProps.thy ===== *)
theory TcpProps
  imports ConnTcp SampleOs
begin

text \<open>
  What the TCP transport promises: messages arrive whole and in order whatever the sizes of the
  underlying reads and writes, the \<open>select\<close> set and its maximum agree, ready connections are
  reported once, and a connection is torn down once in either order of closing.
\<close>

section \<open>The contract of a transport\<close>

lemma heap_set_os [simp]: "heap (set_os e s w) = heap w"
  by (simp add: set_os_def)

lemma heap_os_call [simp]: "heap (os_call f w) = heap w"
  by (simp add: os_call_def)

lemma clear_fd_heap: "clear_fd fd w = Ret w' \<Longrightarrow> heap w' = heap w"
  by (auto simp: clear_fd_def bnd_Ret_conv Let_def split: if_splits)

lemma shut_wr_heap [simp]: "heap (shut_wr A h cr w) = heap w"
  by (simp add: shut_wr_def Let_def)

lemma shut_rd_heap: "shut_rd A h cw w = Ret w' \<Longrightarrow> heap w' = heap w"
  by (auto simp: shut_rd_def bnd_Ret_conv Let_def split: if_splits dest!: clear_fd_heap)

lemma notify_close_heap:
  "tcp_notify_close A h cw cr w = Ret w' \<Longrightarrow> heap w' = heap w"
  by (auto simp: tcp_notify_close_def bnd_Ret_conv Let_def split: if_splits dest!: shut_rd_heap)

interpretation tcp: transport "tcp_vtable A" for A
  by unfold_locales
    (auto simp: tcp_vtable_def tcp_send_def tcp_probe_def tcp_receive_def tcp_sendEOS_def
      tcp_notify_yield_def bnd_Ret_conv Let_def split: if_splits prod.splits
      dest!: notify_close_heap)

lemma net_simps [simp]:
  "net (set_os e s w) = (net w)\<lparr>os := s\<rparr>"
  "net (os_call g v) = (net v)\<lparr>os := g (os (net v))\<rparr>"
  "net (put_obj h ob w) = net w"
  "net (delete_obj h w) = net w"
  "net (set_errno en w) = net w"
  by (simp_all add: with_net_def set_os_def os_call_def put_obj_def delete_obj_def set_errno_def)

section \<open>Messages over the stream\<close>

text \<open>The calls of a receiver that reads \<open>k\<close> messages: probe, then receive what was announced.\<close>

fun recv_messages ::
  "('o, 'a) sock_io_scheme \<Rightarrow> int \<Rightarrow> nat \<Rightarrow> 'o \<Rightarrow> byte list list \<times> 'o" where
  "recv_messages A fd 0 s = ([], s)"
| "recv_messages A fd (Suc k) s =
     (let (r, sz, e, s) = fd_probe A fd True 0 s;
          (r, bs, e, s) = fd_receive A fd sz s;
          (ms, s) = recv_messages A fd k s
      in (bs # ms, s))"

text \<open>The bytes a list of messages makes on the wire.\<close>

fun wire :: "byte list list \<Rightarrow> byte list" where
  "wire [] = []"
| "wire (m # ms) = concat (tcp_frame m) @ wire ms"

fun send_messages ::
  "('o, 'a) sock_io_scheme \<Rightarrow> int \<Rightarrow> byte list list \<Rightarrow> 'o \<Rightarrow> 'o out" where
  "send_messages A fd [] s = Ret s"
| "send_messages A fd (m # ms) s = bnd (fd_send A fd m s) (\<lambda>(r, e, s). send_messages A fd ms s)"

lemma send_messages_stream:
  assumes "writes_stream A outq"
  shows "\<forall>m \<in> set ms. length m < 2 ^ 63 \<Longrightarrow>
    \<exists>s'. send_messages A fd ms s = Ret s' \<and>
      outq fd s' = outq fd s @ wire ms"
proof (induction ms arbitrary: s)
  case (Cons m ms)
  from fd_send_stream [OF assms, of m fd s] Cons.prems obtain s1
    where s1: "fd_send A fd m s = Ret (int (length m), None, s1)"
      "outq fd s1 = outq fd s @ concat (tcp_frame m)" by auto
  from Cons.IH [of s1] Cons.prems obtain s2
    where "send_messages A fd ms s1 = Ret s2"
      "outq fd s2 = outq fd s1 @ wire ms" by auto
  with s1 show ?case by simp
qed simp

lemma recv_messages_stream:
  assumes "reads_stream A inq"
  shows "\<forall>m \<in> set ms. length m < 2 ^ 63 \<Longrightarrow>
    inq fd s = wire ms @ rest \<Longrightarrow>
    \<exists>s'. recv_messages A fd (length ms) s = (ms, s') \<and> inq fd s' = rest"
proof (induction ms arbitrary: s)
  case (Cons m ms)
  let ?rest = "wire ms @ rest"
  from fd_probe_stream [OF assms, of fd s m ?rest 0] Cons.prems(2) obtain s1
    where s1: "fd_probe A fd True 0 s = (8, of_nat (length m), None, s1)" "inq fd s1 = m @ ?rest"
    by auto
  from fd_receive_stream [OF assms s1(2)] Cons.prems(1) obtain s2
    where s2: "fd_receive A fd (of_nat (length m)) s1 = (int (length m), m, None, s2)"
      "inq fd s2 = ?rest" by auto
  from Cons.IH [OF _ s2(2)] Cons.prems(1) obtain s3
    where "recv_messages A fd (length ms) s2 = (ms, s3)" "inq fd s3 = rest" by auto
  with s1 s2 show ?case by simp
qed simp

text \<open>C1: Messages sent with \<open>HandleTCP::send\<close> over a stream socket are received by alternating
  \<open>probe\<close> and \<open>receive\<close> with the same contents, boundaries and order, however the operating system
  splits the writes and the reads (the two ends may split them differently).\<close>

theorem tcp_messages_in_order:
  assumes "writes_stream A outq" and "reads_stream B inq"
    and "\<forall>m \<in> set ms. length m < 2 ^ 63"
    and "send_messages A fd ms s = Ret s'" and "outq fd s = []"
    and "inq fd' t = outq fd s'"
  shows "\<exists>t'. recv_messages B fd' (length ms) t = (ms, t') \<and> inq fd' t' = []"
proof -
  from send_messages_stream [OF assms(1,3), of fd s] assms(4,5)
  have "outq fd s' = wire ms" by auto
  with recv_messages_stream [OF assms(2,3), of fd' t "[]"] assms(6) show ?thesis by simp
qed

theorem tcp_messages_in_order_witness:
  "\<exists>s' t'. send_messages sample_sys 3 [[1, 2, 3, 4], [], [9]] \<lparr>so_in = [], so_out = [], so_next = 0\<rparr> = Ret s'
     \<and> recv_messages sample_sys 3 3 \<lparr>so_in = so_out s', so_out = [], so_next = 0\<rparr>
         = ([[1, 2, 3, 4], [], [9]], t')"
proof -
  let ?ms = "[[1, 2, 3, 4], [], [9]] :: byte list list"
  let ?s = "\<lparr>so_in = [], so_out = [], so_next = 0\<rparr>"
  have small: "\<forall>m \<in> set ?ms. length m < 2 ^ 63" by simp
  from send_messages_stream [OF sample_writes small, where s = ?s and fd = 3] obtain s'
    where s': "send_messages sample_sys 3 ?ms ?s = Ret s'" by auto
  have len: "length ?ms = 3" by simp
  from tcp_messages_in_order [OF sample_writes sample_reads small s', where
      t = "\<lparr>so_in = so_out s', so_out = [], so_next = 0\<rparr>" and fd' = 3]
  show ?thesis unfolding len using s' by auto
qed

section \<open>The user's view of a TCP handle\<close>

lemma errno_set_os [simp]: "errno (set_os e s w) = keep_errno e (errno w)"
  by (simp add: set_os_def)

lemma tcp_user_probe:
  assumes "reads_stream A inq" and "realHandle u = Some h" and "heap w h = Some ob"
    and "isReadable u" and "\<not> closed_rd ob" and "\<not> fst (probed ob)"
    and "inq (fd_of (net w) h) (os (net w)) = concat (tcp_frame m) @ rest"
    and "0 < length m" and "length m < 2 ^ 63"
  shows "\<exists>s. huser_probe (handle_comm (tcp_vtable A)) u sz True w =
      Ret (8, of_nat (length m), u\<lparr>newConnection := False\<rparr>,
           put_obj h (ob\<lparr>probed := (True, of_nat (length m))\<rparr>) (set_os None s w))
    \<and> inq (fd_of (net w) h) s = m @ rest"
proof -
  from fd_probe_stream [OF assms(1,7), of sz] obtain s
    where s: "fd_probe A (fd_of (net w) h) True sz (os (net w)) = (8, of_nat (length m), None, s)"
      "inq (fd_of (net w) h) s = m @ rest" by auto
  moreover have "(of_nat (length m) :: u64) \<noteq> 0"
    using assms(8,9) by (subst of_nat_u64_eq_0) auto
  ultimately show ?thesis
    using assms(2-6)
    by (auto simp: huser_probe_def handle_comm_def tcp_vtable_def tcp_probe_def obj_Some
        upd_obj_Some Let_def)
qed

lemma tcp_user_read_pending:
  assumes "reads_stream A inq" and "realHandle u = Some h" and "heap w h = Some ob"
    and "isReadable u" and "\<not> closed_rd ob" and "probed ob = (True, of_nat (length m))"
    and "inq (fd_of (net w) h) (os (net w)) = m @ rest"
    and "length m < 2 ^ 63" and "of_nat (length m) \<le> room"
  shows "\<exists>s. huser_receive (handle_comm (tcp_vtable A)) u room w =
      Ret (int (length m), m, u\<lparr>newConnection := False\<rparr>,
           set_os None s (put_obj h (ob\<lparr>probed := (False, 0)\<rparr>) w))
    \<and> inq (fd_of (net w) h) s = rest"
proof -
  from fd_receive_stream [OF assms(1,7)] assms(8) obtain s
    where "fd_receive A (fd_of (net w) h) (of_nat (length m)) (os (net w)) =
        (int (length m), m, None, s)" "inq (fd_of (net w) h) s = rest" by auto
  then show ?thesis
    using receive_pending [OF assms(2,3,6,4,5), of "handle_comm (tcp_vtable A)" room] assms(9)
    by (auto simp: handle_comm_def tcp_vtable_def tcp_receive_def obj_Some not_le [symmetric])
qed

lemma put_set_os: "put_obj h ob (set_os e s w) = set_os e s (put_obj h ob w)"
  by (simp add: put_obj_def set_os_def with_net_def)

lemma set_set_os [simp]: "set_os None s (set_os None s' w) = set_os None s w"
  by (simp add: set_os_def with_net_def keep_errno_def)

lemma set_os_heap_id: "heap w h = Some ob \<Longrightarrow> put_obj h ob w = w"
  by (simp add: put_obj_def map_upd_triv)

lemma receive_unprobed:
  assumes "realHandle u = Some h" and "heap w h = Some ob" and "\<not> fst (probed ob)"
    and "huser_probe C u 0 True w = Ret (r, n, u', w')" and "0 < r"
    and "realHandle u' = Some h" and "heap w' h = Some ob'" and "isReadable u'"
    and "probed ob' = (True, n)" and "\<not> closed_rd ob'" and "\<not> newConnection u'"
  shows "huser_receive C u room w = huser_receive C u' room w'"
proof -
  have u': "u'\<lparr>newConnection := False\<rparr> = u'" using assms(11) by (cases u') simp
  note pending = receive_pending [OF assms(6,7,9,8,10), of C room, unfolded Let_def u']
  show ?thesis
    unfolding pending using assms
    by (simp add: huser_receive_def obj_Some upd_obj_Some Let_def min_def not_le split: if_splits)
qed

text \<open>C2: \<open>HandleUser::receive\<close> on an open TCP handle with no pending header returns exactly the
  next message of the stream and consumes exactly its bytes, for every buffer that has room
  for it.\<close>

theorem tcp_user_receive:
  assumes "reads_stream A inq" and "realHandle u = Some h" and "heap w h = Some ob"
    and "isReadable u" and "\<not> closed_rd ob" and "probed ob = (False, 0)"
    and "inq (fd_of (net w) h) (os (net w)) = concat (tcp_frame m) @ rest"
    and "0 < length m" and "length m < 2 ^ 63" and "of_nat (length m) \<le> room"
  shows "\<exists>s. huser_receive (handle_comm (tcp_vtable A)) u room w =
      Ret (int (length m), m, u\<lparr>newConnection := False\<rparr>, set_os None s w)
    \<and> inq (fd_of (net w) h) s = rest"
proof -
  have np: "\<not> fst (probed ob)" using assms(6) by simp
  from tcp_user_probe [OF assms(1-5) np assms(7-9), of 0] obtain s1
    where p: "huser_probe (handle_comm (tcp_vtable A)) u 0 True w =
        Ret (8, of_nat (length m), u\<lparr>newConnection := False\<rparr>,
             put_obj h (ob\<lparr>probed := (True, of_nat (length m))\<rparr>) (set_os None s1 w))"
      and s1: "inq (fd_of (net w) h) s1 = m @ rest" by blast
  let ?w1 = "put_obj h (ob\<lparr>probed := (True, of_nat (length m))\<rparr>) (set_os None s1 w)"
  from tcp_user_read_pending [OF assms(1), where u = "u\<lparr>newConnection := False\<rparr>" and h = h
      and w = ?w1 and m = m and rest = rest and room = room] assms s1 obtain s2
    where r: "huser_receive (handle_comm (tcp_vtable A)) (u\<lparr>newConnection := False\<rparr>) room ?w1 =
        Ret (int (length m), m, u\<lparr>newConnection := False\<rparr>,
             set_os None s2 (put_obj h (ob\<lparr>probed := (False, 0)\<rparr>) ?w1))"
      and s2: "inq (fd_of (net w) h) s2 = rest" by auto
  have same: "ob\<lparr>probed := (False, 0)\<rparr> = ob" using assms(6) by (cases ob) simp
  have "huser_receive (handle_comm (tcp_vtable A)) u room w =
      huser_receive (handle_comm (tcp_vtable A)) (u\<lparr>newConnection := False\<rparr>) room ?w1"
    using assms
    by (intro receive_unprobed [OF assms(2,3) np p, of "ob\<lparr>probed := (True, of_nat (length m))\<rparr>"])
      simp_all
  with r s2 show ?thesis
    by (auto simp: put_set_os set_os_heap_id [OF assms(3)] same)
qed

text \<open>An open handle 7 on descriptor 3, and a user that holds it.\<close>

definition sample_world :: "hobj \<Rightarrow> sos \<Rightarrow> (sos tcp_state) world" where
  "sample_world ob s = \<lparr>heap = [7 \<mapsto> ob], errno = OK_errno, next_hid = 8,
     net = \<lparr>fd_of = (\<lambda>_. 3), connections = [(3, 7)], fdset = {}, tmpset = {}, listen_sck = -1,
       fdmax = -1, tcp_address = [], tcp_port = 0, os = s\<rparr>\<rparr>"

definition sample_user :: huser where
  "sample_user = \<lparr>realHandle = Some 7, isReadable = True, newConnection = True\<rparr>"

abbreviation sample_handle :: hobj where
  "sample_handle \<equiv> (new_handle ''TCP'')\<lparr>counter := 1\<rparr>"

abbreviation sample_comm :: "(sos tcp_state, unit) world_scheme comm" where
  "sample_comm \<equiv> handle_comm (tcp_vtable sample_sys)"

lemmas sample_defs = sample_world_def sample_user_def new_handle_def

theorem tcp_user_receive_witness:
  "\<exists>w'. huser_receive sample_comm sample_user 16
     (sample_world sample_handle \<lparr>so_in = concat (tcp_frame [1, 2]), so_out = [], so_next = 4\<rparr>)
   = Ret (2, [1, 2], sample_user\<lparr>newConnection := False\<rparr>, w')"
proof -
  let ?w = "sample_world sample_handle
    \<lparr>so_in = concat (tcp_frame [1, 2]), so_out = [], so_next = 4\<rparr>"
  have room: "of_nat (length [1 :: byte, 2]) \<le> (16 :: u64)" by simp
  show ?thesis
    using tcp_user_receive [OF sample_reads, of sample_user 7 ?w sample_handle "[1, 2]" "[]" 16] room
    by (auto simp: sample_defs)
qed

text \<open>A message larger than the buffer is not lost: \<open>HandleUser::receive\<close> answers \<open>ENOMEM\<close>,
  keeps the header and the payload, and a later call with enough room returns the message.\<close>

theorem tcp_user_receive_retry:
  assumes "reads_stream A inq" and "realHandle u = Some h" and "heap w h = Some ob"
    and "isReadable u" and "\<not> closed_rd ob" and "probed ob = (False, 0)"
    and "inq (fd_of (net w) h) (os (net w)) = concat (tcp_frame m) @ rest"
    and "0 < length m" and "length m < 2 ^ 63"
    and "small < of_nat (length m)" and "of_nat (length m) \<le> room"
  shows "\<exists>u1 w1 s. huser_receive (handle_comm (tcp_vtable A)) u small w = Ret (-1, [], u1, w1)
    \<and> errno w1 = ENOMEM
    \<and> huser_receive (handle_comm (tcp_vtable A)) u1 room w1 =
        Ret (int (length m), m, u1, set_os None s (set_errno ENOMEM w))
    \<and> inq (fd_of (net w) h) s = rest"
proof -
  have np: "\<not> fst (probed ob)" using assms(6) by simp
  let ?ob = "ob\<lparr>probed := (True, of_nat (length m))\<rparr>"
  let ?u = "u\<lparr>newConnection := False\<rparr>"
  from tcp_user_probe [OF assms(1-5) np assms(7-9), of 0] obtain s1
    where p: "huser_probe (handle_comm (tcp_vtable A)) u 0 True w =
        Ret (8, of_nat (length m), ?u, put_obj h ?ob (set_os None s1 w))"
      and s1: "inq (fd_of (net w) h) s1 = m @ rest" by blast
  let ?w1 = "put_obj h ?ob (set_os None s1 w)"
  have first: "huser_receive (handle_comm (tcp_vtable A)) u small w =
      huser_receive (handle_comm (tcp_vtable A)) ?u small ?w1"
    using assms by (intro receive_unprobed [OF assms(2,3) np p, of ?ob]) simp_all
  have short: "huser_receive (handle_comm (tcp_vtable A)) ?u small ?w1 =
      Ret (-1, [], ?u, set_errno ENOMEM ?w1)"
    using assms receive_pending [of ?u h ?w1 ?ob "of_nat (length m)"] by (simp add: Let_def)
  from tcp_user_read_pending [OF assms(1), where u = ?u and h = h
      and w = "set_errno ENOMEM ?w1" and m = m and rest = rest and room = room] assms s1 obtain s2
    where r: "huser_receive (handle_comm (tcp_vtable A)) ?u room (set_errno ENOMEM ?w1) =
        Ret (int (length m), m, ?u,
             set_os None s2 (put_obj h (ob\<lparr>probed := (False, 0)\<rparr>) (set_errno ENOMEM ?w1)))"
      and s2: "inq (fd_of (net w) h) s2 = rest" by auto
  have same: "ob\<lparr>probed := (False, 0)\<rparr> = ob" using assms(6) by (cases ob) simp
  have "put_obj h ob (set_errno ENOMEM ?w1) = set_os None s1 (set_errno ENOMEM w)"
    using assms(3)
    by (simp add: put_obj_def set_errno_def set_os_def with_net_def keep_errno_def map_upd_triv)
  with r s2 first short show ?thesis
    by (simp add: same) blast
qed

theorem tcp_user_receive_retry_witness:
  "\<exists>u1 w1 w2. huser_receive sample_comm sample_user 1
     (sample_world sample_handle \<lparr>so_in = concat (tcp_frame [1, 2]), so_out = [], so_next = 4\<rparr>)
   = Ret (-1, [], u1, w1) \<and> errno w1 = ENOMEM
   \<and> huser_receive sample_comm u1 16 w1 = Ret (2, [1, 2], u1, w2)"
proof -
  let ?w = "sample_world sample_handle
    \<lparr>so_in = concat (tcp_frame [1, 2]), so_out = [], so_next = 4\<rparr>"
  have room: "of_nat (length [1 :: byte, 2]) \<le> (16 :: u64)" "(1 :: u64) < of_nat (length [1 :: byte, 2])"
    by simp_all
  show ?thesis
    using tcp_user_receive_retry
      [OF sample_reads, of sample_user 7 ?w sample_handle "[1, 2]" "[]" 1 16] room
    by (auto simp: sample_defs)
qed

text \<open>The bytes of an empty message are the bytes of the end-of-stream mark, so a peer that
  sends a message of size 0 makes the receiver close its reading side: the next \<open>probe\<close> answers 0,
  the handle is closed for reading and every later \<open>receive\<close> answers 0.\<close>

theorem tcp_empty_message_ends_stream:
  assumes "reads_stream A inq" and "realHandle u = Some h" and "heap w h = Some ob"
    and "isReadable u" and "\<not> closed_rd ob" and "\<not> fst (probed ob)" and "counter ob \<noteq> 0"
    and "inq (fd_of (net w) h) (os (net w)) = concat (tcp_frame []) @ rest"
    and "huser_probe (handle_comm (tcp_vtable A)) u sz True w = Ret (r, sz', u', w')"
  shows "concat (tcp_frame []) = le_bytes 0 \<and> r = 0
    \<and> heap w' h = Some (ob\<lparr>probed := (True, 0), closed_rd := True\<rparr>)
    \<and> huser_receive (handle_comm (tcp_vtable A)) u' room w' =
        Ret (0, [], u'\<lparr>newConnection := False\<rparr>, w')"
proof -
  have mark: "concat (tcp_frame []) = le_bytes 0" by (simp add: tcp_frame_def)
  from fd_probe_stream [OF assms(1,8), of sz] obtain s
    where "fd_probe A (fd_of (net w) h) True sz (os (net w)) = (8, 0, None, s)" by auto
  then have pr: "c_probe (handle_comm (tcp_vtable A)) h True sz w = Ret (8, 0, set_os None s w)"
    using assms(3) by (simp add: handle_comm_def tcp_vtable_def tcp_probe_def obj_Some)
  from tcp.handle.probe_eos [OF assms(9,2,3,7,4,6,5) pr]
  have r: "r = 0" and ob': "heap w' h = Some (ob\<lparr>probed := (True, 0), closed_rd := True\<rparr>)" by auto
  from tcp.handle.probe_keeps_object [OF assms(9,2,3,7)] have "realHandle u' = Some h" by simp
  from receive_after_eos [OF this ob'] mark r ob' show ?thesis by simp
qed

theorem tcp_empty_message_ends_stream_witness:
  "\<exists>u' w'. huser_probe sample_comm sample_user 0 True
     (sample_world sample_handle \<lparr>so_in = concat (tcp_frame []), so_out = [], so_next = 4\<rparr>)
   = Ret (0, 0, u', w') \<and> huser_receive sample_comm u' 16 w' = Ret (0, [], u'\<lparr>newConnection := False\<rparr>, w')"
proof -
  let ?w = "sample_world sample_handle \<lparr>so_in = concat (tcp_frame []), so_out = [], so_next = 4\<rparr>"
  obtain u' w' where e: "huser_probe sample_comm sample_user 0 True ?w = Ret (0, 0, u', w')"
    by (simp add: huser_probe_def handle_comm_def tcp_vtable_def tcp_probe_def fd_probe_def
        readn_def readn_loop.simps sample_defs sample_sys_def so_read_def obj_def Let_def
        tcp_frame_def le_bytes_def numeral_eq_Suc be64toh_def upd_obj_def put_obj_def
        handle_close_def tcp_notify_close_def shut_rd_def shut_wr_def clear_fd_def FD_CLR_def FD_SETSIZE_def
        with_net_def set_os_def os_call_def keep_errno_def smap_erase_def)
  have live: "reads_stream sample_sys (\<lambda>fd. so_in)" "realHandle sample_user = Some 7"
    "heap ?w 7 = Some sample_handle" "isReadable sample_user" "\<not> closed_rd sample_handle"
    "\<not> fst (probed sample_handle)" "counter sample_handle \<noteq> 0"
    "so_in (os (net ?w)) = concat (tcp_frame []) @ []"
    by (simp_all add: sample_defs sample_reads)
  from tcp_empty_message_ends_stream [OF live e] e show ?thesis by blast
qed

section \<open>The select set\<close>

text \<open>Every registered descriptor is below \<open>FD_SETSIZE\<close>, and \<open>fdmax\<close> is the greatest of them
  (-1 when there is none), which makes \<open>select(fdmax + 1, \<dots>)\<close> cover them all.\<close>

definition fd_inv :: "('o, 'm) tcp_state_scheme \<Rightarrow> bool" where
  "fd_inv t \<longleftrightarrow> (\<forall>fd \<in> fdset t. 0 \<le> fd \<and> fd < FD_SETSIZE \<and> fd \<le> fdmax t)
     \<and> (fdmax t = -1 \<or> fdmax t \<in> fdset t)"

lemma max_below_le: "fd \<in> S \<Longrightarrow> 0 \<le> fd \<Longrightarrow> fd < int k \<Longrightarrow> fd \<le> max_below k S"
proof (induction k)
  case (Suc k)
  then show ?case by (cases "fd = int k") auto
qed simp

lemma max_below_mem: "max_below k S = -1 \<or> max_below k S \<in> S"
  by (induction k) auto

lemma clear_fd_effect:
  assumes "clear_fd fd w = Ret w'"
  shows "fdset (net w') = fdset (net w) - {fd} \<and> connections (net w') = connections (net w)
    \<and> listen_sck (net w') = listen_sck (net w) \<and> tmpset (net w') = tmpset (net w)
    \<and> fd_of (net w') = fd_of (net w) \<and> os (net w') = os (net w)"
  using assms by (auto simp: clear_fd_def FD_CLR_def Let_def split: if_splits)

lemma clear_fd_inv:
  assumes "clear_fd fd w = Ret w'" and inv: "fd_inv (net w)"
  shows "fd_inv (net w')"
proof (cases "fd = fdmax (net w)")
  case False
  with assms show ?thesis
    by (auto simp: clear_fd_def FD_CLR_def Let_def fd_inv_def split: if_splits)
next
  case True
  let ?S = "fdset (net w) - {fd}"
  have w': "fdset (net w') = ?S" "fdmax (net w') = max_below (nat fd) ?S"
    using assms True by (auto simp: clear_fd_def FD_CLR_def Let_def split: if_splits)
  have "x \<le> max_below (nat fd) ?S" if "x \<in> ?S" for x
    using that inv True by (intro max_below_le) (auto simp: fd_inv_def le_less)
  with w' max_below_mem [of "nat fd" ?S] inv show ?thesis by (auto simp: fd_inv_def)
qed

lemma fd_inv_frame:
  "fd_inv t \<Longrightarrow> fdset t' = fdset t \<Longrightarrow> fdmax t' = fdmax t \<Longrightarrow> fd_inv t'"
  by (simp add: fd_inv_def)

lemma fd_inv_upd [simp]:
  "fd_inv (t\<lparr>os := s\<rparr>) = fd_inv t"
  "fd_inv (t\<lparr>fd_of := f\<rparr>) = fd_inv t"
  "fd_inv (t\<lparr>connections := c\<rparr>) = fd_inv t"
  "fd_inv (t\<lparr>tmpset := S\<rparr>) = fd_inv t"
  "fd_inv (t\<lparr>listen_sck := i\<rparr>) = fd_inv t"
  by (simp_all add: fd_inv_def)

lemma alloc_net [simp]: "net (snd (alloc_handle p w)) = net w"
  by (simp add: alloc_handle_def)

lemma new_HandleTCP_net:
  "net (snd (new_HandleTCP p fd w)) = (net w)\<lparr>fd_of := (fd_of (net w))(next_hid w := fd)\<rparr>"
  by (simp add: new_HandleTCP_def alloc_handle_def)

text \<open>What \<open>update\<close> expects of the callback: it leaves the tables of the connector alone.\<close>

definition keeps_tables where
  "keeps_tables addinQ \<longleftrightarrow> (\<forall>b h w w'. addinQ b h w = Ret w' \<longrightarrow>
     fdset (net w') = fdset (net w) \<and> fdmax (net w') = fdmax (net w)
     \<and> tmpset (net w') = tmpset (net w) \<and> listen_sck (net w') = listen_sck (net w)
     \<and> connections (net w') = connections (net w))"

lemma update_loop_stop:
  "fdmax (net w) < idx \<or> nready \<le> 0 \<Longrightarrow> update_loop A p addinQ idx nready w = Ret w"
  by (subst update_loop.simps) auto

lemma update_loop_skip:
  "idx \<le> fdmax (net w) \<Longrightarrow> 0 < nready \<Longrightarrow> 0 \<le> idx \<Longrightarrow> idx < FD_SETSIZE \<Longrightarrow>
   idx \<notin> tmpset (net w) \<Longrightarrow>
   update_loop A p addinQ idx nready w = update_loop A p addinQ (idx + 1) nready w"
  by (subst update_loop.simps) (auto simp: FD_ISSET_def)

lemma update_loop_ready:
  "idx \<le> fdmax (net w) \<Longrightarrow> 0 < nready \<Longrightarrow> 0 \<le> idx \<Longrightarrow> idx < FD_SETSIZE \<Longrightarrow>
   idx \<in> tmpset (net w) \<Longrightarrow> idx \<noteq> listen_sck (net w) \<Longrightarrow>
   update_loop A p addinQ idx nready w =
     bnd (clear_fd idx w) (\<lambda>w.
     bnd (case smap_get (connections (net w)) idx of
            None \<Rightarrow> Ret w | Some h \<Rightarrow> addinQ False h w) (\<lambda>w.
     update_loop A p addinQ (idx + 1) (nready - 1) w))"
  by (subst update_loop.simps) (auto simp: FD_ISSET_def)

lemma update_loop_accept:
  "idx \<le> fdmax (net w) \<Longrightarrow> 0 < nready \<Longrightarrow> 0 \<le> idx \<Longrightarrow> idx < FD_SETSIZE \<Longrightarrow>
   idx \<in> tmpset (net w) \<Longrightarrow> idx = listen_sck (net w) \<Longrightarrow>
   sk_accept A idx (os (net w)) = ((connfd, e), s) \<Longrightarrow>
   update_loop A p addinQ idx nready w =
     (if connfd = -1 then Ret (set_os e s w)
      else let (h, w) = new_HandleTCP p connfd (set_os e s w)
           in bnd (addinQ True h (add_connection connfd h w)) (\<lambda>w.
              update_loop A p addinQ (idx + 1) (nready - 1) w))"
  by (subst update_loop.simps) (auto simp: FD_ISSET_def Let_def)

lemma update_loop_inv:
  assumes "keeps_tables addinQ"
  shows "update_loop A p addinQ idx nready w = Ret w' \<Longrightarrow> fd_inv (net w) \<Longrightarrow> fd_inv (net w')"
proof (induction "nat (FD_SETSIZE - idx)" arbitrary: idx nready w rule: less_induct)
  case less
  show ?case
  proof (cases "idx \<le> fdmax (net w) \<and> 0 < nready \<and> 0 \<le> idx \<and> idx < FD_SETSIZE")
    case False
    with less.prems show ?thesis
      by (auto simp: update_loop.simps [of A p addinQ idx nready w] FD_ISSET_def split: if_splits)
  next
    case True
    note range = True
    then have smaller: "nat (FD_SETSIZE - (idx + 1)) < nat (FD_SETSIZE - idx)" by simp
    note IH = less.hyps [OF smaller]
    consider (skip) "idx \<notin> tmpset (net w)"
      | (ready) "idx \<in> tmpset (net w)" "idx \<noteq> listen_sck (net w)"
      | (accept) "idx \<in> tmpset (net w)" "idx = listen_sck (net w)" by blast
    then show ?thesis
    proof cases
      case skip
      with True less.prems update_loop_skip [of idx w nready A p addinQ] show ?thesis
        by (auto intro: IH)
    next
      case ready
      from less.prems(1) obtain w1 w2 where w1: "clear_fd idx w = Ret w1"
        and w2: "(case smap_get (connections (net w1)) idx of
            None \<Rightarrow> Ret w1 | Some h \<Rightarrow> addinQ False h w1) = Ret w2"
        and rest: "update_loop A p addinQ (idx + 1) (nready - 1) w2 = Ret w'"
        using True ready by (auto simp: update_loop_ready bnd_Ret_conv)
      from clear_fd_inv [OF w1 less.prems(2)] w2 assms have "fd_inv (net w2)"
        by (auto simp: keeps_tables_def split: option.splits intro: fd_inv_frame)
      with rest show ?thesis by (rule IH)
    next
      case accept
      obtain connfd e s where acc: "sk_accept A idx (os (net w)) = ((connfd, e), s)"
        by (metis surj_pair)
      obtain h w1 where nh: "new_HandleTCP p connfd (set_os e s w) = (h, w1)" by fastforce
      have w1: "fd_inv (net w1)"
        using nh new_HandleTCP_net [of p connfd "set_os e s w"] less.prems(2)
        by (simp add: fd_inv_def)
      show ?thesis
      proof (cases "connfd = -1")
        case True
        with range accept acc less.prems(1) have "w' = set_os e s w"
          by (simp add: update_loop_accept)
        with less.prems(2) show ?thesis by (simp add: fd_inv_def)
      next
        case False
        with range accept acc nh less.prems(1) obtain w2
          where w2: "addinQ True h (add_connection connfd h w1) = Ret w2"
            and rest: "update_loop A p addinQ (idx + 1) (nready - 1) w2 = Ret w'"
          by (auto simp: update_loop_accept bnd_Ret_conv)
        from w2 w1 assms have "fd_inv (net w2)"
          by (auto simp: keeps_tables_def add_connection_def intro: fd_inv_frame)
        with rest show ?thesis by (rule IH)
      qed
    qed
  qed
qed

text \<open>The states of a connector: initialised, then any sequence of its operations.\<close>

inductive tcp_reach ::
  "('o, 'a) tcp_sys_scheme \<Rightarrow> (('o, 'm) tcp_state_scheme, 'x) world_scheme \<Rightarrow> bool" for A where
  init: "tcp_init w = Ret (r, w') \<Longrightarrow> tcp_reach A w'"
| listen: "tcp_reach A w \<Longrightarrow> tcp_listen A s w = Ret (r, w') \<Longrightarrow> tcp_reach A w'"
| connect: "tcp_reach A w \<Longrightarrow> tcp_connect c A p s retry timeout w = Ret (r, w') \<Longrightarrow> tcp_reach A w'"
| update: "tcp_reach A w \<Longrightarrow> keeps_tables addinQ \<Longrightarrow> tcp_update A p addinQ w = Ret w' \<Longrightarrow>
    tcp_reach A w'"
| yield: "tcp_reach A w \<Longrightarrow> tcp_notify_yield h w = Ret w' \<Longrightarrow> tcp_reach A w'"
| notify_close: "tcp_reach A w \<Longrightarrow> tcp_notify_close A h cw cr w = Ret w' \<Longrightarrow> tcp_reach A w'"
| io: "tcp_reach A w \<Longrightarrow> tcp_send A h bs w = Ret (r, w') \<Longrightarrow> tcp_reach A w'"
| io_probe: "tcp_reach A w \<Longrightarrow> tcp_probe A h b sz w = Ret (r, sz', w') \<Longrightarrow> tcp_reach A w'"
| io_receive: "tcp_reach A w \<Longrightarrow> tcp_receive A h n w = Ret (r, bs, w') \<Longrightarrow> tcp_reach A w'"
| io_eos: "tcp_reach A w \<Longrightarrow> tcp_sendEOS A h w = Ret (r, w') \<Longrightarrow> tcp_reach A w'"

lemma init_socket_net:
  "tcp_init_socket A w = (r, w') \<Longrightarrow> fdset (net w') = fdset (net w) \<and> fdmax (net w') = fdmax (net w)
     \<and> connections (net w') = connections (net w)"
  by (auto simp: tcp_init_socket_def Let_def split: prod.splits if_splits option.splits)

lemma tcp_listen_cases:
  assumes "tcp_listen A s w = Ret (r, w')"
  obtains (failed) "r = -1" "fdset (net w') = fdset (net w)" "fdmax (net w') = fdmax (net w)"
      "connections (net w') = connections (net w)"
  | (listening) "r = 0" "fdset (net w') = {listen_sck (net w')}"
      "fdmax (net w') = listen_sck (net w')" "0 \<le> listen_sck (net w')"
      "listen_sck (net w') < FD_SETSIZE" "connections (net w') = connections (net w)"
proof -
  from assms obtain port where rest: "(let (r, w) = tcp_init_socket A
        (with_net (\<lambda>t. t\<lparr>tcp_port := port\<rparr>) (with_net (\<lambda>t. t\<lparr>tcp_address := before_colon s\<rparr>) w))
      in if r \<noteq> 0 then Ret (-1, w)
         else let sck = listen_sck (net w)
           in bnd (FD_SET sck {}) (\<lambda>S.
              Ret (0, with_net (\<lambda>t. t\<lparr>fdset := S, tmpset := {}, fdmax := sck\<rparr>) w))) = Ret (r, w')"
    unfolding tcp_listen_def bnd_Ret_conv by (metis (no_types, lifting) bnd_Ret_conv)
  obtain r1 w1 where i: "tcp_init_socket A (with_net (\<lambda>t. t\<lparr>tcp_port := port\<rparr>)
        (with_net (\<lambda>t. t\<lparr>tcp_address := before_colon s\<rparr>) w)) = (r1, w1)" by fastforce
  with rest have res: "(if r1 \<noteq> 0 then Ret (-1, w1)
        else bnd (FD_SET (listen_sck (net w1)) {}) (\<lambda>S.
          Ret (0, with_net (\<lambda>t. t\<lparr>fdset := S, tmpset := {}, fdmax := listen_sck (net w1)\<rparr>) w1)))
        = Ret (r, w')"
    unfolding Let_def by simp
  from init_socket_net [OF i] have n: "fdset (net w1) = fdset (net w)" "fdmax (net w1) = fdmax (net w)"
      "connections (net w1) = connections (net w)"
    by simp_all
  show thesis
  proof (cases "r1 = 0")
    case False
    with res n show thesis by (intro failed) auto
  next
    case True
    with res n show thesis
      by (intro listening) (auto simp: FD_SET_def split: if_splits)
  qed
qed

lemma tcp_listen_inv: "tcp_listen A s w = Ret (r, w') \<Longrightarrow> fd_inv (net w) \<Longrightarrow> fd_inv (net w')"
  by (erule tcp_listen_cases) (auto simp: fd_inv_def)

lemma tcp_connect_inv:
  "tcp_connect c A p s retry timeout w = Ret (r, w') \<Longrightarrow> fd_inv (net w) \<Longrightarrow> fd_inv (net w')"
  by (auto simp: tcp_connect_def bnd_Ret_conv Let_def fd_inv_def add_connection_def
      new_HandleTCP_def alloc_handle_def split: prod.splits if_splits)

lemma tcp_update_inv:
  assumes "keeps_tables addinQ" and "tcp_update A p addinQ w = Ret w'" and "fd_inv (net w)"
  shows "fd_inv (net w')"
proof -
  let ?w0 = "with_net (\<lambda>t. t\<lparr>tmpset := fdset t\<rparr>) w"
  obtain n e S s where sel: "sk_select A (fdmax (net w) + 1) (fdset (net w)) (os (net w)) =
      (((n, e), S), s)" by (metis surj_pair)
  let ?w1 = "with_net (\<lambda>t. t\<lparr>tmpset := S\<rparr>) (set_os e s ?w0)"
  have inv1: "fd_inv (net ?w0)" "fd_inv (net ?w1)" using assms(3) by (simp_all add: fd_inv_def)
  have "tcp_update A p addinQ w = (if fdmax (net w) = -1 then Ret ?w0
      else if n = -1 \<or> n = 0 then Ret ?w1 else update_loop A p addinQ 0 n ?w1)"
    by (simp add: tcp_update_def Let_def sel)
  with assms(2) inv1 show ?thesis
    by (auto simp del: net_simps split: if_splits intro: update_loop_inv [OF assms(1)])
qed

lemma shut_wr_inv: "fd_inv (net w) \<Longrightarrow> fd_inv (net (shut_wr A h cr w))"
  by (simp add: shut_wr_def Let_def)

lemma shut_rd_inv: "shut_rd A h cw w = Ret w' \<Longrightarrow> fd_inv (net w) \<Longrightarrow> fd_inv (net w')"
  by (auto simp: shut_rd_def bnd_Ret_conv Let_def split: if_splits dest!: clear_fd_inv)

lemma tcp_notify_close_inv:
  "tcp_notify_close A h cw cr w = Ret w' \<Longrightarrow> fd_inv (net w) \<Longrightarrow> fd_inv (net w')"
  by (auto simp: tcp_notify_close_def bnd_Ret_conv Let_def split: if_splits
      dest!: shut_rd_inv intro: shut_wr_inv)

lemma tcp_notify_yield_inv:
  "tcp_notify_yield h w = Ret w' \<Longrightarrow> fd_inv (net w) \<Longrightarrow> fd_inv (net w')"
  by (fastforce simp: tcp_notify_yield_def bnd_Ret_conv Let_def FD_SET_def fd_inv_def
      split: if_splits)

lemma tcp_io_inv:
  "tcp_send A h bs w = Ret (r, w') \<Longrightarrow> fd_inv (net w) \<Longrightarrow> fd_inv (net w')"
  "tcp_probe A h b sz w = Ret (r, sz', w') \<Longrightarrow> fd_inv (net w) \<Longrightarrow> fd_inv (net w')"
  "tcp_receive A h n w = Ret (r, bs', w') \<Longrightarrow> fd_inv (net w) \<Longrightarrow> fd_inv (net w')"
  "tcp_sendEOS A h w = Ret (r, w') \<Longrightarrow> fd_inv (net w) \<Longrightarrow> fd_inv (net w')"
  by (auto simp: tcp_send_def tcp_probe_def tcp_receive_def tcp_sendEOS_def bnd_Ret_conv Let_def
      split: prod.splits)

lemmas tcp_op_inv = tcp_listen_inv tcp_connect_inv tcp_update_inv tcp_notify_yield_inv
  tcp_notify_close_inv tcp_io_inv

text \<open>C18: In every state a TCP connector can reach, whatever the order of listening, connecting,
  polling, yielding, closing and transferring data, the registered descriptors fit the bit set and
  \<open>fdmax\<close> is the greatest of them, or -1 when none is registered.\<close>

theorem tcp_fdmax_invariant:
  assumes "tcp_reach A w"
  shows "finite (fdset (net w)) \<and> fdset (net w) \<subseteq> {0..<FD_SETSIZE}
    \<and> fdmax (net w) = (if fdset (net w) = {} then -1 else Max (fdset (net w)))"
proof -
  from assms have inv: "fd_inv (net w)"
  proof (induction rule: tcp_reach.induct)
    case (init w r w')
    then show ?case by (auto simp: tcp_init_def fd_inv_def)
  qed (erule (2) tcp_op_inv | erule (1) tcp_op_inv)+
  then have sub: "fdset (net w) \<subseteq> {0..<FD_SETSIZE}" by (auto simp: fd_inv_def)
  then have fin: "finite (fdset (net w))" using finite_subset by blast
  have "fdmax (net w) = Max (fdset (net w))" if "fdset (net w) \<noteq> {}"
  proof (rule antisym)
    show "Max (fdset (net w)) \<le> fdmax (net w)" using fin that inv by (simp add: fd_inv_def)
    from that inv have "fdmax (net w) \<in> fdset (net w)"
      by (force simp: fd_inv_def)
    then show "fdmax (net w) \<le> Max (fdset (net w))" using fin by simp
  qed
  with sub fin inv show ?thesis by (auto simp: fd_inv_def)
qed

theorem tcp_fdmax_invariant_witness:
  "\<exists>w :: (sos tcp_state) world. tcp_reach sample_sys w \<and> fdset (net w) = {4}
     \<and> fdmax (net w) = Max {4}"
proof -
  let ?w0 = "sample_world sample_handle \<lparr>so_in = [], so_out = [], so_next = 4\<rparr>"
  obtain r w1 where init: "tcp_init ?w0 = Ret (r, w1)" by (simp add: tcp_init_def)
  then have w1: "w1 = with_net (\<lambda>t. t\<lparr>fdset := {}, tmpset := {}, listen_sck := -1, fdmax := -1\<rparr>) ?w0"
    by (simp add: tcp_init_def)
  have "\<exists>w2. tcp_listen sample_sys ''h:1'' w1 = Ret (0, w2) \<and> fdset (net w2) = {4}"
    by (simp add: w1 tcp_listen_def before_colon_def colon_def substr_from_def stoi_def string_to_int_def
        is_space_def digit_value_def tcp_init_socket_def sample_sys_def so_fresh_def so_ok_def
        sample_defs with_net_def set_os_def keep_errno_def FD_SET_def FD_SETSIZE_def Let_def)
  then obtain w2 where w2: "tcp_listen sample_sys ''h:1'' w1 = Ret (0, w2)" "fdset (net w2) = {4}"
    by blast
  from tcp_reach.listen [OF tcp_reach.init [OF init] w2(1)] have "tcp_reach sample_sys w2" .
  with tcp_fdmax_invariant [OF this] w2(2) show ?thesis by auto
qed

end
