(* ===== verification/RefCount.thy ===== *)
theory RefCount
  imports TcpProps
begin

text \<open>
  Whose turn it is to \<open>delete this\<close> (\<open>include/handle.hpp\<close>, \<open>include/handleUser.hpp\<close>): the user handles of a
  process, wherever they are kept, and what is done with them and with the objects behind them, as steps.
  \<^item> The user handles are those that wrap a \<open>Handle\<close> of a transport. A context of a team deletes members of its own,
    it is not a user of this theory.
  \<^item> The move assignment overwrites \<open>realHandle\<close> without giving up its unit of the counter. The history variable
    \<open>ls\<close> holds what has been overwritten: user handles that nobody has any more and that the counter still counts.
  \<^item> \<open>counted\<close>: the counter of every object is the number of user handles that refer to it, overwritten ones
    included, none of them refers to a deleted object, and an object that is closed in both directions has one.
  \<^item> It holds in every reachable state, over any transport that satisfies the contract \<open>transport\<close>; so no
    call on a user handle uses an object after its deletion.
\<close>

section \<open>Steps\<close>

type_synonym ('n, 'x) users = "huser list \<times> huser list \<times> ('n, 'x) world_scheme"

text \<open>
  \<open>made\<close>: the transport creates an object at an address that is not in use. \<open>wrapped\<close>: the queue of the
  manager, \<open>connect\<close> and \<open>accept\<close> make a user handle. \<open>assigned\<close>: \<open>us ! i = std::move(us ! j)\<close>, which
  does nothing when both are the same object. \<open>shut\<close>: \<open>ConnType\<close> or a collective closes an object
  itself. \<open>io\<close>: whatever a transport does between calls, it leaves the objects alone.
\<close>

inductive user_step ::
  "('n, 'x) world_scheme vtable \<Rightarrow> ('n, 'x) users \<Rightarrow> ('n, 'x) users \<Rightarrow> bool"
  for V where
  made: "alloc_handle p w = (h, w') \<Longrightarrow> heap w h = None \<Longrightarrow> user_step V (us, ls, w) (us, ls, w')"
| wrapped: "huser_new (Some h) r n w = Ret (u, w') \<Longrightarrow> user_step V (us, ls, w) (us @ [u], ls, w')"
| default: "user_step V (us, ls, w) (us @ [huser_null], ls, w)"
| moved: "i < length us \<Longrightarrow> huser_move (us ! i) = (u, v) \<Longrightarrow> user_step V (us, ls, w) (us[i := v] @ [u], ls, w)"
| assigned: "i < length us \<Longrightarrow> j < length us \<Longrightarrow> i \<noteq> j \<Longrightarrow> huser_move_assign (us ! i) (us ! j) = (u, v)
    \<Longrightarrow> user_step V (us, ls, w) (us[i := u, j := v], ls @ [us ! i], w)"
| send: "i < length us \<Longrightarrow> huser_send (handle_comm V) (us ! i) bs w = Ret (r, u, w')
    \<Longrightarrow> user_step V (us, ls, w) (us[i := u], ls, w')"
| probe: "i < length us \<Longrightarrow> huser_probe (handle_comm V) (us ! i) sz b w = Ret (r, sz', u, w')
    \<Longrightarrow> user_step V (us, ls, w) (us[i := u], ls, w')"
| receive: "i < length us \<Longrightarrow> huser_receive (handle_comm V) (us ! i) sz w = Ret (r, bs, u, w')
    \<Longrightarrow> user_step V (us, ls, w) (us[i := u], ls, w')"
| sendrecv: "i < length us \<Longrightarrow> huser_sendrecv (handle_comm V) (us ! i) sb rb sz w = Ret (r, bs, w')
    \<Longrightarrow> user_step V (us, ls, w) (us, ls, w')"
| setName: "i < length us \<Longrightarrow> huser_setName (us ! i) name w = Ret w' \<Longrightarrow> user_step V (us, ls, w) (us, ls, w')"
| yield: "i < length us \<Longrightarrow> huser_yield (handle_comm V) (us ! i) w = Ret (u, w')
    \<Longrightarrow> user_step V (us, ls, w) (us[i := u], ls, w')"
| close: "i < length us \<Longrightarrow> huser_close (handle_comm V) (us ! i) w = Ret w' \<Longrightarrow> user_step V (us, ls, w) (us, ls, w')"
| destroy: "i < length us \<Longrightarrow> huser_destroy (handle_comm V) (us ! i) w = Ret w'
    \<Longrightarrow> user_step V (us, ls, w) (take i us @ drop (Suc i) us, ls, w')"
| shut: "handle_close V h cw cr w = Ret w' \<Longrightarrow> user_step V (us, ls, w) (us, ls, w')"
| io: "heap w' = heap w \<Longrightarrow> user_step V (us, ls, w) (us, ls, w')"

inductive user_reach ::
  "('n, 'x) world_scheme vtable \<Rightarrow> ('n, 'x) users \<Rightarrow> bool" for V where
  start: "heap w = (\<lambda>_. None) \<Longrightarrow> user_reach V ([], [], w)"
| step: "user_reach V s \<Longrightarrow> user_step V s s' \<Longrightarrow> user_reach V s'"

section \<open>Counting\<close>

definition refs :: "huser list \<Rightarrow> hid \<Rightarrow> nat" where
  "refs us h = length (filter (\<lambda>u. realHandle u = Some h) us)"

definition counted :: "huser list \<Rightarrow> ('n, 'x) world_scheme \<Rightarrow> bool" where
  "counted us w \<longleftrightarrow>
     (\<forall>h. heap w h = None \<longrightarrow> refs us h = 0)
   \<and> (\<forall>h ob. heap w h = Some ob \<longrightarrow> counter ob = int (refs us h) \<and> (isClosed ob \<longrightarrow> refs us h \<noteq> 0))"

lemma counted_Some: "counted us w \<Longrightarrow> heap w h = Some ob \<Longrightarrow>
    counter ob = int (refs us h) \<and> (isClosed ob \<longrightarrow> refs us h \<noteq> 0)"
  by (simp add: counted_def)

lemma counted_None: "counted us w \<Longrightarrow> heap w h = None \<Longrightarrow> refs us h = 0"
  by (simp add: counted_def)

lemma refs_append [simp]: "refs (us @ vs) h = refs us h + refs vs h"
  by (simp add: refs_def)

lemma refs_single [simp]: "refs [u] h = (if realHandle u = Some h then 1 else 0)"
  by (simp add: refs_def)

lemma refs_Cons [simp]: "refs (u # us) h = (if realHandle u = Some h then 1 else 0) + refs us h"
  by (simp add: refs_def)

lemma refs_Nil [simp]: "refs [] h = 0"
  by (simp add: refs_def)

lemma refs_nth:
  assumes "i < length us"
  shows "refs us h = refs (take i us) h + (if realHandle (us ! i) = Some h then 1 else 0) + refs (drop (Suc i) us) h"
proof -
  from assms have "us = take i us @ [us ! i] @ drop (Suc i) us" by (simp add: id_take_nth_drop)
  then have "refs us h = refs (take i us @ [us ! i] @ drop (Suc i) us) h" by (rule arg_cong)
  then show ?thesis by (simp only: refs_append refs_single add.assoc)
qed

lemma refs_update:
  assumes "i < length us" and "realHandle u = realHandle (us ! i)"
  shows "refs (us[i := u]) = refs us"
proof
  fix h
  have "i < length (us[i := u])" using assms(1) by simp
  from refs_nth [OF this, of h] refs_nth [OF assms(1), of h] assms
  show "refs (us[i := u]) h = refs us h" by simp
qed

lemma refs_put:
  assumes "i < length us"
  shows "refs (us[i := u]) h + refs [us ! i] h = refs us h + refs [u] h"
proof -
  have "i < length (us[i := u])" using assms by simp
  from refs_nth [OF this, of h] refs_nth [OF assms, of h] assms show ?thesis by simp
qed

lemma counted_refs: "refs us' = refs us \<Longrightarrow> counted us' w \<longleftrightarrow> counted us w"
  by (simp add: counted_def)

lemma counted_held:
  assumes "counted us w" and "i < length us" and "realHandle (us ! i) = Some h"
  obtains ob where "heap w h = Some ob" and "counter ob = int (refs us h)" and "counter ob \<noteq> 0"
proof -
  have "refs us h \<noteq> 0" by (simp only: refs_nth [OF assms(2)] assms(3)) simp
  with counted_None [OF assms(1), of h] obtain ob where ob: "heap w h = Some ob" by (cases "heap w h") auto
  from counted_Some [OF assms(1) ob] \<open>refs us h \<noteq> 0\<close> have "counter ob = int (refs us h)" "counter ob \<noteq> 0"
    by simp_all
  with ob show thesis by (rule that)
qed

lemma counted_change:
  assumes "counted us w" and "heap w' = (heap w)(h := x)" and "\<And>k. k \<noteq> h \<Longrightarrow> refs us' k = refs us k"
    and "x = None \<Longrightarrow> refs us' h = 0"
    and "\<And>ob. x = Some ob \<Longrightarrow> counter ob = int (refs us' h) \<and> (isClosed ob \<longrightarrow> refs us' h \<noteq> 0)"
  shows "counted us' w'"
  unfolding counted_def
proof (intro conjI allI impI)
  show "refs us' k = 0" if "heap w' k = None" for k
    using that assms(2-4) counted_None [OF assms(1), of k] by (cases "k = h") auto
  show "counter ob = int (refs us' k)" if "heap w' k = Some ob" for k ob
    using that assms(2,3,5) counted_Some [OF assms(1), of k ob] by (cases "k = h") auto
  show "refs us' k \<noteq> 0" if "heap w' k = Some ob" "isClosed ob" for k ob
    using that assms(2,3,5) counted_Some [OF assms(1), of k ob] by (cases "k = h") auto
qed

text \<open>An operation that changes one referenced object, and not its counter.\<close>

lemma counted_touch:
  assumes "counted us w" and "heap w h = Some ob" and "counter ob \<noteq> 0"
    and "heap w' = (heap w)(h \<mapsto> ob')" and "counter ob' = counter ob" and "refs us' = refs us"
  shows "counted us' w'"
  using assms counted_Some [OF assms(1,2)] unfolding counted_def by auto

lemma counted_same:
  "counted us w \<Longrightarrow> heap w' = heap w \<Longrightarrow> refs us' = refs us \<Longrightarrow> counted us' w'"
  by (simp add: counted_def)

section \<open>What the calls do to the objects\<close>

text \<open>\<open>referenced h w w'\<close>: the object \<open>h\<close> may have changed, all else and its counter are as before.\<close>

definition referenced :: "hid \<Rightarrow> ('n, 'x) world_scheme \<Rightarrow> ('n, 'x) world_scheme \<Rightarrow> bool" where
  "referenced h w w' \<longleftrightarrow> (\<forall>ob. heap w h = Some ob \<longrightarrow>
     (\<exists>ob'. heap w' = (heap w)(h \<mapsto> ob') \<and> counter ob' = counter ob))"

lemma referenced_same: "heap w' = heap w \<Longrightarrow> referenced h w w'"
proof -
  assume e: "heap w' = heap w"
  show ?thesis
    unfolding referenced_def
  proof (intro allI impI)
    fix ob assume "heap w h = Some ob"
    then show "\<exists>ob'. heap w' = (heap w)(h \<mapsto> ob') \<and> counter ob' = counter ob"
      using e by (intro exI [of _ ob]) auto
  qed
qed

lemma referenced_put: "heap w h = Some ob \<Longrightarrow> counter ob' = counter ob \<Longrightarrow> heap w' = (heap w)(h \<mapsto> ob') \<Longrightarrow> referenced h w w'"
  by (auto simp: referenced_def)

lemma referenced_trans: "referenced h u v \<Longrightarrow> referenced h v w \<Longrightarrow> referenced h u w"
  by (fastforce simp: referenced_def)

lemma referencedE:
  assumes "referenced h w w'" and "heap w h = Some ob"
  obtains ob' where "heap w' = (heap w)(h \<mapsto> ob')" and "counter ob' = counter ob"
  using assms by (auto simp: referenced_def)

context transport begin

lemma close_referenced:
  assumes "handle_close V h cw cr w = Ret w'" and "heap w h = Some ob" and "counter ob \<noteq> 0"
  shows "referenced h w w'"
  using close_effect [OF assms(1,2)] assms(2,3)
  by (intro referenced_put [of w h ob "ob\<lparr>closed_wr := closed_wr ob \<or> cw, closed_rd := closed_rd ob \<or> cr\<rparr>"]) auto

lemma probe_referenced:
  assumes "huser_probe (handle_comm V) u sz b w = Ret (r, sz', u', w')" and "realHandle u = Some h"
    and "heap w h = Some ob" and "counter ob \<noteq> 0"
  shows "realHandle u' = Some h \<and> referenced h w w'"
proof (cases "fst (probed ob) \<or> \<not> isReadable u \<or> closed_rd ob")
  case True
  with assms show ?thesis
    by (auto simp: huser_probe_def Let_def obj_Some referenced_same split: if_splits)
next
  case False
  with assms obtain n s w1 where p: "vt_probe V h b sz w = Ret (n, s, w1)"
    by (auto simp: huser_probe_def handle_comm_def Let_def obj_Some bnd_Ret_conv)
  have w1: "heap w1 = heap w" using probe_frame [OF p] .
  have keep1: "referenced h w w1" using w1 by (rule referenced_same)
  have keep2: "referenced h w (put_obj h (ob\<lparr>probed := q\<rparr>) w1)" for q
    using w1 assms(3) by (intro referenced_put [of _ _ ob]) simp_all
  have close1: "referenced h w v" if "handle_close V h cw cr w1 = Ret v" for cw cr v
    using referenced_trans [OF keep1 close_referenced [OF that]] w1 assms(3,4) by simp
  have close2: "referenced h w v" if "handle_close V h cw cr (put_obj h (ob\<lparr>probed := q\<rparr>) w1) = Ret v" for cw cr v q
    using referenced_trans [OF keep2 close_referenced [OF that]] assms(4) by simp
  have keep3: "referenced h w (set_errno x w1)" for x using w1 by (intro referenced_same) simp
  from False assms p w1 keep1 keep2 keep3 show ?thesis
    by (auto simp: huser_probe_def handle_comm_def Let_def obj_Some upd_obj_Some bnd_Ret_conv
        split: if_splits dest: close1 close2)
qed

lemma receive_referenced:
  assumes "huser_receive (handle_comm V) u sz w = Ret (r, bs, u', w')" and "realHandle u = Some h"
    and "heap w h = Some ob" and "counter ob \<noteq> 0"
  shows "realHandle u' = Some h \<and> referenced h w w'"
proof -
  have rest: "realHandle u' = Some h \<and> referenced h w1 w'"
    if v: "realHandle v = Some h" "heap w1 h = Some ob1"
    and run: "(let n = snd (probed ob1)
       in if n > sz then Ret (-1, [], v, set_errno ENOMEM w1)
          else bnd (upd_obj h (\<lambda>ob. ob\<lparr>probed := (False, 0)\<rparr>) w1) (\<lambda>w.
               bnd (vt_receive V h (min n sz) w) (\<lambda>(r, bs, w). Ret (r, bs, v, w)))) = Ret (r, bs, u', w')"
    for v w1 ob1
  proof (cases "snd (probed ob1) > sz")
    case True
    with v run show ?thesis by (auto simp: Let_def intro: referenced_same)
  next
    case False
    with v run have "u' = v" "heap w' = (heap w1)(h \<mapsto> ob1\<lparr>probed := (False, 0)\<rparr>)"
      by (auto simp: upd_obj_Some bnd_Ret_conv Let_def dest!: receive_frame)
    with v referenced_put [OF v(2), of "ob1\<lparr>probed := (False, 0)\<rparr>" w'] show ?thesis by simp
  qed
  have C: "c_receive (handle_comm V) = vt_receive V" by (simp add: handle_comm_def)
  note run = assms(1) [unfolded huser_receive_def C]
  show ?thesis
  proof (cases "fst (probed ob)")
    case True
    with run assms(2-4) rest [of "u\<lparr>newConnection := False\<rparr>" w ob] show ?thesis
      by (auto simp: obj_Some Let_def referenced_same split: if_splits)
  next
    case False
    with assms obtain n s v w1 where p: "huser_probe (handle_comm V) u 0 True w = Ret (n, s, v, w1)"
      by (auto simp: huser_receive_def obj_Some bnd_Ret_conv)
    from probe_referenced [OF p assms(2-4)] have v: "realHandle v = Some h" and k: "referenced h w w1" by auto
    from referencedE [OF k assms(3)] obtain ob1 where ob1: "heap w1 = (heap w)(h \<mapsto> ob1)" .
    with False run assms(2,3) p rest [OF v, of w1 ob1] k v referenced_trans [OF k] show ?thesis
      by (auto simp: obj_Some split: if_splits)
  qed
qed

lemma send_referenced:
  assumes "huser_send (handle_comm V) u bs w = Ret (r, u', w')"
  shows "realHandle u' = realHandle u \<and> heap w' = heap w"
  using assms
  by (auto simp: huser_send_def handle_comm_def Let_def bnd_Ret_conv split: option.splits if_splits dest: send_frame)

lemma yield_referenced:
  assumes "huser_yield (handle_comm V) u w = Ret (u', w')"
  shows "realHandle u' = realHandle u \<and> heap w' = heap w"
  using assms
  by (auto simp: huser_yield_def handle_comm_def handle_yield_def Let_def bnd_Ret_conv
      split: option.splits if_splits dest: notify_yield_frame)

lemma sendrecv_referenced:
  assumes "huser_sendrecv (handle_comm V) u sb rb n w = Ret (r, bs, w')" and "realHandle u = Some h" and "heap w h = Some ob"
  shows "referenced h w w'"
  using assms
  by (intro referenced_put [of w h ob "ob\<lparr>probed := (False, 0)\<rparr>"])
    (auto simp: huser_sendrecv_def handle_comm_def upd_obj_Some comm_sendrecv_def)

lemma setName_referenced:
  assumes "huser_setName u name w = Ret w'" and "realHandle u = Some h" and "heap w h = Some ob"
  shows "referenced h w w'"
  using assms
  by (intro referenced_put [of w h ob "ob\<lparr>handleName := name\<rparr>"]) (auto simp: huser_setName_def upd_obj_Some)

section \<open>The invariant\<close>

lemma counted_referenced:
  assumes "counted us w" and "i < length us" and "realHandle (us ! i) = Some h" and "referenced h w w'"
    and "realHandle u = Some h"
  shows "counted (us[i := u]) w'"
proof -
  from counted_held [OF assms(1-3)] obtain ob where ob: "heap w h = Some ob" "counter ob \<noteq> 0" by blast
  from referencedE [OF assms(4) ob(1)] obtain ob' where "heap w' = (heap w)(h \<mapsto> ob')" "counter ob' = counter ob" .
  from counted_touch [OF assms(1) ob this] refs_update [OF assms(2)] assms(3,5) show ?thesis by simp
qed

lemma counted_close:
  assumes "counted us w" and "handle_close V h cw cr w = Ret w'"
  shows "counted us w'"
proof -
  from close_live [OF assms(2)] obtain ob where ob: "heap w h = Some ob" by blast
  from counted_Some [OF assms(1) ob] have "counter ob = int (refs us h)" by simp
  with assms(1) close_effect [OF assms(2) ob] show ?thesis
    by (auto simp: counted_def isClosed_def)
qed

lemma counted_destroy:
  assumes "counted us w" and "i < length us" and "huser_destroy (handle_comm V) (us ! i) w = Ret w'"
  shows "counted (take i us @ drop (Suc i) us) w'"
proof -
  let ?us = "take i us @ drop (Suc i) us"
  have all: "refs us k = refs ?us k + (if realHandle (us ! i) = Some k then 1 else 0)" for k
    using refs_nth [OF assms(2), of k] by simp
  show ?thesis
  proof (cases "realHandle (us ! i)")
    case None
    with assms(3) have "w' = w" by (simp add: huser_destroy_def)
    moreover from None have "refs ?us = refs us" using all by (intro ext) (simp del: refs_append)
    ultimately show ?thesis by (intro counted_same [OF assms(1)]) (simp_all only:)
  next
    case (Some h)
    from counted_held [OF assms(1,2) Some] obtain ob where
      ob: "heap w h = Some ob" "counter ob = int (refs us h)" by blast
    from assms(3) Some obtain w1 where
      y: "(if isReadable (us ! i) then bnd (huser_yield (handle_comm V) (us ! i) w) (\<lambda>(_, w). Ret w) else Ret w) = Ret w1"
      and d: "decrementReferenceCounter h w1 = Ret w'"
      by (auto simp: huser_destroy_def bnd_Ret_conv)
    have w1: "heap w1 = heap w" using y by (auto simp: bnd_Ret_conv split: if_splits dest: yield_referenced)
    let ?ob = "ob\<lparr>counter := counter ob - 1\<rparr>"
    have w': "heap w' = (heap w)(h := (if counter ?ob = 0 \<and> isClosed ob then None else Some ?ob))"
      using d w1 ob(1) by (auto simp: decrementReferenceCounter_def upd_obj_Some obj_Some isClosed_def split: if_splits)
    have h: "refs us h = Suc (refs ?us h)" using all [of h] Some by simp
    have other: "refs us k = refs ?us k" if "k \<noteq> h" for k using all [of k] Some that by simp
    have "counter ?ob = int (refs ?us h)" using ob(2) h by simp
    moreover have "isClosed ?ob = isClosed ob" by (simp add: isClosed_def)
    ultimately show ?thesis
      using other w' by (intro counted_change [OF assms(1) w']) (auto simp del: refs_append split: if_splits)
  qed
qed

text \<open>The state of a user handle that is still there, in front of the overwritten ones.\<close>

lemma counted_kept:
  assumes "counted (us @ ls) w" and "i < length us" and "realHandle (us ! i) = Some h"
    and "\<And>ob. heap w h = Some ob \<Longrightarrow> counter ob \<noteq> 0 \<Longrightarrow> realHandle u = Some h \<and> referenced h w w'"
  shows "counted (us[i := u] @ ls) w'"
proof -
  have i: "i < length (us @ ls)" "(us @ ls) ! i = us ! i" using assms(2) by (simp_all add: nth_append)
  have h: "realHandle ((us @ ls) ! i) = Some h" using i(2) assms(3) by simp
  from counted_held [OF assms(1) i(1) h] obtain ob where "heap w h = Some ob" "counter ob \<noteq> 0" by blast
  from assms(4) [OF this] counted_referenced [OF assms(1) i(1) h] assms(2) show ?thesis
    by (simp add: list_update_append1)
qed

lemma counted_step:
  assumes "user_step V (us, ls, w) (us', ls', w')" and "counted (us @ ls) w"
  shows "counted (us' @ ls') w'"
  using assms(1)
proof cases
  case (made p h)
  then have h: "heap w h = None" "heap w' = (heap w)(h \<mapsto> new_handle p)"
    by (auto simp: alloc_handle_def)
  with counted_None [OF assms(2) h(1)] made assms(2) show ?thesis
    by (auto simp: counted_def new_handle_def isClosed_def simp del: refs_append)
next
  case (wrapped h r n u)
  then obtain ob where ob: "heap w h = Some ob" "heap w' = (heap w)(h \<mapsto> ob\<lparr>counter := counter ob + 1\<rparr>)"
    "realHandle u = Some h"
    by (auto simp: huser_new_def incrementReferenceCounter_def bnd_Ret_conv upd_obj_Ret)
  from counted_Some [OF assms(2) ob(1)] have "counter ob = int (refs us h) + int (refs ls h)" by simp
  with ob wrapped(1,2) assms(2) show ?thesis by (auto simp: counted_def isClosed_def)
next
  case default
  then have "refs (us' @ ls') = refs (us @ ls)" by (simp add: fun_eq_iff huser_null_def)
  from counted_refs [OF this, of w] assms(2) default show ?thesis by simp
next
  case (moved i u v)
  have "refs (us' @ ls') k = refs (us @ ls) k" for k
    using refs_put [OF moved(4), of v k] moved by (auto simp: huser_move_def)
  then have "refs (us' @ ls') = refs (us @ ls)" by (rule ext)
  from counted_refs [OF this, of w] assms(2) moved(3) show ?thesis by simp
next
  case (assigned i j u v)
  have j: "j < length (us[i := u])" "us[i := u] ! j = us ! j" using assigned(5,6) by simp_all
  have "refs (us' @ ls') k = refs (us @ ls) k" for k
    using refs_put [OF assigned(4), of u k] refs_put [OF j(1), of v k] assigned(1,2,7) unfolding j(2)
    by (auto simp: huser_move_assign_def)
  then have "refs (us' @ ls') = refs (us @ ls)" by (rule ext)
  from counted_refs [OF this, of w] assms(2) assigned(3) show ?thesis by simp
next
  case (send i bs r u)
  have "refs us' = refs us" using send_referenced [OF send(4)] refs_update [OF send(3)] send(1) by simp
  with send_referenced [OF send(4)] send(2) show ?thesis by (intro counted_same [OF assms(2)]) auto
next
  case (probe i sz b r sz' u)
  then obtain h where h: "realHandle (us ! i) = Some h" by (auto simp: huser_probe_def Let_def deref_def split: option.splits)
  from counted_kept [OF assms(2) probe(3) h probe_referenced [OF probe(4) h]] probe(1,2) show ?thesis by simp
next
  case (receive i sz r bs u)
  then obtain h where h: "realHandle (us ! i) = Some h" by (auto simp: huser_receive_def deref_def split: option.splits)
  from counted_kept [OF assms(2) receive(3) h receive_referenced [OF receive(4) h]] receive(1,2) show ?thesis by simp
next
  case (sendrecv i sb rb sz r bs)
  then obtain h where h: "realHandle (us ! i) = Some h" by (auto simp: huser_sendrecv_def deref_def split: option.splits)
  from counted_kept [OF assms(2) sendrecv(3) h conjI [OF h sendrecv_referenced [OF sendrecv(4) h]]] sendrecv(1,2)
  show ?thesis by simp
next
  case (setName i name)
  then obtain h where h: "realHandle (us ! i) = Some h" by (auto simp: huser_setName_def deref_def split: option.splits)
  from counted_kept [OF assms(2) setName(3) h conjI [OF h setName_referenced [OF setName(4) h]]] setName(1,2)
  show ?thesis by simp
next
  case (yield i u)
  have "refs us' = refs us" using yield_referenced [OF yield(4)] refs_update [OF yield(3)] yield(1) by simp
  with yield_referenced [OF yield(4)] yield(2) show ?thesis by (intro counted_same [OF assms(2)]) auto
next
  case (close i)
  then show ?thesis using assms(2) counted_close [OF assms(2)]
    by (auto simp: huser_close_def handle_comm_def split: option.splits)
next
  case (destroy i)
  have i: "i < length (us @ ls)" "(us @ ls) ! i = us ! i" "take i (us @ ls) @ drop (Suc i) (us @ ls) = us' @ ls'"
    using destroy(1-3) by (simp_all add: nth_append)
  from counted_destroy [OF assms(2) i(1)] destroy(4) show ?thesis unfolding i(2,3) by simp
next
  case (shut h cw cr)
  with counted_close [OF assms(2)] show ?thesis by simp
next
  case io
  then show ?thesis by (intro counted_same [OF assms(2)]) simp_all
qed

lemma reach_counted: "user_reach V (us, ls, w) \<Longrightarrow> counted (us @ ls) w"
proof (induction "(us, ls, w)" arbitrary: us ls w rule: user_reach.induct)
  case (start w)
  then show ?case by (simp add: counted_def)
next
  case (step s us' ls' w')
  obtain us ls w where "s = (us, ls, w)" by (metis surj_pair)
  with step show ?case using counted_step by blast
qed

end

section \<open>No use after deletion\<close>

lemma bnd_Fault_conv: "bnd m f = Fault e \<longleftrightarrow> m = Fault e \<or> (\<exists>x. m = Ret x \<and> f x = Fault e)"
  by (cases m) auto

text \<open>The calls of a transport do not use a deleted object when the one they are for is there.\<close>

locale sparing = transport +
  assumes send_spares: "heap w h = Some ob \<Longrightarrow> vt_send V h bs w \<noteq> Fault Use_after_free"
    and probe_spares: "heap w h = Some ob \<Longrightarrow> vt_probe V h b sz w \<noteq> Fault Use_after_free"
    and receive_spares: "heap w h = Some ob \<Longrightarrow> vt_receive V h n w \<noteq> Fault Use_after_free"
    and sendEOS_spares: "heap w h = Some ob \<Longrightarrow> vt_sendEOS V h w \<noteq> Fault Use_after_free"
    and notify_close_spares: "heap w h = Some ob \<Longrightarrow> vt_notify_close V h cw cr w \<noteq> Fault Use_after_free"
    and notify_yield_spares: "heap w h = Some ob \<Longrightarrow> vt_notify_yield V h w \<noteq> Fault Use_after_free"
begin

lemma close_spares:
  assumes "heap w h = Some ob"
  shows "handle_close V h cw cr w \<noteq> Fault Use_after_free"
proof -
  have tail: "bnd (obj h v) (\<lambda>ob. bnd (vt_notify_close V h (closed_wr ob) (closed_rd ob) v) (\<lambda>w.
      bnd (obj h w) (\<lambda>ob. if counter ob = 0 \<and> closed_rd ob \<and> closed_wr ob then Ret (delete_obj h w) else Ret w)))
      \<noteq> Fault Use_after_free" if "heap v h = Some ob'" for v ob'
    using that notify_close_spares [OF that]
    by (auto simp: obj_Some bnd_Fault_conv obj_def split: option.splits if_splits dest: notify_close_frame)
  have mid: "bnd (obj h v) (\<lambda>ob. bnd (if cr \<and> \<not> closed_rd ob then upd_obj h (\<lambda>ob. ob\<lparr>closed_rd := True\<rparr>) v else Ret v) (\<lambda>w.
      bnd (obj h w) (\<lambda>ob. bnd (vt_notify_close V h (closed_wr ob) (closed_rd ob) w) (\<lambda>w.
      bnd (obj h w) (\<lambda>ob. if counter ob = 0 \<and> closed_rd ob \<and> closed_wr ob then Ret (delete_obj h w) else Ret w)))))
      \<noteq> Fault Use_after_free" if "heap v h = Some ob'" for v ob'
    using that tail [of v ob'] tail [of "put_obj h (ob'\<lparr>closed_rd := True\<rparr>) v"]
    by (simp add: obj_Some upd_obj_Some)
  show ?thesis
  proof (cases "cw \<and> \<not> closed_wr ob")
    case True
    show ?thesis
    proof (cases "vt_sendEOS V h w")
      case (Ret x)
      obtain r w1 where x: "x = (r, w1)" by (metis surj_pair)
      from Ret x sendEOS_frame have "heap w1 = heap w" by blast
      with mid [of "put_obj h (ob\<lparr>closed_wr := True\<rparr>) w1"] True Ret x assms show ?thesis
        by (simp add: handle_close_def obj_Some upd_obj_Some)
    next
      case (Fault f)
      with sendEOS_spares [OF assms] True assms show ?thesis by (simp add: handle_close_def obj_Some)
    qed
  next
    case False
    then have "handle_close V h cw cr w = bnd (obj h w) (\<lambda>ob. bnd (if cr \<and> \<not> closed_rd ob
      then upd_obj h (\<lambda>ob. ob\<lparr>closed_rd := True\<rparr>) w else Ret w) (\<lambda>w.
      bnd (obj h w) (\<lambda>ob. bnd (vt_notify_close V h (closed_wr ob) (closed_rd ob) w) (\<lambda>w.
      bnd (obj h w) (\<lambda>ob. if counter ob = 0 \<and> closed_rd ob \<and> closed_wr ob then Ret (delete_obj h w) else Ret w)))))"
      using assms by (auto simp: handle_close_def obj_Some)
    with mid [OF assms] show ?thesis by simp
  qed
qed

lemma huser_probe_spares:
  assumes "realHandle u = Some h" and "heap w h = Some ob"
  shows "huser_probe (handle_comm V) u sz b w \<noteq> Fault Use_after_free"
proof (cases "fst (probed ob) \<or> \<not> isReadable u \<or> closed_rd ob")
  case True
  with assms show ?thesis by (auto simp: huser_probe_def obj_Some Let_def)
next
  case False
  show ?thesis
  proof (cases "vt_probe V h b sz w")
    case (Ret x)
    obtain r s w1 where x: "x = (r, s, w1)" by (metis surj_pair)
    with Ret probe_frame have w1: "heap w1 h = Some ob" using assms(2) by fastforce
    have "handle_close V h cw cr (put_obj h ob' w1) \<noteq> Fault Use_after_free" for cw cr ob'
      by (rule close_spares) simp
    with False Ret x w1 close_spares [OF w1] assms show ?thesis
      by (auto simp: huser_probe_def handle_comm_def obj_Some upd_obj_Some bnd_Fault_conv Let_def split: if_splits)
  next
    case (Fault f)
    with False probe_spares [OF assms(2)] assms show ?thesis
      by (auto simp: huser_probe_def handle_comm_def obj_Some Let_def)
  qed
qed

lemma huser_receive_spares:
  assumes "realHandle u = Some h" and "heap w h = Some ob" and "counter ob \<noteq> 0"
  shows "huser_receive (handle_comm V) u sz w \<noteq> Fault Use_after_free"
proof -
  have C: "c_receive (handle_comm V) = vt_receive V" by (simp add: handle_comm_def)
  have rest: "(let n = snd (probed ob1)
       in if n > sz then Ret (-1, [], v, set_errno ENOMEM w1)
          else bnd (upd_obj h (\<lambda>ob. ob\<lparr>probed := (False, 0)\<rparr>) w1) (\<lambda>w.
               bnd (vt_receive V h (min n sz) w) (\<lambda>(r, bs, w). Ret (r, bs, v, w)))) \<noteq> Fault Use_after_free"
    if "heap w1 h = Some ob1" for v w1 ob1
    using that receive_spares [of "put_obj h (ob1\<lparr>probed := (False, 0)\<rparr>) w1" h]
    by (auto simp: upd_obj_Some bnd_Fault_conv Let_def)
  show ?thesis
  proof (cases "fst (probed ob)")
    case True
    with assms(1,2) rest [OF assms(2), of "u\<lparr>newConnection := False\<rparr>"] show ?thesis
      unfolding huser_receive_def C by (auto simp: obj_Some Let_def)
  next
    case False
    show ?thesis
    proof (cases "huser_probe (handle_comm V) u 0 True w")
      case (Ret x)
      obtain r s v w1 where x: "x = (r, s, v, w1)" by (metis surj_pair)
      from probe_referenced [OF Ret [unfolded x] assms] have "referenced h w w1" by simp
      from referencedE [OF this assms(2)] obtain ob1 where "heap w1 = (heap w)(h \<mapsto> ob1)" .
      then have "heap w1 h = Some ob1" by simp
      with False Ret x assms(1,2) rest [OF this, of v] show ?thesis
        unfolding huser_receive_def C by (auto simp: obj_Some)
    next
      case (Fault f)
      with False huser_probe_spares [OF assms(1,2)] assms(1,2) show ?thesis
        unfolding huser_receive_def by (auto simp: obj_Some)
    qed
  qed
qed

lemma huser_send_spares:
  assumes "realHandle u = Some h" and "heap w h = Some ob"
  shows "huser_send (handle_comm V) u bs w \<noteq> Fault Use_after_free"
proof -
  have C: "c_send (handle_comm V) = vt_send V" by (simp add: handle_comm_def)
  have run: "huser_send (handle_comm V) u bs w =
      (if closed_wr ob then Ret (-1, u\<lparr>newConnection := False\<rparr>, set_errno EBADF w)
       else bnd (vt_send V h bs w) (\<lambda>(r, w). Ret (r, u\<lparr>newConnection := False\<rparr>, w)))"
    unfolding huser_send_def C Let_def by (simp add: assms obj_Some)
  show ?thesis
  proof (cases "vt_send V h bs w")
    case (Ret x)
    obtain r v where "x = (r, v)" by (metis surj_pair)
    with Ret show ?thesis by (simp add: run)
  next
    case (Fault f)
    with send_spares [OF assms(2), of bs] show ?thesis by (simp add: run)
  qed
qed

lemma huser_yield_spares:
  assumes "realHandle u = Some h" and "heap w h = Some ob"
  shows "huser_yield (handle_comm V) u w \<noteq> Fault Use_after_free"
  using assms notify_yield_spares [OF assms(2)]
  by (cases "vt_notify_yield V h w")
    (simp_all add: huser_yield_def handle_comm_def handle_yield_def obj_Some Let_def)

lemma huser_close_spares:
  assumes "realHandle u = Some h" and "heap w h = Some ob"
  shows "huser_close (handle_comm V) u w \<noteq> Fault Use_after_free"
  using assms close_spares [OF assms(2)] by (simp add: huser_close_def handle_comm_def)

lemma huser_destroy_spares:
  assumes "realHandle u = Some h" and "heap w h = Some ob"
  shows "huser_destroy (handle_comm V) u w \<noteq> Fault Use_after_free"
proof -
  have d: "decrementReferenceCounter h v \<noteq> Fault Use_after_free" if "heap v h = Some ob" for v
    using that by (simp add: decrementReferenceCounter_def upd_obj_Some obj_Some)
  show ?thesis
  proof (cases "isReadable u")
    case True
    show ?thesis
    proof (cases "huser_yield (handle_comm V) u w")
      case (Ret x)
      obtain v w1 where x: "x = (v, w1)" by (metis surj_pair)
      from yield_referenced [OF Ret [unfolded x]] assms(2) have "heap w1 h = Some ob" by simp
      from d [OF this] True Ret x assms(1) show ?thesis by (simp add: huser_destroy_def)
    next
      case (Fault f)
      with huser_yield_spares [OF assms] True assms(1) show ?thesis by (simp add: huser_destroy_def)
    qed
  next
    case False
    with d [OF assms(2)] assms(1) show ?thesis by (simp add: huser_destroy_def)
  qed
qed

text \<open>The calls on a user handle of a reachable state.\<close>

lemma reach_spares:
  assumes "user_reach V (us, ls, w)" and "i < length us"
  shows "huser_send (handle_comm V) (us ! i) bs w \<noteq> Fault Use_after_free
    \<and> huser_probe (handle_comm V) (us ! i) sz b w \<noteq> Fault Use_after_free
    \<and> huser_receive (handle_comm V) (us ! i) sz w \<noteq> Fault Use_after_free
    \<and> huser_sendrecv (handle_comm V) (us ! i) bs rb sz w \<noteq> Fault Use_after_free
    \<and> huser_setName (us ! i) name w \<noteq> Fault Use_after_free \<and> huser_getName (us ! i) w \<noteq> Fault Use_after_free
    \<and> huser_yield (handle_comm V) (us ! i) w \<noteq> Fault Use_after_free
    \<and> huser_close (handle_comm V) (us ! i) w \<noteq> Fault Use_after_free
    \<and> huser_destroy (handle_comm V) (us ! i) w \<noteq> Fault Use_after_free"
proof (cases "realHandle (us ! i)")
  case None
  then show ?thesis
    by (simp add: huser_send_def huser_probe_def huser_receive_def huser_yield_def huser_close_def
        huser_destroy_def huser_sendrecv_def huser_setName_def huser_getName_def Let_def deref_def)
next
  case (Some h)
  have i: "i < length (us @ ls)" "(us @ ls) ! i = us ! i" using assms(2) by (simp_all add: nth_append)
  have h: "realHandle ((us @ ls) ! i) = Some h" using i(2) Some by simp
  from counted_held [OF reach_counted [OF assms(1)] i(1) h] obtain ob where ob: "heap w h = Some ob" "counter ob \<noteq> 0"
    by blast
  have "huser_sendrecv (handle_comm V) (us ! i) bs rb sz w \<noteq> Fault Use_after_free"
    "huser_setName (us ! i) name w \<noteq> Fault Use_after_free" "huser_getName (us ! i) w \<noteq> Fault Use_after_free"
    using Some ob(1)
    by (simp_all add: huser_sendrecv_def huser_setName_def huser_getName_def handle_comm_def upd_obj_Some obj_Some)
  then show ?thesis
    using huser_send_spares [OF Some ob(1)] huser_probe_spares [OF Some ob(1)]
      huser_receive_spares [OF Some ob] huser_yield_spares [OF Some ob(1)]
      huser_close_spares [OF Some ob(1)] huser_destroy_spares [OF Some ob(1)] by (intro conjI)
qed

end

section \<open>TCP\<close>

lemma clear_fd_spares: "clear_fd fd w \<noteq> Fault Use_after_free"
  by (simp add: clear_fd_def FD_CLR_def Let_def)

lemma shut_rd_spares: "shut_rd A h b w \<noteq> Fault Use_after_free"
  unfolding shut_rd_def Let_def
  by (auto simp: bnd_Fault_conv clear_fd_spares)

lemma writevn_spares: "writevn k A fd bs s \<noteq> Fault Use_after_free"
  by (induction k A fd bs s rule: writevn.induct) (auto split: prod.splits wr_result.splits list.splits)

lemma tcp_calls_spare:
  assumes "heap w h = Some ob"
  shows "tcp_send A h bs w \<noteq> Fault Use_after_free" and "tcp_probe A h b sz w \<noteq> Fault Use_after_free"
    and "tcp_receive A h n w \<noteq> Fault Use_after_free" and "tcp_sendEOS A h w \<noteq> Fault Use_after_free"
    and "tcp_notify_close A h cw cr w \<noteq> Fault Use_after_free" and "tcp_notify_yield h w \<noteq> Fault Use_after_free"
proof -
  note ob = obj_Some [OF assms]
  show "tcp_send A h bs w \<noteq> Fault Use_after_free"
    by (auto simp: tcp_send_def fd_send_def ob bnd_Fault_conv writevn_spares split: if_splits)
  show "tcp_probe A h b sz w \<noteq> Fault Use_after_free" by (simp add: tcp_probe_def ob split_beta)
  show "tcp_receive A h n w \<noteq> Fault Use_after_free" by (simp add: tcp_receive_def ob split_beta)
  show "tcp_sendEOS A h w \<noteq> Fault Use_after_free" by (simp add: tcp_sendEOS_def ob split_beta)
  show "tcp_notify_close A h cw cr w \<noteq> Fault Use_after_free"
    by (simp add: tcp_notify_close_def ob Let_def shut_rd_spares)
  show "tcp_notify_yield h w \<noteq> Fault Use_after_free" by (simp add: tcp_notify_yield_def ob Let_def FD_SET_def)
qed

interpretation tcp_spares: sparing "tcp_vtable A" for A
  by (intro sparing.intro tcp.transport_axioms sparing_axioms.intro)
    (simp_all add: tcp_vtable_def tcp_calls_spare)

section \<open>Properties\<close>

text \<open>A process over TCP that makes a handle, wraps it for the user and moves the user handle.\<close>

definition rc_user :: "bool \<Rightarrow> huser" where
  "rc_user b = (if b then \<lparr>realHandle = Some 8, isReadable = True, newConnection = True\<rparr>
     else \<lparr>realHandle = None, isReadable = False, newConnection = False\<rparr>)"

definition rc_world :: "hobj option \<Rightarrow> (sos tcp_state) world" where
  "rc_world x = (sample_world sample_handle \<lparr>so_in = [], so_out = [], so_next = 4\<rparr>)
     \<lparr>heap := (\<lambda>_. None)(8 := x), next_hid := (if x = None then 8 else 9)\<rparr>"

lemma rc_reach: "user_reach (tcp_vtable sample_sys) ([rc_user False, rc_user True], [], rc_world (Some sample_handle))"
proof -
  let ?V = "tcp_vtable sample_sys" and ?w1 = "rc_world (Some (new_handle ''TCP''))"
  have "user_reach ?V ([], [], rc_world None)"
    by (rule user_reach.start) (simp add: rc_world_def)
  moreover have "user_step ?V ([], [], rc_world None) ([], [], ?w1)"
    by (rule user_step.made [of "''TCP''" _ 8]) (simp_all add: alloc_handle_def rc_world_def sample_world_def)
  ultimately have "user_reach ?V ([], [], ?w1)" by (rule user_reach.step)
  moreover have "user_step ?V ([], [], ?w1) ([] @ [rc_user True], [], rc_world (Some sample_handle))"
    by (rule user_step.wrapped [of 8 True True])
      (simp add: huser_new_def incrementReferenceCounter_def upd_obj_Some rc_world_def sample_world_def rc_user_def
        put_obj_def new_handle_def)
  ultimately have "user_reach ?V ([rc_user True], [], rc_world (Some sample_handle))" by (auto intro: user_reach.step)
  moreover have "user_step ?V ([rc_user True], [], rc_world (Some sample_handle))
      ([rc_user True][0 := rc_user False] @ [rc_user True], [], rc_world (Some sample_handle))"
    by (rule user_step.moved) (simp_all add: huser_move_def rc_user_def)
  ultimately show ?thesis by (auto intro: user_reach.step)
qed

text \<open>The other one, which is empty, is then assigned to it.\<close>

lemma rc_lost:
  "user_reach (tcp_vtable sample_sys) ([rc_user False, rc_user False], [rc_user True], rc_world (Some sample_handle))"
proof -
  have "user_step (tcp_vtable sample_sys) ([rc_user False, rc_user True], [], rc_world (Some sample_handle))
      ([rc_user False, rc_user True][1 := rc_user False, 0 := rc_user False], [] @ [[rc_user False, rc_user True] ! 1],
        rc_world (Some sample_handle))"
    by (rule user_step.assigned) (simp_all add: huser_move_assign_def rc_user_def)
  from user_reach.step [OF rc_reach this] show ?thesis by simp
qed

text \<open>C13: Whatever a process does with its user handles of transport handles (construct, move, assign, send, probe,
  receive, sendrecv, set the name, yield, close, destroy) and whatever the transport closes on its own, over any
  transport that leaves the objects alone: the counter of every object is the number of user handles that refer
  to it and of those that referred to it when a move assignment overwrote them; none of both refers to a deleted
  object, so that what an assignment has overwritten is never freed; and an object that is closed in both
  directions and not yet deleted still has one.\<close>

theorem user_handles_counted:
  assumes "transport V" and "user_reach V (us, ls, w)"
  shows "(\<forall>i < length us. \<forall>h. realHandle (us ! i) = Some h \<longrightarrow> heap w h \<noteq> None)
    \<and> (\<forall>i < length ls. \<forall>h. realHandle (ls ! i) = Some h \<longrightarrow> heap w h \<noteq> None)
    \<and> (\<forall>h ob. heap w h = Some ob \<longrightarrow>
         counter ob = int (refs us h + refs ls h) \<and> (isClosed ob \<longrightarrow> 0 < refs us h + refs ls h))"
proof -
  from transport.reach_counted [OF assms] have c: "counted (us @ ls) w" .
  have held: "heap w h \<noteq> None" if "i < length (us @ ls)" "realHandle ((us @ ls) ! i) = Some h" for i h
    using counted_held [OF c that] by auto
  have "heap w h \<noteq> None" if "i < length us" "realHandle (us ! i) = Some h" for i h
    using held [of i h] that by (simp add: nth_append)
  moreover have "heap w h \<noteq> None" if "i < length ls" "realHandle (ls ! i) = Some h" for i h
    using held [of "length us + i" h] that by (simp add: nth_append)
  ultimately show ?thesis using counted_Some [OF c] by simp
qed

text \<open>No user handle refers to the object any more, and it is still there.\<close>

theorem user_handles_counted_witness:
  "heap (rc_world (Some sample_handle)) 8 = Some sample_handle \<and> refs [rc_user False, rc_user False] 8 = 0
   \<and> counter sample_handle = int (refs [rc_user False, rc_user False] 8 + refs [rc_user True] 8)"
proof -
  note all = user_handles_counted [OF tcp.transport_axioms rc_lost]
  have "heap (rc_world (Some sample_handle)) 8 = Some sample_handle" by (simp add: rc_world_def)
  moreover have "refs [rc_user False, rc_user False] 8 = 0" by (simp add: refs_def rc_user_def)
  ultimately show ?thesis using conjunct2 [OF conjunct2 [OF all]] by blast
qed

text \<open>C14: No call on a user handle of a transport handle touches a deleted object: over any transport that does not
  do so on its own, in every state that a process reaches by making, moving, assigning, using and destroying such
  user handles, \<open>send\<close>, \<open>probe\<close>, \<open>receive\<close>, \<open>sendrecv\<close>, \<open>setName\<close>, \<open>getName\<close>, \<open>yield\<close>, \<open>close\<close> and the
  destructor of each of them never end in a use after free. User handles of teams are not covered.\<close>

theorem held_handle_safe:
  assumes "sparing V" and "user_reach V (us, ls, w)" and "i < length us"
  shows "huser_send (handle_comm V) (us ! i) bs w \<noteq> Fault Use_after_free
    \<and> huser_probe (handle_comm V) (us ! i) sz b w \<noteq> Fault Use_after_free
    \<and> huser_receive (handle_comm V) (us ! i) sz w \<noteq> Fault Use_after_free
    \<and> huser_sendrecv (handle_comm V) (us ! i) bs rb sz w \<noteq> Fault Use_after_free
    \<and> huser_setName (us ! i) name w \<noteq> Fault Use_after_free \<and> huser_getName (us ! i) w \<noteq> Fault Use_after_free
    \<and> huser_yield (handle_comm V) (us ! i) w \<noteq> Fault Use_after_free
    \<and> huser_close (handle_comm V) (us ! i) w \<noteq> Fault Use_after_free
    \<and> huser_destroy (handle_comm V) (us ! i) w \<noteq> Fault Use_after_free"
  by (rule sparing.reach_spares [OF assms])

theorem held_handle_safe_witness:
  "huser_send sample_comm (rc_user True) [1] (rc_world (Some sample_handle)) \<noteq> Fault Use_after_free
   \<and> huser_close sample_comm (rc_user True) (rc_world (Some sample_handle)) \<noteq> Fault Use_after_free"
proof -
  have "1 < length [rc_user False, rc_user True]" by simp
  from held_handle_safe [OF tcp_spares.sparing_axioms rc_reach this] show ?thesis by simp
qed

end
