(* ===== verification/Collectives.thy ===== *)
theory Collectives
  imports HandleUser
begin

text \<open>
  \<open>include/collectives/collectiveImpl.hpp\<close>: the collective operations on top of the point-to-point
  handles of the participants, for the transports without a collective library of their own.
  \<^item> \<open>coll\<close> has one constructor per subclass of \<open>CollectiveImpl\<close>, with its members: the
    participants, whether this process is the root, and \<open>probed_idx\<close>, \<open>current\<close> or \<open>rank\<close>. The
    member \<open>uniqtag\<close> is not used by these classes.
  \<^item> The participants are not referenced by a \<open>HandleUser\<close>, so closing one in both directions
    deletes it; the pointers the classes keep to it dangle from then on.
  \<^item> A blocking \<open>probe\<close> of a fan-in polls the participants in turn until one has a message; it takes
    a bound on the number of polls.
\<close>

datatype coll =
    BroadcastGeneric "hid list" bool
  | FanInGeneric "hid list" bool int
  | FanOutGeneric "hid list" bool nat
  | GatherGeneric "hid list" bool int

fun participants :: "coll \<Rightarrow> hid list" where
  "participants (BroadcastGeneric ps root) = ps"
| "participants (FanInGeneric ps root pidx) = ps"
| "participants (FanOutGeneric ps root cur) = ps"
| "participants (GatherGeneric ps root rank) = ps"

text \<open>\<open>v.at(i)\<close>.\<close>

definition vec_at :: "'a list \<Rightarrow> nat \<Rightarrow> 'a out" where
  "vec_at xs i = (if i < length xs then Ret (xs ! i) else Fault Out_of_range)"

section \<open>CollectiveImpl\<close>

definition probeHandle ::
  "('n, 'x) world_scheme vtable \<Rightarrow> hid \<Rightarrow> u64 \<Rightarrow> bool \<Rightarrow> ('n, 'x) world_scheme
     \<Rightarrow> (int \<times> u64 \<times> ('n, 'x) world_scheme) out" where
  "probeHandle V h sz blocking w =
     bnd (obj h w) (\<lambda>ob.
     if fst (probed ob)
     then Ret (if snd (probed ob) \<noteq> 0 then sizeof_size_t else 0, snd (probed ob), w)
     else if closed_rd ob then Ret (0, sz, w)
     else bnd (vt_probe V h blocking sz w) (\<lambda>(r, sz, w).
       if r \<le> 0 then
         (if r = 0 then bnd (handle_close V h True True w) (\<lambda>w. Ret (0, sz, w))
          else if r = -1 \<and> errno w = ECONNRESET then
            bnd (handle_close V h True True w) (\<lambda>w. Ret (0, sz, w))
          else if r = -1 \<and> errno w = EWOULDBLOCK then Ret (-1, sz, set_errno EWOULDBLOCK w)
          else Ret (r, sz, w))
       else
         bnd (upd_obj h (\<lambda>ob. ob\<lparr>probed := (True, sz)\<rparr>) w) (\<lambda>w.
         if sz = 0 then bnd (handle_close V h False True w) (\<lambda>w. Ret (0, sz, w))
         else Ret (r, sz, w))))"

definition receiveFromHandle ::
  "('n, 'x) world_scheme vtable \<Rightarrow> hid \<Rightarrow> u64 \<Rightarrow> ('n, 'x) world_scheme
     \<Rightarrow> (int \<times> byte list \<times> ('n, 'x) world_scheme) out" where
  "receiveFromHandle V h size1 w =
     bnd (obj h w) (\<lambda>ob.
     bnd (if \<not> fst (probed ob)
          then bnd (probeHandle V h 0 True w) (\<lambda>(r, _, w). Ret (if r \<le> 0 then Some r else None, w))
          else if closed_rd ob then Ret (Some 0, w) else Ret (None, w)) (\<lambda>(early, w).
     case early of
       Some r \<Rightarrow> Ret (r, [], w)
     | None \<Rightarrow>
         bnd (obj h w) (\<lambda>ob.
         let sz = snd (probed ob)
         in if sz > size1 then Ret (-1, [], set_errno ENOMEM w)
            else bnd (upd_obj h (\<lambda>ob. ob\<lparr>probed := (False, 0)\<rparr>) w) (\<lambda>w.
                 vt_receive V h (min sz size1) w))))"

fun coll_peek ::
  "('n, 'x) world_scheme vtable \<Rightarrow> hid list \<Rightarrow> ('n, 'x) world_scheme
     \<Rightarrow> (bool \<times> ('n, 'x) world_scheme) out" where
  "coll_peek V [] w = Ret (False, w)"
| "coll_peek V (h # hs) w =
     bnd (vt_peek V h w) (\<lambda>(b, w). if b then Ret (True, w) else coll_peek V hs w)"

text \<open>The loops \<open>for(auto& h : participants)\<close> that send, and that close the writing side. The sending
  loop stops at the first negative result.\<close>

fun send_all ::
  "('n, 'x) world_scheme vtable \<Rightarrow> hid list \<Rightarrow> byte list \<Rightarrow> ('n, 'x) world_scheme
     \<Rightarrow> (int option \<times> ('n, 'x) world_scheme) out" where
  "send_all V [] bs w = Ret (None, w)"
| "send_all V (h # hs) bs w =
     bnd (vt_send V h bs w) (\<lambda>(r, w). if r < 0 then Ret (Some r, w) else send_all V hs bs w)"

definition close_wr_all ::
  "('n, 'x) world_scheme vtable \<Rightarrow> hid list \<Rightarrow> ('n, 'x) world_scheme \<Rightarrow> ('n, 'x) world_scheme out" where
  "close_wr_all V hs w = each_handle (\<lambda>h. handle_close V h True False) hs w"

section \<open>BroadcastGeneric\<close>

definition broadcast_send ::
  "('n, 'x) world_scheme vtable \<Rightarrow> hid list \<Rightarrow> byte list \<Rightarrow> ('n, 'x) world_scheme
     \<Rightarrow> (int \<times> ('n, 'x) world_scheme) out" where
  "broadcast_send V ps bs w =
     bnd (send_all V ps bs w) (\<lambda>(e, w).
     case e of Some _ \<Rightarrow> Ret (-1, set_errno ECONNRESET w)
     | None \<Rightarrow> Ret (ssize_of (of_nat (length bs)), w))"

definition broadcast_receive ::
  "('n, 'x) world_scheme vtable \<Rightarrow> hid list \<Rightarrow> u64 \<Rightarrow> ('n, 'x) world_scheme
     \<Rightarrow> (int \<times> byte list \<times> ('n, 'x) world_scheme) out" where
  "broadcast_receive V ps size1 w =
     bnd (vec_at ps 0) (\<lambda>h.
     bnd (receiveFromHandle V h size1 w) (\<lambda>(res, bs, w).
     if res = 0 then bnd (handle_close V h True False w) (\<lambda>w. Ret (res, bs, w))
     else Ret (res, bs, w)))"

section \<open>FanInGeneric\<close>

text \<open>The \<open>while\<close> loop of \<open>probe\<close>: \<open>i\<close> is the iterator, \<open>pidx\<close> is \<open>probed_idx\<close>.\<close>

primrec fanin_loop ::
  "nat \<Rightarrow> ('n, 'x) world_scheme vtable \<Rightarrow> bool \<Rightarrow> hid list \<Rightarrow> nat \<Rightarrow> int \<Rightarrow> u64 \<Rightarrow> ('n, 'x) world_scheme
     \<Rightarrow> (int \<times> u64 \<times> hid list \<times> int \<times> ('n, 'x) world_scheme) out" where
  "fanin_loop 0 V blocking ps i pidx sz w = Fault No_return"
| "fanin_loop (Suc c) V blocking ps i pidx sz w =
     (if ps = [] then Ret (-1, sz, ps, pidx, w)
      else bnd (vec_at ps i) (\<lambda>h.
      bnd (vt_probe V h False sz w) (\<lambda>(res, sz, w).
      if 0 < res \<and> sz = 0 then
        let ps = take i ps @ drop (Suc i) ps
        in bnd (handle_close V h True True w) (\<lambda>w.
           if i = length ps then
             (if blocking then fanin_loop c V blocking ps 0 pidx sz w
              else Ret (-1, sz, ps, pidx, w))
           else if Suc i = length ps then
             (if blocking then fanin_loop c V blocking ps 0 pidx sz w
              else Ret (-1, sz, ps, pidx, w))
           else fanin_loop c V blocking ps (Suc i) pidx sz w)
      else if 0 < res then
        bnd (upd_obj h (\<lambda>ob. ob\<lparr>probed := (True, sz)\<rparr>) w) (\<lambda>w. Ret (res, sz, ps, int i, w))
      else if res \<noteq> -1 then Ret (res, sz, ps, pidx, w)
      else if Suc i = length ps then
        (if blocking then fanin_loop c V blocking ps 0 pidx sz w
         else Ret (res, sz, ps, pidx, w))
      else fanin_loop c V blocking ps (Suc i) pidx sz w)))"

text \<open>The result: the return value, the size, and the members \<open>participants\<close> and \<open>probed_idx\<close>.\<close>

definition fanin_probe ::
  "nat \<Rightarrow> ('n, 'x) world_scheme vtable \<Rightarrow> hid list \<Rightarrow> int \<Rightarrow> u64 \<Rightarrow> bool \<Rightarrow> ('n, 'x) world_scheme
     \<Rightarrow> (int \<times> u64 \<times> hid list \<times> int \<times> ('n, 'x) world_scheme) out" where
  "fanin_probe c V ps pidx sz blocking w =
     bnd (fanin_loop c V blocking ps 0 pidx sz w) (\<lambda>(res, sz, ps, pidx, w).
     if ps = [] then Ret (sizeof_size_t, 0, ps, pidx, w) else Ret (res, sz, ps, pidx, w))"

definition fanin_send ::
  "('n, 'x) world_scheme vtable \<Rightarrow> hid list \<Rightarrow> byte list \<Rightarrow> ('n, 'x) world_scheme
     \<Rightarrow> (int \<times> ('n, 'x) world_scheme) out" where
  "fanin_send V ps bs w =
     bnd (send_all V ps bs w) (\<lambda>(e, w).
     case e of Some r \<Rightarrow> Ret (r, w) | None \<Rightarrow> Ret (ssize_of (of_nat (length bs)), w))"

text \<open>\<open>participants.at(probed_idx)\<close>: a negative index is out of range.\<close>

definition fanin_receive ::
  "('n, 'x) world_scheme vtable \<Rightarrow> hid list \<Rightarrow> int \<Rightarrow> u64 \<Rightarrow> ('n, 'x) world_scheme
     \<Rightarrow> (int \<times> byte list \<times> int \<times> ('n, 'x) world_scheme) out" where
  "fanin_receive V ps pidx size1 w =
     bnd (if pidx < 0 then Fault Out_of_range else vec_at ps (nat pidx)) (\<lambda>h.
     bnd (vt_receive V h size1 w) (\<lambda>(r, bs, w).
     if r \<le> 0 then Ret (-1, bs, pidx, w)
     else bnd (upd_obj h (\<lambda>ob. ob\<lparr>probed := (False, 0)\<rparr>) w) (\<lambda>w. Ret (r, bs, -1, w))))"

section \<open>FanOutGeneric\<close>

definition fanout_probe ::
  "('n, 'x) world_scheme vtable \<Rightarrow> hid list \<Rightarrow> u64 \<Rightarrow> bool \<Rightarrow> ('n, 'x) world_scheme
     \<Rightarrow> (int \<times> u64 \<times> hid list \<times> ('n, 'x) world_scheme) out" where
  "fanout_probe V ps sz blocking w =
     (if ps = [] then Ret (-1, sz, ps, set_errno ECONNRESET w)
      else bnd (vec_at ps 0) (\<lambda>h.
      bnd (vt_probe V h blocking sz w) (\<lambda>(res, sz, w).
      bnd (if 0 < res \<and> sz = 0
           then bnd (handle_close V h True True w) (\<lambda>w. Ret (butlast ps, w))
           else Ret (ps, w)) (\<lambda>(ps, w).
      bnd (if 0 < res then upd_obj h (\<lambda>ob. ob\<lparr>probed := (True, sz)\<rparr>) w else Ret w) (\<lambda>w.
      Ret (res, sz, ps, w))))))"

text \<open>The result of \<open>h->send\<close> goes through an \<open>int\<close>; the last component is the new \<open>current\<close>.\<close>

definition fanout_send ::
  "('n, 'x) world_scheme vtable \<Rightarrow> hid list \<Rightarrow> nat \<Rightarrow> byte list \<Rightarrow> ('n, 'x) world_scheme
     \<Rightarrow> (int \<times> nat \<times> ('n, 'x) world_scheme) out" where
  "fanout_send V ps current bs w =
     bnd (vec_at ps current) (\<lambda>h.
     bnd (vt_send V h bs w) (\<lambda>(r, w).
     Ret (signed_take_bit 31 r, (current + 1) mod length ps, w)))"

definition fanout_receive ::
  "('n, 'x) world_scheme vtable \<Rightarrow> hid list \<Rightarrow> u64 \<Rightarrow> ('n, 'x) world_scheme
     \<Rightarrow> (int \<times> byte list \<times> ('n, 'x) world_scheme) out" where
  "fanout_receive V ps size1 w =
     bnd (vec_at ps 0) (\<lambda>h.
     bnd (vt_receive V h size1 w) (\<lambda>(res, bs, w).
     bnd (upd_obj h (\<lambda>ob. ob\<lparr>probed := (False, 0)\<rparr>) w) (\<lambda>w. Ret (res, bs, w))))"

section \<open>GatherGeneric\<close>

text \<open>Bytes written at offset \<open>p\<close> of a buffer; the four bytes of an \<open>int\<close> and back. A short message
  leaves the other bytes of the local \<open>remote_rank\<close> indeterminate: \<open>junk4\<close>.\<close>

definition write_at :: "nat \<Rightarrow> byte list \<Rightarrow> byte list \<Rightarrow> byte list out" where
  "write_at p bs buf =
     (if bs = [] then Ret buf
      else if length buf < p + length bs then Fault Out_of_bounds
      else Ret (take p buf @ bs @ drop (p + length bs) buf))"

definition int_bytes :: "int \<Rightarrow> byte list" where
  "int_bytes i = map (\<lambda>k. word_of_int (i div 256 ^ k)) [0..<4]"

definition bytes_int :: "byte list \<Rightarrow> int" where
  "bytes_int bs = signed_take_bit 31 (\<Sum>k<4. uint (bs ! k) * 256 ^ k)"

fun gather_receive ::
  "byte list \<Rightarrow> ('n, 'x) world_scheme vtable \<Rightarrow> hid list \<Rightarrow> byte list \<Rightarrow> u64 \<Rightarrow> ('n, 'x) world_scheme
     \<Rightarrow> (int \<times> byte list \<times> ('n, 'x) world_scheme) out" where
  "gather_receive junk4 V [] buf size1 w = Ret (sizeof_size_t, buf, w)"
| "gather_receive junk4 V (h # hs) buf size1 w =
     bnd (receiveFromHandle V h sizeof_int w) (\<lambda>(res, bs, w).
     if res \<le> 0 then Ret (res, buf, w)
     else
       let remote_rank = bytes_int (bs @ drop (length bs) junk4);
           offset = unat (word_of_int remote_rank * size1)
       in bnd (receiveFromHandle V h size1 w) (\<lambda>(res, bs, w).
          bnd (write_at offset bs buf) (\<lambda>buf.
          if res \<le> 0 then Ret (res, buf, w) else gather_receive junk4 V hs buf size1 w)))"

fun gather_send ::
  "('n, 'x) world_scheme vtable \<Rightarrow> int \<Rightarrow> hid list \<Rightarrow> byte list \<Rightarrow> ('n, 'x) world_scheme
     \<Rightarrow> (int \<times> ('n, 'x) world_scheme) out" where
  "gather_send V rank [] bs w = Ret (sizeof_size_t, w)"
| "gather_send V rank (h # hs) bs w =
     bnd (vt_send V h (int_bytes rank) w) (\<lambda>(_, w).
     bnd (vt_send V h bs w) (\<lambda>(_, w). gather_send V rank hs bs w))"

definition gather_sendrecv ::
  "byte list \<Rightarrow> ('n, 'x) world_scheme vtable \<Rightarrow> hid list \<Rightarrow> bool \<Rightarrow> int \<Rightarrow> byte list \<Rightarrow> byte list \<Rightarrow> u64
     \<Rightarrow> ('n, 'x) world_scheme \<Rightarrow> (int \<times> byte list \<times> ('n, 'x) world_scheme) out" where
  "gather_sendrecv junk4 V ps root rank sendbuff recvbuff recvsize w =
     (if root then
        bnd (write_at (unat (word_of_int rank * of_nat (length sendbuff) :: u64)) sendbuff recvbuff) (\<lambda>buf.
        gather_receive junk4 V ps buf recvsize w)
      else bnd (gather_send V rank ps sendbuff w) (\<lambda>(r, w). Ret (r, recvbuff, w)))"

section \<open>Dispatch\<close>

definition coll_probe ::
  "nat \<Rightarrow> ('n, 'x) world_scheme vtable \<Rightarrow> coll \<Rightarrow> u64 \<Rightarrow> bool \<Rightarrow> ('n, 'x) world_scheme
     \<Rightarrow> (int \<times> u64 \<times> coll \<times> ('n, 'x) world_scheme) out" where
  "coll_probe c V cl sz blocking w =
     (case cl of
        BroadcastGeneric ps root \<Rightarrow> Ret (-1, sz, cl, set_errno EINVAL w)
      | FanInGeneric ps root pidx \<Rightarrow>
          bnd (fanin_probe c V ps pidx sz blocking w) (\<lambda>(r, sz, ps, pidx, w).
          Ret (r, sz, FanInGeneric ps root pidx, w))
      | FanOutGeneric ps root cur \<Rightarrow>
          bnd (fanout_probe V ps sz blocking w) (\<lambda>(r, sz, ps, w).
          Ret (r, sz, FanOutGeneric ps root cur, w))
      | GatherGeneric ps root rank \<Rightarrow> Ret (-1, sz, cl, set_errno EINVAL w))"

definition coll_send ::
  "('n, 'x) world_scheme vtable \<Rightarrow> coll \<Rightarrow> byte list \<Rightarrow> ('n, 'x) world_scheme
     \<Rightarrow> (int \<times> coll \<times> ('n, 'x) world_scheme) out" where
  "coll_send V cl bs w =
     (case cl of
        BroadcastGeneric ps root \<Rightarrow> bnd (broadcast_send V ps bs w) (\<lambda>(r, w). Ret (r, cl, w))
      | FanInGeneric ps root pidx \<Rightarrow> bnd (fanin_send V ps bs w) (\<lambda>(r, w). Ret (r, cl, w))
      | FanOutGeneric ps root cur \<Rightarrow>
          bnd (fanout_send V ps cur bs w) (\<lambda>(r, cur, w). Ret (r, FanOutGeneric ps root cur, w))
      | GatherGeneric ps root rank \<Rightarrow> bnd (gather_send V rank ps bs w) (\<lambda>(r, w). Ret (r, cl, w)))"

text \<open>
  \<open>receive(buff, size)\<close> writes to the start of the buffer but for the gather, which no user reaches
  by \<open>receive\<close> (a gather context cannot receive); there the buffer is taken to have \<open>size\<close> bytes.
\<close>

definition coll_receive ::
  "byte list \<Rightarrow> ('n, 'x) world_scheme vtable \<Rightarrow> coll \<Rightarrow> u64 \<Rightarrow> ('n, 'x) world_scheme
     \<Rightarrow> (int \<times> byte list \<times> coll \<times> ('n, 'x) world_scheme) out" where
  "coll_receive junk4 V cl size1 w =
     (case cl of
        BroadcastGeneric ps root \<Rightarrow>
          bnd (broadcast_receive V ps size1 w) (\<lambda>(r, bs, w). Ret (r, bs, cl, w))
      | FanInGeneric ps root pidx \<Rightarrow>
          bnd (fanin_receive V ps pidx size1 w) (\<lambda>(r, bs, pidx, w). Ret (r, bs, FanInGeneric ps root pidx, w))
      | FanOutGeneric ps root cur \<Rightarrow>
          bnd (fanout_receive V ps size1 w) (\<lambda>(r, bs, w). Ret (r, bs, cl, w))
      | GatherGeneric ps root rank \<Rightarrow>
          bnd (gather_receive junk4 V ps (replicate (unat size1) 0) size1 w) (\<lambda>(r, bs, w). Ret (r, bs, cl, w)))"

text \<open>The bytes of a \<open>sendrecv\<close>: the contents of \<open>recvbuff\<close> afterwards.\<close>

definition coll_sendrecv ::
  "byte list \<Rightarrow> ('n, 'x) world_scheme vtable \<Rightarrow> coll \<Rightarrow> byte list \<Rightarrow> byte list \<Rightarrow> u64 \<Rightarrow> ('n, 'x) world_scheme
     \<Rightarrow> (int \<times> byte list \<times> coll \<times> ('n, 'x) world_scheme) out" where
  "coll_sendrecv junk4 V cl sendbuff recvbuff recvsize w =
     (case cl of
        BroadcastGeneric ps root \<Rightarrow>
          if root then bnd (broadcast_send V ps sendbuff w) (\<lambda>(r, w). Ret (r, recvbuff, cl, w))
          else bnd (broadcast_receive V ps recvsize w) (\<lambda>(r, bs, w).
               bnd (write_at 0 bs recvbuff) (\<lambda>buf. Ret (r, buf, cl, w)))
      | GatherGeneric ps root rank \<Rightarrow>
          bnd (gather_sendrecv junk4 V ps root rank sendbuff recvbuff recvsize w) (\<lambda>(r, buf, w).
          Ret (r, buf, cl, w))
      | _ \<Rightarrow> Ret (-1, recvbuff, cl, set_errno EINVAL w))"

definition coll_close ::
  "('n, 'x) world_scheme vtable \<Rightarrow> coll \<Rightarrow> ('n, 'x) world_scheme \<Rightarrow> ('n, 'x) world_scheme out" where
  "coll_close V cl w =
     (case cl of
        BroadcastGeneric ps root \<Rightarrow> if root then close_wr_all V ps w else Ret w
      | FanInGeneric ps root pidx \<Rightarrow>
          if \<not> root then bnd (vec_at ps 0) (\<lambda>h. handle_close V h True False w) else Ret w
      | FanOutGeneric ps root cur \<Rightarrow> if root then close_wr_all V ps w else Ret w
      | GatherGeneric ps root rank \<Rightarrow> close_wr_all V ps w)"

end
