(* ===== verification/CollectiveContext.thy ===== *)
theory CollectiveContext
  imports Collectives
begin

text \<open>
  \<open>include/collectives/collectiveContext.hpp\<close>: the object behind a \<open>HandleUser\<close> of a team. A context
  is a \<open>CommunicationHandle\<close>: the members of that class are the \<open>hobj\<close> of its id, its own ones
  are the \<open>ctx\<close> that \<open>ctxs\<close> gives for the id.
  \<^item> The build has neither \<open>ENABLE_MPI\<close> nor \<open>ENABLE_UCX\<close>: the implementations of the MPI and UCC
    libraries are not available and \<open>setImplementation\<close> leaves the null pointer for them.
  \<^item> \<open>context_comm\<close> are the virtual members; \<open>mtcl_comm\<close> dispatches between handles and contexts.
\<close>

datatype ImplementationType = GENERIC | MPI_lib | UCC_lib

record ctx =
  ctx_size :: int
  ctx_root :: bool
  ctx_rank :: int
  canSend :: bool
  canReceive :: bool
  completed :: bool
  ctx_coll :: "coll option"

record 'n cworld = "'n world" +
  ctxs :: "hid \<Rightarrow> ctx option"

definition get_ctx :: "hid \<Rightarrow> ('n, 'x) cworld_scheme \<Rightarrow> ctx out" where
  "get_ctx h w = bnd (obj h w) (\<lambda>_. deref (ctxs w h) Ret)"

definition put_ctx :: "hid \<Rightarrow> ctx \<Rightarrow> ('n, 'x) cworld_scheme \<Rightarrow> ('n, 'x) cworld_scheme" where
  "put_ctx h cx w = w\<lparr>ctxs := (ctxs w)(h \<mapsto> cx)\<rparr>"

section \<open>Creation\<close>

text \<open>\<open>new CollectiveContext(size, root, rank, type, canSend, canReceive)\<close>; \<open>coll\<close> is not set.\<close>

definition new_CollectiveContext ::
  "int \<Rightarrow> bool \<Rightarrow> int \<Rightarrow> handle_type \<Rightarrow> bool \<Rightarrow> bool \<Rightarrow> ('n, 'x) cworld_scheme
     \<Rightarrow> hid \<times> ('n, 'x) cworld_scheme" where
  "new_CollectiveContext sz root rank type cs cr w =
     (let (h, w) = alloc_handle [] w;
          w = put_obj h ((new_handle [])\<lparr>htype := type, closed_rd := \<not> cr, closed_wr := \<not> cs,
                counter := 1\<rparr>) w
      in (h, put_ctx h \<lparr>ctx_size = sz, ctx_root = root, ctx_rank = rank, canSend = cs,
                canReceive = cr, completed = False, ctx_coll = None\<rparr> w))"

definition createContext ::
  "handle_type \<Rightarrow> int \<Rightarrow> bool \<Rightarrow> int \<Rightarrow> ('n, 'x) cworld_scheme
     \<Rightarrow> hid option \<times> ('n, 'x) cworld_scheme" where
  "createContext type sz root rank w =
     (let make = (\<lambda>cs cr. let (h, w) = new_CollectiveContext sz root rank type cs cr w in (Some h, w))
      in case type of
           BROADCAST \<Rightarrow> make False False
         | FANIN \<Rightarrow> make (\<not> root) root
         | FANOUT \<Rightarrow> make root (\<not> root)
         | GATHER \<Rightarrow> make False False
         | _ \<Rightarrow> (None, w))"

definition make_coll :: "handle_type \<Rightarrow> ImplementationType \<Rightarrow> ctx \<Rightarrow> hid list \<Rightarrow> coll option" where
  "make_coll type im cx ps =
     (case type of
        BROADCAST \<Rightarrow> (case im of GENERIC \<Rightarrow> Some (BroadcastGeneric ps (ctx_root cx)) | _ \<Rightarrow> None)
      | FANIN \<Rightarrow> Some (FanInGeneric ps (ctx_root cx) (-1))
      | FANOUT \<Rightarrow> Some (FanOutGeneric ps (ctx_root cx) 0)
      | GATHER \<Rightarrow> (case im of GENERIC \<Rightarrow> Some (GatherGeneric ps (ctx_root cx) (ctx_rank cx)) | _ \<Rightarrow> None)
      | _ \<Rightarrow> None)"

definition setImplementation ::
  "hid \<Rightarrow> ImplementationType \<Rightarrow> hid list \<Rightarrow> ('n, 'x) cworld_scheme
     \<Rightarrow> (bool \<times> ('n, 'x) cworld_scheme) out" where
  "setImplementation h im ps w =
     bnd (get_ctx h w) (\<lambda>cx. bnd (obj h w) (\<lambda>ob.
     let cl = make_coll (htype ob) im cx ps
     in Ret (cl \<noteq> None, put_ctx h (cx\<lparr>ctx_coll := cl\<rparr>) w)))"

definition ctx_update ::
  "hid \<Rightarrow> int \<Rightarrow> ('n, 'x) cworld_scheme \<Rightarrow> (bool \<times> ('n, 'x) cworld_scheme) out" where
  "ctx_update h count w =
     bnd (get_ctx h w) (\<lambda>cx.
     let done1 = (count = ctx_size cx - 1) in Ret (done1, put_ctx h (cx\<lparr>completed := done1\<rparr>) w))"

section \<open>Operations\<close>

text \<open>A call of a member of \<open>coll\<close>: the object is read, and stored as the call has left it.\<close>

definition on_coll ::
  "hid \<Rightarrow> (coll \<Rightarrow> ('n, 'x) cworld_scheme \<Rightarrow> ('r \<times> coll \<times> ('n, 'x) cworld_scheme) out)
     \<Rightarrow> ('n, 'x) cworld_scheme \<Rightarrow> ('r \<times> ('n, 'x) cworld_scheme) out" where
  "on_coll h f w =
     bnd (get_ctx h w) (\<lambda>cx.
     deref (ctx_coll cx) (\<lambda>cl.
     bnd (f cl w) (\<lambda>(r, cl, w). Ret (r, put_ctx h (cx\<lparr>ctx_coll := Some cl\<rparr>) w))))"

definition ctx_receive ::
  "byte list \<Rightarrow> ('n, 'x) cworld_scheme vtable \<Rightarrow> hid \<Rightarrow> u64
     \<Rightarrow> ('n, 'x) cworld_scheme \<Rightarrow> (int \<times> byte list \<times> ('n, 'x) cworld_scheme) out"
  where
  "ctx_receive junk4 V h size1 w =
     bnd (get_ctx h w) (\<lambda>cx.
     if \<not> canReceive cx then Ret (-1, [], set_errno EINVAL w)
     else bnd (on_coll h (\<lambda>cl w. bnd (coll_receive junk4 V cl size1 w) (\<lambda>(r, bs, cl, w).
            Ret ((r, bs), cl, w))) w) (\<lambda>((r, bs), w). Ret (r, bs, w)))"

definition ctx_send ::
  "('n, 'x) cworld_scheme vtable \<Rightarrow> hid \<Rightarrow> byte list \<Rightarrow> ('n, 'x) cworld_scheme
     \<Rightarrow> (int \<times> ('n, 'x) cworld_scheme) out" where
  "ctx_send V h bs w =
     bnd (get_ctx h w) (\<lambda>cx.
     if \<not> canSend cx then Ret (-1, set_errno EINVAL w)
     else on_coll h (\<lambda>cl w. coll_send V cl bs w) w)"

definition ctx_probe ::
  "nat \<Rightarrow> ('n, 'x) cworld_scheme vtable \<Rightarrow> hid \<Rightarrow> bool \<Rightarrow> u64 \<Rightarrow> ('n, 'x) cworld_scheme
     \<Rightarrow> (int \<times> u64 \<times> ('n, 'x) cworld_scheme) out" where
  "ctx_probe c V h blocking sz w =
     bnd (get_ctx h w) (\<lambda>cx.
     if \<not> canReceive cx then Ret (-1, sz, set_errno EINVAL w)
     else bnd (on_coll h (\<lambda>cl w. bnd (coll_probe c V cl sz blocking w) (\<lambda>(r, sz, cl, w).
            Ret ((r, sz), cl, w))) w) (\<lambda>((r, sz), w). Ret (r, sz, w)))"

definition ctx_peek ::
  "('n, 'x) cworld_scheme vtable \<Rightarrow> hid \<Rightarrow> ('n, 'x) cworld_scheme
     \<Rightarrow> (bool \<times> ('n, 'x) cworld_scheme) out" where
  "ctx_peek V h w =
     bnd (get_ctx h w) (\<lambda>cx. deref (ctx_coll cx) (\<lambda>cl. coll_peek V (participants cl) w))"

definition ctx_sendrecv ::
  "byte list \<Rightarrow> ('n, 'x) cworld_scheme vtable \<Rightarrow> hid \<Rightarrow> byte list \<Rightarrow> byte list \<Rightarrow> u64
     \<Rightarrow> ('n, 'x) cworld_scheme \<Rightarrow> (int \<times> byte list \<times> ('n, 'x) cworld_scheme) out" where
  "ctx_sendrecv junk4 V h sendbuff recvbuff recvsize w =
     bnd (on_coll h (\<lambda>cl w. bnd (coll_sendrecv junk4 V cl sendbuff recvbuff recvsize w)
       (\<lambda>(r, bs, cl, w). Ret ((r, bs), cl, w))) w) (\<lambda>((r, bs), w). Ret (r, bs, w))"

definition ctx_close ::
  "('n, 'x) cworld_scheme vtable \<Rightarrow> hid \<Rightarrow> bool \<Rightarrow> bool \<Rightarrow> ('n, 'x) cworld_scheme
     \<Rightarrow> ('n, 'x) cworld_scheme out" where
  "ctx_close V h close_wr close_rd w =
     bnd (upd_obj h (\<lambda>ob. ob\<lparr>closed_rd := closed_rd ob \<or> close_rd\<rparr>) w) (\<lambda>w.
     bnd (get_ctx h w) (\<lambda>cx.
     bnd (deref (ctx_coll cx) (\<lambda>cl. coll_close V cl w)) (\<lambda>w.
     upd_obj h (\<lambda>ob. ob\<lparr>closed_wr := closed_wr ob \<or> close_wr\<rparr>) w)))"

definition ctx_getSize :: "hid \<Rightarrow> ('n, 'x) cworld_scheme \<Rightarrow> int out" where
  "ctx_getSize h w = bnd (get_ctx h w) (\<lambda>cx. Ret (ctx_size cx))"

text \<open>\<open>coll->finalize\<close> does nothing in the generic classes.\<close>

definition ctx_finalize :: "hid \<Rightarrow> ('n, 'x) cworld_scheme \<Rightarrow> ('n, 'x) cworld_scheme out" where
  "ctx_finalize h w = bnd (get_ctx h w) (\<lambda>cx. deref (ctx_coll cx) (\<lambda>cl. Ret w))"

text \<open>The virtual members; \<open>yield\<close> is defined with the manager and an argument here.\<close>

definition context_comm ::
  "nat \<Rightarrow> byte list \<Rightarrow> ('n, 'x) cworld_scheme vtable
     \<Rightarrow> (hid \<Rightarrow> ('n, 'x) cworld_scheme \<Rightarrow> ('n, 'x) cworld_scheme out)
     \<Rightarrow> ('n, 'x) cworld_scheme comm" where
  "context_comm c junk4 V yield = \<lparr>c_send = ctx_send V, c_probe = ctx_probe c V,
     c_receive = ctx_receive junk4 V, c_sendrecv = ctx_sendrecv junk4 V, c_yield = yield,
     c_close = ctx_close V, c_getSize = ctx_getSize\<rparr>"

text \<open>The dynamic type of an object: a context has a \<open>ctx\<close>, a handle has none.\<close>

definition mtcl_comm ::
  "nat \<Rightarrow> byte list \<Rightarrow> ('n, 'x) cworld_scheme vtable
     \<Rightarrow> (hid \<Rightarrow> ('n, 'x) cworld_scheme \<Rightarrow> ('n, 'x) cworld_scheme out)
     \<Rightarrow> ('n, 'x) cworld_scheme comm" where
  "mtcl_comm c junk4 V yield =
     (let K = context_comm c junk4 V yield; H = handle_comm V
      in \<lparr>c_send = (\<lambda>h bs w. c_send (if ctxs w h = None then H else K) h bs w),
          c_probe = (\<lambda>h b sz w. c_probe (if ctxs w h = None then H else K) h b sz w),
          c_receive = (\<lambda>h n w. c_receive (if ctxs w h = None then H else K) h n w),
          c_sendrecv = (\<lambda>h sb rb n w. c_sendrecv (if ctxs w h = None then H else K) h sb rb n w),
          c_yield = (\<lambda>h w. c_yield (if ctxs w h = None then H else K) h w),
          c_close = (\<lambda>h cw cr w. c_close (if ctxs w h = None then H else K) h cw cr w),
          c_getSize = (\<lambda>h w. c_getSize (if ctxs w h = None then H else K) h w)\<rparr>)"

end
