(* ===== verification/Config.thy ===== *)
theory Config
  imports CxxString "HOL-Library.List_Lexorder" "HOL-Library.Char_ord"
begin

text \<open>
  The configuration file of \<open>Manager\<close> (\<open>include/manager.hpp\<close>, \<open>parseConfig\<close>), from the document the
  JSON library has parsed: the pools with their proxies and nodes, and the components with host,
  protocols and listening endpoints.
  \<^item> \<open>json\<close> is the document; reading a member of something that is no object, or a string from
    something that is no string, breaks a precondition of the library: \<open>Fault Invalid_argument\<close>.
  \<^item> A file that cannot be opened or parsed is \<open>None\<close>.
\<close>

datatype json = JOther | JString string | JArray "json list" | JObject "(string \<times> json) list"

type_synonym pool = "string list \<times> string list"
type_synonym component = "string \<times> string list \<times> string list"

record config =
  pools :: "(string, pool) smap"
  components :: "(string, component) smap"

definition config_empty :: config where
  "config_empty = \<lparr>pools = [], components = []\<rparr>"

definition json_get :: "json \<Rightarrow> string \<Rightarrow> json option out" where
  "json_get j k = (case j of JObject ms \<Rightarrow> Ret (map_of ms k) | _ \<Rightarrow> Fault Invalid_argument)"

definition as_string :: "json option \<Rightarrow> string option" where
  "as_string j = (case j of Some (JString s) \<Rightarrow> Some s | _ \<Rightarrow> None)"

definition as_array :: "json option \<Rightarrow> json list option" where
  "as_array j = (case j of Some (JArray xs) \<Rightarrow> Some xs | _ \<Rightarrow> None)"

fun JSONArray2VectorString :: "json list \<Rightarrow> string list out" where
  "JSONArray2VectorString [] = Ret []"
| "JSONArray2VectorString (e # es) =
     (case e of
        JString s \<Rightarrow> bnd (JSONArray2VectorString es) (\<lambda>ss. Ret (s # ss))
      | _ \<Rightarrow> Fault Invalid_argument)"

text \<open>One element of \<open>pools\<close> and of \<open>components\<close>; an element that is not well formed is skipped.\<close>

definition parse_pool :: "json \<Rightarrow> config \<Rightarrow> config out" where
  "parse_pool c cfg =
     (case c of
        JObject ms \<Rightarrow>
          (case (as_string (map_of ms ''name''), as_array (map_of ms ''proxyIp''),
                 as_array (map_of ms ''nodes'')) of
             (Some name, Some ips, Some nodes) \<Rightarrow>
               bnd (JSONArray2VectorString ips) (\<lambda>ips.
               bnd (JSONArray2VectorString nodes) (\<lambda>nodes.
               Ret (cfg\<lparr>pools := smap_put name (ips, nodes) (pools cfg)\<rparr>)))
           | _ \<Rightarrow> Ret cfg)
      | _ \<Rightarrow> Ret cfg)"

definition parse_component :: "json \<Rightarrow> config \<Rightarrow> config out" where
  "parse_component c cfg =
     (case c of
        JObject ms \<Rightarrow>
          (case (as_string (map_of ms ''name''), as_string (map_of ms ''host''),
                 as_array (map_of ms ''protocols'')) of
             (Some name, Some host, Some protocols) \<Rightarrow>
               bnd (case as_array (map_of ms ''listen-endpoints'') of
                      Some es \<Rightarrow> JSONArray2VectorString es | None \<Rightarrow> Ret []) (\<lambda>listen_strs.
               bnd (JSONArray2VectorString protocols) (\<lambda>protocols.
               Ret (cfg\<lparr>components := smap_put name (host, protocols, listen_strs) (components cfg)\<rparr>)))
           | _ \<Rightarrow> Ret cfg)
      | _ \<Rightarrow> Ret cfg)"

fun parse_each :: "(json \<Rightarrow> config \<Rightarrow> config out) \<Rightarrow> json list \<Rightarrow> config \<Rightarrow> config out" where
  "parse_each f [] cfg = Ret cfg"
| "parse_each f (j # js) cfg = bnd (f j cfg) (parse_each f js)"

definition parseConfig :: "json option \<Rightarrow> config \<Rightarrow> (int \<times> config) out" where
  "parseConfig doc cfg =
     (case doc of
        None \<Rightarrow> Ret (-1, cfg)
      | Some j \<Rightarrow>
          bnd (json_get j ''pools'') (\<lambda>ps.
          bnd (case as_array ps of Some xs \<Rightarrow> parse_each parse_pool xs cfg | None \<Rightarrow> Ret cfg) (\<lambda>cfg.
          bnd (json_get j ''components'') (\<lambda>cs.
          bnd (case as_array cs of Some xs \<Rightarrow> parse_each parse_component xs cfg | None \<Rightarrow> Ret cfg)
            (\<lambda>cfg. Ret (0, cfg))))))"

end
