(* ===== verification/Manager.thy ===== *)
theory Manager
  imports CollectiveContext Config
begin

text \<open>
  \<open>include/manager.hpp\<close>: the class \<open>Manager\<close>, whose static members are the fields of \<open>mgr\<close>, and
  \<open>CollectiveContext::yield\<close>, which is defined there.
  \<^item> \<open>conn\<close> is the dynamic dispatch of a \<open>ConnType\<close>, \<open>proto e p\<close> the one registered as \<open>p\<close> in
    \<open>protocolsMap\<close> (\<open>protocols\<close> are the registered names, in the order of the map); the transports
    provide them. \<open>vtab e\<close> dispatches the virtual members of the handles.
  \<^item> Locks and condition variables make the operations of the two threads atomic and have no
    counterpart: \<open>backend_round\<close> is one iteration of the IO thread, and a thread that waits for a
    condition lets rounds pass until it holds, with the bound \<open>bound e\<close>.
  \<^item> The build has \<open>ENABLE_CONFIGFILE\<close>, and neither MPI nor UCX; both variants of the IO thread are
    modelled where the code differs. \<open>slept\<close> adds up the microseconds of \<open>sleep_for\<close>.
\<close>

record 'n mgr = "'n cworld" +
  protocols :: "string list"
  handleReady :: "huser list"
  groupsReady :: "(string, hid list) smap"
  contexts :: "(hid, bool) smap"
  listening_endps :: "string set"
  createdTeams :: "string set"
  appName :: string
  poolName :: string
  cfg :: config
  stopped :: bool   \<comment> \<open>\<open>end\<close>\<close>
  mtcl_verbose :: int
  initialized :: bool
  slept :: nat

record 'w conn =
  conn_init :: "string \<Rightarrow> 'w \<Rightarrow> (int \<times> 'w) out"
  conn_listen :: "string \<Rightarrow> 'w \<Rightarrow> (int \<times> 'w) out"
  conn_connect :: "string \<Rightarrow> int \<Rightarrow> nat \<Rightarrow> 'w \<Rightarrow> (hid option \<times> 'w) out"
  conn_update :: "(bool \<Rightarrow> hid \<Rightarrow> 'w \<Rightarrow> 'w out) \<Rightarrow> 'w \<Rightarrow> 'w out"
  conn_end :: "bool \<Rightarrow> 'w \<Rightarrow> 'w out"

record 'w menv =
  vtab :: "'w vtable"
  proto :: "string \<Rightarrow> 'w conn"
  bound :: nat
  junk :: "byte list"

type_synonym ('n, 'x) mworld = "('n, 'x) mgr_scheme"
type_synonym ('n, 'x) env = "('n, 'x) mgr_scheme menv"

definition IO_THREAD_POLL_TIMEOUT :: nat where
  "IO_THREAD_POLL_TIMEOUT = 10"

definition CCONNECTION_RETRY :: int where
  "CCONNECTION_RETRY = 10"

definition CCONNECTION_TIMEOUT :: nat where
  "CCONNECTION_TIMEOUT = 100"

section \<open>New connections\<close>

text \<open>
  \<open>connectionHandshake\<close>: the return value and \<open>teamID\<close>, \<open>None\<close> for the null pointer. A handshake
  flag of fewer than four bytes leaves the high bytes of \<open>collective\<close> zero.
\<close>

definition connectionHandshake ::
  "('n, 'x) mworld vtable \<Rightarrow> hid \<Rightarrow> ('n, 'x) mworld \<Rightarrow> (int \<times> string option \<times> ('n, 'x) mworld) out" where
  "connectionHandshake V h w =
     bnd (vt_probe V h True 0 w) (\<lambda>(r, sz, w).
     if r \<le> 0 then Ret (-1, None, w)
     else bnd (vt_receive V h sizeof_int w) (\<lambda>(r, bs, w).
     if r \<le> 0 then Ret (-1, None, w)
     else if bytes_int (bs @ drop (length bs) [0, 0, 0, 0]) = 0 then Ret (0, None, w)
     else bnd (vt_probe V h True 0 w) (\<lambda>(r, sz, w).
     if r \<le> 0 then Ret (-1, None, w)
     else if 1048576 < sz then Ret (-1, None, w)
     else bnd (vt_receive V h sz w) (\<lambda>(r, bs, w).
     if r \<le> 0 then Ret (-1, None, w) else Ret (0, Some (c_string bs), w)))))"

definition push_ready ::
  "hid \<Rightarrow> bool \<Rightarrow> ('n, 'x) mworld \<Rightarrow> ('n, 'x) mworld out" where
  "push_ready h b w =
     bnd (huser_new (Some h) True b w) (\<lambda>(u, w). Ret (w\<lparr>handleReady := handleReady w @ [u]\<rparr>))"

definition addinQ ::
  "('n, 'x) mworld vtable \<Rightarrow> bool \<Rightarrow> hid \<Rightarrow> ('n, 'x) mworld \<Rightarrow> ('n, 'x) mworld out" where
  "addinQ V b h w =
     (if b then
        bnd (connectionHandshake V h w) (\<lambda>(r, teamID, w).
        if r = -1 then Ret w
        else case teamID of
          Some t \<Rightarrow>
            let w = w\<lparr>groupsReady := smap_emplace t [] (groupsReady w)\<rparr>
            in deref (smap_get (groupsReady w) t) (\<lambda>hs.
               Ret (w\<lparr>groupsReady := smap_put t (hs @ [h]) (groupsReady w)\<rparr>))
        | None \<Rightarrow> push_ready h b w)
      else push_ready h b w)"

section \<open>The IO thread\<close>

definition mgr_poll ::
  "('n, 'x) mworld vtable \<Rightarrow> hid \<Rightarrow> ('n, 'x) mworld \<Rightarrow> (bool \<times> ('n, 'x) mworld) out" where
  "mgr_poll V h w =
     bnd (obj h w) (\<lambda>ob. if fst (probed ob) then Ret (True, w) else ctx_peek V h w)"

text \<open>The loop over \<open>contexts\<close>.\<close>

fun poll_contexts ::
  "('n, 'x) mworld vtable \<Rightarrow> (hid, bool) smap \<Rightarrow> ('n, 'x) mworld \<Rightarrow> ('n, 'x) mworld out" where
  "poll_contexts V [] w = Ret w"
| "poll_contexts V ((h, toManage) # cs) w =
     (if toManage then
        bnd (mgr_poll V h w) (\<lambda>(res, w).
        if res then
          bnd (push_ready h False (w\<lparr>contexts := smap_put h False (contexts w)\<rparr>)) (poll_contexts V cs)
        else poll_contexts V cs w)
      else poll_contexts V cs w)"

fun update_all ::
  "('n, 'x) env \<Rightarrow> string list \<Rightarrow> ('n, 'x) mworld \<Rightarrow> ('n, 'x) mworld out" where
  "update_all e [] w = Ret w"
| "update_all e (p # ps) w =
     bnd (conn_update (proto e p) (addinQ (vtab e)) w) (update_all e ps)"

definition sleep_us :: "nat \<Rightarrow> ('n, 'x) mworld \<Rightarrow> ('n, 'x) mworld" where
  "sleep_us t w = w\<lparr>slept := slept w + t\<rparr>"

text \<open>The body of the loop of \<open>getReadyBackend\<close>.\<close>

definition backend_round :: "('n, 'x) env \<Rightarrow> ('n, 'x) mworld \<Rightarrow> ('n, 'x) mworld out" where
  "backend_round e w =
     bnd (update_all e (protocols w) w) (\<lambda>w.
     let w = sleep_us IO_THREAD_POLL_TIMEOUT w
     in poll_contexts (vtab e) (contexts w) w)"

definition releaseTeam :: "hid \<Rightarrow> ('n, 'x) mworld \<Rightarrow> ('n, 'x) mworld" where
  "releaseTeam h w =
     (if smap_has (contexts w) h then w\<lparr>contexts := smap_put h True (contexts w)\<rparr> else w)"

definition ctx_yield :: "hid \<Rightarrow> ('n, 'x) mworld \<Rightarrow> ('n, 'x) mworld out" where
  "ctx_yield h w =
     bnd (obj h w) (\<lambda>ob. bnd (get_ctx h w) (\<lambda>cx.
     Ret (if \<not> closed_rd ob \<and> canReceive cx then releaseTeam h w else w)))"

text \<open>The members the users' handles dispatch to.\<close>

definition mgr_comm :: "('n, 'x) env \<Rightarrow> ('n, 'x) mworld comm" where
  "mgr_comm e = mtcl_comm (bound e) (junk e) (vtab e) ctx_yield"

section \<open>Handles that are ready\<close>

text \<open>\<open>getNext\<close> with the IO thread, when \<open>condv.wait_for\<close> has returned.\<close>

definition no_handle :: huser where
  "no_handle = \<lparr>realHandle = None, isReadable = True, newConnection = True\<rparr>"

definition getNext :: "('n, 'x) mworld \<Rightarrow> huser \<times> ('n, 'x) mworld" where
  "getNext w =
     (case handleReady w of
        [] \<Rightarrow> (no_handle, w)
      | u # us \<Rightarrow> (u, w\<lparr>handleReady := us\<rparr>))"

text \<open>The \<open>do\<close> loop of \<open>getNext\<close> without the IO thread: \<open>k = niter - i\<close>.\<close>

fun getNext_loop ::
  "('n, 'x) env \<Rightarrow> nat \<Rightarrow> ('n, 'x) mworld \<Rightarrow> (huser \<times> ('n, 'x) mworld) out" where
  "getNext_loop e k w =
     bnd (update_all e (protocols w) w) (\<lambda>w.
     bnd (poll_contexts (vtab e) (contexts w) w) (\<lambda>w.
     if handleReady w \<noteq> [] then Ret (getNext w)
     else case k of
            0 \<Rightarrow> Ret (no_handle, w)
          | Suc k \<Rightarrow> getNext_loop e k (sleep_us IO_THREAD_POLL_TIMEOUT w)))"

declare getNext_loop.simps [simp del]

text \<open>\<open>us / std::chrono::milliseconds(IO_THREAD_POLL_TIMEOUT)\<close> for \<open>us\<close> microseconds.\<close>

definition getNext_single ::
  "('n, 'x) env \<Rightarrow> nat \<Rightarrow> ('n, 'x) mworld \<Rightarrow> (huser \<times> ('n, 'x) mworld) out" where
  "getNext_single e us w =
     (if handleReady w \<noteq> [] then Ret (getNext w)
      else
        let niter = us div (IO_THREAD_POLL_TIMEOUT * 1000);
            niter = (if niter = 0 then niter + 1 else niter)
        in getNext_loop e niter w)"

section \<open>Registering, listening\<close>

definition registerType :: "string \<Rightarrow> ('n, 'x) mworld \<Rightarrow> ('n, 'x) mworld" where
  "registerType name w =
     (if initialized w then w
      else w\<lparr>protocols := map fst (smap_put name () (map (\<lambda>p. (p, ())) (protocols w)))\<rparr>)"

definition mgr_listen ::
  "('n, 'x) env \<Rightarrow> string \<Rightarrow> ('n, 'x) mworld \<Rightarrow> (int \<times> ('n, 'x) mworld) out" where
  "mgr_listen e s w =
     (if s \<in> listening_endps w then Ret (0, w)
      else
        let w = w\<lparr>listening_endps := insert s (listening_endps w)\<rparr>; protocol = before_colon s
        in if protocol \<notin> set (protocols w) then Ret (-1, set_errno EPROTO w)
           else bnd (substr_from (length protocol + 1) s) (\<lambda>a. conn_listen (proto e protocol) a w))"

section \<open>Connecting\<close>

text \<open>\<open>protocolsMap[p]->connect(a, retry, timeout)\<close>: \<open>operator[]\<close> of an unregistered name is null.\<close>

definition proto_connect ::
  "('n, 'x) env \<Rightarrow> string \<Rightarrow> string \<Rightarrow> int \<Rightarrow> nat \<Rightarrow> ('n, 'x) mworld \<Rightarrow> (hid option \<times> ('n, 'x) mworld) out" where
  "proto_connect e p a retry timeout w =
     (if p \<in> set (protocols w) then conn_connect (proto e p) a retry timeout w else Fault Null_deref)"

text \<open>The loop over the endpoints of a component that is given by its name alone.\<close>

fun connect_named ::
  "('n, 'x) env \<Rightarrow> int \<Rightarrow> nat \<Rightarrow> string list \<Rightarrow> ('n, 'x) mworld \<Rightarrow> (hid option \<times> ('n, 'x) mworld) out" where
  "connect_named e retry timeout [] w = Ret (None, w)"
| "connect_named e retry timeout (le # les) w =
     (if before_colon le \<in> set (protocols w) then
        bnd (conn_connect (proto e (before_colon le)) (after_colon le) retry timeout w) (\<lambda>(h, w).
        if h \<noteq> None then Ret (h, w) else connect_named e retry timeout les w)
      else connect_named e retry timeout les w)"

text \<open>\<open>for (auto& ip: pools[pool].first)\<close>: an unknown pool is inserted, empty.\<close>

definition pool_proxies :: "string \<Rightarrow> ('n, 'x) mworld \<Rightarrow> string list \<times> ('n, 'x) mworld" where
  "pool_proxies pool w =
     (let ps = smap_emplace pool ([], []) (pools (cfg w))
      in (case smap_get ps pool of Some (ips, _) \<Rightarrow> ips | None \<Rightarrow> [],
          w\<lparr>cfg := (cfg w)\<lparr>pools := ps\<rparr>\<rparr>))"

definition proxy_port :: "string \<Rightarrow> string" where
  "proxy_port protocol = (if protocol = ''UCX'' then ''13001'' else ''13000'')"

fun connect_remote_proxy ::
  "('n, 'x) env \<Rightarrow> string \<Rightarrow> string \<Rightarrow> int \<Rightarrow> nat \<Rightarrow> string list \<Rightarrow> ('n, 'x) mworld
     \<Rightarrow> (hid option \<times> ('n, 'x) mworld) out" where
  "connect_remote_proxy e s protocol retry timeout [] w = Ret (None, w)"
| "connect_remote_proxy e s protocol retry timeout (ip # ips) w =
     bnd (if colon \<in> set ip then proto_connect e ''TCP'' ip retry timeout w
          else proto_connect e protocol (ip @ colon # proxy_port protocol) retry timeout w) (\<lambda>(h, w).
     case h of
       Some k \<Rightarrow> bnd (vt_send (vtab e) k (bytes_of_string s) w) (\<lambda>(_, w). Ret (Some k, w))
     | None \<Rightarrow> connect_remote_proxy e s protocol retry timeout ips w)"

text \<open>
  The other loops over proxies send before they test the handle, so that a null handle is
  dereferenced and the test after it always succeeds.
\<close>

definition connect_then_send ::
  "('n, 'x) env \<Rightarrow> string \<Rightarrow> string \<Rightarrow> string \<Rightarrow> int \<Rightarrow> nat \<Rightarrow> ('n, 'x) mworld
     \<Rightarrow> (hid option \<times> ('n, 'x) mworld) out" where
  "connect_then_send e s protocol a retry timeout w =
     bnd (proto_connect e protocol a retry timeout w) (\<lambda>(h, w).
     deref h (\<lambda>k. bnd (vt_send (vtab e) k (bytes_of_string s) w) (\<lambda>(_, w). Ret (h, w))))"

fun connect_own_proxy ::
  "('n, 'x) env \<Rightarrow> string \<Rightarrow> string \<Rightarrow> int \<Rightarrow> nat \<Rightarrow> string list \<Rightarrow> ('n, 'x) mworld
     \<Rightarrow> (hid option \<times> ('n, 'x) mworld) out" where
  "connect_own_proxy e s protocol retry timeout [] w = Ret (None, w)"
| "connect_own_proxy e s protocol retry timeout (ip # ips) w =
     bnd (connect_then_send e s protocol (ip @ colon # proxy_port protocol) retry timeout w) (\<lambda>(h, w).
     if h \<noteq> None then Ret (h, w) else connect_own_proxy e s protocol retry timeout ips w)"

text \<open>A component in another pool.\<close>

definition connect_proxied ::
  "('n, 'x) env \<Rightarrow> string \<Rightarrow> string \<Rightarrow> string \<Rightarrow> int \<Rightarrow> nat \<Rightarrow> ('n, 'x) mworld
     \<Rightarrow> (hid option \<times> ('n, 'x) mworld) out" where
  "connect_proxied e s protocol pool retry timeout w =
     bnd (if poolName w = [] \<and> pool \<noteq> [] then
            (if protocol = ''UCX'' \<or> protocol = ''TCP'' then
               let (ips, w) = pool_proxies pool w
               in connect_remote_proxy e s protocol retry timeout ips w
             else connect_then_send e s protocol (''PROXY-'' @ pool) retry timeout w)
          else Ret (None, w)) (\<lambda>(h, w).
     if h \<noteq> None then Ret (h, w)
     else if poolName w \<noteq> [] \<and> pool \<noteq> [] then
       (if protocol = ''UCX'' \<or> protocol = ''TCP'' then
          let (ips, w) = pool_proxies (poolName w) w
          in connect_own_proxy e s protocol retry timeout ips w
        else connect_then_send e s protocol (''PROXY-'' @ poolName w) retry timeout w)
     else Ret (None, w))"

text \<open>A component in the same pool: every endpoint in which the name of the protocol occurs.\<close>

fun connect_direct ::
  "('n, 'x) env \<Rightarrow> string \<Rightarrow> int \<Rightarrow> nat \<Rightarrow> string list \<Rightarrow> ('n, 'x) mworld
     \<Rightarrow> (hid option \<times> ('n, 'x) mworld) out" where
  "connect_direct e protocol retry timeout [] w = Ret (None, w)"
| "connect_direct e protocol retry timeout (le # les) w =
     (if contains protocol le then
        bnd (proto_connect e protocol (after_colon le) retry timeout w) (\<lambda>(h, w).
        if h \<noteq> None then Ret (h, w) else connect_direct e protocol retry timeout les w)
      else connect_direct e protocol retry timeout les w)"

definition connectHandle ::
  "('n, 'x) env \<Rightarrow> string \<Rightarrow> int \<Rightarrow> nat \<Rightarrow> ('n, 'x) mworld \<Rightarrow> (hid option \<times> ('n, 'x) mworld) out" where
  "connectHandle e s retry timeout w =
     (let protocol = (if colon \<in> set s then before_colon s else [])
      in if protocol = [] then
           (case smap_get (components (cfg w)) s of
              Some (_, _, les) \<Rightarrow> connect_named e retry timeout les w
            | None \<Rightarrow> Ret (None, w))
         else
           (case smap_get (components (cfg w)) (after_colon s) of
              Some (host, _, les) \<Rightarrow>
                let pool = getPoolFromHost host
                in if pool \<noteq> poolName w then connect_proxied e s protocol pool retry timeout w
                   else connect_direct e protocol retry timeout les w
            | None \<Rightarrow>
                if protocol \<in> set (protocols w)
                then conn_connect (proto e protocol) (after_colon s) retry timeout w
                else Ret (None, w)))"

text \<open>\<open>connect\<close>: the handle, after its handshake flag has been sent.\<close>

definition mgr_connect ::
  "('n, 'x) env \<Rightarrow> string \<Rightarrow> int \<Rightarrow> nat \<Rightarrow> ('n, 'x) mworld \<Rightarrow> (huser \<times> ('n, 'x) mworld) out" where
  "mgr_connect e s nretry timeout w =
     bnd (connectHandle e s nretry timeout w) (\<lambda>(h, w).
     case h of
       Some k \<Rightarrow> bnd (vt_send (vtab e) k (int_bytes 0) w) (\<lambda>(r, w).
         if r = -1 then Ret (huser_null, w) else huser_new h True True w)
     | None \<Rightarrow> huser_new None True True w)"

definition getTypeOfHandle :: "huser \<Rightarrow> ('n, 'x) mworld \<Rightarrow> string out" where
  "getTypeOfHandle u w = deref (realHandle u) (\<lambda>h. bnd (obj h w) (\<lambda>ob. Ret (parent ob)))"

section \<open>Teams\<close>

definition type_number :: "handle_type \<Rightarrow> int" where
  "type_number type = (case type of BROADCAST \<Rightarrow> 0 | FANIN \<Rightarrow> 1 | FANOUT \<Rightarrow> 2 | GATHER \<Rightarrow> 3 | P2P \<Rightarrow> 4
     | INVALID_TYPE \<Rightarrow> 5)"

definition team_id :: "string \<Rightarrow> string \<Rightarrow> handle_type \<Rightarrow> string" where
  "team_id members root type = members @ root @ ''-'' @ to_string (type_number type)"

text \<open>
  The loop over the participants: \<open>size\<close>, \<open>rank\<close>, \<open>root_ok\<close>, \<open>mpi_impl\<close>, \<open>ucc_impl\<close>; \<open>None\<close> when a
  participant is missing in the configuration.
\<close>

fun scan_team ::
  "config \<Rightarrow> string \<Rightarrow> string \<Rightarrow> string list \<Rightarrow> int \<times> int \<times> bool \<times> bool \<times> bool
     \<Rightarrow> (int \<times> int \<times> bool \<times> bool \<times> bool) option" where
  "scan_team c app root [] acc = Some acc"
| "scan_team c app root (line # ls) (size1, rank, root_ok, mpi_impl, ucc_impl) =
     (case smap_get (components c) line of
        None \<Rightarrow> None
      | Some (_, prots, _) \<Rightarrow>
          scan_team c app root ls
            (size1 + 1, if app = line then size1 else rank, root_ok \<or> root = line,
             mpi_impl \<and> ''MPI'' \<in> set prots, ucc_impl \<and> ''UCX'' \<in> set prots))"

text \<open>\<open>group_cond.wait\<close>: the predicate, and a round of the IO thread while it does not hold.\<close>

primrec wait_group ::
  "nat \<Rightarrow> ('n, 'x) env \<Rightarrow> hid \<Rightarrow> string \<Rightarrow> ('n, 'x) mworld \<Rightarrow> (hid list \<times> ('n, 'x) mworld) out" where
  "wait_group 0 e h teamID w = Fault No_return"
| "wait_group (Suc n) e h teamID w =
     bnd (case smap_get (groupsReady w) teamID of
            Some hs \<Rightarrow> ctx_update h (int (length hs)) w
          | None \<Rightarrow> Ret (False, w)) (\<lambda>(ready, w).
     if ready then deref (smap_get (groupsReady w) teamID) (\<lambda>hs. Ret (hs, w))
     else bnd (backend_round e w) (wait_group n e h teamID))"

text \<open>The root: the handles whose peers have announced the team.\<close>

definition team_accept ::
  "('n, 'x) env \<Rightarrow> hid \<Rightarrow> string \<Rightarrow> ('n, 'x) mworld \<Rightarrow> (hid list \<times> ('n, 'x) mworld) out" where
  "team_accept e h teamID w =
     bnd (wait_group (bound e) e h teamID w) (\<lambda>(hs, w).
     bnd (each_handle (\<lambda>k. upd_obj k (\<lambda>ob. ob\<lparr>handleName := teamID @ ''-'' @ appName w\<rparr>)) hs w) (\<lambda>w.
     Ret (hs, w\<lparr>groupsReady := smap_erase teamID (groupsReady w)\<rparr>)))"

text \<open>The other members: the first endpoint of the root that accepts the connection.\<close>

fun connect_root ::
  "('n, 'x) env \<Rightarrow> string list \<Rightarrow> ('n, 'x) mworld \<Rightarrow> (hid option \<times> ('n, 'x) mworld) out" where
  "connect_root e [] w = Ret (None, w)"
| "connect_root e (addr # addrs) w =
     bnd (connectHandle e addr CCONNECTION_RETRY CCONNECTION_TIMEOUT w) (\<lambda>(h, w).
     if h \<noteq> None then Ret (h, w) else connect_root e addrs w)"

definition team_join ::
  "('n, 'x) env \<Rightarrow> string list \<Rightarrow> string \<Rightarrow> ('n, 'x) mworld \<Rightarrow> (hid list option \<times> ('n, 'x) mworld) out" where
  "team_join e root_addrs teamID w =
     bnd (connect_root e root_addrs w) (\<lambda>(h, w).
     case h of
       None \<Rightarrow> Ret (None, w)
     | Some k \<Rightarrow>
         bnd (vt_send (vtab e) k (int_bytes 1) w) (\<lambda>(_, w).
         bnd (vt_send (vtab e) k (bytes_of_string teamID) w) (\<lambda>(_, w).
         bnd (upd_obj k (\<lambda>ob. ob\<lparr>handleName := teamID @ ''-'' @ appName w\<rparr>) w) (\<lambda>w.
         Ret (Some [k], w)))))"

text \<open>
  \<open>createTeam\<close> after the checks: the context is null for a type that is no collective, which only
  the root tests.
\<close>

definition team_handles ::
  "('n, 'x) env \<Rightarrow> string \<Rightarrow> string \<Rightarrow> hid option \<Rightarrow> ('n, 'x) mworld
     \<Rightarrow> (hid list option \<times> ('n, 'x) mworld) out" where
  "team_handles e root teamID cx w =
     (if appName w = root then
        (case cx of
           None \<Rightarrow> Ret (None, w)
         | Some h \<Rightarrow> bnd (team_accept e h teamID w) (\<lambda>(hs, w). Ret (Some hs, w)))
      else
        (case smap_get (components (cfg w)) root of
           None \<Rightarrow> Ret (None, w)
         | Some (_, _, root_addrs) \<Rightarrow> team_join e root_addrs teamID w))"

definition team_finish ::
  "hid option \<Rightarrow> string \<Rightarrow> hid list \<Rightarrow> ('n, 'x) mworld \<Rightarrow> (huser \<times> ('n, 'x) mworld) out" where
  "team_finish cx teamID coll_handles w =
     deref cx (\<lambda>h.
     bnd (setImplementation h GENERIC coll_handles w) (\<lambda>(ok, w).
     if \<not> ok then Ret (huser_null, w)
     else
       bnd (upd_obj h (\<lambda>ob. ob\<lparr>handleName := teamID @ ''-'' @ appName w\<rparr>) w) (\<lambda>w.
       huser_new (Some h) True True (w\<lparr>contexts := smap_emplace h False (contexts w)\<rparr>))))"

text \<open>An implementation of the MPI or UCC library is selected, but the build has neither.\<close>

definition createTeam ::
  "('n, 'x) env \<Rightarrow> string \<Rightarrow> string \<Rightarrow> handle_type \<Rightarrow> ('n, 'x) mworld \<Rightarrow> (huser \<times> ('n, 'x) mworld) out" where
  "createTeam e members root type w =
     (let teamID = team_id members root type
      in if teamID \<in> createdTeams w then Ret (huser_null, set_errno EINVAL w)
         else
           let w = w\<lparr>createdTeams := insert teamID (createdTeams w)\<rparr>
           in case scan_team (cfg w) (appName w) root (getlines members) (0, 0, False, True, True) of
                None \<Rightarrow> Ret (huser_null, w)
              | Some (size1, rank, root_ok, mpi_impl, ucc_impl) \<Rightarrow>
                  let cs = smap_emplace root ([], [], []) (components (cfg w));
                      w = w\<lparr>cfg := (cfg w)\<lparr>components := cs\<rparr>\<rparr>
                  in if (case smap_get cs root of Some (_, _, les) \<Rightarrow> les = [] | None \<Rightarrow> True) \<or> \<not> root_ok
                        \<or> mpi_impl \<or> ucc_impl
                     then Ret (huser_null, w)
                     else
                       let (cx, w) = createContext type size1 (appName w = root) rank w
                       in bnd (team_handles e root teamID cx w) (\<lambda>(hs, w).
                          case hs of
                            None \<Rightarrow> Ret (huser_null, w)
                          | Some coll_handles \<Rightarrow> team_finish cx teamID coll_handles w))"

section \<open>Start and end\<close>

definition verbose_level :: "string option \<Rightarrow> int \<Rightarrow> int" where
  "verbose_level level old =
     (case level of
        None \<Rightarrow> old
      | Some s \<Rightarrow>
          if s \<in> {''all'', ''ALL'', ''max'', ''MAX''} then 2 ^ 31 - 1
          else (case stoi s of Ret v \<Rightarrow> (if v \<le> 0 then 1 else v) | Fault _ \<Rightarrow> old))"

definition read_config ::
  "json option option \<Rightarrow> ('n, 'x) mworld \<Rightarrow> (int \<times> ('n, 'x) mworld) out" where
  "read_config file w =
     (case file of
        None \<Rightarrow> Ret (0, w)
      | Some doc \<Rightarrow> bnd (parseConfig doc (cfg w)) (\<lambda>(r, c). Ret (r, w\<lparr>cfg := c\<rparr>)))"

fun init_protocols ::
  "('n, 'x) env \<Rightarrow> string \<Rightarrow> string list \<Rightarrow> ('n, 'x) mworld \<Rightarrow> ('n, 'x) mworld out" where
  "init_protocols e app [] w = Ret w"
| "init_protocols e app (p # ps) w =
     bnd (conn_init (proto e p) app w) (\<lambda>(_, w). init_protocols e app ps w)"

fun listen_all ::
  "('n, 'x) env \<Rightarrow> string list \<Rightarrow> ('n, 'x) mworld \<Rightarrow> ('n, 'x) mworld out" where
  "listen_all e [] w = Ret w"
| "listen_all e (le # les) w = bnd (mgr_listen e le w) (\<lambda>(_, w). listen_all e les w)"

text \<open>
  \<open>init\<close>: \<open>level\<close> is \<open>getenv("MTCL_VERBOSE")\<close>; a configuration file is \<open>None\<close> when its name is
  empty, otherwise the document that has been read, if any.
\<close>

definition mgr_init ::
  "('n, 'x) env \<Rightarrow> string option \<Rightarrow> string \<Rightarrow> json option option \<Rightarrow> json option option \<Rightarrow> ('n, 'x) mworld
     \<Rightarrow> (int \<times> ('n, 'x) mworld) out" where
  "mgr_init e level app file1 file2 w =
     (let w = w\<lparr>mtcl_verbose := verbose_level level (mtcl_verbose w), appName := app\<rparr>;
          w = registerType ''SHM'' (registerType ''TCP'' w)
      in bnd (read_config file1 w) (\<lambda>(r, w).
         if r < 0 then Ret (-1, w)
         else bnd (read_config file2 w) (\<lambda>(r, w).
         if r < 0 then Ret (-1, w)
         else case smap_get (components (cfg w)) app of
           None \<Rightarrow> Ret (-1, w)
         | Some (host, _, les) \<Rightarrow>
             bnd (init_protocols e app (protocols w) (w\<lparr>poolName := getPoolFromHost host, stopped := False\<rparr>))
               (\<lambda>w. bnd (listen_all e les w) (\<lambda>w. Ret (0, w\<lparr>initialized := True\<rparr>))))))"

fun finalize_contexts ::
  "(hid, bool) smap \<Rightarrow> ('n, 'x) mworld \<Rightarrow> ('n, 'x) mworld out" where
  "finalize_contexts [] w = Ret w"
| "finalize_contexts ((h, m) # cs) w =
     bnd (ctx_finalize h w) (\<lambda>w.
     bnd (obj h w) (\<lambda>ob.
     bnd (if counter ob = 1 then Ret (delete_obj h w)
          else upd_obj h (\<lambda>ob. ob\<lparr>counter := counter ob - 1\<rparr>) w) (\<lambda>w.
     finalize_contexts cs w)))"

fun end_protocols ::
  "('n, 'x) env \<Rightarrow> bool \<Rightarrow> string list \<Rightarrow> ('n, 'x) mworld \<Rightarrow> ('n, 'x) mworld out" where
  "end_protocols e blockflag [] w = Ret w"
| "end_protocols e blockflag (p # ps) w =
     bnd (conn_end (proto e p) blockflag w) (end_protocols e blockflag ps)"

definition mgr_finalize :: "('n, 'x) env \<Rightarrow> bool \<Rightarrow> ('n, 'x) mworld \<Rightarrow> ('n, 'x) mworld out" where
  "mgr_finalize e blockflag w =
     bnd (finalize_contexts (contexts w) (w\<lparr>stopped := True\<rparr>)) (\<lambda>w.
     end_protocols e blockflag (protocols w) w)"

end
