(* ===== verification/Bimap.thy ===== *)
theory Bimap
  imports Prelude
begin

text \<open>
  \<open>proxy/bimap.hpp\<close>: the class \<open>bimap\<close> with its default containers, two \<open>std::set\<close>s that are kept
  independently; a key belongs to the value that stands at the same position.
  \<^item> A \<open>std::set\<close> is a strictly sorted list. Dereferencing or erasing the end iterator is
    \<open>Fault Out_of_bounds\<close>.
  \<^item> Lemmas: the position of an element is the number of smaller ones, so the association survives
    exactly when keys and values are ordered alike.
\<close>

record ('k, 'v) bimap =
  m_key_tree :: "'k list"
  m_value_tree :: "'v list"

definition bimap_empty :: "('k, 'v) bimap" where
  "bimap_empty = \<lparr>m_key_tree = [], m_value_tree = []\<rparr>"

text \<open>\<open>std::set::emplace_hint\<close>, and \<open>std::distance(begin, find(x))\<close>: the size when \<open>x\<close> is absent.\<close>

fun set_put :: "'a::linorder \<Rightarrow> 'a list \<Rightarrow> 'a list" where
  "set_put x [] = [x]"
| "set_put x (y # ys) = (if x < y then x # y # ys else if x = y then y # ys else y # set_put x ys)"

fun set_pos :: "'a \<Rightarrow> 'a list \<Rightarrow> nat" where
  "set_pos x [] = 0"
| "set_pos x (y # ys) = (if x = y then 0 else Suc (set_pos x ys))"

definition set_at :: "'a list \<Rightarrow> nat \<Rightarrow> 'a out" where
  "set_at xs i = (if i < length xs then Ret (xs ! i) else Fault Out_of_bounds)"

definition set_drop :: "nat \<Rightarrow> 'a list \<Rightarrow> 'a list out" where
  "set_drop i xs = (if i < length xs then Ret (take i xs @ drop (Suc i) xs) else Fault Out_of_bounds)"

section \<open>Members\<close>

text \<open>The offset is cast to \<open>unsigned\<close>.\<close>

definition index_of_key :: "'k \<Rightarrow> ('k, 'v) bimap \<Rightarrow> nat" where
  "index_of_key k m =
     (let offset = set_pos k (m_key_tree m) mod 2 ^ 32
      in if offset < length (m_key_tree m) then offset else 0)"

definition index_of_value :: "'v \<Rightarrow> ('k, 'v) bimap \<Rightarrow> nat" where
  "index_of_value v m =
     (let offset = set_pos v (m_value_tree m) mod 2 ^ 32
      in if offset < length (m_value_tree m) then offset else 0)"

definition value_at_index :: "nat \<Rightarrow> ('k, 'v) bimap \<Rightarrow> 'v out" where
  "value_at_index i m = set_at (m_value_tree m) i"

definition key_at_index :: "nat \<Rightarrow> ('k, 'v) bimap \<Rightarrow> 'k out" where
  "key_at_index i m = set_at (m_key_tree m) i"

definition bimap_insert :: "'k::linorder \<Rightarrow> 'v::linorder \<Rightarrow> ('k, 'v) bimap \<Rightarrow> ('k, 'v) bimap" where
  "bimap_insert k v m =
     \<lparr>m_key_tree = set_put k (m_key_tree m), m_value_tree = set_put v (m_value_tree m)\<rparr>"

definition erase_key :: "'k \<Rightarrow> ('k, 'v) bimap \<Rightarrow> ('k, 'v) bimap out" where
  "erase_key k m =
     (let offset = set_pos k (m_key_tree m)
      in bnd (set_drop offset (m_key_tree m)) (\<lambda>ks.
         bnd (set_drop offset (m_value_tree m)) (\<lambda>vs.
         Ret \<lparr>m_key_tree = ks, m_value_tree = vs\<rparr>)))"

definition erase_value :: "'v \<Rightarrow> ('k, 'v) bimap \<Rightarrow> ('k, 'v) bimap out" where
  "erase_value v m =
     (let offset = set_pos v (m_value_tree m)
      in bnd (set_drop offset (m_key_tree m)) (\<lambda>ks.
         bnd (set_drop offset (m_value_tree m)) (\<lambda>vs.
         Ret \<lparr>m_key_tree = ks, m_value_tree = vs\<rparr>)))"

definition has_key :: "'k \<Rightarrow> ('k, 'v) bimap \<Rightarrow> bool" where
  "has_key k m = (k \<in> set (m_key_tree m))"

definition has_value :: "'v \<Rightarrow> ('k, 'v) bimap \<Rightarrow> bool" where
  "has_value v m = (v \<in> set (m_value_tree m))"

definition get_value :: "'k \<Rightarrow> ('k, 'v) bimap \<Rightarrow> 'v out" where
  "get_value k m = set_at (m_value_tree m) (index_of_key k m)"

definition get_key :: "'v \<Rightarrow> ('k, 'v) bimap \<Rightarrow> 'k out" where
  "get_key v m = set_at (m_key_tree m) (index_of_value v m)"

definition bimap_size :: "('k, 'v) bimap \<Rightarrow> nat" where
  "bimap_size m = length (m_key_tree m)"

text \<open>The constructor from an initializer list.\<close>

fun bimap_of :: "('k::linorder \<times> 'v::linorder) list \<Rightarrow> ('k, 'v) bimap \<Rightarrow> ('k, 'v) bimap" where
  "bimap_of [] m = m"
| "bimap_of ((k, v) # es) m = bimap_of es (bimap_insert k v m)"

section \<open>Sorted containers\<close>

lemma set_put_set [simp]: "set (set_put x xs) = insert x (set xs)"
  by (induction x xs rule: set_put.induct) auto

lemma set_put_sorted: "sorted_wrt (<) xs \<Longrightarrow> sorted_wrt (<) (set_put x xs)"
  by (induction x xs rule: set_put.induct) auto

lemma set_pos_less: "x \<in> set xs \<Longrightarrow> set_pos x xs < length xs \<and> xs ! set_pos x xs = x"
  by (induction x xs rule: set_pos.induct) auto

text \<open>The position of an element of a sorted list is the number of smaller elements.\<close>

lemma set_pos_card:
  fixes xs :: "'a::linorder list"
  shows "sorted_wrt (<) xs \<Longrightarrow> x \<in> set xs \<Longrightarrow> set_pos x xs = card {y \<in> set xs. y < x}"
proof (induction x xs rule: set_pos.induct)
  case (2 x y ys)
  show ?case
  proof (cases "x = y")
    case True
    with 2(2) have "{z \<in> set (y # ys). z < x} = {}" by auto
    with True show ?thesis by simp
  next
    case False
    with 2(2,3) have "y < x" by auto
    then have "{z \<in> set (y # ys). z < x} = insert y {z \<in> set ys. z < x}" by auto
    moreover have "y \<notin> {z \<in> set ys. z < x}" using 2(2) by auto
    ultimately show ?thesis using 2 False by simp
  qed
qed simp

lemma sorted_at_less:
  fixes xs :: "'a::linorder list"
  assumes "sorted_wrt (<) xs" and "i < length xs" and "j < length xs"
  shows "xs ! i < xs ! j \<longleftrightarrow> i < j"
  using assms sorted_wrt_nth_less [OF assms(1)] by (metis linorder_neqE_nat order_less_asym order_less_irrefl)

section \<open>The association\<close>

definition bimap_ok :: "('k::linorder, 'v::linorder) bimap \<Rightarrow> bool" where
  "bimap_ok m \<longleftrightarrow> sorted_wrt (<) (m_key_tree m) \<and> sorted_wrt (<) (m_value_tree m)"

lemma bimap_of_sets:
  "bimap_ok m \<Longrightarrow> bimap_ok (bimap_of es m)
    \<and> set (m_key_tree (bimap_of es m)) = fst ` set es \<union> set (m_key_tree m)
    \<and> set (m_value_tree (bimap_of es m)) = snd ` set es \<union> set (m_value_tree m)"
proof (induction es m rule: bimap_of.induct)
  case (2 k v es m)
  have "bimap_ok (bimap_insert k v m)"
    using 2(2) by (simp add: bimap_ok_def bimap_insert_def set_put_sorted)
  from 2(1) [OF this] show ?case by (auto simp: bimap_insert_def)
qed simp

lemma sorted_card: "sorted_wrt (<) (xs :: 'a::linorder list) \<Longrightarrow> length xs = card (set xs)"
  using strict_sorted_iff distinct_card by metis

text \<open>Looking up a key of a map with distinct keys and values.\<close>

lemma get_value_pos:
  assumes "bimap_ok m" and "length (m_key_tree m) = length (m_value_tree m)"
    and "length (m_key_tree m) < 2 ^ 32" and "k \<in> set (m_key_tree m)"
  shows "get_value k m = Ret (m_value_tree m ! set_pos k (m_key_tree m))"
  using set_pos_less [OF assms(4)] assms(2,3)
  by (simp add: get_value_def index_of_key_def set_at_def)

lemma pairs_less_card:
  assumes "inj_on f S" and "finite S"
  shows "card {y \<in> f ` S. P y} = card {p \<in> S. P (f p)}"
proof -
  have "{y \<in> f ` S. P y} = f ` {p \<in> S. P (f p)}" by auto
  moreover have "inj_on f {p \<in> S. P (f p)}" using assms(1) by (rule inj_on_subset) auto
  ultimately show ?thesis by (simp add: card_image)
qed

text \<open>C16: The class \<open>bimap\<close>, filled with pairs of distinct keys and distinct values, gives every key its
  value if and only if keys and values are ordered alike; for any other set of pairs some key is
  given the value of another one.\<close>

theorem bimap_correct_iff_monotone:
  fixes es :: "('k::linorder \<times> 'v::linorder) list"
  assumes "distinct (map fst es)" and "distinct (map snd es)" and "length es < 2 ^ 32"
  shows "(\<forall>(k, v) \<in> set es. get_value k (bimap_of es bimap_empty) = Ret v)
    \<longleftrightarrow> (\<forall>(k1, v1) \<in> set es. \<forall>(k2, v2) \<in> set es. k1 < k2 \<longleftrightarrow> v1 < v2)"
proof -
  let ?m = "bimap_of es bimap_empty"
  let ?K = "m_key_tree ?m" and ?V = "m_value_tree ?m"
  have "bimap_ok bimap_empty" by (simp add: bimap_ok_def bimap_empty_def)
  from bimap_of_sets [OF this, of es] have ok: "bimap_ok ?m"
    and K: "set ?K = fst ` set es" and V: "set ?V = snd ` set es"
    by (auto simp: bimap_empty_def)
  then have srt: "sorted_wrt (<) ?K" "sorted_wrt (<) ?V" by (auto simp: bimap_ok_def)
  have len: "length ?K = length es" "length ?V = length es"
    using sorted_card [OF srt(1)] sorted_card [OF srt(2)] K V distinct_card [OF assms(1)]
      distinct_card [OF assms(2)] by simp_all
  have look: "get_value k ?m = Ret (?V ! set_pos k ?K)" if "(k, v) \<in> set es" for k v
  proof (rule get_value_pos [OF ok])
    show "k \<in> set ?K" using that K by force
  qed (use len assms(3) in simp_all)
  have posK: "set_pos k ?K < length es \<and> ?K ! set_pos k ?K = k" if "(k, v) \<in> set es" for k v
    using set_pos_less [of k ?K] that K len by force
  have posV: "set_pos v ?V < length es \<and> ?V ! set_pos v ?V = v" if "(k, v) \<in> set es" for k v
    using set_pos_less [of v ?V] that V len by force
  show ?thesis
  proof
    assume all: "\<forall>(k, v) \<in> set es. get_value k ?m = Ret v"
    have "k1 < k2 \<longleftrightarrow> v1 < v2" if "(k1, v1) \<in> set es" "(k2, v2) \<in> set es" for k1 v1 k2 v2
    proof -
      have "?V ! set_pos k1 ?K = v1" "?V ! set_pos k2 ?K = v2" using all look that by force+
      with sorted_at_less [OF srt(1)] sorted_at_less [OF srt(2)] posK that len show ?thesis by metis
    qed
    then show "\<forall>(k1, v1) \<in> set es. \<forall>(k2, v2) \<in> set es. k1 < k2 \<longleftrightarrow> v1 < v2" by blast
  next
    assume mono: "\<forall>(k1, v1) \<in> set es. \<forall>(k2, v2) \<in> set es. k1 < k2 \<longleftrightarrow> v1 < v2"
    have "get_value k ?m = Ret v" if kv: "(k, v) \<in> set es" for k v
    proof -
      have k: "k \<in> set ?K" "v \<in> set ?V" using kv K V by force+
      have "{p \<in> set es. fst p < k} = {p \<in> set es. snd p < v}" using mono kv by fastforce
      then have "card {y \<in> fst ` set es. y < k} = card {y \<in> snd ` set es. y < v}"
        using pairs_less_card [of fst "set es" "\<lambda>y. y < k"] pairs_less_card [of snd "set es" "\<lambda>y. y < v"]
          assms(1,2) by (simp add: distinct_map)
      then have "set_pos k ?K = set_pos v ?V"
        using set_pos_card [OF srt(1) k(1)] set_pos_card [OF srt(2) k(2)] K V by simp
      with look [OF kv] posV [OF kv] show ?thesis by simp
    qed
    then show "\<forall>(k, v) \<in> set es. get_value k ?m = Ret v" by blast
  qed
qed

text \<open>Two connections whose identifiers are ordered against their handles exchange them.\<close>

theorem bimap_correct_iff_monotone_witness:
  "\<exists>(k, v) \<in> set [(1 :: nat, 20 :: nat), (2, 10)]. get_value k (bimap_of [(1, 20), (2, 10)] bimap_empty) \<noteq> Ret v"
proof -
  let ?es = "[(1 :: nat, 20 :: nat), (2, 10)]"
  have d: "distinct (map fst ?es)" "distinct (map snd ?es)" "length ?es < 2 ^ 32" by simp_all
  have "\<not> (\<forall>(k1, v1) \<in> set ?es. \<forall>(k2, v2) \<in> set ?es. k1 < k2 \<longleftrightarrow> v1 < v2)" by simp
  with bimap_correct_iff_monotone [OF d] show ?thesis by auto
qed

end
