(* ===== verification/Proxy.thy ===== *)
theory Proxy
  imports Manager Bimap TcpSocket
begin

text \<open>
  \<open>proxy/proxy.cpp\<close>: the process that joins two pools. Its global tables extend the state of the
  manager; \<open>proxy_start\<close> is \<open>main\<close> up to the loop, \<open>proxy_step\<close> one iteration with the handle that
  \<open>getNext\<close> has returned.
  \<^item> A \<open>HandleUser*\<close> made by \<open>toHeap\<close> is a position in \<open>px_users\<close>; \<open>operator[]\<close> of an unknown key inserts
    the null pointer. The local \<open>h\<close> is destroyed at the end of every iteration that has not moved it.
  \<^item> \<open>px_hash\<close> is \<open>std::hash\<close>, whose values are the implementation's. \<open>px_sz\<close> is the indeterminate content
    of the uninitialised \<open>sz\<close>, \<open>px_fill\<close> fills a buffer beyond what has been received.
  \<^item> The proxy is built without \<open>ENABLE_CONFIGFILE\<close> (with it \<open>Manager::init\<close> would not find a component
    PROXY and fail): the configuration of its manager is empty and the proxy reads its own.
\<close>

record 'n proxy = "'n mgr" +
  px_users :: "huser list"
  proxies :: "(string, nat option) smap"
  id2handle :: "(nat, huser) smap"
  connid2proxy :: "(u64, nat option) smap"
  loc2connID :: "(nat, u64) bimap"
  proc2proc :: "(nat, nat) smap"
  px_cfg :: config

record px_env =
  px_pool :: string   \<comment> \<open>\<open>argv[1]\<close>\<close>
  px_hash :: "string \<Rightarrow> u64"
  px_sz :: u64
  px_fill :: byte

type_synonym ('n, 'x) pworld = "('n, 'x) proxy_scheme"
type_synonym ('n, 'x) penv = "('n, 'x) proxy_scheme menv"

datatype cmd_t = FWD | CONN | PRX | ERR_CONN | EOS_cmd

definition cmd_byte :: "cmd_t \<Rightarrow> byte" where
  "cmd_byte c = (case c of FWD \<Rightarrow> 0 | CONN \<Rightarrow> 1 | PRX \<Rightarrow> 2 | ERR_CONN \<Rightarrow> 3 | EOS_cmd \<Rightarrow> 4)"

definition PROXY_CLIENT_PORT :: int where
  "PROXY_CLIENT_PORT = 13000"

definition PROXY_CLIENT_PORT_UCX :: int where
  "PROXY_CLIENT_PORT_UCX = 13001"

definition PROXY_PORT :: int where
  "PROXY_PORT = 8002"

text \<open>\<open>memcpy\<close> of an identifier: eight bytes in the order of a little-endian host.\<close>

definition proxy_message :: "cmd_t \<Rightarrow> u64 \<Rightarrow> byte list \<Rightarrow> byte list" where
  "proxy_message c identifier payload = cmd_byte c # le_bytes identifier @ payload"

text \<open>\<open>std::string(buff, sz)\<close>.\<close>

definition string_of_bytes :: "byte list \<Rightarrow> string" where
  "string_of_bytes bs = map (\<lambda>b. char_of (unat b)) bs"

section \<open>Tables\<close>

definition toHeap :: "huser \<Rightarrow> ('n, 'x) pworld \<Rightarrow> nat \<times> ('n, 'x) pworld" where
  "toHeap u w = (length (px_users w), w\<lparr>px_users := px_users w @ [u]\<rparr>)"

text \<open>\<open>proxies[p]\<close> and \<open>connid2proxy[c]\<close>.\<close>

definition proxy_of_pool :: "string \<Rightarrow> ('n, 'x) pworld \<Rightarrow> nat option \<times> ('n, 'x) pworld" where
  "proxy_of_pool p w =
     (let m = smap_emplace p None (proxies w)
      in (case smap_get m p of Some x \<Rightarrow> x | None \<Rightarrow> None, w\<lparr>proxies := m\<rparr>))"

definition proxy_of_conn :: "u64 \<Rightarrow> ('n, 'x) pworld \<Rightarrow> nat option \<times> ('n, 'x) pworld" where
  "proxy_of_conn c w =
     (let m = smap_emplace c None (connid2proxy w)
      in (case smap_get m c of Some x \<Rightarrow> x | None \<Rightarrow> None, w\<lparr>connid2proxy := m\<rparr>))"

text \<open>\<open>p->send(bs)\<close> for a pointer to a user handle.\<close>

definition send_to_proxy ::
  "('n, 'x) penv \<Rightarrow> nat option \<Rightarrow> byte list \<Rightarrow> ('n, 'x) pworld \<Rightarrow> ('n, 'x) pworld out" where
  "send_to_proxy e p bs w =
     deref p (\<lambda>i.
     if i < length (px_users w) then
       bnd (huser_send (mgr_comm e) (px_users w ! i) bs w) (\<lambda>(r, u, w).
       Ret (w\<lparr>px_users := (px_users w)[i := u]\<rparr>))
     else Fault Use_after_free)"

text \<open>\<open>id2handle[k]\<close>: an unknown key inserts \<open>HandleUser()\<close>; the changed object is stored.\<close>

definition user_of_id :: "nat \<Rightarrow> ('n, 'x) pworld \<Rightarrow> huser" where
  "user_of_id k w = (case smap_get (id2handle w) k of Some u \<Rightarrow> u | None \<Rightarrow> huser_null)"

definition put_user :: "nat \<Rightarrow> huser \<Rightarrow> ('n, 'x) pworld \<Rightarrow> ('n, 'x) pworld" where
  "put_user k u w = w\<lparr>id2handle := smap_put k u (id2handle w)\<rparr>"

definition send_to_id ::
  "('n, 'x) penv \<Rightarrow> nat \<Rightarrow> byte list \<Rightarrow> ('n, 'x) pworld \<Rightarrow> ('n, 'x) pworld out" where
  "send_to_id e k bs w =
     bnd (huser_send (mgr_comm e) (user_of_id k w) bs w) (\<lambda>(r, u, w). Ret (put_user k u w))"

text \<open>\<open>id2handle.erase(k)\<close> destroys the user handle, \<open>id2handle.emplace(k, std::move(u))\<close> too when the
  key is taken.\<close>

definition erase_id :: "('n, 'x) penv \<Rightarrow> nat \<Rightarrow> ('n, 'x) pworld \<Rightarrow> ('n, 'x) pworld out" where
  "erase_id e k w =
     (case smap_get (id2handle w) k of
        None \<Rightarrow> Ret w
      | Some u \<Rightarrow> huser_destroy (mgr_comm e) u (w\<lparr>id2handle := smap_erase k (id2handle w)\<rparr>))"

definition emplace_id ::
  "('n, 'x) penv \<Rightarrow> nat \<Rightarrow> huser \<Rightarrow> ('n, 'x) pworld \<Rightarrow> ('n, 'x) pworld out" where
  "emplace_id e k u w =
     (case smap_get (id2handle w) k of
        None \<Rightarrow> Ret (put_user k u w)
      | Some _ \<Rightarrow> huser_destroy (mgr_comm e) u w)"

section \<open>Messages of other proxies\<close>

text \<open>\<open>probe(sz)\<close>, then \<open>receive(buff, sz)\<close> into a buffer of \<open>sz\<close> bytes.\<close>

definition proxy_read ::
  "('n, 'x) penv \<Rightarrow> px_env \<Rightarrow> huser \<Rightarrow> ('n, 'x) pworld \<Rightarrow> (byte list \<times> huser \<times> ('n, 'x) pworld) out" where
  "proxy_read e X u w =
     bnd (huser_probe (mgr_comm e) u (px_sz X) True w) (\<lambda>(r, sz, u, w).
     bnd (huser_receive (mgr_comm e) u sz w) (\<lambda>(r, bs, u, w).
     Ret (take (unat sz) (bs @ replicate (unat sz) (px_fill X)), u, w)))"

text \<open>A new proxy: its pool is named in the payload. The handle is kept, and not yielded.\<close>

definition proxy_accept_peer ::
  "('n, 'x) penv \<Rightarrow> px_env \<Rightarrow> huser \<Rightarrow> ('n, 'x) pworld \<Rightarrow> ('n, 'x) pworld out" where
  "proxy_accept_peer e X u w =
     bnd (proxy_read e X u w) (\<lambda>(buff, u, w).
     bnd (if buff = [] \<or> hd buff \<noteq> cmd_byte PRX then Ret []
          else if length buff < 9 then Fault Out_of_bounds else Ret (c_string (drop 9 buff))) (\<lambda>name.
     let (p, w) = toHeap u w in Ret (w\<lparr>proxies := smap_put name (Some p) (proxies w)\<rparr>)))"

definition proxy_eos :: "('n, 'x) penv \<Rightarrow> u64 \<Rightarrow> ('n, 'x) pworld \<Rightarrow> ('n, 'x) pworld out" where
  "proxy_eos e identifier w =
     (if has_value identifier (loc2connID w) then
        bnd (get_key identifier (loc2connID w)) (\<lambda>k.
        case smap_get (id2handle w) k of
          None \<Rightarrow> Fault Out_of_range
        | Some u \<Rightarrow>
            bnd (huser_close (mgr_comm e) u w) (\<lambda>w.
            bnd (huser_isClosed u w) (\<lambda>closed.
            if closed = (True, True) then
              bnd (erase_id e k w) (\<lambda>w.
              bnd (erase_key k (loc2connID w)) (\<lambda>m. Ret (w\<lparr>loc2connID := m\<rparr>)))
            else Ret w)))
      else Ret w)"

definition proxy_fwd ::
  "('n, 'x) penv \<Rightarrow> u64 \<Rightarrow> byte list \<Rightarrow> ('n, 'x) pworld \<Rightarrow> ('n, 'x) pworld out" where
  "proxy_fwd e identifier payload w =
     (if has_value identifier (loc2connID w)
      then bnd (get_key identifier (loc2connID w)) (\<lambda>k. send_to_id e k payload w)
      else Ret w)"

text \<open>The loop over the endpoints of a component.\<close>

fun proxy_connect ::
  "('n, 'x) penv \<Rightarrow> string \<Rightarrow> string list \<Rightarrow> ('n, 'x) pworld \<Rightarrow> (huser option \<times> ('n, 'x) pworld) out" where
  "proxy_connect e protocol [] w = Ret (None, w)"
| "proxy_connect e protocol (le # les) w =
     (if contains protocol le then
        bnd (mgr_connect e le (-1) 0 w) (\<lambda>(u, w).
        if huser_isValid u then Ret (Some u, w) else proxy_connect e protocol les w)
      else proxy_connect e protocol les w)"

definition proxy_conn ::
  "('n, 'x) penv \<Rightarrow> u64 \<Rightarrow> byte list \<Rightarrow> ('n, 'x) pworld \<Rightarrow> ('n, 'x) pworld out" where
  "proxy_conn e identifier payload w =
     (let connectionString = string_of_bytes payload
      in case smap_get (components (px_cfg w)) (after_colon connectionString) of
           None \<Rightarrow> Ret w
         | Some (_, _, les) \<Rightarrow>
             bnd (proxy_connect e (before_colon connectionString) les w) (\<lambda>(r, w).
             case r of
               None \<Rightarrow> Ret w
             | Some u \<Rightarrow>
                 bnd (huser_yield (mgr_comm e) u
                   (w\<lparr>loc2connID := bimap_insert (huser_getID u) identifier (loc2connID w)\<rparr>)) (\<lambda>(u, w).
                 emplace_id e (huser_getID u) u w)))"

definition proxy_from_peer ::
  "('n, 'x) penv \<Rightarrow> px_env \<Rightarrow> huser \<Rightarrow> ('n, 'x) pworld \<Rightarrow> ('n, 'x) pworld out" where
  "proxy_from_peer e X u w =
     bnd (proxy_read e X u w) (\<lambda>(buff, u, w).
     if length buff < 9 then Fault Out_of_bounds
     else
       let cmd = hd buff; identifier = of_le_bytes (take 8 (drop 1 buff)); payload = drop 9 buff
       in bnd (if cmd = cmd_byte EOS_cmd then proxy_eos e identifier w
               else if cmd = cmd_byte FWD then proxy_fwd e identifier payload w
               else if cmd = cmd_byte CONN then proxy_conn e identifier payload w
               else Ret w) (\<lambda>w.
          huser_destroy (mgr_comm e) u w))"

section \<open>Messages of processes\<close>

text \<open>
  A new process names its destination. A host without a colon is taken whole for the name of a pool.
\<close>

definition proxy_same_pool ::
  "('n, 'x) penv \<Rightarrow> string \<Rightarrow> string list \<Rightarrow> huser \<Rightarrow> ('n, 'x) pworld \<Rightarrow> (bool \<times> ('n, 'x) pworld) out" where
  "proxy_same_pool e protocol les u w =
     (if protocol = [] then Ret (True, w)
      else
        bnd (proxy_connect e protocol les w) (\<lambda>(r, w).
        case r of
          None \<Rightarrow> bnd (huser_close (mgr_comm e) u w) (\<lambda>w. Ret (False, w))
        | Some v \<Rightarrow>
            let m = smap_emplace (huser_getID u) (huser_getID v) (proc2proc w);
                m = smap_emplace (huser_getID v) (huser_getID u) m
            in bnd (huser_yield (mgr_comm e) v (w\<lparr>proc2proc := m\<rparr>)) (\<lambda>(v, w).
               bnd (emplace_id e (huser_getID v) v w) (\<lambda>w. Ret (True, w)))))"

definition proxy_other_pool ::
  "('n, 'x) penv \<Rightarrow> px_env \<Rightarrow> string \<Rightarrow> string \<Rightarrow> huser \<Rightarrow> ('n, 'x) pworld \<Rightarrow> ('n, 'x) pworld out" where
  "proxy_other_pool e X connectString dest u w =
     (let identifier = px_hash X (connectString @ px_pool X @ to_string (int (huser_getID u)));
          (p, w) = proxy_of_pool dest w
      in bnd (send_to_proxy e p (proxy_message CONN identifier (bytes_of_string connectString)) w) (\<lambda>w.
         let w = w\<lparr>loc2connID := bimap_insert (huser_getID u) identifier (loc2connID w)\<rparr>;
             (p, w) = proxy_of_pool dest w
         in Ret (w\<lparr>connid2proxy := smap_emplace identifier p (connid2proxy w)\<rparr>)))"

definition proxy_new_process ::
  "('n, 'x) penv \<Rightarrow> px_env \<Rightarrow> huser \<Rightarrow> ('n, 'x) pworld \<Rightarrow> ('n, 'x) pworld out" where
  "proxy_new_process e X u w =
     bnd (proxy_read e X u w) (\<lambda>(buff, u, w).
     let connectString = string_of_bytes buff
     in case smap_get (components (px_cfg w)) (after_colon connectString) of
          None \<Rightarrow> huser_destroy (mgr_comm e) u w
        | Some (hostname, _, les) \<Rightarrow>
            let dest = before_colon hostname
            in bnd (if dest = [] \<or> dest = px_pool X
                    then proxy_same_pool e (before_colon connectString) les u w
                    else bnd (proxy_other_pool e X connectString dest u w) (\<lambda>w. Ret (True, w))) (\<lambda>(ok, w).
               if ok then
                 bnd (huser_yield (mgr_comm e) u w) (\<lambda>(u, w). emplace_id e (huser_getID u) u w)
               else huser_destroy (mgr_comm e) u w))"

text \<open>The end of the stream of a process.\<close>

definition proxy_process_eos ::
  "('n, 'x) penv \<Rightarrow> huser \<Rightarrow> ('n, 'x) pworld \<Rightarrow> ('n, 'x) pworld out" where
  "proxy_process_eos e u w =
     (let connId = huser_getID u
      in bnd (if has_key connId (loc2connID w) then
                bnd (get_value connId (loc2connID w)) (\<lambda>c.
                let (p, w) = proxy_of_conn c w
                in bnd (send_to_proxy e p (proxy_message EOS_cmd c []) w) (\<lambda>w.
                bnd (huser_isClosed u w) (\<lambda>closed.
                if closed = (True, True) then
                  bnd (erase_key connId (loc2connID w)) (\<lambda>m.
                  erase_id e connId (w\<lparr>loc2connID := m, connid2proxy := smap_erase c (connid2proxy w)\<rparr>))
                else Ret w)))
              else Ret w) (\<lambda>w.
         case smap_get (proc2proc w) connId of
           None \<Rightarrow> Ret w
         | Some d \<Rightarrow>
             let v = user_of_id d w
             in bnd (huser_close (mgr_comm e) v (put_user d v w)) (\<lambda>w.
                bnd (huser_isClosed v w) (\<lambda>closed.
                if closed = (True, True)
                then erase_id e d (w\<lparr>proc2proc := smap_erase d (proc2proc w)\<rparr>)
                else Ret w))))"

definition proxy_from_process ::
  "('n, 'x) penv \<Rightarrow> px_env \<Rightarrow> huser \<Rightarrow> ('n, 'x) pworld \<Rightarrow> ('n, 'x) pworld out" where
  "proxy_from_process e X u w =
     (let connId = huser_getID u
      in bnd (huser_probe (mgr_comm e) u (px_sz X) True w) (\<lambda>(r, sz, u, w).
         bnd (if sz = 0 then bnd (proxy_process_eos e u w) (\<lambda>w. Ret (u, w))
              else
                bnd (huser_receive (mgr_comm e) u sz w) (\<lambda>(r, bs, u, w).
                let payload = take (unat sz) (bs @ replicate (unat sz) (px_fill X))
                in bnd (if has_key connId (loc2connID w) then
                          bnd (get_value connId (loc2connID w)) (\<lambda>c.
                          let (p, w) = proxy_of_conn c w
                          in send_to_proxy e p (proxy_message FWD c payload) w)
                        else
                          (case smap_get (proc2proc w) connId of
                             Some d \<Rightarrow> send_to_id e d payload w
                           | None \<Rightarrow> Ret w)) (\<lambda>w. Ret (u, w)))) (\<lambda>(u, w).
         huser_destroy (mgr_comm e) u w)))"

section \<open>The loop and the start\<close>

definition proxy_step ::
  "('n, 'x) penv \<Rightarrow> px_env \<Rightarrow> huser \<Rightarrow> ('n, 'x) pworld \<Rightarrow> ('n, 'x) pworld out" where
  "proxy_step e X u w =
     bnd (getTypeOfHandle u w) (\<lambda>t.
     if t = ''P'' then
       (if huser_isNewConnection u then proxy_accept_peer e X u w else proxy_from_peer e X u w)
     else
       (if huser_isNewConnection u then proxy_new_process e X u w else proxy_from_process e X u w))"

text \<open>\<open>getNext\<close> with a timeout that is never reached: rounds of the IO thread until a handle is ready.\<close>

definition proxy_iterate :: "('n, 'x) penv \<Rightarrow> px_env \<Rightarrow> ('n, 'x) pworld \<Rightarrow> ('n, 'x) pworld out" where
  "proxy_iterate e X w =
     (if handleReady w = [] then backend_round e w
      else let (u, w) = getNext w in proxy_step e X u w)"

text \<open>\<open>Manager::init\<close> without \<open>ENABLE_CONFIGFILE\<close>.\<close>

definition mgr_init_plain ::
  "('n, 'x) env \<Rightarrow> string option \<Rightarrow> string \<Rightarrow> ('n, 'x) mworld \<Rightarrow> (int \<times> ('n, 'x) mworld) out" where
  "mgr_init_plain e level app w =
     (let w = w\<lparr>mtcl_verbose := verbose_level level (mtcl_verbose w), appName := app\<rparr>;
          w = registerType ''SHM'' (registerType ''TCP'' w)
      in bnd (init_protocols e app (protocols w) (w\<lparr>stopped := False\<rparr>)) (\<lambda>w.
         Ret (0, w\<lparr>initialized := True\<rparr>)))"

definition proxy_parseConfig :: "json option \<Rightarrow> config \<Rightarrow> config out" where
  "proxy_parseConfig doc c =
     (case doc of
        None \<Rightarrow> Ret c
      | Some (JObject ms) \<Rightarrow> bnd (parseConfig doc c) (\<lambda>(r, c). Ret c)
      | Some _ \<Rightarrow> Fault Aborted)"

text \<open>The connections to the proxies of a pool, and of all pools with a greater name.\<close>

fun proxy_join_pool ::
  "('n, 'x) penv \<Rightarrow> px_env \<Rightarrow> string \<Rightarrow> string list \<Rightarrow> ('n, 'x) pworld \<Rightarrow> ('n, 'x) pworld out" where
  "proxy_join_pool e X name [] w = Ret w"
| "proxy_join_pool e X name (addr # addrs) w =
     bnd (mgr_connect e (''P:'' @ addr @ (if colon \<in> set addr then [] else colon # to_string PROXY_PORT)) (-1) 0 w)
       (\<lambda>(u, w).
     if huser_isValid u then
       bnd (huser_send (mgr_comm e) u (proxy_message PRX 0 (bytes_of_string (px_pool X))) w) (\<lambda>(r, u, w).
       bnd (huser_yield (mgr_comm e) u w) (\<lambda>(u, w).
       let (p, w) = toHeap u w
       in proxy_join_pool e X name addrs (w\<lparr>proxies := smap_put name (Some p) (proxies w)\<rparr>)))
     else proxy_join_pool e X name addrs w)"

fun proxy_join ::
  "('n, 'x) penv \<Rightarrow> px_env \<Rightarrow> (string, pool) smap \<Rightarrow> ('n, 'x) pworld \<Rightarrow> ('n, 'x) pworld out" where
  "proxy_join e X [] w = Ret w"
| "proxy_join e X ((name, addrs, nodes) # ps) w =
     (if px_pool X < name then bnd (proxy_join_pool e X name addrs w) (proxy_join e X ps)
      else proxy_join e X ps w)"

definition proxy_endpoints :: "string \<Rightarrow> string list" where
  "proxy_endpoints pool =
     [''TCP:0.0.0.0:'' @ to_string PROXY_CLIENT_PORT, ''MQTT:PROXY-'' @ pool, ''MPIP2P:PROXY-'' @ pool,
      ''UCX:0.0.0.0:'' @ to_string PROXY_CLIENT_PORT_UCX, ''P:0.0.0.0:'' @ to_string PROXY_PORT]"

text \<open>\<open>main\<close> up to its loop.\<close>

definition proxy_start ::
  "('n, 'x) penv \<Rightarrow> px_env \<Rightarrow> string option \<Rightarrow> json option \<Rightarrow> ('n, 'x) pworld \<Rightarrow> ('n, 'x) pworld out" where
  "proxy_start e X level doc w =
     bnd (mgr_init_plain e level ''PROXY'' (registerType ''P'' w)) (\<lambda>(r, w).
     bnd (proxy_parseConfig doc (px_cfg w)) (\<lambda>c.
     bnd (listen_all e (proxy_endpoints (px_pool X)) (w\<lparr>px_cfg := c\<rparr>)) (\<lambda>w.
     if smap_get (pools c) (px_pool X) = None then Fault Aborted
     else proxy_join e X (pools c) w)))"

end
