(* ===== verification/CollProps.thy ===== *)
theory CollProps
  imports CollectiveContext
begin

text \<open>
  What the generic collectives do with the participants' handles.
  \<^item> \<open>sends_to\<close> and \<open>delivers\<close> say what is relied on: a \<open>send\<close> appends the encoded message to the
    outgoing data of that handle only, a \<open>probe\<close> followed by a \<open>receive\<close> takes the next message of
    that handle only. They are shown for TCP from the contracts of stream sockets elsewhere.
  \<^item> Lemmas: a broadcast reaches every participant once; a fan-out goes round the participants; a
    gather puts every block at the place of its rank; and where the classes use a handle that has
    been deleted.
\<close>

definition sends_to ::
  "('n, 'x) world_scheme vtable \<Rightarrow> ('n \<Rightarrow> bool) \<Rightarrow> (byte list \<Rightarrow> 'e list) \<Rightarrow> ('n \<Rightarrow> hid \<Rightarrow> 'e list)
     \<Rightarrow> hid set \<Rightarrow> bool" where
  "sends_to V I enc outbox P \<longleftrightarrow>
     (\<forall>h \<in> P. \<forall>bs w. I (net w) \<and> heap w h \<noteq> None \<and> length bs < 2 ^ 31 \<longrightarrow>
        (\<exists>w'. vt_send V h bs w = Ret (int (length bs), w') \<and> heap w' = heap w \<and> I (net w')
           \<and> (\<forall>k \<in> P. outbox (net w') k =
                (if k = h then outbox (net w) k @ enc bs else outbox (net w) k))))"

definition delivers ::
  "('n, 'x) world_scheme vtable \<Rightarrow> ('n \<Rightarrow> bool) \<Rightarrow> ('n \<Rightarrow> hid \<Rightarrow> byte list list \<Rightarrow> bool)
     \<Rightarrow> hid set \<Rightarrow> bool" where
  "delivers V I inbox P \<longleftrightarrow>
     (\<forall>h \<in> P. \<forall>w m ms sz. I (net w) \<and> heap w h \<noteq> None \<and> inbox (net w) h (m # ms) \<and> m \<noteq> []
        \<and> length m < 2 ^ 31 \<longrightarrow>
        (\<exists>w1. vt_probe V h True sz w = Ret (8, of_nat (length m), w1) \<and> heap w1 = heap w \<and>
           (\<forall>ob. \<exists>w2. vt_receive V h (of_nat (length m)) (put_obj h ob w1) = Ret (int (length m), m, w2)
              \<and> heap w2 = (heap w)(h \<mapsto> ob) \<and> I (net w2) \<and> inbox (net w2) h ms
              \<and> (\<forall>k \<in> P. \<forall>ns. k \<noteq> h \<and> inbox (net w) k ns \<longrightarrow> inbox (net w2) k ns))))"

lemma sends_toD:
  assumes "sends_to V I enc outbox P" and "h \<in> P" and "I (net w)" and "heap w h \<noteq> None"
    and "length bs < 2 ^ 31"
  obtains w' where "vt_send V h bs w = Ret (int (length bs), w')" and "heap w' = heap w" and "I (net w')"
    and "\<forall>k \<in> P. outbox (net w') k = (if k = h then outbox (net w) k @ enc bs else outbox (net w) k)"
  using assms unfolding sends_to_def by meson

section \<open>Broadcast\<close>

lemma send_all_reaches:
  assumes "sends_to V I enc outbox P" and "length bs < 2 ^ 31"
  shows "set hs \<subseteq> P \<Longrightarrow> distinct hs \<Longrightarrow> I (net w) \<Longrightarrow> \<forall>h \<in> set hs. heap w h \<noteq> None \<Longrightarrow>
    \<exists>w'. send_all V hs bs w = Ret (None, w') \<and> heap w' = heap w \<and> I (net w')
      \<and> (\<forall>k \<in> P. outbox (net w') k =
           (if k \<in> set hs then outbox (net w) k @ enc bs else outbox (net w) k))"
proof (induction hs arbitrary: w)
  case (Cons h hs)
  from sends_toD [OF assms(1) _ Cons.prems(3) _ assms(2), of h] Cons.prems obtain w1 where
    s1: "vt_send V h bs w = Ret (int (length bs), w1)" "heap w1 = heap w" "I (net w1)"
    and o1: "\<forall>k \<in> P. outbox (net w1) k = (if k = h then outbox (net w) k @ enc bs else outbox (net w) k)"
    by auto
  from Cons.IH [of w1] Cons.prems s1 obtain w2 where
    s2: "send_all V hs bs w1 = Ret (None, w2)" "heap w2 = heap w1" "I (net w2)"
    and o2: "\<forall>k \<in> P. outbox (net w2) k =
      (if k \<in> set hs then outbox (net w1) k @ enc bs else outbox (net w1) k)" by auto
  have "\<forall>k \<in> P. outbox (net w2) k =
      (if k \<in> set (h # hs) then outbox (net w) k @ enc bs else outbox (net w) k)"
    using o1 o2 Cons.prems(2) by auto
  with s1 s2 show ?case by auto
qed auto

text \<open>C24: A broadcast by the root of a team sends the message to every other member exactly once.\<close>

theorem broadcast_reaches_all:
  assumes "sends_to V I enc outbox P" and "length bs < 2 ^ 31" and "set ps \<subseteq> P" and "distinct ps"
    and "I (net w)" and "\<forall>h \<in> set ps. heap w h \<noteq> None"
  shows "\<exists>w'. coll_sendrecv junk4 V (BroadcastGeneric ps True) bs recvbuff n w =
      Ret (int (length bs), recvbuff, BroadcastGeneric ps True, w')
    \<and> (\<forall>k \<in> P. outbox (net w') k =
         (if k \<in> set ps then outbox (net w) k @ enc bs else outbox (net w) k))"
proof -
  from send_all_reaches [OF assms(1-6)] obtain w' where
    "send_all V ps bs w = Ret (None, w')"
    "\<forall>k \<in> P. outbox (net w') k = (if k \<in> set ps then outbox (net w) k @ enc bs else outbox (net w) k)"
    by blast
  moreover have "ssize_of (of_nat (length bs)) = int (length bs)"
    using assms(2) by (intro ssize_of_nat) simp
  ultimately show ?thesis by (simp add: coll_sendrecv_def broadcast_send_def)
qed

section \<open>Fan-out\<close>

fun fanout_sends ::
  "('n, 'x) world_scheme vtable \<Rightarrow> coll \<Rightarrow> byte list list \<Rightarrow> ('n, 'x) world_scheme
     \<Rightarrow> (coll \<times> ('n, 'x) world_scheme) out" where
  "fanout_sends V cl [] w = Ret (cl, w)"
| "fanout_sends V cl (m # ms) w =
     bnd (coll_send V cl m w) (\<lambda>(r, cl, w). fanout_sends V cl ms w)"

text \<open>The messages that go to the participant with index \<open>i\<close> when the first goes to \<open>cur\<close>.\<close>

fun dealt :: "nat \<Rightarrow> nat \<Rightarrow> nat \<Rightarrow> byte list list \<Rightarrow> byte list list" where
  "dealt n cur i [] = []"
| "dealt n cur i (m # ms) = (if cur = i then [m] else []) @ dealt n ((cur + 1) mod n) i ms"

lemma dealt_nth:
  "cur < n \<Longrightarrow> i < n \<Longrightarrow>
   dealt n cur i ms = map fst (filter (\<lambda>(m, j). (cur + j) mod n = i) (zip ms [0..<length ms]))"
proof (induction ms arbitrary: cur)
  case (Cons m ms)
  have "(Suc cur) mod n < n" using Cons.prems by simp
  from Cons.IH [OF this Cons.prems(2)]
  have IH: "dealt n (Suc cur mod n) i ms =
      map fst (filter (\<lambda>(m, j). (Suc cur mod n + j) mod n = i) (zip ms [0..<length ms]))" .
  have shift: "zip ms [Suc 0..<Suc (length ms)] = map (\<lambda>(m, j). (m, Suc j)) (zip ms [0..<length ms])"
    by (simp add: map_Suc_upt [symmetric] zip_map2 del: upt_Suc)
  have "(Suc cur mod n + j) mod n = (cur + Suc j) mod n" for j by (simp add: mod_simps)
  then show ?case
    using Cons.prems IH unfolding length_Cons
    by (simp add: upt_conv_Cons shift filter_map comp_def case_prod_unfold del: upt_Suc)
qed simp

lemma fanout_deals:
  assumes "sends_to V I enc outbox P" and "set ps \<subseteq> P" and "distinct ps" and "ps \<noteq> []"
  shows "\<forall>m \<in> set ms. length m < 2 ^ 31 \<Longrightarrow> cur < length ps \<Longrightarrow> I (net w) \<Longrightarrow>
    \<forall>h \<in> set ps. heap w h \<noteq> None \<Longrightarrow>
    \<exists>w'. fanout_sends V (FanOutGeneric ps True cur) ms w =
        Ret (FanOutGeneric ps True ((cur + length ms) mod length ps), w')
      \<and> (\<forall>i < length ps. outbox (net w') (ps ! i) =
           outbox (net w) (ps ! i) @ concat (map enc (dealt (length ps) cur i ms)))"
proof (induction ms arbitrary: cur w)
  case (Cons m ms)
  let ?h = "ps ! cur"
  have h: "?h \<in> set ps" using Cons.prems(2) by simp
  have "?h \<in> P" "heap w ?h \<noteq> None" "length m < 2 ^ 31" using h assms(2) Cons.prems by auto
  from sends_toD [OF assms(1) this(1) Cons.prems(3) this(2,3)] obtain w1 where
    s1: "vt_send V ?h m w = Ret (int (length m), w1)" "heap w1 = heap w" "I (net w1)"
    and o1: "\<forall>k \<in> P. outbox (net w1) k = (if k = ?h then outbox (net w) k @ enc m else outbox (net w) k)"
    by blast
  let ?cur = "(cur + 1) mod length ps"
  have "?cur < length ps" using assms(4) by simp
  with Cons.IH [of ?cur w1] Cons.prems s1 obtain w2 where
    s2: "fanout_sends V (FanOutGeneric ps True ?cur) ms w1 =
        Ret (FanOutGeneric ps True ((?cur + length ms) mod length ps), w2)"
    and o2: "\<forall>i < length ps. outbox (net w2) (ps ! i) =
           outbox (net w1) (ps ! i) @ concat (map enc (dealt (length ps) ?cur i ms))" by auto
  have "(?cur + length ms) mod length ps = (cur + length (m # ms)) mod length ps"
    by (simp add: mod_simps)
  moreover have "outbox (net w1) (ps ! i) = outbox (net w) (ps ! i) @ (if cur = i then enc m else [])"
    if "i < length ps" for i
  proof -
    have "ps ! i \<in> P" using that assms(2) by auto
    with o1 nth_eq_iff_index_eq [OF assms(3) that Cons.prems(2)] show ?thesis by auto
  qed
  ultimately show ?case
    using s1 s2 o2 Cons.prems(2)
    by (auto simp: coll_send_def fanout_send_def vec_at_def)
qed simp

text \<open>C25: The root of a fan-out sends its messages to the workers in turn: of the messages
  \<open>m\<^sub>0, m\<^sub>1, \<dots>\<close> the worker with index \<open>i\<close> receives those \<open>m\<^sub>j\<close> with \<open>(current + j) mod n = i\<close>, in
  this order, and \<open>current\<close> is left at the worker after the last one.\<close>

theorem fanout_round_robin:
  assumes "sends_to V I enc outbox P" and "set ps \<subseteq> P" and "distinct ps"
    and "\<forall>m \<in> set ms. length m < 2 ^ 31" and "cur < length ps" and "I (net w)"
    and "\<forall>h \<in> set ps. heap w h \<noteq> None"
  shows "\<exists>w'. fanout_sends V (FanOutGeneric ps True cur) ms w =
        Ret (FanOutGeneric ps True ((cur + length ms) mod length ps), w')
      \<and> (\<forall>i < length ps. outbox (net w') (ps ! i) = outbox (net w) (ps ! i) @ concat (map enc
           (map fst (filter (\<lambda>(m, j). (cur + j) mod length ps = i) (zip ms [0..<length ms])))))"
proof -
  have "ps \<noteq> []" using assms(5) by auto
  from fanout_deals [OF assms(1-3) this assms(4-7)] show ?thesis
    using dealt_nth [OF assms(5)] by simp
qed

section \<open>Gather\<close>

lemma bytes_int_roundtrip:
  assumes "0 \<le> r" and "r < 2 ^ 31"
  shows "bytes_int (int_bytes r) = r"
proof -
  have b: "uint (word_of_int x :: byte) = x mod 256" for x
    by (simp add: uint_word_of_int)
  let ?q1 = "r div 256" and ?q2 = "r div 256 div 256" and ?q3 = "r div 256 div 256 div 256"
  have d: "r div 65536 = ?q2" "r div 16777216 = ?q3"
    by (simp_all add: zdiv_zmult2_eq [symmetric])
  have "?q3 mod 256 = ?q3" using assms d(2) by (intro mod_pos_pos_trivial) auto
  moreover have "r = 256 * ?q1 + r mod 256" "?q1 = 256 * ?q2 + ?q1 mod 256" "?q2 = 256 * ?q3 + ?q2 mod 256"
    by simp_all
  ultimately have "r mod 256 + ?q1 mod 256 * 256 + ?q2 mod 256 * 65536 + ?q3 mod 256 * 16777216 = r"
    by linarith
  moreover have "(\<Sum>k<4. uint (int_bytes r ! k) * 256 ^ k) =
      r mod 256 + r div 256 mod 256 * 256 + r div 65536 mod 256 * 65536 + r div 16777216 mod 256 * 16777216"
    by (simp add: int_bytes_def b numeral_eq_Suc lessThan_Suc)
  ultimately have "(\<Sum>k<4. uint (int_bytes r ! k) * 256 ^ k) = r" unfolding d by linarith
  with assms show ?thesis by (simp add: bytes_int_def signed_take_bit_int_eq_self)
qed

lemma int_bytes_length [simp]: "length (int_bytes r) = 4"
  by (simp add: int_bytes_def)

text \<open>An open handle with no pending header.\<close>

definition open_handle :: "('n, 'x) world_scheme \<Rightarrow> hid \<Rightarrow> bool" where
  "open_handle w h \<longleftrightarrow> (\<exists>ob. heap w h = Some ob \<and> \<not> closed_rd ob \<and> probed ob = (False, 0))"

lemma receive_next:
  assumes "delivers V I inbox P" and "h \<in> P" and "I (net w)" and "open_handle w h"
    and "inbox (net w) h (m # ms)" and "m \<noteq> []" and "length m < 2 ^ 31" and "of_nat (length m) \<le> room"
  shows "\<exists>w'. receiveFromHandle V h room w = Ret (int (length m), m, w') \<and> heap w' = heap w
    \<and> I (net w') \<and> inbox (net w') h ms
    \<and> (\<forall>k \<in> P. \<forall>ns. k \<noteq> h \<and> inbox (net w) k ns \<longrightarrow> inbox (net w') k ns)"
proof -
  from assms(4) obtain ob where ob: "heap w h = Some ob" "\<not> closed_rd ob" "probed ob = (False, 0)"
    by (auto simp: open_handle_def)
  from assms(1-3,5-7) ob(1) obtain w1 where
    p: "vt_probe V h True 0 w = Ret (8, of_nat (length m), w1)" and h1: "heap w1 = heap w"
    and recv: "\<forall>ob. \<exists>w2. vt_receive V h (of_nat (length m)) (put_obj h ob w1) = Ret (int (length m), m, w2)
      \<and> heap w2 = (heap w)(h \<mapsto> ob) \<and> I (net w2) \<and> inbox (net w2) h ms
      \<and> (\<forall>k \<in> P. \<forall>ns. k \<noteq> h \<and> inbox (net w) k ns \<longrightarrow> inbox (net w2) k ns)"
    unfolding delivers_def by (metis option.distinct(1))
  have same: "ob\<lparr>probed := (False, 0)\<rparr> = ob" using ob(3) by (cases ob) simp
  from spec [OF recv, of ob] obtain w2 where
    r2: "vt_receive V h (of_nat (length m)) (put_obj h ob w1) = Ret (int (length m), m, w2)"
    "heap w2 = heap w" "I (net w2)" "inbox (net w2) h ms"
    "\<forall>k \<in> P. \<forall>ns. k \<noteq> h \<and> inbox (net w) k ns \<longrightarrow> inbox (net w2) k ns"
    using ob(1) by (auto simp: fun_upd_idem)
  have "length m < 2 ^ 64" using assms(7) by simp
  then have "(of_nat (length m) :: u64) \<noteq> 0" using assms(6) of_nat_u64_eq_0 by auto
  moreover have "\<not> room < of_nat (length m)" using assms(8) by simp
  ultimately have "receiveFromHandle V h room w = Ret (int (length m), m, w2)"
    using p h1 ob r2(1) assms(8)
    by (simp add: same receiveFromHandle_def probeHandle_def obj_Some upd_obj_Some Let_def min_def)
  with r2 show ?thesis by blast
qed

lemma write_at_ok:
  "p + length bs \<le> length buf \<Longrightarrow>
   write_at p bs buf = Ret (take p buf @ bs @ drop (p + length bs) buf)"
  by (simp add: write_at_def)

lemma written_nth:
  assumes "p + length bs \<le> length buf" and "j < length buf"
  shows "(take p buf @ bs @ drop (p + length bs) buf) ! j =
    (if p \<le> j \<and> j < p + length bs then bs ! (j - p) else buf ! j)"
  using assms by (auto simp: nth_append min_def)

text \<open>The buffer after the root has received the blocks \<open>blk h\<close> of the ranks \<open>rk h\<close>.\<close>

definition gathered :: "nat \<Rightarrow> hid list \<Rightarrow> (hid \<Rightarrow> nat) \<Rightarrow> (hid \<Rightarrow> byte list) \<Rightarrow> byte list \<Rightarrow> byte list \<Rightarrow> bool"
where
  "gathered sz hs rk blk buf buf' \<longleftrightarrow> length buf' = length buf
     \<and> (\<forall>h \<in> set hs. \<forall>i < length (blk h). buf' ! (rk h * sz + i) = blk h ! i)
     \<and> (\<forall>j < length buf. (\<forall>h \<in> set hs. \<not> (rk h * sz \<le> j \<and> j < rk h * sz + length (blk h))) \<longrightarrow>
          buf' ! j = buf ! j)"

lemma block_apart:
  fixes a b i k sz :: nat
  assumes "a \<noteq> b" and "i < sz" and "k < sz"
  shows "a * sz + i \<noteq> b * sz + k"
proof
  assume e: "a * sz + i = b * sz + k"
  have "(a * sz + i) div sz = a" "(b * sz + k) div sz = b" using assms(2,3) by simp_all
  with e assms(1) show False by simp
qed

lemma gathered_step:
  assumes "gathered sz hs rk blk (take (rk h * sz) buf @ blk h @ drop (rk h * sz + length (blk h)) buf) buf'"
    and "h \<notin> set hs" and "inj_on rk (insert h (set hs))"
    and "\<forall>k \<in> insert h (set hs). length (blk k) \<le> sz \<and> (rk k + 1) * sz \<le> length buf"
  shows "gathered sz (h # hs) rk blk buf buf'"
proof -
  let ?b = "take (rk h * sz) buf @ blk h @ drop (rk h * sz + length (blk h)) buf"
  have fits: "rk h * sz + length (blk h) \<le> length buf" "length (blk h) \<le> sz"
    using assms(4) by (auto simp: algebra_simps)
  then have len: "length ?b = length buf" by simp
  have nth: "?b ! j = (if rk h * sz \<le> j \<and> j < rk h * sz + length (blk h) then blk h ! (j - rk h * sz) else buf ! j)"
    if "j < length buf" for j by (rule written_nth [OF fits(1) that])
  have apart: "\<not> (rk k * sz \<le> rk h * sz + i \<and> rk h * sz + i < rk k * sz + length (blk k))"
    if "k \<in> set hs" "i < length (blk h)" for k i
  proof
    assume j: "rk k * sz \<le> rk h * sz + i \<and> rk h * sz + i < rk k * sz + length (blk k)"
    then obtain l where l: "rk h * sz + i = rk k * sz + l" "l < length (blk k)"
      by (metis add_less_cancel_left le_Suc_ex)
    have "rk h \<noteq> rk k" using assms(2,3) that(1) by (auto dest: inj_onD)
    moreover have "i < sz" "l < sz" using that fits(2) l(2) assms(4) by force+
    ultimately show False using block_apart l(1) by blast
  qed
  show ?thesis
    unfolding gathered_def
  proof (intro conjI ballI allI impI)
    show "length buf' = length buf" using assms(1) len by (simp add: gathered_def)
  next
    fix k i assume k: "k \<in> set (h # hs)" "i < length (blk k)"
    show "buf' ! (rk k * sz + i) = blk k ! i"
    proof (cases "k = h")
      case True
      with k fits have "rk h * sz + i < length ?b" using len by simp
      with assms(1) apart True k(2) have "buf' ! (rk h * sz + i) = ?b ! (rk h * sz + i)"
        unfolding gathered_def by blast
      with nth [of "rk h * sz + i"] True k(2) fits show ?thesis by simp
    next
      case False
      with k assms(1) show ?thesis by (simp add: gathered_def)
    qed
  next
    fix j assume j: "j < length buf"
      "\<forall>k \<in> set (h # hs). \<not> (rk k * sz \<le> j \<and> j < rk k * sz + length (blk k))"
    then have "buf' ! j = ?b ! j" using assms(1) len by (simp add: gathered_def)
    with j nth [of j] show "buf' ! j = buf ! j" by auto
  qed
qed

lemma gather_first:
  assumes "delivers V I inbox P" and "unat size1 = sz" and "size1 < 2 ^ 31" and "length junk4 = 4"
    and "h \<in> P" and "I (net w)" and "open_handle w h" and "inbox (net w) h (int_bytes (int r) # blk # rest)"
    and "blk \<noteq> []" and "length blk \<le> sz" and "r < 2 ^ 31"
  shows "\<exists>w'. gather_receive junk4 V (h # hs) buf size1 w =
      bnd (write_at (r * sz) blk buf) (\<lambda>buf. gather_receive junk4 V hs buf size1 w')
    \<and> heap w' = heap w \<and> I (net w') \<and> (\<forall>k \<in> P. \<forall>ns. k \<noteq> h \<and> inbox (net w) k ns \<longrightarrow> inbox (net w') k ns)"
proof -
  have sz31: "sz < 2 ^ 31" using assms(2,3) by (auto simp: word_less_nat_alt)
  have r0: "int_bytes (int r) \<noteq> []" "length (int_bytes (int r)) < 2 ^ 31"
    "of_nat (length (int_bytes (int r))) \<le> sizeof_int"
    by (auto simp: int_bytes_def)
  from receive_next [OF assms(1,5-8) r0] obtain w1 where
    s1: "receiveFromHandle V h sizeof_int w = Ret (4, int_bytes (int r), w1)" "heap w1 = heap w"
      "I (net w1)" "inbox (net w1) h (blk # rest)"
    and k1: "\<forall>k \<in> P. \<forall>ns. k \<noteq> h \<and> inbox (net w) k ns \<longrightarrow> inbox (net w1) k ns" by auto
  have "open_handle w1 h" using assms(7) s1(2) by (simp add: open_handle_def)
  moreover have "length blk < 2 ^ 31" using assms(10) sz31 by simp
  moreover have "of_nat (length blk) \<le> size1"
    using assms(2,10) sz31 by (simp add: word_le_nat_alt unat_of_nat_u64)
  ultimately obtain w2 where
    s2: "receiveFromHandle V h size1 w1 = Ret (int (length blk), blk, w2)" "heap w2 = heap w1" "I (net w2)"
    and k2: "\<forall>k \<in> P. \<forall>ns. k \<noteq> h \<and> inbox (net w1) k ns \<longrightarrow> inbox (net w2) k ns"
    using receive_next [OF assms(1,5) s1(3) _ s1(4) assms(9)] by blast
  have "r * sz < 2 ^ 31 * 2 ^ 31" using assms(11) sz31 by (intro mult_strict_mono) auto
  then have off: "unat (word_of_int (int r) * size1) = r * sz"
    using assms(2,11) by (simp add: unat_mult_lem [THEN iffD1] unat_word_ariths unat_of_nat_u64 unsigned_of_int
        take_bit_int_eq_self)
  have "bytes_int (int_bytes (int r)) = int r" using assms(11) by (intro bytes_int_roundtrip) auto
  with s1 s2 k1 k2 off assms(4,9) show ?thesis by (intro exI [of _ w2]) (auto simp: Let_def)
qed

lemma gather_receives:
  assumes "delivers V I inbox P" and "unat size1 = sz" and "size1 < 2 ^ 31" and "length junk4 = 4"
  shows "set hs \<subseteq> P \<Longrightarrow> distinct hs \<Longrightarrow> I (net w) \<Longrightarrow> \<forall>h \<in> set hs. open_handle w h \<Longrightarrow>
    \<forall>h \<in> set hs. inbox (net w) h (int_bytes (int (rk h)) # blk h # rest h) \<and> blk h \<noteq> []
      \<and> length (blk h) \<le> sz \<and> (rk h + 1) * sz \<le> length buf \<and> rk h < 2 ^ 31 \<Longrightarrow>
    inj_on rk (set hs) \<Longrightarrow>
    \<exists>buf' w'. gather_receive junk4 V hs buf size1 w = Ret (8, buf', w') \<and> heap w' = heap w
      \<and> gathered sz hs rk blk buf buf'"
proof (induction hs arbitrary: w buf)
  case Nil
  then show ?case by (simp add: gathered_def)
next
  case (Cons h hs)
  have h: "h \<in> P" "open_handle w h" "inbox (net w) h (int_bytes (int (rk h)) # blk h # rest h)"
    "blk h \<noteq> []" "length (blk h) \<le> sz" "rk h < 2 ^ 31"
    using Cons.prems by auto
  from gather_first [OF assms h(1) Cons.prems(3) h(2-6)] obtain w2 where
    s: "gather_receive junk4 V (h # hs) buf size1 w =
      bnd (write_at (rk h * sz) (blk h) buf) (\<lambda>buf. gather_receive junk4 V hs buf size1 w2)"
    "heap w2 = heap w" "I (net w2)"
    and k2: "\<forall>k \<in> P. \<forall>ns. k \<noteq> h \<and> inbox (net w) k ns \<longrightarrow> inbox (net w2) k ns" by blast
  let ?b = "take (rk h * sz) buf @ blk h @ drop (rk h * sz + length (blk h)) buf"
  have fits: "rk h * sz + length (blk h) \<le> length buf" using Cons.prems(5) h(5) by (auto simp: algebra_simps)
  then have lenb: "length ?b = length buf" by simp
  have open2: "\<forall>k \<in> set hs. open_handle w2 k" using Cons.prems(4) s(2) by (simp add: open_handle_def)
  have box2: "\<forall>k \<in> set hs. inbox (net w2) k (int_bytes (int (rk k)) # blk k # rest k) \<and> blk k \<noteq> []
      \<and> length (blk k) \<le> sz \<and> (rk k + 1) * sz \<le> length ?b \<and> rk k < 2 ^ 31"
    using Cons.prems k2 unfolding lenb by (metis distinct.simps(2) list.set_intros(2) subsetD)
  from Cons.IH [OF _ _ s(3) open2 box2] Cons.prems obtain buf' w3 where
    s3: "gather_receive junk4 V hs ?b size1 w2 = Ret (8, buf', w3)" "heap w3 = heap w2"
    and g: "gathered sz hs rk blk ?b buf'" by auto
  have "gathered sz (h # hs) rk blk buf buf'"
    using Cons.prems by (intro gathered_step [OF g]) auto
  then show ?case using s s3 fits by (simp add: write_at_ok)
qed

text \<open>A rank whose place is not in the buffer: the block is written behind its end.\<close>

lemma gather_overflows:
  assumes "delivers V I inbox P" and "unat size1 = sz" and "size1 < 2 ^ 31" and "length junk4 = 4"
  shows "set hs \<subseteq> P \<Longrightarrow> distinct hs \<Longrightarrow> I (net w) \<Longrightarrow> \<forall>h \<in> set hs. open_handle w h \<Longrightarrow>
    \<forall>h \<in> set hs. inbox (net w) h (int_bytes (int (rk h)) # blk h # rest h) \<and> blk h \<noteq> []
      \<and> length (blk h) \<le> sz \<and> rk h < 2 ^ 31 \<Longrightarrow>
    k \<in> set hs \<Longrightarrow> length buf < rk k * sz + length (blk k) \<Longrightarrow>
    gather_receive junk4 V hs buf size1 w = Fault Out_of_bounds"
proof (induction hs arbitrary: w buf)
  case (Cons h hs)
  have h: "h \<in> P" "open_handle w h" "inbox (net w) h (int_bytes (int (rk h)) # blk h # rest h)"
    "blk h \<noteq> []" "length (blk h) \<le> sz" "rk h < 2 ^ 31"
    using Cons.prems by auto
  from gather_first [OF assms h(1) Cons.prems(3) h(2-6)] obtain w2 where
    s: "gather_receive junk4 V (h # hs) buf size1 w =
      bnd (write_at (rk h * sz) (blk h) buf) (\<lambda>buf. gather_receive junk4 V hs buf size1 w2)"
    "heap w2 = heap w" "I (net w2)"
    and k2: "\<forall>k \<in> P. \<forall>ns. k \<noteq> h \<and> inbox (net w) k ns \<longrightarrow> inbox (net w2) k ns" by blast
  show ?case
  proof (cases "rk h * sz + length (blk h) \<le> length buf")
    case True
    let ?b = "take (rk h * sz) buf @ blk h @ drop (rk h * sz + length (blk h)) buf"
    have lenb: "length ?b = length buf" using True by simp
    have k: "k \<in> set hs" using Cons.prems(6,7) True by auto
    have open2: "\<forall>k \<in> set hs. open_handle w2 k" using Cons.prems(4) s(2) by (simp add: open_handle_def)
    have box2: "\<forall>k \<in> set hs. inbox (net w2) k (int_bytes (int (rk k)) # blk k # rest k) \<and> blk k \<noteq> []
        \<and> length (blk k) \<le> sz \<and> rk k < 2 ^ 31"
      using Cons.prems k2 by (metis distinct.simps(2) list.set_intros(2) subsetD)
    have sub: "set hs \<subseteq> P" "distinct hs" using Cons.prems(1,2) by simp_all
    have "length ?b < rk k * sz + length (blk k)" unfolding lenb by (rule Cons.prems(7))
    from Cons.IH [OF sub s(3) open2 box2 k this] s(1) True show ?thesis by (simp add: write_at_ok)
  next
    case False
    with s(1) h(4) show ?thesis by (simp add: write_at_def)
  qed
qed simp

lemma take_drop_eqI:
  "p + length bs \<le> length xs \<Longrightarrow> (\<And>i. i < length bs \<Longrightarrow> xs ! (p + i) = bs ! i) \<Longrightarrow>
   take (length bs) (drop p xs) = bs"
  by (intro nth_equalityI) auto

text \<open>C26: A gather by the root of a team fills its buffer by rank: the block of the root and the block
  of every other member stand at the offset of the rank it sent with its block, in whatever order
  the members have connected.\<close>

theorem gather_collects:
  assumes "delivers V I inbox P" and "length junk4 = 4" and "unat size1 = sz" and "size1 < 2 ^ 31"
    and "set ps \<subseteq> P" and "distinct ps" and "I (net w)" and "\<forall>h \<in> set ps. open_handle w h"
    and "\<forall>h \<in> set ps. inbox (net w) h (int_bytes (int (rk h)) # blk h # rest h)
      \<and> blk h \<noteq> [] \<and> length (blk h) \<le> sz \<and> rk h \<le> length ps \<and> rk h \<noteq> rank"
    and "inj_on rk (set ps)" and "rank \<le> length ps" and "length ps < 2 ^ 31"
    and "length sendbuff = sz" and "length recvbuff = (length ps + 1) * sz"
  shows "\<exists>buf' w'. coll_sendrecv junk4 V (GatherGeneric ps True (int rank)) sendbuff recvbuff size1 w =
      Ret (8, buf', GatherGeneric ps True (int rank), w')
    \<and> take sz (drop (rank * sz) buf') = sendbuff
    \<and> (\<forall>h \<in> set ps. take (length (blk h)) (drop (rk h * sz) buf') = blk h)"
proof -
  have sz31: "sz < 2 ^ 31" using assms(3,4) by (auto simp: word_less_nat_alt)
  have blocks: "(r + 1) * sz \<le> length recvbuff" if "r \<le> length ps" for r
    unfolding assms(14) using that by (intro mult_right_mono) auto
  have fits: "rank * sz + length sendbuff \<le> length recvbuff"
    using blocks [OF assms(11)] assms(13) by (simp add: algebra_simps)
  let ?b = "take (rank * sz) recvbuff @ sendbuff @ drop (rank * sz + length sendbuff) recvbuff"
  have lenb: "length ?b = length recvbuff" using fits by simp
  have "rank * sz < 2 ^ 31 * 2 ^ 31" using assms(11,12) sz31 by (intro mult_strict_mono) auto
  then have off: "unat (word_of_int (int rank) * of_nat (length sendbuff) :: u64) = rank * sz"
    using assms(13) by (simp add: unat_of_nat_u64 flip: of_nat_mult)
  have box: "\<forall>h \<in> set ps. inbox (net w) h (int_bytes (int (rk h)) # blk h # rest h) \<and> blk h \<noteq> []
      \<and> length (blk h) \<le> sz \<and> (rk h + 1) * sz \<le> length ?b \<and> rk h < 2 ^ 31"
    using assms(9,12) blocks unfolding lenb by (meson le_less_trans)
  from gather_receives [OF assms(1,3,4,2,5-8) box assms(10)] obtain buf' w' where
    run: "gather_receive junk4 V ps ?b size1 w = Ret (8, buf', w')" and g: "gathered sz ps rk blk ?b buf'"
    by blast
  have len: "length buf' = length recvbuff" using g lenb by (simp add: gathered_def)
  have own: "take sz (drop (rank * sz) buf') = sendbuff"
    unfolding assms(13) [symmetric]
  proof (rule take_drop_eqI)
    show "rank * length sendbuff + length sendbuff \<le> length buf'" using fits len assms(13) by simp
    fix i assume i: "i < length sendbuff"
    then have lt: "rank * sz + i < length recvbuff" using fits by simp
    have "\<not> (rk h * sz \<le> rank * sz + i \<and> rank * sz + i < rk h * sz + length (blk h))"
      if "h \<in> set ps" for h
    proof
      assume "rk h * sz \<le> rank * sz + i \<and> rank * sz + i < rk h * sz + length (blk h)"
      then obtain l where "rank * sz + i = rk h * sz + l" "l < length (blk h)"
        by (metis add_less_cancel_left le_Suc_ex)
      moreover have "l < sz" "i < sz" "rank \<noteq> rk h"
        using calculation(2) assms(9,13) that i by force+
      ultimately show False using block_apart by metis
    qed
    with g lt lenb have "buf' ! (rank * sz + i) = ?b ! (rank * sz + i)"
      unfolding gathered_def by metis
    also have "\<dots> = sendbuff ! i" using written_nth [OF fits lt] i by simp
    finally show "buf' ! (rank * length sendbuff + i) = sendbuff ! i" using assms(13) by simp
  qed
  have others: "take (length (blk h)) (drop (rk h * sz) buf') = blk h" if "h \<in> set ps" for h
  proof (rule take_drop_eqI)
    have "(rk h + 1) * sz \<le> length recvbuff" "length (blk h) \<le> sz" using blocks assms(9) that by auto
    then show "rk h * sz + length (blk h) \<le> length buf'" unfolding len by (simp add: algebra_simps)
    show "buf' ! (rk h * sz + i) = blk h ! i" if "i < length (blk h)" for i
      using g \<open>h \<in> set ps\<close> that by (simp add: gathered_def)
  qed
  have "coll_sendrecv junk4 V (GatherGeneric ps True (int rank)) sendbuff recvbuff size1 w =
      Ret (8, buf', GatherGeneric ps True (int rank), w')"
    using run off fits by (cases "sendbuff = []")
      (auto simp: coll_sendrecv_def gather_sendrecv_def write_at_def)
  with own others show ?thesis by blast
qed

section \<open>A transport of mailboxes\<close>

text \<open>
  A transport on which the theorems are instantiated: every handle has a list of incoming and a list
  of outgoing messages, the empty message being the end of the stream.
\<close>

type_synonym mail = "(hid \<Rightarrow> byte list list) \<times> (hid \<Rightarrow> byte list list)"

definition mail_put :: "hid \<Rightarrow> byte list \<Rightarrow> mail \<Rightarrow> mail" where
  "mail_put h bs n = (fst n, (snd n)(h := snd n h @ [bs]))"

definition mail_probe ::
  "hid \<Rightarrow> bool \<Rightarrow> u64 \<Rightarrow> (mail, 'x) world_scheme \<Rightarrow> (int \<times> u64 \<times> (mail, 'x) world_scheme) out" where
  "mail_probe h blocking sz w =
     bnd (obj h w) (\<lambda>_.
     case fst (net w) h of
       [] \<Rightarrow> Ret (-1, sz, set_errno EWOULDBLOCK w)
     | m # ms \<Rightarrow> Ret (8, of_nat (length m), w))"

definition mail_receive ::
  "hid \<Rightarrow> u64 \<Rightarrow> (mail, 'x) world_scheme \<Rightarrow> (int \<times> byte list \<times> (mail, 'x) world_scheme) out" where
  "mail_receive h n w =
     bnd (obj h w) (\<lambda>_.
     case fst (net w) h of
       [] \<Rightarrow> Ret (-1, [], set_errno EWOULDBLOCK w)
     | m # ms \<Rightarrow> Ret (int (length m), m, with_net (\<lambda>n. ((fst n)(h := ms), snd n)) w))"

definition mail_vtable :: "(mail, 'x) world_scheme vtable" where
  "mail_vtable = \<lparr>
     vt_send = (\<lambda>h bs w. bnd (obj h w) (\<lambda>_. Ret (int (length bs), with_net (mail_put h bs) w))),
     vt_probe = mail_probe, vt_receive = mail_receive,
     vt_sendEOS = (\<lambda>h w. bnd (obj h w) (\<lambda>_. Ret (0, with_net (mail_put h []) w))),
     vt_peek = (\<lambda>h w. bnd (obj h w) (\<lambda>_. Ret (fst (net w) h \<noteq> [], w))),
     vt_notify_close = (\<lambda>h cw cr w. Ret w), vt_notify_yield = (\<lambda>h w. Ret w)\<rparr>"

lemma mail_sends: "sends_to mail_vtable (\<lambda>_. True) (\<lambda>bs. [bs]) snd UNIV"
  by (auto simp: sends_to_def mail_vtable_def obj_def mail_put_def with_net_def)

lemma mail_delivers: "delivers mail_vtable (\<lambda>_. True) (\<lambda>n h ms. fst n h = ms) UNIV"
  by (auto simp: delivers_def mail_vtable_def mail_probe_def mail_receive_def obj_def with_net_def
      put_obj_def)

interpretation mail: transport mail_vtable
  by unfold_locales
    (auto simp: mail_vtable_def mail_probe_def mail_receive_def bnd_Ret_conv split: list.splits)

text \<open>Handles 1, 2 and 3, all open, with the given incoming messages.\<close>

definition mail_world :: "(hid \<Rightarrow> byte list list) \<Rightarrow> mail world" where
  "mail_world f = \<lparr>heap = [1 \<mapsto> new_handle ''M'', 2 \<mapsto> new_handle ''M'', 3 \<mapsto> new_handle ''M''],
     errno = OK_errno, next_hid = 4, net = (f, \<lambda>_. [])\<rparr>"

theorem broadcast_reaches_all_witness:
  "\<exists>w'. coll_sendrecv [0, 0, 0, 0] mail_vtable (BroadcastGeneric [1, 3] True) [5, 6] [] 0
     (mail_world (\<lambda>_. [])) = Ret (2, [], BroadcastGeneric [1, 3] True, w')
   \<and> snd (net w') 1 = [[5, 6]] \<and> snd (net w') 2 = [] \<and> snd (net w') 3 = [[5, 6]]"
proof -
  have "\<forall>h \<in> set [1, 3]. heap (mail_world (\<lambda>_. [])) h \<noteq> None" by (simp add: mail_world_def)
  with broadcast_reaches_all [OF mail_sends, of "[5, 6]" "[1, 3]" "mail_world (\<lambda>_. [])" "[0, 0, 0, 0]" "[]" 0]
  show ?thesis by (auto simp: mail_world_def)
qed

theorem fanout_round_robin_witness:
  "\<exists>w'. fanout_sends mail_vtable (FanOutGeneric [1, 3] True 1) [[5], [6], [7]] (mail_world (\<lambda>_. []))
     = Ret (FanOutGeneric [1, 3] True 0, w') \<and> snd (net w') 1 = [[6]] \<and> snd (net w') 3 = [[5], [7]]"
proof -
  have h: "\<forall>h \<in> set [1, 3]. heap (mail_world (\<lambda>_. [])) h \<noteq> None" by (simp add: mail_world_def)
  let ?ms = "[[5], [6], [7]] :: byte list list" and ?ps = "[1, 3] :: nat list"
  have z: "zip ?ms [0..<3] = [([5], 0), ([6], 1), ([7], 2)]" by (simp add: upt_rec)
  have n: "length ?ps = 2" "length ?ms = 3" by simp_all
  have pre: "set ?ps \<subseteq> UNIV" "distinct ?ps" "\<forall>m \<in> set ?ms. length m < 2 ^ 31" "1 < length ?ps"
    by simp_all
  from fanout_round_robin [OF mail_sends pre TrueI h] obtain w' where
    run: "fanout_sends mail_vtable (FanOutGeneric ?ps True 1) ?ms (mail_world (\<lambda>_. [])) =
      Ret (FanOutGeneric ?ps True ((1 + length ?ms) mod length ?ps), w')"
    and out: "\<forall>i < length ?ps. snd (net w') (?ps ! i) = snd (net (mail_world (\<lambda>_. []))) (?ps ! i) @
      concat (map (\<lambda>bs. [bs]) (map fst (filter (\<lambda>(m, j). (1 + j) mod length ?ps = i)
        (zip ?ms [0..<length ?ms]))))"
    by blast
  have e: "snd (net (mail_world (\<lambda>_. []))) k = []" for k by (simp add: mail_world_def)
  from spec [OF out, of 0] spec [OF out, of 1]
  have "snd (net w') (?ps ! 0) = [[6]]" "snd (net w') (?ps ! 1) = [[5], [7]]"
    unfolding n z e by simp_all
  with run show ?thesis unfolding n by simp
qed

theorem gather_collects_witness:
  "\<exists>buf' w'. coll_sendrecv [0, 0, 0, 0] mail_vtable (GatherGeneric [1, 3] True 1) [5, 6] (replicate 6 0) 2
     (mail_world (\<lambda>h. if h = 1 then [int_bytes 2, [8, 9]] else [int_bytes 0, [3]]))
   = Ret (8, buf', GatherGeneric [1, 3] True 1, w')
   \<and> take (length [8, 9 :: byte]) (drop 4 buf') = [8, 9] \<and> take 2 (drop 2 buf') = [5, 6] \<and> take 1 buf' = [3]"
proof -
  let ?w = "mail_world (\<lambda>h. if h = 1 then [int_bytes 2, [8, 9]] else [int_bytes 0, [3]])"
  let ?rk = "\<lambda>h. if h = 1 then 2 else 0 :: nat" and ?blk = "\<lambda>h. if h = 1 then [8, 9] else [3] :: byte list"
  have op: "\<forall>h \<in> set [1, 3]. open_handle ?w h" by (simp add: open_handle_def mail_world_def new_handle_def)
  have box: "\<forall>h \<in> set [1, 3]. fst (net ?w) h = int_bytes (int (?rk h)) # ?blk h # []
      \<and> ?blk h \<noteq> [] \<and> length (?blk h) \<le> 2 \<and> ?rk h \<le> length [1, 3 :: nat] \<and> ?rk h \<noteq> 1"
    by (simp add: mail_world_def)
  have inj: "inj_on ?rk (set [1, 3])" by (simp add: inj_on_def)
  from gather_collects [OF mail_delivers _ _ _ _ _ _ op box inj, of "[0, 0, 0, 0]" 2 "[5, 6]" "replicate 6 0"]
  show ?thesis by auto
qed

section \<open>Fan-in\<close>

lemma fanin_loop_selects:
  "fanin_loop c V blocking ps i pidx sz w = Ret (r, sz', ps', pidx', w') \<Longrightarrow> 0 < r \<Longrightarrow>
   0 \<le> pidx' \<and> nat pidx' < length ps' \<and> set ps' \<subseteq> set ps \<and> sz' \<noteq> 0
   \<and> (\<exists>ob. heap w' (ps' ! nat pidx') = Some ob \<and> probed ob = (True, sz'))"
proof (induction c arbitrary: ps i pidx sz w)
  case (Suc c)
  have less: "ps \<noteq> []" "i < length ps"
    using Suc.prems by (auto simp: vec_at_def split: if_splits)
  from Suc.prems less obtain res sz1 w1 where
    p: "vt_probe V (ps ! i) False sz w = Ret (res, sz1, w1)"
    by (auto simp: vec_at_def bnd_Ret_conv)
  have sub: "set (take i ps @ drop (Suc i) ps) \<subseteq> set ps"
    using set_take_subset [of i ps] set_drop_subset [of "Suc i" ps] by auto
  consider (eos) "0 < res" "sz1 = 0" | (msg) "0 < res" "sz1 \<noteq> 0" | (other) "\<not> 0 < res" by blast
  then show ?case
  proof cases
    case eos
    define qs where "qs = take i ps @ drop (Suc i) ps"
    have step: "fanin_loop (Suc c) V blocking ps i pidx sz w =
      bnd (handle_close V (ps ! i) True True w1) (\<lambda>w.
        if i = length qs then
          (if blocking then fanin_loop c V blocking qs 0 pidx sz1 w else Ret (-1, sz1, qs, pidx, w))
        else if Suc i = length qs then
          (if blocking then fanin_loop c V blocking qs 0 pidx sz1 w else Ret (-1, sz1, qs, pidx, w))
        else fanin_loop c V blocking qs (Suc i) pidx sz1 w)"
      using less p eos by (simp add: vec_at_def Let_def qs_def [symmetric] cong: if_cong)
    obtain j w2
      where "fanin_loop c V blocking qs j pidx sz1 w2 = Ret (r, sz', ps', pidx', w')"
      using Suc.prems unfolding step by (auto simp: bnd_Ret_conv split: if_splits)
    from Suc.IH [OF this Suc.prems(2)] sub show ?thesis by (auto simp: qs_def)
  next
    case msg
    with Suc.prems less p show ?thesis
      by (auto simp: vec_at_def bnd_Ret_conv upd_obj_Ret)
  next
    case other
    with Suc.prems less p have "\<exists>j. fanin_loop c V blocking ps j pidx sz1 w1 = Ret (r, sz', ps', pidx', w')"
      by (auto simp: vec_at_def bnd_Ret_conv split: if_splits)
    with Suc.IH [OF _ Suc.prems(2)] show ?thesis by blast
  qed
qed simp

text \<open>When the \<open>probe\<close> of a fan-in announces a message, some members may have left the group, but
  the message is that of a member still in it: its handle is marked with the announced size, and
  the \<open>receive\<close> that follows reads from this handle and no other.\<close>

theorem fanin_probe_then_receive:
  assumes "coll_probe c V (FanInGeneric ps root pidx) sz blocking w = Ret (r, sz', cl, w')"
    and "0 < r" and "sz' \<noteq> 0"
  shows "\<exists>ps' i h ob. cl = FanInGeneric ps' root (int i) \<and> i < length ps' \<and> ps' ! i = h
      \<and> set ps' \<subseteq> set ps \<and> heap w' h = Some ob \<and> probed ob = (True, sz')
      \<and> coll_receive junk4 V cl n w' =
          bnd (vt_receive V h n w') (\<lambda>(r, bs, w).
          if r \<le> 0 then Ret (-1, bs, cl, w)
          else bnd (upd_obj h (\<lambda>ob. ob\<lparr>probed := (False, 0)\<rparr>) w) (\<lambda>w.
               Ret (r, bs, FanInGeneric ps' root (-1), w)))"
proof -
  from assms obtain ps' pidx' where loop: "fanin_loop c V blocking ps 0 pidx sz w = Ret (r, sz', ps', pidx', w')"
    and cl: "cl = FanInGeneric ps' root pidx'"
    by (auto simp: coll_probe_def fanin_probe_def bnd_Ret_conv split: if_splits)
  from fanin_loop_selects [OF loop assms(2)] obtain ob where
    sel: "0 \<le> pidx'" "nat pidx' < length ps'" "set ps' \<subseteq> set ps"
      "heap w' (ps' ! nat pidx') = Some ob" "probed ob = (True, sz')" by blast
  have recv: "coll_receive junk4 V cl n w' =
      bnd (vt_receive V (ps' ! nat pidx') n w') (\<lambda>(r, bs, w).
      if r \<le> 0 then Ret (-1, bs, cl, w)
      else bnd (upd_obj (ps' ! nat pidx') (\<lambda>ob. ob\<lparr>probed := (False, 0)\<rparr>) w) (\<lambda>w.
           Ret (r, bs, FanInGeneric ps' root (-1), w)))"
    using sel(1,2) by (auto simp: cl coll_receive_def fanin_receive_def vec_at_def intro!: bnd_cong)
  from sel recv cl show ?thesis
    by (intro exI [of _ ps'] exI [of _ "nat pidx'"] exI [of _ "ps' ! nat pidx'"] exI [of _ ob]) simp
qed

theorem fanin_probe_then_receive_witness:
  "\<exists>cl w'. coll_probe 3 mail_vtable (FanInGeneric [1, 2, 3] True (-1)) 0 True
      (mail_world (\<lambda>h. if h = 3 then [[7, 8]] else [])) = Ret (8, 2, cl, w')
    \<and> (\<exists>cl' w''. coll_receive [0, 0, 0, 0] mail_vtable cl 2 w' = Ret (2, [7, 8], cl', w''))"
proof -
  obtain cl w' where run: "coll_probe 3 mail_vtable (FanInGeneric [1, 2, 3] True (-1)) 0 True
      (mail_world (\<lambda>h. if h = 3 then [[7, 8]] else [])) = Ret (8, 2, cl, w')"
    and box: "fst (net w') = (\<lambda>h. if h = 3 then [[7, 8]] else [])" and cl: "cl = FanInGeneric [1, 2, 3] True 2"
    by (simp add: coll_probe_def fanin_probe_def mail_world_def vec_at_def mail_vtable_def mail_probe_def
        obj_def upd_obj_def numeral_3_eq_3 put_obj_def set_errno_def)
  from fanin_probe_then_receive [OF run, of "[0, 0, 0, 0]" 2] box cl show ?thesis
    using run by (auto simp: mail_vtable_def mail_receive_def obj_Some upd_obj_Some with_net_def)
qed

section \<open>Deleted handles\<close>

lemma close_both_deletes:
  assumes "transport V" and "heap w h = Some ob" and "counter ob = 0"
    and "handle_close V h True True w = Ret w'"
  shows "heap w' h = None"
  using transport.close_effect [OF assms(1,4,2)] assms(3) by simp

text \<open>The end-of-stream of the root makes a member of a fan-out use a deleted object: \<open>probe\<close>
  closes the handle of the root in both directions, which deletes it because no user references
  it, and then stores the size in it.\<close>

theorem fanout_eos_uses_deleted_handle:
  assumes "transport V" and "heap w h = Some ob" and "counter ob = 0"
    and "vt_probe V h blocking sz w = Ret (r, 0, w1)" and "0 < r"
    and "handle_close V h True True w1 = Ret w2"
  shows "coll_probe c V (FanOutGeneric (h # ps) False cur) sz blocking w = Fault Use_after_free"
proof -
  have "heap w1 = heap w" by (rule transport.probe_frame [OF assms(1,4)])
  with assms(2) have "heap w1 h = Some ob" by simp
  from close_both_deletes [OF assms(1) this assms(3,6)] have "heap w2 h = None" .
  then show ?thesis
    using assms(4-6) by (simp add: coll_probe_def fanout_probe_def vec_at_def upd_obj_def obj_None)
qed

theorem fanout_eos_uses_deleted_handle_witness:
  "coll_probe 1 mail_vtable (FanOutGeneric [1] False 0) 0 True (mail_world (\<lambda>h. [[]]))
     = Fault Use_after_free"
proof -
  let ?w = "mail_world (\<lambda>h. [[]])"
  have ob: "heap ?w 1 = Some (new_handle ''M'')" "counter (new_handle ''M'') = 0"
    by (simp_all add: mail_world_def new_handle_def)
  have p: "vt_probe mail_vtable 1 True 0 ?w = Ret (8, 0, ?w)"
    by (simp add: mail_vtable_def mail_probe_def mail_world_def obj_def)
  obtain w2 where cl: "handle_close mail_vtable 1 True True ?w = Ret w2"
    by (simp add: handle_close_def mail_vtable_def mail_world_def obj_def upd_obj_def new_handle_def
        put_obj_def with_net_def)
  from fanout_eos_uses_deleted_handle [OF mail.transport_axioms ob p _ cl] show ?thesis by simp
qed

end
