(* ===== verification/TcpLifecycle.thy ===== *)
theory TcpLifecycle
  imports TcpProps
begin

text \<open>
  The life of a TCP connection seen by the manager and the user: readiness is reported once per
  yield, a connection is torn down once whatever the order of closing, and the places where the
  code falls short of it (a second listening endpoint, a connection lost in the middle of a
  header, \<open>peek\<close> on an idle connection).
\<close>

section \<open>Reporting ready connections\<close>

text \<open>The reference behaviour of a polling round over the descriptors \<open>fds\<close>.\<close>

fun deliver ::
  "(bool \<Rightarrow> hid \<Rightarrow> (('o, 'm) tcp_state_scheme, 'x) world_scheme
     \<Rightarrow> (('o, 'm) tcp_state_scheme, 'x) world_scheme out)
   \<Rightarrow> int list \<Rightarrow> (('o, 'm) tcp_state_scheme, 'x) world_scheme
   \<Rightarrow> (('o, 'm) tcp_state_scheme, 'x) world_scheme out" where
  "deliver addinQ [] w = Ret w"
| "deliver addinQ (fd # fds) w =
     bnd (clear_fd fd w) (\<lambda>w.
     bnd (case smap_get (connections (net w)) fd of
            None \<Rightarrow> Ret w | Some h \<Rightarrow> addinQ False h w) (\<lambda>w. deliver addinQ fds w))"

lemma update_loop_deliver:
  assumes kt: "keeps_tables addinQ" and fin: "finite S" and ls: "listen_sck (net w) \<notin> S"
    and tmp: "tmpset (net w) = S" and inv: "fd_inv (net w)" and idx: "0 \<le> idx"
    and sub: "{fd \<in> S. idx \<le> fd} \<subseteq> fdset (net w)"
  shows "update_loop A p addinQ idx (int (card {fd \<in> S. idx \<le> fd})) w =
     deliver addinQ (sorted_list_of_set {fd \<in> S. idx \<le> fd}) w"
  using ls tmp inv idx sub
proof (induction "nat (FD_SETSIZE - idx)" arbitrary: idx w rule: less_induct)
  case less
  let ?P = "{fd \<in> S. idx \<le> fd}"
  let ?Q = "{fd \<in> S. idx + 1 \<le> fd}"
  show ?case
  proof (cases "?P = {}")
    case True
    then show ?thesis unfolding True by (simp add: update_loop_stop)
  next
    case False
    then obtain fd where "fd \<in> S" "idx \<le> fd" "fd \<in> fdset (net w)" using less.prems(5) by blast
    with less.prems(3) have range: "idx \<le> fdmax (net w)" "idx < FD_SETSIZE"
      by (force simp: fd_inv_def)+
    then have smaller: "nat (FD_SETSIZE - (idx + 1)) < nat (FD_SETSIZE - idx)"
      using less.prems(4) by simp
    have card: "0 < card ?P" using False fin by (simp add: card_gt_0_iff)
    show ?thesis
    proof (cases "idx \<in> S")
      case skip: False
      then have same: "?P = ?Q" by (force simp: le_less)
      have "update_loop A p addinQ idx (int (card ?P)) w =
          update_loop A p addinQ (idx + 1) (int (card ?P)) w"
        using range card less.prems skip by (intro update_loop_skip) auto
      also have "\<dots> = deliver addinQ (sorted_list_of_set ?P) w"
        unfolding same by (rule less.hyps [OF smaller]) (use less.prems in auto)
      finally show ?thesis .
    next
      case ready: True
      then have P: "?P = insert idx ?Q" and notin: "idx \<notin> ?Q" by (auto simp: le_less)
      have Min: "Min ?P = idx" using fin ready by (intro Min_eqI) auto
      have sl: "sorted_list_of_set ?P = idx # sorted_list_of_set ?Q"
        using sorted_list_of_set_nonempty [of ?P] False fin P notin unfolding Min by simp
      have cards: "int (card ?P) - 1 = int (card ?Q)" using fin notin unfolding P by simp
      have "update_loop A p addinQ idx (int (card ?P)) w =
          bnd (clear_fd idx w) (\<lambda>w.
          bnd (case smap_get (connections (net w)) idx of
                 None \<Rightarrow> Ret w | Some h \<Rightarrow> addinQ False h w) (\<lambda>w.
          update_loop A p addinQ (idx + 1) (int (card ?Q)) w))"
        using range card less.prems ready
        by (subst update_loop_ready) (auto simp: cards)
      also have "\<dots> = deliver addinQ (sorted_list_of_set ?P) w"
        unfolding sl deliver.simps
      proof (intro bnd_eqI)
        fix w1 w2
        assume w1: "clear_fd idx w = Ret w1"
          and w2: "(case smap_get (connections (net w1)) idx of
                 None \<Rightarrow> Ret w1 | Some h \<Rightarrow> addinQ False h w1) = Ret w2"
        have "fdset (net w2) = fdset (net w1)" "fdmax (net w2) = fdmax (net w1)"
          "tmpset (net w2) = tmpset (net w1)" "listen_sck (net w2) = listen_sck (net w1)"
          using kt w2 unfolding keeps_tables_def by (auto split: option.splits)
        with clear_fd_inv [OF w1 less.prems(3)] clear_fd_effect [OF w1] less.prems
        have "listen_sck (net w2) \<notin> S" "tmpset (net w2) = S" "fd_inv (net w2)"
          "{fd \<in> S. idx + 1 \<le> fd} \<subseteq> fdset (net w2)"
          by (auto elim: fd_inv_frame)
        then show "update_loop A p addinQ (idx + 1) (int (card ?Q)) w2 =
            deliver addinQ (sorted_list_of_set ?Q) w2"
          using less.prems(4) by (intro less.hyps [OF smaller]) auto
      qed
      finally show ?thesis .
    qed
  qed
qed

lemma deliver_fdset:
  assumes "keeps_tables addinQ"
  shows "deliver addinQ fds w = Ret w' \<Longrightarrow> fdset (net w') = fdset (net w) - set fds"
proof (induction fds arbitrary: w)
  case (Cons fd fds)
  from Cons.prems obtain w1 w2 where w1: "clear_fd fd w = Ret w1"
    and w2: "(case smap_get (connections (net w1)) fd of
        None \<Rightarrow> Ret w1 | Some h \<Rightarrow> addinQ False h w1) = Ret w2"
    and rest: "deliver addinQ fds w2 = Ret w'"
    by (auto simp: bnd_Ret_conv)
  from Cons.IH [OF rest] clear_fd_effect [OF w1] w2 assms show ?case
    by (auto simp: keeps_tables_def split: option.splits)
qed simp

lemma tcp_update_deliver:
  assumes "keeps_tables addinQ" and "fd_inv (net w)" and "fdset (net w) \<noteq> {}"
    and "S \<subseteq> fdset (net w)" and "listen_sck (net w) \<notin> S"
    and "sk_select A (fdmax (net w) + 1) (fdset (net w)) (os (net w)) = (((int (card S), None), S), s)"
  shows "tcp_update A p addinQ w =
    deliver addinQ (sorted_list_of_set S) (with_net (\<lambda>t. t\<lparr>os := s, tmpset := S\<rparr>) w)"
proof -
  let ?w = "with_net (\<lambda>t. t\<lparr>os := s, tmpset := S\<rparr>) w"
  have "S \<subseteq> {0..<FD_SETSIZE}" using assms(2,4) by (auto simp: fd_inv_def)
  then have fin: "finite S" by (rule finite_subset) simp
  have nonneg: "{fd \<in> S. 0 \<le> fd} = S" using assms(2,4) by (auto simp: fd_inv_def)
  have "fdmax (net w) \<noteq> -1" using assms(2,3) by (force simp: fd_inv_def)
  then have "tcp_update A p addinQ w = (if card S = 0 then Ret ?w
      else update_loop A p addinQ 0 (int (card S)) ?w)"
    using assms(6)
    by (simp add: tcp_update_def Let_def set_os_def with_net_def keep_errno_def)
  also have "\<dots> = update_loop A p addinQ 0 (int (card S)) ?w"
    by (simp add: update_loop_stop)
  also have "\<dots> = deliver addinQ (sorted_list_of_set S) ?w"
    using update_loop_deliver [OF assms(1) fin, of ?w 0 A p, unfolded nonneg] assms(2,4,5)
    by (simp add: fd_inv_def)
  finally show ?thesis .
qed

text \<open>C3: A polling round of the TCP connector, in which \<open>select\<close> reports the registered connections
  \<open>S\<close>, hands each of them to the manager exactly once, in ascending order of the descriptors, and
  takes exactly these out of the \<open>select\<close> set, so that they are not reported again before they are
  yielded.\<close>

theorem tcp_update_reports_once:
  assumes "keeps_tables addinQ" and "fd_inv (net w)" and "fdset (net w) \<noteq> {}"
    and "S \<subseteq> fdset (net w)" and "listen_sck (net w) \<notin> S"
    and "sk_select A (fdmax (net w) + 1) (fdset (net w)) (os (net w)) = (((int (card S), None), S), s)"
    and "tcp_update A p addinQ w = Ret w'"
  shows "deliver addinQ (sorted_list_of_set S) (with_net (\<lambda>t. t\<lparr>os := s, tmpset := S\<rparr>) w) = Ret w'
    \<and> fdset (net w') = fdset (net w) - S"
proof -
  from tcp_update_deliver [OF assms(1-6)] assms(7)
  have d: "deliver addinQ (sorted_list_of_set S) (with_net (\<lambda>t. t\<lparr>os := s, tmpset := S\<rparr>) w) = Ret w'"
    by simp
  have "S \<subseteq> {0..<FD_SETSIZE}" using assms(2,4) by (auto simp: fd_inv_def)
  then have "finite S" by (rule finite_subset) simp
  with deliver_fdset [OF assms(1) d] d show ?thesis by simp
qed

text \<open>Two registered connections and a callback that logs the handles it is given.\<close>

definition two_conns :: "(sos tcp_state) world" where
  "two_conns = with_net (\<lambda>t. t\<lparr>fdset := {3, 5}, fdmax := 5, connections := [(3, 7), (5, 8)]\<rparr>)
     (sample_world sample_handle \<lparr>so_in = [], so_out = [], so_next = 6\<rparr>)"

definition log_addinQ :: "bool \<Rightarrow> hid \<Rightarrow> (sos tcp_state) world \<Rightarrow> (sos tcp_state) world out" where
  "log_addinQ b h w = Ret (w\<lparr>next_hid := next_hid w * 10 + h\<rparr>)"

theorem tcp_update_reports_once_witness:
  "\<exists>w'. tcp_update sample_sys ''TCP'' log_addinQ two_conns = Ret w'
     \<and> next_hid w' = 878 \<and> fdset (net w') = {}"
proof -
  let ?S = "{3, 5} :: int set"
  have kt: "keeps_tables log_addinQ" by (auto simp: keeps_tables_def log_addinQ_def)
  have inv: "fd_inv (net two_conns)" "fdset (net two_conns) \<noteq> {}"
    "?S \<subseteq> fdset (net two_conns)" "listen_sck (net two_conns) \<notin> ?S"
    by (simp_all add: two_conns_def sample_defs fd_inv_def FD_SETSIZE_def)
  have sel: "sk_select sample_sys (fdmax (net two_conns) + 1) (fdset (net two_conns))
      (os (net two_conns)) = (((int (card ?S), None), ?S), os (net two_conns))"
    by (simp add: two_conns_def sample_defs sample_sys_def)
  have "sorted_list_of_set ?S = [3, 5]" by simp
  then have d: "\<exists>w'. deliver log_addinQ (sorted_list_of_set ?S)
      (with_net (\<lambda>t. t\<lparr>os := os (net two_conns), tmpset := ?S\<rparr>) two_conns) = Ret w'
      \<and> next_hid w' = 878"
    by (simp add: two_conns_def sample_defs clear_fd_def FD_CLR_def FD_SETSIZE_def with_net_def
        smap_get_def Let_def log_addinQ_def)
  with tcp_update_deliver [OF kt inv sel] obtain w'
    where run: "tcp_update sample_sys ''TCP'' log_addinQ two_conns = Ret w'" by metis
  from tcp_update_reports_once [OF kt inv sel run] d run show ?thesis
    by (auto simp: two_conns_def)
qed

section \<open>Closing\<close>

text \<open>What the operating system sees of a connection that is closed: the end-of-stream header is
  written once and the descriptor is closed once, as the last call on it.\<close>

definition eos_sent :: "('o, 'a) tcp_sys_scheme \<Rightarrow> int \<Rightarrow> 'o \<Rightarrow> 'o" where
  "eos_sent A fd s = snd (snd (fd_sendEOS A fd s))"

definition torn_down :: "hid \<Rightarrow> hobj \<Rightarrow> int \<Rightarrow> 'o \<Rightarrow> (('o, 'm) tcp_state_scheme, 'x) world_scheme
    \<Rightarrow> (('o, 'm) tcp_state_scheme, 'x) world_scheme \<Rightarrow> bool" where
  "torn_down h ob fd s w w' \<longleftrightarrow>
     heap w' = (heap w)(h \<mapsto> ob\<lparr>closed_wr := True, closed_rd := True\<rparr>)
     \<and> fd_of (net w') = (fd_of (net w))(h := -1)
     \<and> (\<forall>k. smap_get (connections (net w')) k =
            (if k = fd then None else smap_get (connections (net w)) k))
     \<and> fdset (net w') = fdset (net w) - {fd} \<and> os (net w') = s"

lemma clear_fd_Ret:
  "0 \<le> fd \<Longrightarrow> fd < FD_SETSIZE \<Longrightarrow> \<exists>w'. clear_fd fd w = Ret w'"
  by (auto simp: clear_fd_def FD_CLR_def Let_def)

lemma clear_fd_rest:
  "clear_fd fd w = Ret w' \<Longrightarrow> heap w' = heap w \<and> errno w' = errno w"
  by (auto simp: clear_fd_def FD_CLR_def Let_def with_net_def split: if_splits)

lemma sendEOS_call:
  "heap w h = Some ob \<Longrightarrow> \<exists>r e. tcp_sendEOS A h w =
     Ret (r, set_os e (eos_sent A (fd_of (net w) h) (os (net w))) w)"
  by (auto simp: tcp_sendEOS_def obj_Some eos_sent_def split: prod.splits)

lemma shut_both:
  assumes "0 \<le> fd" "fd < FD_SETSIZE" "fd_of (net w) h = fd" "heap w h = Some ob"
  shows "\<exists>w'. tcp_notify_close A h True True w = Ret w' \<and> heap w' = heap w
    \<and> fd_of (net w') = (fd_of (net w))(h := -1)
    \<and> connections (net w') = smap_erase fd (connections (net w))
    \<and> fdset (net w') = fdset (net w) - {fd}
    \<and> os (net w') = sk_close A fd (sk_shutdown_rd A fd (sk_shutdown_wr A fd (os (net w))))"
proof -
  let ?w1 = "with_net (\<lambda>t. t\<lparr>connections := smap_erase fd (connections t)\<rparr>)
    (os_call (sk_shutdown_rd A fd) (os_call (sk_shutdown_wr A fd) w))"
  obtain w2 where w2: "clear_fd fd ?w1 = Ret w2" using clear_fd_Ret [OF assms(1,2)] by blast
  from clear_fd_effect [OF w2] clear_fd_rest [OF w2] assms w2 show ?thesis
    by (auto simp: tcp_notify_close_def obj_Some shut_wr_def shut_rd_def Let_def)
qed

lemma shut_reading:
  assumes "0 \<le> fd" "fd < FD_SETSIZE" "fd_of (net w) h = fd" "heap w h = Some ob"
  shows "\<exists>w'. tcp_notify_close A h False True w = Ret w' \<and> heap w' = heap w
    \<and> fd_of (net w') = fd_of (net w) \<and> connections (net w') = smap_erase fd (connections (net w))
    \<and> fdset (net w') = fdset (net w) - {fd} \<and> os (net w') = sk_shutdown_rd A fd (os (net w))"
proof -
  let ?w1 = "with_net (\<lambda>t. t\<lparr>connections := smap_erase fd (connections t)\<rparr>)
    (os_call (sk_shutdown_rd A fd) w)"
  obtain w2 where w2: "clear_fd fd ?w1 = Ret w2" using clear_fd_Ret [OF assms(1,2)] by blast
  from clear_fd_effect [OF w2] clear_fd_rest [OF w2] assms w2 show ?thesis
    by (auto simp: tcp_notify_close_def obj_Some shut_rd_def Let_def)
qed

lemma shut_writing:
  assumes "fd_of (net w) h = fd" "heap w h = Some ob" "fd \<noteq> -1"
    and "smap_get (connections (net w)) fd \<noteq> None"
  shows "tcp_notify_close A h True False w = Ret (os_call (sk_shutdown_wr A fd) w)"
  using assms by (auto simp: tcp_notify_close_def obj_Some shut_wr_def Let_def)

lemma close_torn_down:
  assumes "heap w h = Some ob" "closed_wr ob" "closed_rd ob" "counter ob \<noteq> 0" "fd_of (net w) h = -1"
  shows "handle_close (tcp_vtable A) h cw cr w = Ret w"
  using assms
  by (simp add: handle_close_def obj_Some tcp_vtable_def tcp_notify_close_def shut_wr_def
      shut_rd_def Let_def)

lemma close_wr_then_rd:
  assumes "heap w h = Some ob" "counter ob \<noteq> 0" "\<not> closed_wr ob" "\<not> closed_rd ob"
    and "fd_of (net w) h = fd" "0 \<le> fd" "fd < FD_SETSIZE"
    and "smap_get (connections (net w)) fd \<noteq> None"
  shows "\<exists>w1 w2. handle_close (tcp_vtable A) h True False w = Ret w1
    \<and> handle_close (tcp_vtable A) h False True w1 = Ret w2
    \<and> torn_down h ob fd (sk_close A fd (sk_shutdown_rd A fd (sk_shutdown_wr A fd
        (sk_shutdown_wr A fd (eos_sent A fd (os (net w))))))) w w2"
proof -
  let ?ob1 = "ob\<lparr>closed_wr := True\<rparr>" and ?ob2 = "ob\<lparr>closed_wr := True, closed_rd := True\<rparr>"
  from sendEOS_call [OF assms(1), of A] assms(5) obtain r e where
    eos: "tcp_sendEOS A h w = Ret (r, set_os e (eos_sent A fd (os (net w))) w)" by blast
  let ?v = "put_obj h ?ob1 (set_os e (eos_sent A fd (os (net w))) w)"
  let ?w1 = "os_call (sk_shutdown_wr A fd) ?v"
  have "tcp_notify_close A h True False ?v = Ret ?w1"
    by (rule shut_writing) (use assms in auto)
  with eos assms have c1: "handle_close (tcp_vtable A) h True False w = Ret ?w1"
    by (simp add: handle_close_def obj_Some upd_obj_Some tcp_vtable_def)
  have "\<exists>w2. tcp_notify_close A h True True (put_obj h ?ob2 ?w1) = Ret w2
    \<and> heap w2 = heap (put_obj h ?ob2 ?w1)
    \<and> fd_of (net w2) = (fd_of (net (put_obj h ?ob2 ?w1)))(h := -1)
    \<and> connections (net w2) = smap_erase fd (connections (net (put_obj h ?ob2 ?w1)))
    \<and> fdset (net w2) = fdset (net (put_obj h ?ob2 ?w1)) - {fd}
    \<and> os (net w2) = sk_close A fd (sk_shutdown_rd A fd (sk_shutdown_wr A fd
        (os (net (put_obj h ?ob2 ?w1)))))"
    by (rule shut_both [of _ _ _ ?ob2]) (use assms in auto)
  then obtain w2 where w2: "tcp_notify_close A h True True (put_obj h ?ob2 ?w1) = Ret w2"
    and td: "torn_down h ob fd (sk_close A fd (sk_shutdown_rd A fd (sk_shutdown_wr A fd
        (sk_shutdown_wr A fd (eos_sent A fd (os (net w))))))) w w2"
    by (auto simp: torn_down_def smap_erase_get)
  from w2 td assms have c2: "handle_close (tcp_vtable A) h False True ?w1 = Ret w2"
    by (simp add: handle_close_def obj_Some upd_obj_Some tcp_vtable_def torn_down_def)
  from c1 c2 td show ?thesis by blast
qed

lemma closed_swap:
  "ob\<lparr>closed_rd := b, closed_wr := c\<rparr> = ob\<lparr>closed_wr := c, closed_rd := b\<rparr>"
  by simp

lemma close_rd_then_wr:
  assumes "heap w h = Some ob" "counter ob \<noteq> 0" "\<not> closed_wr ob" "\<not> closed_rd ob"
    and "fd_of (net w) h = fd" "0 \<le> fd" "fd < FD_SETSIZE"
  shows "\<exists>w1 w2. handle_close (tcp_vtable A) h False True w = Ret w1
    \<and> handle_close (tcp_vtable A) h True False w1 = Ret w2
    \<and> torn_down h ob fd (sk_close A fd (sk_shutdown_rd A fd (sk_shutdown_wr A fd
        (eos_sent A fd (sk_shutdown_rd A fd (os (net w))))))) w w2"
proof -
  let ?ob1 = "ob\<lparr>closed_rd := True\<rparr>" and ?ob2 = "ob\<lparr>closed_wr := True, closed_rd := True\<rparr>"
  have "\<exists>w1. tcp_notify_close A h False True (put_obj h ?ob1 w) = Ret w1
    \<and> heap w1 = heap (put_obj h ?ob1 w) \<and> fd_of (net w1) = fd_of (net (put_obj h ?ob1 w))
    \<and> connections (net w1) = smap_erase fd (connections (net (put_obj h ?ob1 w)))
    \<and> fdset (net w1) = fdset (net (put_obj h ?ob1 w)) - {fd}
    \<and> os (net w1) = sk_shutdown_rd A fd (os (net (put_obj h ?ob1 w)))"
    by (rule shut_reading [of _ _ _ ?ob1]) (use assms in auto)
  then obtain w1 where w1: "tcp_notify_close A h False True (put_obj h ?ob1 w) = Ret w1"
    and h1: "heap w1 = (heap w)(h \<mapsto> ?ob1)" "fd_of (net w1) = fd_of (net w)"
      "connections (net w1) = smap_erase fd (connections (net w))"
      "fdset (net w1) = fdset (net w) - {fd}" "os (net w1) = sk_shutdown_rd A fd (os (net w))"
    by auto
  from w1 h1 assms have c1: "handle_close (tcp_vtable A) h False True w = Ret w1"
    by (simp add: handle_close_def obj_Some upd_obj_Some tcp_vtable_def)
  have live1: "heap w1 h = Some ?ob1" using h1 by simp
  from sendEOS_call [OF live1, of A] h1 assms(5) obtain r e where
    eos: "tcp_sendEOS A h w1 = Ret (r, set_os e (eos_sent A fd (os (net w1))) w1)" by metis
  let ?v = "put_obj h ?ob2 (set_os e (eos_sent A fd (os (net w1))) w1)"
  have "\<exists>w2. tcp_notify_close A h True True ?v = Ret w2 \<and> heap w2 = heap ?v
    \<and> fd_of (net w2) = (fd_of (net ?v))(h := -1)
    \<and> connections (net w2) = smap_erase fd (connections (net ?v))
    \<and> fdset (net w2) = fdset (net ?v) - {fd}
    \<and> os (net w2) = sk_close A fd (sk_shutdown_rd A fd (sk_shutdown_wr A fd (os (net ?v))))"
    by (rule shut_both [of _ _ _ ?ob2]) (use assms h1 in auto)
  then obtain w2 where w2: "tcp_notify_close A h True True ?v = Ret w2"
    and td: "torn_down h ob fd (sk_close A fd (sk_shutdown_rd A fd (sk_shutdown_wr A fd
        (eos_sent A fd (sk_shutdown_rd A fd (os (net w))))))) w w2"
    using h1 by (auto simp: torn_down_def smap_erase_get)
  from w2 td eos h1 live1 assms have c2: "handle_close (tcp_vtable A) h True False w1 = Ret w2"
    by (simp add: closed_swap handle_close_def obj_Some upd_obj_Some tcp_vtable_def torn_down_def)
  from c1 c2 td show ?thesis by blast
qed

text \<open>C4: A TCP connection held by a user is torn down once in either order of closing. Whether the
  writing or the reading side is closed first, the calls on the descriptor are one end-of-stream
  header, shutdowns, and one \<open>close\<close> at the end; the connection leaves the table and the \<open>select\<close>
  set, the handle keeps no descriptor, and every further close changes nothing.\<close>

theorem tcp_close_once:
  assumes "heap w h = Some ob" and "counter ob \<noteq> 0" and "\<not> closed_wr ob" and "\<not> closed_rd ob"
    and "fd_of (net w) h = fd" and "0 \<le> fd" and "fd < FD_SETSIZE"
    and "smap_get (connections (net w)) fd \<noteq> None"
  shows "\<exists>w1 w2 v1 v2.
     handle_close (tcp_vtable A) h True False w = Ret w1
   \<and> handle_close (tcp_vtable A) h False True w1 = Ret w2
   \<and> torn_down h ob fd (sk_close A fd (sk_shutdown_rd A fd (sk_shutdown_wr A fd
       (sk_shutdown_wr A fd (eos_sent A fd (os (net w))))))) w w2
   \<and> handle_close (tcp_vtable A) h False True w = Ret v1
   \<and> handle_close (tcp_vtable A) h True False v1 = Ret v2
   \<and> torn_down h ob fd (sk_close A fd (sk_shutdown_rd A fd (sk_shutdown_wr A fd
       (eos_sent A fd (sk_shutdown_rd A fd (os (net w))))))) w v2
   \<and> handle_close (tcp_vtable A) h cw cr w2 = Ret w2
   \<and> handle_close (tcp_vtable A) h cw cr v2 = Ret v2"
proof -
  have again: "handle_close (tcp_vtable A) h cw cr w' = Ret w'"
    if "torn_down h ob fd s w w'" for s and w'
    using that assms(2)
    by (intro close_torn_down [of _ _ "ob\<lparr>closed_wr := True, closed_rd := True\<rparr>"])
      (auto simp: torn_down_def)
  from close_wr_then_rd [OF assms] close_rd_then_wr [OF assms(1-7)] show ?thesis
    using again by meson
qed

theorem tcp_close_once_witness:
  "\<exists>w1 w2. handle_close (tcp_vtable sample_sys) 7 True False
       (sample_world sample_handle \<lparr>so_in = [], so_out = [], so_next = 4\<rparr>) = Ret w1
     \<and> handle_close (tcp_vtable sample_sys) 7 False True w1 = Ret w2 \<and> fd_of (net w2) 7 = -1"
proof -
  let ?w = "sample_world sample_handle \<lparr>so_in = [], so_out = [], so_next = 4\<rparr>"
  have "heap ?w 7 = Some sample_handle" "counter sample_handle \<noteq> 0" "\<not> closed_wr sample_handle"
    "\<not> closed_rd sample_handle" "fd_of (net ?w) 7 = 3" "0 \<le> (3 :: int)" "3 < FD_SETSIZE"
    "smap_get (connections (net ?w)) 3 \<noteq> None"
    by (simp_all add: sample_defs FD_SETSIZE_def smap_get_def)
  from tcp_close_once [OF this, of sample_sys True True] show ?thesis
    by (auto simp: torn_down_def)
qed

section \<open>A second listening endpoint\<close>

text \<open>A successful \<open>listen\<close> re-initialises the \<open>select\<close> set: every descriptor that was polled
  before, an earlier listening socket and the connections waiting for data among them, is forgotten,
  although the connections stay in the table.\<close>

theorem tcp_listen_forgets:
  assumes "tcp_listen A s w = Ret (0, w')" and "fd \<in> fdset (net w)" and "fd \<noteq> listen_sck (net w')"
  shows "fd \<notin> fdset (net w') \<and> connections (net w') = connections (net w)"
proof -
  from assms(1) have "fdset (net w') = {listen_sck (net w')} \<and> connections (net w') = connections (net w)"
    by (rule tcp_listen_cases) auto
  with assms show ?thesis by simp
qed

theorem tcp_listen_forgets_witness:
  "\<exists>w'. tcp_listen sample_sys ''h:2'' two_conns = Ret (0, w') \<and> 3 \<notin> fdset (net w')
     \<and> smap_get (connections (net w')) 3 = Some 7"
proof -
  have "\<exists>w'. tcp_listen sample_sys ''h:2'' two_conns = Ret (0, w') \<and> listen_sck (net w') = 6"
    by (simp add: two_conns_def tcp_listen_def before_colon_def colon_def substr_from_def stoi_def string_to_int_def
        is_space_def digit_value_def tcp_init_socket_def sample_sys_def so_fresh_def so_ok_def
        sample_defs with_net_def set_os_def keep_errno_def FD_SET_def FD_SETSIZE_def Let_def)
  then obtain w' where w': "tcp_listen sample_sys ''h:2'' two_conns = Ret (0, w')"
    "listen_sck (net w') = 6" by blast
  have conns: "connections (net two_conns) = [(3, 7), (5, 8)]" "3 \<in> fdset (net two_conns)"
    by (simp_all add: two_conns_def)
  from tcp_listen_forgets [OF w'(1) conns(2)] w' conns show ?thesis
    by (simp add: smap_get_def)
qed

section \<open>A connection lost inside a header\<close>

text \<open>When the peer is lost after a part of the eight header bytes, a blocking \<open>probe\<close> does not
  report it: it answers 8, a whole header, and announces a size whose missing bytes are
  the indeterminate ones of its local variable.\<close>

theorem tcp_probe_torn_header:
  assumes "reads_stream A inq"
    and "\<And>n s. inq fd s = [] \<Longrightarrow> sk_read A fd n s = (RBytes [], s)"
    and "inq fd s \<noteq> []" and "length (inq fd s) < 8"
  shows "\<exists>s'. fd_probe A fd True sz s =
     (8, be64toh (of_le_bytes (inq fd s @ drop (length (inq fd s)) (take 8 (sk_junk A)))), None, s')"
proof -
  let ?j = "length (inq fd s)"
  have part: "\<exists>s'. readn_loop A fd 8 nleft got s = (int (8 - nleft + length (inq fd s)), got @ inq fd s, None, s')"
    if "length (inq fd s) < nleft" "nleft \<le> 8" for nleft got s
    using that
  proof (induction "length (inq fd s)" arbitrary: nleft got s rule: less_induct)
    case less
    show ?case
    proof (cases "inq fd s = []")
      case True
      with less.prems assms(2) [OF True] show ?thesis
        by (simp add: readn_loop.simps [of A fd 8 nleft])
    next
      case False
      with less.prems assms(1) obtain k s1 where k: "0 < k" "k \<le> nleft" "k \<le> length (inq fd s)"
        and rd: "sk_read A fd nleft s = (RBytes (take k (inq fd s)), s1)"
        and inq1: "inq fd s1 = drop k (inq fd s)"
        unfolding reads_stream_def by (metis gr_zeroI less_nat_zero_code)
      have "length (inq fd s1) < length (inq fd s)" "length (inq fd s1) < nleft - k" "nleft - k \<le> 8"
        using k inq1 less.prems by auto
      from less.hyps [OF this, of "got @ take k (inq fd s)"] obtain s2
        where "readn_loop A fd 8 (nleft - k) (got @ take k (inq fd s)) s1 =
          (int (8 - (nleft - k) + length (inq fd s1)), (got @ take k (inq fd s)) @ inq fd s1, None, s2)"
        by blast
      moreover have "take k (inq fd s) \<noteq> []" "length (take k (inq fd s)) = k" using k by auto
      moreover have "8 - (nleft - k) + length (inq fd s1) = 8 - nleft + length (inq fd s)"
        using k inq1 less.prems by auto
      ultimately show ?thesis
        using rd inq1 less.prems
        by (simp add: readn_loop.simps [of A fd 8 nleft got s] del: take_eq_Nil length_take)
    qed
  qed
  from part [of s 8 "[]"] assms(3,4) show ?thesis
    by (auto simp: fd_probe_def readn_def)
qed

theorem tcp_probe_torn_header_witness:
  "\<exists>s'. fd_probe sample_sys 3 True 0 \<lparr>so_in = [0, 0], so_out = [], so_next = 4\<rparr> =
     (8, be64toh (of_le_bytes [0, 0, 255, 255, 255, 255, 255, 255]), None, s')"
proof -
  let ?s = "\<lparr>so_in = [0, 0], so_out = [], so_next = 4\<rparr>"
  have eof: "\<And>n s. so_in s = [] \<Longrightarrow> sk_read sample_sys 3 n s = (RBytes [], s)"
    by (simp add: sample_sys_def so_read_def)
  have "so_in ?s \<noteq> []" "length (so_in ?s) < 8" by simp_all
  from tcp_probe_torn_header [OF sample_reads eof this] show ?thesis
    by (simp add: sample_sys_def numeral_eq_Suc)
qed

end
