(* ===== verification/CollTcp.thy ===== *)
theory CollTcp
  imports CollProps TcpLifecycle
begin

text \<open>
  The collectives over TCP: the contracts the collectives rely on hold for \<open>tcp_vtable\<close> on stream
  sockets, and what happens to a team when the connection to the root is lost.
\<close>

section \<open>Stream sockets that are independent of each other\<close>

definition reads_only :: "('o, 'a) sock_io_scheme \<Rightarrow> (int \<Rightarrow> 'o \<Rightarrow> byte list) \<Rightarrow> bool" where
  "reads_only A inq \<longleftrightarrow>
     (\<forall>fd n s fd'. fd' \<noteq> fd \<longrightarrow> inq fd' (snd (sk_read A fd n s)) = inq fd' s)"

definition writes_only :: "('o, 'a) sock_io_scheme \<Rightarrow> (int \<Rightarrow> 'o \<Rightarrow> byte list) \<Rightarrow> bool" where
  "writes_only A outq \<longleftrightarrow>
     (\<forall>fd iov s fd'. fd' \<noteq> fd \<longrightarrow> outq fd' (snd (sk_writev A fd iov s)) = outq fd' s)"

lemma readn_loop_only:
  assumes "reads_only A inq" and "fd' \<noteq> fd"
  shows "readn_loop A fd n nleft got s = (r, bs, e, s') \<Longrightarrow> inq fd' s' = inq fd' s"
proof (induction nleft arbitrary: got s rule: less_induct)
  case (less nleft)
  obtain res s1 where rd: "sk_read A fd nleft s = (res, s1)" by fastforce
  with assms have s1: "inq fd' s1 = inq fd' s" unfolding reads_only_def by (metis snd_conv)
  show ?case
  proof (cases res)
    case (RErr e1)
    with less.prems rd s1 show ?thesis
      by (auto simp: readn_loop.simps [of A fd n nleft got s] split: if_splits)
  next
    case (RBytes x)
    show ?thesis
    proof (cases "nleft = 0 \<or> x = []")
      case True
      with less.prems rd s1 RBytes show ?thesis
        by (auto simp: readn_loop.simps [of A fd n nleft got s] split: if_splits)
    next
      case False
      with less.prems rd RBytes
      have "readn_loop A fd n (nleft - length x) (got @ x) s1 = (r, bs, e, s')"
        by (simp add: readn_loop.simps [of A fd n nleft got s])
      moreover have "nleft - length x < nleft" using False by (cases x) auto
      ultimately show ?thesis using less.IH s1 by metis
    qed
  qed
qed

lemma writevn_only:
  assumes "writes_only A outq" and "fd' \<noteq> fd"
  shows "writevn c A fd iov s = Ret (r, e, s') \<Longrightarrow> outq fd' s' = outq fd' s"
proof (induction c arbitrary: iov s)
  case (Suc c)
  obtain res s1 where wr: "sk_writev A fd iov s = (res, s1)" by fastforce
  with assms have s1: "outq fd' s1 = outq fd' s" unfolding writes_only_def by (metis snd_conv)
  from Suc.prems wr s1 Suc.IH show ?case
    by (auto split: wr_result.splits list.splits)
qed simp

lemma fd_probe_only:
  "reads_only A inq \<Longrightarrow> fd' \<noteq> fd \<Longrightarrow> fd_probe A fd True sz s = (r, n, e, s') \<Longrightarrow> inq fd' s' = inq fd' s"
  by (auto simp: fd_probe_def readn_def split: prod.splits if_splits dest: readn_loop_only)

lemma fd_receive_only:
  "reads_only A inq \<Longrightarrow> fd' \<noteq> fd \<Longrightarrow> fd_receive A fd sz s = (r, bs, e, s') \<Longrightarrow> inq fd' s' = inq fd' s"
  by (auto simp: fd_receive_def readn_def dest: readn_loop_only)

lemma fd_send_only:
  "writes_only A outq \<Longrightarrow> fd' \<noteq> fd \<Longrightarrow> fd_send A fd bs s = Ret (r, e, s') \<Longrightarrow> outq fd' s' = outq fd' s"
  by (auto simp: fd_send_def bnd_Ret_conv split: if_splits dest: writevn_only)

section \<open>TCP carries the collectives\<close>

text \<open>The members of a team are connected by different descriptors.\<close>

definition own_fds :: "hid set \<Rightarrow> ('o, 'm) tcp_state_scheme \<Rightarrow> bool" where
  "own_fds P t \<longleftrightarrow> inj_on (fd_of t) P"

definition tcp_inbox ::
  "(int \<Rightarrow> 'o \<Rightarrow> byte list) \<Rightarrow> ('o, 'm) tcp_state_scheme \<Rightarrow> hid \<Rightarrow> byte list list \<Rightarrow> bool" where
  "tcp_inbox inq t h ms \<longleftrightarrow> (\<exists>rest. inq (fd_of t h) (os t) = wire ms @ rest)"

lemma tcp_sends_to:
  fixes A :: "('o, 'a) tcp_sys_scheme"
  assumes "writes_stream A outq" and "writes_only A outq"
  shows "sends_to (tcp_vtable A :: (('o, 'm) tcp_state_scheme, 'x) world_scheme vtable) (own_fds P) (\<lambda>bs. concat (tcp_frame bs))
    (\<lambda>t h. outq (fd_of t h) (os t)) P"
  unfolding sends_to_def
proof (intro ballI allI impI)
  fix h and bs :: "byte list" and w :: "(('o, 'm) tcp_state_scheme, 'x) world_scheme"
  assume h: "h \<in> P" and a: "own_fds P (net w) \<and> heap w h \<noteq> None \<and> length bs < 2 ^ 31"
  then obtain ob where ob: "heap w h = Some ob" by auto
  have len: "length bs < 2 ^ 63" using a by simp
  let ?fd = "fd_of (net w) h"
  from fd_send_stream [OF assms(1) len, of ?fd "os (net w)"] obtain s where
    s: "fd_send A ?fd bs (os (net w)) = Ret (int (length bs), None, s)"
    "outq ?fd s = outq ?fd (os (net w)) @ concat (tcp_frame bs)" by blast
  have "outq (fd_of (net w) k) s = outq (fd_of (net w) k) (os (net w))" if "k \<in> P" "k \<noteq> h" for k
  proof (rule fd_send_only [OF assms(2) _ s(1)])
    show "fd_of (net w) k \<noteq> ?fd" using a that h by (auto simp: own_fds_def dest: inj_onD)
  qed
  with s ob a show "\<exists>w'. vt_send (tcp_vtable A) h bs w = Ret (int (length bs), w') \<and> heap w' = heap w
      \<and> own_fds P (net w') \<and> (\<forall>k \<in> P. outq (fd_of (net w') k) (os (net w')) =
          (if k = h then outq (fd_of (net w) k) (os (net w)) @ concat (tcp_frame bs)
           else outq (fd_of (net w) k) (os (net w))))"
    by (intro exI [of _ "set_os None s w"])
      (auto simp: tcp_vtable_def tcp_send_def obj_Some own_fds_def)
qed

lemma tcp_delivers:
  fixes A :: "('o, 'a) tcp_sys_scheme"
  assumes "reads_stream A inq" and "reads_only A inq"
  shows "delivers (tcp_vtable A :: (('o, 'm) tcp_state_scheme, 'x) world_scheme vtable) (own_fds P) (tcp_inbox inq) P"
  unfolding delivers_def
proof (intro ballI allI impI)
  fix h m ms sz and w :: "(('o, 'm) tcp_state_scheme, 'x) world_scheme"
  assume h: "h \<in> P" and a: "own_fds P (net w) \<and> heap w h \<noteq> None \<and> tcp_inbox inq (net w) h (m # ms)
    \<and> m \<noteq> [] \<and> length m < 2 ^ 31"
  let ?fd = "fd_of (net w) h"
  from a obtain ob rest where ob: "heap w h = Some ob"
    and inq: "inq ?fd (os (net w)) = concat (tcp_frame m) @ (wire ms @ rest)"
    by (auto simp: tcp_inbox_def)
  from fd_probe_stream [OF assms(1) inq, of sz] obtain s1 where
    s1: "fd_probe A ?fd True sz (os (net w)) = (8, of_nat (length m), None, s1)"
    "inq ?fd s1 = m @ wire ms @ rest" by blast
  have len: "length m < 2 ^ 64" using a by simp
  from fd_receive_stream [OF assms(1) s1(2) len] obtain s2 where
    s2: "fd_receive A ?fd (of_nat (length m)) s1 = (int (length m), m, None, s2)"
    "inq ?fd s2 = wire ms @ rest" by blast
  have others: "inq (fd_of (net w) k) s2 = inq (fd_of (net w) k) (os (net w))" if "k \<in> P" "k \<noteq> h" for k
  proof -
    have "fd_of (net w) k \<noteq> ?fd" using a that h by (auto simp: own_fds_def dest: inj_onD)
    from fd_probe_only [OF assms(2) this s1(1)] fd_receive_only [OF assms(2) this s2(1)]
    show ?thesis by simp
  qed
  have "\<exists>w2. vt_receive (tcp_vtable A) h (of_nat (length m)) (put_obj h ob' (set_os None s1 w)) =
        Ret (int (length m), m, w2) \<and> heap w2 = (heap w)(h \<mapsto> ob') \<and> own_fds P (net w2)
      \<and> tcp_inbox inq (net w2) h ms
      \<and> (\<forall>k \<in> P. \<forall>ns. k \<noteq> h \<and> tcp_inbox inq (net w) k ns \<longrightarrow> tcp_inbox inq (net w2) k ns)" for ob'
    using s2 others a
    by (intro exI [of _ "set_os None s2 (put_obj h ob' (set_os None s1 w))"])
      (auto simp: tcp_vtable_def tcp_receive_def obj_Some own_fds_def tcp_inbox_def)
  with s1 ob show "\<exists>w1. vt_probe (tcp_vtable A) h True sz w = Ret (8, of_nat (length m), w1)
      \<and> heap w1 = heap w \<and> (\<forall>ob. \<exists>w2. vt_receive (tcp_vtable A) h (of_nat (length m)) (put_obj h ob w1) =
          Ret (int (length m), m, w2) \<and> heap w2 = (heap w)(h \<mapsto> ob) \<and> own_fds P (net w2)
        \<and> tcp_inbox inq (net w2) h ms
        \<and> (\<forall>k \<in> P. \<forall>ns. k \<noteq> h \<and> tcp_inbox inq (net w) k ns \<longrightarrow> tcp_inbox inq (net w2) k ns))"
    by (intro exI [of _ "set_os None s1 w"]) (auto simp: tcp_vtable_def tcp_probe_def obj_Some)
qed

text \<open>C19: Over TCP, on sockets that are independent byte streams, the handles of a team provide what the
  collectives rely on: every message sent is appended to the stream of that member only, and what a
  member has sent is delivered message by message and takes nothing from the streams of the others.\<close>

theorem tcp_carries_collectives:
  assumes "writes_stream A outq" and "writes_only A outq" and "reads_stream A inq" and "reads_only A inq"
  shows "sends_to (tcp_vtable A) (own_fds P) (\<lambda>bs. concat (tcp_frame bs)) (\<lambda>t h. outq (fd_of t h) (os t)) P
    \<and> delivers (tcp_vtable A) (own_fds P) (tcp_inbox inq) P"
  using tcp_sends_to [OF assms(1,2)] tcp_delivers [OF assms(3,4)] by (rule conjI)

text \<open>An operating system with a stream in each direction for every descriptor.\<close>

type_synonym mos = "(int \<Rightarrow> byte list) \<times> (int \<Rightarrow> byte list)"

definition multi_sys :: "mos tcp_sys" where
  "multi_sys = \<lparr>
     sk_read = (\<lambda>fd n s. (RBytes (take (min n 3) (fst s fd)), ((fst s)(fd := drop (min n 3) (fst s fd)), snd s))),
     sk_recv_nowait = (\<lambda>fd n s. (RErr EWOULDBLOCK, s)), sk_recv_peek = (\<lambda>fd n s. (RErr EWOULDBLOCK, s)),
     sk_write = (\<lambda>fd bs s. (WOk (length bs), (fst s, (snd s)(fd := snd s fd @ bs)))),
     sk_writev = (\<lambda>fd iov s. (WOk (min 5 (length (concat iov))),
       (fst s, (snd s)(fd := snd s fd @ take (min 5 (length (concat iov))) (concat iov))))),
     sk_junk = replicate 8 0,
     sk_fcntl_getfl = (\<lambda>fd s. ((0, None), s)), sk_fcntl_setfl = (\<lambda>fd fl s. ((0, None), s)),
     sk_connect = (\<lambda>fd a s. ((0, None), s)), sk_clock = (\<lambda>s. (((0, None), (0, 0)), s)),
     sk_poll_out = (\<lambda>fd ms s. ((0, None), s)), sk_so_error = (\<lambda>fd s. (((0, None), OK_errno), s)),
     sk_getaddrinfo = (\<lambda>passive host svc s. (Some [[1]], s)),
     sk_socket = (\<lambda>a s. ((3, None), s)), sk_setsockopt = (\<lambda>fd s. ((0, None), s)),
     sk_bind = (\<lambda>fd a s. ((0, None), s)), sk_listen = (\<lambda>fd n s. ((0, None), s)),
     sk_accept = (\<lambda>fd s. ((-1, Some EWOULDBLOCK), s)),
     sk_select = (\<lambda>nfds S s. (((int (card S), None), S), s)),
     sk_shutdown_wr = (\<lambda>fd s. s), sk_shutdown_rd = (\<lambda>fd s. s), sk_close = (\<lambda>fd s. s),
     sk_sleep_ms = (\<lambda>t s. s)\<rparr>"

lemma multi_writes: "writes_stream multi_sys (\<lambda>fd s. snd s fd)" "writes_only multi_sys (\<lambda>fd s. snd s fd)"
proof -
  show "writes_stream multi_sys (\<lambda>fd s. snd s fd)"
    unfolding writes_stream_def
  proof (intro allI impI)
    fix fd and iov :: "byte list list" and s :: mos
    assume ne: "concat iov \<noteq> []"
    let ?k = "min 5 (length (concat iov))"
    have "0 < ?k" using ne by (cases "concat iov") auto
    then show "\<exists>k s'. 0 < k \<and> k \<le> length (concat iov) \<and> sk_writev multi_sys fd iov s = (WOk k, s')
        \<and> snd s' fd = snd s fd @ take k (concat iov)"
      by (intro exI [of _ ?k] exI [of _ "(fst s, (snd s)(fd := snd s fd @ take ?k (concat iov)))"])
        (simp add: multi_sys_def)
  qed
qed (simp add: writes_only_def multi_sys_def)

lemma multi_reads: "reads_stream multi_sys (\<lambda>fd s. fst s fd)" "reads_only multi_sys (\<lambda>fd s. fst s fd)"
proof -
  show "reads_stream multi_sys (\<lambda>fd s. fst s fd)"
    unfolding reads_stream_def
  proof (intro allI impI)
    fix fd :: int and n :: nat and s :: mos
    assume a: "0 < n \<and> fst s fd \<noteq> []"
    let ?k = "min (min n 3) (length (fst s fd))"
    have "drop (min n 3) (fst s fd) = drop ?k (fst s fd)" by (simp add: min_def)
    moreover have "take (min n 3) (fst s fd) = take ?k (fst s fd)" by (simp add: min_def)
    ultimately show "\<exists>k s'. 0 < k \<and> k \<le> n \<and> k \<le> length (fst s fd) \<and>
        sk_read multi_sys fd n s = (RBytes (take k (fst s fd)), s') \<and> fst s' fd = drop k (fst s fd)"
      by (intro exI [of _ ?k] exI [of _ "((fst s)(fd := drop (min n 3) (fst s fd)), snd s)"])
        (use a in \<open>auto simp: multi_sys_def\<close>)
  qed
qed (simp add: reads_only_def multi_sys_def)

theorem tcp_carries_collectives_witness:
  "delivers (tcp_vtable multi_sys :: (mos tcp_state, unit) world_scheme vtable) (own_fds {1, 2})
     (tcp_inbox (\<lambda>fd s. fst s fd)) {1, 2}"
  using tcp_carries_collectives [OF multi_writes multi_reads] by (rule conjunct2)

section \<open>Losing the root\<close>

text \<open>A member of a broadcast whose connection to the root is lost without an end-of-stream uses a
  deleted object: the lost connection is closed in both directions, which deletes the handle, and
  \<open>receive\<close> closes it again because of the result 0.\<close>

theorem broadcast_lost_root_uses_deleted_handle:
  assumes "transport V" and "heap w h = Some ob" and "counter ob = 0" and "\<not> closed_rd ob"
    and "\<not> fst (probed ob)"
    and "vt_probe V h True 0 w = Ret (0, sz, w1)" and "handle_close V h True True w1 = Ret w2"
  shows "coll_sendrecv junk4 V (BroadcastGeneric (h # ps) False) sendbuff recvbuff n w
    = Fault Use_after_free"
proof -
  have "heap w1 = heap w" by (rule transport.probe_frame [OF assms(1,6)])
  with assms(2) have "heap w1 h = Some ob" by simp
  from close_both_deletes [OF assms(1) this assms(3,7)] have "heap w2 h = None" .
  then show ?thesis
    using assms
    by (simp add: coll_sendrecv_def broadcast_receive_def vec_at_def receiveFromHandle_def
        probeHandle_def obj_Some transport.close_dangling)
qed

theorem broadcast_lost_root_uses_deleted_handle_witness:
  "coll_sendrecv [0, 0, 0, 0] (tcp_vtable sample_sys) (BroadcastGeneric [7] False) [] [0, 0] 2
     (sample_world (new_handle ''TCP'') \<lparr>so_in = [], so_out = [], so_next = 4\<rparr>) = Fault Use_after_free"
proof -
  let ?w = "sample_world (new_handle ''TCP'') \<lparr>so_in = [], so_out = [], so_next = 4\<rparr>"
  have ob: "heap ?w 7 = Some (new_handle ''TCP'')" "counter (new_handle ''TCP'') = 0"
    "\<not> closed_rd (new_handle ''TCP'')" "\<not> fst (probed (new_handle ''TCP''))"
    by (simp_all add: sample_defs)
  obtain w1 where p: "vt_probe (tcp_vtable sample_sys) 7 True 0 ?w = Ret (0, 0, w1)"
    and w1: "w1 = set_os None \<lparr>so_in = [], so_out = [], so_next = 4\<rparr> ?w"
    by (simp add: tcp_vtable_def tcp_probe_def fd_probe_def readn_def readn_loop.simps sample_defs
        sample_sys_def so_read_def obj_def Let_def)
  have fd: "fd_of (net w1) 7 = 3" and h1: "heap w1 7 = Some (new_handle ''TCP'')"
    by (simp_all add: w1 sample_defs)
  from sendEOS_call [OF h1, of sample_sys] obtain r e s where
    eos: "tcp_sendEOS sample_sys 7 w1 = Ret (r, set_os e s w1)" by blast
  let ?v = "put_obj 7 ((new_handle ''TCP'')\<lparr>closed_wr := True, closed_rd := True\<rparr>) (set_os e s w1)"
  have "\<exists>w2. tcp_notify_close sample_sys 7 True True ?v = Ret w2 \<and> heap w2 = heap ?v"
    using shut_both [of 3 ?v 7 _ sample_sys] fd by (auto simp: FD_SETSIZE_def)
  then obtain w3 where w3: "tcp_notify_close sample_sys 7 True True ?v = Ret w3" "heap w3 = heap ?v"
    by blast
  then obtain w2 where cl: "handle_close (tcp_vtable sample_sys) 7 True True w1 = Ret w2"
    using eos h1 by (simp add: handle_close_def tcp_vtable_def obj_Some upd_obj_Some new_handle_def)
  from broadcast_lost_root_uses_deleted_handle [OF tcp.transport_axioms ob p cl] show ?thesis by simp
qed

end
