(* ===== verification/ShmBuffer.thy ===== *)
theory ShmBuffer
  imports Handle CxxString
begin

text \<open>
  \<open>include/protocols/shm_buffer.hpp\<close>: a one-slot buffer in a shared-memory segment.
  \<^item> \<open>seg\<close> is the mapped \<open>shmSegment\<close>: \<open>guard\<close> tells whether its pointer is not null (the slot is
    full), \<open>dsize\<close> and \<open>ddata\<close> are the \<open>buffer_element_t\<close>. The spin lock has no field: every member
    touches the segment only between \<open>pthread_spin_lock\<close> and \<open>pthread_spin_unlock\<close>, so a critical
    section is one step.
  \<^item> \<open>sm_others\<close> is what the other processes do to the segments between two acquisitions of the
    lock; it is arbitrary, so a member is run under every interleaving. A member that spins takes
    a bound on the rounds and is \<open>Fault No_return\<close> beyond it.
  \<^item> \<open>shmBuffer\<close> holds the members of the class; a member function returns its result, the \<open>errno\<close>
    it sets and the new state.
  \<^item> \<open>float_of\<close> is the conversion \<open>(float)size\<close>, which rounds to 24 significant bits: the number of
    pieces \<open>get\<close> expects is computed with it.
\<close>

definition SHM_SMALL_MSG_SIZE :: nat where
  "SHM_SMALL_MSG_SIZE = 2 ^ 22"

definition SHM_MAX_CONCURRENT_CONN :: nat where
  "SHM_MAX_CONCURRENT_CONN = 1024"

record seg =
  guard :: bool
  dsize :: u64
  ddata :: "byte list"

text \<open>\<open>shmp\<close>: the null pointer, \<open>MAP_FAILED\<close>, or a mapped segment.\<close>

datatype shm_ptr = Shm_null | Shm_failed | Shm_at nat

record shmBuffer =
  shmp :: shm_ptr
  segmentname :: string
  opened :: bool

definition shmBuffer_new :: shmBuffer where
  "shmBuffer_new = \<lparr>shmp = Shm_null, segmentname = [], opened = False\<rparr>"

type_synonym shm_ret = "int \<times> errno_t option"

text \<open>The POSIX calls. \<open>sm_open\<close> is \<open>shm_open\<close>, its flag tells \<open>O_CREAT|O_EXCL\<close>, its second one
  \<open>O_TRUNC\<close>; \<open>sm_mmap\<close> gives the mapped segment.\<close>

record 'o shm_sys =
  sm_open :: "bool \<Rightarrow> bool \<Rightarrow> string \<Rightarrow> 'o \<Rightarrow> shm_ret \<times> 'o"
  sm_ftruncate :: "int \<Rightarrow> 'o \<Rightarrow> shm_ret \<times> 'o"
  sm_mmap :: "int \<Rightarrow> 'o \<Rightarrow> (nat option \<times> errno_t option) \<times> 'o"
  sm_close :: "int \<Rightarrow> 'o \<Rightarrow> 'o"
  sm_spin_init :: "nat \<Rightarrow> 'o \<Rightarrow> int \<times> 'o"
  sm_munmap :: "nat \<Rightarrow> 'o \<Rightarrow> 'o"
  sm_unlink :: "string \<Rightarrow> 'o \<Rightarrow> 'o"
  sm_others :: "'o \<Rightarrow> (nat \<Rightarrow> seg) \<Rightarrow> (nat \<Rightarrow> seg) \<times> 'o"

text \<open>The memory a member works on: the segments and the operating system.\<close>

type_synonym 'o shm_mem = "(nat \<Rightarrow> seg) \<times> 'o"

definition set_seg :: "nat \<Rightarrow> seg \<Rightarrow> 'o shm_mem \<Rightarrow> 'o shm_mem" where
  "set_seg g sg m = ((fst m)(g := sg), snd m)"

section \<open>Sizes\<close>

text \<open>\<open>(float)n\<close> as a natural number: to nearest, ties to even, 24 bits of significand.\<close>

fun float_ulp :: "nat \<Rightarrow> nat" where
  "float_ulp n = (if n < 2 ^ 24 then 1 else 2 * float_ulp (n div 2))"

declare float_ulp.simps [simp del]

definition float_of :: "nat \<Rightarrow> nat" where
  "float_of n =
     (let u = float_ulp n; q = n div u; r = n mod u
      in if u < 2 * r \<or> (u = 2 * r \<and> odd q) then (q + 1) * u else q * u)"

text \<open>\<open>std::ceil((float)size / SHM_SMALL_MSG_SIZE)\<close>; the division by a power of two is exact.\<close>

definition shm_nmsgs :: "nat \<Rightarrow> nat" where
  "shm_nmsgs n = (float_of n + SHM_SMALL_MSG_SIZE - 1) div SHM_SMALL_MSG_SIZE"

section \<open>Creating, opening, closing\<close>

definition createBuffer ::
  "('o, 'a) shm_sys_scheme \<Rightarrow> string \<Rightarrow> bool \<Rightarrow> shmBuffer \<Rightarrow> 'o shm_mem
     \<Rightarrow> int \<times> errno_t option \<times> shmBuffer \<times> 'o shm_mem" where
  "createBuffer A name force b m =
     (let (sgs, s) = m; ((fd, e), s) = sm_open A True force name s
      in if fd = -1 then (-1, e, b, (sgs, s)) else
      let ((r, e), s) = sm_ftruncate A fd s
      in if r = -1 then (-1, e, b, (sgs, s)) else
      let ((p, e), s) = sm_mmap A fd s; s = sm_close A fd s
      in case p of
           None \<Rightarrow> (-1, e, b\<lparr>shmp := Shm_null\<rparr>, (sgs, s))
         | Some g \<Rightarrow>
             let b = b\<lparr>shmp := Shm_at g\<rparr>; (rc, s) = sm_spin_init A g s
             in if rc \<noteq> 0 then (-1, None, b, (sgs, s))
                else (0, None, b\<lparr>segmentname := name, opened := True\<rparr>,
                      set_seg g ((sgs g)\<lparr>guard := False\<rparr>) (sgs, s)))"

definition shm_create ::
  "('o, 'a) shm_sys_scheme \<Rightarrow> string \<Rightarrow> bool \<Rightarrow> shmBuffer \<Rightarrow> 'o shm_mem
     \<Rightarrow> int \<times> errno_t option \<times> shmBuffer \<times> 'o shm_mem" where
  "shm_create A name force b m =
     (if int SHM_SMALL_MSG_SIZE < sizeof_size_t then (-1, Some EINVAL, b, m)
      else createBuffer A name force b m)"

definition shm_isOpen :: "shmBuffer \<Rightarrow> bool" where
  "shm_isOpen b = opened b"

definition shm_open ::
  "('o, 'a) shm_sys_scheme \<Rightarrow> string \<Rightarrow> shmBuffer \<Rightarrow> 'o shm_mem
     \<Rightarrow> int \<times> errno_t option \<times> shmBuffer \<times> 'o shm_mem" where
  "shm_open A name b m =
     (if int SHM_SMALL_MSG_SIZE < sizeof_size_t then (-1, Some EINVAL, b, m)
      else if opened b then (-1, Some EPERM, b, m)
      else
      let (sgs, s) = m; ((fd, e), s) = sm_open A False False name s
      in if fd = -1 then (-1, e, b, (sgs, s)) else
      let ((p, e), s) = sm_mmap A fd s
      in case p of
           None \<Rightarrow> (-1, e, b\<lparr>shmp := Shm_failed\<rparr>, (sgs, s))
         | Some g \<Rightarrow>
             (0, None, b\<lparr>shmp := Shm_at g, segmentname := name, opened := True\<rparr>,
              (sgs, sm_close A fd s)))"

definition shm_close ::
  "('o, 'a) shm_sys_scheme \<Rightarrow> bool \<Rightarrow> shmBuffer \<Rightarrow> 'o shm_mem
     \<Rightarrow> int \<times> errno_t option \<times> shmBuffer \<times> 'o shm_mem" where
  "shm_close A unlink b m =
     (if shmp b = Shm_null then (-1, Some EPERM, b, m)
      else
      let (sgs, s) = m;
          s = (case shmp b of Shm_at g \<Rightarrow> sm_munmap A g s | _ \<Rightarrow> s);
          s = (if unlink then sm_unlink A (segmentname b) s else s)
      in (0, None, b\<lparr>shmp := Shm_null, opened := False\<rparr>, (sgs, s)))"

section \<open>Critical sections\<close>

text \<open>A member access through \<open>shmp\<close>.\<close>

definition mapped :: "shmBuffer \<Rightarrow> (nat \<Rightarrow> 'r out) \<Rightarrow> 'r out" where
  "mapped b f =
     (case shmp b of Shm_null \<Rightarrow> Fault Null_deref | Shm_failed \<Rightarrow> Fault Out_of_bounds | Shm_at g \<Rightarrow> f g)"

text \<open>\<open>pthread_spin_lock\<close> when the others have run.\<close>

definition lock :: "('o, 'a) shm_sys_scheme \<Rightarrow> 'o shm_mem \<Rightarrow> 'o shm_mem" where
  "lock A m = sm_others A (snd m) (fst m)"

text \<open>The loop that takes the lock until the slot is in the wanted state.\<close>

fun spin :: "nat \<Rightarrow> ('o, 'a) shm_sys_scheme \<Rightarrow> bool \<Rightarrow> nat \<Rightarrow> 'o shm_mem \<Rightarrow> 'o shm_mem out" where
  "spin 0 A full g m = Fault No_return"
| "spin (Suc c) A full g m =
     (let m = lock A m in if guard (fst m g) = full then Ret m else spin c A full g m)"

text \<open>\<open>memcpy\<close> into the start of the slot; what a \<open>put\<close> does between lock and unlock: the piece at
  offset \<open>p\<close> of the message.\<close>

definition overwrite :: "byte list \<Rightarrow> byte list \<Rightarrow> byte list" where
  "overwrite bs old = bs @ drop (length bs) old"

definition put_piece :: "byte list \<Rightarrow> nat \<Rightarrow> seg \<Rightarrow> seg" where
  "put_piece bs p sg =
     sg\<lparr>dsize := of_nat (length bs),
        ddata := overwrite (take SHM_SMALL_MSG_SIZE (drop p bs)) (ddata sg), guard := True\<rparr>"

definition put_eos :: "seg \<Rightarrow> seg" where
  "put_eos sg = sg\<lparr>dsize := 0, guard := True\<rparr>"

text \<open>What a \<open>get\<close> takes when \<open>left\<close> bytes are missing.\<close>

definition piece :: "nat \<Rightarrow> seg \<Rightarrow> byte list" where
  "piece left sg = take (min left SHM_SMALL_MSG_SIZE) (ddata sg)"

definition emptied :: "seg \<Rightarrow> seg" where
  "emptied sg = sg\<lparr>guard := False\<rparr>"

section \<open>put\<close>

function put_loop ::
  "nat \<Rightarrow> ('o, 'a) shm_sys_scheme \<Rightarrow> nat \<Rightarrow> byte list \<Rightarrow> nat \<Rightarrow> 'o shm_mem \<Rightarrow> 'o shm_mem out" where
  "put_loop c A g bs p m =
     (if p < length bs then
        bnd (spin c A False g m) (\<lambda>m.
        put_loop c A g bs (p + min (length bs - p) SHM_SMALL_MSG_SIZE)
          (set_seg g (put_piece bs p (fst m g)) m))
      else Ret m)"
  by pat_completeness auto
termination
  by (relation "measure (\<lambda>(c, A, g, bs, p, m). length bs - p)") (auto simp: SHM_SMALL_MSG_SIZE_def)

declare put_loop.simps [simp del]

text \<open>\<open>put(data, sz)\<close>: \<open>None\<close> is the null pointer, \<open>Some bs\<close> the \<open>sz\<close> bytes at \<open>data\<close>.\<close>

definition shm_put ::
  "nat \<Rightarrow> ('o, 'a) shm_sys_scheme \<Rightarrow> shmBuffer \<Rightarrow> byte list option \<Rightarrow> 'o shm_mem
     \<Rightarrow> (int \<times> errno_t option \<times> 'o shm_mem) out" where
  "shm_put c A b data m =
     (if shmp b = Shm_null \<or> data = None then Ret (-1, Some EINVAL, m)
      else mapped b (\<lambda>g.
        let bs = the data
        in if bs = [] then
             bnd (spin c A False g m) (\<lambda>m. Ret (0, None, set_seg g (put_eos (fst m g)) m))
           else
             bnd (put_loop c A g bs 0 m) (\<lambda>m. Ret (ssize_of (of_nat (length bs)), None, m))))"

section \<open>get\<close>

text \<open>
  The copying loop of \<open>get\<close> and \<open>tryget\<close>, entered with the lock held: \<open>k\<close> is \<open>nmsgs\<close>, \<open>left\<close> is
  the inner \<open>sz\<close>, \<open>got\<close> the bytes already at the start of the caller's buffer of \<open>room\<close> bytes.
\<close>

fun get_loop ::
  "nat \<Rightarrow> ('o, 'a) shm_sys_scheme \<Rightarrow> nat \<Rightarrow> nat \<Rightarrow> nat \<Rightarrow> nat \<Rightarrow> byte list \<Rightarrow> 'o shm_mem
     \<Rightarrow> (byte list \<times> 'o shm_mem) out" where
  "get_loop c A g room 0 left got m = Ret (got, m)"
| "get_loop c A g room (Suc k) left got m =
     (let bs = piece left (fst m g)
      in if room < length got + length bs then Fault Out_of_bounds
         else
           let m = set_seg g (emptied (fst m g)) m
           in if k = 0 then Ret (got @ bs, m)
              else bnd (spin c A True g m) (\<lambda>m.
                   get_loop c A g room k (left - min left SHM_SMALL_MSG_SIZE) (got @ bs) m))"

text \<open>The part of \<open>get\<close> and \<open>tryget\<close> after the lock is held on a full slot.\<close>

definition get_locked ::
  "nat \<Rightarrow> ('o, 'a) shm_sys_scheme \<Rightarrow> nat \<Rightarrow> u64 \<Rightarrow> 'o shm_mem
     \<Rightarrow> (int \<times> byte list \<times> errno_t option \<times> 'o shm_mem) out" where
  "get_locked c A g sz m =
     (let size1 = unat (dsize (fst m g))
      in if size1 = 0 then Ret (0, [], None, set_seg g (emptied (fst m g)) m)
         else
           bnd (get_loop c A g (unat sz) (shm_nmsgs size1) size1 [] m) (\<lambda>(bs, m).
           Ret (ssize_of (of_nat size1), bs, None, m)))"

text \<open>\<open>get(data, sz)\<close>: \<open>data\<close> tells whether the pointer is not null; it has \<open>sz\<close> bytes.\<close>

definition shm_get ::
  "nat \<Rightarrow> ('o, 'a) shm_sys_scheme \<Rightarrow> shmBuffer \<Rightarrow> bool \<Rightarrow> u64 \<Rightarrow> 'o shm_mem
     \<Rightarrow> (int \<times> byte list \<times> errno_t option \<times> 'o shm_mem) out" where
  "shm_get c A b data sz m =
     (if shmp b = Shm_null \<or> \<not> data \<or> sz = 0 then Ret (-1, [], Some EINVAL, m)
      else mapped b (\<lambda>g. bnd (spin c A True g m) (\<lambda>m. get_locked c A g sz m)))"

definition shm_tryget ::
  "nat \<Rightarrow> ('o, 'a) shm_sys_scheme \<Rightarrow> shmBuffer \<Rightarrow> bool \<Rightarrow> u64 \<Rightarrow> 'o shm_mem
     \<Rightarrow> (int \<times> byte list \<times> errno_t option \<times> 'o shm_mem) out" where
  "shm_tryget c A b data sz m =
     (if shmp b = Shm_null \<or> \<not> data \<or> sz = 0 then Ret (-1, [], Some EINVAL, m)
      else mapped b (\<lambda>g.
        let m = lock A m
        in if \<not> guard (fst m g) then Ret (-1, [], Some EAGAIN, m)
           else get_locked c A g sz m))"

definition shm_getsize ::
  "nat \<Rightarrow> ('o, 'a) shm_sys_scheme \<Rightarrow> shmBuffer \<Rightarrow> 'o shm_mem
     \<Rightarrow> (int \<times> errno_t option \<times> 'o shm_mem) out" where
  "shm_getsize c A b m =
     (if shmp b = Shm_null then Ret (-1, Some EINVAL, m)
      else mapped b (\<lambda>g. bnd (spin c A True g m) (\<lambda>m. Ret (ssize_of (dsize (fst m g)), None, m))))"

definition shm_trygetsize ::
  "('o, 'a) shm_sys_scheme \<Rightarrow> shmBuffer \<Rightarrow> 'o shm_mem \<Rightarrow> (int \<times> errno_t option \<times> 'o shm_mem) out" where
  "shm_trygetsize A b m =
     (if shmp b = Shm_null then Ret (-1, Some EINVAL, m)
      else mapped b (\<lambda>g.
        let m = lock A m
        in if \<not> guard (fst m g) then Ret (-1, Some EAGAIN, m)
           else Ret (ssize_of (dsize (fst m g)), None, m)))"

definition shm_peek ::
  "('o, 'a) shm_sys_scheme \<Rightarrow> shmBuffer \<Rightarrow> 'o shm_mem \<Rightarrow> (int \<times> 'o shm_mem) out" where
  "shm_peek A b m =
     mapped b (\<lambda>g. let m = lock A m in Ret (if guard (fst m g) then 1 else 0, m))"

end
