(* ===== verification/ShmChannel.thy ===== *)
theory ShmChannel
  imports ShmBuffer
begin

text \<open>
  A writer and a reader on one shared-memory buffer: the writer runs \<open>put\<close> for one message after
  the other, the reader runs \<open>get\<close> again and again, and their critical sections interleave.
  \<^item> \<open>chan\<close>: the segment, the messages not yet put completely and the offset reached in the first
    of them, the state of the copying loop of a \<open>get\<close> in progress (bytes missing, pieces missing,
    bytes copied), and what the calls of \<open>get\<close> have delivered.
  \<^item> \<open>chan_step\<close>: one critical section of either side, with the pieces of \<open>ShmBuffer\<close>.
  \<^item> Lemmas: the steps are deterministic because the guard admits one side at a time; a message
    whose pieces \<open>get\<close> counts correctly is transferred; the count is exact up to \<open>2^24\<close> bytes.
\<close>

record chan =
  sg :: seg
  wq :: "byte list list"
  wp :: nat
  racc :: "(nat \<times> nat \<times> byte list) option"
  rdone :: "byte list list"

definition chan_init :: "seg \<Rightarrow> byte list list \<Rightarrow> chan" where
  "chan_init s ms = \<lparr>sg = emptied s, wq = ms, wp = 0, racc = None, rdone = []\<rparr>"

text \<open>\<open>get\<close> after a piece has been copied: it returns, or it goes on with \<open>k\<close> pieces.\<close>

definition got_piece :: "nat \<Rightarrow> nat \<Rightarrow> byte list \<Rightarrow> chan \<Rightarrow> chan" where
  "got_piece left k got c =
     (let c = c\<lparr>sg := emptied (sg c)\<rparr>
      in if k = 0 then c\<lparr>racc := None, rdone := rdone c @ [got]\<rparr>
         else c\<lparr>racc := Some (left - min left SHM_SMALL_MSG_SIZE, k, got)\<rparr>)"

inductive chan_step :: "chan \<Rightarrow> chan \<Rightarrow> bool" where
  put_empty: "wq c = [] # ms \<Longrightarrow> \<not> guard (sg c) \<Longrightarrow>
    chan_step c (c\<lparr>sg := put_eos (sg c), wq := ms\<rparr>)"
| put_more: "wq c = m # ms \<Longrightarrow> m \<noteq> [] \<Longrightarrow> \<not> guard (sg c) \<Longrightarrow>
    p = wp c + min (length m - wp c) SHM_SMALL_MSG_SIZE \<Longrightarrow> p < length m \<Longrightarrow>
    chan_step c (c\<lparr>sg := put_piece m (wp c) (sg c), wp := p\<rparr>)"
| put_last: "wq c = m # ms \<Longrightarrow> m \<noteq> [] \<Longrightarrow> \<not> guard (sg c) \<Longrightarrow>
    p = wp c + min (length m - wp c) SHM_SMALL_MSG_SIZE \<Longrightarrow> \<not> p < length m \<Longrightarrow>
    chan_step c (c\<lparr>sg := put_piece m (wp c) (sg c), wp := 0, wq := ms\<rparr>)"
| get_empty: "racc c = None \<Longrightarrow> guard (sg c) \<Longrightarrow> dsize (sg c) = 0 \<Longrightarrow>
    chan_step c (c\<lparr>sg := emptied (sg c), rdone := rdone c @ [[]]\<rparr>)"
| get_first: "racc c = None \<Longrightarrow> guard (sg c) \<Longrightarrow> n = unat (dsize (sg c)) \<Longrightarrow> 0 < n \<Longrightarrow>
    shm_nmsgs n = Suc k \<Longrightarrow> chan_step c (got_piece n k (piece n (sg c)) c)"
| get_next: "racc c = Some (left, Suc k, got) \<Longrightarrow> guard (sg c) \<Longrightarrow>
    chan_step c (got_piece left k (got @ piece left (sg c)) c)"

inductive_cases chan_stepE: "chan_step c c'"

section \<open>The number of pieces\<close>

text \<open>How many pieces \<open>put\<close> makes of a message of \<open>n > 0\<close> bytes.\<close>

definition shm_pieces :: "nat \<Rightarrow> nat" where
  "shm_pieces n = (n + SHM_SMALL_MSG_SIZE - 1) div SHM_SMALL_MSG_SIZE"

lemma float_of_small: "n < 2 ^ 24 \<Longrightarrow> float_of n = n"
  by (simp add: float_of_def float_ulp.simps)

lemma nmsgs_exact:
  assumes "n \<le> 2 ^ 24"
  shows "shm_nmsgs n = shm_pieces n"
proof (cases "n = 2 ^ 24")
  case True
  then show ?thesis by (simp add: shm_nmsgs_def shm_pieces_def float_of_def float_ulp.simps Let_def)
next
  case False
  with assms have "n < 2 ^ 24" by simp
  then show ?thesis by (simp add: shm_nmsgs_def shm_pieces_def float_of_small)
qed

lemma pieces_bounds:
  assumes "0 < n"
  shows "0 < shm_pieces n" and "(shm_pieces n - 1) * SHM_SMALL_MSG_SIZE < n"
    and "n \<le> shm_pieces n * SHM_SMALL_MSG_SIZE"
proof -
  let ?K = SHM_SMALL_MSG_SIZE
  have K: "0 < ?K" by (simp add: SHM_SMALL_MSG_SIZE_def)
  have eq: "(n + ?K - 1) div ?K = Suc ((n - 1) div ?K)"
    using assms K by (metis Nat.add_diff_assoc2 One_nat_def Suc_leI div_add_self2 less_numeral_extra(3)
        plus_1_eq_Suc add.commute)
  then show "0 < shm_pieces n" by (simp add: shm_pieces_def)
  have "(n - 1) div ?K * ?K < n"
    using assms by (intro le_less_trans [OF div_times_less_eq_dividend]) simp
  with eq show "(shm_pieces n - 1) * ?K < n" by (simp add: shm_pieces_def)
  have "n - 1 < Suc ((n - 1) div ?K) * ?K" using K dividend_less_div_times by (simp add: add.commute)
  with eq assms show "n \<le> shm_pieces n * ?K" by (simp add: shm_pieces_def)
qed

section \<open>Runs\<close>

lemma chan_deterministic:
  assumes "chan_step a b" and "chan_step a c"
  shows "b = c"
  using assms(1)
  by (cases rule: chan_step.cases) (use assms(2) in \<open>auto elim!: chan_stepE\<close>)

lemma deterministic_run:
  assumes "chan_step\<^sup>*\<^sup>* a f" and "\<nexists>f'. chan_step f f'" and "chan_step\<^sup>*\<^sup>* a c"
  shows "chan_step\<^sup>*\<^sup>* c f"
  using assms(3,1)
proof (induction rule: rtranclp_induct)
  case (step y z)
  then have "chan_step\<^sup>*\<^sup>* y f" by blast
  then show ?case
  proof (cases rule: converse_rtranclpE)
    case base
    with step assms(2) show ?thesis by blast
  next
    case (step y')
    with \<open>chan_step y z\<close> chan_deterministic show ?thesis by blast
  qed
qed

lemma piece_put:
  "p \<le> length m \<Longrightarrow> piece (length m - p) (put_piece m p s) = take SHM_SMALL_MSG_SIZE (drop p m)"
  by (simp add: piece_def put_piece_def overwrite_def min_def)

text \<open>A writer and a reader that have both handled \<open>j\<close> pieces of the message \<open>m\<close>.\<close>

definition midway :: "byte list \<Rightarrow> byte list list \<Rightarrow> byte list list \<Rightarrow> nat \<Rightarrow> chan \<Rightarrow> bool" where
  "midway m ms d j c \<longleftrightarrow> wq c = m # ms \<and> wp c = j * SHM_SMALL_MSG_SIZE \<and> \<not> guard (sg c)
     \<and> rdone c = d
     \<and> racc c = (if j = 0 then None
                 else Some (length m - j * SHM_SMALL_MSG_SIZE, shm_nmsgs (length m) - j,
                            take (j * SHM_SMALL_MSG_SIZE) m))"

lemma get_after_put:
  assumes "midway m ms d j c" and "j < shm_nmsgs (length m)" and "0 < length m"
    and "length m < 2 ^ 64" and "j * SHM_SMALL_MSG_SIZE < length m"
    and "sg c1 = put_piece m (wp c) (sg c)" and "racc c1 = racc c"
  shows "chan_step c1 (got_piece (length m - j * SHM_SMALL_MSG_SIZE) (shm_nmsgs (length m) - Suc j)
           (take (Suc j * SHM_SMALL_MSG_SIZE) m) c1)"
proof -
  let ?K = SHM_SMALL_MSG_SIZE
  have full: "guard (sg c1)" "unat (dsize (sg c1)) = length m"
    using assms(4,6) by (simp_all add: put_piece_def unat_of_nat_u64)
  have pc: "piece (length m - j * ?K) (sg c1) = take ?K (drop (j * ?K) m)"
    using assms(1,5,6) piece_put [of "j * ?K" m "sg c"] by (simp add: midway_def)
  show ?thesis
  proof (cases j)
    case 0
    with chan_step.get_first [of c1 "length m" "shm_nmsgs (length m) - 1"] assms full pc
    show ?thesis by (simp add: midway_def)
  next
    case (Suc i)
    have "shm_nmsgs (length m) - j = Suc (shm_nmsgs (length m) - Suc j)" using assms(2) by simp
    with assms(1,7) Suc have "racc c1 = Some (length m - j * ?K, Suc (shm_nmsgs (length m) - Suc j),
        take (j * ?K) m)" by (simp add: midway_def)
    from chan_step.get_next [OF this full(1)] show ?thesis
      by (simp add: pc take_add [symmetric] add.commute)
  qed
qed

lemma midway_step:
  assumes "midway m ms d j c" and "Suc j < shm_nmsgs (length m)" and "length m < 2 ^ 64"
    and "Suc j * SHM_SMALL_MSG_SIZE < length m"
  shows "\<exists>c'. chan_step\<^sup>*\<^sup>* c c' \<and> midway m ms d (Suc j) c'"
proof -
  let ?K = SHM_SMALL_MSG_SIZE
  have p: "wp c + min (length m - wp c) ?K = Suc j * ?K"
    using assms(1,4) by (simp add: midway_def)
  let ?c1 = "c\<lparr>sg := put_piece m (wp c) (sg c), wp := Suc j * ?K\<rparr>"
  have "m \<noteq> []" using assms(4) by auto
  from chan_step.put_more [OF _ this _ p [symmetric] assms(4)] assms(1)
  have "chan_step c ?c1" by (simp add: midway_def)
  moreover have "chan_step ?c1 (got_piece (length m - j * ?K) (shm_nmsgs (length m) - Suc j)
      (take (Suc j * ?K) m) ?c1)"
    using assms by (intro get_after_put) auto
  moreover have "midway m ms d (Suc j) (got_piece (length m - j * ?K)
      (shm_nmsgs (length m) - Suc j) (take (Suc j * ?K) m) ?c1)"
    using assms by (auto simp: midway_def got_piece_def Let_def emptied_def min_def)
  ultimately show ?thesis by (meson converse_rtranclp_into_rtranclp rtranclp.rtrancl_refl)
qed

lemma midway_reach:
  assumes "midway m ms d 0 c" and "j < shm_nmsgs (length m)" and "length m < 2 ^ 64"
    and "j * SHM_SMALL_MSG_SIZE < length m"
  shows "\<exists>c'. chan_step\<^sup>*\<^sup>* c c' \<and> midway m ms d j c'"
  using assms(2,4)
proof (induction j)
  case 0
  then show ?case using assms(1) by blast
next
  case (Suc j)
  then obtain c' where "chan_step\<^sup>*\<^sup>* c c'" "midway m ms d j c'" by auto
  with midway_step [of m ms d j c'] Suc.prems assms(3) show ?case by (meson rtranclp_trans)
qed

text \<open>A message that \<open>get\<close> counts correctly is handed over.\<close>

lemma transfer_one:
  assumes "wq c = m # ms" and "wp c = 0" and "\<not> guard (sg c)" and "racc c = None"
    and "m \<noteq> []" and "length m < 2 ^ 64" and "shm_nmsgs (length m) = shm_pieces (length m)"
  shows "\<exists>c'. chan_step\<^sup>*\<^sup>* c c' \<and> wq c' = ms \<and> wp c' = 0 \<and> \<not> guard (sg c') \<and> racc c' = None
    \<and> rdone c' = rdone c @ [m]"
proof -
  let ?K = SHM_SMALL_MSG_SIZE and ?n = "shm_pieces (length m)"
  have n: "0 < ?n" "(?n - 1) * ?K < length m" "length m \<le> ?n * ?K"
    using pieces_bounds [of "length m"] assms(5) by auto
  have "midway m ms (rdone c) 0 c" using assms by (simp add: midway_def)
  from midway_reach [OF this, of "?n - 1"] n assms obtain c1
    where run: "chan_step\<^sup>*\<^sup>* c c1" and mid: "midway m ms (rdone c) (?n - 1) c1" by auto
  let ?j = "?n - 1"
  have p: "\<not> wp c1 + min (length m - wp c1) ?K < length m"
    using mid n by (auto simp: midway_def min_def algebra_simps split: if_splits)
  let ?c2 = "c1\<lparr>sg := put_piece m (wp c1) (sg c1), wp := 0, wq := ms\<rparr>"
  have put: "chan_step c1 ?c2"
    using chan_step.put_last [of c1 m ms] mid assms(5) p by (auto simp: midway_def)
  have get: "chan_step ?c2 (got_piece (length m - ?j * ?K) (shm_nmsgs (length m) - Suc ?j)
      (take (Suc ?j * ?K) m) ?c2)"
    using mid n assms by (intro get_after_put) auto
  have "rdone c1 = rdone c" using mid by (simp add: midway_def)
  then have fin: "got_piece (length m - ?j * ?K) (shm_nmsgs (length m) - Suc ?j)
      (take (Suc ?j * ?K) m) ?c2 =
      ?c2\<lparr>sg := emptied (sg ?c2), racc := None, rdone := rdone c @ [m]\<rparr>"
    using n assms(7) by (simp add: got_piece_def Let_def)
  from run put get have "chan_step\<^sup>*\<^sup>* c (?c2\<lparr>sg := emptied (sg ?c2), racc := None, rdone := rdone c @ [m]\<rparr>)"
    unfolding fin by (meson rtranclp.rtrancl_into_rtrancl)
  then show ?thesis by (intro exI conjI) (auto simp: emptied_def)
qed

lemma transfer_empty:
  assumes "wq c = [] # ms" and "wp c = 0" and "\<not> guard (sg c)" and "racc c = None"
  shows "\<exists>c'. chan_step\<^sup>*\<^sup>* c c' \<and> wq c' = ms \<and> wp c' = 0 \<and> \<not> guard (sg c') \<and> racc c' = None
    \<and> rdone c' = rdone c @ [[]]"
proof -
  let ?c1 = "c\<lparr>sg := put_eos (sg c), wq := ms\<rparr>"
  let ?c2 = "?c1\<lparr>sg := emptied (sg ?c1), rdone := rdone c @ [[]]\<rparr>"
  have "chan_step c ?c1" using assms by (intro chan_step.put_empty)
  moreover have "chan_step ?c1 ?c2"
    using chan_step.get_empty [of ?c1] assms by (simp add: put_eos_def)
  ultimately have "chan_step\<^sup>*\<^sup>* c ?c2" by auto
  with assms show ?thesis by (intro exI [of _ ?c2]) (simp add: emptied_def)
qed

lemma transfer_all:
  assumes "\<forall>m \<in> set ms. length m < 2 ^ 64 \<and> shm_nmsgs (length m) = shm_pieces (length m)"
    and "wq c = ms" and "wp c = 0" and "\<not> guard (sg c)" and "racc c = None"
  shows "\<exists>c'. chan_step\<^sup>*\<^sup>* c c' \<and> wq c' = [] \<and> \<not> guard (sg c') \<and> racc c' = None
    \<and> rdone c' = rdone c @ ms"
  using assms
proof (induction ms arbitrary: c)
  case Nil
  then show ?case by auto
next
  case (Cons m ms)
  have "\<exists>c'. chan_step\<^sup>*\<^sup>* c c' \<and> wq c' = ms \<and> wp c' = 0 \<and> \<not> guard (sg c') \<and> racc c' = None
      \<and> rdone c' = rdone c @ [m]"
    using Cons.prems transfer_empty [of c ms] transfer_one [of c m ms] by (cases "m = []") auto
  then obtain c1 where c1: "chan_step\<^sup>*\<^sup>* c c1" "wq c1 = ms" "wp c1 = 0" "\<not> guard (sg c1)"
    "racc c1 = None" "rdone c1 = rdone c @ [m]" by blast
  from Cons.IH [of c1] Cons.prems(1) c1(2-5) obtain c2
    where "chan_step\<^sup>*\<^sup>* c1 c2" "wq c2 = []" "\<not> guard (sg c2)" "racc c2 = None"
      "rdone c2 = rdone c1 @ ms" by auto
  with c1(1,6) show ?case by (intro exI [of _ c2]) auto
qed

lemma chan_stuck: "wq c = [] \<Longrightarrow> \<not> guard (sg c) \<Longrightarrow> \<not> chan_step c c'"
  by (auto elim: chan_stepE)

text \<open>C7: A reader that calls \<open>get\<close> again and again receives exactly the messages another process
  \<open>put\<close>s, whole and in order, in every interleaving of the critical sections, for messages of at
  most \<open>2^24\<close> bytes (four slots): wherever the two are, they can go on, and when neither can go on
  everything has been delivered and the slot is empty.\<close>

theorem shm_messages_in_order:
  assumes "\<forall>m \<in> set ms. length m \<le> 2 ^ 24" and "chan_step\<^sup>*\<^sup>* (chan_init s ms) c"
  shows "(\<exists>f. chan_step\<^sup>*\<^sup>* c f \<and> (\<nexists>f'. chan_step f f'))
    \<and> (\<forall>f. chan_step\<^sup>*\<^sup>* c f \<and> (\<nexists>f'. chan_step f f') \<longrightarrow>
        rdone f = ms \<and> wq f = [] \<and> racc f = None \<and> \<not> guard (sg f))"
proof -
  have exact: "\<forall>m \<in> set ms. length m < 2 ^ 64 \<and> shm_nmsgs (length m) = shm_pieces (length m)"
    using assms(1) nmsgs_exact by fastforce
  from transfer_all [OF exact, of "chan_init s ms"] obtain f
    where f: "chan_step\<^sup>*\<^sup>* (chan_init s ms) f" "wq f = []" "\<not> guard (sg f)" "racc f = None" "rdone f = ms"
    by (auto simp: chan_init_def emptied_def)
  then have stuck: "\<nexists>f'. chan_step f f'" using chan_stuck by blast
  from deterministic_run [OF f(1) stuck assms(2)] have cf: "chan_step\<^sup>*\<^sup>* c f" .
  have "g = f" if "chan_step\<^sup>*\<^sup>* c g" "\<nexists>g'. chan_step g g'" for g
    using deterministic_run [OF cf stuck that(1)] that(2) by (auto elim: converse_rtranclpE)
  with cf stuck f show ?thesis by blast
qed

theorem shm_messages_in_order_witness:
  "\<exists>f. chan_step\<^sup>*\<^sup>* (chan_init \<lparr>guard = True, dsize = 5, ddata = [7, 7, 7]\<rparr> [[1, 2], [], [3]]) f
     \<and> rdone f = [[1, 2], [], [3]]"
  using shm_messages_in_order [of "[[1, 2], [], [3]]" "\<lparr>guard = True, dsize = 5, ddata = [7, 7, 7]\<rparr>"
      "chan_init \<lparr>guard = True, dsize = 5, ddata = [7, 7, 7]\<rparr> [[1, 2], [], [3]]"] by auto

lemma put_next:
  assumes "wq c = m # ms" and "m \<noteq> []" and "\<not> guard (sg c)" and "length m < 2 ^ 64"
  shows "\<exists>c'. chan_step c c' \<and> guard (sg c') \<and> unat (dsize (sg c')) = length m"
proof -
  have full: "guard (put_piece m p x)" "unat (dsize (put_piece m p x)) = length m" for p x
    using assms(4) by (simp_all add: put_piece_def unat_of_nat_u64)
  show ?thesis
  proof (cases "wp c + min (length m - wp c) SHM_SMALL_MSG_SIZE < length m")
    case True
    from chan_step.put_more [OF assms(1-3) refl this] show ?thesis
      by (intro exI, intro conjI) (assumption, simp_all add: full)
  next
    case False
    from chan_step.put_last [OF assms(1-3) refl this] show ?thesis
      by (intro exI, intro conjI) (assumption, simp_all add: full)
  qed
qed

text \<open>C39: For a message whose length the conversion to \<open>float\<close> rounds below a multiple of the slot
  size, \<open>2^24 + 1\<close> bytes among them, \<open>get\<close> expects fewer pieces than \<open>put\<close> makes: it returns with
  the first pieces only, while \<open>put\<close> is still waiting to write the rest, which the next \<open>get\<close> takes
  for the start of a message.\<close>

theorem shm_large_message_truncated:
  assumes "length m < 2 ^ 64" and "0 < shm_nmsgs (length m)"
    and "shm_nmsgs (length m) < shm_pieces (length m)"
  shows "\<exists>c c'. chan_step\<^sup>*\<^sup>* (chan_init s [m]) c
    \<and> rdone c = [take (shm_nmsgs (length m) * SHM_SMALL_MSG_SIZE) m] \<and> rdone c \<noteq> [m]
    \<and> wq c = [m] \<and> racc c = None
    \<and> chan_step c c' \<and> guard (sg c') \<and> unat (dsize (sg c')) = length m"
proof -
  let ?K = SHM_SMALL_MSG_SIZE and ?t = "shm_nmsgs (length m)"
  have "m \<noteq> []" using assms(3) by (auto simp: shm_pieces_def SHM_SMALL_MSG_SIZE_def)
  have "(shm_pieces (length m) - 1) * ?K < length m" using pieces_bounds [of "length m"] \<open>m \<noteq> []\<close> by simp
  moreover have "?t * ?K \<le> (shm_pieces (length m) - 1) * ?K" using assms(3) by (intro mult_right_mono) auto
  ultimately have less: "?t * ?K < length m" by (rule le_less_trans [rotated])
  obtain j where j: "?t = Suc j" using assms(2) by (cases ?t) auto
  have lessj: "j * ?K < length m" using less j by auto
  have "midway m [] [] 0 (chan_init s [m])" by (simp add: midway_def chan_init_def emptied_def)
  from midway_reach [OF this _ assms(1) lessj] j obtain c1
    where run: "chan_step\<^sup>*\<^sup>* (chan_init s [m]) c1" and mid: "midway m [] [] j c1" by auto
  have p: "wp c1 + min (length m - wp c1) ?K = ?t * ?K" using mid less j by (simp add: midway_def)
  let ?c2 = "c1\<lparr>sg := put_piece m (wp c1) (sg c1), wp := ?t * ?K\<rparr>"
  let ?c3 = "got_piece (length m - j * ?K) (shm_nmsgs (length m) - Suc j) (take (Suc j * ?K) m) ?c2"
  have put: "chan_step c1 ?c2"
    using chan_step.put_more [OF _ \<open>m \<noteq> []\<close> _ p [symmetric] less] mid by (simp add: midway_def)
  have get: "chan_step ?c2 ?c3" using mid j assms lessj by (intro get_after_put) auto
  have c3: "rdone ?c3 = [take (?t * ?K) m]" "wq ?c3 = [m]" "racc ?c3 = None" "\<not> guard (sg ?c3)"
    "wp ?c3 = ?t * ?K"
    using mid j by (simp_all add: got_piece_def midway_def emptied_def Let_def)
  have run3: "chan_step\<^sup>*\<^sup>* (chan_init s [m]) ?c3"
    using run put get by (meson rtranclp.rtrancl_into_rtrancl)
  have "take (?t * ?K) m \<noteq> m" using less by (metis length_take min.absorb4 nat_neq_iff)
  moreover have "\<exists>c4. chan_step ?c3 c4 \<and> guard (sg c4) \<and> unat (dsize (sg c4)) = length m"
    by (rule put_next [OF c3(2) \<open>m \<noteq> []\<close> c3(4) assms(1)])
  ultimately show ?thesis using run3 c3(1-3) by (metis list.inject)
qed

theorem shm_large_message_truncated_witness:
  "\<exists>c. chan_step\<^sup>*\<^sup>* (chan_init \<lparr>guard = False, dsize = 0, ddata = []\<rparr> [replicate (2 ^ 24 + 1) 0]) c
     \<and> rdone c = [replicate (2 ^ 24) 0]"
proof -
  let ?m = "replicate (2 ^ 24 + 1) 0 :: byte list"
  have len: "length ?m = 16777217" by simp
  have n: "shm_nmsgs 16777217 = 4" "shm_pieces 16777217 = 5"
    by (simp_all add: shm_nmsgs_def shm_pieces_def float_of_def float_ulp.simps SHM_SMALL_MSG_SIZE_def
        Let_def)
  have "length ?m < 2 ^ 64" "0 < shm_nmsgs (length ?m)" "shm_nmsgs (length ?m) < shm_pieces (length ?m)"
    unfolding len n by simp_all
  from shm_large_message_truncated [OF this, of "\<lparr>guard = False, dsize = 0, ddata = []\<rparr>"]
  show ?thesis unfolding len n by (auto simp: SHM_SMALL_MSG_SIZE_def)
qed

end
