(* ===== verification/ConnShm.thy ===== *)
theory ConnShm
  imports HandleUser ShmBuffer
begin

text \<open>
  \<open>include/protocols/shm.hpp\<close>: \<open>HandleSHM\<close>, two buffers, one per direction, as the virtual members
  of a handle, and the connector \<open>ConnSHM\<close>.
  \<^item> \<open>shm_state\<close> holds the members of \<open>ConnSHM\<close>, the two buffers of each \<open>HandleSHM\<close>, the shared
    segments and the operating system. \<open>connections\<close> is keyed by the address of the handle; the ids
    of the objects stand for the addresses.
  \<^item> A connector asks for a connection by a message \<open>in:out\<close> in the buffer the peer listens on; the
    peer opens the two segments with the roles exchanged.
  \<^item> The operations satisfy the contract \<open>transport\<close>.
\<close>

record 'o shm_state =
  sh_in :: "hid \<Rightarrow> shmBuffer"
  sh_out :: "hid \<Rightarrow> shmBuffer"
  sh_mem :: "'o shm_mem"
  shmname :: string
  shmconnid :: "32 word"
  connbuff :: shmBuffer
  sh_conns :: "(hid, bool) smap"

type_synonym ('o, 'm, 'x) shm_world = "(('o, 'm) shm_state_scheme, 'x) world_scheme"

definition set_mem ::
  "errno_t option \<Rightarrow> 'o shm_mem \<Rightarrow> ('o, 'm, 'x) shm_world \<Rightarrow> ('o, 'm, 'x) shm_world" where
  "set_mem e m w = (with_net (\<lambda>t. t\<lparr>sh_mem := m\<rparr>) w)\<lparr>errno := keep_errno e (errno w)\<rparr>"

lemma set_mem_simps [simp]:
  "heap (set_mem e m w) = heap w"
  "errno (set_mem e m w) = keep_errno e (errno w)"
  "net (set_mem e m w) = (net w)\<lparr>sh_mem := m\<rparr>"
  by (simp_all add: set_mem_def with_net_def)

section \<open>HandleSHM\<close>

definition shm_sendEOS ::
  "nat \<Rightarrow> ('o, 'a) shm_sys_scheme \<Rightarrow> hid \<Rightarrow> ('o, 'm, 'x) shm_world
     \<Rightarrow> (int \<times> ('o, 'm, 'x) shm_world) out" where
  "shm_sendEOS c A h w =
     bnd (obj h w) (\<lambda>_.
     bnd (shm_put c A (sh_out (net w) h) (Some []) (sh_mem (net w))) (\<lambda>(r, e, m).
     Ret (r, set_mem e m w)))"

definition shm_send ::
  "nat \<Rightarrow> ('o, 'a) shm_sys_scheme \<Rightarrow> hid \<Rightarrow> byte list \<Rightarrow> ('o, 'm, 'x) shm_world
     \<Rightarrow> (int \<times> ('o, 'm, 'x) shm_world) out" where
  "shm_send c A h bs w =
     bnd (obj h w) (\<lambda>_.
     bnd (shm_put c A (sh_out (net w) h) (Some bs) (sh_mem (net w))) (\<lambda>(r, e, m).
     Ret (r, set_mem e m w)))"

definition shm_probe ::
  "nat \<Rightarrow> ('o, 'a) shm_sys_scheme \<Rightarrow> hid \<Rightarrow> bool \<Rightarrow> u64 \<Rightarrow> ('o, 'm, 'x) shm_world
     \<Rightarrow> (int \<times> u64 \<times> ('o, 'm, 'x) shm_world) out" where
  "shm_probe c A h blocking sz w =
     bnd (obj h w) (\<lambda>_.
     bnd (if blocking then shm_getsize c A (sh_in (net w) h) (sh_mem (net w))
          else shm_trygetsize A (sh_in (net w) h) (sh_mem (net w))) (\<lambda>(r, e, m).
     let w = set_mem e m w
     in if r < 0 then Ret (-1, sz, w) else Ret (sizeof_size_t, word_of_int r, w)))"

definition shm_receive ::
  "nat \<Rightarrow> ('o, 'a) shm_sys_scheme \<Rightarrow> hid \<Rightarrow> u64 \<Rightarrow> ('o, 'm, 'x) shm_world
     \<Rightarrow> (int \<times> byte list \<times> ('o, 'm, 'x) shm_world) out" where
  "shm_receive c A h n w =
     bnd (obj h w) (\<lambda>_.
     bnd (shm_get c A (sh_in (net w) h) True n (sh_mem (net w))) (\<lambda>(r, bs, e, m).
     Ret (r, bs, set_mem e m w)))"

definition shm_h_peek :: "hid \<Rightarrow> ('o, 'm, 'x) shm_world \<Rightarrow> (bool \<times> ('o, 'm, 'x) shm_world) out" where
  "shm_h_peek h w = bnd (obj h w) (\<lambda>_. Ret (False, w))"

section \<open>ConnSHM: listening and connecting\<close>

definition shm_init ::
  "string \<Rightarrow> ('o, 'm, 'x) shm_world \<Rightarrow> (int \<times> ('o, 'm, 'x) shm_world) out" where
  "shm_init name w = Ret (0, with_net (\<lambda>t. t\<lparr>shmname := name\<rparr>) w)"

definition shm_listen ::
  "('o, 'a) shm_sys_scheme \<Rightarrow> string \<Rightarrow> ('o, 'm, 'x) shm_world
     \<Rightarrow> (int \<times> ('o, 'm, 'x) shm_world) out" where
  "shm_listen A address w =
     (let (r, e, b, m) = shm_create A address False (connbuff (net w)) (sh_mem (net w));
          w = with_net (\<lambda>t. t\<lparr>connbuff := b\<rparr>) (set_mem e m w)
      in if r = -1 then Ret (-1, w) else Ret (0, w))"

text \<open>\<open>new HandleSHM(this, in, out)\<close>, registered as \<open>{handle, false}\<close>.\<close>

definition new_HandleSHM ::
  "string \<Rightarrow> shmBuffer \<Rightarrow> shmBuffer \<Rightarrow> ('o, 'm, 'x) shm_world \<Rightarrow> hid \<times> ('o, 'm, 'x) shm_world" where
  "new_HandleSHM p bin bout w =
     (let (h, w) = alloc_handle p w
      in (h, with_net (\<lambda>t. t\<lparr>sh_in := (sh_in t)(h := bin), sh_out := (sh_out t)(h := bout)\<rparr>) w))"

definition shm_in_name :: "string \<Rightarrow> nat \<Rightarrow> string" where
  "shm_in_name s i = ''/'' @ s @ ''_in_'' @ to_string (int i)"

definition shm_out_name :: "string \<Rightarrow> nat \<Rightarrow> string" where
  "shm_out_name s i = ''/'' @ s @ ''_out_'' @ to_string (int i)"

definition shm_connect ::
  "nat \<Rightarrow> ('o, 'a) shm_sys_scheme \<Rightarrow> string \<Rightarrow> string \<Rightarrow> int \<Rightarrow> nat \<Rightarrow> ('o, 'm, 'x) shm_world
     \<Rightarrow> (hid option \<times> ('o, 'm, 'x) shm_world) out" where
  "shm_connect c A p address retry timeout w =
     (let (r, e, connshm, m) = shm_open A address shmBuffer_new (sh_mem (net w)); w = set_mem e m w
      in if r = -1 then Ret (None, w) else
      let i = unat (shmconnid (net w)) mod SHM_MAX_CONCURRENT_CONN;
          w = with_net (\<lambda>t. t\<lparr>shmconnid := shmconnid t + 1\<rparr>) w;
          inname = shm_in_name (shmname (net w)) i;
          outname = shm_out_name (shmname (net w)) i;
          (r, e, bin, m) = shm_create A inname False shmBuffer_new (sh_mem (net w));
          w = set_mem e m w
      in if r < 0 then Ret (None, w) else
      let (r, e, bout, m) = shm_create A outname False shmBuffer_new (sh_mem (net w));
          w = set_mem e m w
      in if r < 0 then Ret (None, w) else
      bnd (shm_put c A connshm (Some (bytes_of_string (inname @ '':'' @ outname))) (sh_mem (net w)))
        (\<lambda>(r, e, m).
      let w = set_mem e m w
      in if r < 0 then Ret (None, w) else
      let (h, w) = new_HandleSHM p bin bout w
      in Ret (Some h, with_net (\<lambda>t. t\<lparr>sh_conns := smap_put h False (sh_conns t)\<rparr>) w)))"

section \<open>ConnSHM: polling\<close>

text \<open>A connection message of \<open>update\<close>: opening the two buffers, exchanged.\<close>

definition shm_accept ::
  "('o, 'a) shm_sys_scheme \<Rightarrow> string
     \<Rightarrow> (bool \<Rightarrow> hid \<Rightarrow> ('o, 'm, 'x) shm_world \<Rightarrow> ('o, 'm, 'x) shm_world out)
     \<Rightarrow> string \<Rightarrow> ('o, 'm, 'x) shm_world \<Rightarrow> ('o, 'm, 'x) shm_world out" where
  "shm_accept A p addinQ msg w =
     (case find_char colon msg of
        None \<Rightarrow> Ret w
      | Some c \<Rightarrow>
          let inname = take c msg; outname = drop (c + 1) msg;
              (r, e, bin, m) = shm_open A outname shmBuffer_new (sh_mem (net w)); w = set_mem e m w
          in if r = -1 then Ret w else
          let (r, e, bout, m) = shm_open A inname shmBuffer_new (sh_mem (net w)); w = set_mem e m w
          in if r = -1 then Ret w else
          let (h, w) = new_HandleSHM p bin bout w;
              w = with_net (\<lambda>t. t\<lparr>sh_conns := smap_emplace h False (sh_conns t)\<rparr>) w
          in addinQ True h w)"

text \<open>The first half of \<open>update\<close>, up to the label \<open>skip\<close>.\<close>

definition shm_check_new ::
  "nat \<Rightarrow> ('o, 'a) shm_sys_scheme \<Rightarrow> string
     \<Rightarrow> (bool \<Rightarrow> hid \<Rightarrow> ('o, 'm, 'x) shm_world \<Rightarrow> ('o, 'm, 'x) shm_world out)
     \<Rightarrow> ('o, 'm, 'x) shm_world \<Rightarrow> ('o, 'm, 'x) shm_world out" where
  "shm_check_new c A p addinQ w =
     (if \<not> shm_isOpen (connbuff (net w)) then Ret w
      else bnd (shm_trygetsize A (connbuff (net w)) (sh_mem (net w))) (\<lambda>(sz, e, m).
      let w = set_mem e m w
      in if sz = -1 then Ret w
         else bnd (shm_get c A (connbuff (net w)) True (of_nat SHM_SMALL_MSG_SIZE) (sh_mem (net w)))
           (\<lambda>(sz, msg, e, m).
         let w = set_mem e m w
         in if sz = -1 then Ret w
            else if sz < 0 \<or> int SHM_SMALL_MSG_SIZE \<le> sz then Fault Out_of_bounds  \<comment> \<open>\<open>msg[sz] = NUL\<close>\<close>
            else shm_accept A p addinQ (c_string (take (nat sz) msg)) w)))"

text \<open>The loop over the connections, the flag of each being \<open>to_manage\<close>.\<close>

fun shm_requeue ::
  "('o, 'a) shm_sys_scheme \<Rightarrow> (bool \<Rightarrow> hid \<Rightarrow> ('o, 'm, 'x) shm_world \<Rightarrow> ('o, 'm, 'x) shm_world out)
     \<Rightarrow> (hid, bool) smap \<Rightarrow> ('o, 'm, 'x) shm_world \<Rightarrow> ('o, 'm, 'x) shm_world out" where
  "shm_requeue A addinQ [] w = Ret w"
| "shm_requeue A addinQ ((h, to_manage) # cs) w =
     (if to_manage then
        bnd (obj h w) (\<lambda>_.
        bnd (shm_peek A (sh_in (net w) h) (sh_mem (net w))) (\<lambda>(sz, m).
        let w = set_mem None m w
        in if sz < 0 then shm_requeue A addinQ cs w
           else bnd (addinQ False h w) (shm_requeue A addinQ cs)))
      else shm_requeue A addinQ cs w)"

definition shm_update ::
  "nat \<Rightarrow> ('o, 'a) shm_sys_scheme \<Rightarrow> string
     \<Rightarrow> (bool \<Rightarrow> hid \<Rightarrow> ('o, 'm, 'x) shm_world \<Rightarrow> ('o, 'm, 'x) shm_world out)
     \<Rightarrow> ('o, 'm, 'x) shm_world \<Rightarrow> ('o, 'm, 'x) shm_world out" where
  "shm_update c A p addinQ w =
     bnd (shm_check_new c A p addinQ w) (\<lambda>w. shm_requeue A addinQ (sh_conns (net w)) w)"

section \<open>ConnSHM: notifications and termination\<close>

definition shm_close_out ::
  "('o, 'a) shm_sys_scheme \<Rightarrow> hid \<Rightarrow> ('o, 'm, 'x) shm_world \<Rightarrow> ('o, 'm, 'x) shm_world" where
  "shm_close_out A h w =
     (let (_, e, b, m) = shm_close A True (sh_out (net w) h) (sh_mem (net w))
      in with_net (\<lambda>t. t\<lparr>sh_out := (sh_out t)(h := b)\<rparr>) (set_mem e m w))"

definition shm_close_in ::
  "('o, 'a) shm_sys_scheme \<Rightarrow> hid \<Rightarrow> ('o, 'm, 'x) shm_world \<Rightarrow> ('o, 'm, 'x) shm_world" where
  "shm_close_in A h w =
     (let w = with_net (\<lambda>t. t\<lparr>sh_conns := smap_erase h (sh_conns t)\<rparr>) w;
          (_, e, b, m) = shm_close A True (sh_in (net w) h) (sh_mem (net w))
      in with_net (\<lambda>t. t\<lparr>sh_in := (sh_in t)(h := b)\<rparr>) (set_mem e m w))"

definition shm_notify_close ::
  "('o, 'a) shm_sys_scheme \<Rightarrow> hid \<Rightarrow> bool \<Rightarrow> bool \<Rightarrow> ('o, 'm, 'x) shm_world
     \<Rightarrow> ('o, 'm, 'x) shm_world out" where
  "shm_notify_close A h close_wr close_rd w =
     bnd (obj h w) (\<lambda>_.
     let w = (if close_wr then shm_close_out A h w else w)
     in Ret (if close_rd then shm_close_in A h w else w))"

definition shm_notify_yield ::
  "hid \<Rightarrow> ('o, 'm, 'x) shm_world \<Rightarrow> ('o, 'm, 'x) shm_world out" where
  "shm_notify_yield h w =
     Ret (if smap_has (sh_conns (net w)) h
          then with_net (\<lambda>t. t\<lparr>sh_conns := smap_put h True (sh_conns t)\<rparr>) w else w)"

definition shm_vtable ::
  "nat \<Rightarrow> ('o, 'a) shm_sys_scheme \<Rightarrow> ('o, 'm, 'x) shm_world vtable" where
  "shm_vtable c A = \<lparr>vt_send = shm_send c A, vt_probe = shm_probe c A, vt_receive = shm_receive c A,
     vt_sendEOS = shm_sendEOS c A, vt_peek = shm_h_peek, vt_notify_close = shm_notify_close A,
     vt_notify_yield = shm_notify_yield\<rparr>"

definition shm_end ::
  "nat \<Rightarrow> ('o, 'a) shm_sys_scheme \<Rightarrow> bool \<Rightarrow> ('o, 'm, 'x) shm_world
     \<Rightarrow> ('o, 'm, 'x) shm_world out" where
  "shm_end c A blockflag w =
     bnd (each_handle (\<lambda>h. setAsClosed c (shm_vtable c A) h blockflag) (map fst (sh_conns (net w))) w)
       (\<lambda>w.
     let (_, e, b, m) = shm_close A True (connbuff (net w)) (sh_mem (net w))
     in Ret (with_net (\<lambda>t. t\<lparr>connbuff := b\<rparr>) (set_mem e m w)))"

lemma close_buffers_heap [simp]:
  "heap (shm_close_out A h w) = heap w" "heap (shm_close_in A h w) = heap w"
  by (simp_all add: shm_close_out_def shm_close_in_def Let_def split: prod.splits)

interpretation shm: transport "shm_vtable c A" for c A
  by unfold_locales
    (auto simp: shm_vtable_def shm_send_def shm_probe_def shm_receive_def shm_sendEOS_def
      shm_notify_close_def shm_notify_yield_def bnd_Ret_conv Let_def split: if_splits)

end
