(* ===== verification/ShmProps.thy ===== *)
theory ShmProps
  imports ShmChannel ConnShm
begin

text \<open>
  What the shared-memory transport promises: \<open>put\<close> and \<open>get\<close> run against the other processes are
  runs of the channel, so the theorems about the channel hold for them; a connector and the peer
  that accepts it end up with the same two segments, exchanged.
\<close>

section \<open>put and get are runs of the channel\<close>

text \<open>The channel seen by a writer: the state of the readers is a part \<open>rd\<close> of the environment; and by
  a reader: the state of the writers is a part \<open>wr\<close> of it.\<close>

definition writer_view ::
  "('o \<Rightarrow> (nat \<times> nat \<times> byte list) option \<times> byte list list) \<Rightarrow> nat \<Rightarrow> byte list list \<Rightarrow> nat
     \<Rightarrow> 'o shm_mem \<Rightarrow> chan" where
  "writer_view rd g ms p m =
     \<lparr>sg = fst m g, wq = ms, wp = p, racc = fst (rd (snd m)), rdone = snd (rd (snd m))\<rparr>"

definition reader_view ::
  "('o \<Rightarrow> byte list list \<times> nat) \<Rightarrow> nat \<Rightarrow> (nat \<times> nat \<times> byte list) option \<Rightarrow> byte list list
     \<Rightarrow> 'o shm_mem \<Rightarrow> chan" where
  "reader_view wr g r d m =
     \<lparr>sg = fst m g, wq = fst (wr (snd m)), wp = snd (wr (snd m)), racc = r, rdone = d\<rparr>"

text \<open>The others only read from, or only write to, the segment \<open>g\<close>.\<close>

definition others_read :: "('o, 'a) shm_sys_scheme \<Rightarrow> _ \<Rightarrow> nat \<Rightarrow> bool" where
  "others_read A rd g \<longleftrightarrow>
     (\<forall>ms p m. chan_step\<^sup>*\<^sup>* (writer_view rd g ms p m) (writer_view rd g ms p (lock A m)))"

definition others_write :: "('o, 'a) shm_sys_scheme \<Rightarrow> _ \<Rightarrow> nat \<Rightarrow> bool" where
  "others_write A wr g \<longleftrightarrow>
     (\<forall>r d m. chan_step\<^sup>*\<^sup>* (reader_view wr g r d m) (reader_view wr g r d (lock A m)))"

lemma view_simps [simp]:
  "sg (writer_view rd g ms p m) = fst m g" "wq (writer_view rd g ms p m) = ms"
  "wp (writer_view rd g ms p m) = p"
  "sg (reader_view wr g r d m) = fst m g" "racc (reader_view wr g r d m) = r"
  "rdone (reader_view wr g r d m) = d"
  by (simp_all add: writer_view_def reader_view_def)

lemma view_upd [simp]:
  "(writer_view rd g ms p m)\<lparr>sg := s\<rparr> = writer_view rd g ms p (set_seg g s m)"
  "(writer_view rd g ms p m)\<lparr>wp := p'\<rparr> = writer_view rd g ms p' m"
  "(writer_view rd g ms p m)\<lparr>wq := ms'\<rparr> = writer_view rd g ms' p m"
  "(reader_view wr g r d m)\<lparr>sg := s\<rparr> = reader_view wr g r d (set_seg g s m)"
  "(reader_view wr g r d m)\<lparr>racc := r'\<rparr> = reader_view wr g r' d m"
  "(reader_view wr g r d m)\<lparr>rdone := d'\<rparr> = reader_view wr g r d' m"
  by (simp_all add: writer_view_def reader_view_def set_seg_def)

lemma spin_guard: "spin c A full g m = Ret m' \<Longrightarrow> guard (fst m' g) = full"
  by (induction c arbitrary: m) (auto simp: Let_def split: if_splits)

lemma spin_writer:
  "others_read A rd g \<Longrightarrow> spin c A full g m = Ret m' \<Longrightarrow>
   chan_step\<^sup>*\<^sup>* (writer_view rd g ms p m) (writer_view rd g ms p m')"
proof (induction c arbitrary: m)
  case (Suc c)
  from Suc.prems(1) have "chan_step\<^sup>*\<^sup>* (writer_view rd g ms p m) (writer_view rd g ms p (lock A m))"
    unfolding others_read_def by blast
  with Suc.IH [of "lock A m"] Suc.prems show ?case
    by (auto simp: Let_def split: if_splits intro: rtranclp_trans)
qed simp

lemma spin_reader:
  "others_write A wr g \<Longrightarrow> spin c A full g m = Ret m' \<Longrightarrow>
   chan_step\<^sup>*\<^sup>* (reader_view wr g r d m) (reader_view wr g r d m')"
proof (induction c arbitrary: m)
  case (Suc c)
  from Suc.prems(1) have "chan_step\<^sup>*\<^sup>* (reader_view wr g r d m) (reader_view wr g r d (lock A m))"
    unfolding others_write_def by blast
  with Suc.IH [of "lock A m"] Suc.prems show ?case
    by (auto simp: Let_def split: if_splits intro: rtranclp_trans)
qed simp

lemma put_loop_run:
  assumes "others_read A rd g"
  shows "put_loop c A g bs p m = Ret m' \<Longrightarrow> p < length bs \<Longrightarrow>
    chan_step\<^sup>*\<^sup>* (writer_view rd g (bs # ms) p m) (writer_view rd g ms 0 m')"
proof (induction "length bs - p" arbitrary: p m rule: less_induct)
  case less
  let ?p = "p + min (length bs - p) SHM_SMALL_MSG_SIZE"
  from less.prems obtain m1 where sp: "spin c A False g m = Ret m1"
    and rest: "put_loop c A g bs ?p (set_seg g (put_piece bs p (fst m1 g)) m1) = Ret m'"
    by (auto simp: put_loop.simps [of c A g bs p m] bnd_Ret_conv)
  let ?c1 = "writer_view rd g (bs # ms) p m1"
  let ?m2 = "set_seg g (put_piece bs p (fst m1 g)) m1"
  have run: "chan_step\<^sup>*\<^sup>* (writer_view rd g (bs # ms) p m) ?c1"
    by (rule spin_writer [OF assms sp])
  have empty: "\<not> guard (sg ?c1)" "wq ?c1 = bs # ms" "bs \<noteq> []"
    using spin_guard [OF sp] less.prems(2) by auto
  show ?case
  proof (cases "?p < length bs")
    case True
    from chan_step.put_more [OF empty(2,3,1), of ?p] True
    have "chan_step ?c1 (writer_view rd g (bs # ms) ?p ?m2)" by simp
    moreover have "length bs - ?p < length bs - p"
      using less.prems(2) by (simp add: SHM_SMALL_MSG_SIZE_def)
    from less.hyps [OF this rest True]
    have "chan_step\<^sup>*\<^sup>* (writer_view rd g (bs # ms) ?p ?m2) (writer_view rd g ms 0 m')" .
    ultimately show ?thesis using run by (meson converse_rtranclp_into_rtranclp rtranclp_trans)
  next
    case False
    from chan_step.put_last [OF empty(2,3,1), of ?p] False
    have "chan_step ?c1 (writer_view rd g ms 0 ?m2)" by simp
    moreover have "m' = ?m2"
      using rest unfolding put_loop.simps [of c A g bs ?p] by (simp only: False if_False out.inject)
    ultimately show ?thesis using run by (simp add: rtranclp.rtrancl_into_rtrancl)
  qed
qed

text \<open>C5: A call of \<open>put\<close> that returns, while the other processes only read from the segment, is a
  run of the channel that takes the message from the writer's queue, so what is proved of the
  channel holds for it.\<close>

theorem shm_put_refines:
  assumes "others_read A rd g" and "shmp b = Shm_at g"
    and "shm_put c A b (Some bs) m = Ret (r, e, m')"
  shows "chan_step\<^sup>*\<^sup>* (writer_view rd g (bs # ms) 0 m) (writer_view rd g ms 0 m')
    \<and> r = ssize_of (of_nat (length bs)) \<and> e = None"
proof (cases "bs = []")
  case True
  with assms(2,3) obtain m1 where sp: "spin c A False g m = Ret m1"
    and res: "r = 0" "e = None" "m' = set_seg g (put_eos (fst m1 g)) m1"
    by (auto simp: shm_put_def mapped_def bnd_Ret_conv)
  have "chan_step\<^sup>*\<^sup>* (writer_view rd g (bs # ms) 0 m) (writer_view rd g (bs # ms) 0 m1)"
    by (rule spin_writer [OF assms(1) sp])
  moreover from chan_step.put_empty [of "writer_view rd g (bs # ms) 0 m1" ms] True spin_guard [OF sp]
  have "chan_step (writer_view rd g (bs # ms) 0 m1) (writer_view rd g ms 0 m')"
    by (simp add: res)
  ultimately show ?thesis using res True by (simp add: ssize_of_def)
next
  case False
  with assms(2,3) have "put_loop c A g bs 0 m = Ret m'" "r = ssize_of (of_nat (length bs))" "e = None"
    by (auto simp: shm_put_def mapped_def bnd_Ret_conv Let_def)
  with put_loop_run [OF assms(1), of c bs 0 m m' ms] False show ?thesis by simp
qed

lemma float_ulp_le: "0 < n \<Longrightarrow> 0 < float_ulp n \<and> float_ulp n \<le> n"
proof (induction n rule: float_ulp.induct)
  case (1 n)
  show ?case
  proof (cases "n < 2 ^ 24")
    case True
    with 1 show ?thesis by (simp add: float_ulp.simps)
  next
    case False
    then have "0 < n div 2" by simp
    with 1(1) [OF False] have "0 < float_ulp (n div 2)" "float_ulp (n div 2) \<le> n div 2" by simp_all
    with False show ?thesis by (simp add: float_ulp.simps [of n])
  qed
qed

lemma nmsgs_pos:
  assumes "0 < n"
  shows "0 < shm_nmsgs n"
proof -
  from float_ulp_le [OF assms] have "0 < n div float_ulp n" "0 < float_ulp n"
    by (simp_all add: div_greater_zero_iff)
  then have "0 < float_of n" by (simp add: float_of_def Let_def)
  then have "SHM_SMALL_MSG_SIZE \<le> float_of n + SHM_SMALL_MSG_SIZE - 1" by simp
  then show ?thesis by (simp add: shm_nmsgs_def div_greater_zero_iff SHM_SMALL_MSG_SIZE_def)
qed

lemma got_piece_view:
  "got_piece left k got (reader_view wr g r d m) =
     (let m = set_seg g (emptied (fst m g)) m
      in if k = 0 then reader_view wr g None (d @ [got]) m
         else reader_view wr g (Some (left - min left SHM_SMALL_MSG_SIZE, k, got)) d m)"
  by (simp add: got_piece_def Let_def)

lemma get_loop_run:
  assumes "others_write A wr g"
  shows "get_loop c A g room (Suc k) left got m = Ret (bs, m') \<Longrightarrow>
    chan_step\<^sup>*\<^sup>* (got_piece left k (got @ piece left (fst m g)) (reader_view wr g r d m))
      (reader_view wr g None (d @ [bs]) m')"
proof (induction k arbitrary: left got m r)
  case 0
  then show ?case by (auto simp: got_piece_view Let_def split: if_splits)
next
  case (Suc k)
  let ?m1 = "set_seg g (emptied (fst m g)) m"
  let ?left = "left - min left SHM_SMALL_MSG_SIZE" and ?got = "got @ piece left (fst m g)"
  from Suc.prems obtain m2 where sp: "spin c A True g ?m1 = Ret m2"
    and rest: "get_loop c A g room (Suc k) ?left ?got m2 = Ret (bs, m')"
    by (auto simp del: append_assoc simp: Let_def bnd_Ret_conv split: if_splits)
  let ?v = "reader_view wr g (Some (?left, Suc k, ?got)) d"
  have start: "got_piece left (Suc k) ?got (reader_view wr g r d m) = ?v ?m1"
    by (simp add: got_piece_view Let_def)
  have run: "chan_step\<^sup>*\<^sup>* (?v ?m1) (?v m2)" by (rule spin_reader [OF assms sp])
  from chan_step.get_next [of "?v m2" ?left k ?got] spin_guard [OF sp]
  have stp: "chan_step (?v m2) (got_piece ?left k (?got @ piece ?left (fst m2 g)) (?v m2))" by simp
  have rec: "chan_step\<^sup>*\<^sup>* (got_piece ?left k (?got @ piece ?left (fst m2 g)) (?v m2))
      (reader_view wr g None (d @ [bs]) m')"
    by (rule Suc.IH [OF rest])
  show ?case
    unfolding start by (rule rtranclp_trans [OF run converse_rtranclp_into_rtranclp [OF stp rec]])
qed

text \<open>C6: A call of \<open>get\<close> that returns, while the other processes only write to the segment, is a run
  of the channel in which the reader takes one message, the one it returns.\<close>

theorem shm_get_refines:
  assumes "others_write A wr g" and "shmp b = Shm_at g" and "sz \<noteq> 0"
    and "shm_get c A b True sz m = Ret (r, bs, e, m')"
  shows "chan_step\<^sup>*\<^sup>* (reader_view wr g None d m) (reader_view wr g None (d @ [bs]) m') \<and> e = None"
proof -
  from assms(2-4) obtain m1 where sp: "spin c A True g m = Ret m1"
    and gl: "get_locked c A g sz m1 = Ret (r, bs, e, m')"
    by (auto simp: shm_get_def mapped_def bnd_Ret_conv)
  let ?v = "reader_view wr g None d m1" and ?n = "unat (dsize (fst m1 g))"
  have run: "chan_step\<^sup>*\<^sup>* (reader_view wr g None d m) ?v" by (rule spin_reader [OF assms(1) sp])
  show ?thesis
  proof (cases "?n = 0")
    case True
    then have "dsize (sg ?v) = 0" by (simp add: unat_eq_0)
    with chan_step.get_empty [of ?v] spin_guard [OF sp]
    have "chan_step ?v (reader_view wr g None (d @ [[]]) (set_seg g (emptied (fst m1 g)) m1))" by simp
    with run gl True show ?thesis by (auto simp: get_locked_def)
  next
    case False
    then obtain k where k: "shm_nmsgs ?n = Suc k" using nmsgs_pos [of ?n] by (cases "shm_nmsgs ?n") auto
    with gl False obtain e1: "e = None"
      and loop: "get_loop c A g (unat sz) (Suc k) ?n [] m1 = Ret (bs, m')"
      by (auto simp: get_locked_def Let_def bnd_Ret_conv)
    from chan_step.get_first [of ?v ?n k] False k spin_guard [OF sp]
    have "chan_step ?v (got_piece ?n k (piece ?n (fst m1 g)) ?v)" by simp
    moreover from get_loop_run [OF assms(1) loop, of None d]
    have "chan_step\<^sup>*\<^sup>* (got_piece ?n k (piece ?n (fst m1 g)) ?v) (reader_view wr g None (d @ [bs]) m')"
      by simp
    ultimately show ?thesis using run e1 by (meson converse_rtranclp_into_rtranclp rtranclp_trans)
  qed
qed

section \<open>A model of the POSIX calls\<close>

text \<open>
  What the calls promise: \<open>names s\<close> are the segments by name, \<open>fdseg s\<close> those by descriptor.
  The last law says that no other process runs.
\<close>

definition posix_shm ::
  "('o, 'a) shm_sys_scheme \<Rightarrow> ('o \<Rightarrow> string \<Rightarrow> nat option) \<Rightarrow> ('o \<Rightarrow> int \<Rightarrow> nat option) \<Rightarrow> bool" where
  "posix_shm A names fdseg \<longleftrightarrow>
     (\<forall>s n f. names s n = None \<longrightarrow> (\<exists>fd g s'. sm_open A True f n s = ((fd, None), s') \<and> fd \<noteq> -1
        \<and> names s' = (names s)(n \<mapsto> g) \<and> fdseg s' fd = Some g \<and> (\<forall>k. names s k \<noteq> Some g)))
   \<and> (\<forall>s n f g. names s n = Some g \<longrightarrow> (\<exists>fd s'. sm_open A False f n s = ((fd, None), s') \<and> fd \<noteq> -1
        \<and> names s' = names s \<and> fdseg s' fd = Some g))
   \<and> (\<forall>s fd. \<exists>s'. sm_ftruncate A fd s = ((0, None), s') \<and> names s' = names s \<and> fdseg s' = fdseg s)
   \<and> (\<forall>s fd g. fdseg s fd = Some g \<longrightarrow> (\<exists>s'. sm_mmap A fd s = ((Some g, None), s') \<and> names s' = names s))
   \<and> (\<forall>s fd. names (sm_close A fd s) = names s)
   \<and> (\<forall>s g. \<exists>s'. sm_spin_init A g s = (0, s') \<and> names s' = names s)
   \<and> (\<forall>s sgs. sm_others A s sgs = (sgs, s))"

lemmas posix_open_new = posix_shm_def [THEN iffD1, THEN conjunct1, rule_format]
lemmas posix_open = posix_shm_def [THEN iffD1, THEN conjunct2, THEN conjunct1, rule_format]
lemmas posix_ftruncate = posix_shm_def [THEN iffD1, THEN conjunct2, THEN conjunct2, THEN conjunct1, rule_format]
lemmas posix_mmap = posix_shm_def [THEN iffD1, THEN conjunct2, THEN conjunct2, THEN conjunct2, THEN conjunct1, rule_format]
lemmas posix_close = posix_shm_def [THEN iffD1, THEN conjunct2, THEN conjunct2, THEN conjunct2, THEN conjunct2, THEN conjunct1, rule_format]
lemmas posix_spin_init = posix_shm_def [THEN iffD1, THEN conjunct2, THEN conjunct2, THEN conjunct2, THEN conjunct2, THEN conjunct2, THEN conjunct1, rule_format]
lemmas posix_others = posix_shm_def [THEN iffD1, THEN conjunct2, THEN conjunct2, THEN conjunct2, THEN conjunct2, THEN conjunct2, THEN conjunct2, rule_format]

lemma create_ok:
  assumes "posix_shm A names fdseg" and "names s n = None"
  shows "\<exists>g s'. shm_create A n f b (sgs, s) =
      (0, None, b\<lparr>shmp := Shm_at g, segmentname := n, opened := True\<rparr>,
       (sgs(g := emptied (sgs g)), s'))
    \<and> names s' = (names s)(n \<mapsto> g) \<and> (\<forall>k. names s k \<noteq> Some g)"
proof -
  from posix_open_new [OF assms, of f] obtain fd g s1 where
    o: "sm_open A True f n s = ((fd, None), s1)" "fd \<noteq> -1"
    and n1: "names s1 = (names s)(n \<mapsto> g)" "fdseg s1 fd = Some g" and fresh: "\<forall>k. names s k \<noteq> Some g"
    by blast
  from posix_ftruncate [OF assms(1), of fd s1] obtain s2 where
    t: "sm_ftruncate A fd s1 = ((0, None), s2)" and n2: "names s2 = names s1" "fdseg s2 = fdseg s1"
    by blast
  from posix_mmap [OF assms(1), of s2 fd g] n1 n2 obtain s3 where
    mm: "sm_mmap A fd s2 = ((Some g, None), s3)" and n3: "names s3 = names s2" by auto
  from posix_spin_init [OF assms(1), of g "sm_close A fd s3"] obtain s5 where
    si: "sm_spin_init A g (sm_close A fd s3) = (0, s5)" and n5: "names s5 = names (sm_close A fd s3)"
    by blast
  have "shm_create A n f b (sgs, s) =
      (0, None, b\<lparr>shmp := Shm_at g, segmentname := n, opened := True\<rparr>,
       (sgs(g := emptied (sgs g)), s5))"
    by (simp add: shm_create_def createBuffer_def o t mm si set_seg_def emptied_def
        SHM_SMALL_MSG_SIZE_def)
  with n1 n2 n3 n5 fresh posix_close [OF assms(1)] show ?thesis by auto
qed

lemma open_ok:
  assumes "posix_shm A names fdseg" and "names s n = Some g" and "\<not> opened b"
  shows "\<exists>s'. shm_open A n b (sgs, s) =
      (0, None, b\<lparr>shmp := Shm_at g, segmentname := n, opened := True\<rparr>, (sgs, s'))
    \<and> names s' = names s"
proof -
  from posix_open [OF assms(1,2)] obtain fd s1 where
    o: "sm_open A False False n s = ((fd, None), s1)" "fd \<noteq> -1"
    and n1: "names s1 = names s" "fdseg s1 fd = Some g" by blast
  from posix_mmap [OF assms(1), of s1 fd g] n1 obtain s2 where
    mm: "sm_mmap A fd s1 = ((Some g, None), s2)" and n2: "names s2 = names s1" by auto
  from n1 n2 o mm assms(3) posix_close [OF assms(1)] show ?thesis
    by (simp add: shm_open_def SHM_SMALL_MSG_SIZE_def)
qed

lemma quiet_lock: "posix_shm A names fdseg \<Longrightarrow> lock A m = m"
  by (cases m) (simp add: lock_def posix_others)

lemma quiet_spin:
  "posix_shm A names fdseg \<Longrightarrow> guard (fst m g) = full \<Longrightarrow> spin (Suc c) A full g m = Ret m"
  by (simp add: quiet_lock Let_def)

lemma put_ok:
  assumes "posix_shm A names fdseg" and "shmp b = Shm_at g" and "\<not> guard (sgs g)"
    and "bs \<noteq> []" and "length bs \<le> SHM_SMALL_MSG_SIZE"
  shows "shm_put (Suc c) A b (Some bs) (sgs, s) =
    Ret (int (length bs), None, (sgs(g := put_piece bs 0 (sgs g)), s))"
proof -
  have "length bs < 2 ^ 63" using assms(5) by (simp add: SHM_SMALL_MSG_SIZE_def)
  then have len: "ssize_of (of_nat (length bs)) = int (length bs)" by (rule ssize_of_nat)
  have sp: "spin (Suc c) A False g (sgs, s) = Ret (sgs, s)"
    using assms by (intro quiet_spin) simp_all
  have "put_loop (Suc c) A g bs (min (length bs) SHM_SMALL_MSG_SIZE) m = Ret m" for m
    using assms(5) by (simp add: put_loop.simps)
  with sp assms have "put_loop (Suc c) A g bs 0 (sgs, s) = Ret (sgs(g := put_piece bs 0 (sgs g)), s)"
    by (simp add: put_loop.simps [of "Suc c" A g bs 0] set_seg_def del: spin.simps)
  with assms show ?thesis by (simp add: shm_put_def mapped_def len del: spin.simps)
qed

lemma get_ok:
  assumes "posix_shm A names fdseg" and "shmp b = Shm_at g" and "sgs g = put_piece bs 0 sg0"
    and "bs \<noteq> []" and "length bs \<le> SHM_SMALL_MSG_SIZE" and "of_nat (length bs) \<le> sz"
  shows "shm_get (Suc c) A b True sz (sgs, s) =
    Ret (int (length bs), bs, None, (sgs(g := emptied (sgs g)), s))"
proof -
  have small: "length bs < 2 ^ 63" "length bs < 2 ^ 64" "length bs \<le> 2 ^ 24"
    using assms(5) by (simp_all add: SHM_SMALL_MSG_SIZE_def)
  have n1: "unat (dsize (sgs g)) = length bs"
    using small(2) by (simp add: assms(3) put_piece_def unat_of_nat_u64)
  have one: "shm_nmsgs (length bs) = Suc 0"
    using assms(4,5) unfolding nmsgs_exact [OF small(3)] shm_pieces_def
    by (intro div_nat_eqI) (auto simp: SHM_SMALL_MSG_SIZE_def Suc_leI)
  have pc: "piece (length bs) (sgs g) = bs"
    using piece_put [of 0 bs sg0] assms(5) by (simp add: assms(3))
  have nz: "length bs \<noteq> 0" using assms(4) by simp
  have "sz \<noteq> 0" using assms(4,6) of_nat_u64_eq_0 [OF small(2)] by (auto simp: word_le_0_iff)
  moreover have "length bs \<le> unat sz"
    using assms(6) small(2) by (simp add: word_le_nat_alt unat_of_nat_u64)
  moreover have "spin (Suc c) A True g (sgs, s) = Ret (sgs, s)"
    using assms(1,3) by (intro quiet_spin) (simp_all add: put_piece_def)
  ultimately show ?thesis
    using assms(2) nz
    by (simp add: shm_get_def mapped_def get_locked_def n1 one pc set_seg_def ssize_of_nat [OF small(1)]
        del: spin.simps)
qed

section \<open>Connecting\<close>

lemma to_string_plain: "c \<in> set (to_string (int i)) \<Longrightarrow> c \<noteq> colon \<and> c \<noteq> CHR 0x00"
proof -
  have "c \<in> set (nat_to_string n) \<Longrightarrow> 48 \<le> (of_char c :: nat) \<and> (of_char c :: nat) \<le> 57" for n
    by (induction n rule: nat_to_string.induct)
      (subst (asm) (2) nat_to_string.simps, auto simp: digit_char_def split: if_splits)
  then show "c \<in> set (to_string (int i)) \<Longrightarrow> c \<noteq> colon \<and> c \<noteq> CHR 0x00"
    by (auto simp: to_string_def colon_def)
qed

lemma names_plain:
  assumes "colon \<notin> set s" and "CHR 0x00 \<notin> set s"
  shows "colon \<notin> set (shm_in_name s i)" "CHR 0x00 \<notin> set (shm_in_name s i)"
    "colon \<notin> set (shm_out_name s i)" "CHR 0x00 \<notin> set (shm_out_name s i)"
  using assms to_string_plain [of _ i] by (auto simp: shm_in_name_def shm_out_name_def colon_def)

lemma in_out_differ: "shm_in_name s i \<noteq> shm_out_name s i"
  by (simp add: shm_in_name_def shm_out_name_def)

text \<open>The connection request of the connector with counter value \<open>i\<close>.\<close>

definition shm_request :: "string \<Rightarrow> nat \<Rightarrow> string" where
  "shm_request s i = shm_in_name s i @ '':'' @ shm_out_name s i"

lemma new_HandleSHM_simps:
  "new_HandleSHM p bin bout w = (h, w1) \<Longrightarrow>
     h = next_hid w \<and> net w1 = (net w)\<lparr>sh_in := (sh_in (net w))(h := bin), sh_out := (sh_out (net w))(h := bout)\<rparr>"
  by (auto simp: new_HandleSHM_def alloc_handle_def with_net_def)

lemma connect_ok:
  assumes px: "posix_shm A names fdseg" and mem: "sh_mem (net w) = (sgs, s)"
    and adr: "names s address = Some g0" "\<not> guard (sgs g0)"
    and i: "i = unat (shmconnid (net w)) mod SHM_MAX_CONCURRENT_CONN"
    and free: "names s (shm_in_name (shmname (net w)) i) = None"
      "names s (shm_out_name (shmname (net w)) i) = None"
    and short: "length (shm_request (shmname (net w)) i) \<le> SHM_SMALL_MSG_SIZE"
  shows "\<exists>h w1 g1 g2 s1 sgs1. shm_connect (Suc c) A p address retry timeout w = Ret (Some h, w1)
    \<and> shmp (sh_in (net w1) h) = Shm_at g1 \<and> shmp (sh_out (net w1) h) = Shm_at g2
    \<and> g0 \<noteq> g1 \<and> g0 \<noteq> g2 \<and> g1 \<noteq> g2 \<and> sh_mem (net w1) = (sgs1, s1)
    \<and> \<not> guard (sgs1 g1) \<and> \<not> guard (sgs1 g2)
    \<and> sgs1 g0 = put_piece (bytes_of_string (shm_request (shmname (net w)) i)) 0 (sgs g0)
    \<and> names s1 (shm_in_name (shmname (net w)) i) = Some g1
    \<and> names s1 (shm_out_name (shmname (net w)) i) = Some g2"
proof -
  let ?in = "shm_in_name (shmname (net w)) i" and ?out = "shm_out_name (shmname (net w)) i"
  let ?msg = "bytes_of_string (shm_request (shmname (net w)) i)"
  from open_ok [OF px adr(1), of shmBuffer_new sgs] obtain s1 where
    o: "shm_open A address shmBuffer_new (sgs, s) =
      (0, None, shmBuffer_new\<lparr>shmp := Shm_at g0, segmentname := address, opened := True\<rparr>, (sgs, s1))"
    and n1: "names s1 = names s" by (auto simp: shmBuffer_new_def)
  have "names s1 ?in = None" using free n1 by simp
  from create_ok [OF px this, of False shmBuffer_new sgs] obtain g1 s2 where
    c1: "shm_create A ?in False shmBuffer_new (sgs, s1) =
      (0, None, shmBuffer_new\<lparr>shmp := Shm_at g1, segmentname := ?in, opened := True\<rparr>,
       (sgs(g1 := emptied (sgs g1)), s2))"
    and n2: "names s2 = (names s1)(?in \<mapsto> g1)" and f1: "\<forall>k. names s1 k \<noteq> Some g1" by blast
  let ?sgs2 = "sgs(g1 := emptied (sgs g1))"
  have "names s2 ?out = None" using free n1 n2 in_out_differ [THEN not_sym] by simp
  from create_ok [OF px this, of False shmBuffer_new ?sgs2] obtain g2 s3 where
    c2: "shm_create A ?out False shmBuffer_new (?sgs2, s2) =
      (0, None, shmBuffer_new\<lparr>shmp := Shm_at g2, segmentname := ?out, opened := True\<rparr>,
       (?sgs2(g2 := emptied (?sgs2 g2)), s3))"
    and n3: "names s3 = (names s2)(?out \<mapsto> g2)" and f2: "\<forall>k. names s2 k \<noteq> Some g2" by blast
  let ?sgs3 = "?sgs2(g2 := emptied (?sgs2 g2))"
  have dist: "g0 \<noteq> g1" "g0 \<noteq> g2" "g1 \<noteq> g2"
  proof -
    show "g0 \<noteq> g1" using f1 n1 adr(1) by auto
    have "address \<noteq> ?in" using adr(1) free(1) by auto
    then have "names s2 address = Some g0" using n1 n2 adr(1) by simp
    then show "g0 \<noteq> g2" using f2 by auto
    have "names s2 ?in = Some g1" using n2 by simp
    then show "g1 \<noteq> g2" using f2 by auto
  qed
  then have same: "?sgs3 g0 = sgs g0" by simp
  have "?msg \<noteq> []" by (simp add: bytes_of_string_def shm_request_def)
  then have put: "shm_put (Suc c) A
      (shmBuffer_new\<lparr>shmp := Shm_at g0, segmentname := address, opened := True\<rparr>) (Some ?msg) (?sgs3, s3) =
      Ret (int (length ?msg), None, (?sgs3(g0 := put_piece ?msg 0 (?sgs3 g0)), s3))"
    using adr(2) short same by (intro put_ok [OF px]) simp_all
  let ?w2 = "with_net (\<lambda>t. t\<lparr>shmconnid := shmconnid t + 1\<rparr>) (set_mem None (sgs, s1) w)"
  let ?w4 = "set_mem None (?sgs3, s3) (set_mem None (?sgs2, s2) ?w2)"
  let ?sgs5 = "?sgs3(g0 := put_piece ?msg 0 (?sgs3 g0))"
  let ?bin = "shmBuffer_new\<lparr>shmp := Shm_at g1, segmentname := ?in, opened := True\<rparr>"
  let ?bout = "shmBuffer_new\<lparr>shmp := Shm_at g2, segmentname := ?out, opened := True\<rparr>"
  obtain h w6 where nh: "new_HandleSHM p ?bin ?bout (set_mem None (?sgs5, s3) ?w4) = (h, w6)"
    by (rule prod.exhaust)
  have run: "shm_connect (Suc c) A p address retry timeout w =
      Ret (Some h, with_net (\<lambda>t. t\<lparr>sh_conns := smap_put h False (sh_conns t)\<rparr>) w6)"
    using put nh
    by (simp add: shm_connect_def mem o c1 c2 Let_def i [symmetric] shm_request_def
        del: fun_upd_apply)
  let ?w7 = "with_net (\<lambda>t. t\<lparr>sh_conns := smap_put h False (sh_conns t)\<rparr>) w6"
  have w7: "sh_in (net ?w7) h = ?bin" "sh_out (net ?w7) h = ?bout" "sh_mem (net ?w7) = (?sgs5, s3)"
    using new_HandleSHM_simps [OF nh] by simp_all
  have ns: "names s3 ?in = Some g1" "names s3 ?out = Some g2"
    using n2 n3 in_out_differ by simp_all
  have "\<not> guard (?sgs5 g1)" "\<not> guard (?sgs5 g2)" "?sgs5 g0 = put_piece ?msg 0 (sgs g0)"
    using dist by (simp_all add: emptied_def)
  with run w7 ns dist show ?thesis
    by (intro exI [of _ h] exI [of _ ?w7] exI [of _ g1] exI [of _ g2] exI [of _ s3] exI [of _ ?sgs5])
      simp
qed

lemma request_split:
  assumes "colon \<notin> set s" and "CHR 0x00 \<notin> set s"
  shows "find_char colon (shm_request s i) = Some (length (shm_in_name s i))"
    and "c_string (bytes_of_string (shm_request s i)) = shm_request s i"
    and "take (length (shm_in_name s i)) (shm_request s i) = shm_in_name s i"
    and "drop (length (shm_in_name s i) + 1) (shm_request s i) = shm_out_name s i"
proof -
  have r: "shm_request s i = shm_in_name s i @ colon # shm_out_name s i"
    by (simp add: shm_request_def colon_def)
  note plain = names_plain [OF assms, of i]
  show "find_char colon (shm_request s i) = Some (length (shm_in_name s i))"
    unfolding r by (rule find_char_append) (rule plain)
  have "CHR 0x00 \<notin> set (shm_request s i)" unfolding r using plain by (simp add: colon_def)
  then show "c_string (bytes_of_string (shm_request s i)) = shm_request s i" by (rule c_string_bytes)
qed (simp_all add: shm_request_def)

lemma accept_ok:
  assumes px: "posix_shm A names fdseg" and mem: "sh_mem (net w) = (sgs, s)"
    and cb: "shmp (connbuff (net w)) = Shm_at g0" "opened (connbuff (net w))"
    and slot: "sgs g0 = put_piece (bytes_of_string (shm_request nm i)) 0 sg0"
    and short: "length (shm_request nm i) < SHM_SMALL_MSG_SIZE"
    and plain: "colon \<notin> set nm" "CHR 0x00 \<notin> set nm"
    and bound: "names s (shm_in_name nm i) = Some g1" "names s (shm_out_name nm i) = Some g2"
  shows "\<exists>h w1. shm_check_new (Suc c) A p addinQ w = addinQ True h w1
    \<and> shmp (sh_in (net w1) h) = Shm_at g2 \<and> shmp (sh_out (net w1) h) = Shm_at g1
    \<and> \<not> guard (fst (sh_mem (net w1)) g0)"
proof -
  let ?msg = "bytes_of_string (shm_request nm i)"
  have ne: "?msg \<noteq> []" by (simp add: bytes_of_string_def shm_request_def)
  have small: "length ?msg < 2 ^ 63" using short by (simp add: SHM_SMALL_MSG_SIZE_def)
  have room: "of_nat (length ?msg) \<le> (of_nat SHM_SMALL_MSG_SIZE :: u64)"
    using short unat_of_nat_u64 [of "length ?msg"] unat_of_nat_u64 [of SHM_SMALL_MSG_SIZE]
    by (simp add: word_le_nat_alt SHM_SMALL_MSG_SIZE_def)
  have full: "guard (sgs g0)" "ssize_of (dsize (sgs g0)) = int (length ?msg)"
    using ssize_of_nat [OF small] by (simp_all add: slot put_piece_def)
  have size: "shm_trygetsize A (connbuff (net w)) (sgs, s) = Ret (int (length ?msg), None, (sgs, s))"
    using cb full by (simp add: shm_trygetsize_def mapped_def quiet_lock [OF px] Let_def)
  have get: "shm_get (Suc c) A (connbuff (net w)) True (of_nat SHM_SMALL_MSG_SIZE) (sgs, s) =
      Ret (int (length ?msg), ?msg, None, (sgs(g0 := emptied (sgs g0)), s))"
    using short by (intro get_ok [OF px cb(1)]) (use slot ne room in simp_all)
  let ?sgs = "sgs(g0 := emptied (sgs g0))"
  from open_ok [OF px bound(2), of shmBuffer_new ?sgs] obtain s1 where
    o1: "shm_open A (shm_out_name nm i) shmBuffer_new (?sgs, s) =
      (0, None, shmBuffer_new\<lparr>shmp := Shm_at g2, segmentname := shm_out_name nm i, opened := True\<rparr>, (?sgs, s1))"
    and n1: "names s1 = names s" by (auto simp: shmBuffer_new_def)
  have "names s1 (shm_in_name nm i) = Some g1" using n1 bound(1) by simp
  from open_ok [OF px this, of shmBuffer_new ?sgs] obtain s2 where
    o2: "shm_open A (shm_in_name nm i) shmBuffer_new (?sgs, s1) =
      (0, None, shmBuffer_new\<lparr>shmp := Shm_at g1, segmentname := shm_in_name nm i, opened := True\<rparr>, (?sgs, s2))"
    by (auto simp: shmBuffer_new_def)
  let ?w1 = "set_mem None (?sgs, s) (set_mem None (sgs, s) w)"
  have "shm_check_new (Suc c) A p addinQ w = shm_accept A p addinQ (shm_request nm i) ?w1"
    using cb(2) mem short
    by (simp add: shm_check_new_def shm_isOpen_def size get Let_def request_split [OF plain])
  moreover have "\<exists>h w1. shm_accept A p addinQ (shm_request nm i) ?w1 = addinQ True h w1
    \<and> shmp (sh_in (net w1) h) = Shm_at g2 \<and> shmp (sh_out (net w1) h) = Shm_at g1
    \<and> \<not> guard (fst (sh_mem (net w1)) g0)"
    unfolding shm_accept_def request_split [OF plain] option.case Let_def
    apply (simp add: o1 o2 new_HandleSHM_def alloc_handle_def Let_def)
    by (intro exI conjI) (rule refl, auto simp: with_net_def set_mem_def emptied_def)
  ultimately show ?thesis by simp
qed

text \<open>When a connector connects to an address and the process listening there polls, the two get
  handles on the same two fresh segments, exchanged: what one writes the other reads. The request
  is taken out of the listening buffer.\<close>

theorem shm_connect_accept:
  assumes "posix_shm A names fdseg" and "sh_mem (net w) = (sgs, s)"
    and "names s address = Some g0" and "\<not> guard (sgs g0)"
    and "i = unat (shmconnid (net w)) mod SHM_MAX_CONCURRENT_CONN"
    and "names s (shm_in_name (shmname (net w)) i) = None"
    and "names s (shm_out_name (shmname (net w)) i) = None"
    and "length (shm_request (shmname (net w)) i) < SHM_SMALL_MSG_SIZE"
    and "colon \<notin> set (shmname (net w))" and "CHR 0x00 \<notin> set (shmname (net w))"
  shows "\<exists>h w1 g1 g2. shm_connect (Suc c) A p address retry timeout w = Ret (Some h, w1)
    \<and> shmp (sh_in (net w1) h) = Shm_at g1 \<and> shmp (sh_out (net w1) h) = Shm_at g2 \<and> g1 \<noteq> g2
    \<and> \<not> guard (fst (sh_mem (net w1)) g1) \<and> \<not> guard (fst (sh_mem (net w1)) g2)
    \<and> (\<forall>v q addinQ. sh_mem (net v) = sh_mem (net w1) \<and> shmp (connbuff (net v)) = Shm_at g0
         \<and> opened (connbuff (net v)) \<longrightarrow>
         (\<exists>k v1. shm_check_new (Suc c) A q addinQ v = addinQ True k v1
            \<and> shmp (sh_in (net v1) k) = Shm_at g2 \<and> shmp (sh_out (net v1) k) = Shm_at g1
            \<and> \<not> guard (fst (sh_mem (net v1)) g0)))"
proof -
  let ?nm = "shmname (net w)"
  have short: "length (shm_request ?nm i) \<le> SHM_SMALL_MSG_SIZE" using assms(8) by simp
  from connect_ok [OF assms(1-7) short, of c p retry timeout] obtain h w1 g1 g2 s1 sgs1
    where run: "shm_connect (Suc c) A p address retry timeout w = Ret (Some h, w1)"
      and ends: "shmp (sh_in (net w1) h) = Shm_at g1" "shmp (sh_out (net w1) h) = Shm_at g2" "g1 \<noteq> g2"
      and mem: "sh_mem (net w1) = (sgs1, s1)" and free: "\<not> guard (sgs1 g1)" "\<not> guard (sgs1 g2)"
      and slot: "sgs1 g0 = put_piece (bytes_of_string (shm_request ?nm i)) 0 (sgs g0)"
      and bound: "names s1 (shm_in_name ?nm i) = Some g1" "names s1 (shm_out_name ?nm i) = Some g2"
    by blast
  show ?thesis
  proof (rule exI [of _ h], rule exI [of _ w1], rule exI [of _ g1], rule exI [of _ g2],
      intro conjI allI impI)
    fix v q addinQ
    assume v: "sh_mem (net v) = sh_mem (net w1) \<and> shmp (connbuff (net v)) = Shm_at g0
      \<and> opened (connbuff (net v))"
    show "\<exists>k v1. shm_check_new (Suc c) A q addinQ v = addinQ True k v1
      \<and> shmp (sh_in (net v1) k) = Shm_at g2 \<and> shmp (sh_out (net v1) k) = Shm_at g1
      \<and> \<not> guard (fst (sh_mem (net v1)) g0)"
    proof (rule accept_ok [OF assms(1)])
      show "sh_mem (net v) = (sgs1, s1)" "shmp (connbuff (net v)) = Shm_at g0"
        "opened (connbuff (net v))" using v mem by simp_all
    qed (fact slot assms bound)+
  qed (use run ends mem free in \<open>simp_all (no_asm_simp)\<close>)
qed

text \<open>A POSIX layer on which the theorems are instantiated: the state is the table of names, a fresh
  segment is numbered above all others, and the descriptor is the number of the segment.\<close>

definition sample_shm :: "(string \<times> nat) list shm_sys" where
  "sample_shm = \<lparr>
     sm_open = (\<lambda>create trunc n s.
       case map_of s n of
         None \<Rightarrow> (if create then ((int (Suc (sum_list (map snd s))), None), (n, Suc (sum_list (map snd s))) # s)
                  else ((-1, Some (Other_errno 2)), s))
       | Some g \<Rightarrow> ((if create then (-1, Some (Other_errno 17)) else (int g, None)), s)),
     sm_ftruncate = (\<lambda>fd s. ((0, None), s)), sm_mmap = (\<lambda>fd s. ((Some (nat fd), None), s)),
     sm_close = (\<lambda>fd s. s), sm_spin_init = (\<lambda>g s. (0, s)), sm_munmap = (\<lambda>g s. s),
     sm_unlink = (\<lambda>n s. filter (\<lambda>e. fst e \<noteq> n) s), sm_others = (\<lambda>s sgs. (sgs, s))\<rparr>"

lemma sample_posix: "posix_shm sample_shm map_of (\<lambda>s fd. if fd = -1 then None else Some (nat fd))"
proof -
  have fresh: "map_of s k \<noteq> Some (Suc (sum_list (map snd s)))" for s :: "(string \<times> nat) list" and k
  proof
    assume "map_of s k = Some (Suc (sum_list (map snd s)))"
    then have "Suc (sum_list (map snd s)) \<in> set (map snd s)" by (force dest: map_of_SomeD)
    then show False using member_le_sum_list [of "Suc (sum_list (map snd s))" "map snd s"] by simp
  qed
  have suc: "nat (1 + int n) = Suc n" for n by simp
  show ?thesis
    unfolding posix_shm_def
    by (intro conjI allI impI) (use fresh suc in \<open>auto simp: sample_shm_def split: if_splits\<close>)
qed

definition sample_slot :: seg where
  "sample_slot = \<lparr>guard = False, dsize = 0, ddata = []\<rparr>"

definition sample_shm_world :: "((string \<times> nat) list shm_state) world" where
  "sample_shm_world = \<lparr>heap = Map.empty, errno = OK_errno, next_hid = 5,
     net = \<lparr>sh_in = (\<lambda>_. shmBuffer_new), sh_out = (\<lambda>_. shmBuffer_new),
       sh_mem = ((\<lambda>_. sample_slot), [(''/srv'', 1)]), shmname = ''app'', shmconnid = 0,
       connbuff = shmBuffer_new, sh_conns = []\<rparr>\<rparr>"

theorem shm_connect_accept_witness:
  "\<exists>h w1 g1 g2. shm_connect 1 sample_shm ''SHM'' ''/srv'' (-1) 0 sample_shm_world = Ret (Some h, w1)
     \<and> shmp (sh_in (net w1) h) = Shm_at g1 \<and> shmp (sh_out (net w1) h) = Shm_at g2 \<and> g1 \<noteq> g2"
proof -
  have mem: "sh_mem (net sample_shm_world) = ((\<lambda>_. sample_slot), [(''/srv'', 1)])"
    and i: "0 = unat (shmconnid (net sample_shm_world)) mod SHM_MAX_CONCURRENT_CONN"
    and nm: "shmname (net sample_shm_world) = ''app''"
    by (simp_all add: sample_shm_world_def)
  have "to_string 0 = ''0''"
    by code_simp
  then have "length (shm_request ''app'' 0) = 20" "shm_in_name ''app'' 0 \<noteq> ''/srv''"
    "shm_out_name ''app'' 0 \<noteq> ''/srv''" "colon \<notin> set ''app''" "CHR 0x00 \<notin> set ''app''"
    by (simp_all add: shm_request_def shm_in_name_def shm_out_name_def colon_def)
  with shm_connect_accept [OF sample_posix mem _ _ i, of "''/srv''" 1 0 "''SHM''" "-1" 0]
  show ?thesis
    unfolding nm by (simp add: sample_slot_def SHM_SMALL_MSG_SIZE_def) blast
qed

definition sample_buffer :: shmBuffer where
  "sample_buffer = \<lparr>shmp = Shm_at 1, segmentname = ''/srv'', opened = True\<rparr>"

lemma sample_quiet: "others_read sample_shm rd g" "others_write sample_shm wr g"
  by (simp_all add: others_read_def others_write_def quiet_lock [OF sample_posix])

definition sample_mem :: "seg \<Rightarrow> (string \<times> nat) list shm_mem" where
  "sample_mem x = ((\<lambda>_. x), [])"

theorem shm_put_refines_witness:
  "\<exists>m'. shm_put 1 sample_shm sample_buffer (Some [1, 2]) (sample_mem sample_slot) = Ret (2, None, m')
     \<and> chan_step\<^sup>*\<^sup>* (writer_view (\<lambda>_. (None, [])) 1 [[1, 2]] 0 (sample_mem sample_slot))
         (writer_view (\<lambda>_. (None, [])) 1 [] 0 m')"
proof -
  have b: "shmp sample_buffer = Shm_at 1" by (simp add: sample_buffer_def)
  from put_ok [OF sample_posix b, of "\<lambda>_. sample_slot" "[1, 2]" 0 "[]"] obtain m'
    where run: "shm_put 1 sample_shm sample_buffer (Some [1, 2]) (sample_mem sample_slot) = Ret (2, None, m')"
    by (simp add: sample_mem_def sample_slot_def SHM_SMALL_MSG_SIZE_def)
  from shm_put_refines [OF sample_quiet(1) b run, of "\<lambda>_. (None, [])" "[]"] run show ?thesis by blast
qed

theorem shm_get_refines_witness:
  "\<exists>m'. shm_get 1 sample_shm sample_buffer True 16 (sample_mem (put_piece [1, 2] 0 sample_slot))
       = Ret (2, [1, 2], None, m')
     \<and> chan_step\<^sup>*\<^sup>* (reader_view (\<lambda>_. ([], 0)) 1 None [[9]] (sample_mem (put_piece [1, 2] 0 sample_slot)))
         (reader_view (\<lambda>_. ([], 0)) 1 None [[9], [1, 2]] m')"
proof -
  let ?sgs = "\<lambda>_. put_piece [1, 2] 0 sample_slot"
  have b: "shmp sample_buffer = Shm_at 1" by (simp add: sample_buffer_def)
  obtain m' where run: "shm_get 1 sample_shm sample_buffer True 16 (sample_mem (put_piece [1, 2] 0 sample_slot)) = Ret (2, [1, 2], None, m')"
    using get_ok [OF sample_posix b, of ?sgs "[1, 2]" sample_slot 16 0 "[]"]
    by (simp add: sample_mem_def SHM_SMALL_MSG_SIZE_def)
  from shm_get_refines [OF sample_quiet(2) b _ run, of "\<lambda>_. ([], 0)" "[[9]]"] run show ?thesis by auto
qed

section \<open>Idle connections\<close>

lemma set_mem_id: "set_mem None (sh_mem (net w)) w = w"
  by (simp add: set_mem_def with_net_def keep_errno_def)

lemma requeue_all:
  assumes "posix_shm A names fdseg"
    and keeps: "\<And>b h v v'. addinQ b h v = Ret v' \<Longrightarrow> heap v' = heap v \<and> net v' = net v"
  shows "\<forall>(h, f) \<in> set cs. f \<longrightarrow> heap w h \<noteq> None \<and> (\<exists>g. shmp (sh_in (net w) h) = Shm_at g) \<Longrightarrow>
    shm_requeue A addinQ cs w = each_handle (addinQ False) (map fst (filter snd cs)) w"
proof (induction cs arbitrary: w)
  case (Cons x cs)
  obtain h f where x: "x = (h, f)" by (rule prod.exhaust)
  show ?case
  proof (cases f)
    case False
    with Cons x show ?thesis by simp
  next
    case True
    from Cons.prems x True obtain ob g where live: "heap w h = Some ob" "shmp (sh_in (net w) h) = Shm_at g"
      by auto
    have rest: "shm_requeue A addinQ cs v = each_handle (addinQ False) (map fst (filter snd cs)) v"
      if "addinQ False h w = Ret v" for v
      using keeps [OF that] Cons.prems by (intro Cons.IH) auto
    have "bnd (addinQ False h w) (shm_requeue A addinQ cs) =
        bnd (addinQ False h w) (each_handle (addinQ False) (map fst (filter snd cs)))"
      using rest by (cases "addinQ False h w") auto
    with live x True show ?thesis
      by (simp add: obj_Some shm_peek_def mapped_def quiet_lock [OF assms(1)] set_mem_id Let_def)
  qed
qed simp

text \<open>\<open>ConnSHM::update\<close> hands every connection that has ever been yielded to the manager on every
  call, whether or not there is a message in its buffer, and goes on doing so: the test of the
  result of \<open>peek\<close> excludes negative values only, and the flag \<open>to_manage\<close> is never taken back.\<close>

theorem shm_update_reports_idle:
  assumes "posix_shm A names fdseg" and "\<not> opened (connbuff (net w))"
    and "\<forall>(h, f) \<in> set (sh_conns (net w)).
      f \<longrightarrow> heap w h \<noteq> None \<and> (\<exists>g. shmp (sh_in (net w) h) = Shm_at g)"
    and "\<And>b h v v'. addinQ b h v = Ret v' \<Longrightarrow> heap v' = heap v \<and> net v' = net v"
    and "shm_update c A p addinQ w = Ret w'"
  shows "each_handle (addinQ False) (map fst (filter snd (sh_conns (net w)))) w = Ret w'
    \<and> sh_conns (net w') = sh_conns (net w)"
proof -
  have eq: "shm_update c A p addinQ w =
      each_handle (addinQ False) (map fst (filter snd (sh_conns (net w)))) w"
    using requeue_all [OF assms(1,4,3)] assms(2)
    by (simp add: shm_update_def shm_check_new_def shm_isOpen_def)
  have "each_handle (addinQ False) hs v = Ret v' \<Longrightarrow> net v' = net v" for hs v v'
    by (induction hs arbitrary: v) (auto simp: bnd_Ret_conv dest: assms(4))
  from this [of _ w w'] eq assms(5) show ?thesis by simp
qed

text \<open>Two yielded handles with empty buffers, and one that has not been yielded.\<close>

definition idle_shm_world :: "((string \<times> nat) list shm_state) world" where
  "idle_shm_world = sample_shm_world\<lparr>heap := [7 \<mapsto> new_handle ''SHM'', 8 \<mapsto> new_handle ''SHM''],
     net := (net sample_shm_world)\<lparr>sh_in := (\<lambda>_. sample_buffer),
       sh_conns := [(6, False), (7, True), (8, True)]\<rparr>\<rparr>"

definition log_shm_addinQ ::
  "bool \<Rightarrow> hid \<Rightarrow> ((string \<times> nat) list shm_state) world \<Rightarrow> ((string \<times> nat) list shm_state) world out"
where
  "log_shm_addinQ b h w = Ret (w\<lparr>next_hid := next_hid w * 10 + h\<rparr>)"

theorem shm_update_reports_idle_witness:
  "\<exists>w'. shm_update 1 sample_shm ''SHM'' log_shm_addinQ idle_shm_world
     = Ret w' \<and> next_hid w' = 578 \<and> \<not> guard (fst (sh_mem (net w')) 1)"
proof -
  have live: "\<not> opened (connbuff (net idle_shm_world))"
    "\<forall>(h, f) \<in> set (sh_conns (net idle_shm_world)). f \<longrightarrow> heap idle_shm_world h \<noteq> None
      \<and> (\<exists>g. shmp (sh_in (net idle_shm_world) h) = Shm_at g)"
    by (simp_all add: idle_shm_world_def sample_shm_world_def sample_buffer_def shmBuffer_new_def)
  have keeps: "\<And>b h v v'. log_shm_addinQ b h v = Ret v' \<Longrightarrow> heap v' = heap v \<and> net v' = net v"
    by (auto simp: log_shm_addinQ_def)
  have each: "each_handle (log_shm_addinQ False)
      (map fst (filter snd (sh_conns (net idle_shm_world)))) idle_shm_world
      = Ret (idle_shm_world\<lparr>next_hid := 578\<rparr>)"
    by (simp add: idle_shm_world_def sample_shm_world_def log_shm_addinQ_def)
  from requeue_all [OF sample_posix keeps live(2)] live(1) each
  have run: "shm_update 1 sample_shm ''SHM'' log_shm_addinQ idle_shm_world
      = Ret (idle_shm_world\<lparr>next_hid := 578\<rparr>)"
    by (simp add: shm_update_def shm_check_new_def shm_isOpen_def)
  from shm_update_reports_idle [OF sample_posix live keeps run] run show ?thesis
    by (simp add: idle_shm_world_def sample_shm_world_def sample_slot_def)
qed

end
