(* ===== verification/ManagerTcp.thy ===== *)
theory ManagerTcp
  imports Manager CollTcp ShmProps
begin

text \<open>
  The manager with the transports it registers itself.
  \<^item> \<open>tcp_conn\<close> and \<open>shm_conn\<close> are \<open>ConnTcp\<close> and \<open>ConnSHM\<close> behind the interface \<open>ConnType\<close>. The
    locale \<open>connector\<close> is the part of its contract the manager's own tables rest on: initialising,
    listening and connecting leave them alone. Both connectors satisfy it.
  \<^item> Lemmas: the two ends of the handshake fit together, for a connection and for the member of a
    team; a round over TCP queues exactly the ready handles, in order.
\<close>

section \<open>Connectors\<close>

definition tcp_conn ::
  "nat \<Rightarrow> ('o, 'a) tcp_sys_scheme \<Rightarrow> string \<Rightarrow> (('o, 'm) tcp_state_scheme, 'x) world_scheme conn" where
  "tcp_conn c A p = \<lparr>conn_init = (\<lambda>app. tcp_init), conn_listen = tcp_listen A,
     conn_connect = tcp_connect c A p, conn_update = tcp_update A p, conn_end = tcp_end c A\<rparr>"

definition shm_conn ::
  "nat \<Rightarrow> ('o, 'a) shm_sys_scheme \<Rightarrow> string \<Rightarrow> ('o, 'm, 'x) shm_world conn" where
  "shm_conn c A p = \<lparr>conn_init = shm_init, conn_listen = shm_listen A,
     conn_connect = shm_connect c A p, conn_update = shm_update c A p, conn_end = shm_end c A\<rparr>"

locale connector =
  fixes K :: "('n, 'x) world_scheme conn"
  assumes init_more: "conn_init K app w = Ret (r, w') \<Longrightarrow> world.more w' = world.more w"
    and listen_more: "conn_listen K s w = Ret (r, w') \<Longrightarrow> world.more w' = world.more w"
    and connect_more: "conn_connect K s n t w = Ret (h, w') \<Longrightarrow> world.more w' = world.more w"

lemma more_simps [simp]:
  "world.more (with_net f w) = world.more w"
  "world.more (set_os e s v) = world.more v"
  "world.more (put_obj h ob w) = world.more w"
  "world.more (set_errno en w) = world.more w"
  "world.more (delete_obj h w) = world.more w"
  "alloc_handle p w = (h, w') \<Longrightarrow> world.more w' = world.more w"
  by (auto simp: with_net_def set_os_def put_obj_def set_errno_def delete_obj_def alloc_handle_def)

lemma tcp_init_socket_more: "tcp_init_socket A w = (r, w') \<Longrightarrow> world.more w' = world.more w"
  by (auto simp: tcp_init_socket_def Let_def split: prod.splits if_splits option.splits)

lemma tcp_listen_more:
  assumes "tcp_listen A s w = Ret (r, w')"
  shows "world.more w' = world.more w"
proof -
  let ?w = "with_net (\<lambda>t. t\<lparr>tcp_address := before_colon s\<rparr>) w"
  from assms obtain port where port: "(case tcp_init_socket A (with_net (\<lambda>t. t\<lparr>tcp_port := port\<rparr>) ?w) of (r, w) \<Rightarrow>
      if r \<noteq> 0 then Ret (-1, w)
      else bnd (FD_SET (listen_sck (net w)) {}) (\<lambda>S.
        Ret (0, with_net (\<lambda>t. t\<lparr>fdset := S, tmpset := {}, fdmax := listen_sck (net w)\<rparr>) w)))
      = Ret (r, w')"
    unfolding tcp_listen_def Let_def bnd_Ret_conv by blast
  obtain r1 w1 where i: "tcp_init_socket A (with_net (\<lambda>t. t\<lparr>tcp_port := port\<rparr>) ?w) = (r1, w1)"
    by (metis surj_pair)
  from i port have "world.more w' = world.more w1"
    by (auto simp: bnd_Ret_conv split: if_splits)
  with tcp_init_socket_more [OF i] show ?thesis by simp
qed

lemma tcp_connect_more:
  assumes "tcp_connect c A p s retry t w = Ret (h, w')"
  shows "world.more w' = world.more w"
proof -
  from assms obtain fd en st where
    r: "(let w = set_os (Some en) st w
      in if fd = -1 then Ret (None, w)
         else let (h, w) = new_HandleTCP p fd w in Ret (Some h, add_connection fd h w)) = Ret (h, w')"
    by (auto simp: tcp_connect_def bnd_Ret_conv)
  obtain k w1 where k: "new_HandleTCP p fd (set_os (Some en) st w) = (k, w1)" by (metis surj_pair)
  then have "world.more w1 = world.more w"
    by (auto simp: new_HandleTCP_def Let_def split: prod.splits)
  with r k show ?thesis by (auto simp: Let_def add_connection_def split: if_splits)
qed

interpretation tcp_connector: connector "tcp_conn c A p" for c A p
  by unfold_locales
    (auto simp: tcp_conn_def tcp_init_def dest: tcp_listen_more tcp_connect_more)

lemma set_mem_more [simp]: "world.more (set_mem e m w) = world.more w"
  by (simp add: set_mem_def)

lemma shm_listen_more:
  "shm_listen A s w = Ret (r, w') \<Longrightarrow> world.more w' = world.more w"
  by (auto simp: shm_listen_def Let_def split: prod.splits if_splits)

lemma new_HandleSHM_more: "new_HandleSHM p bin bout w = (h, w') \<Longrightarrow> world.more w' = world.more w"
  by (auto simp: new_HandleSHM_def Let_def split: prod.splits)

lemma shm_connect_more:
  "shm_connect c A p s retry t w = Ret (h, w') \<Longrightarrow> world.more w' = world.more w"
  by (auto simp: shm_connect_def Let_def bnd_Ret_conv split: prod.splits if_splits
      dest!: new_HandleSHM_more)

interpretation shm_connector: connector "shm_conn c A p" for c A p
  by unfold_locales
    (auto simp: shm_conn_def shm_init_def dest: shm_listen_more shm_connect_more)

section \<open>The handshake\<close>

lemma set_os_twice [simp]: "set_os None s (set_os None s' w) = set_os None s w"
  by (simp add: set_os_def with_net_def keep_errno_def)

lemma set_os_heap [simp]: "heap (set_os e s w) = heap w"
  by (simp add: set_os_def with_net_def)

text \<open>The tables of the manager after an operation of a transport or on an object.\<close>

lemma tables_simps [simp]:
  "handleReady (set_os e s w) = handleReady w" "handleReady (put_obj h ob v) = handleReady v"
  "groupsReady (set_os e s w) = groupsReady w" "groupsReady (put_obj h ob v) = groupsReady v"
  "appName (set_os e s w) = appName w" "appName (put_obj h ob v) = appName v"
  "handleReady (with_net f v) = handleReady v" "groupsReady (with_net f v) = groupsReady v"
  by (simp_all add: set_os_def with_net_def put_obj_def)

lemma tcp_read_message:
  assumes "reads_stream A inq" and "heap w h = Some ob" and "length m < 2 ^ 63"
    and "inq (fd_of (net w) h) (os (net w)) = concat (tcp_frame m) @ rest"
  obtains s1 s2 where
    "tcp_probe A h True sz w = Ret (8, of_nat (length m), set_os None s1 w)"
    "tcp_receive A h (of_nat (length m)) (set_os None s1 w) = Ret (int (length m), m, set_os None s2 w)"
    "inq (fd_of (net w) h) s2 = rest"
proof -
  let ?fd = "fd_of (net w) h"
  from fd_probe_stream [OF assms(1,4), of sz] obtain s1 where
    s1: "fd_probe A ?fd True sz (os (net w)) = (8, of_nat (length m), None, s1)"
    "inq ?fd s1 = m @ rest" by blast
  have "length m < 2 ^ 64" using assms(3) by simp
  from fd_receive_stream [OF assms(1) s1(2) this] obtain s2 where
    s2: "fd_receive A ?fd (of_nat (length m)) s1 = (int (length m), m, None, s2)" "inq ?fd s2 = rest"
    by blast
  show thesis
    by (rule that [of s1 s2]) (use s1 s2 assms(2) in \<open>simp_all add: tcp_probe_def tcp_receive_def obj_Some\<close>)
qed

lemma int_bytes_of_small: "bytes_int (int_bytes 0) = 0" "bytes_int (int_bytes 1) = 1"
  by (simp_all add: bytes_int_roundtrip)

lemma of_nat_4: "(of_nat (length (int_bytes i)) :: u64) = 4"
  by simp

lemma tcp_vtable_simps [simp]:
  "vt_probe (tcp_vtable A) = tcp_probe A" "vt_receive (tcp_vtable A) = tcp_receive A"
  "vt_send (tcp_vtable A) = tcp_send A" "vt_peek (tcp_vtable A) = tcp_peek A"
  by (simp_all add: tcp_vtable_def)

lemma tcp_connectionHandshake_p2p:
  assumes "reads_stream A inq" and "heap w h = Some ob"
    and "inq (fd_of (net w) h) (os (net w)) = concat (tcp_frame (int_bytes 0)) @ rest"
  shows "\<exists>s. connectionHandshake (tcp_vtable A) h w = Ret (0, None, set_os None s w)
    \<and> inq (fd_of (net w) h) s = rest"
proof -
  obtain s1 s2 where
    "tcp_probe A h True 0 w = Ret (8, 4, set_os None s1 w)"
    "tcp_receive A h 4 (set_os None s1 w) = Ret (4, int_bytes 0, set_os None s2 w)"
    "inq (fd_of (net w) h) s2 = rest"
    using tcp_read_message [OF assms(1,2) _ assms(3), of 0] by (auto simp: of_nat_4)
  then show ?thesis
    by (intro exI [of _ s2]) (simp add: connectionHandshake_def int_bytes_of_small)
qed

lemma tcp_connectionHandshake_team:
  assumes "reads_stream A inq" and "heap w h = Some ob"
    and "inq (fd_of (net w) h) (os (net w)) = wire [int_bytes 1, bytes_of_string t] @ rest"
    and "t \<noteq> []" and "CHR 0x00 \<notin> set t" and "length t \<le> 1048576"
  shows "\<exists>s. connectionHandshake (tcp_vtable A) h w = Ret (0, Some t, set_os None s w)
    \<and> inq (fd_of (net w) h) s = rest"
proof -
  have in1: "inq (fd_of (net w) h) (os (net w)) =
      concat (tcp_frame (int_bytes 1)) @ (concat (tcp_frame (bytes_of_string t)) @ rest)"
    using assms(3) by simp
  obtain s1 s2 where
    s: "tcp_probe A h True 0 w = Ret (8, 4, set_os None s1 w)"
    "tcp_receive A h 4 (set_os None s1 w) = Ret (4, int_bytes 1, set_os None s2 w)"
    and in2: "inq (fd_of (net w) h) s2 = concat (tcp_frame (bytes_of_string t)) @ rest"
    using tcp_read_message [OF assms(1,2) _ in1, of 0] by (auto simp: of_nat_4)
  have "heap (set_os None s2 w) h = Some ob" using assms(2) by simp
  from tcp_read_message [OF assms(1) this, of "bytes_of_string t" rest 0] in2 assms(6)
  obtain s3 s4 where
    s': "tcp_probe A h True 0 (set_os None s2 w) = Ret (8, of_nat (length t), set_os None s3 w)"
    "tcp_receive A h (of_nat (length t)) (set_os None s3 w) =
       Ret (int (length t), bytes_of_string t, set_os None s4 w)"
    and in3: "inq (fd_of (net w) h) s4 = rest"
    by auto
  have "length t < 2 ^ 64" using assms(6) by simp
  then have "unat (of_nat (length t) :: u64) = length t" by (rule unat_of_nat_u64)
  then have "\<not> (1048576 :: u64) < of_nat (length t)"
    using assms(6) by (simp add: word_less_nat_alt)
  moreover have "0 < length t" using assms(4) by simp
  ultimately show ?thesis
    using s s' in3
    by (intro exI [of _ s4]) (simp add: connectionHandshake_def int_bytes_of_small c_string_bytes [OF assms(5)])
qed

lemma tcp_send_message:
  assumes "writes_stream A outq" and "heap w h = Some ob" and "length m < 2 ^ 63"
  obtains s where "tcp_send A h m w = Ret (int (length m), set_os None s w)"
    "outq (fd_of (net w) h) s = outq (fd_of (net w) h) (os (net w)) @ concat (tcp_frame m)"
proof -
  from fd_send_stream [OF assms(1,3), of "fd_of (net w) h" "os (net w)"] obtain s where
    "fd_send A (fd_of (net w) h) m (os (net w)) = Ret (int (length m), None, s)"
    "outq (fd_of (net w) h) s = outq (fd_of (net w) h) (os (net w)) @ concat (tcp_frame m)" by blast
  with assms(2) show thesis by (intro that [of s]) (simp_all add: tcp_send_def obj_Some)
qed

lemma tcp_connect_announces:
  assumes "writes_stream A outq" and "vtab e = tcp_vtable A"
    and "connectHandle e a n t w = Ret (Some k, w1)" and "heap w1 k = Some ob"
  shows "\<exists>s. mgr_connect e a n t w =
      Ret (\<lparr>realHandle = Some k, isReadable = True, newConnection = True\<rparr>,
        put_obj k (ob\<lparr>counter := counter ob + 1\<rparr>) (set_os None s w1))
    \<and> outq (fd_of (net w1) k) s = outq (fd_of (net w1) k) (os (net w1)) @ wire [int_bytes 0]"
proof -
  obtain s where s: "tcp_send A k (int_bytes 0) w1 = Ret (4, set_os None s w1)"
    "outq (fd_of (net w1) k) s = outq (fd_of (net w1) k) (os (net w1)) @ concat (tcp_frame (int_bytes 0))"
    using tcp_send_message [OF assms(1,4), of "int_bytes 0"] by auto
  then show ?thesis
    by (intro exI [of _ s])
      (simp add: mgr_connect_def assms(2,3,4) huser_new_def incrementReferenceCounter_def upd_obj_Some)
qed

lemma tcp_join_announces:
  assumes "writes_stream A outq" and "vtab e = tcp_vtable A" and "length t \<le> 1048576"
    and "connect_root e as w = Ret (Some k, w1)" and "heap w1 k = Some ob"
  shows "\<exists>s. team_join e as t w =
      Ret (Some [k], put_obj k (ob\<lparr>handleName := t @ ''-'' @ appName w1\<rparr>) (set_os None s w1))
    \<and> outq (fd_of (net w1) k) s =
        outq (fd_of (net w1) k) (os (net w1)) @ wire [int_bytes 1, bytes_of_string t]"
proof -
  let ?fd = "fd_of (net w1) k"
  obtain s1 where s1: "tcp_send A k (int_bytes 1) w1 = Ret (4, set_os None s1 w1)"
    "outq ?fd s1 = outq ?fd (os (net w1)) @ concat (tcp_frame (int_bytes 1))"
    using tcp_send_message [OF assms(1,5), of "int_bytes 1"] by auto
  have live: "heap (set_os None s1 w1) k = Some ob" using assms(5) by simp
  have small: "length (bytes_of_string t) < 2 ^ 63" using assms(3) by simp
  obtain s2 where s2: "tcp_send A k (bytes_of_string t) (set_os None s1 w1) =
      Ret (int (length t), set_os None s2 w1)"
    "outq ?fd s2 = outq ?fd s1 @ concat (tcp_frame (bytes_of_string t))"
    using tcp_send_message [OF assms(1) live small] by auto
  from s1 s2 show ?thesis
    by (intro exI [of _ s2]) (simp add: team_join_def assms(2,4,5) upd_obj_Some)
qed

lemma tcp_addinQ_p2p:
  fixes w :: "(('o, 'm) tcp_state_scheme, 'x) mworld"
  assumes "reads_stream A inq" and "heap w h = Some ob"
    and "inq (fd_of (net w) h) (os (net w)) = wire [int_bytes 0] @ rest"
  shows "\<exists>w'. addinQ (tcp_vtable A) True h w = Ret w'
    \<and> handleReady w' = handleReady w @ [\<lparr>realHandle = Some h, isReadable = True, newConnection = True\<rparr>]
    \<and> groupsReady w' = groupsReady w \<and> heap w' = (heap w)(h \<mapsto> ob\<lparr>counter := counter ob + 1\<rparr>)
    \<and> inq (fd_of (net w') h) (os (net w')) = rest"
proof -
  have "inq (fd_of (net w) h) (os (net w)) = concat (tcp_frame (int_bytes 0)) @ rest"
    using assms(3) by simp
  from tcp_connectionHandshake_p2p [OF assms(1,2) this] obtain s where
    s: "connectionHandshake (tcp_vtable A) h w = Ret (0, None, set_os None s w)"
    "inq (fd_of (net w) h) s = rest" by blast
  from s assms(2) show ?thesis
    by (simp add: addinQ_def push_ready_def huser_new_def incrementReferenceCounter_def upd_obj_Some)
qed

lemma tcp_addinQ_team:
  fixes w :: "(('o, 'm) tcp_state_scheme, 'x) mworld"
  assumes "reads_stream A inq" and "heap w h = Some ob"
    and "inq (fd_of (net w) h) (os (net w)) = wire [int_bytes 1, bytes_of_string t] @ rest"
    and "t \<noteq> []" and "CHR 0x00 \<notin> set t" and "length t \<le> 1048576"
  shows "\<exists>w'. addinQ (tcp_vtable A) True h w = Ret w' \<and> handleReady w' = handleReady w
    \<and> (\<forall>k. smap_get (groupsReady w') k =
         (if k = t then Some ((case smap_get (groupsReady w) t of None \<Rightarrow> [] | Some hs \<Rightarrow> hs) @ [h])
          else smap_get (groupsReady w) k))
    \<and> heap w' = heap w \<and> inq (fd_of (net w') h) (os (net w')) = rest"
proof -
  from tcp_connectionHandshake_team [OF assms] obtain s where
    s: "connectionHandshake (tcp_vtable A) h w = Ret (0, Some t, set_os None s w)"
    "inq (fd_of (net w) h) s = rest" by blast
  let ?g = "smap_emplace t [] (groupsReady w)"
  let ?hs = "case smap_get (groupsReady w) t of None \<Rightarrow> [] | Some hs \<Rightarrow> hs"
  have get: "smap_get ?g t = Some ?hs"
    by (cases "smap_get (groupsReady w) t") (simp_all add: smap_laws)
  have "addinQ (tcp_vtable A) True h w =
      Ret (set_os None s w\<lparr>groupsReady := smap_put t (?hs @ [h]) ?g\<rparr>)"
    by (simp add: addinQ_def s(1) get)
  moreover have "smap_get (smap_put t (?hs @ [h]) ?g) k =
      (if k = t then Some (?hs @ [h]) else smap_get (groupsReady w) k)" for k
    by (simp add: smap_laws)
  ultimately show ?thesis using s(2) by simp
qed

text \<open>A process with the TCP transport on the sample operating system.\<close>

definition sample_mgr :: "config \<Rightarrow> string \<Rightarrow> sos \<Rightarrow> (sos tcp_state) mgr" where
  "sample_mgr c app s = \<lparr>heap = [7 \<mapsto> new_handle ''TCP''], errno = OK_errno, next_hid = 8,
     net = \<lparr>fd_of = (\<lambda>_. 3), connections = [(3, 7)], fdset = {3}, tmpset = {}, listen_sck = -1,
       fdmax = 3, tcp_address = [], tcp_port = 0, os = s\<rparr>,
     ctxs = (\<lambda>_. None), protocols = [''TCP''], handleReady = [], groupsReady = [], contexts = [],
     listening_endps = {}, createdTeams = {}, appName = app, poolName = [], cfg = c, stopped = False,
     mtcl_verbose = -1, initialized = True, slept = 0\<rparr>"

definition sample_env :: "(sos tcp_state, unit) env" where
  "sample_env = \<lparr>vtab = tcp_vtable sample_sys, proto = tcp_conn 5 sample_sys, bound = 5, junk = []\<rparr>"

lemma sample_connect_addr:
  assumes "next_hid w = 8" and "so_next (os (net w)) = 5" and "colon \<notin> set host"
  shows "\<exists>w1. tcp_connect 5 sample_sys p (host @ colon # svc) n t w = Ret (Some 8, w1)
     \<and> heap w1 8 = Some (new_handle p) \<and> so_out (os (net w1)) = so_out (os (net w))
     \<and> fd_of (net w1) 8 = 5"
proof -
  have fd: "connect_fd 5 sample_sys fd [1] en s = Ret (0, OK_errno, s)" for fd en s
    by (simp add: connect_fd_def sample_sys_def so_ok_def keep_errno_def Let_def)
  have sk: "sk_socket sample_sys a s = so_fresh s"
    "sk_getaddrinfo sample_sys b host svc s = (Some [[1]], s)" for a b host svc s
    by (simp_all add: sample_sys_def)
  have ta: "try_addrs 5 sample_sys [[1]] en s = Ret (Some (so_next s), OK_errno, s\<lparr>so_next := so_next s + 1\<rparr>)"
    if "so_next s \<noteq> -1" for en s
    using that by (simp add: fd sk so_fresh_def)
  have rl: "retry_loop 5 sample_sys [[1]] n t en s = Ret (Some (so_next s), OK_errno, s\<lparr>so_next := so_next s + 1\<rparr>)"
    if "so_next s \<noteq> -1" for en s
    unfolding retry_loop.simps [of 5 sample_sys "[[1]]" n t en s] ta [OF that] by simp
  have "internal_connect 5 sample_sys (host @ colon # svc) n t en (os (net w)) =
      Ret (5, OK_errno, (os (net w))\<lparr>so_next := 6\<rparr>)" for en
    using assms(2) by (simp add: internal_connect_def before_after_colon [OF assms(3)] substr_from_def sk rl)
  then show ?thesis
    using assms(1)
    by (simp add: tcp_connect_def new_HandleTCP_def alloc_handle_def add_connection_def Let_def
        set_os_def with_net_def)
qed

lemma sample_connect:
  assumes "next_hid w = 8" and "so_next (os (net w)) = 5"
  shows "\<exists>w1. tcp_connect 5 sample_sys p ''h:1'' n t w = Ret (Some 8, w1)
     \<and> heap w1 8 = Some (new_handle p) \<and> so_out (os (net w1)) = so_out (os (net w))
     \<and> fd_of (net w1) 8 = 5"
  using sample_connect_addr [OF assms, of "''h''" p "''1''" n t] by (simp add: colon_def)

text \<open>C8: A connection made with \<open>Manager::connect\<close> over TCP reaches the other process as a new
  point-to-point connection: the handshake the connecting side sends is understood by \<open>addinQ\<close> of the
  accepting side, which queues the handle for \<open>getNext\<close> and has read nothing else.\<close>

theorem tcp_connect_handshake:
  fixes v :: "(('p, 'k) tcp_state_scheme, 'y) mworld"
  assumes "writes_stream A outq" and "reads_stream B inq" and "vtab e = tcp_vtable A"
    and "connectHandle e a n t w = Ret (Some k, w1)" and "heap w1 k = Some ob"
    and "outq (fd_of (net w1) k) (os (net w1)) = []"
    and "mgr_connect e a n t w = Ret (u, w2)"
    and "heap v h = Some ob'"
    and "inq (fd_of (net v) h) (os (net v)) = outq (fd_of (net w2) k) (os (net w2))"
  shows "u = \<lparr>realHandle = Some k, isReadable = True, newConnection = True\<rparr>
    \<and> (\<exists>v'. addinQ (tcp_vtable B) True h v = Ret v'
        \<and> handleReady v' = handleReady v @ [\<lparr>realHandle = Some h, isReadable = True, newConnection = True\<rparr>]
        \<and> groupsReady v' = groupsReady v \<and> inq (fd_of (net v') h) (os (net v')) = [])"
proof -
  from tcp_connect_announces [OF assms(1,3,4,5)] assms(6,7) have
    u: "u = \<lparr>realHandle = Some k, isReadable = True, newConnection = True\<rparr>"
    and out: "outq (fd_of (net w2) k) (os (net w2)) = wire [int_bytes 0] @ []"
    by auto
  from tcp_addinQ_p2p [OF assms(2,8), of "[]"] out assms(9) u show ?thesis by auto
qed

theorem tcp_connect_handshake_witness:
  "\<exists>u w2 v'. mgr_connect sample_env ''TCP:h:1'' 1 0 (sample_mgr config_empty ''A'' \<lparr>so_in = [], so_out = [], so_next = 5\<rparr>)
       = Ret (u, w2) \<and> u = \<lparr>realHandle = Some 8, isReadable = True, newConnection = True\<rparr>
     \<and> addinQ (tcp_vtable sample_sys) True 7
         (sample_mgr config_empty ''B'' \<lparr>so_in = so_out (os (net w2)), so_out = [], so_next = 5\<rparr>) = Ret v'
     \<and> handleReady v' = [\<lparr>realHandle = Some 7, isReadable = True, newConnection = True\<rparr>]"
proof -
  let ?w = "sample_mgr config_empty ''A'' \<lparr>so_in = [], so_out = [], so_next = 5\<rparr>"
  from sample_connect [of ?w "''TCP''" 1 0] obtain w1 where
    c: "tcp_connect 5 sample_sys ''TCP'' ''h:1'' 1 0 ?w = Ret (Some 8, w1)"
    and w1: "heap w1 8 = Some (new_handle ''TCP'')" "so_out (os (net w1)) = []"
    by (auto simp: sample_mgr_def)
  have ch: "connectHandle sample_env ''TCP:h:1'' 1 0 ?w = Ret (Some 8, w1)"
    using c by (simp add: connectHandle_def before_colon_def after_colon_def colon_def sample_mgr_def
        config_empty_def sample_env_def tcp_conn_def Let_def)
  have V: "vtab sample_env = tcp_vtable sample_sys" by (simp add: sample_env_def)
  obtain u w2 where mc: "mgr_connect sample_env ''TCP:h:1'' 1 0 ?w = Ret (u, w2)"
    using tcp_connect_announces [OF sample_writes V ch w1(1)] by blast
  let ?v = "sample_mgr config_empty ''B'' \<lparr>so_in = so_out (os (net w2)), so_out = [], so_next = 5\<rparr>"
  have v: "heap ?v 7 = Some (new_handle ''TCP'')" "so_in (os (net ?v)) = so_out (os (net w2))"
    "handleReady ?v = []" by (simp_all add: sample_mgr_def)
  from tcp_connect_handshake [OF sample_writes sample_reads V ch w1 mc v(1,2)] mc v(3)
  show ?thesis by auto
qed

text \<open>C9: A member that joins a team over TCP announces it with the identifier of the team, and the
  root's \<open>addinQ\<close> adds the handle to the group of exactly this team, at its end, and keeps it from
  \<open>getNext\<close>.\<close>

theorem tcp_team_handshake:
  fixes v :: "(('p, 'k) tcp_state_scheme, 'y) mworld"
  assumes "writes_stream A outq" and "reads_stream B inq" and "vtab e = tcp_vtable A"
    and "connect_root e as w = Ret (Some k, w1)" and "heap w1 k = Some ob"
    and "outq (fd_of (net w1) k) (os (net w1)) = []"
    and "t \<noteq> []" and "CHR 0x00 \<notin> set t" and "length t \<le> 1048576"
    and "team_join e as t w = Ret (hs, w2)"
    and "heap v h = Some ob'"
    and "inq (fd_of (net v) h) (os (net v)) = outq (fd_of (net w2) k) (os (net w2))"
  shows "hs = Some [k] \<and> (\<exists>v'. addinQ (tcp_vtable B) True h v = Ret v' \<and> handleReady v' = handleReady v
    \<and> (\<forall>g. smap_get (groupsReady v') g =
         (if g = t then Some ((case smap_get (groupsReady v) t of None \<Rightarrow> [] | Some hs \<Rightarrow> hs) @ [h])
          else smap_get (groupsReady v) g)))"
proof -
  from tcp_join_announces [OF assms(1,3,9,4,5)] assms(6,10) have
    u: "hs = Some [k]"
    and out: "outq (fd_of (net w2) k) (os (net w2)) = wire [int_bytes 1, bytes_of_string t] @ []"
    by auto
  from tcp_addinQ_team [OF assms(2,11), of t "[]"] out assms(7-9,12) u show ?thesis by auto
qed

theorem tcp_team_handshake_witness:
  "\<exists>w2 v'. team_join sample_env [''TCP:h:1''] ''A:BA-0'' (sample_mgr config_empty ''B'' \<lparr>so_in = [], so_out = [], so_next = 5\<rparr>)
       = Ret (Some [8], w2)
     \<and> addinQ (tcp_vtable sample_sys) True 7
         (sample_mgr config_empty ''A'' \<lparr>so_in = so_out (os (net w2)), so_out = [], so_next = 5\<rparr>) = Ret v'
     \<and> smap_get (groupsReady v') ''A:BA-0'' = Some [7]"
proof -
  let ?w = "sample_mgr config_empty ''B'' \<lparr>so_in = [], so_out = [], so_next = 5\<rparr>"
  let ?t = "''A:BA-0''"
  from sample_connect [of ?w "''TCP''" CCONNECTION_RETRY CCONNECTION_TIMEOUT] obtain w1 where
    c: "tcp_connect 5 sample_sys ''TCP'' ''h:1'' CCONNECTION_RETRY CCONNECTION_TIMEOUT ?w = Ret (Some 8, w1)"
    and w1: "heap w1 8 = Some (new_handle ''TCP'')" "so_out (os (net w1)) = []"
    by (auto simp: sample_mgr_def)
  have "connectHandle sample_env ''TCP:h:1'' CCONNECTION_RETRY CCONNECTION_TIMEOUT ?w = Ret (Some 8, w1)"
    using c by (simp add: connectHandle_def before_colon_def after_colon_def colon_def sample_mgr_def
        config_empty_def sample_env_def tcp_conn_def Let_def)
  then have ch: "connect_root sample_env [''TCP:h:1''] ?w = Ret (Some 8, w1)" by simp
  have V: "vtab sample_env = tcp_vtable sample_sys" by (simp add: sample_env_def)
  have t: "?t \<noteq> []" "CHR 0x00 \<notin> set ?t" "length ?t \<le> 1048576" by simp_all
  obtain hs w2 where mc: "team_join sample_env [''TCP:h:1''] ?t ?w = Ret (hs, w2)"
    using tcp_join_announces [OF sample_writes V t(3) ch w1(1)] by blast
  let ?v = "sample_mgr config_empty ''A'' \<lparr>so_in = so_out (os (net w2)), so_out = [], so_next = 5\<rparr>"
  have v: "heap ?v 7 = Some (new_handle ''TCP'')" "so_in (os (net ?v)) = so_out (os (net w2))"
    "groupsReady ?v = []" by (simp_all add: sample_mgr_def)
  from tcp_team_handshake [OF sample_writes sample_reads V ch w1 t mc v(1,2)] mc v(3)
  show ?thesis by auto
qed

section \<open>A round of the IO thread over TCP\<close>

lemma tcp_io_net:
  "tcp_probe A h b sz w = Ret (r, sz', w') \<Longrightarrow> \<exists>s. net w' = (net w)\<lparr>os := s\<rparr>"
  "tcp_receive A h n w = Ret (r, bs, w') \<Longrightarrow> \<exists>s. net w' = (net w)\<lparr>os := s\<rparr>"
  by (auto simp: tcp_probe_def tcp_receive_def bnd_Ret_conv Let_def split: prod.splits)

lemma connectionHandshake_net:
  assumes "connectionHandshake (tcp_vtable A) h w = Ret (r, t, w')"
  shows "\<exists>s. net w' = (net w)\<lparr>os := s\<rparr>"
proof -
  have more: "\<exists>s. x = y\<lparr>os := s\<rparr>" if "\<exists>s. x = z\<lparr>os := s\<rparr>" "\<exists>s. z = y\<lparr>os := s\<rparr>"
    for x y z :: "('o, 'm) tcp_state_scheme" using that by auto
  from assms show ?thesis
    by (auto simp: connectionHandshake_def bnd_Ret_conv split: if_splits
        dest!: tcp_io_net intro: more)
qed

lemma push_ready_net: "push_ready h b w = Ret w' \<Longrightarrow> net w' = net w"
  by (auto simp: push_ready_def huser_new_def incrementReferenceCounter_def upd_obj_def put_obj_def
      bnd_Ret_conv)

lemma addinQ_keeps_tables: "keeps_tables (addinQ (tcp_vtable A))"
proof -
  have "\<exists>s. net w' = (net w)\<lparr>os := s\<rparr>" if "addinQ (tcp_vtable A) b h w = Ret w'" for b h w w'
  proof (cases b)
    case False
    with that have "net w' = net w" by (simp add: addinQ_def push_ready_net)
    then show ?thesis by (intro exI [of _ "os (net w)"]) simp
  next
    case True
    with that obtain r t w1 where hs: "connectionHandshake (tcp_vtable A) h w = Ret (r, t, w1)"
      and rest: "net w' = net w1"
      by (auto simp: addinQ_def bnd_Ret_conv deref_def Let_def dest: push_ready_net
          split: if_splits option.splits)
    from connectionHandshake_net [OF hs] rest show ?thesis by simp
  qed
  then show ?thesis unfolding keeps_tables_def by fastforce
qed

lemma push_ready_live:
  assumes "heap w h = Some ob"
  shows "push_ready h b w =
    Ret (put_obj h (ob\<lparr>counter := counter ob + 1\<rparr>) w\<lparr>handleReady := handleReady w @
      [\<lparr>realHandle = Some h, isReadable = True, newConnection = b\<rparr>]\<rparr>)"
  using assms
  by (simp add: push_ready_def huser_new_def incrementReferenceCounter_def upd_obj_Some)

lemma deliver_queues:
  "\<forall>fd \<in> set fds. 0 \<le> fd \<and> fd < FD_SETSIZE \<and> smap_get (connections (net w)) fd = Some (hf fd)
      \<and> heap w (hf fd) \<noteq> None \<Longrightarrow>
   \<exists>w'. deliver (addinQ V) fds w = Ret w' \<and> handleReady w' = handleReady w @
     map (\<lambda>fd. \<lparr>realHandle = Some (hf fd), isReadable = True, newConnection = False\<rparr>) fds"
proof (induction fds arbitrary: w)
  case (Cons fd fds)
  from Cons.prems have "0 \<le> fd" "fd < FD_SETSIZE" by simp_all
  then obtain w1 where c: "clear_fd fd w = Ret w1" using clear_fd_Ret by blast
  have w1: "heap w1 = heap w" "connections (net w1) = connections (net w)" "handleReady w1 = handleReady w"
    using c by (auto simp: clear_fd_def FD_CLR_def Let_def split: if_splits)
  from Cons.prems w1 obtain ob where ob: "heap w1 (hf fd) = Some ob" by auto
  let ?w2 = "put_obj (hf fd) (ob\<lparr>counter := counter ob + 1\<rparr>) w1\<lparr>handleReady := handleReady w1 @
      [\<lparr>realHandle = Some (hf fd), isReadable = True, newConnection = False\<rparr>]\<rparr>"
  have p: "addinQ V False (hf fd) w1 = Ret ?w2"
    by (simp add: addinQ_def push_ready_live [OF ob])
  have "\<forall>fd \<in> set fds. 0 \<le> fd \<and> fd < FD_SETSIZE \<and> smap_get (connections (net ?w2)) fd = Some (hf fd)
      \<and> heap ?w2 (hf fd) \<noteq> None"
    using Cons.prems w1 by (auto simp: put_obj_def)
  from Cons.IH [OF this] c p w1 Cons.prems show ?case by (auto simp: put_obj_def)
qed simp

text \<open>What \<open>k\<close> calls of \<open>getNext\<close> return.\<close>

fun getNexts :: "nat \<Rightarrow> ('n, 'x) mworld \<Rightarrow> huser list" where
  "getNexts 0 w = []"
| "getNexts (Suc k) w = (let (u, w) = getNext w in u # getNexts k w)"

lemma getNexts_queue: "getNexts (length (handleReady w)) w = handleReady w"
proof (induction "handleReady w" arbitrary: w)
  case (Cons u us)
  from Cons.hyps(1) [of "w\<lparr>handleReady := us\<rparr>"] Cons.hyps(2) show ?case
    by (simp add: getNext_def flip: Cons.hyps(2))
qed simp

text \<open>In a round over TCP in which \<open>select\<close> reports the connections \<open>S\<close>, all with live handles, the
  manager queues exactly these, and with an empty queue before, \<open>getNext\<close> returns their handles in
  ascending order of the descriptors, each once and readable.\<close>

theorem tcp_round_feeds_getNext:
  fixes w :: "(('o, 'm) tcp_state_scheme, 'x) mworld"
  assumes "fd_inv (net w)" and "fdset (net w) \<noteq> {}" and "S \<subseteq> fdset (net w)"
    and "listen_sck (net w) \<notin> S"
    and "sk_select A (fdmax (net w) + 1) (fdset (net w)) (os (net w)) = (((int (card S), None), S), s)"
    and "\<forall>fd \<in> S. smap_get (connections (net w)) fd = Some (hf fd) \<and> heap w (hf fd) \<noteq> None"
    and "handleReady w = []"
  shows "\<exists>w'. tcp_update A p (addinQ (tcp_vtable A)) w = Ret w' \<and> getNexts (card S) w' =
     map (\<lambda>fd. \<lparr>realHandle = Some (hf fd), isReadable = True, newConnection = False\<rparr>) (sorted_list_of_set S)"
proof -
  let ?w = "with_net (\<lambda>t. t\<lparr>os := s, tmpset := S\<rparr>) w"
  have range: "S \<subseteq> {0..<FD_SETSIZE}" using assms(1,3) by (auto simp: fd_inv_def)
  then have fin: "finite S" by (rule finite_subset) simp
  have "\<forall>fd \<in> set (sorted_list_of_set S). 0 \<le> fd \<and> fd < FD_SETSIZE
      \<and> smap_get (connections (net ?w)) fd = Some (hf fd) \<and> heap ?w (hf fd) \<noteq> None"
    using assms(6) range fin by auto
  from deliver_queues [OF this, of "tcp_vtable A"] obtain w' where
    w': "deliver (addinQ (tcp_vtable A)) (sorted_list_of_set S) ?w = Ret w'"
    "handleReady w' = map (\<lambda>fd. \<lparr>realHandle = Some (hf fd), isReadable = True, newConnection = False\<rparr>)
        (sorted_list_of_set S)"
    using assms(7) by auto
  with tcp_update_deliver [OF addinQ_keeps_tables [of A] assms(1-5), of p]
  have "tcp_update A p (addinQ (tcp_vtable A)) w = Ret w'" by simp
  moreover have "length (handleReady w') = card S" using w'(2) fin by simp
  ultimately show ?thesis using getNexts_queue [of w'] w'(2) by auto
qed

theorem tcp_round_feeds_getNext_witness:
  "\<exists>w'. tcp_update sample_sys ''TCP'' (addinQ (tcp_vtable sample_sys))
       (sample_mgr config_empty ''A'' \<lparr>so_in = [], so_out = [], so_next = 5\<rparr>) = Ret w'
     \<and> getNexts 1 w' = [\<lparr>realHandle = Some 7, isReadable = True, newConnection = False\<rparr>]"
proof -
  let ?s = "\<lparr>so_in = [], so_out = [], so_next = 5\<rparr>"
  let ?w = "sample_mgr config_empty ''A'' ?s"
  have w: "fd_inv (net ?w)" "fdset (net ?w) \<noteq> {}" "{3} \<subseteq> fdset (net ?w)" "listen_sck (net ?w) \<notin> {3}"
    "handleReady ?w = []" by (simp_all add: sample_mgr_def fd_inv_def FD_SETSIZE_def)
  have sel: "sk_select sample_sys (fdmax (net ?w) + 1) (fdset (net ?w)) (os (net ?w)) =
      (((int (card {3 :: int}), None), {3}), ?s)" by (simp add: sample_sys_def sample_mgr_def)
  have live: "\<forall>fd \<in> {3}. smap_get (connections (net ?w)) fd = Some 7 \<and> heap ?w 7 \<noteq> None"
    by (simp add: sample_mgr_def smap_get_def)
  from tcp_round_feeds_getNext [OF w(1-4) sel live w(5), of "''TCP''"] show ?thesis by simp
qed

end
