(* ===== verification/ManagerProps.thy ===== *)
theory ManagerProps
  imports ManagerTcp
begin

text \<open>
  What the manager guarantees to the application: teams are formed of exactly the members that
  announced themselves, the endpoints of the configuration are listened on, and where the code
  falls short of its interface (failed operations that stay registered, a team of one, a wait that
  is a thousand times too short, proxies and protocols picked without a check).
\<close>

section \<open>Waiting for the members of a team\<close>

text \<open>\<open>k\<close> rounds of the IO thread.\<close>

primrec rounds :: "('n, 'x) env \<Rightarrow> nat \<Rightarrow> ('n, 'x) mworld \<Rightarrow> ('n, 'x) mworld out" where
  "rounds e 0 w = Ret w"
| "rounds e (Suc k) w = bnd (backend_round e w) (rounds e k)"

definition group_size :: "string \<Rightarrow> ('n, 'x) mworld \<Rightarrow> nat option" where
  "group_size t w = map_option length (smap_get (groupsReady w) t)"

lemma ctx_update_Ret:
  assumes "heap w h \<noteq> None" and "ctxs w h = Some cx"
  shows "ctx_update h n w =
    Ret (n = ctx_size cx - 1, put_ctx h (cx\<lparr>completed := (n = ctx_size cx - 1)\<rparr>) w)"
  using assms by (auto simp: ctx_update_def get_ctx_def obj_def Let_def)

lemma put_ctx_same: "ctxs w h = Some cx \<Longrightarrow> put_ctx h cx w = w"
  by (simp add: put_ctx_def fun_upd_idem)

lemma ctx_not_completed [simp]: "\<not> completed cx \<Longrightarrow> cx\<lparr>completed := False\<rparr> = cx"
  by (cases cx) simp

lemma put_ctx_simps [simp]:
  "groupsReady (put_ctx h cx w) = groupsReady w" "heap (put_ctx h cx w) = heap w"
  "appName (put_ctx h cx w) = appName w" "net (put_ctx h cx w) = net w"
  "ctxs (put_ctx h cx w) = (ctxs w)(h \<mapsto> cx)"
  by (simp_all add: put_ctx_def)

lemma wait_group_not_ready:
  assumes "heap w h \<noteq> None" and "ctxs w h = Some cx" and "\<not> completed cx"
    and "group_size t w \<noteq> Some (nat (ctx_size cx - 1))" and "0 < ctx_size cx"
  shows "wait_group (Suc n) e h t w = bnd (backend_round e w) (wait_group n e h t)"
proof (cases "smap_get (groupsReady w) t")
  case (Some hs)
  with assms(4,5) have "int (length hs) \<noteq> ctx_size cx - 1" by (auto simp: group_size_def)
  with Some assms show ?thesis by (simp add: ctx_update_Ret put_ctx_same)
qed simp

lemma wait_group_ready:
  assumes "heap w h \<noteq> None" and "ctxs w h = Some cx"
    and "smap_get (groupsReady w) t = Some hs" and "int (length hs) = ctx_size cx - 1"
  shows "wait_group (Suc n) e h t w = Ret (hs, put_ctx h (cx\<lparr>completed := True\<rparr>) w)"
  using assms by (simp add: ctx_update_Ret)

lemma wait_group_rounds:
  assumes "\<not> completed cx" and "0 < ctx_size cx"
  shows "\<forall>j < k. \<exists>v. rounds e j w = Ret v \<and> heap v h \<noteq> None \<and> ctxs v h = Some cx
      \<and> group_size t v \<noteq> Some (nat (ctx_size cx - 1)) \<Longrightarrow>
    wait_group (k + n) e h t w = bnd (rounds e k w) (wait_group n e h t)"
proof (induction k arbitrary: w)
  case (Suc k)
  from Suc.prems [THEN spec, of 0] have
    now: "heap w h \<noteq> None" "ctxs w h = Some cx" "group_size t w \<noteq> Some (nat (ctx_size cx - 1))"
    by auto
  have "wait_group (Suc k + n) e h t w = bnd (backend_round e w) (wait_group (k + n) e h t)"
    using wait_group_not_ready [OF now(1,2) assms(1) now(3) assms(2), of "k + n" e] by simp
  also have "\<dots> = bnd (backend_round e w) (\<lambda>v. bnd (rounds e k v) (wait_group n e h t))"
  proof (rule bnd_eqI)
    fix v
    assume v: "backend_round e w = Ret v"
    show "wait_group (k + n) e h t v = bnd (rounds e k v) (wait_group n e h t)"
    proof (rule Suc.IH, intro allI impI)
      fix j
      assume "j < k"
      with Suc.prems [THEN spec, of "Suc j"] v
      show "\<exists>u. rounds e j v = Ret u \<and> heap u h \<noteq> None \<and> ctxs u h = Some cx
          \<and> group_size t u \<noteq> Some (nat (ctx_size cx - 1))" by simp
    qed
  qed
  finally show ?case by simp
qed simp

lemma each_name:
  "\<forall>k \<in> set hs. heap w k \<noteq> None \<Longrightarrow>
   \<exists>w'. each_handle (\<lambda>k. upd_obj k (\<lambda>ob. ob\<lparr>handleName := nm\<rparr>)) hs w = Ret w'
     \<and> (\<forall>k. heap w' k = (if k \<in> set hs then map_option (\<lambda>ob. ob\<lparr>handleName := nm\<rparr>) (heap w k) else heap w k))
     \<and> w' = w\<lparr>heap := heap w'\<rparr>"
proof (induction hs arbitrary: w)
  case (Cons k hs)
  then obtain ob where ob: "heap w k = Some ob" by auto
  let ?w = "put_obj k (ob\<lparr>handleName := nm\<rparr>) w"
  have "\<forall>k \<in> set hs. heap ?w k \<noteq> None" using Cons.prems by simp
  from Cons.IH [OF this] obtain w' where
    w': "each_handle (\<lambda>k. upd_obj k (\<lambda>ob. ob\<lparr>handleName := nm\<rparr>)) hs ?w = Ret w'"
    "\<forall>j. heap w' j = (if j \<in> set hs then map_option (\<lambda>ob. ob\<lparr>handleName := nm\<rparr>) (heap ?w j) else heap ?w j)"
    "w' = ?w\<lparr>heap := heap w'\<rparr>" by blast
  have "each_handle (\<lambda>k. upd_obj k (\<lambda>ob. ob\<lparr>handleName := nm\<rparr>)) (k # hs) w = Ret w'"
    using w'(1) by (simp add: upd_obj_Some [OF ob])
  moreover have "w' = w\<lparr>heap := heap w'\<rparr>" using w'(3) by (simp add: put_obj_def)
  moreover have "\<forall>j. heap w' j = (if j \<in> set (k # hs)
      then map_option (\<lambda>ob. ob\<lparr>handleName := nm\<rparr>) (heap w j) else heap w j)"
    using w'(2) ob by auto
  ultimately show ?case by blast
qed auto

text \<open>C11: The root of a team returns from its wait as soon as the number of members that have announced
  the team is the size of the team less one: when that holds after \<open>k\<close> rounds of the IO thread, and not
  before, the wait ends with exactly these members' handles in the order of their arrival, all renamed,
  the group is removed and the context is complete.\<close>

theorem team_accept_completes:
  assumes "\<forall>j < k. \<exists>v. rounds e j w = Ret v \<and> heap v h \<noteq> None \<and> ctxs v h = Some cx
      \<and> group_size t v \<noteq> Some (nat (ctx_size cx - 1))"
    and "rounds e k w = Ret v" and "heap v h \<noteq> None" and "ctxs v h = Some cx"
    and "smap_get (groupsReady v) t = Some hs" and "int (length hs) = ctx_size cx - 1"
    and "\<forall>i \<in> set hs. heap v i \<noteq> None" and "\<not> completed cx" and "k < bound e"
  shows "\<exists>w'. team_accept e h t w = Ret (hs, w')
    \<and> smap_get (groupsReady w') t = None
    \<and> (\<forall>g. g \<noteq> t \<longrightarrow> smap_get (groupsReady w') g = smap_get (groupsReady v) g)
    \<and> ctxs w' h = Some (cx\<lparr>completed := True\<rparr>)
    \<and> (\<forall>i \<in> set hs. \<exists>ob. heap w' i = Some ob \<and> handleName ob = t @ ''-'' @ appName v)"
proof -
  have pos: "0 < ctx_size cx" using assms(6) by linarith
  obtain n where n: "bound e = k + Suc n" using assms(9) by (metis add_Suc_right less_imp_Suc_add)
  let ?v = "put_ctx h (cx\<lparr>completed := True\<rparr>) v"
  have wait: "wait_group (bound e) e h t w = Ret (hs, ?v)"
    unfolding n wait_group_rounds [OF assms(8) pos assms(1)] assms(2) bnd.simps
    by (rule wait_group_ready [OF assms(3-6)])
  have "\<forall>i \<in> set hs. heap ?v i \<noteq> None" using assms(7) by simp
  from each_name [OF this, of "t @ ''-'' @ appName v"] obtain w2 where
    w2: "each_handle (\<lambda>i. upd_obj i (\<lambda>ob. ob\<lparr>handleName := t @ ''-'' @ appName v\<rparr>)) hs ?v = Ret w2"
    "\<forall>i. heap w2 i = (if i \<in> set hs then map_option (\<lambda>ob. ob\<lparr>handleName := t @ ''-'' @ appName v\<rparr>)
       (heap v i) else heap v i)"
    "w2 = ?v\<lparr>heap := heap w2\<rparr>" by auto
  let ?w' = "w2\<lparr>groupsReady := smap_erase t (groupsReady w2)\<rparr>"
  have run: "team_accept e h t w = Ret (hs, ?w')"
    using w2(1) by (simp add: team_accept_def wait)
  have "groupsReady w2 = groupsReady v" "ctxs w2 = (ctxs v)(h \<mapsto> cx\<lparr>completed := True\<rparr>)"
    by (subst w2(3), simp)+
  with w2(2) assms(7) show ?thesis unfolding run by (auto simp: smap_laws)
qed

text \<open>A root that waits for one member; the member's connection is announced in the first round.\<close>

definition late_conn :: "((sos tcp_state, unit) mworld) conn" where
  "late_conn = (tcp_conn 5 sample_sys ''TCP'')\<lparr>conn_update :=
     (\<lambda>addinQ w. Ret (w\<lparr>groupsReady := smap_put ''T'' [7] (groupsReady w)\<rparr>))\<rparr>"

definition late_env :: "(sos tcp_state, unit) env" where
  "late_env = sample_env\<lparr>proto := (\<lambda>_. late_conn)\<rparr>"

definition waiting_root :: "(sos tcp_state) mgr" where
  "waiting_root = put_ctx 9 \<lparr>ctx_size = 2, ctx_root = True, ctx_rank = 0, canSend = False,
     canReceive = False, completed = False, ctx_coll = None\<rparr>
     (put_obj 9 (new_handle []) (sample_mgr config_empty ''A'' \<lparr>so_in = [], so_out = [], so_next = 5\<rparr>))"

theorem team_accept_completes_witness:
  "\<exists>w'. team_accept late_env 9 ''T'' waiting_root = Ret ([7], w') \<and> smap_get (groupsReady w') ''T'' = None"
proof -
  let ?cx = "\<lparr>ctx_size = 2, ctx_root = True, ctx_rank = 0, canSend = False,
     canReceive = False, completed = False, ctx_coll = None\<rparr>"
  let ?v = "sleep_us IO_THREAD_POLL_TIMEOUT (waiting_root\<lparr>groupsReady := [(''T'', [7])]\<rparr>)"
  have r: "rounds late_env 1 waiting_root = Ret ?v"
    by (simp add: backend_round_def late_env_def late_conn_def sample_env_def waiting_root_def
        sample_mgr_def sleep_us_def put_obj_def put_ctx_def)
  have b: "\<forall>j < 1. \<exists>v. rounds late_env j waiting_root = Ret v \<and> heap v 9 \<noteq> None \<and> ctxs v 9 = Some ?cx
      \<and> group_size ''T'' v \<noteq> Some (nat (ctx_size ?cx - 1))"
    by (simp add: waiting_root_def sample_mgr_def group_size_def put_obj_def)
  have v: "heap ?v 9 \<noteq> None" "ctxs ?v 9 = Some ?cx" "smap_get (groupsReady ?v) ''T'' = Some [7]"
    "int (length [7 :: hid]) = ctx_size ?cx - 1" "\<forall>i \<in> set [7]. heap ?v i \<noteq> None" "\<not> completed ?cx"
    "1 < bound late_env"
    by (simp_all add: waiting_root_def sample_mgr_def put_obj_def sleep_us_def smap_get_def late_env_def
        sample_env_def)
  from team_accept_completes [OF b r v] show ?thesis by blast
qed

section \<open>Creating teams\<close>

text \<open>The kinds of collective \<open>createTeam\<close> makes.\<close>

definition is_collective :: "handle_type \<Rightarrow> bool" where
  "is_collective ty = (ty \<in> {BROADCAST, FANIN, FANOUT, GATHER})"

definition team_ctx :: "handle_type \<Rightarrow> int \<Rightarrow> bool \<Rightarrow> int \<Rightarrow> ctx" where
  "team_ctx ty n root rank = \<lparr>ctx_size = n, ctx_root = root, ctx_rank = rank,
     canSend = (ty = FANIN \<and> \<not> root \<or> ty = FANOUT \<and> root),
     canReceive = (ty = FANIN \<and> root \<or> ty = FANOUT \<and> \<not> root),
     completed = False, ctx_coll = None\<rparr>"

lemma createContext_collective:
  assumes "is_collective ty" and "createContext ty n root rank w = (c, w')"
  shows "c = Some (next_hid w)" and "ctxs w' = (ctxs w)(next_hid w \<mapsto> team_ctx ty n root rank)"
    and "\<exists>ob. htype ob = ty \<and> counter ob = 1 \<and> heap w' = (heap w)(next_hid w \<mapsto> ob)"
      (is ?obj) and "w' = w\<lparr>heap := heap w', next_hid := Suc (next_hid w), ctxs := ctxs w'\<rparr>"
proof -
  note defs = is_collective_def createContext_def new_CollectiveContext_def alloc_handle_def put_obj_def
    put_ctx_def Let_def team_ctx_def
  show ?obj
    by (rule exI [of _ "the (heap w' (next_hid w))"]) (use assms in \<open>auto simp: defs\<close>)
qed (use assms in \<open>auto simp: is_collective_def createContext_def new_CollectiveContext_def
    alloc_handle_def put_obj_def put_ctx_def Let_def team_ctx_def\<close>)

lemma make_coll_generic:
  "is_collective ty \<Longrightarrow> \<exists>cl. make_coll ty GENERIC cx hs = Some cl \<and> participants cl = hs"
  by (auto simp: is_collective_def make_coll_def)

text \<open>C12: When the members have announced themselves before, \<open>createTeam\<close> at the root makes the context
  of the team at once: its participants are exactly the announced handles in their order, the context
  is complete, wrapped by a valid \<open>HandleUser\<close> with a reference of its own, under the manager's
  control, and the team can not be created again.\<close>

theorem createTeam_at_root:
  assumes "team_id members (appName w) ty = t" and "t \<notin> createdTeams w"
    and "scan_team (cfg w) (appName w) (appName w) (getlines members) (0, 0, False, True, True)
      = Some (n, rank, True, False, False)"
    and "smap_get (components (cfg w)) (appName w) = Some (host, prots, le # les)"
    and "is_collective ty" and "smap_get (groupsReady w) t = Some hs" and "int (length hs) = n - 1"
    and "\<forall>i \<in> set hs. heap w i \<noteq> None" and "next_hid w \<notin> set hs" and "0 < bound e"
    and "smap_get (contexts w) (next_hid w) = None"
  shows "\<exists>w' cl. createTeam e members (appName w) ty w =
      Ret (\<lparr>realHandle = Some (next_hid w), isReadable = True, newConnection = True\<rparr>, w')
    \<and> participants cl = hs
    \<and> ctxs w' (next_hid w) = Some ((team_ctx ty n True rank)\<lparr>completed := True, ctx_coll := Some cl\<rparr>)
    \<and> (\<exists>ob. heap w' (next_hid w) = Some ob \<and> counter ob = 2 \<and> handleName ob = t @ ''-'' @ appName w)
    \<and> smap_get (contexts w') (next_hid w) = Some False \<and> smap_get (groupsReady w') t = None
    \<and> t \<in> createdTeams w'"
proof -
  let ?h = "next_hid w" and ?cx = "team_ctx ty n True rank"
  let ?w0 = "w\<lparr>createdTeams := insert t (createdTeams w)\<rparr>"
  have cs: "smap_emplace (appName w) ([], [], []) (components (cfg w)) = components (cfg w)"
    using assms(4) by (simp add: smap_emplace_def)
  obtain c w1 where ctx: "createContext ty n True rank ?w0 = (c, w1)" by (metis surj_pair)
  from createContext_collective [OF assms(5) ctx] obtain ob where
    c: "c = Some ?h" and x1: "ctxs w1 = (ctxs w)(?h \<mapsto> ?cx)" and ty: "htype ob = ty" "counter ob = 1"
    and h1: "heap w1 = (heap w)(?h \<mapsto> ob)"
    and w1: "w1 = ?w0\<lparr>heap := heap w1, next_hid := Suc (next_hid w), ctxs := ctxs w1\<rparr>"
    by auto
  have same: "groupsReady w1 = groupsReady w" "appName w1 = appName w" "contexts w1 = contexts w"
    "createdTeams w1 = insert t (createdTeams w)" by (subst w1, simp)+
  obtain m where m: "bound e = Suc m" using assms(10) by (cases "bound e") auto
  have wait: "wait_group (bound e) e ?h t w1 = Ret (hs, put_ctx ?h (?cx\<lparr>completed := True\<rparr>) w1)"
    unfolding m by (rule wait_group_ready) (use x1 h1 assms(6,7) in \<open>simp_all add: same team_ctx_def\<close>)
  let ?nm = "t @ ''-'' @ appName w"
  let ?v = "put_ctx ?h (?cx\<lparr>completed := True\<rparr>) w1"
  have "\<forall>i \<in> set hs. heap ?v i \<noteq> None" using assms(8,9) h1 by auto
  from each_name [OF this, of ?nm] obtain w2 where
    w2: "each_handle (\<lambda>i. upd_obj i (\<lambda>ob. ob\<lparr>handleName := ?nm\<rparr>)) hs ?v = Ret w2"
    "\<forall>i. heap w2 i = (if i \<in> set hs then map_option (\<lambda>ob. ob\<lparr>handleName := ?nm\<rparr>) (heap ?v i)
       else heap ?v i)"
    "w2 = ?v\<lparr>heap := heap w2\<rparr>" by blast
  let ?w3 = "w2\<lparr>groupsReady := smap_erase t (groupsReady w)\<rparr>"
  have h2: "heap w2 ?h = Some ob" using w2(2) assms(9) h1 by simp
  have same2: "groupsReady w2 = groupsReady w" "appName w2 = appName w" "contexts w2 = contexts w"
    "createdTeams w2 = insert t (createdTeams w)" "ctxs w2 ?h = Some (?cx\<lparr>completed := True\<rparr>)"
    by (subst w2(3), simp add: same put_ctx_def)+
  have acc: "team_accept e ?h t w1 = Ret (hs, ?w3)"
    using w2(1) by (simp add: team_accept_def wait same same2)
  from make_coll_generic [OF assms(5)] obtain cl where
    cl: "make_coll ty GENERIC (?cx\<lparr>completed := True\<rparr>) hs = Some cl" "participants cl = hs" by blast
  let ?cx2 = "?cx\<lparr>completed := True, ctx_coll := Some cl\<rparr>"
  have fin: "team_finish (Some ?h) t hs ?w3 =
      Ret (\<lparr>realHandle = Some ?h, isReadable = True, newConnection = True\<rparr>,
        put_obj ?h (ob\<lparr>handleName := ?nm, counter := counter ob + 1\<rparr>)
          ((put_ctx ?h ?cx2 ?w3)\<lparr>contexts := smap_emplace ?h False (contexts w)\<rparr>))"
    using h2 cl ty same2
    by (simp add: team_finish_def setImplementation_def get_ctx_def obj_Some upd_obj_Some huser_new_def
        incrementReferenceCounter_def Let_def put_obj_def put_ctx_def)
  have "createTeam e members (appName w) ty w = team_finish (Some ?h) t hs ?w3"
    using assms(2-4) ctx acc
    by (simp add: createTeam_def Let_def assms(1) cs c team_handles_def same)
  then show ?thesis
    unfolding fin
    by (intro exI [of _ cl] exI) (use cl ty assms(11) same2 in
      \<open>auto simp: put_obj_def put_ctx_def smap_laws\<close>)
qed

text \<open>Two components, both listening on TCP.\<close>

definition two_apps :: config where
  "two_apps = \<lparr>pools = [], components = [(''A'', ''h'', [''TCP''], [''TCP:h:1'']), (''B'', ''h'', [''TCP''], [''TCP:h:2''])]\<rparr>"

lemma team_AB: "team_id ''A:B'' ''A'' BROADCAST = ''A:BA-0''"
  by (simp add: team_id_def type_number_def to_string_def nat_to_string.simps digit_char_def
      char_of_def bit_0)

theorem createTeam_at_root_witness:
  "\<exists>w' cl. createTeam sample_env ''A:B'' ''A'' BROADCAST
       ((sample_mgr two_apps ''A'' \<lparr>so_in = [], so_out = [], so_next = 5\<rparr>)\<lparr>groupsReady := [(''A:BA-0'', [7])]\<rparr>)
     = Ret (\<lparr>realHandle = Some 8, isReadable = True, newConnection = True\<rparr>, w') \<and> participants cl = [7]
     \<and> ctxs w' 8 = Some ((team_ctx BROADCAST 2 True 0)\<lparr>completed := True, ctx_coll := Some cl\<rparr>)"
proof -
  let ?w = "(sample_mgr two_apps ''A'' \<lparr>so_in = [], so_out = [], so_next = 5\<rparr>)\<lparr>groupsReady := [(''A:BA-0'', [7])]\<rparr>"
  have app: "appName ?w = ''A''" "next_hid ?w = 8" by (simp_all add: sample_mgr_def)
  have c: "team_id ''A:B'' (appName ?w) BROADCAST = ''A:BA-0''" by (simp add: app team_AB)
  have w: "''A:BA-0'' \<notin> createdTeams ?w"
    "scan_team (cfg ?w) (appName ?w) (appName ?w) (getlines ''A:B'') (0, 0, False, True, True)
      = Some (2, 0, True, False, False)"
    "smap_get (components (cfg ?w)) (appName ?w) = Some (''h'', [''TCP''], ''TCP:h:1'' # [])"
    "is_collective BROADCAST" "smap_get (groupsReady ?w) ''A:BA-0'' = Some [7]"
    "int (length [7 :: hid]) = 2 - 1" "\<forall>i \<in> set [7]. heap ?w i \<noteq> None" "next_hid ?w \<notin> set [7]"
    "0 < bound sample_env" "smap_get (contexts ?w) (next_hid ?w) = None"
    by (simp_all add: sample_mgr_def two_apps_def smap_get_def getlines_def colon_def is_collective_def
        sample_env_def)
  from createTeam_at_root [OF c w] show ?thesis unfolding app by blast
qed

lemma createTeam_missing:
  assumes "team_id members root ty \<notin> createdTeams w"
    and "scan_team (cfg w) (appName w) root (getlines members) (0, 0, False, True, True) = None"
  shows "createTeam e members root ty w =
    Ret (huser_null, w\<lparr>createdTeams := insert (team_id members root ty) (createdTeams w)\<rparr>)"
  using assms by (simp add: createTeam_def Let_def)

text \<open>A team whose creation failed because a member is missing in the configuration can not be
  created later either: the identifier is registered before the check and never removed, so every later
  call fails with \<open>EINVAL\<close>, whatever the configuration is by then.\<close>

theorem createTeam_failure_sticks:
  assumes "team_id members root ty \<notin> createdTeams w"
    and "scan_team (cfg w) (appName w) root (getlines members) (0, 0, False, True, True) = None"
    and "createTeam e members root ty w = Ret (u, w1)" and "createdTeams w1 \<subseteq> createdTeams v"
  shows "u = huser_null \<and> createTeam e members root ty v = Ret (huser_null, set_errno EINVAL v)"
  using assms(4) createTeam_missing [OF assms(1,2), of e] assms(3)
  by (auto simp: createTeam_def Let_def)

theorem createTeam_failure_sticks_witness:
  "\<exists>w1. createTeam sample_env ''A:B'' ''A'' BROADCAST
       (sample_mgr config_empty ''A'' \<lparr>so_in = [], so_out = [], so_next = 5\<rparr>) = Ret (huser_null, w1)
     \<and> createTeam sample_env ''A:B'' ''A'' BROADCAST (w1\<lparr>cfg := two_apps\<rparr>)
       = Ret (huser_null, set_errno EINVAL (w1\<lparr>cfg := two_apps\<rparr>))"
proof -
  let ?w = "sample_mgr config_empty ''A'' \<lparr>so_in = [], so_out = [], so_next = 5\<rparr>"
  let ?w1 = "?w\<lparr>createdTeams := insert (team_id ''A:B'' ''A'' BROADCAST) (createdTeams ?w)\<rparr>"
  have new: "team_id ''A:B'' ''A'' BROADCAST \<notin> createdTeams ?w" by (simp add: sample_mgr_def)
  have scan: "scan_team (cfg ?w) (appName ?w) ''A'' (getlines ''A:B'') (0, 0, False, True, True) = None"
    by (simp add: sample_mgr_def getlines_def colon_def config_empty_def)
  note run = createTeam_missing [OF new scan, of sample_env]
  have sub: "createdTeams ?w1 \<subseteq> createdTeams (?w1\<lparr>cfg := two_apps\<rparr>)" by simp
  from createTeam_failure_sticks [OF new scan run sub] run show ?thesis by blast
qed

section \<open>A team of one\<close>

lemma wait_group_absent:
  "\<forall>j v. rounds e j w = Ret v \<longrightarrow> smap_get (groupsReady v) t = None \<Longrightarrow>
   \<exists>f. wait_group n e h t w = Fault f"
proof (induction n arbitrary: w)
  case (Suc n)
  from Suc.prems [THEN spec, of 0] have none: "smap_get (groupsReady w) t = None" by simp
  show ?case
  proof (cases "backend_round e w")
    case (Ret v)
    have "\<forall>j u. rounds e j v = Ret u \<longrightarrow> smap_get (groupsReady u) t = None"
    proof (intro allI impI)
      fix j u
      assume "rounds e j v = Ret u"
      with Ret have "rounds e (Suc j) w = Ret u" by simp
      with Suc.prems show "smap_get (groupsReady u) t = None" by blast
    qed
    from Suc.IH [OF this] none Ret show ?thesis by simp
  qed (use none in simp)
qed simp

text \<open>\<open>createTeam\<close> for a team whose only member is the caller never returns while no one else
  announces the team: the wait of the root first asks whether the group exists, and a group comes into
  being with its first announcement, so the empty group of a team of one is never found complete.\<close>

theorem createTeam_alone_never_returns:
  assumes "team_id members (appName w) ty = t" and "t \<notin> createdTeams w"
    and "scan_team (cfg w) (appName w) (appName w) (getlines members) (0, 0, False, True, True)
      = Some (1, rank, True, False, False)"
    and "smap_get (components (cfg w)) (appName w) = Some (host, prots, le # les)"
    and "is_collective ty"
    and "\<forall>j v. rounds e j (snd (createContext ty 1 True rank
           (w\<lparr>createdTeams := insert t (createdTeams w)\<rparr>))) = Ret v \<longrightarrow> smap_get (groupsReady v) t = None"
  shows "\<exists>f. createTeam e members (appName w) ty w = Fault f"
proof -
  have cs: "smap_emplace (appName w) ([], [], []) (components (cfg w)) = components (cfg w)"
    using assms(4) by (simp add: smap_emplace_def)
  obtain c w1 where ctx: "createContext ty 1 True rank (w\<lparr>createdTeams := insert t (createdTeams w)\<rparr>) = (c, w1)"
    by (metis surj_pair)
  have c: "c = Some (next_hid w)" using createContext_collective(1) [OF assms(5) ctx] by simp
  have app: "appName w1 = appName w" by (subst createContext_collective(4) [OF assms(5) ctx]) simp
  from wait_group_absent [of e w1 t "bound e" "next_hid w"] assms(6) ctx obtain f where
    "wait_group (bound e) e (next_hid w) t w1 = Fault f" by auto
  then have "team_accept e (next_hid w) t w1 = Fault f" by (simp add: team_accept_def)
  then show ?thesis
    using assms(2-4) ctx
    by (simp add: createTeam_def Let_def assms(1) cs c team_handles_def app)
qed

lemma idle_rounds:
  fixes e :: "('n, 'x) env"
  shows "protocols w = [] \<Longrightarrow> contexts w = [] \<Longrightarrow> rounds e k w = Ret v \<Longrightarrow> groupsReady v = groupsReady w"
proof (induction k arbitrary: w)
  case (Suc k)
  then have "rounds e k (sleep_us IO_THREAD_POLL_TIMEOUT w) = Ret v"
    by (simp add: backend_round_def sleep_us_def Let_def)
  from Suc.IH [OF _ _ this] Suc.prems(1,2) show ?case by (simp add: sleep_us_def)
qed simp

theorem createTeam_alone_never_returns_witness:
  "\<exists>f. createTeam (sample_env\<lparr>bound := 1000\<rparr>) ''A'' ''A'' BROADCAST
     ((sample_mgr two_apps ''A'' \<lparr>so_in = [], so_out = [], so_next = 5\<rparr>)\<lparr>protocols := []\<rparr>) = Fault f"
proof -
  let ?w = "(sample_mgr two_apps ''A'' \<lparr>so_in = [], so_out = [], so_next = 5\<rparr>)\<lparr>protocols := []\<rparr>"
  let ?e = "sample_env\<lparr>bound := 1000\<rparr>"
  have app: "appName ?w = ''A''" by (simp add: sample_mgr_def)
  obtain t where t: "team_id ''A'' (appName ?w) BROADCAST = t" by simp
  have w: "t \<notin> createdTeams ?w"
    "scan_team (cfg ?w) (appName ?w) (appName ?w) (getlines ''A'') (0, 0, False, True, True)
      = Some (1, 0, True, False, False)"
    "smap_get (components (cfg ?w)) (appName ?w) = Some (''h'', [''TCP''], ''TCP:h:1'' # [])"
    "is_collective BROADCAST"
    by (simp_all add: sample_mgr_def two_apps_def smap_get_def getlines_def colon_def is_collective_def)
  have "\<forall>j v. rounds ?e j (snd (createContext BROADCAST 1 True 0
      (?w\<lparr>createdTeams := insert t (createdTeams ?w)\<rparr>))) = Ret v \<longrightarrow> smap_get (groupsReady v) t = None"
    by (auto simp: createContext_def new_CollectiveContext_def alloc_handle_def put_obj_def put_ctx_def
        Let_def sample_mgr_def dest!: idle_rounds [rotated -1])
  from createTeam_alone_never_returns [OF t w this] show ?thesis unfolding app .
qed

section \<open>Listening and starting\<close>

lemma more_tables:
  fixes w w' :: "('n, 'x) mworld"
  assumes "world.more w' = world.more w"
  shows "listening_endps w' = listening_endps w" "protocols w' = protocols w" "cfg w' = cfg w"
    "poolName w' = poolName w" "appName w' = appName w" "stopped w' = stopped w"
  using assms by (cases w; cases w'; simp)+

lemma tcp_listen_tables:
  fixes w :: "(('o, 'm) tcp_state_scheme, 'x) mworld"
  assumes "proto e (before_colon s) = tcp_conn c A p" and "mgr_listen e s w = Ret (r, w')"
  shows "listening_endps w' = insert s (listening_endps w)"
proof (cases "s \<in> listening_endps w \<or> before_colon s \<notin> set (protocols w)")
  case True
  with assms(2) show ?thesis
    by (auto simp: mgr_listen_def Let_def set_errno_def split: if_splits)
next
  case False
  with assms(2) obtain a where
    "conn_listen (tcp_conn c A p) a (w\<lparr>listening_endps := insert s (listening_endps w)\<rparr>) = Ret (r, w')"
    by (auto simp: mgr_listen_def Let_def bnd_Ret_conv assms(1))
  from more_tables(1) [OF tcp_connector.listen_more [OF this]] show ?thesis by simp
qed

text \<open>An endpoint on which \<open>listen\<close> has failed (the protocol is not registered, the address is in
  use, \<dots>) counts as listened on: the next call for it returns 0 and does nothing.\<close>

theorem listen_failure_sticks:
  fixes w :: "(('o, 'm) tcp_state_scheme, 'x) mworld"
  assumes "proto e (before_colon s) = tcp_conn c A p" and "mgr_listen e s w = Ret (-1, w')"
  shows "mgr_listen e s w' = Ret (0, w')"
  using tcp_listen_tables [OF assms] by (simp add: mgr_listen_def)

theorem listen_failure_sticks_witness:
  "\<exists>w'. mgr_listen sample_env ''MQTT:h:1'' (sample_mgr config_empty ''A'' \<lparr>so_in = [], so_out = [], so_next = 5\<rparr>)
       = Ret (-1, w') \<and> mgr_listen sample_env ''MQTT:h:1'' w' = Ret (0, w')"
proof -
  let ?w = "sample_mgr config_empty ''A'' \<lparr>so_in = [], so_out = [], so_next = 5\<rparr>"
  have "\<exists>w'. mgr_listen sample_env ''MQTT:h:1'' ?w = Ret (-1, w')"
    by (simp add: mgr_listen_def sample_mgr_def before_colon_def colon_def)
  then obtain w' where run: "mgr_listen sample_env ''MQTT:h:1'' ?w = Ret (-1, w')" by blast
  have p: "proto sample_env (before_colon ''MQTT:h:1'') = tcp_conn 5 sample_sys (before_colon ''MQTT:h:1'')"
    by (simp add: sample_env_def)
  from listen_failure_sticks [OF p run] run show ?thesis by blast
qed

text \<open>The connectors of an environment leave the manager's tables alone.\<close>

definition sound_env :: "('n, 'x) env \<Rightarrow> bool" where
  "sound_env e \<longleftrightarrow> (\<forall>p w r w'. (\<forall>app. conn_init (proto e p) app w = Ret (r, w') \<longrightarrow> world.more w' = world.more w)
     \<and> (\<forall>a. conn_listen (proto e p) a w = Ret (r, w') \<longrightarrow> world.more w' = world.more w))"

lemma init_protocols_more:
  "sound_env e \<Longrightarrow> init_protocols e app ps w = Ret w' \<Longrightarrow> world.more w' = world.more w"
proof (induction ps arbitrary: w)
  case (Cons p ps)
  then obtain r w1 where w1: "conn_init (proto e p) app w = Ret (r, w1)" "init_protocols e app ps w1 = Ret w'"
    by (auto simp: bnd_Ret_conv)
  from Cons.IH [OF Cons.prems(1) w1(2)] w1(1) Cons.prems(1) show ?case
    unfolding sound_env_def by metis
qed simp

lemma mgr_listen_sound:
  assumes "sound_env e" and "mgr_listen e s w = Ret (r, w')"
  shows "listening_endps w' = insert s (listening_endps w) \<and> cfg w' = cfg w \<and> poolName w' = poolName w
    \<and> appName w' = appName w \<and> stopped w' = stopped w \<and> protocols w' = protocols w"
proof (cases "s \<in> listening_endps w \<or> before_colon s \<notin> set (protocols w)")
  case True
  with assms(2) show ?thesis
    by (auto simp: mgr_listen_def Let_def set_errno_def split: if_splits)
next
  case False
  let ?w = "w\<lparr>listening_endps := insert s (listening_endps w)\<rparr>"
  from False assms(2) obtain a where
    "conn_listen (proto e (before_colon s)) a ?w = Ret (r, w')"
    by (auto simp: mgr_listen_def Let_def bnd_Ret_conv)
  with assms(1) have "world.more w' = world.more ?w" unfolding sound_env_def by metis
  from more_tables [OF this] show ?thesis by simp
qed

lemma listen_all_sound:
  "sound_env e \<Longrightarrow> listen_all e les w = Ret w' \<Longrightarrow>
   listening_endps w' = set les \<union> listening_endps w \<and> cfg w' = cfg w \<and> poolName w' = poolName w
    \<and> appName w' = appName w \<and> stopped w' = stopped w \<and> protocols w' = protocols w"
proof (induction les arbitrary: w)
  case (Cons le les)
  then obtain r w1 where "mgr_listen e le w = Ret (r, w1)" "listen_all e les w1 = Ret w'"
    by (auto simp: bnd_Ret_conv)
  with mgr_listen_sound [OF Cons.prems(1)] Cons.IH [OF Cons.prems(1)] show ?case by fastforce
qed simp

text \<open>
  What \<open>init\<close> asks of the connectors: calls with their results, made one after the other on the state of the
  transports. \<open>listen_calls\<close>: the endpoints in order, each once, but for those in \<open>seen\<close> and those whose
  protocol is not registered.
\<close>

datatype conn_call = Call_init string string | Call_listen string string

fun conn_do :: "('n, 'x) env \<Rightarrow> conn_call \<Rightarrow> ('n, 'x) mworld \<Rightarrow> (int \<times> ('n, 'x) mworld) out" where
  "conn_do e (Call_init p app) w = conn_init (proto e p) app w"
| "conn_do e (Call_listen p a) w = conn_listen (proto e p) a w"

fun calls_run :: "('n, 'x) env \<Rightarrow> (conn_call \<times> int) list \<Rightarrow> ('n, 'x) mworld \<Rightarrow> ('n, 'x) mworld \<Rightarrow> bool" where
  "calls_run e [] w w' \<longleftrightarrow> net w' = net w \<and> heap w' = heap w"
| "calls_run e ((c, r) # cs) w w' \<longleftrightarrow> (\<exists>v v'. net v = net w \<and> heap v = heap w \<and> conn_do e c v = Ret (r, v')
     \<and> calls_run e cs v' w')"

definition listen_calls :: "string set \<Rightarrow> string set \<Rightarrow> string list \<Rightarrow> conn_call list" where
  "listen_calls ps seen les = map (\<lambda>s. Call_listen (before_colon s) (drop (Suc (length (before_colon s))) s))
     (filter (\<lambda>s. before_colon s \<in> ps \<and> s \<notin> seen) (rev (remdups (rev les))))"

lemma calls_run_from: "net v = net w \<Longrightarrow> heap v = heap w \<Longrightarrow> calls_run e cs v w' \<Longrightarrow> calls_run e cs w w'"
  by (cases "(e, cs, v, w')" rule: calls_run.cases) auto

lemma calls_run_append: "calls_run e cs w v \<Longrightarrow> calls_run e ds v w' \<Longrightarrow> calls_run e (cs @ ds) w w'"
proof (induction e cs w v rule: calls_run.induct)
  case (1 e w v)
  then show ?case using calls_run_from [of v w e ds w'] by simp
next
  case (2 e c r cs w v)
  then show ?case by fastforce
qed

lemma calls_run_to: "calls_run e cs w v \<Longrightarrow> net w' = net v \<Longrightarrow> heap w' = heap v \<Longrightarrow> calls_run e cs w w'"
  using calls_run_append [of e cs w v "[]" w'] by simp

lemma remdups_snoc: "remdups (xs @ [x]) = filter (\<lambda>y. y \<noteq> x) (remdups xs) @ [x]"
  by (induction xs) auto

lemma listen_calls_Cons:
  "listen_calls ps seen (s # les) =
     (if before_colon s \<in> ps \<and> s \<notin> seen then [Call_listen (before_colon s) (drop (Suc (length (before_colon s))) s)] else [])
     @ listen_calls ps (insert s seen) les"
  by (simp add: listen_calls_def remdups_snoc rev_filter conj_ac)

lemma init_protocols_run:
  "init_protocols e app ps w = Ret w' \<Longrightarrow> \<exists>cs. map fst cs = map (\<lambda>p. Call_init p app) ps \<and> calls_run e cs w w'"
proof (induction ps arbitrary: w)
  case (Cons p ps)
  then obtain r w1 where w1: "conn_init (proto e p) app w = Ret (r, w1)" "init_protocols e app ps w1 = Ret w'"
    by (auto simp: bnd_Ret_conv)
  from Cons.IH [OF w1(2)] obtain cs where "map fst cs = map (\<lambda>p. Call_init p app) ps" "calls_run e cs w1 w'" by blast
  with w1(1) show ?case by (intro exI [of _ "(Call_init p app, r) # cs"]) auto
qed simp

lemma mgr_listen_run:
  assumes "mgr_listen e s w = Ret (r, w')"
  shows "\<exists>cs. map fst cs = listen_calls (set (protocols w)) (listening_endps w) [s] \<and> calls_run e cs w w'"
proof (cases "s \<in> listening_endps w \<or> before_colon s \<notin> set (protocols w)")
  case True
  with assms have "net w' = net w \<and> heap w' = heap w"
    by (auto simp: mgr_listen_def Let_def set_errno_def split: if_splits)
  with True show ?thesis by (intro exI [of _ "[]"]) (auto simp: listen_calls_def)
next
  case False
  let ?w = "w\<lparr>listening_endps := insert s (listening_endps w)\<rparr>" and ?a = "drop (Suc (length (before_colon s))) s"
  from False assms have "conn_listen (proto e (before_colon s)) ?a ?w = Ret (r, w')"
    by (auto simp: mgr_listen_def Let_def bnd_Ret_conv substr_from_def split: if_splits)
  then have "calls_run e [(Call_listen (before_colon s) ?a, r)] w w'"
    unfolding calls_run.simps by (intro exI [of _ ?w] exI [of _ w']) simp
  with False show ?thesis by (intro exI [of _ "[(Call_listen (before_colon s) ?a, r)]"]) (simp add: listen_calls_def)
qed

lemma listen_all_run:
  "sound_env e \<Longrightarrow> listen_all e les w = Ret w' \<Longrightarrow>
   \<exists>cs. map fst cs = listen_calls (set (protocols w)) (listening_endps w) les \<and> calls_run e cs w w'"
proof (induction les arbitrary: w)
  case Nil
  then show ?case by (intro exI [of _ "[]"]) (simp add: listen_calls_def)
next
  case (Cons s les)
  then obtain r w1 where w1: "mgr_listen e s w = Ret (r, w1)" "listen_all e les w1 = Ret w'"
    by (auto simp: bnd_Ret_conv)
  note m1 = mgr_listen_sound [OF Cons.prems(1) w1(1)]
  from mgr_listen_run [OF w1(1)] obtain cs where
    c: "map fst cs = listen_calls (set (protocols w)) (listening_endps w) [s]" "calls_run e cs w w1" by blast
  from Cons.IH [OF Cons.prems(1) w1(2)] m1 obtain ds where
    d: "map fst ds = listen_calls (set (protocols w)) (insert s (listening_endps w)) les" "calls_run e ds w1 w'" by auto
  have one: "listen_calls ps seen [s] @ listen_calls ps (insert s seen) les = listen_calls ps seen (s # les)" for ps seen
    using listen_calls_Cons [of ps seen s "[]"] listen_calls_Cons [of ps seen s les] by (simp add: listen_calls_def)
  show ?case
    using c d calls_run_append [OF c(2) d(2)] one by (intro exI [of _ "cs @ ds"]) simp
qed

lemma read_config_Ret:
  "read_config f w = Ret (r, w') \<Longrightarrow> \<exists>c. w' = w\<lparr>cfg := c\<rparr>"
  by (cases f) (auto simp: read_config_def bnd_Ret_conv intro: exI [of _ "cfg w"])

lemma registerType_set:
  "\<not> initialized w \<Longrightarrow> set (protocols (registerType p w)) = insert p (set (protocols w))"
  using smap_put_keys [of p "()" "map (\<lambda>p. (p, ())) (protocols w)"]
  by (simp add: registerType_def image_image comp_def)

text \<open>C17: When \<open>init\<close> succeeds, the application is a component of the configuration, the manager is in the pool its
  host names, both default transports are registered, and later registrations are refused. Of the connectors it
  has called exactly \<open>init\<close> of every registered protocol, in their order, and then \<open>listen\<close> with the address of
  every endpoint of the component, in their order and each once, but for endpoints of protocols that are not
  registered and those it has tried before. It does not look at the results \<open>rs\<close>: every endpoint counts as
  one it listens on, and is not tried again, whether listening succeeded or not.\<close>

theorem init_establishes_configuration:
  assumes "sound_env e" and "\<not> initialized w" and "mgr_init e level app f1 f2 w = Ret (0, w')"
  shows "\<exists>host prots les calls rs. smap_get (components (cfg w')) app = Some (host, prots, les)
    \<and> calls = map (\<lambda>p. Call_init p app) (protocols w') @ listen_calls (set (protocols w')) (listening_endps w) les
    \<and> length rs = length calls \<and> calls_run e (zip calls rs) w w'
    \<and> listening_endps w' = set les \<union> listening_endps w
    \<and> (\<forall>s \<in> set les. \<forall>v. listening_endps v = listening_endps w' \<longrightarrow> mgr_listen e s v = Ret (0, v))
    \<and> poolName w' = getPoolFromHost host \<and> appName w' = app
    \<and> {''TCP'', ''SHM''} \<subseteq> set (protocols w') \<and> \<not> stopped w' \<and> registerType p w' = w'"
proof -
  let ?w0 = "registerType ''SHM'' (registerType ''TCP''
      (w\<lparr>mtcl_verbose := verbose_level level (mtcl_verbose w), appName := app\<rparr>))"
  let ?run = "\<lambda>w. case smap_get (components (cfg w)) app of
           None \<Rightarrow> Ret (-1, w)
         | Some (host, _, les) \<Rightarrow>
             bnd (init_protocols e app (protocols w) (w\<lparr>poolName := getPoolFromHost host, stopped := False\<rparr>))
               (\<lambda>w. bnd (listen_all e les w) (\<lambda>w. Ret (0, w\<lparr>initialized := True\<rparr>)))"
  have init: "mgr_init e level app f1 f2 w = bnd (read_config f1 ?w0) (\<lambda>(r, w). if r < 0 then Ret (-1, w)
      else bnd (read_config f2 w) (\<lambda>(r, w). if r < 0 then Ret (-1, w) else ?run w))"
    by (simp add: mgr_init_def Let_def)
  obtain r1 w1 where r1: "read_config f1 ?w0 = Ret (r1, w1)"
    using assms(3) unfolding init by (cases "read_config f1 ?w0") auto
  have run1: "bnd (read_config f2 w1) (\<lambda>(r, w). if r < 0 then Ret (-1, w) else ?run w) = Ret (0 :: int, w')"
    using assms(3) unfolding init r1 by (simp split: if_splits)
  obtain r2 w2 where r2: "read_config f2 w1 = Ret (r2, w2)"
    using run1 by (cases "read_config f2 w1") auto
  have case2: "?run w2 = Ret (0 :: int, w')"
    using run1 unfolding r2 by (simp split: if_splits)
  from case2 obtain host prots les where comp: "smap_get (components (cfg w2)) app = Some (host, prots, les)"
    and rest2: "bnd (init_protocols e app (protocols w2) (w2\<lparr>poolName := getPoolFromHost host, stopped := False\<rparr>))
               (\<lambda>w. bnd (listen_all e les w) (\<lambda>w. Ret (0, w\<lparr>initialized := True\<rparr>))) = Ret (0 :: int, w')"
    by (cases "smap_get (components (cfg w2)) app") auto
  let ?w2 = "w2\<lparr>poolName := getPoolFromHost host, stopped := False\<rparr>"
  from rest2 obtain w3 w4 where w3: "init_protocols e app (protocols w2) ?w2 = Ret w3"
    and w4: "listen_all e les w3 = Ret w4" and w': "w' = w4\<lparr>initialized := True\<rparr>"
    by (auto simp: bnd_Ret_conv)
  have "\<not> initialized (registerType q v)" if "\<not> initialized v" for q and v :: "('a, 'b) mworld"
    using that by (simp add: registerType_def)
  then have "set (protocols ?w0) = insert ''SHM'' (insert ''TCP'' (set (protocols w)))"
    using assms(2) by (simp add: registerType_set)
  then have p0: "{''TCP'', ''SHM''} \<subseteq> set (protocols ?w0)" by blast
  have a0: "appName ?w0 = app" by (simp add: registerType_def)
  obtain c1 where c1: "w1 = ?w0\<lparr>cfg := c1\<rparr>" using read_config_Ret [OF r1] by blast
  obtain c2 where c2: "w2 = w1\<lparr>cfg := c2\<rparr>" using read_config_Ret [OF r2] by blast
  have "protocols w2 = protocols ?w0" "appName w2 = appName ?w0" unfolding c2 c1 by simp_all
  with p0 a0 have w2: "{''TCP'', ''SHM''} \<subseteq> set (protocols w2)" "appName w2 = app" by simp_all
  note m3 = more_tables [OF init_protocols_more [OF assms(1) w3]]
  note m4 = listen_all_sound [OF assms(1) w4]
  have start: "net ?w2 = net w" "heap ?w2 = heap w" "listening_endps ?w2 = listening_endps w"
    unfolding c2 c1 by (simp_all add: registerType_def)
  from init_protocols_run [OF w3] obtain cs where
    cs: "map fst cs = map (\<lambda>p. Call_init p app) (protocols w2)" "calls_run e cs ?w2 w3" by blast
  from listen_all_run [OF assms(1) w4] obtain ds where
    ds: "map fst ds = listen_calls (set (protocols w3)) (listening_endps w3) les" "calls_run e ds w3 w4" by blast
  let ?calls = "map (\<lambda>p. Call_init p app) (protocols w') @ listen_calls (set (protocols w')) (listening_endps w) les"
  have tabs: "protocols w' = protocols w2" "protocols w3 = protocols w2" "listening_endps w3 = listening_endps w"
    "listening_endps w' = set les \<union> listening_endps w" "poolName w' = getPoolFromHost host" "appName w' = app"
    "\<not> stopped w'" "cfg w' = cfg w2"
    using m3 m4 w2(2) start(3) unfolding w' by simp_all
  have fsts: "map fst (cs @ ds) = ?calls" using cs(1) ds(1) tabs by simp
  have zip: "zip ?calls (map snd (cs @ ds)) = cs @ ds" unfolding fsts [symmetric] by (rule zip_map_fst_snd)
  have len: "length (map snd (cs @ ds)) = length ?calls" using arg_cong [OF fsts, of length] by simp
  have "calls_run e (cs @ ds) ?w2 w4" by (rule calls_run_append [OF cs(2) ds(2)])
  then have "calls_run e (cs @ ds) w w4" by (rule calls_run_from [OF start(1,2)])
  then have "calls_run e (cs @ ds) w w'" by (rule calls_run_to) (simp_all add: w')
  then have run: "calls_run e (zip ?calls (map snd (cs @ ds))) w w'" unfolding zip .
  have "registerType p w' = w'" unfolding w' by (simp add: registerType_def)
  moreover have "mgr_listen e s v = Ret (0, v)" if "s \<in> set les" "listening_endps v = listening_endps w'" for s v
    using that tabs(4) by (simp add: mgr_listen_def)
  ultimately show ?thesis
    using run len comp tabs w2(1)
    by (intro exI [of _ host] exI [of _ prots] exI [of _ les] exI [of _ ?calls] exI [of _ "map snd (cs @ ds)"]) auto
qed

lemma sample_env_sound: "sound_env sample_env"
  unfolding sound_env_def sample_env_def
  using tcp_connector.init_more tcp_connector.listen_more by (metis menv.select_convs(2))

lemma sample_getaddrinfo: "sk_getaddrinfo sample_sys b host svc s = (Some [[1]], s)"
  by (simp add: sample_sys_def)

lemma sample_tcp_listen: "\<exists>w'. tcp_listen sample_sys ''h:1'' (w :: (sos tcp_state, 'x) mworld) = Ret (0, w')"
  if "so_next (os (net w)) = 5"
proof -
  have port: "stoi ''1'' = Ret 1"
    by (simp add: stoi_def string_to_int_def is_space_def digit_value_def)
  have sk: "sk_socket sample_sys a s = so_fresh s" "sk_setsockopt sample_sys fd s = so_ok s"
    "sk_bind sample_sys fd x s = so_ok s" "sk_listen sample_sys fd n s = so_ok s" for a s fd x n
    by (simp_all add: sample_sys_def)
  show ?thesis
    using that
    by (simp add: tcp_listen_def before_colon_def colon_def substr_from_def port tcp_init_socket_def
        sk sample_getaddrinfo so_fresh_def so_ok_def FD_SET_def FD_SETSIZE_def Let_def set_os_def
        with_net_def keep_errno_def)
qed

lemma sample_mgr_listen:
  assumes "so_next (os (net w)) = 5" and "''TCP'' \<in> set (protocols w)" and "''TCP:h:1'' \<notin> listening_endps w"
  shows "\<exists>w'. mgr_listen sample_env ''TCP:h:1'' w = Ret (0, w')"
proof -
  have "so_next (os (net (w\<lparr>listening_endps := insert ''TCP:h:1'' (listening_endps w)\<rparr>))) = 5"
    using assms(1) by simp
  from sample_tcp_listen [OF this] assms(2,3) show ?thesis
    by (simp add: mgr_listen_def before_colon_def colon_def substr_from_def sample_env_def tcp_conn_def Let_def)
qed

theorem init_establishes_configuration_witness:
  "\<exists>w'. mgr_init sample_env None ''A'' None None
       ((sample_mgr two_apps [] \<lparr>so_in = [], so_out = [], so_next = 5\<rparr>)\<lparr>initialized := False, protocols := []\<rparr>)
     = Ret (0, w') \<and> ''TCP:h:1'' \<in> listening_endps w'"
proof -
  let ?w = "(sample_mgr two_apps [] \<lparr>so_in = [], so_out = [], so_next = 5\<rparr>)\<lparr>initialized := False, protocols := []\<rparr>"
  let ?f = "with_net (\<lambda>t. t\<lparr>fdset := {}, tmpset := {}, listen_sck := -1, fdmax := -1\<rparr>)"
  let ?v = "?f (?f (?w\<lparr>mtcl_verbose := -1, appName := ''A'', protocols := [''SHM'', ''TCP''], poolName := [],
      stopped := False\<rparr>))"
  have "so_next (os (net ?v)) = 5" "''TCP'' \<in> set (protocols ?v)" "''TCP:h:1'' \<notin> listening_endps ?v"
    by (simp_all add: sample_mgr_def with_net_def)
  from sample_mgr_listen [OF this] obtain v' where v': "mgr_listen sample_env ''TCP:h:1'' ?v = Ret (0, v')"
    by blast
  have ini: "conn_init (proto sample_env p) a w = Ret (0, ?f w)" for p a w
    by (simp add: sample_env_def tcp_conn_def tcp_init_def)
  have run: "mgr_init sample_env None ''A'' None None ?w = Ret (0, v'\<lparr>initialized := True\<rparr>)"
    using v' by (simp add: mgr_init_def Let_def registerType_def verbose_level_def read_config_def ini
        sample_mgr_def two_apps_def smap_get_def getPoolFromHost_def colon_def with_net_def)
  have "\<not> initialized ?w" by simp
  from init_establishes_configuration [OF sample_env_sound this run, of "[]"] mgr_listen_sound [OF sample_env_sound v'] run
  show ?thesis by auto
qed

section \<open>Waiting for a handle without the IO thread\<close>

lemma getNext_loop_idle:
  assumes "\<And>v. P v \<Longrightarrow> \<exists>v'. bnd (update_all e (protocols v) v) (\<lambda>u. poll_contexts (vtab e) (contexts u) u) = Ret v'
      \<and> P v' \<and> handleReady v' = [] \<and> slept v' = slept v"
    and "\<And>v. P v \<Longrightarrow> P (sleep_us IO_THREAD_POLL_TIMEOUT v)"
  shows "P w \<Longrightarrow> \<exists>w'. getNext_loop e k w = Ret (no_handle, w') \<and> slept w' = slept w + k * IO_THREAD_POLL_TIMEOUT"
proof (induction k arbitrary: w)
  case 0
  from assms(1) [OF 0] obtain u v where
    u: "update_all e (protocols w) w = Ret u" "poll_contexts (vtab e) (contexts u) u = Ret v"
    and v: "handleReady v = []" "slept v = slept w"
    by (auto simp: bnd_Ret_conv)
  then show ?case by (subst getNext_loop.simps) simp
next
  case (Suc k)
  from assms(1) [OF Suc.prems] obtain u v where
    u: "update_all e (protocols w) w = Ret u" "poll_contexts (vtab e) (contexts u) u = Ret v"
    and v: "handleReady v = []" "slept v = slept w" "P v"
    by (auto simp: bnd_Ret_conv)
  from Suc.IH [OF assms(2) [OF v(3)]] obtain w' where
    "getNext_loop e k (sleep_us IO_THREAD_POLL_TIMEOUT v) = Ret (no_handle, w')"
    "slept w' = slept w + IO_THREAD_POLL_TIMEOUT + k * IO_THREAD_POLL_TIMEOUT"
    using v(2) by (auto simp: sleep_us_def)
  with u v(1) show ?case by (subst getNext_loop.simps) simp
qed

text \<open>Without the IO thread, \<open>getNext\<close> with a timeout of \<open>us\<close> microseconds gives up after sleeping for
  at most a thousandth of it when nothing becomes ready: the number of rounds is computed with a poll
  interval in milliseconds, the sleep between two rounds takes the same number of microseconds.\<close>

theorem getNext_gives_up_early:
  assumes "\<And>v. P v \<Longrightarrow> \<exists>v'. bnd (update_all e (protocols v) v) (\<lambda>u. poll_contexts (vtab e) (contexts u) u) = Ret v'
      \<and> P v' \<and> handleReady v' = [] \<and> slept v' = slept v"
    and "\<And>v. P v \<Longrightarrow> P (sleep_us IO_THREAD_POLL_TIMEOUT v)"
    and "P w" and "handleReady w = []" and "10000 \<le> us"
  shows "\<exists>w'. getNext_single e us w = Ret (no_handle, w') \<and> 1000 * (slept w' - slept w) \<le> us"
proof -
  let ?k = "us div (IO_THREAD_POLL_TIMEOUT * 1000)"
  from getNext_loop_idle [of P e, OF assms(1,2,3), of ?k] obtain w' where
    run: "getNext_loop e ?k w = Ret (no_handle, w')" and t: "slept w' = slept w + ?k * IO_THREAD_POLL_TIMEOUT"
    by blast
  have "?k \<noteq> 0" using assms(5) by (simp add: IO_THREAD_POLL_TIMEOUT_def div_eq_0_iff)
  then have "getNext_single e us w = Ret (no_handle, w')"
    using run assms(4) by (simp add: getNext_single_def Let_def)
  moreover have "1000 * (?k * IO_THREAD_POLL_TIMEOUT) \<le> us"
    by (simp add: IO_THREAD_POLL_TIMEOUT_def algebra_simps)
  ultimately show ?thesis using t by auto
qed

theorem getNext_gives_up_early_witness:
  "\<exists>w'. getNext_single sample_env 1000000
       ((sample_mgr config_empty ''A'' \<lparr>so_in = [], so_out = [], so_next = 5\<rparr>)\<lparr>protocols := []\<rparr>) = Ret (no_handle, w')
     \<and> 1000 * (slept w' - 0) \<le> 1000000"
proof -
  let ?w = "(sample_mgr config_empty ''A'' \<lparr>so_in = [], so_out = [], so_next = 5\<rparr>)\<lparr>protocols := []\<rparr>"
  let ?P = "\<lambda>v :: (sos tcp_state) mgr. protocols v = [] \<and> contexts v = [] \<and> handleReady v = []"
  have idle: "\<exists>v'. bnd (update_all sample_env (protocols v) v)
        (\<lambda>u. poll_contexts (vtab sample_env) (contexts u) u) = Ret v'
      \<and> ?P v' \<and> handleReady v' = [] \<and> slept v' = slept v" if "?P v" for v
    using that by simp
  have sleeping: "?P (sleep_us IO_THREAD_POLL_TIMEOUT v)" if "?P v" for v
    using that by (simp add: sleep_us_def)
  have w: "?P ?w" "handleReady ?w = []" "slept ?w = 0" by (simp_all add: sample_mgr_def)
  have "(10000 :: nat) \<le> 1000000" by simp
  from getNext_gives_up_early [of ?P, OF idle sleeping w(1,2) this] show ?thesis unfolding w(3) by blast
qed

section \<open>Connecting by name\<close>

lemma connectHandle_label:
  assumes "colon \<notin> set p" and "p \<noteq> []" and "smap_get (components (cfg w)) a = Some (host, prots, les)"
  shows "connectHandle e (p @ colon # a) n t w =
    (if getPoolFromHost host \<noteq> poolName w
     then connect_proxied e (p @ colon # a) p (getPoolFromHost host) n t w
     else connect_direct e p n t les w)"
  using assms by (simp add: connectHandle_def before_after_colon Let_def)

text \<open>A component in another pool is reached through the proxies of the own pool one after the other;
  when the first of them does not accept the connection, the null handle is used to send on, although
  other proxies remain.\<close>

theorem connect_first_proxy_down:
  assumes "p = ''TCP'' \<or> p = ''UCX''" and "p \<in> set (protocols w)"
    and "smap_get (components (cfg w)) a = Some (pool @ colon # host, prots, les)" and "colon \<notin> set pool"
    and "pool \<noteq> []" and "pool \<noteq> poolName w" and "poolName w \<noteq> []"
    and "smap_get (pools (cfg w)) (poolName w) = Some (ip # ips, nodes)"
    and "conn_connect (proto e p) (ip @ colon # proxy_port p) n t w = Ret (None, w1)"
  shows "connectHandle e (p @ colon # a) n t w = Fault Null_deref"
proof -
  have p: "colon \<notin> set p" "p \<noteq> []" using assms(1) by (auto simp: colon_def)
  have px: "pool_proxies (poolName w) w = (ip # ips, w)"
    using assms(8) by (simp add: pool_proxies_def smap_emplace_def Let_def)
  have "connect_own_proxy e (p @ colon # a) p n t (ip # ips) w = Fault Null_deref"
    using assms(2,9) by (simp add: connect_then_send_def proto_connect_def)
  then have "connect_proxied e (p @ colon # a) p pool n t w = Fault Null_deref"
    using assms(1,5,7) px by (auto simp: connect_proxied_def)
  then show ?thesis
    using assms(6) by (simp add: connectHandle_label [OF p assms(3)] getPool_colon [OF assms(4)])
qed

text \<open>A component in another pool, and a system that resolves no address.\<close>

definition two_pools :: config where
  "two_pools = \<lparr>pools = [(''P'', [''h1'', ''h2''], []), (''Q'', [''h3''], [])],
     components = [(''A'', ''P:h'', [''TCP''], []), (''B'', ''Q:h'', [''TCP''], [])]\<rparr>"

definition down_env :: "(sos tcp_state, unit) env" where
  "down_env = sample_env\<lparr>proto := tcp_conn 5 (sample_sys\<lparr>sk_getaddrinfo := (\<lambda>b host svc s. (None, s))\<rparr>)\<rparr>"

theorem connect_first_proxy_down_witness:
  "connectHandle down_env ''TCP:B'' 1 0
     ((sample_mgr two_pools ''A'' \<lparr>so_in = [], so_out = [], so_next = 5\<rparr>)\<lparr>poolName := ''P''\<rparr>) = Fault Null_deref"
proof -
  let ?w = "(sample_mgr two_pools ''A'' \<lparr>so_in = [], so_out = [], so_next = 5\<rparr>)\<lparr>poolName := ''P''\<rparr>"
  have w: "''TCP'' \<in> set (protocols ?w)"
    "smap_get (components (cfg ?w)) ''B'' = Some (''Q'' @ colon # ''h'', [''TCP''], [])" "colon \<notin> set ''Q''"
    "''Q'' \<noteq> []" "''Q'' \<noteq> poolName ?w" "poolName ?w \<noteq> []"
    "smap_get (pools (cfg ?w)) (poolName ?w) = Some (''h1'' # [''h2''], [])"
    by (simp_all add: sample_mgr_def two_pools_def smap_get_def colon_def)
  have "\<exists>w1. conn_connect (proto down_env ''TCP'') (''h1'' @ colon # proxy_port ''TCP'') 1 0 ?w = Ret (None, w1)"
    by (simp add: down_env_def tcp_conn_def tcp_connect_def internal_connect_def before_colon_def colon_def
        proxy_port_def substr_from_def)
  then obtain w1 where
    c: "conn_connect (proto down_env ''TCP'') (''h1'' @ colon # proxy_port ''TCP'') 1 0 ?w = Ret (None, w1)" by blast
  from connect_first_proxy_down [OF disjI1 [OF refl] w c] show ?thesis by (simp add: colon_def)
qed

text \<open>A component of the own pool is connected with the requested protocol at the first endpoint in
  which the protocol's name occurs anywhere: an endpoint of another protocol whose name, or address,
  contains it is taken, and its address is given to the wrong transport.\<close>

theorem connect_takes_wrong_endpoint:
  assumes "colon \<notin> set p" and "p \<noteq> []" and "p \<in> set (protocols w)"
    and "smap_get (components (cfg w)) a = Some (host, prots, (q @ colon # address) # les)"
    and "getPoolFromHost host = poolName w" and "colon \<notin> set q"
    and "p \<noteq> q" and "contains p (q @ colon # address)"
    and "conn_connect (proto e p) address n t w = Ret (Some k, w1)"
  shows "connectHandle e (p @ colon # a) n t w = Ret (Some k, w1)"
  using assms by (simp add: connectHandle_label [OF assms(1,2,4)] proto_connect_def before_after_colon)

text \<open>The application asks for MPI, the component listens with MPIP2P only.\<close>

definition mpi_apps :: config where
  "mpi_apps = \<lparr>pools = [], components = [(''B'', ''h'', [''MPIP2P''], [''MPIP2P:h:1''])]\<rparr>"

theorem connect_takes_wrong_endpoint_witness:
  "\<exists>w1. ''MPI'' \<noteq> ''MPIP2P'' \<and> connectHandle sample_env ''MPI:B'' 1 0
     ((sample_mgr mpi_apps ''A'' \<lparr>so_in = [], so_out = [], so_next = 5\<rparr>)\<lparr>protocols := [''MPI'', ''MPIP2P'']\<rparr>)
     = Ret (Some 8, w1)"
proof -
  let ?w = "(sample_mgr mpi_apps ''A'' \<lparr>so_in = [], so_out = [], so_next = 5\<rparr>)\<lparr>protocols := [''MPI'', ''MPIP2P'']\<rparr>"
  have w: "colon \<notin> set ''MPI''" "''MPI'' \<noteq> []" "''MPI'' \<in> set (protocols ?w)"
    "smap_get (components (cfg ?w)) ''B'' = Some (''h'', [''MPIP2P''], (''MPIP2P'' @ colon # ''h:1'') # [])"
    "getPoolFromHost ''h'' = poolName ?w" "colon \<notin> set ''MPIP2P''" "''MPI'' \<noteq> ''MPIP2P''"
    "contains ''MPI'' (''MPIP2P'' @ colon # ''h:1'')"
    by (simp_all add: sample_mgr_def mpi_apps_def smap_get_def colon_def getPoolFromHost_def)
  from sample_connect [of ?w "''MPI''" 1 0] obtain w1 where
    "tcp_connect 5 sample_sys ''MPI'' ''h:1'' 1 0 ?w = Ret (Some 8, w1)"
    by (auto simp: sample_mgr_def)
  then have c: "conn_connect (proto sample_env ''MPI'') ''h:1'' 1 0 ?w = Ret (Some 8, w1)"
    by (simp add: sample_env_def tcp_conn_def)
  from connect_takes_wrong_endpoint [OF w c] show ?thesis by (auto simp: colon_def)
qed

end
