(* ===== verification/ProxyProps.thy ===== *)
theory ProxyProps
  imports Proxy ManagerProps
begin

text \<open>
  What the proxy does for the processes and the other proxies it connects, over TCP: data is relayed
  unchanged within a pool and from a pool to another one; a proxied connection is refused by the
  handshake, the reply of a destination finds no proxy, an accepted proxy is never polled.
  \<^item> \<open>duplex\<close> is the contract of the sockets: two streams for every descriptor, and a read leaves
    the outgoing ones alone.
\<close>

section \<open>User handles over TCP\<close>

definition duplex ::
  "('o, 'a) sock_io_scheme \<Rightarrow> (int \<Rightarrow> 'o \<Rightarrow> byte list) \<Rightarrow> (int \<Rightarrow> 'o \<Rightarrow> byte list) \<Rightarrow> bool" where
  "duplex A inq outq \<longleftrightarrow> reads_stream A inq \<and> writes_stream A outq
     \<and> (\<forall>fd n st fd'. outq fd' (snd (sk_read A fd n st)) = outq fd' st)"

lemma readn_loop_keeps:
  assumes "\<And>fd n st. f (snd (sk_read A fd n st)) = f st"
  shows "readn_loop A fd n nleft got st = (r, bs, en, st') \<Longrightarrow> f st' = f st"
proof (induction nleft arbitrary: got st rule: less_induct)
  case (less nleft)
  show ?case
  proof (cases "nleft = 0")
    case False
    obtain x st1 where rd: "sk_read A fd nleft st = (x, st1)" by (metis surj_pair)
    from assms [of fd nleft st] rd have same: "f st1 = f st" by simp
    show ?thesis
    proof (cases x)
      case (RBytes bs1)
      show ?thesis
      proof (cases "bs1 = []")
        case nonempty: False
        with False have "nleft - length bs1 < nleft" by simp
        moreover from less.prems False rd RBytes nonempty
        have "readn_loop A fd n (nleft - length bs1) (got @ bs1) st1 = (r, bs, en, st')"
          by (simp add: readn_loop.simps [of A fd n nleft got st])
        ultimately show ?thesis using less.IH same by metis
      qed (use less.prems False rd RBytes same in \<open>simp add: readn_loop.simps [of A fd n nleft got st]\<close>)
    qed (use less.prems False rd same in \<open>auto simp: readn_loop.simps [of A fd n nleft got st] split: if_splits\<close>)
  qed (use less.prems in \<open>simp add: readn_loop.simps [of A fd n 0]\<close>)
qed

lemma readn_keeps_out:
  assumes "duplex A inq outq" and "readn A fd n st = (r, bs, en, st')"
  shows "outq fd' st' = outq fd' st"
  using readn_loop_keeps [of "outq fd'" A fd n n "[]" st r bs en st'] assms
  by (simp add: duplex_def readn_def)

lemma fd_probe_keeps_out:
  "duplex A inq outq \<Longrightarrow> fd_probe A fd True sz st = (r, sz', en, st') \<Longrightarrow> outq fd' st' = outq fd' st"
  by (auto simp: fd_probe_def Let_def split: prod.splits if_splits dest: readn_keeps_out)

lemma fd_receive_keeps_out:
  "duplex A inq outq \<Longrightarrow> fd_receive A fd sz st = (r, bs, en, st') \<Longrightarrow> outq fd' st' = outq fd' st"
  unfolding fd_receive_def by (rule readn_keeps_out)

text \<open>Reading a message with \<open>probe\<close> and \<open>receive\<close>, and sending one, through the manager's dispatch.\<close>

lemma mgr_probe_message:
  assumes "duplex A inq outq" and "vtab e = tcp_vtable A" and "realHandle u = Some h"
    and "heap w h = Some ob" and "ctxs w h = None" and "isReadable u" and "\<not> closed_rd ob"
    and "\<not> fst (probed ob)" and "inq (fd_of (net w) h) (os (net w)) = concat (tcp_frame m) @ rest"
    and "m \<noteq> []" and "length m < 2 ^ 63"
  shows "\<exists>s. huser_probe (mgr_comm e) u sz True w =
      Ret (8, of_nat (length m), u\<lparr>newConnection := False\<rparr>,
           put_obj h (ob\<lparr>probed := (True, of_nat (length m))\<rparr>) (set_os None s w))
    \<and> inq (fd_of (net w) h) s = m @ rest \<and> (\<forall>fd. outq fd s = outq fd (os (net w)))"
proof -
  have rd: "reads_stream A inq" using assms(1) by (simp add: duplex_def)
  from fd_probe_stream [OF rd assms(9), of sz] obtain s
    where s: "fd_probe A (fd_of (net w) h) True sz (os (net w)) = (8, of_nat (length m), None, s)"
      "inq (fd_of (net w) h) s = m @ rest" by auto
  have n: "(of_nat (length m) :: u64) \<noteq> 0"
    using assms(10,11) by (subst of_nat_u64_eq_0) auto
  show ?thesis
    by (rule exI [of _ s])
      (use s n assms(2-8) fd_probe_keeps_out [OF assms(1) s(1)] in
        \<open>auto simp: huser_probe_def mgr_comm_def mtcl_comm_def handle_comm_def tcp_probe_def obj_Some
          upd_obj_Some Let_def\<close>)
qed

lemma mgr_receive_pending:
  assumes "duplex A inq outq" and "vtab e = tcp_vtable A" and "realHandle u = Some h"
    and "heap w h = Some ob" and "ctxs w h = None" and "isReadable u" and "\<not> closed_rd ob"
    and "probed ob = (True, of_nat (length m))" and "inq (fd_of (net w) h) (os (net w)) = m @ rest"
    and "length m < 2 ^ 63"
  shows "\<exists>s. huser_receive (mgr_comm e) u (of_nat (length m)) w =
      Ret (int (length m), m, u\<lparr>newConnection := False\<rparr>,
           set_os None s (put_obj h (ob\<lparr>probed := (False, 0)\<rparr>) w))
    \<and> inq (fd_of (net w) h) s = rest \<and> (\<forall>fd. outq fd s = outq fd (os (net w)))"
proof -
  have rd: "reads_stream A inq" and len: "length m < 2 ^ 64" using assms(1,10) by (simp_all add: duplex_def)
  from fd_receive_stream [OF rd assms(9) len] obtain s
    where s: "fd_receive A (fd_of (net w) h) (of_nat (length m)) (os (net w)) =
        (int (length m), m, None, s)" "inq (fd_of (net w) h) s = rest" by auto
  show ?thesis
    by (rule exI [of _ s])
      (use s receive_pending [OF assms(3,4,8,6,7), of "mgr_comm e" "of_nat (length m)"] assms(2,4,5)
        fd_receive_keeps_out [OF assms(1) s(1)] in
        \<open>auto simp: mgr_comm_def mtcl_comm_def handle_comm_def tcp_receive_def obj_Some put_obj_def Let_def\<close>)
qed

lemma mgr_send_message:
  assumes "duplex A inq outq" and "vtab e = tcp_vtable A" and "realHandle u = Some h"
    and "heap w h = Some ob" and "ctxs w h = None" and "\<not> closed_wr ob" and "length m < 2 ^ 63"
  shows "\<exists>s. huser_send (mgr_comm e) u m w =
      Ret (int (length m), u\<lparr>newConnection := False\<rparr>, set_os None s w)
    \<and> outq (fd_of (net w) h) s = outq (fd_of (net w) h) (os (net w)) @ concat (tcp_frame m)"
proof -
  have wr: "writes_stream A outq" using assms(1) by (simp add: duplex_def)
  obtain s where "tcp_send A h m w = Ret (int (length m), set_os None s w)"
    "outq (fd_of (net w) h) s = outq (fd_of (net w) h) (os (net w)) @ concat (tcp_frame m)"
    by (rule tcp_send_message [OF wr assms(4,7)])
  then show ?thesis
    using assms(2-6)
    by (intro exI [of _ s]) (simp add: huser_send_def mgr_comm_def mtcl_comm_def handle_comm_def obj_Some Let_def)
qed

text \<open>The two together: the header is pending in between, the object is as before afterwards.\<close>

definition idle_handle :: "hid \<Rightarrow> ('n, 'x) cworld_scheme \<Rightarrow> bool" where
  "idle_handle h w \<longleftrightarrow> (\<exists>ob. heap w h = Some ob \<and> \<not> closed_rd ob \<and> probed ob = (False, 0)) \<and> ctxs w h = None"

lemma probed_again [simp]: "probed ob = (False, 0) \<Longrightarrow> ob\<lparr>probed := (False, 0)\<rparr> = ob"
  by (cases ob) simp

lemma set_os_fields [simp]:
  "net (set_os en s w) = (net w)\<lparr>os := s\<rparr>" "ctxs (set_os en s v) = ctxs v"
  "net (put_obj h ob w') = net w'" "ctxs (put_obj h ob v') = ctxs v'"
  by (simp_all add: set_os_def with_net_def put_obj_def)

lemma mgr_read_message:
  assumes "duplex A inq outq" and "vtab e = tcp_vtable A" and "realHandle u = Some h" and "isReadable u"
    and "idle_handle h w" and "inq (fd_of (net w) h) (os (net w)) = concat (tcp_frame m) @ rest"
    and "m \<noteq> []" and "length m < 2 ^ 63"
  shows "\<exists>w1 s. huser_probe (mgr_comm e) u sz True w = Ret (8, of_nat (length m), u\<lparr>newConnection := False\<rparr>, w1)
    \<and> huser_receive (mgr_comm e) (u\<lparr>newConnection := False\<rparr>) (of_nat (length m)) w1 =
        Ret (int (length m), m, u\<lparr>newConnection := False\<rparr>, set_os None s w)
    \<and> world.more w1 = world.more w \<and> inq (fd_of (net w) h) s = rest \<and> (\<forall>fd. outq fd s = outq fd (os (net w)))"
proof -
  from assms(5) obtain ob where ob: "heap w h = Some ob" "\<not> closed_rd ob" "probed ob = (False, 0)"
    and cx: "ctxs w h = None" by (auto simp: idle_handle_def)
  then have np: "\<not> fst (probed ob)" by simp
  let ?ob = "ob\<lparr>probed := (True, of_nat (length m))\<rparr>"
  from mgr_probe_message [OF assms(1-3) ob(1) cx assms(4) ob(2) np assms(6-8), of sz] obtain s1 where
    p: "huser_probe (mgr_comm e) u sz True w = Ret (8, of_nat (length m), u\<lparr>newConnection := False\<rparr>,
      put_obj h ?ob (set_os None s1 w))" and s1: "inq (fd_of (net w) h) s1 = m @ rest"
      "\<forall>fd. outq fd s1 = outq fd (os (net w))" by blast
  let ?w1 = "put_obj h ?ob (set_os None s1 w)"
  from mgr_receive_pending [OF assms(1,2), of "u\<lparr>newConnection := False\<rparr>" h ?w1 ?ob m rest] assms(3,4,8) ob cx s1
  obtain s2 where r: "huser_receive (mgr_comm e) (u\<lparr>newConnection := False\<rparr>) (of_nat (length m)) ?w1 =
      Ret (int (length m), m, u\<lparr>newConnection := False\<rparr>, set_os None s2 (put_obj h (?ob\<lparr>probed := (False, 0)\<rparr>) ?w1))"
    and s2: "inq (fd_of (net w) h) s2 = rest" "\<forall>fd. outq fd s2 = outq fd (os (net w))"
    by auto
  have "set_os None s2 (put_obj h (?ob\<lparr>probed := (False, 0)\<rparr>) ?w1) = set_os None s2 w"
    using ob by (simp add: put_set_os set_os_heap_id)
  with p r s2 show ?thesis by (intro exI [of _ ?w1] exI [of _ s2]) simp
qed

text \<open>\<open>yield\<close> puts the descriptor back into the set; the destructor yields and gives up the reference.\<close>

lemma mgr_yield_tcp:
  assumes "vtab e = tcp_vtable A" and "realHandle u = Some h" and "heap w h = Some ob"
    and "\<not> closed_rd ob" and "ctxs w h = None" and "0 \<le> fd_of (net w) h" and "fd_of (net w) h < FD_SETSIZE"
  shows "\<exists>t. huser_yield (mgr_comm e) u w =
      Ret (u\<lparr>isReadable := False, newConnection := False\<rparr>, w\<lparr>net := t\<rparr>)
    \<and> os t = os (net w) \<and> fdset t = insert (fd_of (net w) h) (fdset (net w)) \<and> fd_of t = fd_of (net w)"
  using assms
  by (auto simp: huser_yield_def mgr_comm_def mtcl_comm_def handle_comm_def handle_yield_def obj_Some
      tcp_vtable_def tcp_notify_yield_def isClosed_def FD_SET_def with_net_def Let_def)

lemma mgr_destroy_tcp:
  assumes "vtab e = tcp_vtable A" and "realHandle u = Some h" and "isReadable u" and "heap w h = Some ob"
    and "\<not> closed_rd ob" and "ctxs w h = None" and "0 \<le> fd_of (net w) h" and "fd_of (net w) h < FD_SETSIZE"
  shows "\<exists>t. huser_destroy (mgr_comm e) u w = Ret (put_obj h (ob\<lparr>counter := counter ob - 1\<rparr>) (w\<lparr>net := t\<rparr>))
    \<and> os t = os (net w) \<and> fdset t = insert (fd_of (net w) h) (fdset (net w)) \<and> fd_of t = fd_of (net w)"
proof -
  from mgr_yield_tcp [OF assms(1,2,4-8)] obtain t where
    "huser_yield (mgr_comm e) u w = Ret (u\<lparr>isReadable := False, newConnection := False\<rparr>, w\<lparr>net := t\<rparr>)"
    and t: "os t = os (net w) \<and> fdset t = insert (fd_of (net w) h) (fdset (net w)) \<and> fd_of t = fd_of (net w)"
    by blast
  with assms(2-5) have "huser_destroy (mgr_comm e) u w =
      Ret (put_obj h (ob\<lparr>counter := counter ob - 1\<rparr>) (w\<lparr>net := t\<rparr>))"
    by (simp add: huser_destroy_def decrementReferenceCounter_def upd_obj_def obj_Some)
  with t show ?thesis by blast
qed

section \<open>Relaying\<close>

text \<open>A transport does not touch the tables of the proxy.\<close>

lemma proxy_tables_simps [simp]:
  "loc2connID (set_os en s w) = loc2connID w" "proc2proc (set_os en s w) = proc2proc w"
  "id2handle (set_os en s w) = id2handle w" "connid2proxy (set_os en s w) = connid2proxy w"
  "px_users (set_os en s w) = px_users w" "proxies (set_os en s w) = proxies w"
  "px_cfg (set_os en s w) = px_cfg w"
  by (simp_all add: set_os_def with_net_def)

lemma proxy_buffer: "length m < 2 ^ 63 \<Longrightarrow>
  take (unat (of_nat (length m) :: u64)) (m @ replicate (unat (of_nat (length m) :: u64)) x) = m"
  by (simp add: unat_of_nat_u64)

lemma proxy_of_conn_known: "smap_get (connid2proxy w) c = Some p \<Longrightarrow> proxy_of_conn c w = (p, w)"
  by (simp add: proxy_of_conn_def smap_emplace_def)

text \<open>What the proxy does with a message of a process it knows, and with one of another proxy.\<close>

lemma proxy_process_message:
  assumes "duplex A inq outq" and "vtab e = tcp_vtable A" and "realHandle u = Some h" and "isReadable u"
    and "idle_handle h w" and "inq (fd_of (net w) h) (os (net w)) = concat (tcp_frame m) @ rest"
    and "m \<noteq> []" and "length m < 2 ^ 63"
  shows "\<exists>s. proxy_from_process e X u w =
      bnd (let w = set_os None s w
           in if has_key (Suc h) (loc2connID w) then
                bnd (get_value (Suc h) (loc2connID w)) (\<lambda>c.
                let (p, w) = proxy_of_conn c w in send_to_proxy e p (proxy_message FWD c m) w)
              else case smap_get (proc2proc w) (Suc h) of
                Some d \<Rightarrow> send_to_id e d m w | None \<Rightarrow> Ret w)
        (huser_destroy (mgr_comm e) (u\<lparr>newConnection := False\<rparr>))
    \<and> inq (fd_of (net w) h) s = rest \<and> (\<forall>fd. outq fd s = outq fd (os (net w)))"
proof -
  from mgr_read_message [OF assms, of "px_sz X"] obtain w1 s where
    rd: "huser_probe (mgr_comm e) u (px_sz X) True w = Ret (8, of_nat (length m), u\<lparr>newConnection := False\<rparr>, w1)"
    "huser_receive (mgr_comm e) (u\<lparr>newConnection := False\<rparr>) (of_nat (length m)) w1 =
        Ret (int (length m), m, u\<lparr>newConnection := False\<rparr>, set_os None s w)"
    and s: "inq (fd_of (net w) h) s = rest" "\<forall>fd. outq fd s = outq fd (os (net w))" by blast
  have "(of_nat (length m) :: u64) \<noteq> 0"
    using assms(7,8) by (subst of_nat_u64_eq_0) auto
  moreover have "unat (of_nat (length m) :: u64) = length m"
    using assms(8) by (simp add: unat_of_nat_u64)
  ultimately show ?thesis
    by (intro exI [of _ s]) (simp add: proxy_from_process_def huser_getID_def assms(3) rd s Let_def cong: option.case_cong)
qed

lemma proxy_peer_message:
  assumes "duplex A inq outq" and "vtab e = tcp_vtable A" and "realHandle u = Some h" and "isReadable u"
    and "idle_handle h w" and "inq (fd_of (net w) h) (os (net w)) = concat (tcp_frame (proxy_message FWD c m)) @ rest"
    and "length m < 2 ^ 62"
  shows "\<exists>s. proxy_from_peer e X u w =
      bnd (proxy_fwd e c m (set_os None s w)) (huser_destroy (mgr_comm e) (u\<lparr>newConnection := False\<rparr>))
    \<and> (\<forall>fd. outq fd s = outq fd (os (net w)))"
proof -
  let ?m = "proxy_message FWD c m"
  have m: "?m \<noteq> []" "length ?m < 2 ^ 63" "length ?m = 9 + length m"
    using assms(7) by (simp_all add: proxy_message_def)
  from mgr_read_message [OF assms(1-6) m(1,2), of "px_sz X"] obtain w1 s where
    rd: "huser_probe (mgr_comm e) u (px_sz X) True w = Ret (8, of_nat (length ?m), u\<lparr>newConnection := False\<rparr>, w1)"
    "huser_receive (mgr_comm e) (u\<lparr>newConnection := False\<rparr>) (of_nat (length ?m)) w1 =
        Ret (int (length ?m), ?m, u\<lparr>newConnection := False\<rparr>, set_os None s w)"
    and s: "\<forall>fd. outq fd s = outq fd (os (net w))" by blast
  have read: "proxy_read e X u w = Ret (?m, u\<lparr>newConnection := False\<rparr>, set_os None s w)"
    unfolding proxy_read_def using rd proxy_buffer [OF m(2), of "px_fill X"] by simp
  have parts: "hd ?m = cmd_byte FWD" "take 8 (drop 1 ?m) = le_bytes c" "drop 9 ?m = m"
    by (simp_all add: proxy_message_def)
  have "cmd_byte FWD \<noteq> cmd_byte EOS_cmd" by (simp add: cmd_byte_def)
  with read parts m(3) s show ?thesis
    by (intro exI [of _ s]) (simp add: proxy_from_peer_def Let_def)
qed

text \<open>The destructor of the local handle after the message has been passed on.\<close>

lemma proxy_step_end:
  assumes "vtab e = tcp_vtable A" and "realHandle u = Some h" and "isReadable u" and "idle_handle h w"
    and "0 \<le> fd_of (net w) h" and "fd_of (net w) h < FD_SETSIZE"
  shows "\<exists>w'. huser_destroy (mgr_comm e) (u\<lparr>newConnection := False\<rparr>) w = Ret w'
    \<and> os (net w') = os (net w) \<and> fd_of (net w') = fd_of (net w) \<and> fd_of (net w) h \<in> fdset (net w')"
proof -
  from assms(4) obtain ob where ob: "heap w h = Some ob" "\<not> closed_rd ob" "ctxs w h = None"
    by (auto simp: idle_handle_def)
  from mgr_destroy_tcp [OF assms(1), of "u\<lparr>newConnection := False\<rparr>" h w ob] ob assms(2,3,5,6) show ?thesis
    by auto
qed

lemma send_to_id_tcp:
  assumes "duplex A inq outq" and "vtab e = tcp_vtable A" and "smap_get (id2handle w) d = Some v"
    and "realHandle v = Some k" and "heap w k = Some ob" and "ctxs w k = None" and "\<not> closed_wr ob"
    and "length m < 2 ^ 63"
  shows "\<exists>s w'. send_to_id e d m w = Ret w' \<and> net w' = (net w)\<lparr>os := s\<rparr> \<and> heap w' = heap w \<and> ctxs w' = ctxs w
    \<and> outq (fd_of (net w) k) s = outq (fd_of (net w) k) (os (net w)) @ concat (tcp_frame m)"
proof -
  from mgr_send_message [OF assms(1,2,4-8)] obtain s where
    "huser_send (mgr_comm e) v m w = Ret (int (length m), v\<lparr>newConnection := False\<rparr>, set_os None s w)"
    "outq (fd_of (net w) k) s = outq (fd_of (net w) k) (os (net w)) @ concat (tcp_frame m)" by blast
  with assms(3) show ?thesis
    by (intro exI [of _ s] exI [of _ "put_user d (v\<lparr>newConnection := False\<rparr>) (set_os None s w)"])
      (simp add: send_to_id_def user_of_id_def put_user_def)
qed

lemma send_to_proxy_tcp:
  assumes "duplex A inq outq" and "vtab e = tcp_vtable A" and "i < length (px_users w)"
    and "realHandle (px_users w ! i) = Some k" and "heap w k = Some ob" and "ctxs w k = None"
    and "\<not> closed_wr ob" and "length m < 2 ^ 63"
  shows "\<exists>s w'. send_to_proxy e (Some i) m w = Ret w' \<and> net w' = (net w)\<lparr>os := s\<rparr> \<and> heap w' = heap w
    \<and> ctxs w' = ctxs w \<and> outq (fd_of (net w) k) s = outq (fd_of (net w) k) (os (net w)) @ concat (tcp_frame m)"
proof -
  from mgr_send_message [OF assms(1,2,4-8)] obtain s where
    s: "huser_send (mgr_comm e) (px_users w ! i) m w =
      Ret (int (length m), (px_users w ! i)\<lparr>newConnection := False\<rparr>, set_os None s w)"
    "outq (fd_of (net w) k) s = outq (fd_of (net w) k) (os (net w)) @ concat (tcp_frame m)" by blast
  let ?w = "set_os None s w"
  from s assms(3) show ?thesis
    by (intro exI [of _ s] exI [of _ "?w\<lparr>px_users := (px_users ?w)[i := (px_users w ! i)\<lparr>newConnection := False\<rparr>]\<rparr>"])
      (simp add: send_to_proxy_def)
qed

text \<open>A message of a process reaches the process it is connected to through the one proxy of their pool
  unchanged, as one message appended to what the proxy has sent there before, and the proxy goes on polling
  the sender.\<close>

theorem proxy_relays_in_pool:
  assumes "duplex A inq outq" and "vtab e = tcp_vtable A" and "realHandle u = Some h" and "isReadable u"
    and "idle_handle h w" and "inq (fd_of (net w) h) (os (net w)) = concat (tcp_frame m) @ rest"
    and "m \<noteq> []" and "length m < 2 ^ 63" and "0 \<le> fd_of (net w) h" and "fd_of (net w) h < FD_SETSIZE"
    and "\<not> has_key (huser_getID u) (loc2connID w)" and "smap_get (proc2proc w) (huser_getID u) = Some d"
    and "smap_get (id2handle w) d = Some v" and "realHandle v = Some k" and "heap w k = Some ob"
    and "ctxs w k = None" and "\<not> closed_wr ob"
  shows "\<exists>w'. proxy_from_process e X u w = Ret w'
    \<and> outq (fd_of (net w) k) (os (net w')) = outq (fd_of (net w) k) (os (net w)) @ concat (tcp_frame m)
    \<and> fd_of (net w) h \<in> fdset (net w')"
proof -
  have id: "huser_getID u = Suc h" by (simp add: huser_getID_def assms(3))
  from proxy_process_message [OF assms(1-8), of X] obtain s where
    run: "proxy_from_process e X u w =
      bnd (send_to_id e d m (set_os None s w)) (huser_destroy (mgr_comm e) (u\<lparr>newConnection := False\<rparr>))"
    and s: "\<forall>fd. outq fd s = outq fd (os (net w))"
    using assms(11,12) unfolding id by (auto simp: Let_def)
  from send_to_id_tcp [OF assms(1,2), of "set_os None s w" d v k ob m] assms(8,13-17) obtain s2 w2 where
    w2: "send_to_id e d m (set_os None s w) = Ret w2" "net w2 = (net w)\<lparr>os := s2\<rparr>" "heap w2 = heap w"
    "ctxs w2 = ctxs w" "outq (fd_of (net w) k) s2 = outq (fd_of (net w) k) s @ concat (tcp_frame m)"
    by auto
  have "idle_handle h w2" using assms(5) w2(3,4) by (simp add: idle_handle_def)
  from proxy_step_end [OF assms(2-4) this] assms(9,10) w2(2) obtain w' where
    "huser_destroy (mgr_comm e) (u\<lparr>newConnection := False\<rparr>) w2 = Ret w'" "os (net w') = s2"
    "fd_of (net w) h \<in> fdset (net w')" by auto
  with run w2 s show ?thesis by simp
qed

text \<open>A proxy on the sample system: the processes 7 and 9, the proxy 10 of another pool.\<close>

lemma sample_duplex: "duplex sample_sys (\<lambda>fd. so_in) (\<lambda>fd. so_out)"
  using sample_reads sample_writes by (simp add: duplex_def sample_sys_def so_read_def Let_def)

definition sample_proxy :: "sos \<Rightarrow> (sos tcp_state) proxy" where
  "sample_proxy s = mgr.extend
     ((sample_mgr config_empty ''PROXY'' s)\<lparr>heap := (\<lambda>h. if h \<in> {7, 9, 10} then Some (new_handle ''TCP'') else None)\<rparr>)
     (proxy.fields [] [] [] [] bimap_empty [] config_empty)"

definition penv_sample :: "((sos tcp_state, unit) pworld) menv" where
  "penv_sample = \<lparr>vtab = tcp_vtable sample_sys, proto = tcp_conn 5 sample_sys, bound = 5, junk = []\<rparr>"

definition px_sample :: px_env where
  "px_sample = \<lparr>px_pool = ''P'', px_hash = (\<lambda>_. 77), px_sz = 0, px_fill = 0\<rparr>"

abbreviation huser_at :: "hid \<Rightarrow> huser" where
  "huser_at h \<equiv> \<lparr>realHandle = Some h, isReadable = True, newConnection = False\<rparr>"

lemmas sample_proxy_simps = sample_proxy_def sample_mgr_def mgr.defs proxy.defs

lemma sample_proxy_idle:
  "ctxs w = (\<lambda>_. None) \<Longrightarrow> heap w h = Some (new_handle p) \<Longrightarrow> idle_handle h w"
  by (simp add: idle_handle_def new_handle_def)

theorem proxy_relays_in_pool_witness:
  "\<exists>w'. proxy_from_process penv_sample px_sample (huser_at 7)
       ((sample_proxy \<lparr>so_in = concat (tcp_frame [1, 2]), so_out = [], so_next = 5\<rparr>)
         \<lparr>proc2proc := [(8, 10), (10, 8)], id2handle := [(10, huser_at 9)]\<rparr>) = Ret w'
     \<and> so_out (os (net w')) = concat (tcp_frame [1, 2])"
proof -
  let ?w = "(sample_proxy \<lparr>so_in = concat (tcp_frame [1, 2]), so_out = [], so_next = 5\<rparr>)
         \<lparr>proc2proc := [(8, 10), (10, 8)], id2handle := [(10, huser_at 9)]\<rparr>"
  have V: "vtab penv_sample = tcp_vtable sample_sys" by (simp add: penv_sample_def)
  have i: "idle_handle 7 ?w"
    by (rule sample_proxy_idle [of _ _ "''TCP''"]) (simp_all add: sample_proxy_simps)
  have w: "so_in (os (net ?w)) = concat (tcp_frame [1, 2]) @ []" "[1 :: byte, 2] \<noteq> []"
    "length [1 :: byte, 2] < 2 ^ 63" "0 \<le> fd_of (net ?w) 7" "fd_of (net ?w) 7 < FD_SETSIZE"
    "\<not> has_key (huser_getID (huser_at 7)) (loc2connID ?w)"
    "smap_get (proc2proc ?w) (huser_getID (huser_at 7)) = Some 10"
    "smap_get (id2handle ?w) 10 = Some (huser_at 9)" "realHandle (huser_at 9) = Some 9"
    "heap ?w 9 = Some (new_handle ''TCP'')" "ctxs ?w 9 = None" "\<not> closed_wr (new_handle ''TCP'')"
    "so_out (os (net ?w)) = []"
    by (simp_all add: sample_proxy_simps FD_SETSIZE_def has_key_def bimap_empty_def huser_getID_def
        smap_get_def new_handle_def)
  have u: "realHandle (huser_at 7) = Some 7" "isReadable (huser_at 7)" by simp_all
  from proxy_relays_in_pool [OF sample_duplex V u i w(1-12), of px_sample] w(13) show ?thesis by auto
qed

text \<open>C15: A message of a process whose destination is in another pool travels through two proxies unchanged:
  the proxy of its pool sends it to the other proxy in one message under the identifier of the connection,
  and the other proxy, when it reads that message, sends exactly the process' data to the handle it has for
  the identifier; both go on polling the senders.\<close>

theorem proxy_relays_across_pools:
  fixes v :: "(('p, 'l) tcp_state_scheme, 'y) pworld"
  assumes "duplex A inq outq" and "vtab e = tcp_vtable A" and "realHandle u = Some h" and "isReadable u"
    and "idle_handle h w" and "inq (fd_of (net w) h) (os (net w)) = concat (tcp_frame m) @ rest"
    and "m \<noteq> []" and "length m < 2 ^ 62" and "0 \<le> fd_of (net w) h" and "fd_of (net w) h < FD_SETSIZE"
    and "has_key (huser_getID u) (loc2connID w)" and "get_value (huser_getID u) (loc2connID w) = Ret c"
    and "smap_get (connid2proxy w) c = Some (Some i)" and "i < length (px_users w)"
    and "realHandle (px_users w ! i) = Some k" and "heap w k = Some ob" and "ctxs w k = None"
    and "\<not> closed_wr ob" and "outq (fd_of (net w) k) (os (net w)) = []"
    and "duplex B inq' outq'" and "vtab f = tcp_vtable B" and "realHandle q = Some g" and "isReadable q"
    and "idle_handle g v" and "0 \<le> fd_of (net v) g" and "fd_of (net v) g < FD_SETSIZE"
    and "has_value c (loc2connID v)" and "get_key c (loc2connID v) = Ret d"
    and "smap_get (id2handle v) d = Some x" and "realHandle x = Some l" and "heap v l = Some ob'"
    and "ctxs v l = None" and "\<not> closed_wr ob'"
  shows "\<exists>w'. proxy_from_process e X u w = Ret w' \<and> fd_of (net w) h \<in> fdset (net w')
    \<and> (inq' (fd_of (net v) g) (os (net v)) = outq (fd_of (net w) k) (os (net w')) \<longrightarrow>
        (\<exists>v'. proxy_from_peer f Y q v = Ret v' \<and> fd_of (net v) g \<in> fdset (net v')
          \<and> outq' (fd_of (net v) l) (os (net v')) = outq' (fd_of (net v) l) (os (net v)) @ concat (tcp_frame m)))"
proof -
  let ?m = "proxy_message FWD c m"
  have id: "huser_getID u = Suc h" by (simp add: huser_getID_def assms(3))
  have len: "length m < 2 ^ 63" "length ?m < 2 ^ 63" using assms(8) by (simp_all add: proxy_message_def)
  from proxy_process_message [OF assms(1-7) len(1), of X] obtain s where
    run: "proxy_from_process e X u w =
      bnd (send_to_proxy e (Some i) ?m (set_os None s w)) (huser_destroy (mgr_comm e) (u\<lparr>newConnection := False\<rparr>))"
    and s: "\<forall>fd. outq fd s = outq fd (os (net w))"
    using assms(11-13) unfolding id by (auto simp: Let_def proxy_of_conn_known)
  from send_to_proxy_tcp [OF assms(1,2), of i "set_os None s w" k ob ?m] assms(14-18) len(2) obtain s2 w2 where
    w2: "send_to_proxy e (Some i) ?m (set_os None s w) = Ret w2" "net w2 = (net w)\<lparr>os := s2\<rparr>" "heap w2 = heap w"
    "ctxs w2 = ctxs w" "outq (fd_of (net w) k) s2 = outq (fd_of (net w) k) s @ concat (tcp_frame ?m)"
    by auto
  have "idle_handle h w2" using assms(5) w2(3,4) by (simp add: idle_handle_def)
  from proxy_step_end [OF assms(2-4) this] assms(9,10) w2(2) obtain w' where
    w': "huser_destroy (mgr_comm e) (u\<lparr>newConnection := False\<rparr>) w2 = Ret w'" "os (net w') = s2"
    "fd_of (net w) h \<in> fdset (net w')" by auto
  have sent: "outq (fd_of (net w) k) (os (net w')) = concat (tcp_frame ?m) @ []"
    using w2(5) w'(2) s assms(19) by simp
  have "\<exists>v'. proxy_from_peer f Y q v = Ret v' \<and> fd_of (net v) g \<in> fdset (net v')
      \<and> outq' (fd_of (net v) l) (os (net v')) = outq' (fd_of (net v) l) (os (net v)) @ concat (tcp_frame m)"
    if arrived: "inq' (fd_of (net v) g) (os (net v)) = outq (fd_of (net w) k) (os (net w'))"
  proof -
    from proxy_peer_message [OF assms(20-24) arrived [unfolded sent] assms(8), of Y] assms(27,28) obtain t where
      run': "proxy_from_peer f Y q v =
        bnd (send_to_id f d m (set_os None t v)) (huser_destroy (mgr_comm f) (q\<lparr>newConnection := False\<rparr>))"
      and t: "\<forall>fd. outq' fd t = outq' fd (os (net v))"
      by (auto simp: proxy_fwd_def)
    from send_to_id_tcp [OF assms(20,21), of "set_os None t v" d x l ob' m] assms(29-33) len(1) obtain t2 v2 where
      v2: "send_to_id f d m (set_os None t v) = Ret v2" "net v2 = (net v)\<lparr>os := t2\<rparr>" "heap v2 = heap v"
      "ctxs v2 = ctxs v" "outq' (fd_of (net v) l) t2 = outq' (fd_of (net v) l) t @ concat (tcp_frame m)"
      by auto
    have "idle_handle g v2" using assms(24) v2(3,4) by (simp add: idle_handle_def)
    from proxy_step_end [OF assms(21-23) this] assms(25,26) v2(2) obtain v' where
      "huser_destroy (mgr_comm f) (q\<lparr>newConnection := False\<rparr>) v2 = Ret v'" "os (net v') = t2"
      "fd_of (net v) g \<in> fdset (net v')" by auto
    with run' v2 t show ?thesis by simp
  qed
  with run w2(1) w'(1,3) show ?thesis by auto
qed

text \<open>Process 7 at the one proxy, the other proxy behind 10; there, the first proxy is 10 and the destination 9.\<close>

definition origin_proxy :: "(sos tcp_state) proxy" where
  "origin_proxy = (sample_proxy \<lparr>so_in = concat (tcp_frame [1, 2]), so_out = [], so_next = 5\<rparr>)
     \<lparr>px_users := [huser_at 10], loc2connID := bimap_insert 8 77 bimap_empty, connid2proxy := [(77, Some 0)],
      id2handle := [(8, huser_at 7)]\<rparr>"

definition remote_proxy :: "byte list \<Rightarrow> (sos tcp_state) proxy" where
  "remote_proxy bs = (sample_proxy \<lparr>so_in = bs, so_out = [], so_next = 5\<rparr>)
     \<lparr>loc2connID := bimap_insert 10 77 bimap_empty, id2handle := [(10, huser_at 9)]\<rparr>"

lemmas pool_simps = origin_proxy_def remote_proxy_def sample_proxy_simps bimap_insert_def bimap_empty_def has_key_def
  has_value_def get_value_def get_key_def set_at_def index_of_key_def index_of_value_def huser_getID_def smap_get_def

theorem proxy_relays_across_pools_witness:
  "\<exists>w' v'. proxy_from_process penv_sample px_sample (huser_at 7) origin_proxy = Ret w'
     \<and> proxy_from_peer penv_sample px_sample (huser_at 10) (remote_proxy (so_out (os (net w')))) = Ret v'
     \<and> so_out (os (net v')) = concat (tcp_frame [1, 2])"
proof -
  have V: "vtab penv_sample = tcp_vtable sample_sys" by (simp add: penv_sample_def)
  have i: "idle_handle 7 origin_proxy" "idle_handle 10 (remote_proxy bs)" for bs
    by (rule sample_proxy_idle [of _ _ "''TCP''"]; simp add: pool_simps)+
  have w: "so_in (os (net origin_proxy)) = concat (tcp_frame [1, 2]) @ []" "[1 :: byte, 2] \<noteq> []"
    "length [1 :: byte, 2] < 2 ^ 62" "0 \<le> fd_of (net origin_proxy) 7" "fd_of (net origin_proxy) 7 < FD_SETSIZE"
    "has_key (huser_getID (huser_at 7)) (loc2connID origin_proxy)"
    "get_value (huser_getID (huser_at 7)) (loc2connID origin_proxy) = Ret 77"
    "smap_get (connid2proxy origin_proxy) 77 = Some (Some 0)" "0 < length (px_users origin_proxy)"
    "realHandle (px_users origin_proxy ! 0) = Some 10"
    "heap origin_proxy 10 = Some (new_handle ''TCP'')" "ctxs origin_proxy 10 = None"
    "\<not> closed_wr (new_handle ''TCP'')" "so_out (os (net origin_proxy)) = []"
    by (simp_all add: pool_simps FD_SETSIZE_def new_handle_def)
  have v: "0 \<le> fd_of (net (remote_proxy bs)) 10" "fd_of (net (remote_proxy bs)) 10 < FD_SETSIZE"
    "has_value 77 (loc2connID (remote_proxy bs))" "get_key 77 (loc2connID (remote_proxy bs)) = Ret 10"
    "smap_get (id2handle (remote_proxy bs)) 10 = Some (huser_at 9)" "realHandle (huser_at 9) = Some 9"
    "heap (remote_proxy bs) 9 = Some (new_handle ''TCP'')" "ctxs (remote_proxy bs) 9 = None"
    "\<not> closed_wr (new_handle ''TCP'')"
    "so_in (os (net (remote_proxy bs))) = bs" "so_out (os (net (remote_proxy bs))) = []" for bs
    by (simp_all add: pool_simps FD_SETSIZE_def new_handle_def)
  have u: "realHandle (huser_at h) = Some h" "isReadable (huser_at h)" for h by simp_all
  note relay = proxy_relays_across_pools [OF sample_duplex V u i(1) w sample_duplex V u i(2) v(1-9),
      where X = px_sample and Y = px_sample]
  from relay [of "[]"] obtain w' where w': "proxy_from_process penv_sample px_sample (huser_at 7) origin_proxy = Ret w'"
    by blast
  from relay [of "so_out (os (net w'))"] w' v(10,11) [of "so_out (os (net w'))"] obtain v' where
    "proxy_from_peer penv_sample px_sample (huser_at 10) (remote_proxy (so_out (os (net w')))) = Ret v'"
    "so_out (os (net v')) = concat (tcp_frame [1, 2])" by auto
  with w' show ?thesis by blast
qed

section \<open>Connections between proxies\<close>

text \<open>A proxy that accepts the connection of another one registers it under the pool it names, ready to be
  written to, but does not yield the handle: over TCP its descriptor is not polled, so what the other
  proxy sends on this connection is never read.\<close>

theorem proxy_accepted_peer_not_polled:
  assumes "duplex A inq outq" and "vtab e = tcp_vtable A" and "realHandle u = Some h" and "isReadable u"
    and "idle_handle h w"
    and "inq (fd_of (net w) h) (os (net w)) = concat (tcp_frame (proxy_message PRX 0 (bytes_of_string pool))) @ rest"
    and "length pool < 2 ^ 62" and "CHR 0x00 \<notin> set pool" and "fd_of (net w) h \<notin> fdset (net w)"
  shows "\<exists>w'. proxy_accept_peer e X u w = Ret w'
    \<and> smap_get (proxies w') pool = Some (Some (length (px_users w)))
    \<and> px_users w' = px_users w @ [u\<lparr>newConnection := False\<rparr>]
    \<and> fdset (net w') = fdset (net w) \<and> fd_of (net w') h \<notin> fdset (net w')
    \<and> inq (fd_of (net w) h) (os (net w')) = rest"
proof -
  let ?m = "proxy_message PRX 0 (bytes_of_string pool)"
  have m: "?m \<noteq> []" "length ?m < 2 ^ 63" "\<not> length ?m < 9"
    using assms(7) by (simp_all add: proxy_message_def)
  from mgr_read_message [OF assms(1-6) m(1,2), of "px_sz X"] obtain w1 s where
    rd: "huser_probe (mgr_comm e) u (px_sz X) True w = Ret (8, of_nat (length ?m), u\<lparr>newConnection := False\<rparr>, w1)"
    "huser_receive (mgr_comm e) (u\<lparr>newConnection := False\<rparr>) (of_nat (length ?m)) w1 =
        Ret (int (length ?m), ?m, u\<lparr>newConnection := False\<rparr>, set_os None s w)"
    and s: "inq (fd_of (net w) h) s = rest" by blast
  have read: "proxy_read e X u w = Ret (?m, u\<lparr>newConnection := False\<rparr>, set_os None s w)"
    unfolding proxy_read_def using rd proxy_buffer [OF m(2), of "px_fill X"] by simp
  have parts: "hd ?m = cmd_byte PRX" "c_string (drop 9 ?m) = pool"
    by (simp_all add: proxy_message_def c_string_bytes [OF assms(8)])
  let ?w = "set_os None s w"
  have "proxy_accept_peer e X u w = Ret (?w\<lparr>px_users := px_users w @ [u\<lparr>newConnection := False\<rparr>],
      proxies := smap_put pool (Some (length (px_users w))) (proxies w)\<rparr>)"
    using read m(1,3) parts by (simp add: proxy_accept_peer_def toHeap_def)
  with s assms(9) show ?thesis by (simp add: smap_laws)
qed

definition new_peer :: "(sos tcp_state) proxy" where
  "new_peer = (sample_proxy \<lparr>so_in = concat (tcp_frame (proxy_message PRX 0 (bytes_of_string ''Q''))), so_out = [], so_next = 5\<rparr>)
     \<lparr>net := \<lparr>fd_of = (\<lambda>_. 3), connections = [(3, 10)], fdset = {}, tmpset = {}, listen_sck = -1, fdmax = 3,
       tcp_address = [], tcp_port = 0,
       os = \<lparr>so_in = concat (tcp_frame (proxy_message PRX 0 (bytes_of_string ''Q''))), so_out = [], so_next = 5\<rparr>\<rparr>\<rparr>"

theorem proxy_accepted_peer_not_polled_witness:
  "\<exists>w'. proxy_accept_peer penv_sample px_sample (huser_at 10) new_peer = Ret w'
     \<and> smap_get (proxies w') ''Q'' = Some (Some 0) \<and> 3 \<notin> fdset (net w')"
proof -
  have V: "vtab penv_sample = tcp_vtable sample_sys" by (simp add: penv_sample_def)
  have i: "idle_handle 10 new_peer"
    by (rule sample_proxy_idle [of _ _ "''TCP''"]) (simp_all add: new_peer_def sample_proxy_simps)
  have w: "so_in (os (net new_peer)) = concat (tcp_frame (proxy_message PRX 0 (bytes_of_string ''Q''))) @ []"
    "length ''Q'' < 2 ^ 62" "CHR 0x00 \<notin> set ''Q''" "fd_of (net new_peer) 10 \<notin> fdset (net new_peer)"
    and x: "px_users new_peer = []" "fdset (net new_peer) = {}"
    by (simp_all add: new_peer_def sample_proxy_simps)
  have u: "realHandle (huser_at 10) = Some 10" "isReadable (huser_at 10)" by simp_all
  from proxy_accepted_peer_not_polled [OF sample_duplex V u i w, of px_sample] x show ?thesis by auto
qed

section \<open>The destination's replies\<close>

lemma mgr_yield_more:
  assumes "vtab e = tcp_vtable A" and "huser_yield (mgr_comm e) u w = Ret (u', w')"
    and "\<forall>h. realHandle u = Some h \<longrightarrow> ctxs w h = None"
  shows "world.more w' = world.more w \<and> realHandle u' = realHandle u"
  using assms
  by (auto simp: huser_yield_def mgr_comm_def mtcl_comm_def handle_comm_def handle_yield_def bnd_Ret_conv
      tcp_vtable_def tcp_notify_yield_def with_net_def Let_def split: option.splits if_splits)

lemma yield_keeps_conns:
  assumes "vtab e = tcp_vtable A" and "huser_yield (mgr_comm e) u w = Ret (u', w')"
  shows "connid2proxy w' = connid2proxy w \<and> loc2connID w' = loc2connID w"
  using assms
  by (auto simp: huser_yield_def mgr_comm_def mtcl_comm_def handle_comm_def handle_yield_def bnd_Ret_conv
      tcp_vtable_def tcp_notify_yield_def with_net_def context_comm_def ctx_yield_def releaseTeam_def
      Let_def split: option.splits if_splits)

lemma destroy_keeps_conns:
  assumes "vtab e = tcp_vtable A" and "huser_destroy (mgr_comm e) u w = Ret w'"
  shows "connid2proxy w' = connid2proxy w \<and> loc2connID w' = loc2connID w"
proof (cases "realHandle u")
  case (Some h)
  with assms(2) obtain w1 where
    w1: "(if isReadable u then bnd (huser_yield (mgr_comm e) u w) (\<lambda>(_, w). Ret w) else Ret w) = Ret w1"
    "decrementReferenceCounter h w1 = Ret w'"
    by (auto simp: huser_destroy_def bnd_Ret_conv)
  have "connid2proxy w1 = connid2proxy w \<and> loc2connID w1 = loc2connID w"
    using w1(1) by (auto simp: bnd_Ret_conv split: if_splits dest: yield_keeps_conns [OF assms(1)])
  moreover have "connid2proxy w' = connid2proxy w1 \<and> loc2connID w' = loc2connID w1"
    using w1(2) by (auto simp: decrementReferenceCounter_def upd_obj_def bnd_Ret_conv put_obj_def delete_obj_def
        split: if_splits)
  ultimately show ?thesis by simp
qed (use assms(2) in \<open>simp add: huser_destroy_def\<close>)

text \<open>Connecting leaves the manager's and the proxy's tables alone when the manager has no configuration.\<close>

definition sound_connect :: "('n, 'x) env \<Rightarrow> bool" where
  "sound_connect e \<longleftrightarrow> (\<forall>p s n t w h w'. conn_connect (proto e p) s n t w = Ret (h, w') \<longrightarrow> world.more w' = world.more w)"

lemma mgr_connect_more:
  assumes "sound_connect e" and "vtab e = tcp_vtable A" and "components (cfg w) = []"
    and "mgr_connect e s n t w = Ret (u, w')"
  shows "world.more w' = world.more w"
proof -
  from assms(4) obtain h w1 where h: "connectHandle e s n t w = Ret (h, w1)"
    and rest: "(case h of
       Some k \<Rightarrow> bnd (vt_send (vtab e) k (int_bytes 0) w1) (\<lambda>(r, w).
         if r = -1 then Ret (huser_null, w) else huser_new h True True w)
     | None \<Rightarrow> huser_new None True True w1) = Ret (u, w')"
    by (auto simp: mgr_connect_def bnd_Ret_conv)
  have "connectHandle e s n t w = (let p = (if colon \<in> set s then before_colon s else [])
      in if p \<noteq> [] \<and> p \<in> set (protocols w) then conn_connect (proto e p) (after_colon s) n t w else Ret (None, w))"
    by (simp add: connectHandle_def assms(3) Let_def)
  with h have "world.more w1 = world.more w"
    using assms(1) unfolding sound_connect_def Let_def by (auto split: if_splits)
  with rest show ?thesis
    by (auto simp: assms(2) tcp_send_def bnd_Ret_conv huser_new_def incrementReferenceCounter_def upd_obj_def
        split: option.splits if_splits)
qed

lemma proxy_connect_more:
  "sound_connect e \<Longrightarrow> vtab e = tcp_vtable A \<Longrightarrow> components (cfg w) = [] \<Longrightarrow>
   proxy_connect e p les w = Ret (r, w') \<Longrightarrow> world.more w' = world.more w"
proof (induction e p les w rule: proxy_connect.induct)
  case (2 e p le les w)
  show ?case
  proof (cases "contains p le")
    case True
    with 2(6) obtain u w1 where c: "mgr_connect e le (-1) 0 w = Ret (u, w1)"
      and r: "(if huser_isValid u then Ret (Some u, w1) else proxy_connect e p les w1) = Ret (r, w')"
      by (auto simp: bnd_Ret_conv)
    from mgr_connect_more [OF 2(3,4,5) c] have m: "world.more w1 = world.more w" .
    then have "components (cfg w1) = []" using 2(5) by (cases w1; cases w) simp
    with 2(1) [OF True, of "(u, w1)" u w1] 2(3,4) r m c show ?thesis by (auto split: if_splits)
  qed (use 2 in simp)
qed simp

lemma more_conns:
  "world.more w' = world.more w \<Longrightarrow> connid2proxy w' = connid2proxy w \<and> loc2connID w' = loc2connID w
     \<and> id2handle w' = id2handle w \<and> ctxs w' = ctxs w" for w :: "('n, 'x) pworld"
  by (cases w'; cases w) simp

lemma proxy_conn_keeps_conns:
  assumes "sound_connect e" and "vtab e = tcp_vtable A" and "components (cfg w) = []"
    and "proxy_conn e c payload w = Ret w'"
  shows "connid2proxy w' = connid2proxy w"
proof (cases "smap_get (components (px_cfg w)) (after_colon (string_of_bytes payload))")
  case (Some q)
  obtain a b les where q: "q = (a, b, les)" by (cases q) auto
  with assms(4) Some obtain r w1 where
    c: "proxy_connect e (before_colon (string_of_bytes payload)) les w = Ret (r, w1)"
    and rest: "(case r of None \<Rightarrow> Ret w1
      | Some u \<Rightarrow> bnd (huser_yield (mgr_comm e) u
          (w1\<lparr>loc2connID := bimap_insert (huser_getID u) c (loc2connID w1)\<rparr>)) (\<lambda>(u, w).
        emplace_id e (huser_getID u) u w)) = Ret w'"
    by (auto simp: proxy_conn_def Let_def bnd_Ret_conv)
  note m = more_conns [OF proxy_connect_more [OF assms(1-3) c]]
  show ?thesis
  proof (cases r)
    case (Some u)
    with rest obtain u2 w2 where
      y: "huser_yield (mgr_comm e) u (w1\<lparr>loc2connID := bimap_insert (huser_getID u) c (loc2connID w1)\<rparr>) = Ret (u2, w2)"
      and em: "emplace_id e (huser_getID u2) u2 w2 = Ret w'"
      by (auto simp: bnd_Ret_conv)
    from yield_keeps_conns [OF assms(2) y] have "connid2proxy w2 = connid2proxy w1" by simp
    moreover have "connid2proxy w' = connid2proxy w2"
      using em destroy_keeps_conns [OF assms(2), of u2 w2 w']
      by (auto simp: emplace_id_def put_user_def split: option.splits)
    ultimately show ?thesis using m by simp
  qed (use rest m in simp)
qed (use assms(4) in \<open>simp add: proxy_conn_def Let_def\<close>)

text \<open>The proxy of the destination's pool can not send a reply back: connecting the destination enters its
  handle and the identifier into the table of connections, but no proxy for the identifier, so the first
  message of the destination dereferences a null pointer.\<close>

theorem proxy_reply_dereferences_null:
  assumes "duplex A inq outq" and "vtab e = tcp_vtable A" and "sound_connect e" and "components (cfg w0) = []"
    and "smap_get (connid2proxy w0) c = None" and "proxy_conn e c payload w0 = Ret w1"
    and "connid2proxy w = connid2proxy w1" and "loc2connID w = loc2connID w1"
    and "realHandle u = Some h" and "isReadable u"
    and "idle_handle h w" and "inq (fd_of (net w) h) (os (net w)) = concat (tcp_frame m) @ rest"
    and "m \<noteq> []" and "length m < 2 ^ 63"
    and "has_key (huser_getID u) (loc2connID w1)" and "get_value (huser_getID u) (loc2connID w1) = Ret c"
  shows "proxy_from_process e X u w = Fault Null_deref"
proof -
  have id: "huser_getID u = Suc h" by (simp add: huser_getID_def assms(9))
  have "smap_get (connid2proxy w) c = None"
    using proxy_conn_keeps_conns [OF assms(3,2,4,6)] assms(5,7) by simp
  then have none: "\<exists>w2. proxy_of_conn c (set_os None s w) = (None, w2)" for s
    by (simp add: proxy_of_conn_def smap_laws Let_def)
  from proxy_process_message [OF assms(1,2,9-14), of X] assms(8,15,16) obtain s where
    run: "proxy_from_process e X u w =
      bnd (case proxy_of_conn c (set_os None s w) of (p, w) \<Rightarrow> send_to_proxy e p (proxy_message FWD c m) w)
        (huser_destroy (mgr_comm e) (u\<lparr>newConnection := False\<rparr>))"
    unfolding id by (auto simp: Let_def)
  from none [of s] run show ?thesis by (auto simp: send_to_proxy_def)
qed

text \<open>The remote proxy connects the component B, whose first message is the reply.\<close>

definition fresh_proxy :: "(sos tcp_state) proxy" where
  "fresh_proxy = (sample_proxy \<lparr>so_in = [], so_out = [], so_next = 5\<rparr>)
     \<lparr>px_cfg := \<lparr>pools = [], components = [(''B'', ''Q:h'', [''TCP''], [''TCP:h:1''])]\<rparr>\<rparr>"

lemma penv_sample_sound: "sound_connect penv_sample"
  unfolding sound_connect_def penv_sample_def
  using tcp_connector.connect_more by (metis menv.select_convs(2))

lemma penv_sample_vtab: "vtab penv_sample = tcp_vtable sample_sys"
  by (simp add: penv_sample_def)

lemma fresh_proxy_conn:
  "\<exists>w1. proxy_conn penv_sample 77 (bytes_of_string ''TCP:B'') fresh_proxy = Ret w1
     \<and> loc2connID w1 = bimap_insert 9 77 bimap_empty"
proof -
  let ?w = "fresh_proxy"
  have "next_hid ?w = 8" "so_next (os (net ?w)) = 5"
    by (simp_all add: fresh_proxy_def sample_proxy_simps)
  from sample_connect [OF this, of "''TCP''" "-1" 0] obtain w1 where
    c: "tcp_connect 5 sample_sys ''TCP'' ''h:1'' (-1) 0 ?w = Ret (Some 8, w1)"
    and w1: "heap w1 8 = Some (new_handle ''TCP'')" "fd_of (net w1) 8 = 5" by blast
  have m1: "world.more w1 = world.more ?w"
    using tcp_connector.connect_more [of 5 sample_sys "''TCP''" "''h:1''" "-1" 0 ?w] c
    by (simp add: tcp_conn_def)
  have ch: "connectHandle penv_sample ''TCP:h:1'' (-1) 0 ?w = Ret (Some 8, w1)"
    using c by (simp add: connectHandle_def before_colon_def after_colon_def colon_def fresh_proxy_def
        sample_proxy_simps config_empty_def penv_sample_def tcp_conn_def Let_def)
  obtain s where mc: "mgr_connect penv_sample ''TCP:h:1'' (-1) 0 ?w =
      Ret (\<lparr>realHandle = Some 8, isReadable = True, newConnection = True\<rparr>,
        put_obj 8 ((new_handle ''TCP'')\<lparr>counter := counter (new_handle ''TCP'') + 1\<rparr>) (set_os None s w1))"
    using tcp_connect_announces [OF sample_writes penv_sample_vtab ch w1(1)] by blast
  let ?u = "\<lparr>realHandle = Some 8, isReadable = True, newConnection = True\<rparr>"
  let ?w2 = "put_obj 8 ((new_handle ''TCP'')\<lparr>counter := counter (new_handle ''TCP'') + 1\<rparr>) (set_os None s w1)"
  let ?w3 = "?w2\<lparr>loc2connID := bimap_insert 9 77 (loc2connID ?w2)\<rparr>"
  have px: "proxy_connect penv_sample ''TCP'' [''TCP:h:1''] ?w = Ret (Some ?u, ?w2)"
    using mc by (simp add: huser_isValid_def)
  have m2: "world.more ?w2 = world.more ?w" using m1 by simp
  have f2: "loc2connID ?w2 = bimap_empty" "id2handle ?w2 = []" "ctxs ?w2 = (\<lambda>_. None)"
    using more_conns [OF m2] by (simp_all add: fresh_proxy_def sample_proxy_simps)
  obtain t where y: "huser_yield (mgr_comm penv_sample) ?u ?w3 = Ret (?u\<lparr>isReadable := False, newConnection := False\<rparr>, ?w3\<lparr>net := t\<rparr>)"
    using mgr_yield_tcp [OF penv_sample_vtab, of ?u 8 ?w3] w1(2) f2(3)
    by (auto simp: new_handle_def FD_SETSIZE_def)
  have str: "string_of_bytes (bytes_of_string ''TCP:B'') = ''TCP:B''"
    unfolding string_of_bytes_def bytes_of_string_def map_map comp_def char_byte by simp
  have "smap_get (components (px_cfg ?w)) ''B'' = Some (''Q:h'', [''TCP''], [''TCP:h:1''])"
    by (simp add: fresh_proxy_def smap_get_def)
  then show ?thesis
    using px y f2(1,2)
    by (simp add: proxy_conn_def str before_colon_def after_colon_def colon_def huser_getID_def emplace_id_def put_user_def)
qed

theorem proxy_reply_dereferences_null_witness:
  "\<exists>w1. proxy_conn penv_sample 77 (bytes_of_string ''TCP:B'') fresh_proxy = Ret w1
     \<and> proxy_from_process penv_sample px_sample (huser_at 8)
         ((sample_proxy \<lparr>so_in = concat (tcp_frame [1]), so_out = [], so_next = 6\<rparr>)
           \<lparr>heap := (\<lambda>_. Some (new_handle ''TCP'')), loc2connID := loc2connID w1, connid2proxy := connid2proxy w1\<rparr>)
       = Fault Null_deref"
proof -
  from fresh_proxy_conn obtain w1 where
    w1: "proxy_conn penv_sample 77 (bytes_of_string ''TCP:B'') fresh_proxy = Ret w1"
    "loc2connID w1 = bimap_insert 9 77 bimap_empty" by blast
  let ?w = "(sample_proxy \<lparr>so_in = concat (tcp_frame [1]), so_out = [], so_next = 6\<rparr>)
     \<lparr>heap := (\<lambda>_. Some (new_handle ''TCP'')), loc2connID := loc2connID w1, connid2proxy := connid2proxy w1\<rparr>"
  have c0: "components (cfg fresh_proxy) = []" "smap_get (connid2proxy fresh_proxy) 77 = None"
    by (simp_all add: fresh_proxy_def sample_proxy_simps config_empty_def)
  have w: "connid2proxy ?w = connid2proxy w1" "loc2connID ?w = loc2connID w1" "realHandle (huser_at 8) = Some 8"
    "isReadable (huser_at 8)" by simp_all
  have i: "idle_handle 8 ?w"
    by (rule sample_proxy_idle [of _ _ "''TCP''"]) (simp_all add: sample_proxy_simps)
  have r: "so_in (os (net ?w)) = concat (tcp_frame [1]) @ []" "[1 :: byte] \<noteq> []" "length [1 :: byte] < 2 ^ 63"
    "has_key (huser_getID (huser_at 8)) (loc2connID w1)" "get_value (huser_getID (huser_at 8)) (loc2connID w1) = Ret 77"
    by (simp_all add: sample_proxy_simps w1(2) pool_simps)
  from proxy_reply_dereferences_null [OF sample_duplex penv_sample_vtab penv_sample_sound c0 w1(1) w i r, of px_sample]
    w1(1) show ?thesis by blast
qed

section \<open>A connection through a proxy\<close>

lemma header_too_large:
  assumes "length bs = 8" and "hd bs \<noteq> 0"
  shows "1048576 < be64toh (of_le_bytes bs)"
proof (rule ccontr)
  let ?v = "be64toh (of_le_bytes bs)"
  assume "\<not> 1048576 < ?v"
  then have "?v \<le> 1048576" by simp
  then have small: "?v < 2 ^ 56" by (rule le_less_trans) simp
  have "le_bytes ?v = rev bs"
    using assms(1) by (simp add: be64toh_def le_bytes_of_le_bytes)
  then have "last (le_bytes ?v) = hd bs" using assms(1) by (metis last_rev)
  moreover have "last (le_bytes ?v) = ucast (drop_bit 56 ?v)"
    by (simp add: le_bytes_def numeral_eq_Suc)
  moreover have "drop_bit 56 ?v = 0"
    using small by (simp add: drop_bit_eq_div div_word_less)
  ultimately show False using assms(2) by simp
qed

lemma label_flag: "bytes_int (bytes_of_string ''TCP:'') \<noteq> 0"
proof -
  have "bytes_of_string ''TCP:'' = [84, 67, 80, 58]" by (simp add: bytes_of_string_def of_char_def)
  moreover have "{..<4 :: nat} = {0, 1, 2, 3}" by auto
  moreover have "signed_take_bit 31 (978338644 :: int) = 978338644"
    by (rule signed_take_bit_int_eq_self) simp_all
  ultimately show ?thesis by (simp add: bytes_int_def)
qed

text \<open>The accepting side takes the first four bytes of the connect string for its flag and what follows for
  the size of a team's name.\<close>

lemma tcp_connectionHandshake_label:
  assumes "reads_stream A inq" and "heap w h = Some ob"
    and "inq (fd_of (net w) h) (os (net w)) = wire [bytes_of_string (''TCP:'' @ c # a), int_bytes 0]"
    and "c \<noteq> CHR 0x00" and "length a < 2 ^ 62"
  shows "\<exists>s. connectionHandshake (tcp_vtable A) h w = Ret (-1, None, set_os None s w)"
proof -
  let ?fd = "fd_of (net w) h" and ?t = "bytes_of_string ''TCP:''"
  let ?b = "bytes_of_string (c # a) @ concat (tcp_frame (int_bytes 0))"
  have str: "bytes_of_string (''TCP:'' @ c # a) = ?t @ bytes_of_string (c # a)"
    by (simp add: bytes_of_string_def)
  have in0: "inq ?fd (os (net w)) = concat (tcp_frame (?t @ bytes_of_string (c # a))) @ concat (tcp_frame (int_bytes 0))"
    using assms(3) str by simp
  from fd_probe_stream [OF assms(1) in0, of 0] obtain s1 where
    s1: "fd_probe A ?fd True 0 (os (net w)) = (8, of_nat (length (?t @ bytes_of_string (c # a))), None, s1)"
    "inq ?fd s1 = ?t @ ?b" by auto
  have "length (bytes_of_string ''TCP:'') < 2 ^ 64" by simp
  from fd_receive_stream [OF assms(1) s1(2) this] obtain s2 where
    s2: "fd_receive A ?fd 4 s1 = (4, ?t, None, s2)" "inq ?fd s2 = ?b" by auto
  have hd0: "hd (take 8 ?b) \<noteq> 0"
    using char_byte_0 [of c] assms(4) by (simp add: bytes_of_string_def)
  have len: "length (take 8 ?b) = 8" using frame_length [of "int_bytes 0"] by simp
  have "8 \<le> length (inq ?fd s2)" unfolding s2(2) using frame_length [of "int_bytes 0"] by simp
  from readn_stream [OF assms(1) this] obtain s3 where s3: "readn A ?fd 8 s2 = (8, take 8 ?b, None, s3)"
    unfolding s2(2) by auto
  have p3: "fd_probe A ?fd True 0 s2 = (8, be64toh (of_le_bytes (take 8 ?b)), None, s3)"
    using s3 len by (simp add: fd_probe_def)
  have "vt_probe (tcp_vtable A) h True 0 w = Ret (8, of_nat (length (?t @ bytes_of_string (c # a))), set_os None s1 w)"
    "vt_receive (tcp_vtable A) h sizeof_int (set_os None s1 w) = Ret (4, ?t, set_os None s2 w)"
    "vt_probe (tcp_vtable A) h True 0 (set_os None s2 w) =
      Ret (8, be64toh (of_le_bytes (take 8 ?b)), set_os None s3 w)"
    using s1(1) s2(1) p3 assms(2) by (simp_all add: tcp_probe_def tcp_receive_def obj_Some)
  then show ?thesis
    using label_flag header_too_large [OF len hd0]
    by (intro exI [of _ s3]) (simp add: connectionHandshake_def)
qed

text \<open>C40: A connection over TCP to a component of another pool is lost at the proxy: the connecting side sends the
  connect string first and the handshake flag after it and believes the connection valid; the manager of
  the proxy reads the string as the handshake, finds the name of a team of absurd size, and hands the
  connection to nobody.\<close>

theorem proxied_connection_lost:
  fixes v :: "(('p, 'l) tcp_state_scheme, 'y) pworld"
  assumes "writes_stream A outq" and "reads_stream B inq" and "vtab e = tcp_vtable A"
    and "smap_get (components (cfg w)) (c # a) = Some (pool @ colon # host, prots, les)" and "colon \<notin> set pool"
    and "pool \<noteq> []" and "pool \<noteq> poolName w" and "poolName w \<noteq> []"
    and "smap_get (pools (cfg w)) (poolName w) = Some (ip # ips, nodes)" and "''TCP'' \<in> set (protocols w)"
    and "conn_connect (proto e ''TCP'') (ip @ colon # proxy_port ''TCP'') n t w = Ret (Some k, w1)"
    and "heap w1 k = Some ob" and "outq (fd_of (net w1) k) (os (net w1)) = []"
    and "c \<noteq> CHR 0x00" and "length a < 2 ^ 62" and "heap v h = Some ob'"
  shows "\<exists>w2. mgr_connect e (''TCP'' @ colon # c # a) n t w =
      Ret (\<lparr>realHandle = Some k, isReadable = True, newConnection = True\<rparr>, w2)
    \<and> (inq (fd_of (net v) h) (os (net v)) = outq (fd_of (net w1) k) (os (net w2)) \<longrightarrow>
        (\<exists>v'. addinQ (tcp_vtable B) True h v = Ret v'
          \<and> handleReady v' = handleReady v \<and> groupsReady v' = groupsReady v \<and> heap v' = heap v))"
proof -
  let ?s = "''TCP'' @ colon # c # a"
  let ?fd = "fd_of (net w1) k"
  have s: "?s = ''TCP:'' @ c # a" by (simp add: colon_def)
  have px: "pool_proxies (poolName w) w = (ip # ips, w)"
    using assms(9) by (simp add: pool_proxies_def smap_emplace_def Let_def)
  have len: "length (bytes_of_string ?s) < 2 ^ 63" using assms(15) by simp
  obtain s1 where s1: "tcp_send A k (bytes_of_string ?s) w1 = Ret (int (length (bytes_of_string ?s)), set_os None s1 w1)"
    "outq ?fd s1 = outq ?fd (os (net w1)) @ concat (tcp_frame (bytes_of_string ?s))"
    by (rule tcp_send_message [OF assms(1,12) len])
  let ?w1 = "set_os None s1 w1"
  have "connect_own_proxy e ?s ''TCP'' n t (ip # ips) w = Ret (Some k, ?w1)"
    using assms(3,10,11) s1(1) by (simp add: connect_then_send_def proto_connect_def)
  then have "connect_proxied e ?s ''TCP'' pool n t w = Ret (Some k, ?w1)"
    using assms(6,8) px by (simp add: connect_proxied_def)
  moreover have "colon \<notin> set ''TCP''" "''TCP'' \<noteq> []" by (simp_all add: colon_def)
  note connectHandle_label [OF this assms(4), of e n t, unfolded getPool_colon [OF assms(5)]]
  ultimately have ch: "connectHandle e ?s n t w = Ret (Some k, ?w1)"
    using assms(7) by (simp only: if_True simp_thms)
  have live: "heap ?w1 k = Some ob" using assms(12) by simp
  from tcp_connect_announces [OF assms(1,3) ch live] obtain s2 where
    mc: "mgr_connect e ?s n t w = Ret (\<lparr>realHandle = Some k, isReadable = True, newConnection = True\<rparr>,
      put_obj k (ob\<lparr>counter := counter ob + 1\<rparr>) (set_os None s2 ?w1))"
    and out: "outq ?fd s2 = outq ?fd s1 @ wire [int_bytes 0]" by auto
  let ?w2 = "put_obj k (ob\<lparr>counter := counter ob + 1\<rparr>) (set_os None s2 ?w1)"
  have sent: "outq ?fd (os (net ?w2)) = wire [bytes_of_string (''TCP:'' @ c # a), int_bytes 0]"
    using out s1(2) assms(13) s by simp
  have "\<exists>v'. addinQ (tcp_vtable B) True h v = Ret v'
      \<and> handleReady v' = handleReady v \<and> groupsReady v' = groupsReady v \<and> heap v' = heap v"
    if arrived: "inq (fd_of (net v) h) (os (net v)) = outq ?fd (os (net ?w2))"
  proof -
    from tcp_connectionHandshake_label [OF assms(2,16) arrived [unfolded sent] assms(14,15)] obtain s3 where
      "connectionHandshake (tcp_vtable B) h v = Ret (-1, None, set_os None s3 v)" by blast
    then show ?thesis by (simp add: addinQ_def)
  qed
  with mc show ?thesis by (intro exI [of _ ?w2]) simp
qed

theorem proxied_connection_lost_witness:
  "\<exists>w2 v'. mgr_connect sample_env ''TCP:B'' 1 0
       ((sample_mgr (two_pools\<lparr>pools := [(''P'', [''h''], [])]\<rparr>) ''A'' \<lparr>so_in = [], so_out = [], so_next = 5\<rparr>)\<lparr>poolName := ''P''\<rparr>)
     = Ret (\<lparr>realHandle = Some 8, isReadable = True, newConnection = True\<rparr>, w2)
   \<and> addinQ (tcp_vtable sample_sys) True 7 (sample_proxy \<lparr>so_in = so_out (os (net w2)), so_out = [], so_next = 5\<rparr>) = Ret v'
   \<and> handleReady v' = []"
proof -
  let ?c = "two_pools\<lparr>pools := [(''P'', [''h''], [])]\<rparr>"
  let ?w = "(sample_mgr ?c ''A'' \<lparr>so_in = [], so_out = [], so_next = 5\<rparr>)\<lparr>poolName := ''P''\<rparr>"
  have w: "smap_get (components (cfg ?w)) (CHR ''B'' # []) = Some (''Q'' @ colon # ''h'', [''TCP''], [])"
    "colon \<notin> set ''Q''" "''Q'' \<noteq> []" "''Q'' \<noteq> poolName ?w" "poolName ?w \<noteq> []"
    "smap_get (pools (cfg ?w)) (poolName ?w) = Some (''h'' # [], [])" "''TCP'' \<in> set (protocols ?w)"
    "next_hid ?w = 8" "so_next (os (net ?w)) = 5" "so_out (os (net ?w)) = []"
    by (simp_all add: sample_mgr_def two_pools_def smap_get_def colon_def)
  have h: "colon \<notin> set ''h''" by (simp add: colon_def)
  from sample_connect_addr [OF w(8,9) h, of "''TCP''" "proxy_port ''TCP''" 1 0] obtain w1 where
    c: "tcp_connect 5 sample_sys ''TCP'' (''h'' @ colon # proxy_port ''TCP'') 1 0 ?w = Ret (Some 8, w1)"
    and w1: "heap w1 8 = Some (new_handle ''TCP'')" "so_out (os (net w1)) = []"
    using w(10) by auto
  have cc: "conn_connect (proto sample_env ''TCP'') (''h'' @ colon # proxy_port ''TCP'') 1 0 ?w = Ret (Some 8, w1)"
    using c by (simp add: sample_env_def tcp_conn_def)
  have V: "vtab sample_env = tcp_vtable sample_sys" by (simp add: sample_env_def)
  have small: "CHR ''B'' \<noteq> CHR 0x00" "length ([] :: string) < 2 ^ 62" by simp_all
  have v: "heap (sample_proxy s) 7 = Some (new_handle ''TCP'')" "handleReady (sample_proxy s) = []"
    "so_in (os (net (sample_proxy s))) = so_in s" for s
    by (simp_all add: sample_proxy_simps)
  note lost = proxied_connection_lost [OF sample_writes sample_reads V w(1-7) cc w1 small v(1)]
  from lost [of "\<lparr>so_in = [], so_out = [], so_next = 5\<rparr>"] obtain w2 where
    mc: "mgr_connect sample_env (''TCP'' @ colon # ''B'') 1 0 ?w =
      Ret (\<lparr>realHandle = Some 8, isReadable = True, newConnection = True\<rparr>, w2)" by blast
  from lost [of "\<lparr>so_in = so_out (os (net w2)), so_out = [], so_next = 5\<rparr>"] mc v(2,3) obtain v' where
    "addinQ (tcp_vtable sample_sys) True 7 (sample_proxy \<lparr>so_in = so_out (os (net w2)), so_out = [], so_next = 5\<rparr>) = Ret v'"
    "handleReady v' = []" by auto
  with mc show ?thesis by (auto simp: colon_def)
qed

end
