(* ===== verification/ConnMqtt.thy ===== *)
theory ConnMqtt
  imports TcpSocket CxxString
begin

text \<open>
  \<open>include/protocols/mqtt.hpp\<close>: \<open>HandleMQTT\<close>, a client of the broker that writes to one topic and reads
  from another as the virtual members of a handle, and the connector \<open>ConnMQTT\<close>.
  \<^item> The Paho library and the broker are a parameter: \<open>mqtt_lib\<close> holds the calls as functions over a state
    \<open>'o\<close>; a \<open>mqtt::client*\<close> is a number. An exception that no handler catches is
    \<open>Fault Library_exception\<close>.
  \<^item> \<open>mqtt_state\<close> holds the members of \<open>ConnMQTT\<close> and of its handles. The loop of \<open>receive\<close> carries a bound.
    Copying more bytes than a message and its terminating NUL have is \<open>Fault Out_of_bounds\<close>; the
    destructor of a handle, which deletes its client, is left out.
  \<^item> \<open>notify_yield\<close> may queue the handle, so \<open>addinQ\<close> is an argument of the virtual members.
\<close>

record 'o mqtt_lib =
  mq_new_client :: "string \<Rightarrow> string \<Rightarrow> 'o \<Rightarrow> nat \<times> 'o"   \<comment> \<open>server, identifier\<close>
  mq_client_connect :: "nat \<Rightarrow> bool \<Rightarrow> 'o \<Rightarrow> bool option \<times> 'o"   \<comment> \<open>clean session; \<open>is_session_present\<close>, \<open>None\<close> throws\<close>
  mq_subscribe :: "nat \<Rightarrow> string \<Rightarrow> 'o \<Rightarrow> bool \<times> 'o"   \<comment> \<open>\<open>False\<close> throws\<close>
  mq_publish :: "nat \<Rightarrow> string \<Rightarrow> byte list \<Rightarrow> nat \<Rightarrow> 'o \<Rightarrow> bool \<times> 'o"
  mq_try_consume :: "nat \<Rightarrow> 'o \<Rightarrow> (string \<times> byte list) option \<times> 'o"
  mq_consume :: "nat \<Rightarrow> 'o \<Rightarrow> 'o out"   \<comment> \<open>blocks until a message has come\<close>
  mq_is_connected :: "nat \<Rightarrow> 'o \<Rightarrow> bool"
  mq_sleep_ms :: "nat \<Rightarrow> 'o \<Rightarrow> 'o"
  mq_delete :: "nat \<Rightarrow> 'o \<Rightarrow> 'o"
  mq_junk :: "byte list"   \<comment> \<open>the content of an uninitialised \<open>size_t\<close>\<close>

record 'o mqtt_state =
  mq_client :: "hid \<Rightarrow> nat"
  out_topic :: "hid \<Rightarrow> string"
  in_topic :: "hid \<Rightarrow> string"
  is_probed :: "hid \<Rightarrow> bool"
  messages :: "hid \<Rightarrow> byte list list"
  manager_name :: string
  new_connection_topic :: string
  mq_appName :: string
  mq_count :: u64
  newConnClient :: nat
  mq_listening :: bool
  mq_conns :: "(hid, bool) smap"
  mq_os :: 'o

type_synonym ('o, 'm, 'x) mqtt_world = "(('o, 'm) mqtt_state_scheme, 'x) world_scheme"

definition MQTT_POLL_TIMEOUT :: nat where
  "MQTT_POLL_TIMEOUT = 10"

definition MQTT_CONNECT_TIMEOUT :: nat where
  "MQTT_CONNECT_TIMEOUT = 100"

definition MQTT_OUT_SUFFIX :: string where
  "MQTT_OUT_SUFFIX = ''-out''"

definition MQTT_IN_SUFFIX :: string where
  "MQTT_IN_SUFFIX = ''-in''"

definition MQTT_CONNECTION_TOPIC :: string where
  "MQTT_CONNECTION_TOPIC = ''-new_connection''"

definition MQTT_SERVER_ADDRESS :: string where
  "MQTT_SERVER_ADDRESS = ''tcp://localhost:1883''"

definition set_mq :: "'o \<Rightarrow> ('o, 'm, 'x) mqtt_world \<Rightarrow> ('o, 'm, 'x) mqtt_world" where
  "set_mq s = with_net (\<lambda>t. t\<lparr>mq_os := s\<rparr>)"

lemma set_mq_simps [simp]:
  "heap (set_mq s w) = heap w" "errno (set_mq s w) = errno w" "net (set_mq s w) = (net w)\<lparr>mq_os := s\<rparr>"
  "world.more (set_mq s w) = world.more w"
  by (simp_all add: set_mq_def with_net_def)

definition set_probed :: "hid \<Rightarrow> bool \<Rightarrow> ('o, 'm, 'x) mqtt_world \<Rightarrow> ('o, 'm, 'x) mqtt_world" where
  "set_probed h b = with_net (\<lambda>t. t\<lparr>is_probed := (is_probed t)(h := b)\<rparr>)"

text \<open>\<open>memcpy(p, s.c_str(), n)\<close>: the terminating NUL can be read too. A call that may throw.\<close>

definition copy_from :: "byte list \<Rightarrow> nat \<Rightarrow> byte list out" where
  "copy_from bs n = (if n \<le> length bs + 1 then Ret (take n (bs @ [0])) else Fault Out_of_bounds)"

definition may_throw :: "bool \<times> 'o \<Rightarrow> 'o out" where
  "may_throw r = (if fst r then Ret (snd r) else Fault Library_exception)"

definition publish_on ::
  "('o, 'a) mqtt_lib_scheme \<Rightarrow> nat \<Rightarrow> string \<Rightarrow> byte list \<Rightarrow> nat \<Rightarrow> ('o, 'm, 'x) mqtt_world
     \<Rightarrow> ('o, 'm, 'x) mqtt_world out" where
  "publish_on A c topic bs qos w =
     bnd (may_throw (mq_publish A c topic bs qos (mq_os (net w)))) (\<lambda>s. Ret (set_mq s w))"

definition subscribe_to ::
  "('o, 'a) mqtt_lib_scheme \<Rightarrow> nat \<Rightarrow> string \<Rightarrow> ('o, 'm, 'x) mqtt_world \<Rightarrow> ('o, 'm, 'x) mqtt_world out" where
  "subscribe_to A c topic w =
     bnd (may_throw (mq_subscribe A c topic (mq_os (net w)))) (\<lambda>s. Ret (set_mq s w))"

section \<open>HandleMQTT\<close>

definition mqtt_sendEOS ::
  "('o, 'a) mqtt_lib_scheme \<Rightarrow> hid \<Rightarrow> ('o, 'm, 'x) mqtt_world \<Rightarrow> (int \<times> ('o, 'm, 'x) mqtt_world) out" where
  "mqtt_sendEOS A h w =
     bnd (obj h w) (\<lambda>_.
     bnd (publish_on A (mq_client (net w) h) (out_topic (net w) h) (le_bytes 0) 0 w) (\<lambda>w.
     Ret (sizeof_size_t, w)))"

definition mqtt_send ::
  "('o, 'a) mqtt_lib_scheme \<Rightarrow> hid \<Rightarrow> byte list \<Rightarrow> ('o, 'm, 'x) mqtt_world
     \<Rightarrow> (int \<times> ('o, 'm, 'x) mqtt_world) out" where
  "mqtt_send A h bs w =
     bnd (obj h w) (\<lambda>_.
     let c = mq_client (net w) h; topic = out_topic (net w) h
     in bnd (publish_on A c topic (le_bytes (htobe64 (of_nat (length bs)))) 0 w) (\<lambda>w.
        bnd (publish_on A c topic bs 0 w) (\<lambda>w. Ret (ssize_of (of_nat (length bs)), w))))"

text \<open>The loop of \<open>receive\<close>: a message of another topic is dropped.\<close>

fun mqtt_receive_loop ::
  "nat \<Rightarrow> ('o, 'a) mqtt_lib_scheme \<Rightarrow> hid \<Rightarrow> u64 \<Rightarrow> ('o, 'm, 'x) mqtt_world
     \<Rightarrow> (int \<times> byte list \<times> ('o, 'm, 'x) mqtt_world) out" where
  "mqtt_receive_loop 0 A h size1 w = Fault No_return"
| "mqtt_receive_loop (Suc n) A h size1 w =
     (case messages (net w) h of
        m # ms \<Rightarrow> Ret (int (length m), m, with_net (\<lambda>t. t\<lparr>messages := (messages t)(h := ms)\<rparr>) w)
      | [] \<Rightarrow>
          let (msg, s) = mq_try_consume A (mq_client (net w) h) (mq_os (net w));
              again = (\<lambda>s. mqtt_receive_loop n A h size1 (set_mq (mq_sleep_ms A MQTT_POLL_TIMEOUT s) w))
          in case msg of
               None \<Rightarrow> again s
             | Some (topic, payload) \<Rightarrow>
                 if topic = in_topic (net w) h
                 then bnd (copy_from payload (unat size1)) (\<lambda>bs. Ret (ssize_of size1, bs, set_mq s w))
                 else again s)"

definition mqtt_receive ::
  "nat \<Rightarrow> ('o, 'a) mqtt_lib_scheme \<Rightarrow> hid \<Rightarrow> u64 \<Rightarrow> ('o, 'm, 'x) mqtt_world
     \<Rightarrow> (int \<times> byte list \<times> ('o, 'm, 'x) mqtt_world) out" where
  "mqtt_receive n A h size1 w = bnd (obj h w) (\<lambda>_. mqtt_receive_loop n A h size1 (set_probed h False w))"

text \<open>\<open>probe\<close>: \<open>front\<close> of an empty queue is undefined; a message of more than eight bytes overruns \<open>sz\<close>.\<close>

definition mqtt_probe ::
  "nat \<Rightarrow> ('o, 'a) mqtt_lib_scheme \<Rightarrow> hid \<Rightarrow> bool \<Rightarrow> u64 \<Rightarrow> ('o, 'm, 'x) mqtt_world
     \<Rightarrow> (int \<times> u64 \<times> ('o, 'm, 'x) mqtt_world) out" where
  "mqtt_probe n A h blocking size1 w =
     bnd (obj h w) (\<lambda>_.
     if is_probed (net w) h then
       (case messages (net w) h of
          [] \<Rightarrow> Fault Out_of_bounds
        | m # ms \<Rightarrow> bnd (copy_from m 8) (\<lambda>bs.
            Ret (sizeof_size_t, be64toh (of_le_bytes bs), with_net (\<lambda>t. t\<lparr>messages := (messages t)(h := ms)\<rparr>) w)))
     else if blocking then
       bnd (mqtt_receive n A h 8 w) (\<lambda>(r, bs, w).
       if 8 < length bs then Fault Out_of_bounds
       else Ret (sizeof_size_t, be64toh (of_le_bytes (bs @ drop (length bs) (take 8 (mq_junk A)))), set_probed h True w))
     else
       (let (msg, s) = mq_try_consume A (mq_client (net w) h) (mq_os (net w)); w = set_mq s w
        in case msg of
             None \<Rightarrow> Ret (-1, size1, set_errno EWOULDBLOCK w)
           | Some (topic, payload) \<Rightarrow>
               bnd (copy_from payload 8) (\<lambda>bs. Ret (sizeof_size_t, be64toh (of_le_bytes bs), set_probed h True w))))"

definition mqtt_peek ::
  "nat \<Rightarrow> ('o, 'a) mqtt_lib_scheme \<Rightarrow> hid \<Rightarrow> ('o, 'm, 'x) mqtt_world
     \<Rightarrow> (bool \<times> ('o, 'm, 'x) mqtt_world) out" where
  "mqtt_peek n A h w = bnd (mqtt_probe n A h False 0 w) (\<lambda>(res, _, w). Ret (0 < res, w))"

section \<open>ConnMQTT: starting\<close>

definition createClient ::
  "('o, 'a) mqtt_lib_scheme \<Rightarrow> string \<Rightarrow> nat \<Rightarrow> ('o, 'm, 'x) mqtt_world \<Rightarrow> ('o, 'm, 'x) mqtt_world out" where
  "createClient A topic c w =
     (let (rsp, s) = mq_client_connect A c False (mq_os (net w)); w = set_mq s w
      in case rsp of
           None \<Rightarrow> Fault Library_exception
         | Some present \<Rightarrow> if \<not> present then subscribe_to A c topic w else Ret w)"

text \<open>\<open>server\<close> is \<open>getenv("MQTT_SERVER_ADDRESS")\<close>.\<close>

definition mqtt_init ::
  "('o, 'a) mqtt_lib_scheme \<Rightarrow> string option \<Rightarrow> string \<Rightarrow> ('o, 'm, 'x) mqtt_world
     \<Rightarrow> (int \<times> ('o, 'm, 'x) mqtt_world) out" where
  "mqtt_init A server s w =
     (let app = s @ '':'';
          server_address = (case server of Some a \<Rightarrow> a | None \<Rightarrow> MQTT_SERVER_ADDRESS);
          (c, st) = mq_new_client A server_address app (mq_os (net w));
          w = with_net (\<lambda>t. t\<lparr>mq_appName := app, newConnClient := c\<rparr>) (set_mq st w);
          (rsp, st) = mq_client_connect A c True (mq_os (net w)); w = set_mq st w
      in if rsp = Some False then Ret (0, w) else Ret (-1, set_errno ECOMM w))"

definition mqtt_listen ::
  "('o, 'a) mqtt_lib_scheme \<Rightarrow> string \<Rightarrow> ('o, 'm, 'x) mqtt_world \<Rightarrow> (int \<times> ('o, 'm, 'x) mqtt_world) out" where
  "mqtt_listen A s w =
     (let w = with_net (\<lambda>t. t\<lparr>manager_name := after_colon s\<rparr>) w
      in if manager_name (net w) = [] then Ret (-1, set_errno EINVAL w)
         else
           let topic = manager_name (net w) @ MQTT_CONNECTION_TOPIC;
               w = with_net (\<lambda>t. t\<lparr>new_connection_topic := topic\<rparr>) w;
               (ok, st) = mq_subscribe A (newConnClient (net w)) topic (mq_os (net w)); w = set_mq st w
           in if ok then Ret (0, with_net (\<lambda>t. t\<lparr>mq_listening := True\<rparr>) w) else Ret (-1, set_errno ECOMM w))"

definition new_HandleMQTT ::
  "string \<Rightarrow> nat \<Rightarrow> string \<Rightarrow> string \<Rightarrow> ('o, 'm, 'x) mqtt_world \<Rightarrow> hid \<times> ('o, 'm, 'x) mqtt_world" where
  "new_HandleMQTT p c tout tin w =
     (let (h, w) = alloc_handle p w
      in (h, with_net (\<lambda>t. t\<lparr>mq_client := (mq_client t)(h := c), out_topic := (out_topic t)(h := tout),
           in_topic := (in_topic t)(h := tin), is_probed := (is_probed t)(h := False),
           messages := (messages t)(h := [])\<rparr>) w))"

section \<open>ConnMQTT: polling\<close>

text \<open>A new connection: \<open>name\<close> is the topic the connecting side has chosen.\<close>

definition mqtt_accept ::
  "('o, 'a) mqtt_lib_scheme \<Rightarrow> string
     \<Rightarrow> (bool \<Rightarrow> hid \<Rightarrow> ('o, 'm, 'x) mqtt_world \<Rightarrow> ('o, 'm, 'x) mqtt_world out)
     \<Rightarrow> string \<Rightarrow> ('o, 'm, 'x) mqtt_world \<Rightarrow> ('o, 'm, 'x) mqtt_world out" where
  "mqtt_accept A p addinQ name w =
     (let (c, s) = mq_new_client A MQTT_SERVER_ADDRESS (name @ MQTT_IN_SUFFIX) (mq_os (net w)); w = set_mq s w
      in bnd (createClient A (name @ MQTT_IN_SUFFIX) c w) (\<lambda>w.
         bnd (publish_on A c (name @ MQTT_OUT_SUFFIX) (bytes_of_string ''ack'') 1 w) (\<lambda>w.
         let (h, w) = new_HandleMQTT p c (name @ MQTT_OUT_SUFFIX) (name @ MQTT_IN_SUFFIX) w
         in addinQ True h (with_net (\<lambda>t. t\<lparr>mq_conns := smap_emplace h False (mq_conns t)\<rparr>) w))))"

fun mqtt_poll ::
  "('o, 'a) mqtt_lib_scheme \<Rightarrow> (bool \<Rightarrow> hid \<Rightarrow> ('o, 'm, 'x) mqtt_world \<Rightarrow> ('o, 'm, 'x) mqtt_world out)
     \<Rightarrow> (hid, bool) smap \<Rightarrow> ('o, 'm, 'x) mqtt_world \<Rightarrow> ('o, 'm, 'x) mqtt_world out" where
  "mqtt_poll A addinQ [] w = Ret w"
| "mqtt_poll A addinQ ((h, to_manage) # cs) w =
     (if to_manage then
        bnd (obj h w) (\<lambda>_.
        let (msg, s) = mq_try_consume A (mq_client (net w) h) (mq_os (net w)); w = set_mq s w
        in case msg of
             None \<Rightarrow> mqtt_poll A addinQ cs w
           | Some (topic, payload) \<Rightarrow>
               let w = with_net (\<lambda>t. t\<lparr>messages := (messages t)(h := messages t h @ [payload]),
                     mq_conns := smap_put h False (mq_conns t)\<rparr>) (set_probed h True w)
               in bnd (addinQ False h w) (mqtt_poll A addinQ cs))
      else mqtt_poll A addinQ cs w)"

definition mqtt_update ::
  "('o, 'a) mqtt_lib_scheme \<Rightarrow> string
     \<Rightarrow> (bool \<Rightarrow> hid \<Rightarrow> ('o, 'm, 'x) mqtt_world \<Rightarrow> ('o, 'm, 'x) mqtt_world out)
     \<Rightarrow> ('o, 'm, 'x) mqtt_world \<Rightarrow> ('o, 'm, 'x) mqtt_world out" where
  "mqtt_update A p addinQ w =
     (let c = newConnClient (net w); (msg, s) = mq_try_consume A c (mq_os (net w)); w = set_mq s w
      in bnd (case msg of
                Some (topic, payload) \<Rightarrow>
                  if topic = new_connection_topic (net w)
                  then bnd (mqtt_accept A p addinQ (map (\<lambda>b. char_of (unat b)) payload) w) (\<lambda>w. Ret (True, w))
                  else Ret (True, w)
              | None \<Rightarrow>
                  if \<not> mq_is_connected A c (mq_os (net w)) then
                    let w = set_mq (mq_sleep_ms A MQTT_CONNECT_TIMEOUT (mq_os (net w))) w
                    in Ret (mq_is_connected A c (mq_os (net w)), w)
                  else Ret (True, w)) (\<lambda>(go_on, w).
         if go_on then mqtt_poll A addinQ (mq_conns (net w)) w else Ret w))"

section \<open>ConnMQTT: connecting\<close>

definition mqtt_connect ::
  "('o, 'a) mqtt_lib_scheme \<Rightarrow> string \<Rightarrow> string \<Rightarrow> int \<Rightarrow> nat \<Rightarrow> ('o, 'm, 'x) mqtt_world
     \<Rightarrow> (hid option \<times> ('o, 'm, 'x) mqtt_world) out" where
  "mqtt_connect A p address retry timeout w =
     (let manager_id = before_colon address
      in if manager_id = [] then Ret (None, set_errno EINVAL w)
         else
           let topic = mq_appName (net w) @ to_string (uint (mq_count (net w)));
               topic_out = topic @ MQTT_OUT_SUFFIX; topic_in = topic @ MQTT_IN_SUFFIX;
               (c, s) = mq_new_client A MQTT_SERVER_ADDRESS topic (mq_os (net w));
               w = with_net (\<lambda>t. t\<lparr>mq_count := mq_count t + 1\<rparr>) (set_mq s w);
               (rsp, s) = mq_client_connect A c True (mq_os (net w)); w = set_mq s w
           in if rsp = None then Fault Library_exception
              else
                bnd (subscribe_to A c topic_out w) (\<lambda>w.
                bnd (publish_on A c (manager_id @ MQTT_CONNECTION_TOPIC) (bytes_of_string topic) 1 w) (\<lambda>w.
                bnd (mq_consume A c (mq_os (net w))) (\<lambda>s.
                let (h, w) = new_HandleMQTT p c topic_in topic_out (set_mq s w)
                in Ret (Some h, with_net (\<lambda>t. t\<lparr>mq_conns := smap_put h False (mq_conns t)\<rparr>) w)))))"

section \<open>ConnMQTT: notifications and termination\<close>

definition mqtt_notify_close ::
  "hid \<Rightarrow> bool \<Rightarrow> bool \<Rightarrow> ('o, 'm, 'x) mqtt_world \<Rightarrow> ('o, 'm, 'x) mqtt_world out" where
  "mqtt_notify_close h close_wr close_rd w =
     Ret (if close_rd then with_net (\<lambda>t. t\<lparr>mq_conns := smap_erase h (mq_conns t)\<rparr>) w else w)"

text \<open>A handle that is not registered is reported, and the end iterator used all the same.\<close>

definition mqtt_notify_yield ::
  "(bool \<Rightarrow> hid \<Rightarrow> ('o, 'm, 'x) mqtt_world \<Rightarrow> ('o, 'm, 'x) mqtt_world out) \<Rightarrow> hid
     \<Rightarrow> ('o, 'm, 'x) mqtt_world \<Rightarrow> ('o, 'm, 'x) mqtt_world out" where
  "mqtt_notify_yield addinQ h w =
     bnd (obj h w) (\<lambda>_.
     if is_probed (net w) h then addinQ False h w
     else if smap_has (mq_conns (net w)) h
          then Ret (with_net (\<lambda>t. t\<lparr>mq_conns := smap_put h True (mq_conns t)\<rparr>) w)
          else Fault Out_of_bounds)"

definition mqtt_vtable ::
  "nat \<Rightarrow> ('o, 'a) mqtt_lib_scheme \<Rightarrow> (bool \<Rightarrow> hid \<Rightarrow> ('o, 'm, 'x) mqtt_world \<Rightarrow> ('o, 'm, 'x) mqtt_world out)
     \<Rightarrow> ('o, 'm, 'x) mqtt_world vtable" where
  "mqtt_vtable n A addinQ = \<lparr>vt_send = mqtt_send A, vt_probe = mqtt_probe n A, vt_receive = mqtt_receive n A,
     vt_sendEOS = mqtt_sendEOS A, vt_peek = mqtt_peek n A, vt_notify_close = mqtt_notify_close,
     vt_notify_yield = mqtt_notify_yield addinQ\<rparr>"

definition mqtt_end ::
  "nat \<Rightarrow> ('o, 'a) mqtt_lib_scheme \<Rightarrow> (bool \<Rightarrow> hid \<Rightarrow> ('o, 'm, 'x) mqtt_world \<Rightarrow> ('o, 'm, 'x) mqtt_world out)
     \<Rightarrow> bool \<Rightarrow> ('o, 'm, 'x) mqtt_world \<Rightarrow> ('o, 'm, 'x) mqtt_world out" where
  "mqtt_end n A addinQ blockflag w =
     bnd (each_handle (\<lambda>h. setAsClosed n (mqtt_vtable n A addinQ) h blockflag)
         (map fst (filter snd (mq_conns (net w)))) w) (\<lambda>w.
     Ret (set_mq (mq_delete A (newConnClient (net w)) (mq_os (net w))) w))"

end
