(* ===== verification/MqttProps.thy ===== *)
theory MqttProps
  imports ConnMqtt CollProps
begin

text \<open>
  The transport over MQTT: between a handle and a broker that keeps the order of a topic, messages are
  delivered one by one, and the handles of a team provide what the collectives rely on; a \<open>peek\<close>, which
  the manager uses for teams, breaks the handle.
\<close>

text \<open>
  The broker: a client has the messages that have been delivered to it in a queue; publishing appends to the
  topic. A message is its header and its payload.
\<close>

definition mqtt_publishes :: "('o, 'a) mqtt_lib_scheme \<Rightarrow> (string \<Rightarrow> 'o \<Rightarrow> byte list list) \<Rightarrow> bool" where
  "mqtt_publishes A outq \<longleftrightarrow>
     (\<forall>c topic bs qos s. \<exists>s'. mq_publish A c topic bs qos s = (True, s')
        \<and> (\<forall>q. outq q s' = (if q = topic then outq q s @ [bs] else outq q s)))"

definition mqtt_consumes :: "('o, 'a) mqtt_lib_scheme \<Rightarrow> (nat \<Rightarrow> 'o \<Rightarrow> (string \<times> byte list) list) \<Rightarrow> bool" where
  "mqtt_consumes A inq \<longleftrightarrow>
     (\<forall>c s m ms. inq c s = m # ms \<longrightarrow>
        (\<exists>s'. mq_try_consume A c s = (Some m, s') \<and> (\<forall>d. inq d s' = (if d = c then ms else inq d s))))"

definition mqtt_frame :: "byte list \<Rightarrow> byte list list" where
  "mqtt_frame bs = [le_bytes (htobe64 (of_nat (length bs))), bs]"

section \<open>MQTT carries the collectives\<close>

text \<open>The members have clients and topics of their own.\<close>

definition own_topics :: "hid set \<Rightarrow> ('o, 'm) mqtt_state_scheme \<Rightarrow> bool" where
  "own_topics P t \<longleftrightarrow> inj_on (mq_client t) P \<and> inj_on (out_topic t) P"

definition mqtt_inbox ::
  "(nat \<Rightarrow> 'o \<Rightarrow> (string \<times> byte list) list) \<Rightarrow> ('o, 'm) mqtt_state_scheme \<Rightarrow> hid \<Rightarrow> byte list list \<Rightarrow> bool" where
  "mqtt_inbox inq t h ms \<longleftrightarrow> \<not> is_probed t h \<and> messages t h = []
     \<and> (\<exists>rest. inq (mq_client t h) (mq_os t) = map (Pair (in_topic t h)) (concat (map mqtt_frame ms)) @ rest)"

lemma copy_header: "copy_from (le_bytes x) 8 = Ret (le_bytes x)"
  by (simp add: copy_from_def)

lemma copy_all: "length bs = n \<Longrightarrow> copy_from bs n = Ret bs"
  by (simp add: copy_from_def)

lemma own_topicsD:
  "own_topics P t \<Longrightarrow> h \<in> P \<Longrightarrow> k \<in> P \<Longrightarrow> mq_client t h = mq_client t k \<longleftrightarrow> h = k"
  "own_topics P t \<Longrightarrow> h \<in> P \<Longrightarrow> k \<in> P \<Longrightarrow> out_topic t h = out_topic t k \<longleftrightarrow> h = k"
  by (auto simp: own_topics_def dest: inj_onD)

lemma mqtt_send_appends:
  assumes "mqtt_publishes A outq" and "heap w h \<noteq> None" and "length bs < 2 ^ 31"
  shows "\<exists>s. mqtt_send A h bs w = Ret (int (length bs), set_mq s w)
    \<and> (\<forall>q. outq q s = (if q = out_topic (net w) h then outq q (mq_os (net w)) @ mqtt_frame bs else outq q (mq_os (net w))))"
proof -
  let ?c = "mq_client (net w) h" and ?t = "out_topic (net w) h" and ?h = "le_bytes (htobe64 (of_nat (length bs)))"
  from assms(2) obtain ob where ob: "heap w h = Some ob" by auto
  obtain s1 where s1: "mq_publish A ?c ?t ?h 0 (mq_os (net w)) = (True, s1)"
    "\<forall>q. outq q s1 = (if q = ?t then outq q (mq_os (net w)) @ [?h] else outq q (mq_os (net w)))"
    using assms(1) unfolding mqtt_publishes_def by blast
  obtain s2 where s2: "mq_publish A ?c ?t bs 0 s1 = (True, s2)"
    "\<forall>q. outq q s2 = (if q = ?t then outq q s1 @ [bs] else outq q s1)"
    using assms(1) unfolding mqtt_publishes_def by blast
  have "ssize_of (of_nat (length bs)) = int (length bs)" using assms(3) by (intro ssize_of_nat) simp
  moreover have "set_mq s2 (set_mq s1 w) = set_mq s2 w" by (simp add: set_mq_def with_net_def)
  ultimately show ?thesis
    using ob s1 s2
    by (intro exI [of _ s2]) (simp add: mqtt_send_def publish_on_def may_throw_def obj_Some Let_def mqtt_frame_def)
qed

lemma mqtt_probe_header:
  assumes "mqtt_consumes A inq" and "heap w h = Some ob" and "\<not> is_probed (net w) h" and "messages (net w) h = []"
    and "inq (mq_client (net w) h) (mq_os (net w)) = (in_topic (net w) h, le_bytes (htobe64 x)) # ms"
  shows "\<exists>s. mqtt_probe (Suc n) A h True sz w = Ret (8, x, set_probed h True (set_mq s (set_probed h False w)))
    \<and> (\<forall>d. inq d s = (if d = mq_client (net w) h then ms else inq d (mq_os (net w))))"
proof -
  obtain s where s: "mq_try_consume A (mq_client (net w) h) (mq_os (net w)) =
      (Some (in_topic (net w) h, le_bytes (htobe64 x)), s)"
    "\<forall>d. inq d s = (if d = mq_client (net w) h then ms else inq d (mq_os (net w)))"
    using assms(1,5) unfolding mqtt_consumes_def by blast
  have "mqtt_receive (Suc n) A h 8 w = Ret (8, le_bytes (htobe64 x), set_mq s (set_probed h False w))"
    using assms(2,4) s(1) by (simp add: mqtt_receive_def obj_Some set_probed_def copy_header ssize_of_def)
  with s(2) assms(2,3) show ?thesis
    by (intro exI [of _ s]) (simp add: mqtt_probe_def obj_Some)
qed

lemma mqtt_receive_payload:
  assumes "mqtt_consumes A inq" and "heap w h = Some ob" and "messages (net w) h = []"
    and "inq (mq_client (net w) h) (mq_os (net w)) = (in_topic (net w) h, m) # ms" and "length m < 2 ^ 31"
  shows "\<exists>s. mqtt_receive (Suc n) A h (of_nat (length m)) w = Ret (int (length m), m, set_mq s (set_probed h False w))
    \<and> (\<forall>d. inq d s = (if d = mq_client (net w) h then ms else inq d (mq_os (net w))))"
proof -
  obtain s where s: "mq_try_consume A (mq_client (net w) h) (mq_os (net w)) = (Some (in_topic (net w) h, m), s)"
    "\<forall>d. inq d s = (if d = mq_client (net w) h then ms else inq d (mq_os (net w)))"
    using assms(1,4) unfolding mqtt_consumes_def by blast
  have "unat (of_nat (length m) :: u64) = length m" "ssize_of (of_nat (length m)) = int (length m)"
    using assms(5) by (simp_all add: unat_of_nat_u64 ssize_of_nat)
  with s(1) assms(2,3) have "mqtt_receive (Suc n) A h (of_nat (length m)) w =
      Ret (int (length m), m, set_mq s (set_probed h False w))"
    by (simp add: mqtt_receive_def obj_Some set_probed_def copy_all)
  with s(2) show ?thesis by blast
qed

lemma mqtt_sends_to:
  assumes "mqtt_publishes A outq"
  shows "sends_to (mqtt_vtable n A addinQ :: ('o, 'm, 'x) mqtt_world vtable) (own_topics P) mqtt_frame
    (\<lambda>t h. outq (out_topic t h) (mq_os t)) P"
  unfolding sends_to_def
proof (intro ballI allI impI)
  fix h and bs :: "byte list" and w :: "('o, 'm, 'x) mqtt_world"
  assume h: "h \<in> P" and a: "own_topics P (net w) \<and> heap w h \<noteq> None \<and> length bs < 2 ^ 31"
  from mqtt_send_appends [OF assms, of w h bs] a obtain s where
    s: "mqtt_send A h bs w = Ret (int (length bs), set_mq s w)"
    "\<forall>q. outq q s = (if q = out_topic (net w) h then outq q (mq_os (net w)) @ mqtt_frame bs else outq q (mq_os (net w)))"
    by blast
  with a h show "\<exists>w'. vt_send (mqtt_vtable n A addinQ) h bs w = Ret (int (length bs), w') \<and> heap w' = heap w
      \<and> own_topics P (net w') \<and> (\<forall>k \<in> P. outq (out_topic (net w') k) (mq_os (net w')) =
          (if k = h then outq (out_topic (net w) k) (mq_os (net w)) @ mqtt_frame bs
           else outq (out_topic (net w) k) (mq_os (net w))))"
    by (intro exI [of _ "set_mq s w"]) (auto simp: mqtt_vtable_def own_topics_def dest: inj_onD)
qed

lemma set_probed_simps [simp]:
  "heap (set_probed h b w) = heap w"
  "net (set_probed h b w) = (net w)\<lparr>is_probed := (is_probed (net w))(h := b)\<rparr>"
  by (simp_all add: set_probed_def with_net_def)

lemma mqtt_delivers:
  assumes "mqtt_consumes A inq"
  shows "delivers (mqtt_vtable (Suc n) A addinQ :: ('o, 'm, 'x) mqtt_world vtable) (own_topics P) (mqtt_inbox inq) P"
  unfolding delivers_def
proof (intro ballI allI impI)
  fix h m ms sz and w :: "('o, 'm, 'x) mqtt_world"
  assume h: "h \<in> P" and a: "own_topics P (net w) \<and> heap w h \<noteq> None \<and> mqtt_inbox inq (net w) h (m # ms)
    \<and> m \<noteq> [] \<and> length m < 2 ^ 31"
  let ?c = "mq_client (net w) h" and ?t = "in_topic (net w) h"
  from a obtain ob where ob: "heap w h = Some ob" by auto
  from a obtain rest where np: "\<not> is_probed (net w) h" "messages (net w) h = []"
    and inq: "inq ?c (mq_os (net w)) = (?t, le_bytes (htobe64 (of_nat (length m)))) #
      (?t, m) # map (Pair ?t) (concat (map mqtt_frame ms)) @ rest"
    by (auto simp: mqtt_inbox_def mqtt_frame_def)
  let ?rest = "map (Pair ?t) (concat (map mqtt_frame ms)) @ rest"
  from mqtt_probe_header [OF assms ob np inq, of n sz] obtain s1 where
    s1: "mqtt_probe (Suc n) A h True sz w = Ret (8, of_nat (length m), set_probed h True (set_mq s1 (set_probed h False w)))"
    "\<forall>d. inq d s1 = (if d = ?c then (?t, m) # ?rest else inq d (mq_os (net w)))" by blast
  let ?w1 = "set_probed h True (set_mq s1 (set_probed h False w))"
  have others: "mq_client (net w) k \<noteq> ?c" if "k \<in> P" "k \<noteq> h" for k
    using own_topicsD(1) [of P "net w" k h] a h that by simp
  have "\<exists>w2. vt_receive (mqtt_vtable (Suc n) A addinQ) h (of_nat (length m)) (put_obj h ob' ?w1) =
        Ret (int (length m), m, w2) \<and> heap w2 = (heap w)(h \<mapsto> ob') \<and> own_topics P (net w2)
      \<and> mqtt_inbox inq (net w2) h ms
      \<and> (\<forall>k \<in> P. \<forall>ns. k \<noteq> h \<and> mqtt_inbox inq (net w) k ns \<longrightarrow> mqtt_inbox inq (net w2) k ns)" for ob'
  proof -
    let ?v = "put_obj h ob' ?w1"
    have nv: "net ?v = net ?w1" "heap ?v = (heap w)(h \<mapsto> ob')" by (simp_all add: put_obj_def)
    have "inq (mq_client (net ?v) h) (mq_os (net ?v)) = (in_topic (net ?v) h, m) # ?rest"
      "heap ?v h = Some ob'" "messages (net ?v) h = []" "length m < 2 ^ 31"
      using s1(2) np(2) a nv by simp_all
    from mqtt_receive_payload [OF assms this(2,3,1,4), of n] obtain s2 where
      s2: "mqtt_receive (Suc n) A h (of_nat (length m)) ?v = Ret (int (length m), m, set_mq s2 (set_probed h False ?v))"
      "\<forall>d. inq d s2 = (if d = ?c then ?rest else inq d s1)"
      using nv by auto
    have "mqtt_inbox inq (net (set_mq s2 (set_probed h False ?v))) h ms"
      using s2(2) np(2) nv by (auto simp: mqtt_inbox_def)
    moreover have "mqtt_inbox inq (net (set_mq s2 (set_probed h False ?v))) k ns"
      if "k \<in> P" "k \<noteq> h" "mqtt_inbox inq (net w) k ns" for k ns
      using s2(2) s1(2) others [OF that(1,2)] that(2,3) nv by (auto simp: mqtt_inbox_def)
    ultimately show ?thesis
      using s2(1) a nv
      by (intro exI [of _ "set_mq s2 (set_probed h False ?v)"]) (auto simp: mqtt_vtable_def own_topics_def)
  qed
  with s1(1) show "\<exists>w1. vt_probe (mqtt_vtable (Suc n) A addinQ) h True sz w = Ret (8, of_nat (length m), w1)
      \<and> heap w1 = heap w \<and> (\<forall>ob. \<exists>w2. vt_receive (mqtt_vtable (Suc n) A addinQ) h (of_nat (length m)) (put_obj h ob w1) =
          Ret (int (length m), m, w2) \<and> heap w2 = (heap w)(h \<mapsto> ob) \<and> own_topics P (net w2)
        \<and> mqtt_inbox inq (net w2) h ms
        \<and> (\<forall>k \<in> P. \<forall>ns. k \<noteq> h \<and> mqtt_inbox inq (net w) k ns \<longrightarrow> mqtt_inbox inq (net w2) k ns))"
    by (intro exI [of _ ?w1]) (auto simp: mqtt_vtable_def)
qed

text \<open>Over MQTT, when publishing appends to its topic and a client hands out what has been delivered to it in
  order, handles with clients and topics of their own provide what the collectives rely on: a message goes
  to the topic of its handle only, and what a member has sent is delivered message by message.\<close>

theorem mqtt_carries_collectives:
  assumes "mqtt_publishes A outq" and "mqtt_consumes A inq" and "0 < n"
  shows "sends_to (mqtt_vtable n A addinQ) (own_topics P) mqtt_frame (\<lambda>t h. outq (out_topic t h) (mq_os t)) P
    \<and> delivers (mqtt_vtable n A addinQ) (own_topics P) (mqtt_inbox inq) P"
proof -
  obtain k where n: "n = Suc k" using assms(3) by (cases n) auto
  show ?thesis unfolding n using mqtt_sends_to [OF assms(1)] mqtt_delivers [OF assms(2)] by (rule conjI)
qed

text \<open>A broker that keeps what is published on every topic, and what has been delivered to every client.\<close>

type_synonym broker = "(nat \<Rightarrow> (string \<times> byte list) list) \<times> (string \<Rightarrow> byte list list)"

definition sample_mqtt :: "broker mqtt_lib" where
  "sample_mqtt = \<lparr>mq_new_client = (\<lambda>a i s. (length i, s)), mq_client_connect = (\<lambda>c b s. (Some False, s)),
     mq_subscribe = (\<lambda>c t s. (True, s)),
     mq_publish = (\<lambda>c t bs q s. (True, (fst s, (snd s)(t := snd s t @ [bs])))),
     mq_try_consume = (\<lambda>c s. case fst s c of [] \<Rightarrow> (None, s) | m # ms \<Rightarrow> (Some m, ((fst s)(c := ms), snd s))),
     mq_consume = (\<lambda>c s. case fst s c of [] \<Rightarrow> Fault No_return | m # ms \<Rightarrow> Ret ((fst s)(c := ms), snd s)),
     mq_is_connected = (\<lambda>c s. True), mq_sleep_ms = (\<lambda>t s. s), mq_delete = (\<lambda>c s. s), mq_junk = replicate 8 0\<rparr>"

lemma sample_mqtt_publishes: "mqtt_publishes sample_mqtt (\<lambda>t s. snd s t)"
  by (simp add: mqtt_publishes_def sample_mqtt_def)

lemma sample_mqtt_consumes: "mqtt_consumes sample_mqtt (\<lambda>c s. fst s c)"
  by (simp add: mqtt_consumes_def sample_mqtt_def)

theorem mqtt_carries_collectives_witness:
  "delivers (mqtt_vtable 3 sample_mqtt (\<lambda>b h w. Ret w) :: (broker, unit, unit) mqtt_world vtable) (own_topics {1, 2})
     (mqtt_inbox (\<lambda>c s. fst s c)) {1, 2}"
proof -
  have "(0 :: nat) < 3" by simp
  from mqtt_carries_collectives [OF sample_mqtt_publishes sample_mqtt_consumes this] show ?thesis by (rule conjunct2)
qed

section \<open>Peeking\<close>

text \<open>Over MQTT a \<open>peek\<close> that finds a message breaks the handle: it takes the header out of the client's
  queue and forgets the size, and the next \<open>probe\<close> reads the front of an empty queue. The manager peeks at
  the handles of every team whose context has been yielded.\<close>

theorem mqtt_peek_loses_header:
  assumes "mqtt_consumes A inq" and "heap w h \<noteq> None" and "mqtt_inbox inq (net w) h (m # ms)"
  shows "\<exists>w'. vt_peek (mqtt_vtable n A addinQ) h w = Ret (True, w')
    \<and> (\<forall>b sz. vt_probe (mqtt_vtable n A addinQ) h b sz w' = Fault Out_of_bounds)"
proof -
  let ?c = "mq_client (net w) h"
  from assms(2) obtain ob where ob: "heap w h = Some ob" by auto
  from assms(3) obtain rest where np: "\<not> is_probed (net w) h" "messages (net w) h = []"
    and inq: "inq ?c (mq_os (net w)) = (in_topic (net w) h, le_bytes (htobe64 (of_nat (length m)))) # rest"
    by (auto simp: mqtt_inbox_def mqtt_frame_def)
  from assms(1) inq obtain s where
    s: "mq_try_consume A ?c (mq_os (net w)) = (Some (in_topic (net w) h, le_bytes (htobe64 (of_nat (length m)))), s)"
    unfolding mqtt_consumes_def by blast
  let ?w = "set_probed h True (set_mq s w)"
  have "mqtt_peek n A h w = Ret (True, ?w)"
    using s ob np by (simp add: mqtt_peek_def mqtt_probe_def obj_Some copy_header)
  moreover have "mqtt_probe n A h b sz ?w = Fault Out_of_bounds" for b sz
    using ob np(2) by (simp add: mqtt_probe_def obj_Some)
  ultimately show ?thesis by (simp add: mqtt_vtable_def)
qed

definition mqtt_waiting :: "(broker mqtt_state) world" where
  "mqtt_waiting = \<lparr>heap = [7 \<mapsto> new_handle ''MQTT''], errno = OK_errno, next_hid = 8,
     net = \<lparr>mq_client = (\<lambda>_. 1), out_topic = (\<lambda>_. ''t-out''), in_topic = (\<lambda>_. ''t-in''), is_probed = (\<lambda>_. False),
       messages = (\<lambda>_. []), manager_name = ''A'', new_connection_topic = ''A-new_connection'', mq_appName = ''A:'',
       mq_count = 0, newConnClient = 0, mq_listening = True, mq_conns = [(7, False)],
       mq_os = ((\<lambda>c. if c = 1 then map (Pair ''t-in'') (mqtt_frame [1, 2]) else []), (\<lambda>t. []))\<rparr>\<rparr>"

theorem mqtt_peek_loses_header_witness:
  "\<exists>w'. vt_peek (mqtt_vtable 3 sample_mqtt (\<lambda>b h w. Ret w)) 7 mqtt_waiting = Ret (True, w')
     \<and> vt_probe (mqtt_vtable 3 sample_mqtt (\<lambda>b h w. Ret w)) 7 True 0 w' = Fault Out_of_bounds"
proof -
  have "heap mqtt_waiting 7 \<noteq> None" "mqtt_inbox (\<lambda>c s. fst s c) (net mqtt_waiting) 7 ([1, 2] # [])"
    by (simp_all add: mqtt_waiting_def mqtt_inbox_def)
  from mqtt_peek_loses_header [OF sample_mqtt_consumes this] show ?thesis by blast
qed

end
