(* ===== verification/MpiLib.thy ===== *)
theory MpiLib
  imports TcpSocket Collectives
begin

text \<open>
  What \<open>include/protocols/mpi.hpp\<close> and \<open>include/protocols/mpip2p.hpp\<close> share: a message is a header and a
  payload, two MPI messages on the channel of the handle, which is a communicator, a rank and a tag.
  \<^item> The MPI library is a parameter: \<open>mpi_lib\<close> holds the calls as functions over a state \<open>'o\<close>. A call
    returns its code, 0 for \<open>MPI_SUCCESS\<close>; counts are in bytes, as the \<open>int\<close> that is passed. \<open>mpi_recv\<close>
    blocks: \<open>Fault No_return\<close> when nothing ever arrives.
  \<^item> What the MPI standard documents of it is \<open>mpi_sends\<close> (a send appends a message to its channel) and
    \<open>mpi_fifo\<close> (a receive takes the oldest message of its channel; messages do not overtake).
\<close>

record 'o mpi_lib =
  mpi_thread_multiple :: int   \<comment> \<open>\<open>MPI_THREAD_MULTIPLE\<close>\<close>
  mpi_init_thread :: "'o \<Rightarrow> (int \<times> int) \<times> 'o"   \<comment> \<open>code, \<open>provided\<close>\<close>
  mpi_comm_rank :: "'o \<Rightarrow> int"
  mpi_send :: "nat \<Rightarrow> int \<Rightarrow> int \<Rightarrow> int \<Rightarrow> byte list \<Rightarrow> 'o \<Rightarrow> int \<times> 'o"
  mpi_recv :: "nat \<Rightarrow> int \<Rightarrow> int \<Rightarrow> int \<Rightarrow> 'o \<Rightarrow> (int \<times> byte list \<times> 'o) out"
  mpi_iprobe :: "nat \<Rightarrow> int \<Rightarrow> int \<Rightarrow> 'o \<Rightarrow> (int \<times> bool) \<times> 'o"
  mpi_iprobe_any :: "nat \<Rightarrow> int \<Rightarrow> 'o \<Rightarrow> (int \<times> (int \<times> nat) option) \<times> 'o"   \<comment> \<open>source, bytes\<close>
  mpi_finalize :: "'o \<Rightarrow> 'o"

text \<open>\<open>MPI_COMM_WORLD\<close>; the other communicators are other numbers. A \<open>size_t\<close> passed for an \<open>int\<close>.\<close>

definition MPI_COMM_WORLD :: nat where
  "MPI_COMM_WORLD = 0"

definition int_count :: "u64 \<Rightarrow> int" where
  "int_count n = signed_take_bit 31 (uint n)"

section \<open>Messages on a channel\<close>

definition chn_send ::
  "('o, 'a) mpi_lib_scheme \<Rightarrow> nat \<Rightarrow> int \<Rightarrow> int \<Rightarrow> byte list \<Rightarrow> 'o \<Rightarrow> int \<times> errno_t option \<times> 'o" where
  "chn_send A c r t bs s =
     (let (e, s) = mpi_send A c r t 8 (le_bytes (of_nat (length bs))) s
      in if e \<noteq> 0 then (-1, Some ECOMM, s)
         else let (e, s) = mpi_send A c r t (int_count (of_nat (length bs))) bs s
              in if e \<noteq> 0 then (-1, Some ECOMM, s) else (ssize_of (of_nat (length bs)), None, s))"

definition chn_receive ::
  "('o, 'a) mpi_lib_scheme \<Rightarrow> nat \<Rightarrow> int \<Rightarrow> int \<Rightarrow> u64 \<Rightarrow> 'o
     \<Rightarrow> (int \<times> byte list \<times> errno_t option \<times> 'o) out" where
  "chn_receive A c r t n s =
     bnd (mpi_recv A c r t (int_count n) s) (\<lambda>(e, bs, s).
     if e \<noteq> 0 then Ret (-1, bs, Some ECOMM, s) else Ret (int (length bs), bs, None, s))"

text \<open>\<open>MPI_Recv(&size, 1, MPI_UNSIGNED_LONG, \<dots>)\<close>.\<close>

definition chn_header ::
  "('o, 'a) mpi_lib_scheme \<Rightarrow> nat \<Rightarrow> int \<Rightarrow> int \<Rightarrow> u64 \<Rightarrow> 'o \<Rightarrow> (int \<times> u64 \<times> errno_t option \<times> 'o) out" where
  "chn_header A c r t sz s =
     bnd (mpi_recv A c r t 8 s) (\<lambda>(e, bs, s).
     if e \<noteq> 0 then Ret (-1, sz, Some ECOMM, s)
     else Ret (sizeof_size_t, of_le_bytes (take 8 (bs @ drop (length bs) (le_bytes sz))), None, s))"

definition chn_probe ::
  "('o, 'a) mpi_lib_scheme \<Rightarrow> nat \<Rightarrow> int \<Rightarrow> int \<Rightarrow> bool \<Rightarrow> u64 \<Rightarrow> 'o
     \<Rightarrow> (int \<times> u64 \<times> errno_t option \<times> 'o) out" where
  "chn_probe A c r t blocking sz s =
     (if blocking then chn_header A c r t sz s
      else let ((e, f), s) = mpi_iprobe A c r t s
           in if e \<noteq> 0 then Ret (-1, sz, Some ECOMM, s)
              else if \<not> f then Ret (-1, sz, Some EWOULDBLOCK, s)
              else chn_header A c r t sz s)"

text \<open>\<open>return -1;\<close> in a function of type \<open>bool\<close> is \<open>true\<close>.\<close>

definition chn_peek ::
  "('o, 'a) mpi_lib_scheme \<Rightarrow> nat \<Rightarrow> int \<Rightarrow> int \<Rightarrow> 'o \<Rightarrow> bool \<times> errno_t option \<times> 'o" where
  "chn_peek A c r t s =
     (let ((e, f), s) = mpi_iprobe A c r t s in if e \<noteq> 0 then (True, Some ECOMM, s) else (f, None, s))"

definition chn_sendEOS ::
  "('o, 'a) mpi_lib_scheme \<Rightarrow> nat \<Rightarrow> int \<Rightarrow> int \<Rightarrow> 'o \<Rightarrow> int \<times> 'o" where
  "chn_sendEOS A c r t s = mpi_send A c r t 8 (le_bytes 0) s"

section \<open>The library\<close>

type_synonym 'o queues = "nat \<times> int \<times> int \<Rightarrow> 'o \<Rightarrow> byte list list"

definition mpi_sends :: "('o, 'a) mpi_lib_scheme \<Rightarrow> 'o queues \<Rightarrow> bool" where
  "mpi_sends A outq \<longleftrightarrow>
     (\<forall>c r t bs s. \<exists>s'. mpi_send A c r t (int (length bs)) bs s = (0, s')
        \<and> (\<forall>q. outq q s' = (if q = (c, r, t) then outq q s @ [bs] else outq q s)))"

definition mpi_fifo :: "('o, 'a) mpi_lib_scheme \<Rightarrow> 'o queues \<Rightarrow> bool" where
  "mpi_fifo A inq \<longleftrightarrow>
     (\<forall>c r t n m ms s. inq (c, r, t) s = m # ms \<and> int (length m) \<le> n \<longrightarrow>
        (\<exists>s'. mpi_recv A c r t n s = Ret (0, m, s')
           \<and> (\<forall>q. inq q s' = (if q = (c, r, t) then ms else inq q s))))"

text \<open>The two MPI messages of a message.\<close>

definition mpi_frame :: "byte list \<Rightarrow> byte list list" where
  "mpi_frame bs = [le_bytes (of_nat (length bs)), bs]"

lemma int_count_of_nat: "n < 2 ^ 31 \<Longrightarrow> int_count (of_nat n) = int n"
proof -
  assume a: "n < 2 ^ 31"
  then have "int n < 2 ^ 31" by (metis of_nat_less_iff of_nat_numeral of_nat_power)
  moreover from a have "uint (of_nat n :: u64) = int n"
    using unat_of_nat_u64 [of n] by (simp add: uint_nat)
  ultimately show ?thesis unfolding int_count_def by (simp add: signed_take_bit_int_eq_self)
qed

lemma chn_send_appends:
  assumes "mpi_sends A outq" and "length bs < 2 ^ 31"
  shows "\<exists>s'. chn_send A c r t bs s = (int (length bs), None, s')
    \<and> (\<forall>q. outq q s' = (if q = (c, r, t) then outq q s @ mpi_frame bs else outq q s))"
proof -
  let ?h = "le_bytes (of_nat (length bs))"
  have "\<exists>s1. mpi_send A c r t (int (length ?h)) ?h s = (0, s1)
      \<and> (\<forall>q. outq q s1 = (if q = (c, r, t) then outq q s @ [?h] else outq q s))"
    using assms(1) unfolding mpi_sends_def by blast
  then obtain s1 where s1: "mpi_send A c r t 8 ?h s = (0, s1)"
    "\<forall>q. outq q s1 = (if q = (c, r, t) then outq q s @ [?h] else outq q s)" by auto
  obtain s2 where s2: "mpi_send A c r t (int (length bs)) bs s1 = (0, s2)"
    "\<forall>q. outq q s2 = (if q = (c, r, t) then outq q s1 @ [bs] else outq q s1)"
    using assms(1) unfolding mpi_sends_def by blast
  have "ssize_of (of_nat (length bs)) = int (length bs)" using assms(2) by (intro ssize_of_nat) simp
  with s1 s2 show ?thesis
    by (intro exI [of _ s2]) (simp add: chn_send_def int_count_of_nat [OF assms(2)] mpi_frame_def)
qed

lemma chn_probe_header:
  assumes "mpi_fifo A inq" and "inq (c, r, t) s = mpi_frame m @ rest"
  shows "\<exists>s'. chn_probe A c r t True sz s = Ret (8, of_nat (length m), None, s')
    \<and> (\<forall>q. inq q s' = (if q = (c, r, t) then m # rest else inq q s))"
proof -
  let ?h = "le_bytes (of_nat (length m))"
  have "inq (c, r, t) s = ?h # (m # rest)" "int (length ?h) \<le> 8" using assms(2) by (simp_all add: mpi_frame_def)
  with assms(1) obtain s' where "mpi_recv A c r t 8 s = Ret (0, ?h, s')"
    "\<forall>q. inq q s' = (if q = (c, r, t) then m # rest else inq q s)"
    unfolding mpi_fifo_def by metis
  then show ?thesis by (intro exI [of _ s']) (simp add: chn_probe_def chn_header_def)
qed

lemma chn_receive_payload:
  assumes "mpi_fifo A inq" and "inq (c, r, t) s = m # rest" and "length m < 2 ^ 31"
  shows "\<exists>s'. chn_receive A c r t (of_nat (length m)) s = Ret (int (length m), m, None, s')
    \<and> (\<forall>q. inq q s' = (if q = (c, r, t) then rest else inq q s))"
proof -
  obtain s' where "mpi_recv A c r t (int (length m)) s = Ret (0, m, s')"
    "\<forall>q. inq q s' = (if q = (c, r, t) then rest else inq q s)"
    using assms(1,2) unfolding mpi_fifo_def by blast
  then show ?thesis by (intro exI [of _ s']) (simp add: chn_receive_def int_count_of_nat [OF assms(3)])
qed

end
