(* ===== verification/ConnMpi.thy ===== *)
theory ConnMpi
  imports MpiLib CxxString "HOL-Library.Product_Lexorder"
begin

text \<open>
  \<open>include/protocols/mpi.hpp\<close>: \<open>HandleMPI\<close>, a rank and a tag of \<open>MPI_COMM_WORLD\<close> as the virtual members of
  a handle, and the connector \<open>ConnMPI\<close>.
  \<^item> \<open>mpi_state\<close> holds the members of \<open>ConnMPI\<close> and of its handles and the state of the library.
    \<open>connections\<close> is keyed by rank and tag, which the two sides do not agree on beyond the message that
    carries the tag.
  \<^item> \<open>throw;\<close> outside a handler ends the program: \<open>Fault Aborted\<close>.
  \<^item> The operations satisfy the contract \<open>transport\<close>.
\<close>

record 'o mpi_state =
  mpi_rank_of :: "hid \<Rightarrow> int"
  mpi_tag_of :: "hid \<Rightarrow> int"
  mpi_conns :: "(int \<times> int, hid \<times> bool) smap"
  mpi_rank :: int
  mpi_os :: 'o

type_synonym ('o, 'm, 'x) mpi_world = "(('o, 'm) mpi_state_scheme, 'x) world_scheme"

definition MPI_CONNECTION_TAG :: int where
  "MPI_CONNECTION_TAG = 0"

definition set_mpi :: "errno_t option \<Rightarrow> 'o \<Rightarrow> ('o, 'm, 'x) mpi_world \<Rightarrow> ('o, 'm, 'x) mpi_world" where
  "set_mpi e s w = (with_net (\<lambda>t. t\<lparr>mpi_os := s\<rparr>) w)\<lparr>errno := keep_errno e (errno w)\<rparr>"

lemma set_mpi_simps [simp]:
  "heap (set_mpi e s w) = heap w" "errno (set_mpi e s w) = keep_errno e (errno w)"
  "net (set_mpi e s w) = (net w)\<lparr>mpi_os := s\<rparr>" "world.more (set_mpi e s w) = world.more w"
  by (simp_all add: set_mpi_def with_net_def)

section \<open>HandleMPI\<close>

definition hmpi_send ::
  "('o, 'a) mpi_lib_scheme \<Rightarrow> hid \<Rightarrow> byte list \<Rightarrow> ('o, 'm, 'x) mpi_world
     \<Rightarrow> (int \<times> ('o, 'm, 'x) mpi_world) out" where
  "hmpi_send A h bs w =
     bnd (obj h w) (\<lambda>_.
     let (r, e, s) = chn_send A MPI_COMM_WORLD (mpi_rank_of (net w) h) (mpi_tag_of (net w) h) bs (mpi_os (net w))
     in Ret (r, set_mpi e s w))"

definition hmpi_receive ::
  "('o, 'a) mpi_lib_scheme \<Rightarrow> hid \<Rightarrow> u64 \<Rightarrow> ('o, 'm, 'x) mpi_world
     \<Rightarrow> (int \<times> byte list \<times> ('o, 'm, 'x) mpi_world) out" where
  "hmpi_receive A h n w =
     bnd (obj h w) (\<lambda>_.
     bnd (chn_receive A MPI_COMM_WORLD (mpi_rank_of (net w) h) (mpi_tag_of (net w) h) n (mpi_os (net w)))
       (\<lambda>(r, bs, e, s). Ret (r, bs, set_mpi e s w)))"

definition hmpi_probe ::
  "('o, 'a) mpi_lib_scheme \<Rightarrow> hid \<Rightarrow> bool \<Rightarrow> u64 \<Rightarrow> ('o, 'm, 'x) mpi_world
     \<Rightarrow> (int \<times> u64 \<times> ('o, 'm, 'x) mpi_world) out" where
  "hmpi_probe A h blocking sz w =
     bnd (obj h w) (\<lambda>_.
     bnd (chn_probe A MPI_COMM_WORLD (mpi_rank_of (net w) h) (mpi_tag_of (net w) h) blocking sz (mpi_os (net w)))
       (\<lambda>(r, sz, e, s). Ret (r, sz, set_mpi e s w)))"

definition hmpi_peek ::
  "('o, 'a) mpi_lib_scheme \<Rightarrow> hid \<Rightarrow> ('o, 'm, 'x) mpi_world \<Rightarrow> (bool \<times> ('o, 'm, 'x) mpi_world) out" where
  "hmpi_peek A h w =
     bnd (obj h w) (\<lambda>_.
     let (b, e, s) = chn_peek A MPI_COMM_WORLD (mpi_rank_of (net w) h) (mpi_tag_of (net w) h) (mpi_os (net w))
     in Ret (b, set_mpi e s w))"

definition hmpi_sendEOS ::
  "('o, 'a) mpi_lib_scheme \<Rightarrow> hid \<Rightarrow> ('o, 'm, 'x) mpi_world \<Rightarrow> (int \<times> ('o, 'm, 'x) mpi_world) out" where
  "hmpi_sendEOS A h w =
     bnd (obj h w) (\<lambda>_.
     let (r, s) = chn_sendEOS A MPI_COMM_WORLD (mpi_rank_of (net w) h) (mpi_tag_of (net w) h) (mpi_os (net w))
     in Ret (r, set_mpi None s w))"

section \<open>ConnMPI: starting and connecting\<close>

definition mpi_init ::
  "('o, 'a) mpi_lib_scheme \<Rightarrow> string \<Rightarrow> ('o, 'm, 'x) mpi_world \<Rightarrow> (int \<times> ('o, 'm, 'x) mpi_world) out" where
  "mpi_init A app w =
     (let ((e, provided), s) = mpi_init_thread A (mpi_os (net w))
      in if e \<noteq> 0 then Ret (-1, set_mpi (Some EINVAL) s w)
         else if provided < mpi_thread_multiple A then Ret (-1, set_mpi (Some EINVAL) s w)
         else Ret (0, with_net (\<lambda>t. t\<lparr>mpi_rank := mpi_comm_rank A s\<rparr>) (set_mpi None s w)))"

definition mpi_listen :: "string \<Rightarrow> ('o, 'm, 'x) mpi_world \<Rightarrow> (int \<times> ('o, 'm, 'x) mpi_world) out" where
  "mpi_listen s w = Ret (0, w)"

text \<open>\<open>new HandleMPI(this, rank, tag)\<close>, and \<open>connections.insert\<close>, which keeps an entry that is there.\<close>

definition new_HandleMPI ::
  "string \<Rightarrow> int \<Rightarrow> int \<Rightarrow> ('o, 'm, 'x) mpi_world \<Rightarrow> hid \<times> ('o, 'm, 'x) mpi_world" where
  "new_HandleMPI p rank tag w =
     (let (h, w) = alloc_handle p w
      in (h, with_net (\<lambda>t. t\<lparr>mpi_rank_of := (mpi_rank_of t)(h := rank), mpi_tag_of := (mpi_tag_of t)(h := tag)\<rparr>) w))"

definition mpi_insert :: "int \<Rightarrow> int \<Rightarrow> hid \<Rightarrow> ('o, 'm, 'x) mpi_world \<Rightarrow> ('o, 'm, 'x) mpi_world" where
  "mpi_insert rank tag h = with_net (\<lambda>t. t\<lparr>mpi_conns := smap_emplace (rank, tag) (h, False) (mpi_conns t)\<rparr>)"

text \<open>\<open>stoi\<close> inside \<open>try \<dots> catch(std::invalid_argument&)\<close>: another exception escapes.\<close>

definition caught :: "int out \<Rightarrow> int option out" where
  "caught m = (case m of Ret i \<Rightarrow> Ret (Some i) | Fault Invalid_argument \<Rightarrow> Ret None | Fault f \<Rightarrow> Fault f)"

definition mpi_connect ::
  "('o, 'a) mpi_lib_scheme \<Rightarrow> string \<Rightarrow> string \<Rightarrow> int \<Rightarrow> nat \<Rightarrow> ('o, 'm, 'x) mpi_world
     \<Rightarrow> (hid option \<times> ('o, 'm, 'x) mpi_world) out" where
  "mpi_connect A p dest retry timeout w =
     bnd (caught (stoi (before_colon dest))) (\<lambda>rank.
     if rank = None then Ret (None, set_errno EINVAL w)
     else bnd (caught (stoi (after_colon dest))) (\<lambda>tag.
     if tag = None then Ret (None, set_errno EINVAL w)
     else
       let rank = the rank; tag = the tag
       in if rank < 0 then Ret (None, set_errno EINVAL w)
          else if tag \<le> MPI_CONNECTION_TAG then Ret (None, set_errno EINVAL w)
          else
            let (e, s) = mpi_send A MPI_COMM_WORLD rank MPI_CONNECTION_TAG 4 (int_bytes tag) (mpi_os (net w))
            in if e \<noteq> 0 then Ret (None, set_mpi (Some ECOMM) s w)
               else let (h, w) = new_HandleMPI p rank tag (set_mpi None s w)
                    in Ret (Some h, mpi_insert rank tag h w)))"

section \<open>ConnMPI: polling\<close>

text \<open>
  The first half of \<open>update\<close>: a connection message. Its length in \<open>int\<close>s is the size of a local array,
  which must not be empty; a length that is no multiple is \<open>MPI_UNDEFINED\<close>, which is negative.
\<close>

definition mpi_check_new ::
  "('o, 'a) mpi_lib_scheme \<Rightarrow> string
     \<Rightarrow> (bool \<Rightarrow> hid \<Rightarrow> ('o, 'm, 'x) mpi_world \<Rightarrow> ('o, 'm, 'x) mpi_world out)
     \<Rightarrow> ('o, 'm, 'x) mpi_world \<Rightarrow> ('o, 'm, 'x) mpi_world out" where
  "mpi_check_new A p addinQ w =
     (let ((e, f), s) = mpi_iprobe_any A MPI_COMM_WORLD MPI_CONNECTION_TAG (mpi_os (net w))
      in if e \<noteq> 0 then Fault Aborted
         else case f of
           None \<Rightarrow> Ret (set_mpi None s w)
         | Some (source, n) \<Rightarrow>
             if n mod 4 \<noteq> 0 then Fault Out_of_bounds
             else bnd (mpi_recv A MPI_COMM_WORLD source MPI_CONNECTION_TAG (int n) s) (\<lambda>(e, header, s).
               if e \<noteq> 0 then Fault Aborted
               else if length header < 4 then Fault Out_of_bounds
               else
                 let source_tag = bytes_int (take 4 header);
                     (h, w) = new_HandleMPI p source source_tag (set_mpi None s w)
                 in addinQ True h (mpi_insert source source_tag h w)))"

text \<open>The loop over the connections.\<close>

fun mpi_poll ::
  "('o, 'a) mpi_lib_scheme \<Rightarrow> (bool \<Rightarrow> hid \<Rightarrow> ('o, 'm, 'x) mpi_world \<Rightarrow> ('o, 'm, 'x) mpi_world out)
     \<Rightarrow> (int \<times> int, hid \<times> bool) smap \<Rightarrow> ('o, 'm, 'x) mpi_world \<Rightarrow> ('o, 'm, 'x) mpi_world out" where
  "mpi_poll A addinQ [] w = Ret w"
| "mpi_poll A addinQ (((rank, tag), (h, yielded)) # cs) w =
     (if yielded then
        let ((e, flag), s) = mpi_iprobe A MPI_COMM_WORLD rank tag (mpi_os (net w)); w = set_mpi None s w
        in if e \<noteq> 0 then Fault Aborted
           else if flag then
             bnd (addinQ False h (with_net (\<lambda>t. t\<lparr>mpi_conns := smap_put (rank, tag) (h, False) (mpi_conns t)\<rparr>) w))
               (mpi_poll A addinQ cs)
           else mpi_poll A addinQ cs w
      else mpi_poll A addinQ cs w)"

definition mpi_update ::
  "('o, 'a) mpi_lib_scheme \<Rightarrow> string
     \<Rightarrow> (bool \<Rightarrow> hid \<Rightarrow> ('o, 'm, 'x) mpi_world \<Rightarrow> ('o, 'm, 'x) mpi_world out)
     \<Rightarrow> ('o, 'm, 'x) mpi_world \<Rightarrow> ('o, 'm, 'x) mpi_world out" where
  "mpi_update A p addinQ w =
     bnd (mpi_check_new A p addinQ w) (\<lambda>w. mpi_poll A addinQ (mpi_conns (net w)) w)"

section \<open>ConnMPI: notifications and termination\<close>

definition mpi_notify_close ::
  "hid \<Rightarrow> bool \<Rightarrow> bool \<Rightarrow> ('o, 'm, 'x) mpi_world \<Rightarrow> ('o, 'm, 'x) mpi_world out" where
  "mpi_notify_close h close_wr close_rd w =
     bnd (obj h w) (\<lambda>_.
     Ret (if close_rd
          then with_net (\<lambda>t. t\<lparr>mpi_conns := smap_erase (mpi_rank_of t h, mpi_tag_of t h) (mpi_conns t)\<rparr>) w
          else w))"

definition mpi_notify_yield :: "hid \<Rightarrow> ('o, 'm, 'x) mpi_world \<Rightarrow> ('o, 'm, 'x) mpi_world out" where
  "mpi_notify_yield h w =
     bnd (obj h w) (\<lambda>_.
     let k = (mpi_rank_of (net w) h, mpi_tag_of (net w) h)
     in case smap_get (mpi_conns (net w)) k of
          None \<Rightarrow> Ret w
        | Some (h', _) \<Rightarrow> Ret (with_net (\<lambda>t. t\<lparr>mpi_conns := smap_put k (h', True) (mpi_conns t)\<rparr>) w))"

definition mpi_vtable :: "('o, 'a) mpi_lib_scheme \<Rightarrow> ('o, 'm, 'x) mpi_world vtable" where
  "mpi_vtable A = \<lparr>vt_send = hmpi_send A, vt_probe = hmpi_probe A, vt_receive = hmpi_receive A,
     vt_sendEOS = hmpi_sendEOS A, vt_peek = hmpi_peek A, vt_notify_close = mpi_notify_close,
     vt_notify_yield = mpi_notify_yield\<rparr>"

definition mpi_end ::
  "nat \<Rightarrow> ('o, 'a) mpi_lib_scheme \<Rightarrow> bool \<Rightarrow> ('o, 'm, 'x) mpi_world \<Rightarrow> ('o, 'm, 'x) mpi_world out" where
  "mpi_end c A blockflag w =
     bnd (each_handle (\<lambda>h. setAsClosed c (mpi_vtable A) h True) (map (fst \<circ> snd) (mpi_conns (net w))) w) (\<lambda>w.
     Ret (set_mpi None (mpi_finalize A (mpi_os (net w))) w))"

interpretation mpi: transport "mpi_vtable A" for A
  by unfold_locales
    (auto simp: mpi_vtable_def hmpi_send_def hmpi_probe_def hmpi_receive_def hmpi_sendEOS_def
      mpi_notify_close_def mpi_notify_yield_def bnd_Ret_conv Let_def split: if_splits prod.splits option.splits)

end
