(* ===== verification/ConnMpip2p.thy ===== *)
theory ConnMpip2p
  imports MpiLib
begin

text \<open>
  \<open>include/protocols/mpip2p.hpp\<close>: \<open>HandleMPIP2P\<close>, a rank of an intercommunicator as the virtual members of a
  handle, and the connector \<open>ConnMPIP2P\<close>, with the program \<open>stop_accept.cpp\<close> that ends its thread.
  \<^item> \<open>p2p_lib\<close> adds the calls of MPI for dynamic processes. The C functions throw nothing, so the handlers
    around them are never entered; \<open>mpi_lookup_name\<close> is \<open>None\<close> when the buffer is left as it was.
  \<^item> \<open>p2p_state\<close> holds the members of the connector and of its handles. The accepting thread is a
    sequence of steps: \<open>p2p_thread_start\<close>, then \<open>p2p_thread_step\<close> for every iteration of its loop.
  \<^item> \<open>connect\<close> has another signature than \<open>ConnType::connect\<close>, so the class stays abstract: there is no
    \<open>conn\<close> for it. The operations satisfy the contract \<open>transport\<close>.
\<close>

record 'o p2p_lib = "'o mpi_lib" +
  mpi_open_port :: "'o \<Rightarrow> string \<times> 'o"
  mpi_publish_name :: "string \<Rightarrow> string \<Rightarrow> 'o \<Rightarrow> 'o"
  mpi_lookup_name :: "string \<Rightarrow> 'o \<Rightarrow> string option \<times> 'o"
  mpi_comm_connect :: "string \<Rightarrow> 'o \<Rightarrow> (int \<times> nat) \<times> 'o"
  mpi_comm_accept :: "string \<Rightarrow> 'o \<Rightarrow> (int \<times> nat) \<times> 'o"
  mpi_comm_remote_size :: "nat \<Rightarrow> 'o \<Rightarrow> nat"
  mpi_comm_disconnect :: "nat \<Rightarrow> 'o \<Rightarrow> 'o"
  mpi_comm_spawn :: "string \<Rightarrow> string \<Rightarrow> 'o \<Rightarrow> int \<times> 'o"
  mpi_unpublish_name :: "string \<Rightarrow> string \<Rightarrow> 'o \<Rightarrow> 'o"
  mpi_close_port :: "string \<Rightarrow> 'o \<Rightarrow> 'o"

record 'o p2p_state =
  p2p_rank_of :: "hid \<Rightarrow> int"
  server_comm :: "hid \<Rightarrow> nat"
  p2p_conns :: "(hid, bool) smap"
  comm_sizes :: "(nat, int) smap"
  portname :: string
  published_label :: string
  p2p_rank :: int
  finalized :: bool
  p2p_listening :: bool
  p2p_os :: 'o

type_synonym ('o, 'm, 'x) p2p_world = "(('o, 'm) p2p_state_scheme, 'x) world_scheme"

definition MPIP2P_STOP_PROCESS :: string where
  "MPIP2P_STOP_PROCESS = ''stop_accept''"

definition set_p2p :: "errno_t option \<Rightarrow> 'o \<Rightarrow> ('o, 'm, 'x) p2p_world \<Rightarrow> ('o, 'm, 'x) p2p_world" where
  "set_p2p e s w = (with_net (\<lambda>t. t\<lparr>p2p_os := s\<rparr>) w)\<lparr>errno := keep_errno e (errno w)\<rparr>"

lemma set_p2p_simps [simp]:
  "heap (set_p2p e s w) = heap w" "errno (set_p2p e s w) = keep_errno e (errno w)"
  "net (set_p2p e s w) = (net w)\<lparr>p2p_os := s\<rparr>" "world.more (set_p2p e s w) = world.more w"
  by (simp_all add: set_p2p_def with_net_def)

section \<open>HandleMPIP2P\<close>

definition p2p_send ::
  "('o, 'a) mpi_lib_scheme \<Rightarrow> hid \<Rightarrow> byte list \<Rightarrow> ('o, 'm, 'x) p2p_world
     \<Rightarrow> (int \<times> ('o, 'm, 'x) p2p_world) out" where
  "p2p_send A h bs w =
     bnd (obj h w) (\<lambda>_.
     let (r, e, s) = chn_send A (server_comm (net w) h) (p2p_rank_of (net w) h) 0 bs (p2p_os (net w))
     in Ret (r, set_p2p e s w))"

definition p2p_receive ::
  "('o, 'a) mpi_lib_scheme \<Rightarrow> hid \<Rightarrow> u64 \<Rightarrow> ('o, 'm, 'x) p2p_world
     \<Rightarrow> (int \<times> byte list \<times> ('o, 'm, 'x) p2p_world) out" where
  "p2p_receive A h n w =
     bnd (obj h w) (\<lambda>_.
     bnd (chn_receive A (server_comm (net w) h) (p2p_rank_of (net w) h) 0 n (p2p_os (net w)))
       (\<lambda>(r, bs, e, s). Ret (r, bs, set_p2p e s w)))"

definition p2p_probe ::
  "('o, 'a) mpi_lib_scheme \<Rightarrow> hid \<Rightarrow> bool \<Rightarrow> u64 \<Rightarrow> ('o, 'm, 'x) p2p_world
     \<Rightarrow> (int \<times> u64 \<times> ('o, 'm, 'x) p2p_world) out" where
  "p2p_probe A h blocking sz w =
     bnd (obj h w) (\<lambda>_.
     bnd (chn_probe A (server_comm (net w) h) (p2p_rank_of (net w) h) 0 blocking sz (p2p_os (net w)))
       (\<lambda>(r, sz, e, s). Ret (r, sz, set_p2p e s w)))"

text \<open>\<open>peek\<close> looks at \<open>MPI_COMM_WORLD\<close>.\<close>

definition p2p_peek ::
  "('o, 'a) mpi_lib_scheme \<Rightarrow> hid \<Rightarrow> ('o, 'm, 'x) p2p_world \<Rightarrow> (bool \<times> ('o, 'm, 'x) p2p_world) out" where
  "p2p_peek A h w =
     bnd (obj h w) (\<lambda>_.
     let (b, e, s) = chn_peek A MPI_COMM_WORLD (p2p_rank_of (net w) h) 0 (p2p_os (net w))
     in Ret (b, set_p2p e s w))"

definition p2p_sendEOS ::
  "('o, 'a) mpi_lib_scheme \<Rightarrow> hid \<Rightarrow> ('o, 'm, 'x) p2p_world \<Rightarrow> (int \<times> ('o, 'm, 'x) p2p_world) out" where
  "p2p_sendEOS A h w =
     bnd (obj h w) (\<lambda>_.
     let (r, s) = chn_sendEOS A (server_comm (net w) h) (p2p_rank_of (net w) h) 0 (p2p_os (net w))
     in Ret (r, set_p2p None s w))"

section \<open>ConnMPIP2P: starting and listening\<close>

definition p2p_init ::
  "('o, 'a) mpi_lib_scheme \<Rightarrow> string \<Rightarrow> ('o, 'm, 'x) p2p_world \<Rightarrow> (int \<times> ('o, 'm, 'x) p2p_world) out" where
  "p2p_init A app w =
     (let ((e, provided), s) = mpi_init_thread A (p2p_os (net w))
      in if e \<noteq> 0 then Ret (-1, set_p2p (Some EINVAL) s w)
         else if provided < mpi_thread_multiple A then Ret (-1, set_p2p (Some EINVAL) s w)
         else Ret (0, with_net (\<lambda>t. t\<lparr>p2p_rank := mpi_comm_rank A s\<rparr>) (set_p2p None s w)))"

definition p2p_listen ::
  "('o, 'a) p2p_lib_scheme \<Rightarrow> string \<Rightarrow> ('o, 'm, 'x) p2p_world \<Rightarrow> (int \<times> ('o, 'm, 'x) p2p_world) out" where
  "p2p_listen A label w =
     (let w = with_net (\<lambda>t. t\<lparr>published_label := label\<rparr>) w; (port, s) = mpi_open_port A (p2p_os (net w))
      in Ret (0, with_net (\<lambda>t. t\<lparr>portname := port\<rparr>) (set_p2p None s w)))"

definition p2p_thread_start ::
  "('o, 'a) p2p_lib_scheme \<Rightarrow> ('o, 'm, 'x) p2p_world \<Rightarrow> ('o, 'm, 'x) p2p_world" where
  "p2p_thread_start A w =
     (let w = with_net (\<lambda>t. t\<lparr>p2p_listening := True\<rparr>) w; t = net w
      in set_p2p None (mpi_publish_name A (published_label t) (portname t) (p2p_os t)) w)"

definition new_HandleMPIP2P ::
  "string \<Rightarrow> int \<Rightarrow> nat \<Rightarrow> ('o, 'm, 'x) p2p_world \<Rightarrow> hid \<times> ('o, 'm, 'x) p2p_world" where
  "new_HandleMPIP2P p rank c w =
     (let (h, w) = alloc_handle p w
      in (h, with_net (\<lambda>t. t\<lparr>p2p_rank_of := (p2p_rank_of t)(h := rank), server_comm := (server_comm t)(h := c)\<rparr>) w))"

text \<open>The loop over the ranks of an accepted communicator, \<open>n\<close> of them from \<open>i\<close> on.\<close>

fun p2p_handles ::
  "string \<Rightarrow> (bool \<Rightarrow> hid \<Rightarrow> ('o, 'm, 'x) p2p_world \<Rightarrow> ('o, 'm, 'x) p2p_world out) \<Rightarrow> nat \<Rightarrow> int \<Rightarrow> nat
     \<Rightarrow> ('o, 'm, 'x) p2p_world \<Rightarrow> ('o, 'm, 'x) p2p_world out" where
  "p2p_handles p addinQ c i 0 w = Ret w"
| "p2p_handles p addinQ c i (Suc n) w =
     (let (h, w) = new_HandleMPIP2P p i c w;
          w = with_net (\<lambda>t. t\<lparr>p2p_conns := smap_emplace h False (p2p_conns t)\<rparr>) w
      in bnd (addinQ True h w) (p2p_handles p addinQ c (i + 1) n))"

text \<open>The body of the loop of \<open>listen_threadF\<close>, and an iteration of it.\<close>

definition p2p_accept ::
  "('o, 'a) p2p_lib_scheme \<Rightarrow> string \<Rightarrow> (bool \<Rightarrow> hid \<Rightarrow> ('o, 'm, 'x) p2p_world \<Rightarrow> ('o, 'm, 'x) p2p_world out)
     \<Rightarrow> ('o, 'm, 'x) p2p_world \<Rightarrow> ('o, 'm, 'x) p2p_world out" where
  "p2p_accept A p addinQ w =
     (let ((e, client), s) = mpi_comm_accept A (portname (net w)) (p2p_os (net w)); w = set_p2p None s w
      in if e \<noteq> 0 then Ret w
         else
           let n = mpi_comm_remote_size A client s
           in p2p_handles p addinQ client 0 n
                (with_net (\<lambda>t. t\<lparr>comm_sizes := smap_emplace client (int n) (comm_sizes t)\<rparr>) w))"

definition p2p_thread_step ::
  "('o, 'a) p2p_lib_scheme \<Rightarrow> string \<Rightarrow> (bool \<Rightarrow> hid \<Rightarrow> ('o, 'm, 'x) p2p_world \<Rightarrow> ('o, 'm, 'x) p2p_world out)
     \<Rightarrow> ('o, 'm, 'x) p2p_world \<Rightarrow> ('o, 'm, 'x) p2p_world out" where
  "p2p_thread_step A p addinQ w = (if finalized (net w) then Ret w else p2p_accept A p addinQ w)"

section \<open>ConnMPIP2P: polling and connecting\<close>

fun p2p_poll ::
  "('o, 'a) mpi_lib_scheme \<Rightarrow> (bool \<Rightarrow> hid \<Rightarrow> ('o, 'm, 'x) p2p_world \<Rightarrow> ('o, 'm, 'x) p2p_world out)
     \<Rightarrow> (hid, bool) smap \<Rightarrow> ('o, 'm, 'x) p2p_world \<Rightarrow> ('o, 'm, 'x) p2p_world out" where
  "p2p_poll A addinQ [] w = Ret w"
| "p2p_poll A addinQ ((h, to_manage) # cs) w =
     (if to_manage then
        bnd (obj h w) (\<lambda>_.
        let ((e, flag), s) = mpi_iprobe A (server_comm (net w) h) (p2p_rank_of (net w) h) 0 (p2p_os (net w));
            w = set_p2p None s w
        in if e \<noteq> 0 then Fault Aborted
           else if flag then
             bnd (addinQ False h (with_net (\<lambda>t. t\<lparr>p2p_conns := smap_put h False (p2p_conns t)\<rparr>) w))
               (p2p_poll A addinQ cs)
           else p2p_poll A addinQ cs w)
      else p2p_poll A addinQ cs w)"

definition p2p_update ::
  "('o, 'a) mpi_lib_scheme \<Rightarrow> (bool \<Rightarrow> hid \<Rightarrow> ('o, 'm, 'x) p2p_world \<Rightarrow> ('o, 'm, 'x) p2p_world out)
     \<Rightarrow> ('o, 'm, 'x) p2p_world \<Rightarrow> ('o, 'm, 'x) p2p_world out" where
  "p2p_update A addinQ w = p2p_poll A addinQ (p2p_conns (net w)) w"

definition p2p_connect ::
  "('o, 'a) p2p_lib_scheme \<Rightarrow> string \<Rightarrow> string \<Rightarrow> ('o, 'm, 'x) p2p_world
     \<Rightarrow> (hid option \<times> ('o, 'm, 'x) p2p_world) out" where
  "p2p_connect A p address w =
     (let (port, s) = mpi_lookup_name A address (p2p_os (net w));
          w = with_net (\<lambda>t. t\<lparr>portname := (case port of Some n \<Rightarrow> n | None \<Rightarrow> portname t)\<rparr>) (set_p2p None s w);
          ((e, c), s) = mpi_comm_connect A (portname (net w)) (p2p_os (net w))
      in if e \<noteq> 0 then Ret (None, set_p2p (Some ECOMM) s w)
         else
           let (h, w) = new_HandleMPIP2P p 0 c (set_p2p None s w)
           in Ret (Some h, with_net (\<lambda>t. t\<lparr>p2p_conns := smap_put h False (p2p_conns t)\<rparr>) w))"

section \<open>ConnMPIP2P: notifications and termination\<close>

text \<open>The reading side is closed: one handle less on its communicator.\<close>

definition p2p_release ::
  "('o, 'a) p2p_lib_scheme \<Rightarrow> nat \<Rightarrow> ('o, 'm, 'x) p2p_world \<Rightarrow> ('o, 'm, 'x) p2p_world" where
  "p2p_release A c w =
     (case smap_get (comm_sizes (net w)) c of
        None \<Rightarrow> w
      | Some n \<Rightarrow>
          let size1 = n - 1; w = with_net (\<lambda>t. t\<lparr>comm_sizes := smap_put c size1 (comm_sizes t)\<rparr>) w
          in if size1 = 0
             then set_p2p None (mpi_comm_disconnect A c (p2p_os (net w)))
               (with_net (\<lambda>t. t\<lparr>comm_sizes := smap_erase c (comm_sizes t)\<rparr>) w)
             else w)"

definition p2p_notify_close ::
  "('o, 'a) p2p_lib_scheme \<Rightarrow> hid \<Rightarrow> bool \<Rightarrow> bool \<Rightarrow> ('o, 'm, 'x) p2p_world \<Rightarrow> ('o, 'm, 'x) p2p_world out" where
  "p2p_notify_close A h close_wr close_rd w =
     (if \<not> smap_has (p2p_conns (net w)) h then Ret w
      else if close_rd then
        bnd (obj h w) (\<lambda>_.
        Ret (p2p_release A (server_comm (net w) h) (with_net (\<lambda>t. t\<lparr>p2p_conns := smap_erase h (p2p_conns t)\<rparr>) w)))
      else Ret w)"

definition p2p_notify_yield :: "hid \<Rightarrow> ('o, 'm, 'x) p2p_world \<Rightarrow> ('o, 'm, 'x) p2p_world out" where
  "p2p_notify_yield h w =
     Ret (if smap_has (p2p_conns (net w)) h
          then with_net (\<lambda>t. t\<lparr>p2p_conns := smap_put h True (p2p_conns t)\<rparr>) w else w)"

definition p2p_vtable :: "('o, 'a) p2p_lib_scheme \<Rightarrow> ('o, 'm, 'x) p2p_world vtable" where
  "p2p_vtable A = \<lparr>vt_send = p2p_send A, vt_probe = p2p_probe A, vt_receive = p2p_receive A,
     vt_sendEOS = p2p_sendEOS A, vt_peek = p2p_peek A, vt_notify_close = p2p_notify_close A,
     vt_notify_yield = p2p_notify_yield\<rparr>"

text \<open>
  \<open>end\<close>: the accepting thread is inside an iteration; \<open>stop_accept\<close> connects to the port, which lets it
  finish this iteration, and \<open>join\<close> returns after it, since \<open>finalized\<close> is set.
\<close>

definition p2p_end ::
  "nat \<Rightarrow> ('o, 'a) p2p_lib_scheme \<Rightarrow> string
     \<Rightarrow> (bool \<Rightarrow> hid \<Rightarrow> ('o, 'm, 'x) p2p_world \<Rightarrow> ('o, 'm, 'x) p2p_world out)
     \<Rightarrow> bool \<Rightarrow> ('o, 'm, 'x) p2p_world \<Rightarrow> ('o, 'm, 'x) p2p_world out" where
  "p2p_end c A p addinQ blockflag w =
     bnd (each_handle (\<lambda>h. setAsClosed c (p2p_vtable A) h True) (map fst (filter snd (p2p_conns (net w)))) w) (\<lambda>w.
     let w = with_net (\<lambda>t. t\<lparr>finalized := True\<rparr>) w
     in bnd (if p2p_listening (net w) then
               let (_, s) = mpi_comm_spawn A MPIP2P_STOP_PROCESS (portname (net w)) (p2p_os (net w))
               in bnd (p2p_accept A p addinQ (set_p2p None s w)) (\<lambda>w.
                  let t = net w
                  in Ret (set_p2p None (mpi_close_port A (portname t)
                       (mpi_unpublish_name A (published_label t) (portname t) (p2p_os t))) w))
             else Ret w) (\<lambda>w.
        Ret (set_p2p None (mpi_finalize A (p2p_os (net w))) w)))"

lemma p2p_release_heap [simp]: "heap (p2p_release A c w) = heap w"
  by (simp add: p2p_release_def Let_def split: option.splits)

interpretation p2p: transport "p2p_vtable A" for A
  by unfold_locales
    (auto simp: p2p_vtable_def p2p_send_def p2p_probe_def p2p_receive_def p2p_sendEOS_def
      p2p_notify_close_def p2p_notify_yield_def bnd_Ret_conv Let_def split: if_splits prod.splits)

end
