(* ===== verification/MpiProps.thy ===== *)
theory MpiProps
  imports ConnMpi ConnMpip2p CollProps TcpLifecycle
begin

text \<open>
  The transports over MPI: on a library that does not let messages overtake, the handles of a team provide
  what the collectives rely on; the tables of the two connectors, where connections that share a rank and
  a tag share an entry, and a communicator is given up with the last of its handles.
\<close>

section \<open>MPI carries the collectives\<close>

definition mpi_chan :: "('o, 'm) mpi_state_scheme \<Rightarrow> hid \<Rightarrow> nat \<times> int \<times> int" where
  "mpi_chan t h = (MPI_COMM_WORLD, mpi_rank_of t h, mpi_tag_of t h)"

definition own_channels :: "hid set \<Rightarrow> ('o, 'm) mpi_state_scheme \<Rightarrow> bool" where
  "own_channels P t \<longleftrightarrow> inj_on (mpi_chan t) P"

definition mpi_inbox :: "'o queues \<Rightarrow> ('o, 'm) mpi_state_scheme \<Rightarrow> hid \<Rightarrow> byte list list \<Rightarrow> bool" where
  "mpi_inbox inq t h ms \<longleftrightarrow> (\<exists>rest. inq (mpi_chan t h) (mpi_os t) = concat (map mpi_frame ms) @ rest)"

lemma mpi_chan_os [simp]: "mpi_chan (t\<lparr>mpi_os := s\<rparr>) h = mpi_chan t h"
  by (simp add: mpi_chan_def)

lemma own_channels_os [simp]: "own_channels P (t\<lparr>mpi_os := s\<rparr>) = own_channels P t"
  by (simp add: own_channels_def cong: inj_on_cong)

lemma own_channelsD: "own_channels P t \<Longrightarrow> h \<in> P \<Longrightarrow> k \<in> P \<Longrightarrow> mpi_chan t h = mpi_chan t k \<longleftrightarrow> h = k"
  by (auto simp: own_channels_def dest: inj_onD)

lemma mpi_sends_to:
  assumes "mpi_sends A outq"
  shows "sends_to (mpi_vtable A :: ('o, 'm, 'x) mpi_world vtable) (own_channels P) mpi_frame
    (\<lambda>t h. outq (mpi_chan t h) (mpi_os t)) P"
  unfolding sends_to_def
proof (intro ballI allI impI)
  fix h and bs :: "byte list" and w :: "('o, 'm, 'x) mpi_world"
  assume h: "h \<in> P" and a: "own_channels P (net w) \<and> heap w h \<noteq> None \<and> length bs < 2 ^ 31"
  then obtain ob where ob: "heap w h = Some ob" by auto
  from chn_send_appends [OF assms, of bs MPI_COMM_WORLD "mpi_rank_of (net w) h" "mpi_tag_of (net w) h" "mpi_os (net w)"] a
  obtain s where s: "chn_send A MPI_COMM_WORLD (mpi_rank_of (net w) h) (mpi_tag_of (net w) h) bs (mpi_os (net w)) =
      (int (length bs), None, s)"
    "\<forall>q. outq q s = (if q = mpi_chan (net w) h then outq q (mpi_os (net w)) @ mpi_frame bs else outq q (mpi_os (net w)))"
    unfolding mpi_chan_def by blast
  have out: "outq (mpi_chan (net w) k) s = (if k = h then outq (mpi_chan (net w) k) (mpi_os (net w)) @ mpi_frame bs
      else outq (mpi_chan (net w) k) (mpi_os (net w)))" if "k \<in> P" for k
    using s(2) own_channelsD [of P "net w" k h] a h that by (simp del: split_paired_All)
  from s(1) out ob a show "\<exists>w'. vt_send (mpi_vtable A) h bs w = Ret (int (length bs), w') \<and> heap w' = heap w
      \<and> own_channels P (net w') \<and> (\<forall>k \<in> P. outq (mpi_chan (net w') k) (mpi_os (net w')) =
          (if k = h then outq (mpi_chan (net w) k) (mpi_os (net w)) @ mpi_frame bs
           else outq (mpi_chan (net w) k) (mpi_os (net w))))"
    by (intro exI [of _ "set_mpi None s w"])
      (auto simp: mpi_vtable_def hmpi_send_def obj_Some)
qed

lemma mpi_delivers:
  assumes "mpi_fifo A inq"
  shows "delivers (mpi_vtable A :: ('o, 'm, 'x) mpi_world vtable) (own_channels P) (mpi_inbox inq) P"
  unfolding delivers_def
proof (intro ballI allI impI)
  fix h m ms sz and w :: "('o, 'm, 'x) mpi_world"
  assume h: "h \<in> P" and a: "own_channels P (net w) \<and> heap w h \<noteq> None \<and> mpi_inbox inq (net w) h (m # ms)
    \<and> m \<noteq> [] \<and> length m < 2 ^ 31"
  let ?r = "mpi_rank_of (net w) h" and ?t = "mpi_tag_of (net w) h" and ?q = "mpi_chan (net w) h"
  from a obtain ob rest where ob: "heap w h = Some ob"
    and inq: "inq (MPI_COMM_WORLD, ?r, ?t) (mpi_os (net w)) = mpi_frame m @ (concat (map mpi_frame ms) @ rest)"
    by (auto simp: mpi_inbox_def mpi_chan_def)
  from chn_probe_header [OF assms inq, of sz] obtain s1 where
    s1: "chn_probe A MPI_COMM_WORLD ?r ?t True sz (mpi_os (net w)) = Ret (8, of_nat (length m), None, s1)"
    "\<forall>q. inq q s1 = (if q = ?q then m # (concat (map mpi_frame ms) @ rest) else inq q (mpi_os (net w)))"
    unfolding mpi_chan_def by blast
  have "inq (MPI_COMM_WORLD, ?r, ?t) s1 = m # (concat (map mpi_frame ms) @ rest)"
    using s1(2) by (simp add: mpi_chan_def)
  from chn_receive_payload [OF assms this] a obtain s2 where
    s2: "chn_receive A MPI_COMM_WORLD ?r ?t (of_nat (length m)) s1 = Ret (int (length m), m, None, s2)"
    "\<forall>q. inq q s2 = (if q = ?q then concat (map mpi_frame ms) @ rest else inq q s1)"
    unfolding mpi_chan_def by blast
  have own: "inq ?q s2 = concat (map mpi_frame ms) @ rest"
    using s2(2) by (simp del: split_paired_All)
  have others: "inq (mpi_chan (net w) k) s2 = inq (mpi_chan (net w) k) (mpi_os (net w))" if "k \<in> P" "k \<noteq> h" for k
    using s1(2) s2(2) own_channelsD [of P "net w" k h] a h that by (simp del: split_paired_All)
  have "\<exists>w2. vt_receive (mpi_vtable A) h (of_nat (length m)) (put_obj h ob' (set_mpi None s1 w)) =
        Ret (int (length m), m, w2) \<and> heap w2 = (heap w)(h \<mapsto> ob') \<and> own_channels P (net w2)
      \<and> mpi_inbox inq (net w2) h ms
      \<and> (\<forall>k \<in> P. \<forall>ns. k \<noteq> h \<and> mpi_inbox inq (net w) k ns \<longrightarrow> mpi_inbox inq (net w2) k ns)" for ob'
    using s2(1) own others a
    by (intro exI [of _ "set_mpi None s2 (put_obj h ob' (set_mpi None s1 w))"])
      (auto simp: mpi_vtable_def hmpi_receive_def obj_Some mpi_inbox_def put_obj_def)
  with s1(1) ob show "\<exists>w1. vt_probe (mpi_vtable A) h True sz w = Ret (8, of_nat (length m), w1)
      \<and> heap w1 = heap w \<and> (\<forall>ob. \<exists>w2. vt_receive (mpi_vtable A) h (of_nat (length m)) (put_obj h ob w1) =
          Ret (int (length m), m, w2) \<and> heap w2 = (heap w)(h \<mapsto> ob) \<and> own_channels P (net w2)
        \<and> mpi_inbox inq (net w2) h ms
        \<and> (\<forall>k \<in> P. \<forall>ns. k \<noteq> h \<and> mpi_inbox inq (net w) k ns \<longrightarrow> mpi_inbox inq (net w2) k ns))"
    by (intro exI [of _ "set_mpi None s1 w"]) (auto simp: mpi_vtable_def hmpi_probe_def obj_Some)
qed

text \<open>Over MPI, when a send appends to its channel and a receive takes the oldest message of its channel,
  handles with different ranks or tags provide what the collectives rely on: a message below \<open>2^31\<close> bytes
  goes to the channel of its handle only, and what a member has sent is delivered message by message.\<close>

theorem mpi_carries_collectives:
  assumes "mpi_sends A outq" and "mpi_fifo A inq"
  shows "sends_to (mpi_vtable A) (own_channels P) mpi_frame (\<lambda>t h. outq (mpi_chan t h) (mpi_os t)) P
    \<and> delivers (mpi_vtable A) (own_channels P) (mpi_inbox inq) P"
  using mpi_sends_to [OF assms(1)] mpi_delivers [OF assms(2)] by (rule conjI)

text \<open>A library with a queue for every channel and direction.\<close>

type_synonym mpi_qs = "(nat \<times> int \<times> int \<Rightarrow> byte list list) \<times> (nat \<times> int \<times> int \<Rightarrow> byte list list)"

definition sample_mpi :: "mpi_qs mpi_lib" where
  "sample_mpi = \<lparr>mpi_thread_multiple = 3, mpi_init_thread = (\<lambda>s. ((0, 3), s)), mpi_comm_rank = (\<lambda>s. 0),
     mpi_send = (\<lambda>c r t n bs s. (0, (fst s, (snd s)((c, r, t) := snd s (c, r, t) @ [take (nat n) bs])))),
     mpi_recv = (\<lambda>c r t n s. case fst s (c, r, t) of
        [] \<Rightarrow> Fault No_return
      | m # ms \<Rightarrow> if int (length m) \<le> n then Ret (0, m, ((fst s)((c, r, t) := ms), snd s)) else Ret (15, [], s)),
     mpi_iprobe = (\<lambda>c r t s. ((0, fst s (c, r, t) \<noteq> []), s)),
     mpi_iprobe_any = (\<lambda>c t s. ((0, None), s)), mpi_finalize = (\<lambda>s. s)\<rparr>"

lemma sample_mpi_sends: "mpi_sends sample_mpi (\<lambda>q s. snd s q)"
  by (simp add: mpi_sends_def sample_mpi_def)

lemma sample_mpi_fifo: "mpi_fifo sample_mpi (\<lambda>q s. fst s q)"
  by (auto simp: mpi_fifo_def sample_mpi_def)

theorem mpi_carries_collectives_witness:
  "sends_to (mpi_vtable sample_mpi :: (mpi_qs, unit, unit) mpi_world vtable) (own_channels {1, 2}) mpi_frame
     (\<lambda>t h. snd (mpi_os t) (mpi_chan t h)) {1, 2}"
  using mpi_carries_collectives [OF sample_mpi_sends sample_mpi_fifo] by (rule conjunct1)

section \<open>The table of ConnMPI\<close>

text \<open>The reports of a round: the connections \<open>ks\<close> are reset and handed to \<open>addinQ\<close>.\<close>

fun mpi_report ::
  "(bool \<Rightarrow> hid \<Rightarrow> ('o, 'm, 'x) mpi_world \<Rightarrow> ('o, 'm, 'x) mpi_world out)
     \<Rightarrow> ((int \<times> int) \<times> hid) list \<Rightarrow> ('o, 'm, 'x) mpi_world \<Rightarrow> ('o, 'm, 'x) mpi_world out" where
  "mpi_report addinQ [] w = Ret w"
| "mpi_report addinQ ((k, h) # ks) w =
     bnd (addinQ False h (with_net (\<lambda>t. t\<lparr>mpi_conns := smap_put k (h, False) (mpi_conns t)\<rparr>) w)) (mpi_report addinQ ks)"

definition mpi_pending :: "'o queues \<Rightarrow> 'o \<Rightarrow> (int \<times> int) \<times> hid \<times> bool \<Rightarrow> bool" where
  "mpi_pending inq s c \<longleftrightarrow> (case c of ((r, t), h, yielded) \<Rightarrow> yielded \<and> inq (MPI_COMM_WORLD, r, t) s \<noteq> [])"

lemma mpi_pending_simp [simp]:
  "mpi_pending inq s ((r, t), h, y) \<longleftrightarrow> y \<and> inq (MPI_COMM_WORLD, r, t) s \<noteq> []"
  by (simp add: mpi_pending_def)

lemma set_mpi_same [simp]: "set_mpi None (mpi_os (net w)) w = w"
  by (simp add: set_mpi_def with_net_def keep_errno_def)

lemma mpi_poll_reports:
  assumes "\<And>r t s. mpi_iprobe A MPI_COMM_WORLD r t s = ((0, inq (MPI_COMM_WORLD, r, t) s \<noteq> []), s)"
    and "\<And>h v v'. addinQ False h v = Ret v' \<Longrightarrow> mpi_os (net v') = mpi_os (net v)"
  shows "mpi_poll A addinQ cs w =
    mpi_report addinQ (map (\<lambda>(k, h, y). (k, h)) (filter (mpi_pending inq (mpi_os (net w))) cs)) w"
proof (induction cs arbitrary: w)
  case (Cons c cs)
  obtain r t h y where c: "c = ((r, t), h, y)" by (metis surj_pair)
  show ?case
  proof (cases "mpi_pending inq (mpi_os (net w)) c")
    case True
    let ?w = "with_net (\<lambda>x. x\<lparr>mpi_conns := smap_put (r, t) (h, False) (mpi_conns x)\<rparr>) w"
    have "bnd (addinQ False h ?w) (mpi_poll A addinQ cs) = bnd (addinQ False h ?w)
        (mpi_report addinQ (map (\<lambda>(k, h, y). (k, h)) (filter (mpi_pending inq (mpi_os (net w))) cs)))"
    proof (rule bnd_eqI)
      fix v
      assume "addinQ False h ?w = Ret v"
      with assms(2) have "mpi_os (net v) = mpi_os (net w)" by fastforce
      with Cons.IH [of v] show "mpi_poll A addinQ cs v =
        mpi_report addinQ (map (\<lambda>(k, h, y). (k, h)) (filter (mpi_pending inq (mpi_os (net w))) cs)) v" by simp
    qed
    with True c assms(1) show ?thesis by simp
  next
    case False
    with Cons.IH [of w] c assms(1) show ?thesis by simp
  qed
qed simp

text \<open>When no connection is requested, a round of \<open>ConnMPI::update\<close> reports exactly the handles that have
  been yielded and have a message, each once, in the order of rank and tag, and takes each out of the
  polling before it is reported; all other connections are left as they are.\<close>

theorem mpi_update_reports_pending:
  assumes "\<And>r t s. mpi_iprobe A MPI_COMM_WORLD r t s = ((0, inq (MPI_COMM_WORLD, r, t) s \<noteq> []), s)"
    and "\<And>h v v'. addinQ False h v = Ret v' \<Longrightarrow> mpi_os (net v') = mpi_os (net v)"
    and "mpi_iprobe_any A MPI_COMM_WORLD MPI_CONNECTION_TAG (mpi_os (net w)) = ((0, None), mpi_os (net w))"
  shows "mpi_update A p addinQ w =
    mpi_report addinQ (map (\<lambda>(k, h, y). (k, h)) (filter (mpi_pending inq (mpi_os (net w))) (mpi_conns (net w)))) w"
  using assms(3) by (simp add: mpi_update_def mpi_check_new_def mpi_poll_reports [where inq = inq, OF assms(1,2)])

text \<open>A process with two connections to rank 1; what has been reported is kept beside the world.\<close>

definition mpi_pair :: "(mpi_qs mpi_state, hid list) world_scheme" where
  "mpi_pair = \<lparr>heap = (\<lambda>h. if h < 10 then Some (new_handle ''MPI'') else None), errno = OK_errno, next_hid = 10,
     net = \<lparr>mpi_rank_of = (\<lambda>_. 1), mpi_tag_of = (\<lambda>h. if h = 7 then 5 else 6),
       mpi_conns = [((1, 5), (7, True)), ((1, 6), (8, True))], mpi_rank = 0,
       mpi_os = ((\<lambda>q. if q = (0, 1, 6) then [[1]] else []), (\<lambda>q. []))\<rparr>, \<dots> = []\<rparr>"

definition log_ready :: "bool \<Rightarrow> hid \<Rightarrow> (mpi_qs, unit, hid list) mpi_world \<Rightarrow> (mpi_qs, unit, hid list) mpi_world out" where
  "log_ready b h w = Ret (world.more_update (\<lambda>hs. hs @ [h]) w)"

theorem mpi_update_reports_pending_witness:
  "\<exists>w'. mpi_update sample_mpi ''MPI'' log_ready mpi_pair = Ret w' \<and> world.more w' = [8]
     \<and> mpi_conns (net w') = [((1, 5), (7, True)), ((1, 6), (8, False))]"
proof -
  have a: "mpi_iprobe sample_mpi MPI_COMM_WORLD r t s = ((0, fst s (MPI_COMM_WORLD, r, t) \<noteq> []), s)" for r t s
    by (simp add: sample_mpi_def)
  have b: "mpi_os (net v') = mpi_os (net v)" if "log_ready False h v = Ret v'" for h v v'
    using that by (auto simp: log_ready_def)
  have c: "mpi_iprobe_any sample_mpi MPI_COMM_WORLD MPI_CONNECTION_TAG (mpi_os (net mpi_pair)) =
      ((0, None), mpi_os (net mpi_pair))" by (simp add: sample_mpi_def)
  from mpi_update_reports_pending [where inq = "\<lambda>q s. fst s q" and addinQ = log_ready and p = "''MPI''", OF a b c] show ?thesis
    by (simp add: mpi_pair_def MPI_COMM_WORLD_def log_ready_def with_net_def)
qed

text \<open>A second connection with the rank and tag of an existing one is made and announced, but shares its
  entry: the new handle is not registered, yielding it sets the polling of the old handle, which alone
  can be reported, and closing it takes the old one out of the table.\<close>

theorem mpi_second_connection_unregistered:
  assumes "stoi (before_colon dest) = Ret rank" and "stoi (after_colon dest) = Ret tag" and "0 \<le> rank" and "0 < tag"
    and "mpi_send A MPI_COMM_WORLD rank MPI_CONNECTION_TAG 4 (int_bytes tag) (mpi_os (net w)) = (0, s)"
    and "smap_get (mpi_conns (net w)) (rank, tag) = Some (h0, y)"
  shows "\<exists>w1 w2 w3. mpi_connect A p dest n t w = Ret (Some (next_hid w), w1)
    \<and> mpi_conns (net w1) = mpi_conns (net w)
    \<and> mpi_notify_yield (next_hid w) w1 = Ret w2
    \<and> mpi_conns (net w2) = smap_put (rank, tag) (h0, True) (mpi_conns (net w))
    \<and> mpi_notify_close (next_hid w) cw True w1 = Ret w3
    \<and> smap_get (mpi_conns (net w3)) (rank, tag) = None"
proof -
  let ?h = "next_hid w"
  obtain w0 where nh: "new_HandleMPI p rank tag (set_mpi None s w) = (?h, w0)" "heap w0 ?h = Some (new_handle p)"
    "mpi_rank_of (net w0) ?h = rank" "mpi_tag_of (net w0) ?h = tag" "mpi_conns (net w0) = mpi_conns (net w)"
    by (auto simp: new_HandleMPI_def alloc_handle_def set_mpi_def with_net_def)
  let ?w1 = "mpi_insert rank tag ?h w0"
  have c: "mpi_connect A p dest n t w = Ret (Some ?h, ?w1)"
    using assms(1-5) nh(1) by (simp add: mpi_connect_def caught_def MPI_CONNECTION_TAG_def Let_def)
  have w1: "heap ?w1 ?h = Some (new_handle p)" "mpi_rank_of (net ?w1) ?h = rank" "mpi_tag_of (net ?w1) ?h = tag"
    "mpi_conns (net ?w1) = mpi_conns (net w)"
    using nh assms(6) by (simp_all add: mpi_insert_def smap_emplace_def)
  let ?w2 = "with_net (\<lambda>t. t\<lparr>mpi_conns := smap_put (rank, tag) (h0, True) (mpi_conns t)\<rparr>) ?w1"
  let ?w3 = "with_net (\<lambda>t. t\<lparr>mpi_conns := smap_erase (mpi_rank_of t ?h, mpi_tag_of t ?h) (mpi_conns t)\<rparr>) ?w1"
  have "mpi_notify_yield ?h ?w1 = Ret ?w2"
    using w1 assms(6) by (simp add: mpi_notify_yield_def obj_Some Let_def)
  moreover have "mpi_notify_close ?h cw True ?w1 = Ret ?w3"
    using w1(1) by (simp add: mpi_notify_close_def obj_Some)
  moreover have "smap_get (mpi_conns (net ?w3)) (rank, tag) = None"
    using w1 by (simp add: smap_laws)
  ultimately show ?thesis using c w1(4)
    by (intro exI [of _ ?w1] exI [of _ ?w2] exI [of _ ?w3]) simp
qed

theorem mpi_second_connection_unregistered_witness:
  "\<exists>w1. mpi_connect sample_mpi ''MPI'' ''1:5'' 1 0 mpi_pair = Ret (Some 10, w1)
     \<and> mpi_conns (net w1) = [((1, 5), (7, True)), ((1, 6), (8, True))]"
proof -
  have d: "stoi (before_colon ''1:5'') = Ret 1" "stoi (after_colon ''1:5'') = Ret 5" "(0 :: int) \<le> 1" "(0 :: int) < 5"
    by (simp_all add: before_colon_def after_colon_def colon_def stoi_def string_to_int_def is_space_def digit_value_def)
  have s: "mpi_send sample_mpi MPI_COMM_WORLD 1 MPI_CONNECTION_TAG 4 (int_bytes 5) (mpi_os (net mpi_pair)) =
      (0, snd (mpi_send sample_mpi MPI_COMM_WORLD 1 MPI_CONNECTION_TAG 4 (int_bytes 5) (mpi_os (net mpi_pair))))"
    by (simp add: sample_mpi_def)
  have k: "smap_get (mpi_conns (net mpi_pair)) (1, 5) = Some (7, True)" by (simp add: mpi_pair_def smap_get_def)
  have w: "next_hid mpi_pair = 10" "mpi_conns (net mpi_pair) = [((1, 5), (7, True)), ((1, 6), (8, True))]"
    by (simp_all add: mpi_pair_def)
  from mpi_second_connection_unregistered [OF d s k, of "''MPI''" 1 0 True] show ?thesis unfolding w by blast
qed

section \<open>The communicators of ConnMPIP2P\<close>

definition p2p_member :: "('o, 'm, 'x) p2p_world \<Rightarrow> nat \<Rightarrow> hid \<Rightarrow> bool" where
  "p2p_member w c h \<longleftrightarrow> smap_has (p2p_conns (net w)) h \<and> heap w h \<noteq> None \<and> server_comm (net w) h = c"

lemma p2p_close_one:
  assumes "p2p_member w c h" and "smap_get (comm_sizes (net w)) c = Some (int (Suc n))"
  shows "\<exists>w'. p2p_notify_close A h cw True w = Ret w'
    \<and> p2p_os (net w') = (if n = 0 then mpi_comm_disconnect A c (p2p_os (net w)) else p2p_os (net w))
    \<and> smap_get (comm_sizes (net w')) c = (if n = 0 then None else Some (int n))
    \<and> \<not> smap_has (p2p_conns (net w')) h \<and> (\<forall>k. k \<noteq> h \<longrightarrow> p2p_member w' c k = p2p_member w c k)
    \<and> (\<forall>k. smap_has (p2p_conns (net w')) k \<longrightarrow> smap_has (p2p_conns (net w)) k)"
proof -
  from assms(1) obtain ob where h: "smap_has (p2p_conns (net w)) h" "heap w h = Some ob" "server_comm (net w) h = c"
    by (auto simp: p2p_member_def)
  then have "p2p_notify_close A h cw True w =
      Ret (p2p_release A c (with_net (\<lambda>t. t\<lparr>p2p_conns := smap_erase h (p2p_conns t)\<rparr>) w))"
    by (simp add: p2p_notify_close_def obj_Some)
  then show ?thesis
    using assms(2) by (cases "n = 0") (auto simp: p2p_release_def Let_def p2p_member_def smap_laws)
qed

lemma p2p_close_several:
  "distinct hs \<Longrightarrow> \<forall>h \<in> set hs. p2p_member w c h \<Longrightarrow>
   smap_get (comm_sizes (net w)) c = Some (int (length hs + n)) \<Longrightarrow> 0 < n \<Longrightarrow>
   \<exists>w'. each_handle (\<lambda>h. p2p_notify_close A h cw True) hs w = Ret w' \<and> p2p_os (net w') = p2p_os (net w)
     \<and> smap_get (comm_sizes (net w')) c = Some (int n) \<and> (\<forall>h \<in> set hs. \<not> smap_has (p2p_conns (net w')) h)
     \<and> (\<forall>k. k \<notin> set hs \<longrightarrow> p2p_member w' c k = p2p_member w c k)
     \<and> (\<forall>k. smap_has (p2p_conns (net w')) k \<longrightarrow> smap_has (p2p_conns (net w)) k)"
proof (induction hs arbitrary: w)
  case (Cons h hs)
  have "smap_get (comm_sizes (net w)) c = Some (int (Suc (length hs + n)))" using Cons.prems(3) by simp
  from p2p_close_one [OF _ this, of h A cw] Cons.prems(2,4) obtain w1 where
    w1: "p2p_notify_close A h cw True w = Ret w1" "p2p_os (net w1) = p2p_os (net w)"
    "smap_get (comm_sizes (net w1)) c = Some (int (length hs + n))" "\<not> smap_has (p2p_conns (net w1)) h"
    "\<forall>k. k \<noteq> h \<longrightarrow> p2p_member w1 c k = p2p_member w c k"
    "\<forall>k. smap_has (p2p_conns (net w1)) k \<longrightarrow> smap_has (p2p_conns (net w)) k"
    by auto
  have "\<forall>k \<in> set hs. p2p_member w1 c k" using Cons.prems(1,2) w1(5) by auto
  from Cons.IH [OF _ this w1(3) Cons.prems(4)] Cons.prems(1) obtain w2 where
    "each_handle (\<lambda>h. p2p_notify_close A h cw True) hs w1 = Ret w2" "p2p_os (net w2) = p2p_os (net w1)"
    "smap_get (comm_sizes (net w2)) c = Some (int n)" "\<forall>k \<in> set hs. \<not> smap_has (p2p_conns (net w2)) k"
    "\<forall>k. k \<notin> set hs \<longrightarrow> p2p_member w2 c k = p2p_member w1 c k"
    "\<forall>k. smap_has (p2p_conns (net w2)) k \<longrightarrow> smap_has (p2p_conns (net w1)) k"
    by auto
  with w1 show ?case by (intro exI [of _ w2]) auto
qed auto

text \<open>C23: The communicator of an accepted connection is disconnected exactly once, with the last of its handles:
  closing the reading side of the handles one after the other, in any order, leaves it alone until the last
  one, which disconnects it and forgets its size.\<close>

theorem p2p_disconnects_with_last:
  assumes "distinct (hs @ [h])" and "\<forall>k \<in> set (hs @ [h]). p2p_member w c k"
    and "smap_get (comm_sizes (net w)) c = Some (int (length (hs @ [h])))"
  shows "\<exists>w1 w2. each_handle (\<lambda>k. p2p_notify_close A k cw True) hs w = Ret w1 \<and> p2p_os (net w1) = p2p_os (net w)
    \<and> p2p_notify_close A h cw True w1 = Ret w2 \<and> p2p_os (net w2) = mpi_comm_disconnect A c (p2p_os (net w))
    \<and> smap_get (comm_sizes (net w2)) c = None \<and> (\<forall>k \<in> set (hs @ [h]). \<not> smap_has (p2p_conns (net w2)) k)"
proof -
  have "smap_get (comm_sizes (net w)) c = Some (int (length hs + 1))" using assms(3) by simp
  from p2p_close_several [OF _ _ this, of A cw] assms(1,2) obtain w1 where
    w1: "each_handle (\<lambda>k. p2p_notify_close A k cw True) hs w = Ret w1" "p2p_os (net w1) = p2p_os (net w)"
    "smap_get (comm_sizes (net w1)) c = Some (int (Suc 0))" "\<forall>k \<in> set hs. \<not> smap_has (p2p_conns (net w1)) k"
    "\<forall>k. k \<notin> set hs \<longrightarrow> p2p_member w1 c k = p2p_member w c k" by auto
  have "p2p_member w1 c h" using assms(1,2) w1(5) by auto
  from p2p_close_one [OF this w1(3), of A cw] obtain w2 where
    "p2p_notify_close A h cw True w1 = Ret w2" "p2p_os (net w2) = mpi_comm_disconnect A c (p2p_os (net w1))"
    "smap_get (comm_sizes (net w2)) c = None" "\<not> smap_has (p2p_conns (net w2)) h"
    "\<forall>k. smap_has (p2p_conns (net w2)) k \<longrightarrow> smap_has (p2p_conns (net w1)) k" by auto
  with w1 show ?thesis by (intro exI [of _ w1] exI [of _ w2]) auto
qed

text \<open>A library that counts how often each communicator has been disconnected.\<close>

definition sample_p2p :: "(nat list) p2p_lib" where
  "sample_p2p = \<lparr>mpi_thread_multiple = 3, mpi_init_thread = (\<lambda>s. ((0, 3), s)), mpi_comm_rank = (\<lambda>s. 0),
     mpi_send = (\<lambda>c r t n bs s. (0, s)), mpi_recv = (\<lambda>c r t n s. Fault No_return),
     mpi_iprobe = (\<lambda>c r t s. ((0, False), s)), mpi_iprobe_any = (\<lambda>c t s. ((0, None), s)), mpi_finalize = (\<lambda>s. s),
     mpi_open_port = (\<lambda>s. (''port'', s)), mpi_publish_name = (\<lambda>l p s. s), mpi_lookup_name = (\<lambda>l s. (Some ''port'', s)),
     mpi_comm_connect = (\<lambda>p s. ((0, 4), s)), mpi_comm_accept = (\<lambda>p s. ((0, 4), s)),
     mpi_comm_remote_size = (\<lambda>c s. 2), mpi_comm_disconnect = (\<lambda>c s. s @ [c]), mpi_comm_spawn = (\<lambda>n p s. (0, s)),
     mpi_unpublish_name = (\<lambda>l p s. s), mpi_close_port = (\<lambda>p s. s)\<rparr>"

definition p2p_two :: "(nat list p2p_state) world" where
  "p2p_two = \<lparr>heap = (\<lambda>_. Some (new_handle ''MPIP2P'')), errno = OK_errno, next_hid = 9,
     net = \<lparr>p2p_rank_of = (\<lambda>h. int h - 7), server_comm = (\<lambda>_. 4), p2p_conns = [(7, False), (8, False)],
       comm_sizes = [(4, 2)], portname = ''port'', published_label = ''l'', p2p_rank = 0, finalized = False,
       p2p_listening = True, p2p_os = []\<rparr>\<rparr>"

theorem p2p_disconnects_with_last_witness:
  "\<exists>w1 w2. p2p_notify_close sample_p2p 8 True True p2p_two = Ret w1 \<and> p2p_os (net w1) = []
     \<and> p2p_notify_close sample_p2p 7 True True w1 = Ret w2 \<and> p2p_os (net w2) = [4]"
proof -
  have g: "smap_get [(7, False), (8, False)] 7 = Some False" "smap_get [(7, False), (8, False)] (8 :: hid) = Some False"
    by (simp_all add: smap_get_def)
  have "smap_has [(7, False), (8, False)] 7" "smap_has [(7, False), (8, False)] (8 :: hid)"
    by (simp_all only: smap_has_def g option.simps not_False_eq_True)
  then have a: "distinct ([8] @ [7 :: hid])" "\<forall>k \<in> set ([8] @ [7]). p2p_member p2p_two 4 k"
    "smap_get (comm_sizes (net p2p_two)) 4 = Some (int (length ([8] @ [7 :: hid])))"
    by (simp_all add: p2p_member_def p2p_two_def smap_get_def del: smap_has_get)
  have s: "p2p_os (net p2p_two) = []" "mpi_comm_disconnect sample_p2p 4 [] = [4]"
    by (simp_all add: p2p_two_def sample_p2p_def)
  from p2p_disconnects_with_last [OF a, where A = sample_p2p and cw = True] obtain w1 w2 where
    "p2p_notify_close sample_p2p 8 True True p2p_two = Ret w1" "p2p_os (net w1) = []"
    "p2p_notify_close sample_p2p 7 True True w1 = Ret w2" "p2p_os (net w2) = [4]"
    unfolding s by (auto simp: bnd_Ret_conv)
  then show ?thesis by (intro exI [of _ w1] exI [of _ w2]) simp
qed

end
