(* ===== verification/MpiTable.thy ===== *)
theory MpiTable
  imports MpiProps
begin

text \<open>
  What the table of \<open>ConnMPI\<close> holds in every state that its operations reach: an ordered map whose entries
  are handles that have the rank and the tag of their key.
\<close>

definition mpi_typed :: "('o, 'm, 'x) mpi_world \<Rightarrow> bool" where
  "mpi_typed w \<longleftrightarrow> smap_ok (mpi_conns (net w)) \<and>
     (\<forall>r t h b. smap_get (mpi_conns (net w)) (r, t) = Some (h, b) \<longrightarrow>
        mpi_rank_of (net w) h = r \<and> mpi_tag_of (net w) h = t \<and> h < next_hid w)"

text \<open>Handles are made with numbers that were free; those that exist keep their rank and tag.\<close>

definition mpi_grows :: "('o, 'm, 'x) mpi_world \<Rightarrow> ('o, 'm, 'x) mpi_world \<Rightarrow> bool" where
  "mpi_grows w w' \<longleftrightarrow> next_hid w \<le> next_hid w' \<and>
     (\<forall>h < next_hid w. mpi_rank_of (net w') h = mpi_rank_of (net w) h \<and> mpi_tag_of (net w') h = mpi_tag_of (net w) h)"

definition mpi_keeps :: "('o, 'm, 'x) mpi_world \<Rightarrow> ('o, 'm, 'x) mpi_world \<Rightarrow> bool" where
  "mpi_keeps w w' \<longleftrightarrow> mpi_typed w' \<and> mpi_grows w w'"

lemma mpi_grows_refl [simp]: "mpi_grows w w"
  by (simp add: mpi_grows_def)

lemma mpi_keeps_trans: "mpi_keeps u v \<Longrightarrow> mpi_keeps v w \<Longrightarrow> mpi_keeps u w"
  by (auto simp: mpi_keeps_def mpi_grows_def)

lemma mpi_keepsD: "mpi_keeps w w' \<Longrightarrow> mpi_typed w'"
  by (simp add: mpi_keeps_def)

text \<open>Operations that leave the table, the ranks and the tags alone, and the four changes of the table.\<close>

lemma mpi_typed_same:
  assumes "mpi_typed w" and "mpi_conns (net w') = mpi_conns (net w)" and "mpi_rank_of (net w') = mpi_rank_of (net w)"
    and "mpi_tag_of (net w') = mpi_tag_of (net w)" and "next_hid w' = next_hid w"
  shows "mpi_keeps w w'"
  using assms by (simp add: mpi_keeps_def mpi_typed_def mpi_grows_def)

lemma set_mpi_next [simp]: "next_hid (set_mpi e s w) = next_hid w"
  by (simp add: set_mpi_def with_net_def)

lemma mpi_keeps_set: "mpi_typed w \<Longrightarrow> mpi_keeps w (set_mpi e s w)"
  by (rule mpi_typed_same) simp_all

lemma mpi_keeps_new:
  assumes "mpi_typed w" and "new_HandleMPI p r t w = (h, w')"
  shows "mpi_keeps w (mpi_insert r t h w')"
proof -
  have h: "h = next_hid w" and w': "next_hid w' = Suc h" "mpi_conns (net w') = mpi_conns (net w)"
    "mpi_rank_of (net w') = (mpi_rank_of (net w))(h := r)" "mpi_tag_of (net w') = (mpi_tag_of (net w))(h := t)"
    using assms(2) by (auto simp: new_HandleMPI_def alloc_handle_def with_net_def)
  let ?v = "mpi_insert r t h w'"
  have v: "next_hid ?v = next_hid w'" "mpi_rank_of (net ?v) = mpi_rank_of (net w')" "mpi_tag_of (net ?v) = mpi_tag_of (net w')"
    "mpi_conns (net ?v) = smap_emplace (r, t) (h, False) (mpi_conns (net w))"
    using w'(2) by (simp_all add: mpi_insert_def with_net_def)
  have old: "mpi_rank_of (net w) k = a \<and> mpi_tag_of (net w) k = c \<and> k < h"
    if "smap_get (mpi_conns (net w)) (a, c) = Some (k, b)" for a c k b
    using assms(1) that h by (auto simp: mpi_typed_def)
  have "mpi_rank_of (net ?v) k = a \<and> mpi_tag_of (net ?v) k = c \<and> k < next_hid ?v"
    if "smap_get (mpi_conns (net ?v)) (a, c) = Some (k, b)" for a c k b
  proof (cases "smap_get (mpi_conns (net w)) (a, c) = Some (k, b)")
    case True
    from old [OF this] show ?thesis using v w' by simp
  next
    case False
    with that have "a = r" "c = t" "k = h" by (auto simp: v smap.get_emplace split: if_splits)
    then show ?thesis using v w' by simp
  qed
  moreover have "smap_ok (mpi_conns (net ?v))" using assms(1) by (simp add: v smap_emplace_ok mpi_typed_def)
  ultimately show ?thesis using v w' h by (simp add: mpi_keeps_def mpi_typed_def mpi_grows_def)
qed

lemma mpi_keeps_put:
  assumes "mpi_typed w" and "mpi_rank_of (net w) h = r" and "mpi_tag_of (net w) h = t" and "h < next_hid w"
  shows "mpi_keeps w (with_net (\<lambda>x. x\<lparr>mpi_conns := smap_put (r, t) (h, b) (mpi_conns x)\<rparr>) w)"
  using assms by (auto simp: mpi_keeps_def mpi_typed_def mpi_grows_def with_net_def smap_put_get smap_put_ok)

lemma mpi_keeps_erase:
  "mpi_typed w \<Longrightarrow> mpi_keeps w (with_net (\<lambda>x. x\<lparr>mpi_conns := smap_erase (f x) (mpi_conns x)\<rparr>) w)"
  by (auto simp: mpi_keeps_def mpi_typed_def mpi_grows_def with_net_def smap_erase_get smap_erase_ok)

section \<open>The operations\<close>

lemma mpi_connect_keeps:
  assumes "mpi_typed w" and "mpi_connect A p dest retry timeout w = Ret (x, w')"
  shows "mpi_keeps w w'"
proof -
  have "mpi_keeps w (mpi_insert r t h v)" if "new_HandleMPI p r t (set_mpi e s w) = (h, v)" for r t h v e s
    using mpi_keeps_new [OF _ that] mpi_keeps_set [OF assms(1)] mpi_keeps_trans mpi_keeps_def by blast
  moreover have "mpi_keeps w (set_errno e w)" for e by (rule mpi_typed_same [OF assms(1)]) (simp_all add: set_errno_def)
  ultimately show ?thesis
    using assms(2) mpi_keeps_set [OF assms(1)]
    by (auto simp: mpi_connect_def bnd_Ret_conv Let_def split: if_splits prod.splits)
qed

lemma mpi_check_new_keeps:
  assumes "mpi_typed w" and "\<And>b h v v'. addinQ b h v = Ret v' \<Longrightarrow> mpi_typed v \<Longrightarrow> mpi_keeps v v'"
    and "mpi_check_new A p addinQ w = Ret w'"
  shows "mpi_keeps w w'"
proof -
  have new: "mpi_keeps w v'" if "new_HandleMPI p r t (set_mpi e s w) = (h, v)" "addinQ True h (mpi_insert r t h v) = Ret v'"
    for r t h v v' e s
  proof -
    have "mpi_keeps w (mpi_insert r t h v)"
      using mpi_keeps_new [OF _ that(1)] mpi_keeps_set [OF assms(1)] mpi_keeps_trans mpi_keeps_def by blast
    with assms(2) [OF that(2)] show ?thesis using mpi_keeps_trans mpi_keeps_def by blast
  qed
  show ?thesis
    using assms(3) mpi_keeps_set [OF assms(1)]
    by (auto simp: mpi_check_new_def bnd_Ret_conv Let_def split: if_splits prod.splits option.splits intro: new)
qed

lemma mpi_poll_keeps:
  assumes "\<And>b h v v'. addinQ b h v = Ret v' \<Longrightarrow> mpi_typed v \<Longrightarrow> mpi_keeps v v'"
  shows "mpi_typed w \<Longrightarrow> mpi_poll A addinQ cs w = Ret w'
    \<Longrightarrow> \<forall>((r, t), (h, b)) \<in> set cs. mpi_rank_of (net w) h = r \<and> mpi_tag_of (net w) h = t \<and> h < next_hid w
    \<Longrightarrow> mpi_keeps w w'"
proof (induction cs arbitrary: w)
  case Nil
  then show ?case by (simp add: mpi_keeps_def)
next
  case (Cons c cs)
  obtain r t h b where c: "c = ((r, t), (h, b))" by (metis surj_pair)
  have go: "mpi_keeps w w'" if "mpi_keeps w v" "mpi_poll A addinQ cs v = Ret w'" for v
  proof -
    have "\<forall>((r, t), (h, b)) \<in> set cs. mpi_rank_of (net v) h = r \<and> mpi_tag_of (net v) h = t \<and> h < next_hid v"
      using Cons.prems(3) that(1) by (fastforce simp: mpi_keeps_def mpi_grows_def)
    with Cons.IH [OF _ that(2)] that(1) show ?thesis using mpi_keeps_trans mpi_keeps_def by blast
  qed
  obtain e flag s where i: "mpi_iprobe A MPI_COMM_WORLD r t (mpi_os (net w)) = ((e, flag), s)" by (metis surj_pair)
  let ?w = "set_mpi None s w"
  let ?u = "with_net (\<lambda>x. x\<lparr>mpi_conns := smap_put (r, t) (h, False) (mpi_conns x)\<rparr>) ?w"
  have k: "mpi_keeps w ?w" by (rule mpi_keeps_set [OF Cons.prems(1)])
  show ?case
  proof (cases "b \<and> flag")
    case True
    then obtain v where v: "addinQ False h ?u = Ret v" "mpi_poll A addinQ cs v = Ret w'"
      using Cons.prems(2) by (auto simp: c i Let_def bnd_Ret_conv split: if_splits)
    have "mpi_keeps ?w ?u" using k Cons.prems(3) c by (intro mpi_keeps_put) (auto simp: mpi_keeps_def)
    with k have "mpi_keeps w ?u" by (rule mpi_keeps_trans)
    with assms [OF v(1)] have "mpi_keeps w v" using mpi_keeps_trans mpi_keeps_def by blast
    then show ?thesis using v(2) by (rule go)
  next
    case False
    have "mpi_keeps w w" using Cons.prems(1) by (simp add: mpi_keeps_def)
    with False k Cons.prems(2) go show ?thesis by (auto simp: c i Let_def split: if_splits)
  qed
qed

lemma smap_get_member: "smap_ok m \<Longrightarrow> (k, v) \<in> set m \<Longrightarrow> smap_get m k = Some v"
  using smap.keys_distinct [of m] by (simp add: smap_get_def)

lemma mpi_update_keeps:
  assumes "mpi_typed w" and "\<And>b h v v'. addinQ b h v = Ret v' \<Longrightarrow> mpi_typed v \<Longrightarrow> mpi_keeps v v'"
    and "mpi_update A p addinQ w = Ret w'"
  shows "mpi_keeps w w'"
proof -
  from assms(3) obtain v where v: "mpi_check_new A p addinQ w = Ret v" "mpi_poll A addinQ (mpi_conns (net v)) v = Ret w'"
    by (auto simp: mpi_update_def bnd_Ret_conv)
  have k: "mpi_keeps w v" by (rule mpi_check_new_keeps [OF assms(1,2) v(1)])
  then have t: "mpi_typed v" by (simp add: mpi_keeps_def)
  then have all: "\<forall>((r, t), (h, b)) \<in> set (mpi_conns (net v)).
      mpi_rank_of (net v) h = r \<and> mpi_tag_of (net v) h = t \<and> h < next_hid v"
    using smap_get_member [of "mpi_conns (net v)"] by (fastforce simp: mpi_typed_def)
  have "mpi_keeps v w'" by (rule mpi_poll_keeps [OF _ t v(2) all]) (erule (1) assms(2))
  with k show ?thesis by (rule mpi_keeps_trans)
qed

lemma mpi_notify_keeps:
  assumes "mpi_typed w"
  shows "mpi_notify_close h cw cr w = Ret w' \<Longrightarrow> mpi_keeps w w'"
    and "mpi_notify_yield h w = Ret w' \<Longrightarrow> mpi_keeps w w'"
proof -
  have "mpi_keeps w w" using assms by (simp add: mpi_keeps_def)
  then show "mpi_notify_close h cw cr w = Ret w' \<Longrightarrow> mpi_keeps w w'"
    using mpi_keeps_erase [OF assms] by (auto simp: mpi_notify_close_def bnd_Ret_conv split: if_splits)
  let ?k = "(mpi_rank_of (net w) h, mpi_tag_of (net w) h)"
  have "mpi_keeps w (with_net (\<lambda>t. t\<lparr>mpi_conns := smap_put ?k (h', True) (mpi_conns t)\<rparr>) w)"
    if "smap_get (mpi_conns (net w)) ?k = Some (h', b)" for h' b
    using that assms by (intro mpi_keeps_put) (auto simp: mpi_typed_def)
  with \<open>mpi_keeps w w\<close> show "mpi_notify_yield h w = Ret w' \<Longrightarrow> mpi_keeps w w'"
    by (auto simp: mpi_notify_yield_def bnd_Ret_conv Let_def split: option.splits)
qed

section \<open>Reachable states\<close>

text \<open>
  The calls on the connector and its handles, in any order; \<open>addinQ\<close> is what the connector is given for
  \<open>ConnType::addinQ\<close>.
\<close>

inductive mpi_reach ::
  "('o, 'a) mpi_lib_scheme \<Rightarrow> string \<Rightarrow> (bool \<Rightarrow> hid \<Rightarrow> ('o, 'm, 'x) mpi_world \<Rightarrow> ('o, 'm, 'x) mpi_world out)
     \<Rightarrow> ('o, 'm, 'x) mpi_world \<Rightarrow> ('o, 'm, 'x) mpi_world \<Rightarrow> bool"
  for A p addinQ w0 where
  start: "mpi_reach A p addinQ w0 w0"
| init: "mpi_reach A p addinQ w0 w \<Longrightarrow> mpi_init A app w = Ret (r, w') \<Longrightarrow> mpi_reach A p addinQ w0 w'"
| connect: "mpi_reach A p addinQ w0 w \<Longrightarrow> mpi_connect A p dest n t w = Ret (x, w') \<Longrightarrow> mpi_reach A p addinQ w0 w'"
| update: "mpi_reach A p addinQ w0 w \<Longrightarrow> mpi_update A p addinQ w = Ret w' \<Longrightarrow> mpi_reach A p addinQ w0 w'"
| yield: "mpi_reach A p addinQ w0 w \<Longrightarrow> mpi_notify_yield h w = Ret w' \<Longrightarrow> mpi_reach A p addinQ w0 w'"
| close: "mpi_reach A p addinQ w0 w \<Longrightarrow> mpi_notify_close h cw cr w = Ret w' \<Longrightarrow> mpi_reach A p addinQ w0 w'"
| send: "mpi_reach A p addinQ w0 w \<Longrightarrow> hmpi_send A h bs w = Ret (i, w') \<Longrightarrow> mpi_reach A p addinQ w0 w'"
| eos: "mpi_reach A p addinQ w0 w \<Longrightarrow> hmpi_sendEOS A h w = Ret (i, w') \<Longrightarrow> mpi_reach A p addinQ w0 w'"
| probe: "mpi_reach A p addinQ w0 w \<Longrightarrow> hmpi_probe A h b sz w = Ret (i, sz', w') \<Longrightarrow> mpi_reach A p addinQ w0 w'"
| receive: "mpi_reach A p addinQ w0 w \<Longrightarrow> hmpi_receive A h sz w = Ret (i, bs, w') \<Longrightarrow> mpi_reach A p addinQ w0 w'"
| peek: "mpi_reach A p addinQ w0 w \<Longrightarrow> hmpi_peek A h w = Ret (b, w') \<Longrightarrow> mpi_reach A p addinQ w0 w'"
| finish: "mpi_reach A p addinQ w0 w \<Longrightarrow> mpi_end n A b w = Ret w' \<Longrightarrow> mpi_reach A p addinQ w0 w'"

lemma mpi_init_keeps:
  assumes "mpi_typed w" and "mpi_init A app w = Ret (r, w')"
  shows "mpi_keeps w w'"
  using assms(2)
  by (auto simp: mpi_init_def Let_def with_net_def split: if_splits prod.splits intro!: mpi_typed_same [OF assms(1)])

lemma mpi_handle_keeps:
  assumes "mpi_typed w"
  shows "hmpi_send A h bs w = Ret (i, w') \<Longrightarrow> mpi_keeps w w'"
    and "hmpi_sendEOS A h w = Ret (i, w') \<Longrightarrow> mpi_keeps w w'"
    and "hmpi_probe A h b sz w = Ret (i, sz', w') \<Longrightarrow> mpi_keeps w w'"
    and "hmpi_receive A h sz w = Ret (i, bs, w') \<Longrightarrow> mpi_keeps w w'"
    and "hmpi_peek A h w = Ret (b, w') \<Longrightarrow> mpi_keeps w w'"
  by (auto simp: hmpi_send_def hmpi_sendEOS_def hmpi_probe_def hmpi_receive_def hmpi_peek_def bnd_Ret_conv Let_def
      split: prod.splits intro: mpi_keeps_set [OF assms])

text \<open>\<open>end\<close> closes every handle of the table and finalizes the library.\<close>

lemma mpi_keeps_objects:
  assumes "mpi_typed w"
  shows "mpi_keeps w (put_obj h ob w)" and "mpi_keeps w (delete_obj h w)" and "upd_obj h f w = Ret w' \<Longrightarrow> mpi_keeps w w'"
proof -
  show put: "mpi_keeps w (put_obj h ob w)" for ob by (rule mpi_typed_same [OF assms]) (simp_all add: put_obj_def)
  show "mpi_keeps w (delete_obj h w)" by (rule mpi_typed_same [OF assms]) (simp_all add: delete_obj_def)
  show "upd_obj h f w = Ret w' \<Longrightarrow> mpi_keeps w w'" using put by (auto simp: upd_obj_def bnd_Ret_conv)
qed

text \<open>\<open>kp w m g\<close>: from a typed \<open>w\<close> the call \<open>m\<close> keeps the table typed; \<open>g\<close> is the world in its result.\<close>

definition kp :: "('o, 'm, 'x) mpi_world \<Rightarrow> 'r out \<Rightarrow> ('r \<Rightarrow> ('o, 'm, 'x) mpi_world) \<Rightarrow> bool" where
  "kp w m g \<longleftrightarrow> (mpi_typed w \<longrightarrow> (\<forall>x. m = Ret x \<longrightarrow> mpi_keeps w (g x)))"

lemma kp_Ret: "g x = w \<Longrightarrow> kp w (Ret x) g"
  by (simp add: kp_def mpi_keeps_def)

lemma kp_bnd: "kp w m g \<Longrightarrow> (\<And>x. kp (g x) (f x) g') \<Longrightarrow> kp w (bnd m f) g'"
  unfolding kp_def bnd_Ret_conv by (metis mpi_keeps_trans mpi_keepsD)

lemma kp_obj: "(\<And>ob. kp w (f ob) g) \<Longrightarrow> kp w (bnd (obj h w) f) g"
  by (auto simp: kp_def bnd_Ret_conv)

lemma kp_if: "(b \<Longrightarrow> kp w m g) \<Longrightarrow> (\<not> b \<Longrightarrow> kp w m' g) \<Longrightarrow> kp w (if b then m else m') g"
  by simp

lemma kp_upd: "kp w (upd_obj h f w) (\<lambda>w. w)"
  by (simp add: kp_def mpi_keeps_objects(3))

lemma kp_delete: "kp w (Ret (delete_obj h w)) (\<lambda>w. w)"
  by (simp add: kp_def mpi_keeps_objects(2))

lemma kp_calls:
  "kp w (vt_sendEOS (mpi_vtable A) h w) snd" "kp w (vt_probe (mpi_vtable A) h b sz w) (\<lambda>(_, _, w). w)"
  "kp w (vt_receive (mpi_vtable A) h sz w) (\<lambda>(_, _, w). w)"
  "kp w (vt_notify_close (mpi_vtable A) h cw cr w) (\<lambda>w. w)"
  by (auto simp: kp_def mpi_vtable_def dest: mpi_handle_keeps mpi_notify_keeps)

lemma kp_close: "kp w (handle_close (mpi_vtable A) h cw cr w) (\<lambda>w. w)"
  unfolding handle_close_def
proof (rule kp_obj, rule kp_bnd, rule kp_if)
  fix ob
  show "kp w (bnd (vt_sendEOS (mpi_vtable A) h w) (\<lambda>(_, w). upd_obj h (\<lambda>ob. ob\<lparr>closed_wr := True\<rparr>) w)) (\<lambda>w. w)"
    by (rule kp_bnd [OF kp_calls(1)]) (simp add: case_prod_unfold kp_upd)
  show "kp w (Ret w) (\<lambda>w. w)" by (simp add: kp_Ret)
next
  fix v
  show "kp v (bnd (obj h v) (\<lambda>ob. bnd (if cr \<and> \<not> closed_rd ob then upd_obj h (\<lambda>ob. ob\<lparr>closed_rd := True\<rparr>) v else Ret v)
     (\<lambda>w. bnd (obj h w) (\<lambda>ob. bnd (vt_notify_close (mpi_vtable A) h (closed_wr ob) (closed_rd ob) w) (\<lambda>w.
      bnd (obj h w) (\<lambda>ob. if counter ob = 0 \<and> closed_rd ob \<and> closed_wr ob then Ret (delete_obj h w) else Ret w)))))) (\<lambda>w. w)"
    by (rule kp_obj, rule kp_bnd, rule kp_if, rule kp_upd, rule kp_Ret, rule refl, rule kp_obj, rule kp_bnd,
        rule kp_calls(4), rule kp_obj, rule kp_if, rule kp_delete, rule kp_Ret, rule refl)
qed

lemma kp_drain:
  fixes w :: "('o, 'm, 'x) mpi_world"
  shows "kp w (drain_eos n (mpi_vtable A) h sz w) snd"
proof (induction n arbitrary: sz w)
  case (Suc n)
  have first: "kp w (if fst (probed ob) then Ret (0, snd (probed ob), w) else vt_probe (mpi_vtable A) h True sz w)
      (\<lambda>(_, _, w). w)" for ob
    by (simp add: kp_Ret kp_calls)
  have later: "kp v (if r = -1 then Ret (False, v) else bnd (upd_obj h (\<lambda>ob. ob\<lparr>probed := (False, 0)\<rparr>) v)
      (drain_eos n (mpi_vtable A) h sz')) snd" for v :: "('o, 'm, 'x) mpi_world" and r sz'
    by (rule kp_if, rule kp_Ret, simp, rule kp_bnd, rule kp_upd, rule Suc.IH)
  have read: "kp v (bnd (vt_receive (mpi_vtable A) h sz' v) (\<lambda>(r, _, w). if r = -1 then Ret (False, w)
      else bnd (upd_obj h (\<lambda>ob. ob\<lparr>probed := (False, 0)\<rparr>) w) (drain_eos n (mpi_vtable A) h sz'))) snd" for v :: "('o, 'm, 'x) mpi_world" and sz'
    by (rule kp_bnd [OF kp_calls(3)]) (simp only: case_prod_unfold later)
  have next1: "kp ((\<lambda>(_, _, w). w) x) ((\<lambda>(r, sz, w). if r = -1 then Ret (False, w) else if sz = 0 then Ret (True, w)
      else bnd (vt_receive (mpi_vtable A) h sz w) (\<lambda>(r, _, w). if r = -1 then Ret (False, w)
        else bnd (upd_obj h (\<lambda>ob. ob\<lparr>probed := (False, 0)\<rparr>) w) (drain_eos n (mpi_vtable A) h sz))) x) snd" for x :: "int \<times> u64 \<times> ('o, 'm, 'x) mpi_world"
  proof -
    obtain r sz w where x: "x = (r, sz, w)" by (metis surj_pair)
    show ?thesis unfolding x prod.case by (intro kp_if kp_Ret read) simp_all
  qed
  show ?case unfolding drain_eos.simps by (rule kp_obj, rule kp_bnd, rule first, rule next1)
qed (simp add: kp_def)

lemma mpi_setAsClosed_keeps:
  assumes "mpi_typed w" and "setAsClosed n (mpi_vtable A) h b w = Ret w'"
  shows "mpi_keeps w w'"
proof -
  have wait: "kp v (bnd (obj h v) (\<lambda>ob. if \<not> closed_rd ob then drain_eos n (mpi_vtable A) h 1 v else Ret (True, v))) snd" for v
    by (rule kp_obj, rule kp_if) (simp_all add: kp_drain kp_Ret)
  have "kp w (setAsClosed n (mpi_vtable A) h b w) (\<lambda>w. w)"
    unfolding setAsClosed_def
  proof (rule kp_obj, rule kp_bnd, rule kp_if, rule kp_close, rule kp_Ret, rule refl, rule kp_bnd, rule kp_if, rule wait,
      rule kp_Ret, simp)
    fix x :: "bool \<times> _"
    show "kp (snd x) (case x of (go_on, w) \<Rightarrow> if go_on then handle_close (mpi_vtable A) h False True w else Ret w) (\<lambda>w. w)"
      by (cases x) (simp add: kp_close kp_Ret)
  qed
  with assms show ?thesis by (simp add: kp_def)
qed

lemma mpi_end_keeps:
  assumes "mpi_typed w" and "mpi_end n A b w = Ret w'"
  shows "mpi_keeps w w'"
proof -
  have all: "mpi_typed u \<Longrightarrow> each_handle (\<lambda>h. setAsClosed n (mpi_vtable A) h True) hs u = Ret v \<Longrightarrow> mpi_keeps u v" for hs u v
  proof (induction hs arbitrary: u)
    case (Cons h hs)
    then obtain u1 where u1: "setAsClosed n (mpi_vtable A) h True u = Ret u1"
      "each_handle (\<lambda>h. setAsClosed n (mpi_vtable A) h True) hs u1 = Ret v" by (auto simp: bnd_Ret_conv)
    note k = mpi_setAsClosed_keeps [OF Cons.prems(1) u1(1)]
    show ?case by (rule mpi_keeps_trans [OF k Cons.IH [OF mpi_keepsD [OF k] u1(2)]])
  qed (simp add: mpi_keeps_def)
  from assms(2) obtain v where
    v: "each_handle (\<lambda>h. setAsClosed n (mpi_vtable A) h True) (map (fst \<circ> snd) (mpi_conns (net w))) w = Ret v"
    "w' = set_mpi None (mpi_finalize A (mpi_os (net v))) v"
    by (auto simp: mpi_end_def bnd_Ret_conv)
  note k = all [OF assms(1) v(1)]
  show ?thesis unfolding v(2) by (rule mpi_keeps_trans [OF k mpi_keeps_set [OF mpi_keepsD [OF k]]])
qed

lemma mpi_reach_typed:
  assumes "mpi_reach A p addinQ w0 w" and "mpi_conns (net w0) = []"
    and "\<And>b h v v'. addinQ b h v = Ret v' \<Longrightarrow> mpi_typed v \<Longrightarrow> mpi_keeps v v'"
  shows "mpi_typed w"
  using assms(1)
proof (induction rule: mpi_reach.induct)
  case start
  show ?case using assms(2) by (simp add: mpi_typed_def smap_ok_def)
next
  case (update w w')
  have "mpi_keeps w w'" by (rule mpi_update_keeps [OF update.IH _ update.hyps(2)]) (erule (1) assms(3))
  then show ?case by (simp add: mpi_keeps_def)
next
  case (init w app r w')
  show ?case by (rule mpi_keepsD [OF mpi_init_keeps [OF init.IH init.hyps(2)]])
next
  case (connect w dest n t x w')
  show ?case by (rule mpi_keepsD [OF mpi_connect_keeps [OF connect.IH connect.hyps(2)]])
next
  case (yield w h w')
  show ?case by (rule mpi_keepsD [OF mpi_notify_keeps(2) [OF yield.IH yield.hyps(2)]])
next
  case (close w h cw cr w')
  show ?case by (rule mpi_keepsD [OF mpi_notify_keeps(1) [OF close.IH close.hyps(2)]])
next
  case (finish w n b w')
  show ?case by (rule mpi_keepsD [OF mpi_end_keeps [OF finish.IH finish.hyps(2)]])
qed (erule (1) mpi_handle_keeps [THEN mpi_keepsD])+

text \<open>C22: In every state that the calls on \<open>ConnMPI\<close> and its handles reach from an empty table, in any order, the
  table is an ordered map without duplicates and every entry is typed: it holds a handle that has been made
  and whose rank and tag are its key, so a message that a round finds for a key belongs to the handle that is reported.\<close>

theorem mpi_table_typed:
  assumes "mpi_reach A p addinQ w0 w" and "mpi_conns (net w0) = []"
    and "\<And>b h v v'. addinQ b h v = Ret v' \<Longrightarrow> mpi_typed v \<Longrightarrow> mpi_keeps v v'"
  shows "distinct (map fst (mpi_conns (net w))) \<and> sorted (map fst (mpi_conns (net w)))
    \<and> (\<forall>((r, t), (h, b)) \<in> set (mpi_conns (net w)).
         mpi_rank_of (net w) h = r \<and> mpi_tag_of (net w) h = t \<and> h < next_hid w)"
proof -
  have t: "mpi_typed w" by (rule mpi_reach_typed [OF assms(1,2)]) (erule (1) assms(3))
  then have ok: "smap_ok (mpi_conns (net w))" by (simp add: mpi_typed_def)
  moreover from ok have "sorted (map fst (mpi_conns (net w)))" by (simp add: smap_ok_def strict_sorted_iff)
  moreover have "\<forall>((r, t), (h, b)) \<in> set (mpi_conns (net w)).
      mpi_rank_of (net w) h = r \<and> mpi_tag_of (net w) h = t \<and> h < next_hid w"
    using t smap_get_member [OF ok] by (fastforce simp: mpi_typed_def)
  ultimately show ?thesis using smap.keys_distinct by blast
qed

text \<open>A process that connects to rank 1 with tag 5 and yields the handle.\<close>

definition mpi_fresh :: "(mpi_qs mpi_state, hid list) world_scheme" where
  "mpi_fresh = mpi_pair\<lparr>net := (net mpi_pair)\<lparr>mpi_conns := []\<rparr>\<rparr>"

lemma mpi_fresh_connect:
  "\<exists>w1. mpi_connect sample_mpi ''MPI'' ''1:5'' 1 0 mpi_fresh = Ret (Some 10, w1)
     \<and> mpi_conns (net w1) = [((1, 5), (10, False))] \<and> mpi_rank_of (net w1) 10 = 1 \<and> mpi_tag_of (net w1) 10 = 5
     \<and> heap w1 10 = Some (new_handle ''MPI'')"
proof -
  have d: "stoi (before_colon ''1:5'') = Ret 1" "stoi (after_colon ''1:5'') = Ret 5"
    by (simp_all add: before_colon_def after_colon_def colon_def stoi_def string_to_int_def is_space_def digit_value_def)
  show ?thesis
    by (simp add: mpi_connect_def d caught_def sample_mpi_def mpi_fresh_def mpi_pair_def MPI_CONNECTION_TAG_def
        new_HandleMPI_def alloc_handle_def mpi_insert_def with_net_def set_mpi_def smap_emplace_def Let_def)
qed

theorem mpi_table_typed_witness:
  "\<exists>w. mpi_reach sample_mpi ''MPI'' log_ready mpi_fresh w \<and> mpi_conns (net w) = [((1, 5), (10, True))]
     \<and> mpi_rank_of (net w) 10 = 1 \<and> mpi_tag_of (net w) 10 = 5 \<and> 10 < next_hid w"
proof -
  from mpi_fresh_connect obtain w1 where
    w1: "mpi_connect sample_mpi ''MPI'' ''1:5'' 1 0 mpi_fresh = Ret (Some 10, w1)"
    "mpi_conns (net w1) = [((1, 5), (10, False))]" "mpi_rank_of (net w1) 10 = 1" "mpi_tag_of (net w1) 10 = 5"
    "heap w1 10 = Some (new_handle ''MPI'')" by blast
  let ?w = "with_net (\<lambda>t. t\<lparr>mpi_conns := smap_put (1, 5) (10, True) (mpi_conns t)\<rparr>) w1"
  have y: "mpi_notify_yield 10 w1 = Ret ?w"
    using w1 by (simp add: mpi_notify_yield_def obj_Some smap_get_def Let_def)
  have r: "mpi_reach sample_mpi ''MPI'' log_ready mpi_fresh ?w"
    by (rule mpi_reach.yield [OF mpi_reach.connect [OF mpi_reach.start w1(1)] y])
  have e: "mpi_conns (net mpi_fresh) = []" by (simp add: mpi_fresh_def)
  have a: "mpi_keeps v v'" if "log_ready b h v = Ret v'" "mpi_typed v" for b h v v'
    using that by (auto simp: log_ready_def intro!: mpi_typed_same)
  have "distinct (map fst (mpi_conns (net ?w))) \<and> sorted (map fst (mpi_conns (net ?w)))
      \<and> (\<forall>((r, t), (h, b)) \<in> set (mpi_conns (net ?w)).
           mpi_rank_of (net ?w) h = r \<and> mpi_tag_of (net ?w) h = t \<and> h < next_hid ?w)"
    by (rule mpi_table_typed [OF r e]) (erule (1) a)
  moreover have "mpi_conns (net ?w) = [((1, 5), (10, True))]" using w1(2) by (simp add: with_net_def)
  ultimately show ?thesis using r by (intro exI [of _ ?w]) simp
qed

end
