(* ===== verification/ConnUcx.thy ===== *)
theory ConnUcx
  imports ConnTcp Collectives
begin

text \<open>
  \<open>include/protocols/ucx.hpp\<close>: \<open>HandleUCX\<close>, a stream endpoint of the UCX library as the virtual members of a
  handle, and the connector \<open>ConnUCX\<close>.
  \<^item> \<open>ucx_lib\<close> adds the calls of the library to those of the sockets, which \<open>ConnUCX\<close> uses to exchange the
    addresses of the workers. A call that starts a transfer returns a pointer: null (done at once), an
    error, or a request. \<open>ux_done\<close> says whether the callback of a request has run; callbacks run inside
    \<open>ux_progress\<close>. A request that is given back is \<open>Req_freed\<close> wherever the pointer is kept.
  \<^item> \<open>ucx_state\<close> holds the members of \<open>ConnUCX\<close> and of its handles and the state of the library. A request
    that is left pending has been made by \<open>probe\<close>, whose buffer is the member \<open>test_probe\<close>: the bytes of
    such a request go there, whatever buffer the call that completes it has been given.
  \<^item> A loop of \<open>ucp_worker_progress\<close> takes a bound on its iterations. \<open>yield\<close> may hand the handle to the queue of
    the manager, which is an argument.
\<close>

datatype ucs_status = UCS_OK | UCS_INPROGRESS | UCS_ERR_CONNECTION_RESET | UCS_ERR int

datatype ucs_ptr = Req_null | Req_err ucs_status | Req nat | Req_freed

record 'o ucx_lib = "'o tcp_sys" +
  ux_stream_send :: "nat \<Rightarrow> byte list list \<Rightarrow> 'o \<Rightarrow> ucs_ptr \<times> 'o"
  ux_stream_recv :: "nat \<Rightarrow> nat \<Rightarrow> 'o \<Rightarrow> (ucs_ptr \<times> byte list) \<times> 'o"   \<comment> \<open>the bytes of a call done at once\<close>
  ux_progress :: "'o \<Rightarrow> 'o"
  ux_done :: "nat \<Rightarrow> 'o \<Rightarrow> bool"
  ux_data :: "nat \<Rightarrow> 'o \<Rightarrow> byte list"   \<comment> \<open>the bytes a finished request has written\<close>
  ux_check_status :: "nat \<Rightarrow> 'o \<Rightarrow> ucs_status"
  ux_request_free :: "nat \<Rightarrow> 'o \<Rightarrow> 'o"
  ux_config_read :: "'o \<Rightarrow> ucs_status \<times> 'o"
  ux_init :: "'o \<Rightarrow> ucs_status \<times> 'o"
  ux_worker_create :: "'o \<Rightarrow> ucs_status \<times> 'o"
  ux_worker_address :: "'o \<Rightarrow> (ucs_status \<times> byte list) \<times> 'o"
  ux_ep_create :: "byte list \<Rightarrow> 'o \<Rightarrow> (ucs_status \<times> nat) \<times> 'o"
  ux_ep_close :: "nat \<Rightarrow> 'o \<Rightarrow> ucs_ptr \<times> 'o"
  ux_worker_poll :: "nat \<Rightarrow> 'o \<Rightarrow> nat list option \<times> 'o"   \<comment> \<open>\<open>None\<close> is a negative result\<close>
  ux_cleanup :: "'o \<Rightarrow> 'o"
  ux_sock_send :: "int \<Rightarrow> byte list \<Rightarrow> 'o \<Rightarrow> int \<times> 'o"
  ux_sock_recv :: "int \<Rightarrow> nat \<Rightarrow> 'o \<Rightarrow> (int \<times> byte list) \<times> 'o"   \<comment> \<open>with \<open>MSG_WAITALL\<close>\<close>
  ux_malloc :: "u64 \<Rightarrow> 'o \<Rightarrow> bool \<times> 'o"

record 'o ucx_state =
  endpoint :: "hid \<Rightarrow> nat"
  ux_request :: "hid \<Rightarrow> ucs_ptr"
  already_closed :: "hid \<Rightarrow> bool"
  last_probe :: "hid \<Rightarrow> int"
  test_probe :: "hid \<Rightarrow> byte list"
  ux_address :: string
  ux_port :: int
  ux_set :: "int set"
  ux_tmpset :: "int set"
  ux_listen_sck :: int
  ux_fdmax :: int
  local_addr :: "byte list"
  ux_conns :: "(nat, hid option \<times> bool) smap"
  ux_os :: 'o

type_synonym ('o, 'm, 'x) ucx_world = "(('o, 'm) ucx_state_scheme, 'x) world_scheme"

definition UCX_BACKLOG :: nat where
  "UCX_BACKLOG = 128"

definition set_ux :: "errno_t option \<Rightarrow> 'o \<Rightarrow> ('o, 'm, 'x) ucx_world \<Rightarrow> ('o, 'm, 'x) ucx_world" where
  "set_ux e s w = (with_net (\<lambda>t. t\<lparr>ux_os := s\<rparr>) w)\<lparr>errno := keep_errno e (errno w)\<rparr>"

lemma set_ux_simps [simp]:
  "heap (set_ux e s w) = heap w" "errno (set_ux e s w) = keep_errno e (errno w)"
  "net (set_ux e s w) = (net w)\<lparr>ux_os := s\<rparr>" "world.more (set_ux e s w) = world.more w"
  by (simp_all add: set_ux_def with_net_def)

section \<open>Requests\<close>

text \<open>\<open>while(ctx->complete == 0) ucp_worker_progress(ucp_worker);\<close>\<close>

fun wait_complete :: "nat \<Rightarrow> ('o, 'a) ucx_lib_scheme \<Rightarrow> nat \<Rightarrow> 'o \<Rightarrow> 'o out" where
  "wait_complete 0 A r s = Fault No_return"
| "wait_complete (Suc c) A r s = (if ux_done A r s then Ret s else wait_complete c A r (ux_progress A s))"

text \<open>The result: the status, what the pointer has become, the bytes of a finished request, the library.\<close>

definition request_wait ::
  "nat \<Rightarrow> ('o, 'a) ucx_lib_scheme \<Rightarrow> ucs_ptr \<Rightarrow> bool \<Rightarrow> 'o
     \<Rightarrow> (ucs_status \<times> ucs_ptr \<times> byte list \<times> 'o) out" where
  "request_wait c A p blocking s =
     (case p of
        Req_null \<Rightarrow> Ret (UCS_OK, Req_null, [], s)
      | Req_err e \<Rightarrow> Ret (e, p, [], s)
      | Req_freed \<Rightarrow> Fault Use_after_free
      | Req r \<Rightarrow>
          let s = (if blocking then s else ux_progress A s)
          in if \<not> blocking \<and> \<not> ux_done A r s then Ret (UCS_INPROGRESS, p, [], s)
             else bnd (wait_complete c A r s) (\<lambda>s.
                  Ret (ux_check_status A r s, Req_freed, ux_data A r s, ux_request_free A r s)))"

text \<open>
  \<open>receive_internal\<close>. The result: the return value, whether the request is one of this call (and the
  bytes are in its buffer), the bytes that have arrived.
\<close>

definition receive_internal ::
  "nat \<Rightarrow> ('o, 'a) ucx_lib_scheme \<Rightarrow> hid \<Rightarrow> u64 \<Rightarrow> bool \<Rightarrow> ('o, 'm, 'x) ucx_world
     \<Rightarrow> (int \<times> bool \<times> byte list \<times> ('o, 'm, 'x) ucx_world) out" where
  "receive_internal c A h size1 blocking w =
     bnd (obj h w) (\<lambda>_.
     let t = net w; made = (ux_request t h = Req_null);
         ((p, now), s) = (if made then ux_stream_recv A (endpoint t h) (unat size1) (ux_os t)
                          else ((ux_request t h, []), ux_os t))
     in bnd (request_wait c A p blocking s) (\<lambda>(status, p', later, s).
        let w = with_net (\<lambda>t. t\<lparr>ux_request := (ux_request t)(h := p')\<rparr>) (set_ux None s w)
        in if status \<noteq> UCS_OK then
             (if status = UCS_INPROGRESS then Ret (-1, made, [], set_errno EWOULDBLOCK w)
              else if status = UCS_ERR_CONNECTION_RESET then Ret (0, made, [], w)
              else Ret (-1, made, [], set_errno EINVAL w))
           else Ret (ssize_of size1, made, if p = Req_null then now else later,
             with_net (\<lambda>t. t\<lparr>ux_request := (ux_request t)(h := Req_null)\<rparr>) w)))"

text \<open>The bytes of a request of \<open>probe\<close> arrive in \<open>test_probe\<close>.\<close>

definition into_test_probe :: "hid \<Rightarrow> byte list \<Rightarrow> ('o, 'm, 'x) ucx_world \<Rightarrow> ('o, 'm, 'x) ucx_world" where
  "into_test_probe h bs =
     with_net (\<lambda>t. t\<lparr>test_probe := (test_probe t)(h := bs @ drop (length bs) (test_probe t h))\<rparr>)"

section \<open>HandleUCX\<close>

definition ucx_send_iov ::
  "nat \<Rightarrow> ('o, 'a) ucx_lib_scheme \<Rightarrow> hid \<Rightarrow> byte list list \<Rightarrow> int \<Rightarrow> ('o, 'm, 'x) ucx_world
     \<Rightarrow> (int \<times> ('o, 'm, 'x) ucx_world) out" where
  "ucx_send_iov c A h iov result w =
     bnd (obj h w) (\<lambda>_.
     let (p, s) = ux_stream_send A (endpoint (net w) h) iov (ux_os (net w))
     in bnd (request_wait c A p True s) (\<lambda>(status, _, _, s).
        let w = set_ux None s w
        in if status \<noteq> UCS_OK
           then Ret (-1, set_errno (if status = UCS_ERR_CONNECTION_RESET then ECONNRESET else EINVAL) w)
           else Ret (result, w)))"

text \<open>An end-of-stream is a header of 0 and the four bytes of \<open>int useless = -1\<close>; it returns \<open>sz\<close>, which is 0.\<close>

definition ucx_sendEOS ::
  "nat \<Rightarrow> ('o, 'a) ucx_lib_scheme \<Rightarrow> hid \<Rightarrow> ('o, 'm, 'x) ucx_world \<Rightarrow> (int \<times> ('o, 'm, 'x) ucx_world) out" where
  "ucx_sendEOS c A h w = ucx_send_iov c A h [le_bytes 0, int_bytes (-1)] 0 w"

definition ucx_send ::
  "nat \<Rightarrow> ('o, 'a) ucx_lib_scheme \<Rightarrow> hid \<Rightarrow> byte list \<Rightarrow> ('o, 'm, 'x) ucx_world
     \<Rightarrow> (int \<times> ('o, 'm, 'x) ucx_world) out" where
  "ucx_send c A h bs w =
     ucx_send_iov c A h [le_bytes (htobe64 (of_nat (length bs))), bs] (ssize_of (of_nat (length bs))) w"

definition ucx_receive ::
  "nat \<Rightarrow> ('o, 'a) ucx_lib_scheme \<Rightarrow> hid \<Rightarrow> u64 \<Rightarrow> ('o, 'm, 'x) ucx_world
     \<Rightarrow> (int \<times> byte list \<times> ('o, 'm, 'x) ucx_world) out" where
  "ucx_receive c A h size1 w =
     bnd (receive_internal c A h size1 True w) (\<lambda>(res, made, bs, w).
     let w = with_net (\<lambda>t. t\<lparr>last_probe := (last_probe t)(h := -1)\<rparr>) w
     in if made then Ret (res, bs, w) else Ret (res, [], into_test_probe h bs w))"

definition ucx_probe ::
  "nat \<Rightarrow> ('o, 'a) ucx_lib_scheme \<Rightarrow> hid \<Rightarrow> bool \<Rightarrow> u64 \<Rightarrow> ('o, 'm, 'x) ucx_world
     \<Rightarrow> (int \<times> u64 \<times> ('o, 'm, 'x) ucx_world) out" where
  "ucx_probe c A h blocking size1 w =
     bnd (obj h w) (\<lambda>_.
     if last_probe (net w) h \<noteq> -1 then Ret (sizeof_size_t, word_of_int (last_probe (net w) h), w)
     else bnd (receive_internal c A h 8 blocking w) (\<lambda>(r, _, bs, w).
       let w = into_test_probe h bs w
       in if r \<le> 0 then Ret (r, size1, w)
          else
            let size1 = be64toh (of_le_bytes (test_probe (net w) h));
                w = with_net (\<lambda>t. t\<lparr>last_probe := (last_probe t)(h := ssize_of size1)\<rparr>) w
            in bnd (if size1 = 0
                    then bnd (receive_internal c A h 4 True w) (\<lambda>(_, made, bs, w).
                         Ret (if made then w else into_test_probe h bs w))
                    else Ret w) (\<lambda>w.
               Ret (sizeof_size_t, size1, w))))"

definition ucx_peek ::
  "nat \<Rightarrow> ('o, 'a) ucx_lib_scheme \<Rightarrow> hid \<Rightarrow> ('o, 'm, 'x) ucx_world
     \<Rightarrow> (bool \<times> ('o, 'm, 'x) ucx_world) out" where
  "ucx_peek c A h w = bnd (ucx_probe c A h False 0 w) (\<lambda>(res, _, w). Ret (0 < res, w))"

section \<open>ConnUCX: sockets for the addresses of the workers\<close>

definition ucx_init_socket ::
  "('o, 'a) ucx_lib_scheme \<Rightarrow> ('o, 'm, 'x) ucx_world \<Rightarrow> int \<times> ('o, 'm, 'x) ucx_world" where
  "ucx_init_socket A w =
     (let ((sck, e), s) = sk_socket A None (ux_os (net w));
          w = with_net (\<lambda>t. t\<lparr>ux_listen_sck := sck\<rparr>) (set_ux e s w)
      in if sck < 0 then (-1, w) else
      let ((r, e), s) = sk_setsockopt A sck (ux_os (net w)); w = set_ux e s w
      in if r < 0 then (-1, w) else
      let (ai, s) = sk_getaddrinfo A True (ux_address (net w)) (to_string (ux_port (net w))) (ux_os (net w));
          w = set_ux None s w
      in case ai of None \<Rightarrow> (-1, w) | Some addrs \<Rightarrow>
      let (ok, en, s) = bind_first A sck addrs (errno w) (ux_os (net w)); w = set_ux (Some en) s w
      in if \<not> ok then (-1, w) else
      let ((r, e), s) = sk_listen A sck UCX_BACKLOG (ux_os (net w)); w = set_ux e s w
      in if r < 0 then (-1, w) else (0, w))"

text \<open>
  \<open>exchange_address\<close> on a connected socket: the result (0, or 1 after an error), the address of the peer.
  Results of \<open>send\<close> and \<open>recv\<close> go through an \<open>int\<close>; the lengths travel in the byte order of the host.
\<close>

definition to_int :: "u64 \<Rightarrow> int" where
  "to_int n = signed_take_bit 31 (uint n)"

definition exchange_address ::
  "('o, 'a) ucx_lib_scheme \<Rightarrow> int \<Rightarrow> byte list \<Rightarrow> 'o \<Rightarrow> int \<times> byte list \<times> 'o" where
  "exchange_address A sock addr s =
     (let len = of_nat (length addr); (ret, s) = ux_sock_send A sock (le_bytes len) s
      in if ret \<noteq> 8 then (1, [], s) else
      let (ret, s) = ux_sock_send A sock addr s
      in if ret \<noteq> to_int len then (1, [], s) else
      let ((ret, hd), s) = ux_sock_recv A sock 8 s
      in if ret \<noteq> 8 then (1, [], s) else
      let peer_len = of_le_bytes hd; (ok, s) = ux_malloc A peer_len s
      in if \<not> ok then (1, [], s) else
      let ((ret, peer), s) = ux_sock_recv A sock (unat peer_len) s
      in if ret \<noteq> to_int peer_len then (1, [], s) else (0, peer, s))"

text \<open>\<open>ep_close\<close>: closing is a request too.\<close>

fun close_wait :: "nat \<Rightarrow> ('o, 'a) ucx_lib_scheme \<Rightarrow> nat \<Rightarrow> 'o \<Rightarrow> 'o out" where
  "close_wait 0 A r s = Fault No_return"
| "close_wait (Suc c) A r s =
     (let s = ux_progress A s
      in if ux_check_status A r s = UCS_INPROGRESS then close_wait c A r s else Ret s)"

definition ep_close :: "nat \<Rightarrow> ('o, 'a) ucx_lib_scheme \<Rightarrow> nat \<Rightarrow> 'o \<Rightarrow> 'o out" where
  "ep_close c A ep s =
     (let (p, s) = ux_ep_close A ep s
      in case p of Req r \<Rightarrow> bnd (close_wait c A r s) (\<lambda>s. Ret (ux_request_free A r s)) | _ \<Rightarrow> Ret s)"

section \<open>ConnUCX: starting, listening, connecting\<close>

definition ucx_init ::
  "('o, 'a) ucx_lib_scheme \<Rightarrow> string \<Rightarrow> ('o, 'm, 'x) ucx_world \<Rightarrow> (int \<times> ('o, 'm, 'x) ucx_world) out" where
  "ucx_init A app w =
     (let w = with_net (\<lambda>t. t\<lparr>ux_set := {}, ux_tmpset := {}, ux_listen_sck := -1, ux_fdmax := -1\<rparr>) w;
          fail = (\<lambda>w. Ret (-1, set_errno EINVAL w));
          (st, s) = ux_config_read A (ux_os (net w)); w = set_ux None s w
      in if st \<noteq> UCS_OK then fail w else
      let (st, s) = ux_init A (ux_os (net w)); w = set_ux None s w
      in if st \<noteq> UCS_OK then fail w else
      let (st, s) = ux_worker_create A (ux_os (net w)); w = set_ux None s w
      in if st \<noteq> UCS_OK then fail w else
      let ((st, addr), s) = ux_worker_address A (ux_os (net w)); w = set_ux None s w
      in if st \<noteq> UCS_OK then fail w else Ret (0, with_net (\<lambda>t. t\<lparr>local_addr := addr\<rparr>) w))"

definition ucx_listen ::
  "('o, 'a) ucx_lib_scheme \<Rightarrow> string \<Rightarrow> ('o, 'm, 'x) ucx_world \<Rightarrow> (int \<times> ('o, 'm, 'x) ucx_world) out" where
  "ucx_listen A s w =
     (let address = before_colon s; w = with_net (\<lambda>t. t\<lparr>ux_address := address\<rparr>) w
      in bnd (substr_from (length address + 1) s) (\<lambda>p.
      bnd (stoi p) (\<lambda>port.
      let (r, w) = ucx_init_socket A (with_net (\<lambda>t. t\<lparr>ux_port := port\<rparr>) w)
      in if r \<noteq> 0 then Ret (-1, set_errno EINVAL w)
         else
           let sck = ux_listen_sck (net w)
           in bnd (FD_SET sck (ux_set (net w))) (\<lambda>S.
              Ret (0, with_net (\<lambda>t. t\<lparr>ux_set := S, ux_fdmax := sck\<rparr>) w)))))"

definition new_HandleUCX :: "string \<Rightarrow> nat \<Rightarrow> ('o, 'm, 'x) ucx_world \<Rightarrow> hid \<times> ('o, 'm, 'x) ucx_world" where
  "new_HandleUCX p ep w =
     (let (h, w) = alloc_handle p w
      in (h, with_net (\<lambda>t. t\<lparr>endpoint := (endpoint t)(h := ep), ux_request := (ux_request t)(h := Req_null),
           already_closed := (already_closed t)(h := False), last_probe := (last_probe t)(h := -1),
           test_probe := (test_probe t)(h := le_bytes 42)\<rparr>) w))"

definition ucx_insert :: "nat \<Rightarrow> hid \<Rightarrow> ('o, 'm, 'x) ucx_world \<Rightarrow> ('o, 'm, 'x) ucx_world" where
  "ucx_insert ep h = with_net (\<lambda>t. t\<lparr>ux_conns := smap_emplace ep (Some h, False) (ux_conns t)\<rparr>)"

text \<open>The socket stays open when the connection has been made.\<close>

definition ucx_connect ::
  "nat \<Rightarrow> ('o, 'a) ucx_lib_scheme \<Rightarrow> string \<Rightarrow> string \<Rightarrow> int \<Rightarrow> nat \<Rightarrow> ('o, 'm, 'x) ucx_world
     \<Rightarrow> (hid option \<times> ('o, 'm, 'x) ucx_world) out" where
  "ucx_connect c A p address retry timeout_ms w =
     bnd (internal_connect c A address retry timeout_ms (errno w) (ux_os (net w))) (\<lambda>(fd, en, s).
     let w = set_ux (Some en) s w
     in if fd = -1 then Ret (None, w)
        else
          let (res, peer, s) = exchange_address A fd (local_addr (net w)) (ux_os (net w))
          in if res \<noteq> 0 then Ret (None, set_ux None (sk_close A fd s) w)
             else
               let ((st, ep), s) = ux_ep_create A peer s
               in if st \<noteq> UCS_OK then Ret (None, set_ux (Some EINVAL) (sk_close A fd s) w)
                  else let (h, w) = new_HandleUCX p ep (set_ux None s w) in Ret (Some h, ucx_insert ep h w))"

section \<open>ConnUCX: polling\<close>

text \<open>A connection on the socket: whether \<open>update\<close> goes on.\<close>

definition ucx_accept ::
  "('o, 'a) ucx_lib_scheme \<Rightarrow> string \<Rightarrow> (bool \<Rightarrow> hid \<Rightarrow> ('o, 'm, 'x) ucx_world \<Rightarrow> ('o, 'm, 'x) ucx_world out)
     \<Rightarrow> ('o, 'm, 'x) ucx_world \<Rightarrow> (bool \<times> ('o, 'm, 'x) ucx_world) out" where
  "ucx_accept A p addinQ w =
     (let ((connfd, e), s) = sk_accept A (ux_listen_sck (net w)) (ux_os (net w)); w = set_ux e s w
      in if connfd = -1 then Ret (False, w) else
      let (res, peer, s) = exchange_address A connfd (local_addr (net w)) (ux_os (net w))
      in if res \<noteq> 0 then Ret (False, set_ux None s w) else
      let ((st, ep), s) = ux_ep_create A peer (sk_close A connfd s); w = set_ux None s w
      in if st \<noteq> UCS_OK then Ret (False, w) else
      let (h, w) = new_HandleUCX p ep w
      in bnd (addinQ True h (ucx_insert ep h w)) (\<lambda>w. Ret (True, w)))"

text \<open>The loop over the endpoints that the library reports. An entry without a handle is a null pointer.\<close>

fun ucx_poll ::
  "(bool \<Rightarrow> hid \<Rightarrow> ('o, 'm, 'x) ucx_world \<Rightarrow> ('o, 'm, 'x) ucx_world out) \<Rightarrow> nat list
     \<Rightarrow> ('o, 'm, 'x) ucx_world \<Rightarrow> ('o, 'm, 'x) ucx_world out" where
  "ucx_poll addinQ [] w = Ret w"
| "ucx_poll addinQ (ep # eps) w =
     (case smap_get (ux_conns (net w)) ep of
        Some (h, True) \<Rightarrow>
          bnd (deref h (\<lambda>h. addinQ False h (with_net (\<lambda>t. t\<lparr>ux_conns := smap_put ep (Some h, False) (ux_conns t)\<rparr>) w)))
            (ucx_poll addinQ eps)
      | _ \<Rightarrow> ucx_poll addinQ eps w)"

text \<open>\<open>size\<close> is unsigned, so an error of the library is a number beyond the array.\<close>

definition ucx_update ::
  "('o, 'a) ucx_lib_scheme \<Rightarrow> string \<Rightarrow> (bool \<Rightarrow> hid \<Rightarrow> ('o, 'm, 'x) ucx_world \<Rightarrow> ('o, 'm, 'x) ucx_world out)
     \<Rightarrow> ('o, 'm, 'x) ucx_world \<Rightarrow> ('o, 'm, 'x) ucx_world out" where
  "ucx_update A p addinQ w =
     (let w = with_net (\<lambda>t. t\<lparr>ux_tmpset := ux_set t\<rparr>) w
      in bnd (if ux_fdmax (net w) \<noteq> -1 then
                let (((nready, e), S), s) = sk_select A (ux_fdmax (net w) + 1) (ux_tmpset (net w)) (ux_os (net w));
                    w = with_net (\<lambda>t. t\<lparr>ux_tmpset := S\<rparr>) (set_ux e s w)
                in if nready = -1 \<and> errno w = EBADF then Ret (False, w)
                   else bnd (FD_ISSET (ux_listen_sck (net w)) (ux_tmpset (net w))) (\<lambda>new.
                        if new then ucx_accept A p addinQ w else Ret (True, w))
              else Ret (True, w)) (\<lambda>(go_on, w).
         if \<not> go_on then Ret w
         else
           let max_eps = length (ux_conns (net w));
               (eps, s) = ux_worker_poll A max_eps (ux_progress A (ux_os (net w)));
               w = set_ux None s w
           in case eps of None \<Rightarrow> Fault Out_of_bounds | Some eps \<Rightarrow> ucx_poll addinQ eps w))"

section \<open>ConnUCX: notifications and termination\<close>

text \<open>\<open>connections[handle->endpoint].second = true\<close> makes an entry without a handle when there is none.\<close>

definition ucx_notify_yield ::
  "nat \<Rightarrow> ('o, 'a) ucx_lib_scheme \<Rightarrow> (bool \<Rightarrow> hid \<Rightarrow> ('o, 'm, 'x) ucx_world \<Rightarrow> ('o, 'm, 'x) ucx_world out) \<Rightarrow> hid
     \<Rightarrow> ('o, 'm, 'x) ucx_world \<Rightarrow> ('o, 'm, 'x) ucx_world out" where
  "ucx_notify_yield c A addinQ h w =
     bnd (obj h w) (\<lambda>ob.
     if isClosed ob then Ret w
     else bnd (ucx_probe c A h False 0 w) (\<lambda>(r, _, w).
       if 0 < r then addinQ False h w
       else
         let ep = endpoint (net w) h;
             hp = (case smap_get (ux_conns (net w)) ep of None \<Rightarrow> None | Some (hp, _) \<Rightarrow> hp)
         in Ret (with_net (\<lambda>t. t\<lparr>ux_conns := smap_put ep (hp, True) (ux_conns t)\<rparr>) w)))"

definition ucx_notify_close ::
  "nat \<Rightarrow> ('o, 'a) ucx_lib_scheme \<Rightarrow> hid \<Rightarrow> bool \<Rightarrow> bool \<Rightarrow> ('o, 'm, 'x) ucx_world
     \<Rightarrow> ('o, 'm, 'x) ucx_world out" where
  "ucx_notify_close c A h close_wr close_rd w =
     bnd (obj h w) (\<lambda>_.
     if already_closed (net w) h then Ret w
     else if close_rd then
       let ep = endpoint (net w) h;
           w = with_net (\<lambda>t. t\<lparr>ux_conns := smap_erase ep (ux_conns t), already_closed := (already_closed t)(h := True)\<rparr>) w
       in bnd (ep_close c A ep (ux_os (net w))) (\<lambda>s. Ret (set_ux None s w))
     else Ret w)"

definition ucx_vtable ::
  "nat \<Rightarrow> ('o, 'a) ucx_lib_scheme \<Rightarrow> (bool \<Rightarrow> hid \<Rightarrow> ('o, 'm, 'x) ucx_world \<Rightarrow> ('o, 'm, 'x) ucx_world out)
     \<Rightarrow> ('o, 'm, 'x) ucx_world vtable" where
  "ucx_vtable c A addinQ = \<lparr>vt_send = ucx_send c A, vt_probe = ucx_probe c A, vt_receive = ucx_receive c A,
     vt_sendEOS = ucx_sendEOS c A, vt_peek = ucx_peek c A, vt_notify_close = ucx_notify_close c A,
     vt_notify_yield = ucx_notify_yield c A addinQ\<rparr>"

text \<open>The loop of \<open>end\<close> skips a handle that is closed already; a null entry is dereferenced.\<close>

fun ucx_close_all ::
  "nat \<Rightarrow> ('o, 'a) ucx_lib_scheme \<Rightarrow> (bool \<Rightarrow> hid \<Rightarrow> ('o, 'm, 'x) ucx_world \<Rightarrow> ('o, 'm, 'x) ucx_world out)
     \<Rightarrow> bool \<Rightarrow> hid option list \<Rightarrow> ('o, 'm, 'x) ucx_world \<Rightarrow> ('o, 'm, 'x) ucx_world out" where
  "ucx_close_all c A addinQ blockflag [] w = Ret w"
| "ucx_close_all c A addinQ blockflag (hp # hps) w =
     deref hp (\<lambda>h.
     bnd (obj h w) (\<lambda>_.
     if already_closed (net w) h then ucx_close_all c A addinQ blockflag hps w
     else bnd (setAsClosed c (ucx_vtable c A addinQ) h blockflag w) (ucx_close_all c A addinQ blockflag hps)))"

definition ucx_end ::
  "nat \<Rightarrow> ('o, 'a) ucx_lib_scheme \<Rightarrow> (bool \<Rightarrow> hid \<Rightarrow> ('o, 'm, 'x) ucx_world \<Rightarrow> ('o, 'm, 'x) ucx_world out)
     \<Rightarrow> bool \<Rightarrow> ('o, 'm, 'x) ucx_world \<Rightarrow> ('o, 'm, 'x) ucx_world out" where
  "ucx_end c A addinQ blockflag w =
     (if ux_conns (net w) = [] then Ret w
      else bnd (ucx_close_all c A addinQ blockflag (map (fst \<circ> snd) (ux_conns (net w))) w) (\<lambda>w.
           Ret (set_ux None (ux_cleanup A (ux_os (net w))) w)))"

end
