(* ===== verification/UcxProps.thy ===== *)
theory UcxProps
  imports ConnUcx CollProps TcpProps
begin

text \<open>
  The transport over UCX: on a library whose streams keep their order and whose requests finish, handles
  with endpoints of their own provide what the collectives rely on; a header can be asked for without
  blocking until it is there; two processes that exchange the addresses of their workers get each
  other's; what an empty message does to the stream.
\<close>

section \<open>The library\<close>

text \<open>
  \<open>due\<close> are the requests in progress, with the calls of \<open>ucp_worker_progress\<close> they still need (at most
  \<open>lag\<close>) and the bytes they deliver. A receive of bytes that are in the stream takes them out of it, at
  once or for its request; a send appends its vector.
\<close>

type_synonym 'o dues = "'o \<Rightarrow> nat \<rightharpoonup> nat \<times> byte list"

definition starts :: "'o dues \<Rightarrow> nat \<Rightarrow> ucs_ptr \<Rightarrow> byte list \<Rightarrow> 'o \<Rightarrow> 'o \<Rightarrow> bool" where
  "starts due lag p bs s s' \<longleftrightarrow> p = Req_null \<and> due s' = due s
     \<or> (\<exists>r k. p = Req r \<and> k \<le> lag \<and> due s r = None \<and> due s' = (due s)(r \<mapsto> (k, bs)))"

definition ucx_receives :: "('o, 'a) ucx_lib_scheme \<Rightarrow> nat \<Rightarrow> (nat \<Rightarrow> 'o \<Rightarrow> byte list) \<Rightarrow> 'o dues \<Rightarrow> bool" where
  "ucx_receives A lag inq due \<longleftrightarrow>
     (\<forall>ep n s. n \<le> length (inq ep s) \<longrightarrow>
        (\<exists>p s'. ux_stream_recv A ep n s = ((p, if p = Req_null then take n (inq ep s) else []), s')
           \<and> starts due lag p (take n (inq ep s)) s s'
           \<and> (\<forall>q. inq q s' = (if q = ep then drop n (inq ep s) else inq q s))))"

definition ucx_sends :: "('o, 'a) ucx_lib_scheme \<Rightarrow> nat \<Rightarrow> (nat \<Rightarrow> 'o \<Rightarrow> byte list) \<Rightarrow> 'o dues \<Rightarrow> bool" where
  "ucx_sends A lag outq due \<longleftrightarrow>
     (\<forall>ep iov s. \<exists>p s'. ux_stream_send A ep iov s = (p, s') \<and> starts due lag p [] s s'
        \<and> (\<forall>q. outq q s' = (if q = ep then outq ep s @ concat iov else outq q s)))"

definition ucx_finishes :: "('o, 'a) ucx_lib_scheme \<Rightarrow> (nat \<Rightarrow> 'o \<Rightarrow> byte list) \<Rightarrow> 'o dues \<Rightarrow> bool" where
  "ucx_finishes A q due \<longleftrightarrow>
     (\<forall>s. (\<forall>ep. q ep (ux_progress A s) = q ep s)
        \<and> (\<forall>r. due (ux_progress A s) r = map_option (\<lambda>(k, bs). (k - 1, bs)) (due s r)))
     \<and> (\<forall>s r k bs. due s r = Some (k, bs) \<longrightarrow> ux_done A r s = (k = 0)
        \<and> (k = 0 \<longrightarrow> ux_data A r s = bs \<and> ux_check_status A r s = UCS_OK))
     \<and> (\<forall>s r. (\<forall>ep. q ep (ux_request_free A r s) = q ep s) \<and> due (ux_request_free A r s) = (due s)(r := None))"

lemma ucx_receivesD:
  assumes "ucx_receives A lag inq due" and "n \<le> length (inq ep s)"
  obtains p s' where "ux_stream_recv A ep n s = ((p, if p = Req_null then take n (inq ep s) else []), s')"
    and "starts due lag p (take n (inq ep s)) s s'"
    and "\<forall>q. inq q s' = (if q = ep then drop n (inq ep s) else inq q s)"
  using assms unfolding ucx_receives_def by blast

lemma ucx_sendsD:
  assumes "ucx_sends A lag outq due"
  obtains p s' where "ux_stream_send A ep iov s = (p, s')" and "starts due lag p [] s s'"
    and "\<forall>q. outq q s' = (if q = ep then outq ep s @ concat iov else outq q s)"
  using assms unfolding ucx_sends_def by blast

lemma ucx_finishesD:
  assumes "ucx_finishes A q due"
  shows "q ep (ux_progress A s) = q ep s"
    and "due (ux_progress A s) r = map_option (\<lambda>(k, bs). (k - 1, bs)) (due s r)"
    and "due s r = Some (k, bs) \<Longrightarrow> ux_done A r s = (k = 0)"
    and "due s r = Some (0, bs) \<Longrightarrow> ux_data A r s = bs"
    and "due s r = Some (0, bs) \<Longrightarrow> ux_check_status A r s = UCS_OK"
    and "q ep (ux_request_free A r s) = q ep s"
    and "due (ux_request_free A r s) = (due s)(r := None)"
  using assms unfolding ucx_finishes_def by blast+

text \<open>Requests are only brought closer to their end.\<close>

definition aged :: "(nat \<rightharpoonup> nat \<times> byte list) \<Rightarrow> (nat \<rightharpoonup> nat \<times> byte list) \<Rightarrow> bool" where
  "aged D D' \<longleftrightarrow> (\<forall>r k bs. D r = Some (k, bs) \<longrightarrow> (\<exists>k' \<le> k. D' r = Some (k', bs)))"

lemma aged_refl [simp]: "aged D D"
  by (auto simp: aged_def)

lemma aged_due: "aged D D' \<Longrightarrow> D r = Some (k, bs) \<Longrightarrow> D' r \<noteq> None"
  unfolding aged_def by (metis option.distinct(1))

lemma aged_trans: "aged D D' \<Longrightarrow> aged D' D'' \<Longrightarrow> aged D D''"
  unfolding aged_def by (meson le_trans)

lemma aged_progress: "ucx_finishes A q due \<Longrightarrow> aged (due s) (due (ux_progress A s))"
  using ucx_finishesD(2) [of A q due] by (fastforce simp: aged_def)

lemma aged_add: "D r = None \<Longrightarrow> aged D (D(r := v))"
  by (auto simp: aged_def)

lemma aged_removed: "aged D D' \<Longrightarrow> D r = None \<Longrightarrow> aged D (D'(r := None))"
  by (fastforce simp: aged_def)

text \<open>A blocking wait, and the wait of a call that does not block.\<close>

lemma wait_complete_due:
  assumes "ucx_finishes A q due"
  shows "due s r = Some (k, bs) \<Longrightarrow> k < c \<Longrightarrow>
    \<exists>s'. wait_complete c A r s = Ret s' \<and> due s' r = Some (0, bs) \<and> (\<forall>ep. q ep s' = q ep s) \<and> aged (due s) (due s')"
proof (induction c arbitrary: s k)
  case (Suc c)
  show ?case
  proof (cases k)
    case 0
    with Suc.prems show ?thesis
      by (intro exI [of _ s]) (simp add: ucx_finishesD(3) [OF assms Suc.prems(1)])
  next
    case (Suc j)
    let ?s = "ux_progress A s"
    have "due ?s r = Some (j, bs)" "j < c"
      using Suc.prems Suc by (simp_all add: ucx_finishesD(2) [OF assms])
    from Suc.IH [OF this] obtain s' where
      "wait_complete c A r ?s = Ret s'" "due s' r = Some (0, bs)" "\<forall>ep. q ep s' = q ep ?s" "aged (due ?s) (due s')"
      by blast
    moreover have "\<not> ux_done A r s" using ucx_finishesD(3) [OF assms Suc.prems(1)] Suc by simp
    ultimately show ?thesis
      using ucx_finishesD(1) [OF assms] aged_trans [OF aged_progress [OF assms, of s]]
      by (intro exI [of _ s']) auto
  qed
qed simp

lemma request_wait_due:
  assumes "ucx_finishes A q due" and "due s r = Some (k, bs)" and "k < c"
  shows "\<exists>s'. request_wait c A (Req r) True s = Ret (UCS_OK, Req_freed, bs, s') \<and> (\<forall>ep. q ep s' = q ep s)
    \<and> aged ((due s)(r := None)) (due s')"
proof -
  from wait_complete_due [OF assms] obtain s1 where
    s1: "wait_complete c A r s = Ret s1" "due s1 r = Some (0, bs)" "\<forall>ep. q ep s1 = q ep s" "aged (due s) (due s1)"
    by blast
  let ?s = "ux_request_free A r s1"
  have "request_wait c A (Req r) True s = Ret (UCS_OK, Req_freed, bs, ?s)"
    using s1(1) ucx_finishesD(4,5) [OF assms(1) s1(2)] by (simp add: request_wait_def Let_def)
  moreover have "due ?s = (due s1)(r := None)" "\<forall>ep. q ep ?s = q ep s"
    using s1(3) ucx_finishesD(6,7) [OF assms(1)] by auto
  moreover have "aged ((due s)(r := None)) ((due s1)(r := None))"
    using s1(4) by (auto simp: aged_def)
  ultimately show ?thesis by (intro exI [of _ ?s]) auto
qed

lemma request_wait_started:
  assumes "ucx_finishes A q due" and "starts due lag p bs s s'" and "lag < c"
  shows "\<exists>p' s''. request_wait c A p True s' = Ret (UCS_OK, p', if p = Req_null then [] else bs, s'')
    \<and> (\<forall>ep. q ep s'' = q ep s') \<and> aged (due s) (due s'')"
proof (cases "p = Req_null")
  case True
  with assms(2) show ?thesis by (simp add: request_wait_def starts_def)
next
  case False
  with assms(2) obtain r k where r: "p = Req r" "k \<le> lag" "due s r = None" "due s' = (due s)(r \<mapsto> (k, bs))"
    by (auto simp: starts_def)
  then have "due s' r = Some (k, bs)" "k < c" using assms(3) by simp_all
  from request_wait_due [OF assms(1) this] obtain s'' where
    "request_wait c A (Req r) True s' = Ret (UCS_OK, Req_freed, bs, s'')" "\<forall>ep. q ep s'' = q ep s'"
    "aged ((due s')(r := None)) (due s'')" by blast
  moreover have "(due s')(r := None) = due s" using r(3,4) by (simp add: fun_upd_idem)
  ultimately show ?thesis unfolding r(1) by (intro exI [of _ Req_freed] exI [of _ s'']) simp
qed

section \<open>Receiving\<close>

abbreviation received :: "hid \<Rightarrow> 'o \<Rightarrow> ('o, 'm, 'x) ucx_world \<Rightarrow> ('o, 'm, 'x) ucx_world" where
  "received h s \<equiv> with_net (\<lambda>t. t\<lparr>ux_request := (ux_request t)(h := Req_null), ux_os := s\<rparr>)"

lemma with_net_eqI: "f (net w) = g (net w) \<Longrightarrow> with_net f w = with_net g w"
  by (simp add: with_net_def)

lemma set_ux_None: "set_ux None s w = with_net (\<lambda>t. t\<lparr>ux_os := s\<rparr>) w"
  by (simp add: set_ux_def with_net_def keep_errno_def)

lemma receive_fresh:
  assumes "ucx_receives A lag inq due" and "ucx_finishes A inq due" and "lag < c"
    and "heap w h = Some ob" and "ux_request (net w) h = Req_null"
    and "unat n \<le> length (inq (endpoint (net w) h) (ux_os (net w)))"
  shows "\<exists>s. receive_internal c A h n True w = Ret (ssize_of n, True,
        take (unat n) (inq (endpoint (net w) h) (ux_os (net w))), received h s w)
    \<and> (\<forall>q. inq q s = (if q = endpoint (net w) h then drop (unat n) (inq q (ux_os (net w))) else inq q (ux_os (net w))))
    \<and> aged (due (ux_os (net w))) (due s)"
proof -
  let ?ep = "endpoint (net w) h" and ?s = "ux_os (net w)"
  from ucx_receivesD [OF assms(1,6)] obtain p s1 where
    r: "ux_stream_recv A ?ep (unat n) ?s = ((p, if p = Req_null then take (unat n) (inq ?ep ?s) else []), s1)"
    and st: "starts due lag p (take (unat n) (inq ?ep ?s)) ?s s1"
    and q: "\<forall>q. inq q s1 = (if q = ?ep then drop (unat n) (inq ?ep ?s) else inq q ?s)" by blast
  from request_wait_started [OF assms(2) st assms(3)] obtain p' s2 where
    w: "request_wait c A p True s1 = Ret (UCS_OK, p', if p = Req_null then [] else take (unat n) (inq ?ep ?s), s2)"
    "\<forall>ep. inq ep s2 = inq ep s1" "aged (due ?s) (due s2)" by blast
  have "receive_internal c A h n True w = Ret (ssize_of n, True, take (unat n) (inq ?ep ?s), received h s2 w)"
    using r w(1) assms(4,5)
    by (simp add: receive_internal_def obj_Some Let_def set_ux_None with_net_def)
  with w(2,3) q show ?thesis by (intro exI [of _ s2]) auto
qed

lemma recv_pending_request:
  assumes "ucx_finishes A inq due" and "heap w h = Some ob" and "ux_request (net w) h = Req r"
    and "due (ux_os (net w)) r = Some (k, bs)" and "k < c"
  shows "\<exists>s. receive_internal c A h n True w = Ret (ssize_of n, False, bs, received h s w)
    \<and> (\<forall>q. inq q s = inq q (ux_os (net w))) \<and> aged ((due (ux_os (net w)))(r := None)) (due s)"
proof -
  from request_wait_due [OF assms(1,4,5)] obtain s where
    s: "request_wait c A (Req r) True (ux_os (net w)) = Ret (UCS_OK, Req_freed, bs, s)"
    "\<forall>q. inq q s = inq q (ux_os (net w))" "aged ((due (ux_os (net w)))(r := None)) (due s)" by blast
  have "receive_internal c A h n True w = Ret (ssize_of n, False, bs, received h s w)"
    using s(1) assms(2,3) by (simp add: receive_internal_def obj_Some Let_def set_ux_None with_net_def)
  with s(2,3) show ?thesis by blast
qed

section \<open>UCX carries the collectives\<close>

text \<open>
  The endpoints of the members are different, and so are the requests that are left pending. What a member
  has sent is in its stream, but for a header that a pending request has been made for.
\<close>

definition own_endpoints :: "'o dues \<Rightarrow> hid set \<Rightarrow> ('o, 'm) ucx_state_scheme \<Rightarrow> bool" where
  "own_endpoints due P t \<longleftrightarrow> inj_on (endpoint t) P
     \<and> (\<forall>h \<in> P. \<forall>r. ux_request t h = Req r \<longrightarrow> due (ux_os t) r \<noteq> None)
     \<and> (\<forall>h \<in> P. \<forall>k \<in> P. \<forall>r. ux_request t h = Req r \<and> ux_request t k = Req r \<longrightarrow> h = k)"

definition ucx_stream ::
  "nat \<Rightarrow> (nat \<Rightarrow> 'o \<Rightarrow> byte list) \<Rightarrow> 'o dues \<Rightarrow> ('o, 'm) ucx_state_scheme \<Rightarrow> hid \<Rightarrow> byte list \<Rightarrow> bool" where
  "ucx_stream c inq due t h bytes \<longleftrightarrow> last_probe t h = -1 \<and> length (test_probe t h) = 8
     \<and> (ux_request t h = Req_null \<and> inq (endpoint t h) (ux_os t) = bytes
       \<or> (\<exists>r k hdr. ux_request t h = Req r \<and> due (ux_os t) r = Some (k, hdr) \<and> k < c \<and> length hdr = 8
            \<and> hdr @ inq (endpoint t h) (ux_os t) = bytes))"

definition ucx_inbox ::
  "nat \<Rightarrow> (nat \<Rightarrow> 'o \<Rightarrow> byte list) \<Rightarrow> 'o dues \<Rightarrow> ('o, 'm) ucx_state_scheme \<Rightarrow> hid \<Rightarrow> byte list list \<Rightarrow> bool" where
  "ucx_inbox c inq due t h ms \<longleftrightarrow> (\<exists>rest. ucx_stream c inq due t h (wire ms @ rest))"

text \<open>The same, when it is known what follows the messages.\<close>

definition ucx_left ::
  "(hid \<Rightarrow> byte list \<Rightarrow> bool) \<Rightarrow> nat \<Rightarrow> (nat \<Rightarrow> 'o \<Rightarrow> byte list) \<Rightarrow> 'o dues \<Rightarrow> ('o, 'm) ucx_state_scheme \<Rightarrow> hid
     \<Rightarrow> byte list list \<Rightarrow> bool" where
  "ucx_left R c inq due t h ms \<longleftrightarrow> (\<exists>rest. R h rest \<and> ucx_stream c inq due t h (wire ms @ rest))"

lemma own_endpointsD:
  "own_endpoints due P t \<Longrightarrow> h \<in> P \<Longrightarrow> k \<in> P \<Longrightarrow> endpoint t h = endpoint t k \<longleftrightarrow> h = k"
  by (auto simp: own_endpoints_def dest: inj_onD)

text \<open>What a finished receive on \<open>h\<close> leaves of the other handles: \<open>D\<close> are the requests of the others.\<close>

definition others_kept ::
  "(nat \<Rightarrow> 'o \<Rightarrow> byte list) \<Rightarrow> 'o dues \<Rightarrow> ('o, 'm) ucx_state_scheme \<Rightarrow> hid \<Rightarrow> 'o \<Rightarrow> bool" where
  "others_kept inq due t h s \<longleftrightarrow> (\<forall>q. q \<noteq> endpoint t h \<longrightarrow> inq q s = inq q (ux_os t))
     \<and> (\<forall>r k bs. due (ux_os t) r = Some (k, bs) \<and> ux_request t h \<noteq> Req r \<longrightarrow> (\<exists>k' \<le> k. due s r = Some (k', bs)))"

lemma others_kept_step:
  assumes "own_endpoints due P t" and "h \<in> P" and "others_kept inq due t h s"
    and "endpoint t' = endpoint t" and "ux_request t' = (ux_request t)(h := Req_null)" and "ux_os t' = s"
    and "\<forall>k. k \<noteq> h \<longrightarrow> last_probe t' k = last_probe t k \<and> test_probe t' k = test_probe t k"
  shows "own_endpoints due P t'"
    and "k \<in> P \<Longrightarrow> k \<noteq> h \<Longrightarrow> ucx_stream c inq due t k bytes \<Longrightarrow> ucx_stream c inq due t' k bytes"
proof -
  have others: "\<exists>k' \<le> j. due s r = Some (k', bs)" if "k \<in> P" "k \<noteq> h" "ux_request t k = Req r" "due (ux_os t) r = Some (j, bs)"
    for k r j bs
  proof -
    have "ux_request t h \<noteq> Req r" using assms(1,2) that(1-3) unfolding own_endpoints_def by blast
    with assms(3) that(4) show ?thesis unfolding others_kept_def by blast
  qed
  have "due s r \<noteq> None" if k: "k \<in> P" "k \<noteq> h" "ux_request t k = Req r" for k r
  proof -
    obtain j bs where "due (ux_os t) r = Some (j, bs)" using assms(1) k(1,3) unfolding own_endpoints_def by fastforce
    from others [OF k this] show ?thesis by auto
  qed
  with assms(1,4-6) show "own_endpoints due P t'"
    unfolding own_endpoints_def by (auto split: if_splits)
  assume k: "k \<in> P" "k \<noteq> h" and st: "ucx_stream c inq due t k bytes"
  have "endpoint t k \<noteq> endpoint t h" using own_endpointsD [OF assms(1) k(1) assms(2)] k(2) by simp
  with assms(3) have q: "inq (endpoint t k) s = inq (endpoint t k) (ux_os t)" unfolding others_kept_def by blast
  from st consider (null) "ux_request t k = Req_null" "inq (endpoint t k) (ux_os t) = bytes"
    | (req) r j hdr where "ux_request t k = Req r" "due (ux_os t) r = Some (j, hdr)" "j < c" "length hdr = 8"
        "hdr @ inq (endpoint t k) (ux_os t) = bytes"
    unfolding ucx_stream_def by blast
  then show "ucx_stream c inq due t' k bytes"
  proof cases
    case null
    with st q k assms(4-7) show ?thesis unfolding ucx_stream_def by simp
  next
    case req
    from others [OF k req(1,2)] obtain j' where "j' \<le> j" "due s r = Some (j', hdr)" by blast
    with st q k assms(4-7) req show ?thesis unfolding ucx_stream_def by auto
  qed
qed

text \<open>A blocking receive of the eight bytes of a header, whether or not one is pending.\<close>

lemma receive_header:
  assumes "ucx_receives A lag inq due" and "ucx_finishes A inq due" and "lag < c"
    and "heap w h = Some ob" and "ucx_stream c inq due (net w) h (hdr @ rest)" and "length hdr = 8"
  shows "\<exists>made s. receive_internal c A h 8 True w = Ret (8, made, hdr, received h s w)
    \<and> inq (endpoint (net w) h) s = rest \<and> others_kept inq due (net w) h s"
proof -
  let ?t = "net w"
  from assms(5) consider (null) "ux_request ?t h = Req_null" "inq (endpoint ?t h) (ux_os ?t) = hdr @ rest"
    | (req) r k hdr' where "ux_request ?t h = Req r" "due (ux_os ?t) r = Some (k, hdr')" "k < c" "length hdr' = 8"
        "hdr' @ inq (endpoint ?t h) (ux_os ?t) = hdr @ rest"
    unfolding ucx_stream_def by blast
  then show ?thesis
  proof cases
    case null
    have "unat (8 :: u64) \<le> length (inq (endpoint ?t h) (ux_os ?t))" using null(2) assms(6) by simp
    from receive_fresh [OF assms(1-4) null(1) this] obtain s where
      "receive_internal c A h 8 True w = Ret (8, True, hdr, received h s w)"
      "\<forall>q. inq q s = (if q = endpoint ?t h then drop 8 (inq q (ux_os ?t)) else inq q (ux_os ?t))"
      "aged (due (ux_os ?t)) (due s)"
      using null(2) assms(6) by (auto simp: ssize_of_def)
    with null assms(6) show ?thesis
      by (intro exI [of _ True] exI [of _ s]) (auto simp: others_kept_def aged_def)
  next
    case req
    then have hdr: "hdr' = hdr" "inq (endpoint ?t h) (ux_os ?t) = rest" using assms(6) by simp_all
    from recv_pending_request [OF assms(2,4) req(1-3), of 8] obtain s where
      "receive_internal c A h 8 True w = Ret (8, False, hdr, received h s w)"
      "\<forall>q. inq q s = inq q (ux_os ?t)" "aged ((due (ux_os ?t))(r := None)) (due s)"
      using hdr by (auto simp: ssize_of_def)
    with req hdr show ?thesis
      by (intro exI [of _ False] exI [of _ s]) (auto simp: others_kept_def aged_def)
  qed
qed

definition probed_world :: "hid \<Rightarrow> nat \<Rightarrow> 'o \<Rightarrow> ('o, 'm, 'x) ucx_world \<Rightarrow> ('o, 'm, 'x) ucx_world" where
  "probed_world h n s = with_net (\<lambda>t. t\<lparr>ux_request := (ux_request t)(h := Req_null), ux_os := s,
     test_probe := (test_probe t)(h := le_bytes (htobe64 (of_nat n))), last_probe := (last_probe t)(h := int n)\<rparr>)"

lemma with_net_twice: "with_net g (with_net f w) = with_net (\<lambda>t. g (f t)) w"
  by (simp add: with_net_def)

lemma into_header:
  assumes "length (test_probe (net w) h) = 8" and "length hdr = 8"
  shows "into_test_probe h hdr (received h s w) = with_net (\<lambda>t. t\<lparr>ux_request := (ux_request t)(h := Req_null),
     ux_os := s, test_probe := (test_probe t)(h := hdr)\<rparr>) w"
  using assms by (simp add: into_test_probe_def with_net_def)

lemma ucx_probe_header:
  assumes "ucx_receives A lag inq due" and "ucx_finishes A inq due" and "lag < c" and "heap w h = Some ob"
    and "ucx_stream c inq due (net w) h (concat (tcp_frame m) @ rest)" and "m \<noteq> []" and "length m < 2 ^ 31"
  shows "\<exists>s. ucx_probe c A h True sz w = Ret (8, of_nat (length m), probed_world h (length m) s w)
    \<and> inq (endpoint (net w) h) s = m @ rest \<and> others_kept inq due (net w) h s"
proof -
  let ?hdr = "le_bytes (htobe64 (of_nat (length m)))"
  have st: "ucx_stream c inq due (net w) h (?hdr @ (m @ rest))" using assms(5) by (simp add: tcp_frame_def)
  have len: "length ?hdr = 8" by simp
  from receive_header [OF assms(1-4) st len] obtain made s where
    r: "receive_internal c A h 8 True w = Ret (8, made, ?hdr, received h s w)"
    and s: "inq (endpoint (net w) h) s = m @ rest" "others_kept inq due (net w) h s" by blast
  have t: "last_probe (net w) h = -1" "length (test_probe (net w) h) = 8" using assms(5) by (simp_all add: ucx_stream_def)
  have "of_nat (length m) \<noteq> (0 :: u64)" "ssize_of (of_nat (length m)) = int (length m)"
    using assms(6,7) by (simp_all add: of_nat_u64_eq_0 ssize_of_nat)
  then have "ucx_probe c A h True sz w = Ret (8, of_nat (length m), probed_world h (length m) s w)"
    using r t assms(4) unfolding ucx_probe_def probed_world_def
    by (simp add: obj_Some Let_def into_header with_net_twice)
  with s show ?thesis by blast
qed

lemma ucx_receive_payload:
  assumes "ucx_receives A lag inq due" and "ucx_finishes A inq due" and "lag < c" and "heap w h = Some ob"
    and "ux_request (net w) h = Req_null" and "inq (endpoint (net w) h) (ux_os (net w)) = m @ rest"
    and "length m < 2 ^ 31"
  shows "\<exists>s. ucx_receive c A h (of_nat (length m)) w = Ret (int (length m), m,
        with_net (\<lambda>t. t\<lparr>last_probe := (last_probe t)(h := -1)\<rparr>) (received h s w))
    \<and> inq (endpoint (net w) h) s = rest \<and> others_kept inq due (net w) h s"
proof -
  have n: "unat (of_nat (length m) :: u64) = length m" "ssize_of (of_nat (length m)) = int (length m)"
    using assms(7) by (simp_all add: unat_of_nat_u64 ssize_of_nat)
  have le: "unat (of_nat (length m) :: u64) \<le> length (inq (endpoint (net w) h) (ux_os (net w)))"
    using n assms(6) by simp
  from receive_fresh [OF assms(1-5) le] obtain s where
    "receive_internal c A h (of_nat (length m)) True w = Ret (int (length m), True, m, received h s w)"
    "\<forall>q. inq q s = (if q = endpoint (net w) h then drop (length m) (inq q (ux_os (net w))) else inq q (ux_os (net w)))"
    "aged (due (ux_os (net w))) (due s)"
    using n assms(6) by auto
  with assms(5,6) show ?thesis
    by (intro exI [of _ s]) (auto simp: ucx_receive_def others_kept_def aged_def)
qed

lemma ucx_left_delivers:
  assumes "ucx_receives A lag inq due" and "ucx_finishes A inq due" and "lag < c"
  shows "delivers (ucx_vtable c A addinQ :: ('o, 'm, 'x) ucx_world vtable) (own_endpoints due P) (ucx_left R c inq due) P"
  unfolding delivers_def
proof (intro ballI allI impI)
  fix h m ms sz and w :: "('o, 'm, 'x) ucx_world"
  assume h: "h \<in> P" and a: "own_endpoints due P (net w) \<and> heap w h \<noteq> None \<and> ucx_left R c inq due (net w) h (m # ms)
    \<and> m \<noteq> [] \<and> length m < 2 ^ 31"
  from a obtain ob rest where ob: "heap w h = Some ob" and rest: "R h rest"
    and st: "ucx_stream c inq due (net w) h (concat (tcp_frame m) @ (wire ms @ rest))"
    by (auto simp: ucx_left_def)
  from ucx_probe_header [OF assms ob st, of sz] a obtain s1 where
    s1: "ucx_probe c A h True sz w = Ret (8, of_nat (length m), probed_world h (length m) s1 w)"
    "inq (endpoint (net w) h) s1 = m @ wire ms @ rest" "others_kept inq due (net w) h s1" by blast
  let ?w1 = "probed_world h (length m) s1 w"
  have n1: "heap ?w1 = heap w" "net ?w1 = (net w)\<lparr>ux_request := (ux_request (net w))(h := Req_null), ux_os := s1,
     test_probe := (test_probe (net w))(h := le_bytes (htobe64 (of_nat (length m)))),
     last_probe := (last_probe (net w))(h := int (length m))\<rparr>" by (simp_all add: probed_world_def)
  have I1: "own_endpoints due P (net ?w1)"
    "ucx_stream c inq due (net w) k bs \<Longrightarrow> k \<in> P \<Longrightarrow> k \<noteq> h \<Longrightarrow> ucx_stream c inq due (net ?w1) k bs" for k bs
    using others_kept_step [of due P "net w" h inq s1 "net ?w1"] a h s1(3) n1(2) by simp_all
  have "\<exists>w2. vt_receive (ucx_vtable c A addinQ) h (of_nat (length m)) (put_obj h ob' ?w1) =
        Ret (int (length m), m, w2) \<and> heap w2 = (heap w)(h \<mapsto> ob') \<and> own_endpoints due P (net w2)
      \<and> ucx_left R c inq due (net w2) h ms
      \<and> (\<forall>k \<in> P. \<forall>ns. k \<noteq> h \<and> ucx_left R c inq due (net w) k ns \<longrightarrow> ucx_left R c inq due (net w2) k ns)" for ob'
  proof -
    let ?v = "put_obj h ob' ?w1"
    have nv: "net ?v = net ?w1" "heap ?v = (heap w)(h \<mapsto> ob')" using n1(1) by (simp_all add: put_obj_def)
    have v: "heap ?v h = Some ob'" "ux_request (net ?v) h = Req_null"
      "inq (endpoint (net ?v) h) (ux_os (net ?v)) = m @ wire ms @ rest" "length m < 2 ^ 31"
      using nv n1 s1(2) a by simp_all
    from ucx_receive_payload [OF assms v] obtain s2 where
      s2: "ucx_receive c A h (of_nat (length m)) ?v = Ret (int (length m), m,
        with_net (\<lambda>t. t\<lparr>last_probe := (last_probe t)(h := -1)\<rparr>) (received h s2 ?v))"
      "inq (endpoint (net ?v) h) s2 = wire ms @ rest" "others_kept inq due (net ?v) h s2" by blast
    let ?w2 = "with_net (\<lambda>t. t\<lparr>last_probe := (last_probe t)(h := -1)\<rparr>) (received h s2 ?v)"
    have ok: "own_endpoints due P (net ?v)" using I1(1) nv(1) by simp
    have n2: "endpoint (net ?w2) = endpoint (net ?v)" "ux_request (net ?w2) = (ux_request (net ?v))(h := Req_null)"
      "ux_os (net ?w2) = s2"
      "\<forall>k. k \<noteq> h \<longrightarrow> last_probe (net ?w2) k = last_probe (net ?v) k \<and> test_probe (net ?w2) k = test_probe (net ?v) k"
      by simp_all
    note step = others_kept_step [OF ok h s2(3) n2]
    have "ucx_left R c inq due (net ?w2) h ms"
      using s2(2) n1(2) nv(1) rest by (auto simp: ucx_left_def ucx_stream_def)
    moreover have "ucx_left R c inq due (net ?w2) k ns" if k: "k \<in> P" "k \<noteq> h" and b: "ucx_left R c inq due (net w) k ns" for k ns
    proof -
      from b obtain r where r: "R k r" "ucx_stream c inq due (net w) k (wire ns @ r)" unfolding ucx_left_def by blast
      from r(2) have "ucx_stream c inq due (net ?v) k (wire ns @ r)" unfolding nv(1) using k by (rule I1(2))
      from step(2) [OF k this] r(1) show ?thesis unfolding ucx_left_def by blast
    qed
    moreover have "heap ?w2 = (heap w)(h \<mapsto> ob')" using nv(2) by simp
    moreover have "vt_receive (ucx_vtable c A addinQ) h (of_nat (length m)) ?v = Ret (int (length m), m, ?w2)"
      using s2(1) by (simp add: ucx_vtable_def)
    ultimately show ?thesis using step(1) by blast
  qed
  with s1(1) n1(1) show "\<exists>w1. vt_probe (ucx_vtable c A addinQ) h True sz w = Ret (8, of_nat (length m), w1)
      \<and> heap w1 = heap w \<and> (\<forall>ob. \<exists>w2. vt_receive (ucx_vtable c A addinQ) h (of_nat (length m)) (put_obj h ob w1) =
          Ret (int (length m), m, w2) \<and> heap w2 = (heap w)(h \<mapsto> ob) \<and> own_endpoints due P (net w2)
        \<and> ucx_left R c inq due (net w2) h ms
        \<and> (\<forall>k \<in> P. \<forall>ns. k \<noteq> h \<and> ucx_left R c inq due (net w) k ns \<longrightarrow> ucx_left R c inq due (net w2) k ns))"
    by (intro exI [of _ ?w1]) (simp add: ucx_vtable_def)
qed

lemma ucx_delivers:
  assumes "ucx_receives A lag inq due" and "ucx_finishes A inq due" and "lag < c"
  shows "delivers (ucx_vtable c A addinQ :: ('o, 'm, 'x) ucx_world vtable) (own_endpoints due P) (ucx_inbox c inq due) P"
proof -
  have "ucx_inbox c inq due = (ucx_left (\<lambda>_ _. True) c inq due :: ('o, 'm) ucx_state_scheme \<Rightarrow> _)"
    by (simp add: fun_eq_iff ucx_inbox_def ucx_left_def)
  with ucx_left_delivers [OF assms] show ?thesis by simp
qed

lemma ucx_send_iov_appends:
  assumes "ucx_sends A lag outq due" and "ucx_finishes A outq due" and "lag < c" and "heap w h = Some ob"
  shows "\<exists>s. ucx_send_iov c A h iov result w = Ret (result, set_ux None s w) \<and> aged (due (ux_os (net w))) (due s)
    \<and> (\<forall>q. outq q s = (if q = endpoint (net w) h then outq q (ux_os (net w)) @ concat iov else outq q (ux_os (net w))))"
proof -
  let ?ep = "endpoint (net w) h" and ?s = "ux_os (net w)"
  from ucx_sendsD [OF assms(1)] obtain p s1 where
    s1: "ux_stream_send A ?ep iov ?s = (p, s1)" "starts due lag p [] ?s s1"
    "\<forall>q. outq q s1 = (if q = ?ep then outq ?ep ?s @ concat iov else outq q ?s)" .
  from request_wait_started [OF assms(2) s1(2) assms(3)] obtain p' s2 where
    s2: "request_wait c A p True s1 = Ret (UCS_OK, p', [], s2)" "\<forall>q. outq q s2 = outq q s1"
    "aged (due ?s) (due s2)" by auto
  with s1 assms(4) show ?thesis
    by (intro exI [of _ s2]) (simp add: ucx_send_iov_def obj_Some Let_def)
qed

lemma ucx_sends_to:
  assumes "ucx_sends A lag outq due" and "ucx_finishes A outq due" and "lag < c"
  shows "sends_to (ucx_vtable c A addinQ :: ('o, 'm, 'x) ucx_world vtable) (own_endpoints due P)
    (\<lambda>bs. concat (tcp_frame bs)) (\<lambda>t h. outq (endpoint t h) (ux_os t)) P"
  unfolding sends_to_def
proof (intro ballI allI impI)
  fix h and bs :: "byte list" and w :: "('o, 'm, 'x) ucx_world"
  assume h: "h \<in> P" and a: "own_endpoints due P (net w) \<and> heap w h \<noteq> None \<and> length bs < 2 ^ 31"
  then obtain ob where ob: "heap w h = Some ob" by auto
  have len: "ssize_of (of_nat (length bs)) = int (length bs)" using a by (intro ssize_of_nat) simp
  from ucx_send_iov_appends [OF assms ob] obtain s where
    s: "ucx_send_iov c A h (tcp_frame bs) (int (length bs)) w = Ret (int (length bs), set_ux None s w)"
    "aged (due (ux_os (net w))) (due s)"
    "\<forall>q. outq q s = (if q = endpoint (net w) h then outq q (ux_os (net w)) @ concat (tcp_frame bs)
       else outq q (ux_os (net w)))" by blast
  have "due s r \<noteq> None" if "k \<in> P" "ux_request (net w) k = Req r" for k r
  proof -
    have "due (ux_os (net w)) r \<noteq> None" using a that unfolding own_endpoints_def by blast
    then obtain v where "due (ux_os (net w)) r = Some v" by blast
    with aged_due [OF s(2), of r "fst v" "snd v"] show ?thesis by simp
  qed
  then have "own_endpoints due P (net (set_ux None s w))" using a unfolding own_endpoints_def by simp
  moreover have "outq (endpoint (net w) k) s = (if k = h then outq (endpoint (net w) k) (ux_os (net w)) @ concat (tcp_frame bs)
      else outq (endpoint (net w) k) (ux_os (net w)))" if "k \<in> P" for k
    using s(3) own_endpointsD [of due P "net w" k h] a h that by simp
  moreover have "vt_send (ucx_vtable c A addinQ) h bs w = Ret (int (length bs), set_ux None s w)"
    using s(1) len by (simp add: ucx_vtable_def ucx_send_def tcp_frame_def)
  ultimately show "\<exists>w'. vt_send (ucx_vtable c A addinQ) h bs w = Ret (int (length bs), w') \<and> heap w' = heap w
      \<and> own_endpoints due P (net w') \<and> (\<forall>k \<in> P. outq (endpoint (net w') k) (ux_os (net w')) =
          (if k = h then outq (endpoint (net w) k) (ux_os (net w)) @ concat (tcp_frame bs)
           else outq (endpoint (net w) k) (ux_os (net w))))"
    by (intro exI [of _ "set_ux None s w"]) simp
qed

text \<open>C20: Over UCX, when streams keep their order and every request finishes after at most \<open>lag\<close> rounds of
  progress, handles with endpoints of their own provide what the collectives rely on: a message goes to
  the stream of its handle only, and what a member has sent is delivered message by message, also when the
  header of the next message has been asked for without blocking and is still on its way.\<close>

theorem ucx_carries_collectives:
  assumes "ucx_sends A lag outq due" and "ucx_finishes A outq due" and "ucx_receives A lag inq due"
    and "ucx_finishes A inq due" and "lag < c"
  shows "sends_to (ucx_vtable c A addinQ) (own_endpoints due P) (\<lambda>bs. concat (tcp_frame bs))
      (\<lambda>t h. outq (endpoint t h) (ux_os t)) P
    \<and> delivers (ucx_vtable c A addinQ) (own_endpoints due P) (ucx_inbox c inq due) P"
  using ucx_sends_to [OF assms(1,2,5)] ucx_delivers [OF assms(3-5)] by (rule conjI)

text \<open>A library whose receives take two rounds of progress, unless one is in progress on the endpoint.\<close>

type_synonym ucx_qs = "(nat \<Rightarrow> byte list) \<times> (nat \<Rightarrow> byte list) \<times> (nat \<rightharpoonup> nat \<times> byte list)"

definition sample_ucx :: "ucx_qs ucx_lib" where
  "sample_ucx = \<lparr>sk_read = (\<lambda>fd n s. (RBytes [], s)), sk_recv_nowait = (\<lambda>fd n s. (RBytes [], s)),
     sk_recv_peek = (\<lambda>fd n s. (RBytes [], s)), sk_write = (\<lambda>fd bs s. (WOk (length bs), s)),
     sk_writev = (\<lambda>fd iov s. (WOk (length (concat iov)), s)), sk_junk = replicate 8 255,
     sk_fcntl_getfl = (\<lambda>fd s. ((0, None), s)), sk_fcntl_setfl = (\<lambda>fd fl s. ((0, None), s)),
     sk_connect = (\<lambda>fd a s. ((0, None), s)), sk_clock = (\<lambda>s. (((0, None), (0, 0)), s)),
     sk_poll_out = (\<lambda>fd ms s. ((0, None), s)), sk_so_error = (\<lambda>fd s. (((0, None), OK_errno), s)),
     sk_getaddrinfo = (\<lambda>passive host svc s. (Some [[1]], s)), sk_socket = (\<lambda>a s. ((5, None), s)),
     sk_setsockopt = (\<lambda>fd s. ((0, None), s)), sk_bind = (\<lambda>fd a s. ((0, None), s)),
     sk_listen = (\<lambda>fd n s. ((0, None), s)), sk_accept = (\<lambda>fd s. ((6, None), s)),
     sk_select = (\<lambda>nfds S s. (((0, None), {}), s)),
     sk_shutdown_wr = (\<lambda>fd s. s), sk_shutdown_rd = (\<lambda>fd s. s), sk_close = (\<lambda>fd s. s), sk_sleep_ms = (\<lambda>t s. s),
     ux_stream_send = (\<lambda>ep iov (i, q, d). (Req_null, (i, q(ep := q ep @ concat iov), d))),
     ux_stream_recv = (\<lambda>ep n (i, q, d).
       if d ep = None then ((Req ep, []), (i(ep := drop n (i ep)), q, d(ep \<mapsto> (2, take n (i ep)))))
       else ((Req_null, take n (i ep)), (i(ep := drop n (i ep)), q, d))),
     ux_progress = (\<lambda>(i, q, d). (i, q, \<lambda>r. map_option (\<lambda>(k, bs). (k - 1, bs)) (d r))),
     ux_done = (\<lambda>r (i, q, d). case d r of Some (k, _) \<Rightarrow> k = 0 | None \<Rightarrow> False),
     ux_data = (\<lambda>r (i, q, d). case d r of Some (_, bs) \<Rightarrow> bs | None \<Rightarrow> []),
     ux_check_status = (\<lambda>r s. UCS_OK), ux_request_free = (\<lambda>r (i, q, d). (i, q, d(r := None))),
     ux_config_read = (\<lambda>s. (UCS_OK, s)), ux_init = (\<lambda>s. (UCS_OK, s)), ux_worker_create = (\<lambda>s. (UCS_OK, s)),
     ux_worker_address = (\<lambda>s. ((UCS_OK, [1, 2, 3]), s)), ux_ep_create = (\<lambda>a s. ((UCS_OK, length a), s)),
     ux_ep_close = (\<lambda>ep s. (Req_null, s)),
     ux_worker_poll = (\<lambda>n s. (Some (filter (\<lambda>ep. fst s ep \<noteq> []) [0..<n]), s)), ux_cleanup = (\<lambda>s. s),
     ux_sock_send = (\<lambda>fd bs (i, q, d). (to_int (of_nat (length bs)), (i, q(nat fd := q (nat fd) @ bs), d))),
     ux_sock_recv = (\<lambda>fd n (i, q, d). ((to_int (of_nat (length (take n (i (nat fd))))), take n (i (nat fd))),
       (i(nat fd := drop n (i (nat fd))), q, d))),
     ux_malloc = (\<lambda>n s. (True, s))\<rparr>"

abbreviation sample_in :: "nat \<Rightarrow> ucx_qs \<Rightarrow> byte list" where
  "sample_in ep s \<equiv> fst s ep"

abbreviation sample_out :: "nat \<Rightarrow> ucx_qs \<Rightarrow> byte list" where
  "sample_out ep s \<equiv> fst (snd s) ep"

abbreviation sample_due :: "ucx_qs dues" where
  "sample_due s \<equiv> snd (snd s)"

lemma sample_ucx_sends: "ucx_sends sample_ucx 2 sample_out sample_due"
  by (auto simp: ucx_sends_def sample_ucx_def starts_def)

lemma sample_ucx_receives: "ucx_receives sample_ucx 2 sample_in sample_due"
proof -
  have "\<exists>p s'. ux_stream_recv sample_ucx ep n s = ((p, if p = Req_null then take n (sample_in ep s) else []), s')
      \<and> starts sample_due 2 p (take n (sample_in ep s)) s s'
      \<and> (\<forall>q. sample_in q s' = (if q = ep then drop n (sample_in ep s) else sample_in q s))" for ep n s
  proof -
    obtain i q d where s: "s = (i, q, d)" by (metis surj_pair)
    show ?thesis
    proof (cases "d ep")
      case None
      then show ?thesis unfolding s
        by (intro exI [of _ "Req ep"] exI [of _ "(i(ep := drop n (i ep)), q, d(ep \<mapsto> (2, take n (i ep))))"])
          (simp add: sample_ucx_def starts_def exI [of _ 2])
    next
      case (Some v)
      then show ?thesis unfolding s
        by (intro exI [of _ Req_null] exI [of _ "(i(ep := drop n (i ep)), q, d)"])
          (simp add: sample_ucx_def starts_def)
    qed
  qed
  then show ?thesis unfolding ucx_receives_def by blast
qed

lemma sample_ucx_finishes:
  "ucx_finishes sample_ucx sample_in sample_due" "ucx_finishes sample_ucx sample_out sample_due"
  by (auto simp: ucx_finishes_def sample_ucx_def)

theorem ucx_carries_collectives_witness:
  "delivers (ucx_vtable 3 sample_ucx (\<lambda>b h w. Ret w) :: (ucx_qs, unit, unit) ucx_world vtable)
     (own_endpoints sample_due {1, 2}) (ucx_inbox 3 sample_in sample_due) {1, 2}"
proof -
  have "(2 :: nat) < 3" by simp
  from ucx_carries_collectives [OF sample_ucx_sends sample_ucx_finishes(2) sample_ucx_receives sample_ucx_finishes(1) this]
  show ?thesis by (rule conjunct2)
qed

section \<open>Asking for a header without blocking\<close>

text \<open>\<open>probe(size, false)\<close> again and again while nothing is there: the number of tries that found nothing.\<close>

fun probe_until ::
  "nat \<Rightarrow> nat \<Rightarrow> ('o, 'a) ucx_lib_scheme \<Rightarrow> hid \<Rightarrow> ('o, 'm, 'x) ucx_world
     \<Rightarrow> (nat \<times> int \<times> u64 \<times> ('o, 'm, 'x) ucx_world) out" where
  "probe_until 0 c A h w = Fault No_return"
| "probe_until (Suc n) c A h w =
     bnd (ucx_probe c A h False 0 w) (\<lambda>(r, sz, w).
     if r = -1 \<and> errno w = EWOULDBLOCK
     then bnd (probe_until n c A h w) (\<lambda>(j, r, sz, w). Ret (Suc j, r, sz, w))
     else Ret (0, r, sz, w))"

lemma request_wait_poll:
  assumes "ucx_finishes A q due" and "due s r = Some (k, bs)" and "0 < c"
  shows "\<exists>s'. request_wait c A (Req r) False s =
      (if k \<le> 1 then Ret (UCS_OK, Req_freed, bs, s') else Ret (UCS_INPROGRESS, Req r, [], s'))
    \<and> (\<forall>ep. q ep s' = q ep s) \<and> (1 < k \<longrightarrow> due s' r = Some (k - 1, bs))"
proof -
  let ?s = "ux_progress A s"
  have d: "due ?s r = Some (k - 1, bs)" by (simp add: ucx_finishesD(2) [OF assms(1)] assms(2))
  note dn = ucx_finishesD(3) [OF assms(1) d]
  obtain c' where c: "c = Suc c'" using assms(3) by (cases c) auto
  show ?thesis
  proof (cases "k \<le> 1")
    case True
    then have "due ?s r = Some (0, bs)" "ux_done A r ?s" using d dn by simp_all
    with True c ucx_finishesD(4,5) [OF assms(1) this(1)] ucx_finishesD(1,6) [OF assms(1)] show ?thesis
      by (intro exI [of _ "ux_request_free A r ?s"]) (simp add: request_wait_def)
  next
    case False
    with d dn ucx_finishesD(1) [OF assms(1)] show ?thesis
      by (intro exI [of _ ?s]) (simp add: request_wait_def)
  qed
qed

text \<open>A handle whose next header is \<open>hdr\<close>, in the stream or in a request that needs \<open>k\<close> more rounds.\<close>

definition header_due ::
  "(nat \<Rightarrow> 'o \<Rightarrow> byte list) \<Rightarrow> 'o dues \<Rightarrow> ('o, 'm) ucx_state_scheme \<Rightarrow> hid \<Rightarrow> nat \<Rightarrow> byte list \<Rightarrow> byte list \<Rightarrow> bool"
where
  "header_due inq due t h k hdr rest \<longleftrightarrow> last_probe t h = -1 \<and> length (test_probe t h) = 8
     \<and> inq (endpoint t h) (ux_os t) = rest \<and> (\<exists>r. ux_request t h = Req r \<and> due (ux_os t) r = Some (k, hdr))"

text \<open>What a successful probe of the header of \<open>m\<close> leaves.\<close>

definition header_read ::
  "(nat \<Rightarrow> 'o \<Rightarrow> byte list) \<Rightarrow> hid \<Rightarrow> byte list \<Rightarrow> byte list \<Rightarrow> ('o, 'm, 'x) ucx_world \<Rightarrow> ('o, 'm, 'x) ucx_world \<Rightarrow> bool"
where
  "header_read inq h m rest w w' \<longleftrightarrow> heap w' = heap w \<and> ux_request (net w') h = Req_null
     \<and> last_probe (net w') h = int (length m) \<and> inq (endpoint (net w') h) (ux_os (net w')) = m @ rest"

lemma ucx_probe_got:
  assumes "heap w h = Some ob" and "last_probe (net w) h = -1" and "length (test_probe (net w) h) = 8"
    and "receive_internal c A h 8 b w = Ret (8, made, le_bytes (htobe64 (of_nat (length m))), received h s w)"
    and "m \<noteq> []" and "length m < 2 ^ 31" and "inq (endpoint (net w) h) s = m @ rest"
  shows "ucx_probe c A h b sz w = Ret (8, of_nat (length m), probed_world h (length m) s w)"
    and "header_read inq h m rest w (probed_world h (length m) s w)"
proof -
  have "of_nat (length m) \<noteq> (0 :: u64)" "ssize_of (of_nat (length m)) = int (length m)"
    using assms(5,6) by (simp_all add: of_nat_u64_eq_0 ssize_of_nat)
  then show "ucx_probe c A h b sz w = Ret (8, of_nat (length m), probed_world h (length m) s w)"
    using assms(1-4) unfolding ucx_probe_def probed_world_def
    by (simp add: obj_Some Let_def into_header with_net_twice)
  show "header_read inq h m rest w (probed_world h (length m) s w)"
    using assms(7) by (simp add: header_read_def probed_world_def)
qed

lemma probe_until_due:
  assumes "ucx_finishes A inq due" and "0 < c" and "m \<noteq> []" and "length m < 2 ^ 31"
  shows "heap w h = Some ob \<Longrightarrow> header_due inq due (net w) h k (le_bytes (htobe64 (of_nat (length m)))) (m @ rest) \<Longrightarrow>
    k < n \<Longrightarrow> \<exists>j w'. j \<le> k \<and> probe_until n c A h w = Ret (j, 8, of_nat (length m), w') \<and> header_read inq h m rest w w'
      \<and> endpoint (net w') = endpoint (net w)"
proof (induction n arbitrary: k w)
  case (Suc n)
  let ?hdr = "le_bytes (htobe64 (of_nat (length m)))"
  from Suc.prems(2) obtain r where r: "ux_request (net w) h = Req r" "due (ux_os (net w)) r = Some (k, ?hdr)"
    and t: "last_probe (net w) h = -1" "length (test_probe (net w) h) = 8"
      "inq (endpoint (net w) h) (ux_os (net w)) = m @ rest" by (auto simp: header_due_def)
  from request_wait_poll [OF assms(1) r(2) assms(2)] obtain s where
    s: "request_wait c A (Req r) False (ux_os (net w)) =
      (if k \<le> 1 then Ret (UCS_OK, Req_freed, ?hdr, s) else Ret (UCS_INPROGRESS, Req r, [], s))"
    "\<forall>ep. inq ep s = inq ep (ux_os (net w))" "1 < k \<longrightarrow> due s r = Some (k - 1, ?hdr)" by blast
  show ?case
  proof (cases "k \<le> 1")
    case True
    with s r(1) Suc.prems(1) have "receive_internal c A h 8 False w = Ret (8, False, ?hdr, received h s w)"
      by (simp add: receive_internal_def obj_Some Let_def set_ux_None with_net_def ssize_of_def)
    moreover have "inq (endpoint (net w) h) s = m @ rest" using s(2) t(3) by simp
    ultimately have "ucx_probe c A h False 0 w = Ret (8, of_nat (length m), probed_world h (length m) s w)"
      "header_read inq h m rest w (probed_world h (length m) s w)"
      using ucx_probe_got [OF Suc.prems(1) t(1,2) _ assms(3,4)] by blast+
    then show ?thesis
      by (intro exI [of _ 0] exI [of _ "probed_world h (length m) s w"]) (simp add: probed_world_def)
  next
    case False
    let ?w = "set_errno EWOULDBLOCK (with_net (\<lambda>t. t\<lparr>ux_os := s\<rparr>) w)"
    have "(ux_request (net w))(h := Req r) = ux_request (net w)" using r(1) by (simp add: fun_upd_idem)
    with False s r(1) Suc.prems(1) have "receive_internal c A h 8 False w = Ret (-1, False, [], ?w)"
      by (simp add: receive_internal_def obj_Some Let_def set_ux_None with_net_def)
    then have p: "ucx_probe c A h False 0 w = Ret (-1, 0, ?w)"
      using t(1) Suc.prems(1) by (simp add: ucx_probe_def obj_Some Let_def into_test_probe_def with_net_def set_errno_def)
    have hd: "header_due inq due (net ?w) h (k - 1) ?hdr (m @ rest)"
      using r t s(2,3) False by (simp add: header_due_def set_errno_def)
    have n: "k - 1 < n" "heap ?w h = Some ob" using Suc.prems False by simp_all
    from Suc.IH [OF n(2) hd n(1)] obtain j w' where
      "j \<le> k - 1" "probe_until n c A h ?w = Ret (j, 8, of_nat (length m), w')" "header_read inq h m rest ?w w'"
      "endpoint (net w') = endpoint (net ?w)" by blast
    with p False show ?thesis
      by (intro exI [of _ "Suc j"] exI [of _ w']) (auto simp: header_read_def set_errno_def)
  qed
qed simp

text \<open>A probe that makes its request is one that finds it made.\<close>

lemma probe_makes_request:
  assumes "ux_request (net w) h = Req_null" and "ux_stream_recv A (endpoint (net w) h) 8 (ux_os (net w)) = ((Req r, []), s)"
    and "heap w h = Some ob" and "last_probe (net w) h = -1"
  shows "ucx_probe c A h b sz w =
    ucx_probe c A h b sz (with_net (\<lambda>t. t\<lparr>ux_request := (ux_request t)(h := Req r), ux_os := s\<rparr>) w)"
    (is "_ = ucx_probe c A h b sz ?w")
proof -
  have ri: "receive_internal c A h 8 b w =
      bnd (receive_internal c A h 8 b ?w) (\<lambda>(r, _, bs, w). Ret (r, True, bs, w))"
    using assms
    by (cases "request_wait c A (Req r) b s")
      (auto simp: receive_internal_def obj_Some Let_def set_ux_None with_net_def set_errno_def)
  show ?thesis
  proof (cases "receive_internal c A h 8 b ?w")
    case (Ret x)
    obtain r made bs v where x: "x = (r, made, bs, v)" by (metis surj_pair)
    with Ret ri have "receive_internal c A h 8 b w = Ret (r, True, bs, v)" by simp
    with Ret x assms(3,4) show ?thesis by (simp add: ucx_probe_def obj_Some)
  next
    case (Fault f)
    with ri have "receive_internal c A h 8 b w = Fault f" by simp
    with Fault assms(3,4) show ?thesis by (simp add: ucx_probe_def obj_Some)
  qed
qed

text \<open>C21: A header can be asked for over UCX without blocking: when the next message is in the stream, at most
  \<open>lag\<close> probes answer that nothing is there (\<open>-1\<close>, \<open>EWOULDBLOCK\<close>), all of them on one request, the next one
  announces the message, probing again does not touch the stream, and a receive delivers the message whole.\<close>

theorem ucx_probe_polls:
  assumes "ucx_receives A lag inq due" and "ucx_finishes A inq due" and "lag < c" and "heap w h = Some ob"
    and "ux_request (net w) h = Req_null" and "last_probe (net w) h = -1" and "length (test_probe (net w) h) = 8"
    and "inq (endpoint (net w) h) (ux_os (net w)) = concat (tcp_frame m) @ rest" and "m \<noteq> []" and "length m < 2 ^ 31"
  shows "\<exists>j w' w''. j \<le> lag \<and> probe_until (Suc lag) c A h w = Ret (j, 8, of_nat (length m), w')
    \<and> ucx_probe c A h b sz w' = Ret (8, of_nat (length m), w')
    \<and> ucx_receive c A h (of_nat (length m)) w' = Ret (int (length m), m, w'')
    \<and> inq (endpoint (net w'') h) (ux_os (net w'')) = rest"
proof -
  let ?ep = "endpoint (net w) h" and ?s = "ux_os (net w)" and ?hdr = "le_bytes (htobe64 (of_nat (length m)))"
  have inq: "inq ?ep ?s = ?hdr @ m @ rest" using assms(8) by (simp add: tcp_frame_def)
  then have "8 \<le> length (inq ?ep ?s)" "take 8 (inq ?ep ?s) = ?hdr" "drop 8 (inq ?ep ?s) = m @ rest" by simp_all
  with ucx_receivesD [OF assms(1) this(1)] obtain p s1 where
    r: "ux_stream_recv A ?ep 8 ?s = ((p, if p = Req_null then ?hdr else []), s1)"
    and st: "starts due lag p ?hdr ?s s1" and q: "inq ?ep s1 = m @ rest" by metis
  have "\<exists>j w'. j \<le> lag \<and> probe_until (Suc lag) c A h w = Ret (j, 8, of_nat (length m), w') \<and> header_read inq h m rest w w'
      \<and> endpoint (net w') = endpoint (net w)"
  proof (cases "p = Req_null")
    case True
    with r assms(4,5) have "receive_internal c A h 8 False w = Ret (8, True, ?hdr, received h s1 w)"
      by (simp add: receive_internal_def obj_Some Let_def set_ux_None with_net_def ssize_of_def request_wait_def)
    from ucx_probe_got [OF assms(4,6,7) this assms(9,10), where inq = inq, OF q] show ?thesis
      by (intro exI [of _ 0] exI [of _ "probed_world h (length m) s1 w"]) (simp add: probed_world_def)
  next
    case False
    with st obtain i k where i: "p = Req i" "k \<le> lag" "due s1 i = Some (k, ?hdr)" by (auto simp: starts_def)
    let ?w = "with_net (\<lambda>t. t\<lparr>ux_request := (ux_request t)(h := Req i), ux_os := s1\<rparr>) w"
    have "probe_until (Suc lag) c A h w = probe_until (Suc lag) c A h ?w"
      using probe_makes_request [OF assms(5) _ assms(4,6), of A i s1 c False 0] r i(1) by simp
    moreover have "header_due inq due (net ?w) h k ?hdr (m @ rest)" using i q assms(6,7) by (simp add: header_due_def)
    moreover have "heap ?w h = Some ob" "0 < c" "k < Suc lag" using assms(3,4) i(2) by simp_all
    ultimately obtain j w' where "j \<le> k" "probe_until (Suc lag) c A h w = Ret (j, 8, of_nat (length m), w')"
      "header_read inq h m rest ?w w'" "endpoint (net w') = endpoint (net ?w)"
      using probe_until_due [OF assms(2) \<open>0 < c\<close> assms(9,10) \<open>heap ?w h = Some ob\<close>, of k rest "Suc lag"] by auto
    with i(2) show ?thesis by (intro exI [of _ j] exI [of _ w']) (auto simp: header_read_def)
  qed
  then obtain j w' where j: "j \<le> lag" "probe_until (Suc lag) c A h w = Ret (j, 8, of_nat (length m), w')"
    and w': "heap w' h = Some ob" "ux_request (net w') h = Req_null" "last_probe (net w') h = int (length m)"
      "inq (endpoint (net w') h) (ux_os (net w')) = m @ rest"
    using assms(4) by (auto simp: header_read_def)
  have again: "ucx_probe c A h b sz w' = Ret (8, of_nat (length m), w')"
    using w'(1,3) by (simp add: ucx_probe_def obj_Some)
  from ucx_receive_payload [OF assms(1-3) w'(1,2,4) assms(10)] obtain s2 where
    "ucx_receive c A h (of_nat (length m)) w' = Ret (int (length m), m,
        with_net (\<lambda>t. t\<lparr>last_probe := (last_probe t)(h := -1)\<rparr>) (received h s2 w'))"
    "inq (endpoint (net w') h) s2 = rest" by blast
  moreover define w'' where
    "w'' = with_net (\<lambda>t. t\<lparr>last_probe := (last_probe t)(h := -1)\<rparr>) (received h s2 w')"
  ultimately have "ucx_receive c A h (of_nat (length m)) w' = Ret (int (length m), m, w'')"
    "inq (endpoint (net w'') h) (ux_os (net w'')) = rest" by (simp_all add: w''_def)
  with j again show ?thesis by (intro exI [of _ j] exI [of _ w'] exI [of _ w'']) simp
qed

definition ucx_waiting :: "byte list \<Rightarrow> (ucx_qs ucx_state) world" where
  "ucx_waiting bs = \<lparr>heap = [7 \<mapsto> new_handle ''UCX''], errno = OK_errno, next_hid = 8,
     net = \<lparr>endpoint = (\<lambda>_. 1), ux_request = (\<lambda>_. Req_null), already_closed = (\<lambda>_. False), last_probe = (\<lambda>_. -1),
       test_probe = (\<lambda>_. le_bytes 42), ux_address = ''A'', ux_port = 1, ux_set = {}, ux_tmpset = {}, ux_listen_sck = -1,
       ux_fdmax = -1, local_addr = [1, 2, 3], ux_conns = [(1, (Some 7, True))],
       ux_os = ((\<lambda>ep. if ep = 1 then bs else []), (\<lambda>ep. []), (\<lambda>r. None))\<rparr>\<rparr>"

theorem ucx_probe_polls_witness:
  "\<exists>j w' w''. j \<le> 2 \<and> probe_until 3 3 sample_ucx 7 (ucx_waiting (concat (tcp_frame [5, 6]))) = Ret (j, 8, 2, w')
     \<and> ucx_receive 3 sample_ucx 7 2 w' = Ret (2, [5, 6], w'')"
proof -
  let ?w = "ucx_waiting (concat (tcp_frame [5, 6]))"
  have a: "(2 :: nat) < 3" "heap ?w 7 = Some (new_handle ''UCX'')" "ux_request (net ?w) 7 = Req_null"
    "last_probe (net ?w) 7 = -1" "length (test_probe (net ?w) 7) = 8"
    "sample_in (endpoint (net ?w) 7) (ux_os (net ?w)) = concat (tcp_frame [5, 6]) @ []"
    "[5, 6] \<noteq> ([] :: byte list)" "length ([5, 6] :: byte list) < 2 ^ 31"
    by (simp_all add: ucx_waiting_def)
  from ucx_probe_polls [OF sample_ucx_receives sample_ucx_finishes(1) a] show ?thesis
    by (simp add: numeral_3_eq_3) blast
qed

section \<open>Empty messages\<close>

lemma ucx_probe_zero:
  assumes "ucx_receives A lag inq due" and "ucx_finishes A inq due" and "lag < c" and "heap w h = Some ob"
    and "ucx_stream c inq due (net w) h (le_bytes 0 @ xs @ rest)" and "length xs = 4"
  shows "\<exists>w'. ucx_probe c A h True sz w = Ret (8, 0, w') \<and> last_probe (net w') h = 0
    \<and> inq (endpoint (net w') h) (ux_os (net w')) = rest"
proof -
  have l0: "length (le_bytes 0) = 8" by simp
  from receive_header [OF assms(1-5) l0] obtain made s where
    r: "receive_internal c A h 8 True w = Ret (8, made, le_bytes 0, received h s w)"
    and q: "inq (endpoint (net w) h) s = xs @ rest" by blast
  have t: "last_probe (net w) h = -1" "length (test_probe (net w) h) = 8" using assms(5) by (simp_all add: ucx_stream_def)
  let ?w = "with_net (\<lambda>t. t\<lparr>last_probe := (last_probe t)(h := 0)\<rparr>) (into_test_probe h (le_bytes 0) (received h s w))"
  have w: "heap ?w h = Some ob" "ux_request (net ?w) h = Req_null"
    "inq (endpoint (net ?w) h) (ux_os (net ?w)) = xs @ rest"
    using assms(4) q by (simp_all add: into_test_probe_def)
  have n: "unat (4 :: u64) \<le> length (inq (endpoint (net ?w) h) (ux_os (net ?w)))" using w(3) assms(6) by simp
  from receive_fresh [OF assms(1-3) w(1,2) n] obtain s2 where
    r2: "receive_internal c A h 4 True ?w = Ret (4, True, xs, received h s2 ?w)"
    and q2: "inq (endpoint (net ?w) h) s2 = rest"
    using w(3) assms(6) by (auto simp: ssize_of_def)
  have "be64toh 0 = 0" using be64toh_htobe64 [of 0] by simp
  then have "ucx_probe c A h True sz w = Ret (8, 0, received h s2 ?w)"
    using r r2 t assms(4) by (simp add: ucx_probe_def obj_Some Let_def into_test_probe_def ssize_of_def)
  moreover have "last_probe (net (received h s2 ?w)) h = 0"
    "inq (endpoint (net (received h s2 ?w)) h) (ux_os (net (received h s2 ?w))) = rest" using q2 by simp_all
  ultimately show ?thesis by blast
qed

text \<open>Over UCX an empty message ends the stream of the receiver and damages it: its header is that of an
  end-of-stream, but the four bytes that follow an end-of-stream are missing, so \<open>probe\<close> takes the first four
  bytes of the next message.\<close>

theorem ucx_empty_message_damages_stream:
  assumes "ucx_receives A lag inq due" and "ucx_finishes A inq due" and "lag < c" and "heap w h \<noteq> None"
    and "ucx_inbox c inq due (net w) h ([] # m # ms)"
  shows "\<exists>w' rest. vt_probe (ucx_vtable c A addinQ) h True sz w = Ret (8, 0, w')
    \<and> inq (endpoint (net w') h) (ux_os (net w')) = drop 4 (wire (m # ms)) @ rest"
proof -
  from assms(4,5) obtain ob rest where ob: "heap w h = Some ob"
    and st: "ucx_stream c inq due (net w) h (wire ([] # m # ms) @ rest)" by (auto simp: ucx_inbox_def)
  define xs where "xs = take 4 (wire (m # ms))"
  have "wire ([] # m # ms) @ rest = le_bytes 0 @ xs @ (drop 4 (wire (m # ms)) @ rest)"
    by (simp add: xs_def tcp_frame_def append_assoc [symmetric] del: append_assoc)
  with st have st': "ucx_stream c inq due (net w) h (le_bytes 0 @ xs @ (drop 4 (wire (m # ms)) @ rest))" by (simp only:)
  have "length xs = 4" by (simp add: xs_def tcp_frame_def)
  from ucx_probe_zero [OF assms(1-3) ob st' this, of sz] show ?thesis
    by (simp only: ucx_vtable_def vtable.simps) blast
qed

theorem ucx_empty_message_damages_stream_witness:
  "\<exists>w' rest. vt_probe (ucx_vtable 3 sample_ucx (\<lambda>b h w. Ret w)) 7 True 0 (ucx_waiting (wire [[], [5, 6]])) = Ret (8, 0, w')
     \<and> sample_in (endpoint (net w') 7) (ux_os (net w')) = drop 4 (wire [[5, 6]]) @ rest"
proof -
  have a: "(2 :: nat) < 3" "heap (ucx_waiting (wire [[], [5, 6]])) 7 \<noteq> None"
    "ucx_inbox 3 sample_in sample_due (net (ucx_waiting (wire [[], [5, 6]]))) 7 [[], [5, 6]]"
    by (simp_all add: ucx_waiting_def ucx_inbox_def ucx_stream_def)
  from ucx_empty_message_damages_stream [OF sample_ucx_receives sample_ucx_finishes(1) a] show ?thesis by simp
qed

section \<open>The addresses of the workers\<close>

text \<open>A connected socket whose calls move all their bytes; \<open>malloc\<close> finds the memory.\<close>

definition whole_transfers :: "('o, 'a) ucx_lib_scheme \<Rightarrow> (int \<Rightarrow> 'o \<Rightarrow> byte list) \<Rightarrow> (int \<Rightarrow> 'o \<Rightarrow> byte list) \<Rightarrow> bool" where
  "whole_transfers A inq outq \<longleftrightarrow>
     (\<forall>fd bs s. \<exists>s'. ux_sock_send A fd bs s = (to_int (of_nat (length bs)), s') \<and> outq fd s' = outq fd s @ bs \<and> inq fd s' = inq fd s)
   \<and> (\<forall>fd n s. n \<le> length (inq fd s) \<longrightarrow> (\<exists>s'. ux_sock_recv A fd n s = ((to_int (of_nat n), take n (inq fd s)), s')
        \<and> inq fd s' = drop n (inq fd s) \<and> outq fd s' = outq fd s))
   \<and> (\<forall>fd n s. \<exists>s'. ux_malloc A n s = (True, s') \<and> inq fd s' = inq fd s \<and> outq fd s' = outq fd s)"

definition address_frame :: "byte list \<Rightarrow> byte list" where
  "address_frame a = le_bytes (of_nat (length a)) @ a"

lemma to_int_8 [simp]: "to_int 8 = 8"
  by (simp add: to_int_def)

text \<open>The exchange of addresses is its own counterpart: a process that finds the frame of \<open>peer\<close> on the
  socket gets \<open>peer\<close>, whole and nothing after it, and has put the frame of its own address there, which is
  what the other side reads; addresses are shorter than \<open>2^31\<close> bytes.\<close>

theorem ucx_addresses_exchanged:
  assumes "whole_transfers A inq outq" and "inq fd s = address_frame peer @ rest"
    and "length peer < 2 ^ 31"
  shows "\<exists>s'. exchange_address A fd own s = (0, peer, s') \<and> outq fd s' = outq fd s @ address_frame own \<and> inq fd s' = rest"
proof -
  note w = assms(1) [unfolded whole_transfers_def]
  let ?hdr = "le_bytes (of_nat (length own))" and ?ph = "le_bytes (of_nat (length peer))"
  obtain s1 where s1: "ux_sock_send A fd ?hdr s = (8, s1)" "outq fd s1 = outq fd s @ ?hdr" "inq fd s1 = inq fd s"
    using conjunct1 [OF w, rule_format, of fd ?hdr s] by auto
  obtain s2 where s2: "ux_sock_send A fd own s1 = (to_int (of_nat (length own)), s2)" "outq fd s2 = outq fd s1 @ own"
    "inq fd s2 = inq fd s1"
    using conjunct1 [OF w, rule_format, of fd own s1] by auto
  have q2: "inq fd s2 = ?ph @ peer @ rest" using s1(3) s2(3) assms(2) by (simp add: address_frame_def)
  obtain s3 where s3: "ux_sock_recv A fd 8 s2 = ((8, ?ph), s3)" "inq fd s3 = peer @ rest" "outq fd s3 = outq fd s2"
    using conjunct1 [OF conjunct2 [OF w], rule_format, of 8 fd s2] q2 by auto
  obtain s4 where s4: "ux_malloc A (of_nat (length peer)) s3 = (True, s4)" "inq fd s4 = inq fd s3" "outq fd s4 = outq fd s3"
    using conjunct2 [OF conjunct2 [OF w], rule_format, of "of_nat (length peer)" s3 fd] by auto
  obtain s5 where s5: "ux_sock_recv A fd (length peer) s4 = ((to_int (of_nat (length peer)), peer), s5)"
    "inq fd s5 = rest" "outq fd s5 = outq fd s4"
    using conjunct1 [OF conjunct2 [OF w], rule_format, of "length peer" fd s4] s3(2) s4(2) by auto
  have "unat (of_nat (length peer) :: u64) = length peer" using assms(3) by (simp add: unat_of_nat_u64)
  with s1 s2 s3 s4 s5 show ?thesis
    by (intro exI [of _ s5]) (simp add: exchange_address_def address_frame_def)
qed

lemma sample_whole_transfers: "whole_transfers sample_ucx (\<lambda>fd s. sample_in (nat fd) s) (\<lambda>fd s. sample_out (nat fd) s)"
  by (auto simp: whole_transfers_def sample_ucx_def min_def)

theorem ucx_addresses_exchanged_witness:
  "\<exists>s'. exchange_address sample_ucx 1 [1, 2, 3] (ux_os (net (ucx_waiting (address_frame [9, 8])))) = (0, [9, 8], s')
     \<and> sample_out 1 s' = address_frame [1, 2, 3]"
proof -
  have "sample_in (nat 1) (ux_os (net (ucx_waiting (address_frame [9, 8])))) = address_frame [9, 8] @ []"
    "length ([9, 8] :: byte list) < 2 ^ 31" by (simp_all add: ucx_waiting_def)
  from ucx_addresses_exchanged [OF sample_whole_transfers this, of "[1, 2, 3]"] show ?thesis by (auto simp: ucx_waiting_def)
qed

section \<open>The table of ConnUCX\<close>

text \<open>The reports of a round: the endpoints \<open>ks\<close> are reset and their handles handed to \<open>addinQ\<close>.\<close>

fun ucx_report ::
  "(bool \<Rightarrow> hid \<Rightarrow> ('o, 'm, 'x) ucx_world \<Rightarrow> ('o, 'm, 'x) ucx_world out)
     \<Rightarrow> (nat \<times> hid) list \<Rightarrow> ('o, 'm, 'x) ucx_world \<Rightarrow> ('o, 'm, 'x) ucx_world out" where
  "ucx_report addinQ [] w = Ret w"
| "ucx_report addinQ ((ep, h) # ks) w =
     bnd (addinQ False h (with_net (\<lambda>t. t\<lparr>ux_conns := smap_put ep (Some h, False) (ux_conns t)\<rparr>) w)) (ucx_report addinQ ks)"

fun ucx_ready :: "(nat, hid option \<times> bool) smap \<Rightarrow> nat list \<Rightarrow> (nat \<times> hid) list" where
  "ucx_ready cs [] = []"
| "ucx_ready cs (ep # eps) =
     (case smap_get cs ep of Some (Some h, True) \<Rightarrow> [(ep, h)] | _ \<Rightarrow> []) @ ucx_ready cs eps"

lemma ucx_poll_reports:
  assumes "\<And>h v v'. addinQ False h v = Ret v' \<Longrightarrow> ux_conns (net v') = ux_conns (net v)"
  shows "\<forall>ep \<in> set eps. smap_get (ux_conns (net w)) ep = smap_get cs ep \<Longrightarrow> distinct eps \<Longrightarrow>
    \<forall>ep \<in> set eps. smap_get cs ep \<noteq> Some (None, True) \<Longrightarrow> ucx_poll addinQ eps w = ucx_report addinQ (ucx_ready cs eps) w"
proof (induction eps arbitrary: w)
  case (Cons ep eps)
  consider (ready) h where "smap_get cs ep = Some (Some h, True)"
    | (idle) "\<forall>h. smap_get cs ep \<noteq> Some (Some h, True)" by blast
  then show ?case
  proof cases
    case ready
    let ?w = "with_net (\<lambda>t. t\<lparr>ux_conns := smap_put ep (Some h, False) (ux_conns t)\<rparr>) w"
    have "bnd (addinQ False h ?w) (ucx_poll addinQ eps) = bnd (addinQ False h ?w) (ucx_report addinQ (ucx_ready cs eps))"
    proof (rule bnd_eqI)
      fix v
      assume "addinQ False h ?w = Ret v"
      then have "ux_conns (net v) = smap_put ep (Some h, False) (ux_conns (net w))" using assms by fastforce
      then have "\<forall>k \<in> set eps. smap_get (ux_conns (net v)) k = smap_get cs k"
        using Cons.prems(1,2) by (auto simp: smap_laws)
      with Cons show "ucx_poll addinQ eps v = ucx_report addinQ (ucx_ready cs eps) v" by simp
    qed
    with ready Cons.prems(1) show ?thesis by simp
  next
    case idle
    with Cons have "ucx_poll addinQ (ep # eps) w = ucx_poll addinQ eps w"
      by (auto split: option.splits bool.splits)
    moreover have "ucx_ready cs (ep # eps) = ucx_ready cs eps"
      using idle by (auto split: option.splits bool.splits)
    ultimately show ?thesis using Cons by simp
  qed
qed simp

text \<open>When no connection is requested, a round of \<open>ConnUCX::update\<close> reports exactly the handles that have been
  yielded and whose endpoints the library reports, each once and in the order of the library, and takes each
  out of the polling before it is reported; an endpoint the user holds, or that is closed, is skipped.\<close>

theorem ucx_update_reports_ready:
  assumes "\<And>h v v'. addinQ False h v = Ret v' \<Longrightarrow> ux_conns (net v') = ux_conns (net v)"
    and "ux_fdmax (net w) = -1"
    and "ux_worker_poll A (length (ux_conns (net w))) (ux_progress A (ux_os (net w))) = (Some eps, s)" and "distinct eps"
    and "\<forall>ep \<in> set eps. smap_get (ux_conns (net w)) ep \<noteq> Some (None, True)"
  shows "ucx_update A p addinQ w = ucx_report addinQ (ucx_ready (ux_conns (net w)) eps)
    (set_ux None s (with_net (\<lambda>t. t\<lparr>ux_tmpset := ux_set t\<rparr>) w))"
  using assms(2,3) by (simp add: ucx_update_def ucx_poll_reports [OF assms(1) _ assms(4,5)])

definition log_ucx :: "bool \<Rightarrow> hid \<Rightarrow> (ucx_qs, unit, hid list) ucx_world \<Rightarrow> (ucx_qs, unit, hid list) ucx_world out" where
  "log_ucx b h w = Ret (world.more_update (\<lambda>hs. hs @ [h]) w)"

definition ucx_two :: "(ucx_qs ucx_state, hid list) world_scheme" where
  "ucx_two = \<lparr>heap = (\<lambda>h. Some (new_handle ''UCX'')), errno = OK_errno, next_hid = 9,
     net = (net (ucx_waiting []))\<lparr>ux_conns := [(0, (Some 7, True)), (1, (Some 8, False))],
       ux_os := ((\<lambda>ep. [1]), (\<lambda>ep. []), (\<lambda>r. None))\<rparr>, \<dots> = []\<rparr>"

theorem ucx_update_reports_ready_witness:
  "\<exists>w'. ucx_update sample_ucx ''UCX'' log_ucx ucx_two = Ret w' \<and> world.more w' = [7]"
proof -
  have a: "ux_conns (net v') = ux_conns (net v)" if "log_ucx False h v = Ret v'" for h v v'
    using that by (auto simp: log_ucx_def)
  have b: "ux_fdmax (net ucx_two) = -1" "ux_worker_poll sample_ucx (length (ux_conns (net ucx_two)))
      (ux_progress sample_ucx (ux_os (net ucx_two))) = (Some [0, 1], ((\<lambda>ep. [1]), (\<lambda>ep. []), (\<lambda>r. None)))"
    "distinct [0, 1 :: nat]" "\<forall>ep \<in> set [0, 1]. smap_get (ux_conns (net ucx_two)) ep \<noteq> Some (None, True)"
    by (simp_all add: ucx_two_def ucx_waiting_def sample_ucx_def smap_get_def numeral_2_eq_2)
  from ucx_update_reports_ready [where addinQ = log_ucx and p = "''UCX''", OF a b] show ?thesis
    by (simp add: ucx_two_def ucx_waiting_def smap_get_def log_ucx_def with_net_def set_ux_def)
qed

end
