(* ===== verification/Carriers.thy ===== *)
theory Carriers
  imports ManagerProps MpiProps MqttProps UcxProps
begin

text \<open>
  The manager with the transports that are chosen at build time.
  \<^item> \<open>mpi_conn\<close>, \<open>mqtt_conn\<close> and \<open>ucx_conn\<close> are their connectors behind \<open>ConnType\<close>; they satisfy the contract
    \<open>connector\<close>.
  \<^item> The locale \<open>pipe\<close> is what the handshake needs of a transport besides \<open>sends_to\<close> and \<open>delivers\<close>: moving
    bytes leaves the tables of the manager alone. In it the two ends of the handshake are shown to fit
    together, for a connection and for the member of a team, once for all transports.
\<close>

section \<open>Connectors\<close>

definition mpi_conn :: "nat \<Rightarrow> ('o, 'a) mpi_lib_scheme \<Rightarrow> string \<Rightarrow> ('o, 'm, 'x) mpi_world conn" where
  "mpi_conn c A p = \<lparr>conn_init = mpi_init A, conn_listen = mpi_listen, conn_connect = mpi_connect A p,
     conn_update = mpi_update A p, conn_end = mpi_end c A\<rparr>"

text \<open>\<open>server\<close> is the environment variable; the handles call \<open>addinQ\<close> when they are yielded.\<close>

definition mqtt_conn ::
  "nat \<Rightarrow> ('o, 'a) mqtt_lib_scheme \<Rightarrow> string option
     \<Rightarrow> (bool \<Rightarrow> hid \<Rightarrow> ('o, 'm, 'x) mqtt_world \<Rightarrow> ('o, 'm, 'x) mqtt_world out) \<Rightarrow> string \<Rightarrow> ('o, 'm, 'x) mqtt_world conn"
where
  "mqtt_conn c A server ready p = \<lparr>conn_init = mqtt_init A server, conn_listen = mqtt_listen A,
     conn_connect = mqtt_connect A p, conn_update = mqtt_update A p, conn_end = mqtt_end c A ready\<rparr>"

definition ucx_conn ::
  "nat \<Rightarrow> ('o, 'a) ucx_lib_scheme \<Rightarrow> (bool \<Rightarrow> hid \<Rightarrow> ('o, 'm, 'x) ucx_world \<Rightarrow> ('o, 'm, 'x) ucx_world out)
     \<Rightarrow> string \<Rightarrow> ('o, 'm, 'x) ucx_world conn" where
  "ucx_conn c A ready p = \<lparr>conn_init = ucx_init A, conn_listen = ucx_listen A,
     conn_connect = ucx_connect c A p, conn_update = ucx_update A p, conn_end = ucx_end c A ready\<rparr>"

lemma set_more [simp]:
  "world.more (set_probed h b v) = world.more v"
  "world.more (into_test_probe h bs u) = world.more u"
  by (simp_all add: set_probed_def into_test_probe_def)

lemma mpi_connect_more:
  "mpi_connect A p dest n t w = Ret (h, w') \<Longrightarrow> world.more w' = world.more w"
  by (auto simp: mpi_connect_def new_HandleMPI_def alloc_handle_def mpi_insert_def Let_def bnd_Ret_conv
      split: if_splits prod.splits)

lemma mpi_init_more: "mpi_init A app w = Ret (r, w') \<Longrightarrow> world.more w' = world.more w"
  by (auto simp: mpi_init_def Let_def split: if_splits prod.splits)

interpretation mpi_connector: connector "mpi_conn c A p" for c A p
  by unfold_locales (auto simp: mpi_conn_def mpi_listen_def dest: mpi_connect_more mpi_init_more)

lemma channel_more:
  "publish_on A c topic bs q w = Ret w' \<Longrightarrow> world.more w' = world.more w"
  "subscribe_to A c topic w = Ret w' \<Longrightarrow> world.more w' = world.more w"
  by (auto simp: publish_on_def subscribe_to_def bnd_Ret_conv)

lemma mqtt_connect_more:
  "mqtt_connect A p a n t w = Ret (h, w') \<Longrightarrow> world.more w' = world.more w"
  by (auto simp: mqtt_connect_def new_HandleMQTT_def alloc_handle_def Let_def bnd_Ret_conv
      split: if_splits prod.splits dest!: channel_more)

lemma mqtt_start_more:
  "mqtt_init A server s w = Ret (r, w') \<Longrightarrow> world.more w' = world.more w"
  "mqtt_listen A s w = Ret (r, w') \<Longrightarrow> world.more w' = world.more w"
  by (auto simp: mqtt_init_def mqtt_listen_def Let_def split: if_splits prod.splits)

interpretation mqtt_connector: connector "mqtt_conn c A server ready p" for c A server ready p
  by unfold_locales (auto simp: mqtt_conn_def dest: mqtt_start_more mqtt_connect_more)

lemma ucx_init_more: "ucx_init A app w = Ret (r, w') \<Longrightarrow> world.more w' = world.more w"
  by (auto simp: ucx_init_def Let_def split: if_splits prod.splits)

lemma ucx_init_socket_more: "ucx_init_socket A w = (r, w') \<Longrightarrow> world.more w' = world.more w"
  by (auto simp: ucx_init_socket_def Let_def split: prod.splits if_splits option.splits)

lemma ucx_listen_more:
  assumes "ucx_listen A s w = Ret (r, w')"
  shows "world.more w' = world.more w"
proof -
  let ?w = "\<lambda>port. with_net (\<lambda>t. t\<lparr>ux_port := port\<rparr>) (with_net (\<lambda>t. t\<lparr>ux_address := before_colon s\<rparr>) w)"
  from assms obtain port where port: "(case ucx_init_socket A (?w port) of (r, w) \<Rightarrow>
      if r \<noteq> 0 then Ret (-1, set_errno EINVAL w)
      else bnd (FD_SET (ux_listen_sck (net w)) (ux_set (net w))) (\<lambda>S.
        Ret (0, with_net (\<lambda>t. t\<lparr>ux_set := S, ux_fdmax := ux_listen_sck (net w)\<rparr>) w))) = Ret (r, w')"
    unfolding ucx_listen_def Let_def bnd_Ret_conv by blast
  obtain r1 w1 where i: "ucx_init_socket A (?w port) = (r1, w1)" by (metis surj_pair)
  from i port have "world.more w' = world.more w1" by (auto simp: bnd_Ret_conv split: if_splits)
  with ucx_init_socket_more [OF i] show ?thesis by simp
qed

lemma ucx_connect_more:
  "ucx_connect c A p a n t w = Ret (h, w') \<Longrightarrow> world.more w' = world.more w"
  by (auto simp: ucx_connect_def new_HandleUCX_def ucx_insert_def alloc_handle_def Let_def bnd_Ret_conv
      split: if_splits prod.splits)

interpretation ucx_connector: connector "ucx_conn c A ready p" for c A ready p
  by unfold_locales (auto simp: ucx_conn_def dest: ucx_init_more ucx_listen_more ucx_connect_more)

section \<open>The handshake over any transport\<close>

lemma more_ready:
  fixes w w' :: "('n, 'x) mworld"
  assumes "world.more w' = world.more w"
  shows "handleReady w' = handleReady w" "groupsReady w' = groupsReady w"
  using assms by (cases w; cases w'; simp)+

locale pipe =
  fixes V :: "('n, 'x) mworld vtable"
  assumes send_more: "vt_send V h bs w = Ret (r, w') \<Longrightarrow> world.more w' = world.more w"
    and probe_more: "vt_probe V h b sz w = Ret (r, sz', w') \<Longrightarrow> world.more w' = world.more w"
    and receive_more: "vt_receive V h n w = Ret (r, bs, w') \<Longrightarrow> world.more w' = world.more w"
begin

lemma read_message:
  assumes "delivers V I inbox P" and "h \<in> P" and "I (net w)" and "heap w h = Some ob"
    and "inbox (net w) h (m # ms)" and "m \<noteq> []" and "length m < 2 ^ 31"
  obtains w1 w2 where "vt_probe V h True sz w = Ret (8, of_nat (length m), w1)"
    and "vt_receive V h (of_nat (length m)) w1 = Ret (int (length m), m, w2)" and "heap w2 = heap w"
    and "I (net w2)" and "inbox (net w2) h ms" and "world.more w2 = world.more w"
proof -
  have "heap w h \<noteq> None" using assms(4) by simp
  with assms(1-3,5-7) obtain w1 where
    p: "vt_probe V h True sz w = Ret (8, of_nat (length m), w1)" "heap w1 = heap w"
    and all: "\<forall>ob. \<exists>w2. vt_receive V h (of_nat (length m)) (put_obj h ob w1) = Ret (int (length m), m, w2)
      \<and> heap w2 = (heap w)(h \<mapsto> ob) \<and> I (net w2) \<and> inbox (net w2) h ms
      \<and> (\<forall>k \<in> P. \<forall>ns. k \<noteq> h \<and> inbox (net w) k ns \<longrightarrow> inbox (net w2) k ns)"
    unfolding delivers_def by metis
  from spec [OF all, of ob] obtain w2 where
    r: "vt_receive V h (of_nat (length m)) (put_obj h ob w1) = Ret (int (length m), m, w2)"
    "heap w2 = (heap w)(h \<mapsto> ob)" "I (net w2)" "inbox (net w2) h ms" by blast
  have same: "put_obj h ob w1 = w1" using p(2) assms(4) by (simp add: put_obj_def fun_upd_idem)
  have "heap w2 = heap w" using r(2) assms(4) by (simp add: fun_upd_idem)
  moreover have "world.more w2 = world.more w"
    using receive_more [OF r(1)] probe_more [OF p(1)] same by simp
  ultimately show thesis using that p(1) r same by simp
qed

lemma write_message:
  assumes "sends_to V I enc outbox P" and "h \<in> P" and "I (net w)" and "heap w h = Some ob"
    and "length bs < 2 ^ 31"
  obtains w' where "vt_send V h bs w = Ret (int (length bs), w')" and "heap w' = heap w" and "I (net w')"
    and "outbox (net w') h = outbox (net w) h @ enc bs" and "world.more w' = world.more w"
proof -
  have "heap w h \<noteq> None" using assms(4) by simp
  from sends_toD [OF assms(1-3) this assms(5)] obtain w' where
    "vt_send V h bs w = Ret (int (length bs), w')" "heap w' = heap w" "I (net w')"
    "\<forall>k \<in> P. outbox (net w') k = (if k = h then outbox (net w) k @ enc bs else outbox (net w) k)" .
  with assms(2) send_more that show thesis by simp
qed

text \<open>What the connecting side writes.\<close>

lemma connect_announces:
  assumes "sends_to V I enc outbox P" and "vtab e = V" and "connectHandle e a n t w = Ret (Some k, w1)"
    and "k \<in> P" and "I (net w1)" and "heap w1 k = Some ob"
  shows "\<exists>w2. mgr_connect e a n t w = Ret (\<lparr>realHandle = Some k, isReadable = True, newConnection = True\<rparr>, w2)
    \<and> outbox (net w2) k = outbox (net w1) k @ enc (int_bytes 0)"
proof -
  have "length (int_bytes 0) < 2 ^ 31" by simp
  from write_message [OF assms(1,4-6) this] obtain w2 where
    "vt_send V k (int_bytes 0) w1 = Ret (4, w2)" "heap w2 = heap w1"
    "outbox (net w2) k = outbox (net w1) k @ enc (int_bytes 0)" by auto
  with assms(6) show ?thesis
    by (simp add: mgr_connect_def assms(2,3) huser_new_def incrementReferenceCounter_def upd_obj_Some put_obj_def)
qed

lemma join_announces:
  assumes "sends_to V I enc outbox P" and "vtab e = V" and "connect_root e as w = Ret (Some k, w1)"
    and "k \<in> P" and "I (net w1)" and "heap w1 k = Some ob" and "length t \<le> 1048576"
  shows "\<exists>w2. team_join e as t w = Ret (Some [k], w2)
    \<and> outbox (net w2) k = outbox (net w1) k @ enc (int_bytes 1) @ enc (bytes_of_string t)"
proof -
  have "length (int_bytes 1) < 2 ^ 31" by simp
  from write_message [OF assms(1,4-6) this] obtain w2 where
    w2: "vt_send V k (int_bytes 1) w1 = Ret (4, w2)" "heap w2 = heap w1" "I (net w2)"
    "outbox (net w2) k = outbox (net w1) k @ enc (int_bytes 1)" by auto
  have "heap w2 k = Some ob" "length (bytes_of_string t) < 2 ^ 31" using w2(2) assms(6,7) by simp_all
  from write_message [OF assms(1,4) w2(3) this] obtain w3 where
    "vt_send V k (bytes_of_string t) w2 = Ret (int (length t), w3)" "heap w3 = heap w2"
    "outbox (net w3) k = outbox (net w2) k @ enc (bytes_of_string t)" by auto
  with w2 assms(6) show ?thesis
    by (simp add: team_join_def assms(2,3) upd_obj_Some put_obj_def)
qed

text \<open>What the accepting side makes of it.\<close>

lemma addinQ_connection:
  assumes "delivers V I inbox P" and "h \<in> P" and "I (net w)" and "heap w h = Some ob"
    and "inbox (net w) h (int_bytes 0 # ms)"
  shows "\<exists>w'. addinQ V True h w = Ret w'
    \<and> handleReady w' = handleReady w @ [\<lparr>realHandle = Some h, isReadable = True, newConnection = True\<rparr>]
    \<and> groupsReady w' = groupsReady w \<and> inbox (net w') h ms"
proof -
  have i0: "int_bytes 0 \<noteq> []" "length (int_bytes 0) < 2 ^ 31" by (simp_all add: int_bytes_def)
  obtain w1 w2 where
    w: "vt_probe V h True 0 w = Ret (8, 4, w1)" "vt_receive V h 4 w1 = Ret (4, int_bytes 0, w2)" "heap w2 = heap w"
    "I (net w2)" "inbox (net w2) h ms" "world.more w2 = world.more w"
    using read_message [OF assms i0, of 0] by auto
  have "connectionHandshake V h w = Ret (0, None, w2)"
    using w by (simp add: connectionHandshake_def int_bytes_of_small)
  with w(3,5) more_ready [OF w(6)] assms(4) show ?thesis
    by (simp add: addinQ_def push_ready_def huser_new_def incrementReferenceCounter_def upd_obj_Some put_obj_def)
qed

lemma addinQ_member:
  assumes "delivers V I inbox P" and "h \<in> P" and "I (net w)" and "heap w h = Some ob"
    and "inbox (net w) h (int_bytes 1 # bytes_of_string t # ms)"
    and "t \<noteq> []" and "CHR 0x00 \<notin> set t" and "length t \<le> 1048576"
  shows "\<exists>w'. addinQ V True h w = Ret w' \<and> handleReady w' = handleReady w
    \<and> (\<forall>g. smap_get (groupsReady w') g =
         (if g = t then Some ((case smap_get (groupsReady w) t of None \<Rightarrow> [] | Some hs \<Rightarrow> hs) @ [h])
          else smap_get (groupsReady w) g))
    \<and> inbox (net w') h ms"
proof -
  have i1: "int_bytes 1 \<noteq> []" "length (int_bytes 1) < 2 ^ 31" by (simp_all add: int_bytes_def)
  obtain w1 w2 where
    w: "vt_probe V h True 0 w = Ret (8, 4, w1)" "vt_receive V h 4 w1 = Ret (4, int_bytes 1, w2)" "heap w2 = heap w"
    "I (net w2)" "inbox (net w2) h (bytes_of_string t # ms)" "world.more w2 = world.more w"
    using read_message [OF assms(1-5) i1, of 0] by auto
  have l: "heap w2 h = Some ob" "bytes_of_string t \<noteq> []" "length (bytes_of_string t) < 2 ^ 31"
    using w(3) assms(4,6,8) by (auto simp: bytes_of_string_def)
  obtain w3 w4 where
    v: "vt_probe V h True 0 w2 = Ret (8, of_nat (length t), w3)"
    "vt_receive V h (of_nat (length t)) w3 = Ret (int (length t), bytes_of_string t, w4)"
    "heap w4 = heap w2" "I (net w4)" "inbox (net w4) h ms" "world.more w4 = world.more w2"
    using read_message [OF assms(1,2) w(4) l(1) w(5) l(2,3), of 0] by auto
  have "\<not> (1048576 :: u64) < of_nat (length t)"
    using assms(8) by (simp add: word_less_nat_alt unat_of_nat_u64)
  then have "connectionHandshake V h w = Ret (0, Some t, w4)"
    using w v assms(6) by (simp add: connectionHandshake_def int_bytes_of_small c_string_bytes [OF assms(7)])
  moreover have "handleReady w4 = handleReady w" "groupsReady w4 = groupsReady w"
    using more_ready [of w4 w] v(6) w(6) by simp_all
  ultimately show ?thesis
    using v(5) by (cases "smap_get (groupsReady w) t") (simp_all add: addinQ_def smap_laws)
qed

end

end
