(* ===== verification/Handshakes.thy ===== *)
theory Handshakes
  imports Carriers
begin

text \<open>
  Every transport is a \<open>pipe\<close>, so the two ends of the manager's handshake fit together over MPI, MQTT and UCX
  as they do over TCP.
\<close>

section \<open>The transports\<close>

interpretation tcp_pipe: pipe "tcp_vtable A" for A
  by unfold_locales
    (auto simp: tcp_send_def tcp_probe_def tcp_receive_def bnd_Ret_conv Let_def split: prod.splits)

interpretation shm_pipe: pipe "shm_vtable c A" for c A
  by unfold_locales
    (auto simp: shm_vtable_def shm_send_def shm_probe_def shm_receive_def bnd_Ret_conv Let_def
      split: prod.splits if_splits option.splits)

interpretation mpi_pipe: pipe "mpi_vtable A" for A
  by unfold_locales
    (auto simp: mpi_vtable_def hmpi_send_def hmpi_probe_def hmpi_receive_def bnd_Ret_conv Let_def split: prod.splits)

interpretation p2p_pipe: pipe "p2p_vtable A" for A
  by unfold_locales
    (auto simp: p2p_vtable_def p2p_send_def p2p_probe_def p2p_receive_def bnd_Ret_conv Let_def split: prod.splits)

lemma mqtt_receive_loop_more:
  "mqtt_receive_loop n A h size1 w = Ret (r, bs, w') \<Longrightarrow> world.more w' = world.more w"
proof (induction n arbitrary: w)
  case (Suc n)
  then show ?case by (auto simp: bnd_Ret_conv Let_def split: list.splits option.splits if_splits prod.splits)
qed simp

lemma mqtt_more:
  "mqtt_send A h bs w = Ret (r, w') \<Longrightarrow> world.more w' = world.more w"
  "mqtt_receive n A h size1 w = Ret (r, bs, w') \<Longrightarrow> world.more w' = world.more w"
  "mqtt_probe n A h b sz w = Ret (r, sz', w') \<Longrightarrow> world.more w' = world.more w"
  by (auto simp: mqtt_send_def mqtt_receive_def mqtt_probe_def bnd_Ret_conv Let_def
      split: list.splits option.splits if_splits prod.splits dest!: channel_more mqtt_receive_loop_more)

interpretation mqtt_pipe: pipe "mqtt_vtable n A ready" for n A ready
  by unfold_locales (auto simp: mqtt_vtable_def dest: mqtt_more)

lemma receive_internal_more:
  assumes "receive_internal c A h n b w = Ret (r, m, bs, w')"
  shows "world.more w' = world.more w"
proof -
  define made where "made = (ux_request (net w) h = Req_null)"
  obtain p now s where st: "(if made then ux_stream_recv A (endpoint (net w) h) (unat n) (ux_os (net w))
      else ((ux_request (net w) h, []), ux_os (net w))) = ((p, now), s)" by (metis surj_pair)
  from assms obtain status p' later s' where rw: "request_wait c A p b s = Ret (status, p', later, s')"
    unfolding receive_internal_def made_def [symmetric] Let_def st by (auto simp: bnd_Ret_conv)
  obtain ob where "obj h w = Ret ob" using assms by (auto simp: receive_internal_def bnd_Ret_conv)
  then show ?thesis
    using assms rw unfolding receive_internal_def made_def [symmetric] Let_def st by (auto simp: bnd_Ret_conv split: if_splits)
qed

lemma ucx_more:
  "ucx_send c A h bs w = Ret (r, w') \<Longrightarrow> world.more w' = world.more w"
  "ucx_receive c A h size1 w = Ret (r, bs, w') \<Longrightarrow> world.more w' = world.more w"
  by (auto simp: ucx_send_def ucx_send_iov_def ucx_receive_def bnd_Ret_conv Let_def
      split: if_splits prod.splits dest!: receive_internal_more)

lemma ucx_probe_more:
  assumes "ucx_probe c A h b sz w = Ret (r, sz', w')"
  shows "world.more w' = world.more w"
proof (cases "last_probe (net w) h = -1")
  case True
  with assms obtain r1 m1 bs1 w1 where ri: "receive_internal c A h 8 b w = Ret (r1, m1, bs1, w1)"
    by (auto simp: ucx_probe_def bnd_Ret_conv)
  obtain ob where ob: "obj h w = Ret ob" using assms by (auto simp: ucx_probe_def bnd_Ret_conv)
  let ?wi = "into_test_probe h bs1 w1"
  let ?w2 = "with_net (\<lambda>t. t\<lparr>last_probe := (last_probe t)(h := ssize_of (be64toh (of_le_bytes (test_probe (net ?wi) h))))\<rparr>) ?wi"
  have w1: "world.more ?wi = world.more w" using receive_internal_more [OF ri] by simp
  from assms ob ri True have "w' = ?wi \<or> w' = ?w2
    \<or> (\<exists>r m bs v. receive_internal c A h 4 True ?w2 = Ret (r, m, bs, v) \<and> (w' = v \<or> w' = into_test_probe h bs v))"
    by (auto simp: ucx_probe_def Let_def bnd_Ret_conv split: if_splits)
  then show ?thesis using w1 by (auto dest!: receive_internal_more)
next
  case False
  with assms show ?thesis by (auto simp: ucx_probe_def bnd_Ret_conv)
qed

interpretation ucx_pipe: pipe "ucx_vtable c A ready" for c A ready
  by unfold_locales (auto simp: ucx_vtable_def dest: ucx_more ucx_probe_more)

section \<open>Handshakes over MPI, MQTT and UCX\<close>

text \<open>A member that joins a team over MPI announces it with the identifier of the team, and the root's
  \<open>addinQ\<close>, on the channel these messages arrive in, adds the handle to the group of exactly this team, at its
  end, and keeps it from \<open>getNext\<close>.\<close>

theorem mpi_team_handshake:
  fixes v :: "(('p, 'k) mpi_state_scheme, 'y) mworld"
  assumes "mpi_sends A outq" and "mpi_fifo B inq" and "vtab e = mpi_vtable A"
    and "connect_root e as w = Ret (Some k, w1)" and "heap w1 k = Some ob"
    and "outq (mpi_chan (net w1) k) (mpi_os (net w1)) = []"
    and "t \<noteq> []" and "CHR 0x00 \<notin> set t" and "length t \<le> 1048576"
    and "team_join e as t w = Ret (hs, w2)" and "heap v h = Some ob'"
    and "inq (mpi_chan (net v) h) (mpi_os (net v)) = outq (mpi_chan (net w2) k) (mpi_os (net w2))"
  shows "hs = Some [k] \<and> (\<exists>v'. addinQ (mpi_vtable B) True h v = Ret v' \<and> handleReady v' = handleReady v
    \<and> (\<forall>g. smap_get (groupsReady v') g =
         (if g = t then Some ((case smap_get (groupsReady v) t of None \<Rightarrow> [] | Some hs \<Rightarrow> hs) @ [h])
          else smap_get (groupsReady v) g)))"
proof -
  have own: "own_channels {j} x" for j and x :: "('o, 'm) mpi_state_scheme" by (simp add: own_channels_def)
  have own': "own_channels {j} x" for j and x :: "('p, 'k) mpi_state_scheme" by (simp add: own_channels_def)
  from mpi_pipe.join_announces [OF mpi_sends_to [OF assms(1)] assms(3,4) singletonI own assms(5,9)] assms(6,10)
  have hs: "hs = Some [k]"
    and out: "outq (mpi_chan (net w2) k) (mpi_os (net w2)) = mpi_frame (int_bytes 1) @ mpi_frame (bytes_of_string t)"
    by auto
  have "mpi_inbox inq (net v) h (int_bytes 1 # bytes_of_string t # [])"
    using out assms(12) by (simp add: mpi_inbox_def)
  from mpi_pipe.addinQ_member [OF mpi_delivers [OF assms(2)] singletonI own' assms(11) this assms(7-9)] hs
  show ?thesis by blast
qed

text \<open>A process with one transport, with the state \<open>n\<close>, and the handle 7.\<close>

definition one_transport :: "string \<Rightarrow> string \<Rightarrow> 'n \<Rightarrow> 'n mgr" where
  "one_transport p app n = \<lparr>heap = [7 \<mapsto> new_handle p], errno = OK_errno, next_hid = 8, net = n,
     ctxs = (\<lambda>_. None), protocols = [p], handleReady = [], groupsReady = [], contexts = [],
     listening_endps = {}, createdTeams = {}, appName = app, poolName = [], cfg = config_empty, stopped = False,
     mtcl_verbose = -1, initialized = True, slept = 0\<rparr>"

definition mpi_env :: "(mpi_qs mpi_state, unit) env" where
  "mpi_env = \<lparr>vtab = mpi_vtable sample_mpi, proto = mpi_conn 5 sample_mpi, bound = 5, junk = []\<rparr>"

definition mpi_net :: "byte list list \<Rightarrow> mpi_qs mpi_state" where
  "mpi_net ms = \<lparr>mpi_rank_of = (\<lambda>_. 0), mpi_tag_of = (\<lambda>_. 5), mpi_conns = [], mpi_rank = 1,
     mpi_os = ((\<lambda>q. if q = (0, 0, 5) then ms else []), (\<lambda>q. []))\<rparr>"

theorem mpi_team_handshake_witness:
  "\<exists>w2 v'. team_join mpi_env [''MPI:0:5''] ''A:BA-0'' (one_transport ''MPI'' ''B'' (mpi_net [])) = Ret (Some [8], w2)
     \<and> addinQ (mpi_vtable sample_mpi) True 7
         (one_transport ''MPI'' ''A'' (mpi_net (snd (mpi_os (net w2)) (mpi_chan (net w2) 8)))) = Ret v'
     \<and> smap_get (groupsReady v') ''A:BA-0'' = Some [7]"
proof -
  let ?w = "one_transport ''MPI'' ''B'' (mpi_net [])" and ?t = "''A:BA-0''"
  have stoi: "stoi (before_colon ''0:5'') = Ret 0" "stoi (after_colon ''0:5'') = Ret 5"
    by (simp_all add: before_colon_def after_colon_def colon_def stoi_def string_to_int_def is_space_def digit_value_def)
  obtain w1 where c: "mpi_connect sample_mpi ''MPI'' ''0:5'' CCONNECTION_RETRY CCONNECTION_TIMEOUT ?w = Ret (Some 8, w1)"
    and w1: "heap w1 8 = Some (new_handle ''MPI'')" "snd (mpi_os (net w1)) (mpi_chan (net w1) 8) = []"
    by (simp add: mpi_connect_def stoi caught_def MPI_CONNECTION_TAG_def sample_mpi_def new_HandleMPI_def
        alloc_handle_def mpi_insert_def one_transport_def mpi_net_def set_mpi_def with_net_def mpi_chan_def Let_def)
  then have "connectHandle mpi_env ''MPI:0:5'' CCONNECTION_RETRY CCONNECTION_TIMEOUT ?w = Ret (Some 8, w1)"
    by (simp add: connectHandle_def before_colon_def after_colon_def colon_def one_transport_def
        config_empty_def mpi_env_def mpi_conn_def Let_def)
  then have ch: "connect_root mpi_env [''MPI:0:5''] ?w = Ret (Some 8, w1)" by simp
  have V: "vtab mpi_env = mpi_vtable sample_mpi" by (simp add: mpi_env_def)
  have t: "?t \<noteq> []" "CHR 0x00 \<notin> set ?t" "length ?t \<le> 1048576" by simp_all
  have own: "own_channels {8} (net w1)" by (simp add: own_channels_def)
  obtain hs w2 where tj: "team_join mpi_env [''MPI:0:5''] ?t ?w = Ret (hs, w2)"
    using mpi_pipe.join_announces [OF mpi_sends_to [OF sample_mpi_sends] V ch singletonI own w1(1) t(3)] by blast
  let ?v = "one_transport ''MPI'' ''A'' (mpi_net (snd (mpi_os (net w2)) (mpi_chan (net w2) 8)))"
  have v: "heap ?v 7 = Some (new_handle ''MPI'')" "groupsReady ?v = []"
    "fst (mpi_os (net ?v)) (mpi_chan (net ?v) 7) = snd (mpi_os (net w2)) (mpi_chan (net w2) 8)"
    by (simp_all add: one_transport_def mpi_net_def mpi_chan_def MPI_COMM_WORLD_def)
  from mpi_team_handshake [OF sample_mpi_sends sample_mpi_fifo V ch w1 t tj v(1,3)] tj v(2) show ?thesis by auto
qed

text \<open>C10: A connection made with \<open>Manager::connect\<close> over UCX reaches the other process as a new point-to-point
  connection: what the connecting side puts on the stream is understood by \<open>addinQ\<close> of the accepting side,
  which queues the handle for \<open>getNext\<close> and has read exactly these bytes: all that came after them is still there,
  and the handle is ready for the next header.\<close>

theorem ucx_connect_handshake:
  fixes v :: "(('p, 'k) ucx_state_scheme, 'y) mworld"
  assumes "ucx_sends A lag outq due" and "ucx_finishes A outq due" and "ucx_receives B lag inq due'"
    and "ucx_finishes B inq due'" and "lag < c" and "vtab e = ucx_vtable c A ready"
    and "connectHandle e a n t w = Ret (Some k, w1)" and "heap w1 k = Some ob" and "ux_request (net w1) k = Req_null"
    and "outq (endpoint (net w1) k) (ux_os (net w1)) = []" and "mgr_connect e a n t w = Ret (u, w2)"
    and "heap v h = Some ob'" and "ux_request (net v) h = Req_null" and "last_probe (net v) h = -1"
    and "length (test_probe (net v) h) = 8"
    and "inq (endpoint (net v) h) (ux_os (net v)) = outq (endpoint (net w2) k) (ux_os (net w2)) @ rest"
  shows "u = \<lparr>realHandle = Some k, isReadable = True, newConnection = True\<rparr>
    \<and> (\<exists>v'. addinQ (ucx_vtable c B ready') True h v = Ret v'
        \<and> handleReady v' = handleReady v @ [\<lparr>realHandle = Some h, isReadable = True, newConnection = True\<rparr>]
        \<and> groupsReady v' = groupsReady v \<and> ucx_stream c inq due' (net v') h rest)"
proof -
  have own: "own_endpoints due {k} (net w1)" using assms(9) by (simp add: own_endpoints_def)
  have own': "own_endpoints due' {h} (net v)" using assms(13) by (simp add: own_endpoints_def)
  from ucx_pipe.connect_announces [OF ucx_sends_to [OF assms(1,2,5)] assms(6,7) singletonI own assms(8)] assms(10,11)
  have u: "u = \<lparr>realHandle = Some k, isReadable = True, newConnection = True\<rparr>"
    and out: "outq (endpoint (net w2) k) (ux_os (net w2)) = concat (tcp_frame (int_bytes 0))"
    by auto
  have "ucx_left (\<lambda>_ r. r = rest) c inq due' (net v) h (int_bytes 0 # [])"
    using out assms(13-16) by (simp add: ucx_left_def ucx_stream_def)
  from ucx_pipe.addinQ_connection [OF ucx_left_delivers [OF assms(3-5)] singletonI own' assms(12) this] u
  show ?thesis by (simp add: ucx_left_def)
qed

definition ucx_env :: "(ucx_qs ucx_state, unit) env" where
  "ucx_env = \<lparr>vtab = ucx_vtable 3 sample_ucx (\<lambda>b h w. Ret w), proto = ucx_conn 3 sample_ucx (\<lambda>b h w. Ret w),
     bound = 3, junk = []\<rparr>"

text \<open>The peer's worker has an address of two bytes, which the sample makes the endpoint 2.\<close>

definition ucx_net :: "byte list \<Rightarrow> byte list \<Rightarrow> ucx_qs ucx_state" where
  "ucx_net sock bs = (net (ucx_waiting bs))\<lparr>ux_os := ((\<lambda>ep. if ep = 5 then sock else if ep = 1 then bs else []), (\<lambda>ep. []), (\<lambda>r. None))\<rparr>"

theorem ucx_connect_handshake_witness:
  "\<exists>u w2 v'. mgr_connect ucx_env ''UCX:h:1'' 1 0 (one_transport ''UCX'' ''A'' (ucx_net (address_frame [9, 8]) [])) = Ret (u, w2)
     \<and> u = \<lparr>realHandle = Some 8, isReadable = True, newConnection = True\<rparr>
     \<and> addinQ (ucx_vtable 3 sample_ucx (\<lambda>b h w. Ret w)) True 7
         (one_transport ''UCX'' ''B'' (ucx_net [] (sample_out (endpoint (net w2) 8) (ux_os (net w2)) @ [77]))) = Ret v'
     \<and> handleReady v' = [\<lparr>realHandle = Some 7, isReadable = True, newConnection = True\<rparr>]
     \<and> ucx_stream 3 sample_in sample_due (net v') 7 [77]"
proof -
  let ?w = "one_transport ''UCX'' ''A'' (ucx_net (address_frame [9, 8]) [])"
  have fd: "connect_fd 3 sample_ucx fd [1] en s = Ret (0, OK_errno, s)" for fd en s
    by (simp add: connect_fd_def sample_ucx_def keep_errno_def Let_def)
  have sk: "sk_socket sample_ucx x s = ((5, None), s)" "sk_getaddrinfo sample_ucx b y z s = (Some [[1]], s)" for x b y z s
    by (simp_all add: sample_ucx_def)
  have ta: "try_addrs 3 sample_ucx [[1]] en s = Ret (Some 5, OK_errno, s)" for en s
    by (simp add: fd sk)
  have ic: "internal_connect 3 sample_ucx ''h:1'' 1 0 en s = Ret (5, OK_errno, s)" for en s
    by (simp add: internal_connect_def before_colon_def colon_def substr_from_def sk retry_loop.simps [of 3 sample_ucx _ 1] fd)
  let ?s = "((\<lambda>ep. if ep = 5 then address_frame [9, 8] else []), (\<lambda>ep. []), (\<lambda>r. None)) :: ucx_qs"
  obtain s2 where ex: "exchange_address sample_ucx 5 [1, 2, 3] ?s = (0, [9, 8], s2)" and s2: "sample_out 2 s2 = []"
    by (simp add: exchange_address_def sample_ucx_def address_frame_def to_int_def)
  have nw: "local_addr (net ?w) = [1, 2, 3]" "ux_os (net ?w) = ?s" "next_hid ?w = 8"
    by (simp_all add: one_transport_def ucx_net_def ucx_waiting_def fun_eq_iff)
  have ep: "ux_ep_create sample_ucx [9, 8] s = ((UCS_OK, 2), s)" for s by (simp add: sample_ucx_def)
  let ?wc = "set_ux None s2 (set_ux (Some OK_errno) (ux_os (net ?w)) ?w)"
  obtain w0 where n: "new_HandleUCX ''UCX'' 2 ?wc = (8, w0)" "heap w0 8 = Some (new_handle ''UCX'')"
    "ux_request (net w0) 8 = Req_null" "endpoint (net w0) 8 = 2" "ux_os (net w0) = s2"
    using nw(3) by (simp add: new_HandleUCX_def alloc_handle_def with_net_def set_ux_def)
  let ?wi = "ucx_insert 2 8 w0"
  have c: "ucx_connect 3 sample_ucx ''UCX'' ''h:1'' 1 0 ?w = Ret (Some 8, ?wi)"
    using n(1) by (simp add: ucx_connect_def ic ep nw ex Let_def)
  have w1: "heap ?wi 8 = Some (new_handle ''UCX'')" "ux_request (net ?wi) 8 = Req_null"
    "sample_out (endpoint (net ?wi) 8) (ux_os (net ?wi)) = []"
    using n s2 by (simp_all add: ucx_insert_def)
  have ch: "connectHandle ucx_env ''UCX:h:1'' 1 0 ?w = Ret (Some 8, ?wi)"
    using c by (simp add: connectHandle_def before_colon_def after_colon_def colon_def one_transport_def
        config_empty_def ucx_env_def ucx_conn_def Let_def)
  have V: "vtab ucx_env = ucx_vtable 3 sample_ucx (\<lambda>b h w. Ret w)" by (simp add: ucx_env_def)
  have own: "own_endpoints sample_due {8} (net ?wi)" using w1(2) by (simp add: own_endpoints_def)
  have lag: "(2 :: nat) < 3" by simp
  note carries = sample_ucx_sends sample_ucx_finishes(2)
  obtain u w2 where mc: "mgr_connect ucx_env ''UCX:h:1'' 1 0 ?w = Ret (u, w2)"
    using ucx_pipe.connect_announces [OF ucx_sends_to [OF carries lag] V ch singletonI own w1(1)] by blast
  let ?v = "one_transport ''UCX'' ''B'' (ucx_net [] (sample_out (endpoint (net w2) 8) (ux_os (net w2)) @ [77]))"
  have v: "heap ?v 7 = Some (new_handle ''UCX'')" "ux_request (net ?v) 7 = Req_null" "last_probe (net ?v) 7 = -1"
    "length (test_probe (net ?v) 7) = 8" "handleReady ?v = []"
    "sample_in (endpoint (net ?v) 7) (ux_os (net ?v)) = sample_out (endpoint (net w2) 8) (ux_os (net w2)) @ [77]"
    by (simp_all add: one_transport_def ucx_net_def ucx_waiting_def)
  from ucx_connect_handshake [OF carries sample_ucx_receives sample_ucx_finishes(1) lag V ch w1 mc v(1-4,6)] mc v(5)
  show ?thesis by auto
qed

end
