(* ===== verification/CollMpi.thy ===== *)
theory CollMpi
  imports ConnMpi
begin

text \<open>
  \<open>include/collectives/mpiImpl.hpp\<close>: the collectives of the MPI library, over a communicator that the members
  of a team make of their ranks, which they exchange over their handles.
  \<^item> \<open>mpic_lib\<close> adds the calls for groups, communicators and collectives. Making a communicator is one call
    of the model: the three calls of the code only print their errors. A collective blocks, and returns its
    code and the buffer.
  \<^item> \<open>mpi_coll\<close> holds the members of \<open>MPICollective\<close>. \<open>junk\<close> is the content of uninitialised memory.
\<close>

record 'o mpic_lib = "'o mpi_lib" +
  mpi_comm_create :: "int list \<Rightarrow> int \<Rightarrow> 'o \<Rightarrow> nat \<times> 'o"   \<comment> \<open>ranks in \<open>MPI_COMM_WORLD\<close>, tag\<close>
  mpi_bcast :: "nat \<Rightarrow> int \<Rightarrow> int \<Rightarrow> byte list \<Rightarrow> 'o \<Rightarrow> (int \<times> byte list \<times> 'o) out"   \<comment> \<open>communicator, root, count\<close>
  mpi_gather :: "nat \<Rightarrow> int \<Rightarrow> byte list \<Rightarrow> int \<Rightarrow> byte list \<Rightarrow> 'o \<Rightarrow> (int \<times> byte list \<times> 'o) out"
  mpi_comm_free :: "nat \<Rightarrow> 'o \<Rightarrow> 'o"

record mpi_coll =
  mc_participants :: "hid list"
  mc_root :: bool
  root_rank :: int
  local_rank :: int
  mc_ranks :: "int list"   \<comment> \<open>the group; the array is given back when the communicator is made\<close>
  mc_comm :: nat
  mc_closing :: bool

section \<open>Exchanging the ranks\<close>

text \<open>The bytes of an array of \<open>int\<close>, and \<open>n\<close> elements of it read back from memory.\<close>

definition ints_bytes :: "int list \<Rightarrow> byte list" where
  "ints_bytes xs = concat (map int_bytes xs)"

definition bytes_ints :: "nat \<Rightarrow> byte list \<Rightarrow> int list" where
  "bytes_ints n bs = map (\<lambda>i. bytes_int (take 4 (drop (4 * i) bs))) [0..<n]"

text \<open>Memory of \<open>n\<close> bytes that was uninitialised before \<open>bs\<close> was written to its start.\<close>

definition overlay :: "(nat \<Rightarrow> byte) \<Rightarrow> nat \<Rightarrow> byte list \<Rightarrow> byte list" where
  "overlay junk n bs = bs @ map junk [length bs..<n]"

text \<open>The two loops of the root: the ranks of the others, and sending the whole array.\<close>

fun exchange_ranks ::
  "(nat \<Rightarrow> byte) \<Rightarrow> ('n, 'x) world_scheme vtable \<Rightarrow> int \<Rightarrow> hid list \<Rightarrow> ('n, 'x) world_scheme
     \<Rightarrow> (int list \<times> ('n, 'x) world_scheme) out" where
  "exchange_ranks junk V r [] w = Ret ([], w)"
| "exchange_ranks junk V r (h # hs) w =
     bnd (vt_send V h (int_bytes r) w) (\<lambda>(_, w).
     bnd (receiveFromHandle V h sizeof_int w) (\<lambda>(_, bs, w).
     bnd (exchange_ranks junk V r hs w) (\<lambda>(rs, w).
     Ret (bytes_int (overlay junk 4 bs) # rs, w))))"

definition send_each ::
  "('n, 'x) world_scheme vtable \<Rightarrow> byte list \<Rightarrow> hid list \<Rightarrow> ('n, 'x) world_scheme \<Rightarrow> ('n, 'x) world_scheme out" where
  "send_each V bs = each_handle (\<lambda>h w. bnd (vt_send V h bs w) (\<lambda>(_, w). Ret w))"

definition ranks_at_root ::
  "(nat \<Rightarrow> byte) \<Rightarrow> ('n, 'x) world_scheme vtable \<Rightarrow> int \<Rightarrow> hid list \<Rightarrow> ('n, 'x) world_scheme
     \<Rightarrow> (int list \<times> ('n, 'x) world_scheme) out" where
  "ranks_at_root junk V r ps w =
     bnd (exchange_ranks junk V r ps w) (\<lambda>(rs, w).
     bnd (send_each V (ints_bytes (r # rs)) ps w) (\<lambda>w. Ret (r # rs, w)))"

text \<open>A member: the rank of the root and the array. The results of the calls are not looked at.\<close>

definition ranks_at_member ::
  "(nat \<Rightarrow> byte) \<Rightarrow> ('n, 'x) world_scheme vtable \<Rightarrow> int \<Rightarrow> hid list \<Rightarrow> ('n, 'x) world_scheme
     \<Rightarrow> (int \<times> int list \<times> ('n, 'x) world_scheme) out" where
  "ranks_at_member junk V r ps w =
     bnd (vec_at ps 0) (\<lambda>h.
     bnd (receiveFromHandle V h sizeof_int w) (\<lambda>(_, bs, w).
     bnd (vt_send V h (int_bytes r) w) (\<lambda>(_, w).
     bnd (probeHandle V h (of_le_bytes (overlay junk 8 [])) True w) (\<lambda>(_, sz, w).
     let coll_size = nat (int_count (sz div sizeof_int))
     in bnd (receiveFromHandle V h sz w) (\<lambda>(_, rbs, w).
        Ret (bytes_int (overlay junk 4 bs), bytes_ints coll_size (overlay junk (4 * coll_size) rbs), w))))))"

section \<open>MPICollective\<close>

definition new_MPICollective ::
  "(nat \<Rightarrow> byte) \<Rightarrow> ('o, 'a) mpic_lib_scheme \<Rightarrow> ('o, 'm, 'x) mpi_world vtable \<Rightarrow> hid list \<Rightarrow> bool \<Rightarrow> int
     \<Rightarrow> ('o, 'm, 'x) mpi_world \<Rightarrow> (mpi_coll \<times> ('o, 'm, 'x) mpi_world) out" where
  "new_MPICollective junk A V ps root uniqtag w =
     (let r = mpi_comm_rank A (mpi_os (net w))
      in bnd (if root then bnd (ranks_at_root junk V r ps w) (\<lambda>(rs, w). Ret (r, rs, w))
              else ranks_at_member junk V r ps w) (\<lambda>(rr, rs, w).
         let (c, s) = mpi_comm_create A rs uniqtag (mpi_os (net w))
         in Ret (\<lparr>mc_participants = ps, mc_root = root, root_rank = rr, local_rank = r, mc_ranks = rs, mc_comm = c,
              mc_closing = False\<rparr>, set_mpi None s w)))"

text \<open>\<open>peek\<close>, with the \<open>probe\<close> of both subclasses.\<close>

definition mpic_probe ::
  "u64 \<Rightarrow> ('n, 'x) world_scheme \<Rightarrow> int \<times> u64 \<times> ('n, 'x) world_scheme" where
  "mpic_probe sz w = (-1, sz, set_errno EINVAL w)"

definition mpic_peek :: "('n, 'x) world_scheme \<Rightarrow> bool \<times> ('n, 'x) world_scheme" where
  "mpic_peek w = (let (res, _, w) = mpic_probe 0 w in (0 < res, w))"

section \<open>BroadcastMPI\<close>

text \<open>Both directions are \<open>MPI_Bcast\<close>: the buffer of the root is read, that of another member written.\<close>

definition bcast_call ::
  "('o, 'a) mpic_lib_scheme \<Rightarrow> mpi_coll \<Rightarrow> byte list \<Rightarrow> u64 \<Rightarrow> ('o, 'm, 'x) mpi_world
     \<Rightarrow> (int \<times> byte list \<times> ('o, 'm, 'x) mpi_world) out" where
  "bcast_call A c buf size1 w =
     bnd (mpi_bcast A (mc_comm c) (root_rank c) (int_count size1) buf (mpi_os (net w))) (\<lambda>(e, buf, s).
     if e \<noteq> 0 then Ret (-1, buf, set_mpi (Some ECOMM) s w) else Ret (ssize_of size1, buf, set_mpi None s w))"

definition bmpi_send ::
  "('o, 'a) mpic_lib_scheme \<Rightarrow> mpi_coll \<Rightarrow> byte list \<Rightarrow> ('o, 'm, 'x) mpi_world
     \<Rightarrow> (int \<times> byte list \<times> ('o, 'm, 'x) mpi_world) out" where
  "bmpi_send A c bs w = bcast_call A c bs (of_nat (length bs)) w"

definition bmpi_receive ::
  "('o, 'a) mpic_lib_scheme \<Rightarrow> mpi_coll \<Rightarrow> byte list \<Rightarrow> u64 \<Rightarrow> ('o, 'm, 'x) mpi_world
     \<Rightarrow> (int \<times> byte list \<times> ('o, 'm, 'x) mpi_world) out" where
  "bmpi_receive A c buf size1 w = bcast_call A c buf size1 w"

text \<open>The result: the return value, \<open>sendbuff\<close> and \<open>recvbuff\<close>.\<close>

definition bmpi_sendrecv ::
  "('o, 'a) mpic_lib_scheme \<Rightarrow> mpi_coll \<Rightarrow> byte list \<Rightarrow> byte list \<Rightarrow> u64 \<Rightarrow> ('o, 'm, 'x) mpi_world
     \<Rightarrow> (int \<times> byte list \<times> byte list \<times> ('o, 'm, 'x) mpi_world) out" where
  "bmpi_sendrecv A c sendbuff recvbuff recvsize w =
     (if mc_root c then bnd (bmpi_send A c sendbuff w) (\<lambda>(r, buf, w). Ret (r, buf, recvbuff, w))
      else bnd (bmpi_receive A c recvbuff recvsize w) (\<lambda>(r, buf, w). Ret (r, sendbuff, buf, w)))"

section \<open>GatherMPI\<close>

text \<open>\<open>send\<close> and \<open>receive\<close> of a gather are not supported; the root of \<open>MPI_Gather\<close> is the first rank.\<close>

definition gmpi_send :: "byte list \<Rightarrow> ('n, 'x) world_scheme \<Rightarrow> int \<times> ('n, 'x) world_scheme" where
  "gmpi_send bs w = (-1, w)"

definition gmpi_receive :: "u64 \<Rightarrow> ('n, 'x) world_scheme \<Rightarrow> int \<times> ('n, 'x) world_scheme" where
  "gmpi_receive size1 w = (-1, set_errno EINVAL w)"

definition gmpi_sendrecv ::
  "('o, 'a) mpic_lib_scheme \<Rightarrow> mpi_coll \<Rightarrow> byte list \<Rightarrow> byte list \<Rightarrow> u64 \<Rightarrow> ('o, 'm, 'x) mpi_world
     \<Rightarrow> (int \<times> byte list \<times> ('o, 'm, 'x) mpi_world) out" where
  "gmpi_sendrecv A c sendbuff recvbuff recvsize w =
     bnd (mpi_gather A (mc_comm c) 0 sendbuff (int_count recvsize) recvbuff (mpi_os (net w))) (\<lambda>(e, buf, s).
     if e \<noteq> 0 then Ret (-1, buf, set_mpi (Some ECOMM) s w)
     else Ret (ssize_of (if mc_root c then recvsize * of_nat (length (mc_participants c)) else of_nat (length sendbuff)),
       buf, set_mpi None s w))"

section \<open>Closing\<close>

definition mpic_close :: "mpi_coll \<Rightarrow> mpi_coll" where
  "mpic_close c = c\<lparr>mc_closing := True\<rparr>"

definition mpic_finalize ::
  "('o, 'a) mpic_lib_scheme \<Rightarrow> mpi_coll \<Rightarrow> ('o, 'm, 'x) mpi_world \<Rightarrow> mpi_coll \<times> ('o, 'm, 'x) mpi_world" where
  "mpic_finalize A c w =
     (let c = (if \<not> mc_closing c then mpic_close c else c)
      in (c, set_mpi None (mpi_comm_free A (mc_comm c) (mpi_os (net w))) w))"

end
