(* ===== verification/CollUcc.thy ===== *)
theory CollUcc
  imports CollMpi
begin

text \<open>
  \<open>include/collectives/uccImpl.hpp\<close>: the collectives of the UCC library.
  \<^item> UCC is a parameter: \<open>ucc_lib\<close> holds its calls over a state that includes the world, since making a
    context and a team call back \<open>oob_allgather\<close>, which exchanges addresses over the handles. \<open>UCC_CHECK\<close>
    only prints, so codes that are only checked are left out.
  \<^item> The state is the member \<open>root_rank\<close>, which the callback writes, and the world.
  \<^item> The handles of \<open>UCC_coll_info\<close> are the parameter of the constructor: a callback after the
    construction, in the progress of a collective, uses a vector that is gone.
\<close>

datatype ucc_status = UCC_OK | UCC_INPROGRESS | UCC_ERR

datatype ucc_coll_type = UCC_BCAST | UCC_GATHER

record ucc_args =
  ua_type :: ucc_coll_type
  ua_src :: "byte list"
  ua_dst :: "byte list option"
  ua_root :: int

type_synonym 's oob = "byte list \<Rightarrow> byte list \<Rightarrow> 's \<Rightarrow> (byte list \<times> 's) out"   \<comment> \<open>\<open>sbuf\<close>, \<open>rbuf\<close>\<close>

record 's ucc_lib =
  ucc_start :: "'s \<Rightarrow> 's"
  ucc_context_create :: "'s oob \<Rightarrow> int \<Rightarrow> int \<Rightarrow> 's \<Rightarrow> (nat \<times> 's) out"   \<comment> \<open>endpoints, own endpoint\<close>
  ucc_team_create_post :: "'s oob \<Rightarrow> nat \<Rightarrow> int \<Rightarrow> int \<Rightarrow> 's \<Rightarrow> (nat \<times> 's) out"
  ucc_team_create_test :: "'s oob \<Rightarrow> nat \<Rightarrow> 's \<Rightarrow> (ucc_status \<times> 's) out"
  ucc_context_progress :: "'s oob \<Rightarrow> nat \<Rightarrow> 's \<Rightarrow> 's out"
  ucc_collective_init :: "ucc_args \<Rightarrow> nat \<Rightarrow> 's \<Rightarrow> nat \<times> 's"
  ucc_collective_post :: "nat \<Rightarrow> 's \<Rightarrow> 's"
  ucc_collective_test :: "nat \<Rightarrow> 's \<Rightarrow> ucc_status \<times> 's"
  ucc_collective_finalize :: "nat \<Rightarrow> 's \<Rightarrow> byte list \<times> 's"   \<comment> \<open>what the buffer of the caller holds\<close>

record ucc_coll =
  uc_participants :: "hid list"
  uc_rank :: int
  uc_size :: int
  uc_root :: bool
  uc_root_rank :: int
  uc_ctx :: nat
  uc_team :: nat
  uc_closing :: bool

section \<open>Exchanging addresses\<close>

text \<open>
  The root: \<open>k\<close> rounds, the next handle for each; \<open>msglen\<close> is the size of a block. A rank that did not arrive
  is uninitialised memory; the results of the calls are not looked at.
\<close>

fun allgather_rounds ::
  "(nat \<Rightarrow> byte) \<Rightarrow> ('n, 'x) world_scheme vtable \<Rightarrow> int \<Rightarrow> u64 \<Rightarrow> nat \<Rightarrow> hid list \<Rightarrow> byte list
     \<Rightarrow> ('n, 'x) world_scheme \<Rightarrow> (byte list \<times> ('n, 'x) world_scheme) out" where
  "allgather_rounds junk V r msglen 0 hs rbuf w = Ret (rbuf, w)"
| "allgather_rounds junk V r msglen (Suc k) [] rbuf w = Fault Out_of_range"
| "allgather_rounds junk V r msglen (Suc k) (h # hs) rbuf w =
     bnd (vt_send V h (int_bytes r) w) (\<lambda>(_, w).
     bnd (receiveFromHandle V h sizeof_int w) (\<lambda>(_, bs, w).
     let remote_rank = bytes_int (overlay junk 4 bs);
         offset = unat (word_of_int remote_rank * msglen)
     in bnd (receiveFromHandle V h msglen w) (\<lambda>(_, bs, w).
        bnd (write_at offset bs rbuf) (\<lambda>rbuf. allgather_rounds junk V r msglen k hs rbuf w))))"

definition allgather_root ::
  "(nat \<Rightarrow> byte) \<Rightarrow> ('n, 'x) world_scheme vtable \<Rightarrow> hid list \<Rightarrow> int \<Rightarrow> int \<Rightarrow> byte list \<Rightarrow> byte list
     \<Rightarrow> ('n, 'x) world_scheme \<Rightarrow> (byte list \<times> ('n, 'x) world_scheme) out" where
  "allgather_root junk V hs r n sbuf rbuf w =
     (let msglen = of_nat (length sbuf)
      in bnd (allgather_rounds junk V r msglen (nat (n - 1)) hs rbuf w) (\<lambda>(rbuf, w).
         bnd (write_at (unat (word_of_int r * msglen)) sbuf rbuf) (\<lambda>rbuf.
         let total = unat (msglen * word_of_int n)
         in if length rbuf < total then Fault Out_of_bounds
            else bnd (send_each V (take total rbuf) hs w) (\<lambda>w. Ret (rbuf, w)))))"

definition allgather_member ::
  "(nat \<Rightarrow> byte) \<Rightarrow> ('n, 'x) world_scheme vtable \<Rightarrow> hid list \<Rightarrow> int \<Rightarrow> byte list \<Rightarrow> byte list
     \<Rightarrow> ('n, 'x) world_scheme \<Rightarrow> (byte list \<times> int \<times> ('n, 'x) world_scheme) out" where
  "allgather_member junk V hs r sbuf rbuf w =
     bnd (vec_at hs 0) (\<lambda>h.
     bnd (receiveFromHandle V h sizeof_int w) (\<lambda>(_, bs, w).
     let root_rank = bytes_int (overlay junk 4 bs)
     in bnd (vt_send V h (int_bytes r) w) (\<lambda>(_, w).
        bnd (vt_send V h sbuf w) (\<lambda>(_, w).
        bnd (probeHandle V h (of_le_bytes (overlay junk 8 [])) True w) (\<lambda>(_, sz, w).
        bnd (receiveFromHandle V h sz w) (\<lambda>(_, bs, w).
        bnd (write_at 0 bs rbuf) (\<lambda>rbuf. Ret (rbuf, root_rank, w))))))))"

definition oob_allgather ::
  "(nat \<Rightarrow> byte) \<Rightarrow> ('n, 'x) world_scheme vtable \<Rightarrow> hid list \<Rightarrow> int \<Rightarrow> int \<Rightarrow> bool
     \<Rightarrow> (int \<times> ('n, 'x) world_scheme) oob" where
  "oob_allgather junk V hs r n root sbuf rbuf s =
     (let (root_rank, w) = s
      in if root then bnd (allgather_root junk V hs r n sbuf rbuf w) (\<lambda>(rbuf, w). Ret (rbuf, root_rank, w))
         else allgather_member junk V hs r sbuf rbuf w)"

text \<open>\<open>oob_allgather_test\<close> and \<open>oob_allgather_free\<close>.\<close>

definition oob_allgather_test :: ucc_status where
  "oob_allgather_test = UCC_OK"

definition oob_allgather_free :: ucc_status where
  "oob_allgather_free = UCC_OK"

section \<open>UCCCollective\<close>

text \<open>The loop of \<open>create_ucc_team\<close>; \<open>exit(1)\<close> ends the program.\<close>

fun team_wait :: "nat \<Rightarrow> ('s, 'a) ucc_lib_scheme \<Rightarrow> 's oob \<Rightarrow> nat \<Rightarrow> nat \<Rightarrow> 's \<Rightarrow> 's out" where
  "team_wait 0 L cb ctx1 team s = Fault No_return"
| "team_wait (Suc c) L cb ctx1 team s =
     bnd (ucc_team_create_test L cb team s) (\<lambda>(status, s).
     if status = UCC_INPROGRESS then bnd (ucc_context_progress L cb ctx1 s) (team_wait c L cb ctx1 team)
     else if status \<noteq> UCC_OK then Fault Aborted
     else Ret s)"

definition create_ucc_team ::
  "nat \<Rightarrow> ('s, 'a) ucc_lib_scheme \<Rightarrow> 's oob \<Rightarrow> int \<Rightarrow> int \<Rightarrow> nat \<Rightarrow> 's \<Rightarrow> (nat \<times> 's) out" where
  "create_ucc_team c L cb r n ctx1 s =
     bnd (ucc_team_create_post L cb ctx1 n r s) (\<lambda>(team, s).
     bnd (team_wait c L cb ctx1 team s) (\<lambda>s. Ret (team, s)))"

definition new_UCCCollective ::
  "nat \<Rightarrow> (nat \<Rightarrow> byte) \<Rightarrow> ((int \<times> ('n, 'x) world_scheme), 'a) ucc_lib_scheme \<Rightarrow> ('n, 'x) world_scheme vtable
     \<Rightarrow> hid list \<Rightarrow> int \<Rightarrow> int \<Rightarrow> bool \<Rightarrow> ('n, 'x) world_scheme \<Rightarrow> (ucc_coll \<times> ('n, 'x) world_scheme) out" where
  "new_UCCCollective c junk L V ps r n root w =
     (let s = ucc_start L (bytes_int (overlay junk 4 []), w);
          s = (if root then (r, snd s) else s);
          cb = oob_allgather junk V ps r n root
      in bnd (ucc_context_create L cb n r s) (\<lambda>(ctx1, s).
         bnd (create_ucc_team c L cb r n ctx1 s) (\<lambda>(team, (root_rank, w)).
         Ret (\<lparr>uc_participants = ps, uc_rank = r, uc_size = n, uc_root = root, uc_root_rank = root_rank,
              uc_ctx = ctx1, uc_team = team, uc_closing = False\<rparr>, w))))"

definition uccc_probe :: "u64 \<Rightarrow> ('n, 'x) world_scheme \<Rightarrow> int \<times> u64 \<times> ('n, 'x) world_scheme" where
  "uccc_probe sz w = (-1, sz, set_errno EINVAL w)"

definition uccc_peek :: "('n, 'x) world_scheme \<Rightarrow> bool \<times> ('n, 'x) world_scheme" where
  "uccc_peek w = (let (res, _, w) = uccc_probe 0 w in (0 < res, w))"

section \<open>Collectives\<close>

text \<open>
  The loop \<open>while(UCC_INPROGRESS == ucc_collective_test(request))\<close>, which takes any other status for success,
  and a collective from start to end.
\<close>

definition stale_oob :: "'s oob" where
  "stale_oob sbuf rbuf s = Fault Use_after_free"

fun collective_wait :: "nat \<Rightarrow> ('s, 'a) ucc_lib_scheme \<Rightarrow> nat \<Rightarrow> nat \<Rightarrow> 's \<Rightarrow> 's out" where
  "collective_wait 0 L ctx1 req s = Fault No_return"
| "collective_wait (Suc c) L ctx1 req s =
     (let (status, s) = ucc_collective_test L req s
      in if status = UCC_INPROGRESS
         then bnd (ucc_context_progress L stale_oob ctx1 s) (collective_wait c L ctx1 req)
         else Ret s)"

definition run_collective ::
  "nat \<Rightarrow> ((int \<times> ('n, 'x) world_scheme), 'a) ucc_lib_scheme \<Rightarrow> ucc_coll \<Rightarrow> ucc_args
     \<Rightarrow> ('n, 'x) world_scheme \<Rightarrow> (byte list \<times> ('n, 'x) world_scheme) out" where
  "run_collective c L cl args w =
     (let (req, s) = ucc_collective_init L args (uc_team cl) (uc_root_rank cl, w)
      in bnd (collective_wait c L (uc_ctx cl) req (ucc_collective_post L req s)) (\<lambda>s.
         let (buf, s) = ucc_collective_finalize L req s in Ret (buf, snd s)))"

definition bucc_call ::
  "nat \<Rightarrow> ((int \<times> ('n, 'x) world_scheme), 'a) ucc_lib_scheme \<Rightarrow> ucc_coll \<Rightarrow> byte list \<Rightarrow> ('n, 'x) world_scheme
     \<Rightarrow> (int \<times> byte list \<times> ('n, 'x) world_scheme) out" where
  "bucc_call c L cl buf w =
     bnd (run_collective c L cl \<lparr>ua_type = UCC_BCAST, ua_src = buf, ua_dst = None, ua_root = uc_root_rank cl\<rparr> w)
       (\<lambda>(buf', w). Ret (ssize_of (of_nat (length buf)), buf', w))"

definition bucc_send ::
  "nat \<Rightarrow> ((int \<times> ('n, 'x) world_scheme), 'a) ucc_lib_scheme \<Rightarrow> ucc_coll \<Rightarrow> byte list \<Rightarrow> ('n, 'x) world_scheme
     \<Rightarrow> (int \<times> byte list \<times> ('n, 'x) world_scheme) out" where
  "bucc_send c L cl bs w = bucc_call c L cl bs w"

definition bucc_receive ::
  "nat \<Rightarrow> ((int \<times> ('n, 'x) world_scheme), 'a) ucc_lib_scheme \<Rightarrow> ucc_coll \<Rightarrow> byte list \<Rightarrow> ('n, 'x) world_scheme
     \<Rightarrow> (int \<times> byte list \<times> ('n, 'x) world_scheme) out" where
  "bucc_receive c L cl buf w = bucc_call c L cl buf w"

text \<open>The result: the return value, \<open>sendbuff\<close> and \<open>recvbuff\<close>; the buffers have the sizes that are passed.\<close>

definition bucc_sendrecv ::
  "nat \<Rightarrow> ((int \<times> ('n, 'x) world_scheme), 'a) ucc_lib_scheme \<Rightarrow> ucc_coll \<Rightarrow> byte list \<Rightarrow> byte list
     \<Rightarrow> ('n, 'x) world_scheme \<Rightarrow> (int \<times> byte list \<times> byte list \<times> ('n, 'x) world_scheme) out" where
  "bucc_sendrecv c L cl sendbuff recvbuff w =
     (if uc_root cl then bnd (bucc_send c L cl sendbuff w) (\<lambda>(r, buf, w). Ret (r, buf, recvbuff, w))
      else bnd (bucc_receive c L cl recvbuff w) (\<lambda>(r, buf, w). Ret (r, sendbuff, buf, w)))"

definition gucc_send :: "byte list \<Rightarrow> ('n, 'x) world_scheme \<Rightarrow> int \<times> ('n, 'x) world_scheme" where
  "gucc_send bs w = (-1, w)"

definition gucc_receive :: "u64 \<Rightarrow> ('n, 'x) world_scheme \<Rightarrow> int \<times> ('n, 'x) world_scheme" where
  "gucc_receive size1 w = (-1, set_errno EINVAL w)"

definition gucc_sendrecv ::
  "nat \<Rightarrow> ((int \<times> ('n, 'x) world_scheme), 'a) ucc_lib_scheme \<Rightarrow> ucc_coll \<Rightarrow> byte list \<Rightarrow> byte list \<Rightarrow> u64
     \<Rightarrow> ('n, 'x) world_scheme \<Rightarrow> (int \<times> byte list \<times> ('n, 'x) world_scheme) out" where
  "gucc_sendrecv c L cl sendbuff recvbuff recvsize w =
     bnd (run_collective c L cl \<lparr>ua_type = UCC_GATHER, ua_src = sendbuff,
            ua_dst = (if uc_root cl then Some recvbuff else None), ua_root = uc_root_rank cl\<rparr> w) (\<lambda>(buf, w).
     Ret (ssize_of (if uc_root cl then recvsize * of_nat (length (uc_participants cl)) else of_nat (length sendbuff)),
       if uc_root cl then buf else recvbuff, w))"

section \<open>Closing\<close>

definition uccc_close :: "ucc_coll \<Rightarrow> ucc_coll" where
  "uccc_close cl = cl\<lparr>uc_closing := True\<rparr>"

definition uccc_finalize :: "ucc_coll \<Rightarrow> ucc_coll" where
  "uccc_finalize cl = (if \<not> uc_closing cl then uccc_close cl else cl)"

end
