(* ===== verification/CollMpiProps.thy ===== *)
theory CollMpiProps
  imports CollMpi MpiProps
begin

text \<open>
  The collectives of the MPI library: all members of a team make the same group, whose first rank is the root;
  what becomes of a broadcast whose root has a rank of its own in \<open>MPI_COMM_WORLD\<close>.
\<close>

section \<open>Both directions of a handle\<close>

text \<open>Sending leaves what is to be received alone, and receiving leaves what has been sent.\<close>

definition two_way ::
  "('n, 'x) world_scheme vtable \<Rightarrow> ('n \<Rightarrow> hid \<Rightarrow> byte list list \<Rightarrow> bool) \<Rightarrow> ('n \<Rightarrow> hid \<Rightarrow> 'e list)
     \<Rightarrow> hid set \<Rightarrow> bool" where
  "two_way V inbox outbox P \<longleftrightarrow>
     (\<forall>h \<in> P. \<forall>bs w r w'. vt_send V h bs w = Ret (r, w')
        \<longrightarrow> (\<forall>k \<in> P. \<forall>ms. inbox (net w) k ms \<longrightarrow> inbox (net w') k ms))
   \<and> (\<forall>h \<in> P. \<forall>sz w r sz' w'. vt_probe V h True sz w = Ret (r, sz', w') \<longrightarrow> outbox (net w') = outbox (net w))
   \<and> (\<forall>h \<in> P. \<forall>n w r bs w'. vt_receive V h n w = Ret (r, bs, w') \<longrightarrow> outbox (net w') = outbox (net w))"

lemma two_wayD:
  assumes "two_way V inbox outbox P" and "h \<in> P"
  shows "vt_send V h bs w = Ret (r, w') \<Longrightarrow> k \<in> P \<Longrightarrow> inbox (net w) k ms \<Longrightarrow> inbox (net w') k ms"
    and "vt_probe V h True sz w = Ret (r, sz', w') \<Longrightarrow> outbox (net w') = outbox (net w)"
    and "vt_receive V h n w = Ret (r, bs, w') \<Longrightarrow> outbox (net w') = outbox (net w)"
  using assms unfolding two_way_def by blast+

text \<open>A probe and a receive of the next message, both through the collectives' wrappers, at the table itself.\<close>

lemma next_calls:
  assumes "delivers V I inbox P" and "two_way V inbox outbox P" and "h \<in> P" and "I (net w)" and "heap w h = Some ob"
    and "inbox (net w) h (m # ms)" and "m \<noteq> []" and "length m < 2 ^ 31"
  obtains w1 w2 where "vt_probe V h True sz w = Ret (8, of_nat (length m), w1)" and "heap w1 = heap w"
    and "vt_receive V h (of_nat (length m)) (put_obj h ob w1) = Ret (int (length m), m, w2)"
    and "heap w2 = heap w" and "I (net w2)" and "inbox (net w2) h ms" and "outbox (net w2) = outbox (net w)"
    and "\<forall>k \<in> P. \<forall>ns. k \<noteq> h \<and> inbox (net w) k ns \<longrightarrow> inbox (net w2) k ns"
proof -
  from assms(1,3,4,6-8) assms(5) obtain w1 where
    p: "vt_probe V h True sz w = Ret (8, of_nat (length m), w1)" "heap w1 = heap w"
    and recv: "\<forall>ob. \<exists>w2. vt_receive V h (of_nat (length m)) (put_obj h ob w1) = Ret (int (length m), m, w2)
      \<and> heap w2 = (heap w)(h \<mapsto> ob) \<and> I (net w2) \<and> inbox (net w2) h ms
      \<and> (\<forall>k \<in> P. \<forall>ns. k \<noteq> h \<and> inbox (net w) k ns \<longrightarrow> inbox (net w2) k ns)"
    unfolding delivers_def by (metis option.distinct(1))
  from spec [OF recv, of ob] obtain w2 where
    r: "vt_receive V h (of_nat (length m)) (put_obj h ob w1) = Ret (int (length m), m, w2)"
    "heap w2 = heap w" "I (net w2)" "inbox (net w2) h ms"
    "\<forall>k \<in> P. \<forall>ns. k \<noteq> h \<and> inbox (net w) k ns \<longrightarrow> inbox (net w2) k ns"
    using assms(5) by (auto simp: fun_upd_idem)
  have "net (put_obj h ob w1) = net w1" by (simp add: put_obj_def)
  then have "outbox (net w2) = outbox (net w)"
    using two_wayD(2) [OF assms(2,3) p(1)] two_wayD(3) [OF assms(2,3) r(1)] by simp
  with p r that show ?thesis by blast
qed

lemma open_handleE:
  assumes "open_handle w h"
  obtains ob where "heap w h = Some ob" and "\<not> closed_rd ob" and "\<not> fst (probed ob)"
    and "\<And>x. ob\<lparr>probed := (False, 0)\<rparr> = ob"
proof -
  from assms obtain ob where "heap w h = Some ob" "\<not> closed_rd ob" "probed ob = (False, 0)"
    by (auto simp: open_handle_def)
  moreover from this(3) have "ob\<lparr>probed := (False, 0)\<rparr> = ob" by (cases ob) simp
  ultimately show thesis using that by simp
qed

lemma probe_next:
  assumes "delivers V I inbox P" and "two_way V inbox outbox P" and "h \<in> P" and "I (net w)" and "open_handle w h"
    and "inbox (net w) h (m # ms)" and "m \<noteq> []" and "length m < 2 ^ 31"
  shows "\<exists>w1 w2. probeHandle V h sz True w = Ret (8, of_nat (length m), w1)
    \<and> receiveFromHandle V h (of_nat (length m)) w1 = Ret (int (length m), m, w2) \<and> heap w2 = heap w
    \<and> I (net w2) \<and> inbox (net w2) h ms \<and> outbox (net w2) = outbox (net w)"
proof -
  from open_handleE [OF assms(5)] obtain ob where
    ob: "heap w h = Some ob" "\<not> closed_rd ob" "\<not> fst (probed ob)" "ob\<lparr>probed := (False, 0)\<rparr> = ob" by metis
  from next_calls [OF assms(1-4) ob(1) assms(6-8), of sz] obtain w1 w2 where
    p: "vt_probe V h True sz w = Ret (8, of_nat (length m), w1)" "heap w1 = heap w"
    and r: "vt_receive V h (of_nat (length m)) (put_obj h ob w1) = Ret (int (length m), m, w2)"
    and rest: "heap w2 = heap w" "I (net w2)" "inbox (net w2) h ms" "outbox (net w2) = outbox (net w)" by metis
  have "length m < 2 ^ 64" using assms(8) by simp
  then have nz: "(of_nat (length m) :: u64) \<noteq> 0" using assms(7) of_nat_u64_eq_0 by auto
  let ?w1 = "put_obj h (ob\<lparr>probed := (True, of_nat (length m))\<rparr>) w1"
  have "(ob\<lparr>probed := x\<rparr>)\<lparr>probed := (False, 0)\<rparr> = ob" for x using ob(4) by simp
  then have bk: "put_obj h ((ob\<lparr>probed := x\<rparr>)\<lparr>probed := (False, 0)\<rparr>) ?w1 = put_obj h ob w1" for x
    by (simp add: put_obj_def)
  have "probeHandle V h sz True w = Ret (8, of_nat (length m), ?w1)"
    using p ob nz by (simp add: probeHandle_def obj_Some upd_obj_Some)
  moreover have "receiveFromHandle V h (of_nat (length m)) ?w1 = Ret (int (length m), m, w2)"
    using r bk nz ob(2) unfolding receiveFromHandle_def probeHandle_def
    by (simp add: obj_Some upd_obj_Some Let_def)
  ultimately show ?thesis using rest by blast
qed

lemma receive_next_two_way:
  assumes "delivers V I inbox P" and "two_way V inbox outbox P" and "h \<in> P" and "I (net w)" and "open_handle w h"
    and "inbox (net w) h (m # ms)" and "m \<noteq> []" and "length m < 2 ^ 31" and "of_nat (length m) \<le> room"
  shows "\<exists>w'. receiveFromHandle V h room w = Ret (int (length m), m, w') \<and> heap w' = heap w
    \<and> I (net w') \<and> inbox (net w') h ms \<and> outbox (net w') = outbox (net w)
    \<and> (\<forall>k \<in> P. \<forall>ns. k \<noteq> h \<and> inbox (net w) k ns \<longrightarrow> inbox (net w') k ns)"
proof -
  from open_handleE [OF assms(5)] obtain ob where
    ob: "heap w h = Some ob" "\<not> closed_rd ob" "\<not> fst (probed ob)" "ob\<lparr>probed := (False, 0)\<rparr> = ob" by metis
  from next_calls [OF assms(1-4) ob(1) assms(6-8), of 0] obtain w1 w2 where
    p: "vt_probe V h True 0 w = Ret (8, of_nat (length m), w1)" "heap w1 = heap w"
    and r: "vt_receive V h (of_nat (length m)) (put_obj h ob w1) = Ret (int (length m), m, w2)"
    and rest: "heap w2 = heap w" "I (net w2)" "inbox (net w2) h ms" "outbox (net w2) = outbox (net w)"
      "\<forall>k \<in> P. \<forall>ns. k \<noteq> h \<and> inbox (net w) k ns \<longrightarrow> inbox (net w2) k ns" by metis
  have "length m < 2 ^ 64" using assms(8) by simp
  then have "(of_nat (length m) :: u64) \<noteq> 0" using assms(7) of_nat_u64_eq_0 by auto
  moreover have "\<not> room < of_nat (length m)" using assms(9) by simp
  ultimately have "receiveFromHandle V h room w = Ret (int (length m), m, w2)"
    using p ob r assms(9)
    by (simp add: receiveFromHandle_def probeHandle_def obj_Some upd_obj_Some Let_def min_def)
  with rest show ?thesis by blast
qed

section \<open>The ranks of a team\<close>

abbreviation is_rank :: "int \<Rightarrow> bool" where
  "is_rank i \<equiv> 0 \<le> i \<and> i < 2 ^ 31"

lemma overlay_full [simp]: "n \<le> length bs \<Longrightarrow> overlay junk n bs = bs"
  by (simp add: overlay_def)

lemma ints_bytes_Cons: "ints_bytes (x # xs) = int_bytes x @ ints_bytes xs"
  by (simp add: ints_bytes_def)

lemma ints_bytes_length [simp]: "length (ints_bytes xs) = 4 * length xs"
  by (induction xs) (simp_all add: ints_bytes_def)

lemma bytes_ints_Suc: "bytes_ints (Suc n) bs = bytes_int (take 4 bs) # bytes_ints n (drop 4 bs)"
  by (simp add: bytes_ints_def upt_conv_Cons map_Suc_upt [symmetric] comp_def add.commute del: upt_Suc)

lemma bytes_ints_0 [simp]: "bytes_ints 0 bs = []"
  by (simp add: bytes_ints_def)

lemma bytes_ints_bytes:
  "\<forall>x \<in> set xs. is_rank x \<Longrightarrow> bytes_ints (length xs) (ints_bytes xs) = xs"
  by (induction xs) (simp_all add: bytes_ints_Suc ints_bytes_Cons bytes_int_roundtrip bytes_ints_0)

lemma exchange_ranks_collects:
  assumes "sends_to V I enc outbox P" and "delivers V I inbox P" and "two_way V inbox outbox P"
  shows "set hs \<subseteq> P \<Longrightarrow> distinct hs \<Longrightarrow> I (net w) \<Longrightarrow> \<forall>h \<in> set hs. open_handle w h
    \<Longrightarrow> \<forall>h \<in> set hs. inbox (net w) h (int_bytes (rk h) # rest h) \<and> is_rank (rk h)
    \<Longrightarrow> \<exists>w'. exchange_ranks junk V r hs w = Ret (map rk hs, w') \<and> heap w' = heap w \<and> I (net w')
      \<and> (\<forall>k \<in> P. outbox (net w') k =
           (if k \<in> set hs then outbox (net w) k @ enc (int_bytes r) else outbox (net w) k))"
proof (induction hs arbitrary: w)
  case (Cons h hs)
  have h: "h \<in> P" "open_handle w h" "heap w h \<noteq> None" "length (int_bytes r) < 2 ^ 31"
    using Cons.prems(1,4) by (auto simp: open_handle_def)
  from sends_toD [OF assms(1) h(1) Cons.prems(3) h(3,4)] obtain w1 where
    s1: "vt_send V h (int_bytes r) w = Ret (int (length (int_bytes r)), w1)" "heap w1 = heap w" "I (net w1)"
    and o1: "\<forall>k \<in> P. outbox (net w1) k =
      (if k = h then outbox (net w) k @ enc (int_bytes r) else outbox (net w) k)" .
  have in1: "inbox (net w1) k (int_bytes (rk k) # rest k)" if "k \<in> set (h # hs)" for k
    using two_wayD(1) [OF assms(3) h(1) s1(1)] that Cons.prems(1,5) by blast
  have "open_handle w1 h" "int_bytes (rk h) \<noteq> []" "length (int_bytes (rk h)) < 2 ^ 31"
    "of_nat (length (int_bytes (rk h))) \<le> sizeof_int"
    using h(2) s1(2) int_bytes_length [of "rk h"] by (auto simp: open_handle_def simp del: int_bytes_length)
  from receive_next_two_way [OF assms(2,3) h(1) s1(3) this(1) in1 [of h] this(2-4)] obtain w2 where
    s2: "receiveFromHandle V h sizeof_int w1 = Ret (4, int_bytes (rk h), w2)" "heap w2 = heap w1" "I (net w2)"
      "outbox (net w2) = outbox (net w1)"
    and in2: "\<forall>k \<in> P. \<forall>ns. k \<noteq> h \<and> inbox (net w1) k ns \<longrightarrow> inbox (net w2) k ns" by auto
  have op2: "\<forall>k \<in> set hs. open_handle w2 k" using Cons.prems(4) s1(2) s2(2) by (simp add: open_handle_def)
  have box2: "\<forall>k \<in> set hs. inbox (net w2) k (int_bytes (rk k) # rest k) \<and> is_rank (rk k)"
  proof
    fix k assume k: "k \<in> set hs"
    then have "k \<in> P" "k \<noteq> h" "k \<in> set (h # hs)" using Cons.prems(1,2) by auto
    with in1 [of k] in2 have "inbox (net w2) k (int_bytes (rk k) # rest k)" by blast
    with k Cons.prems(5) show "inbox (net w2) k (int_bytes (rk k) # rest k) \<and> is_rank (rk k)" by simp
  qed
  from Cons.IH [of w2, OF _ _ s2(3) op2 box2] Cons.prems(1,2) obtain w3 where
    s3: "exchange_ranks junk V r hs w2 = Ret (map rk hs, w3)" "heap w3 = heap w2" "I (net w3)"
    and o3: "\<forall>k \<in> P. outbox (net w3) k =
      (if k \<in> set hs then outbox (net w2) k @ enc (int_bytes r) else outbox (net w2) k)" by auto
  have "bytes_int (int_bytes (rk h)) = rk h" using Cons.prems(5) by (intro bytes_int_roundtrip) auto
  moreover have "\<forall>k \<in> P. outbox (net w3) k =
      (if k \<in> set (h # hs) then outbox (net w) k @ enc (int_bytes r) else outbox (net w) k)"
    using o1 o3 s2(4) Cons.prems(2) by auto
  ultimately show ?case using s1 s2 s3 by simp
qed auto

lemma send_each_reaches:
  assumes "sends_to V I enc outbox P" and "length bs < 2 ^ 31"
  shows "set hs \<subseteq> P \<Longrightarrow> distinct hs \<Longrightarrow> I (net w) \<Longrightarrow> \<forall>h \<in> set hs. heap w h \<noteq> None \<Longrightarrow>
    \<exists>w'. send_each V bs hs w = Ret w' \<and> heap w' = heap w \<and> I (net w')
      \<and> (\<forall>k \<in> P. outbox (net w') k =
           (if k \<in> set hs then outbox (net w) k @ enc bs else outbox (net w) k))"
proof (induction hs arbitrary: w)
  case (Cons h hs)
  from sends_toD [OF assms(1) _ Cons.prems(3) _ assms(2), of h] Cons.prems obtain w1 where
    s1: "vt_send V h bs w = Ret (int (length bs), w1)" "heap w1 = heap w" "I (net w1)"
    and o1: "\<forall>k \<in> P. outbox (net w1) k = (if k = h then outbox (net w) k @ enc bs else outbox (net w) k)"
    by auto
  from Cons.IH [of w1] Cons.prems s1 obtain w2 where
    s2: "send_each V bs hs w1 = Ret w2" "heap w2 = heap w1" "I (net w2)"
    and o2: "\<forall>k \<in> P. outbox (net w2) k =
      (if k \<in> set hs then outbox (net w1) k @ enc bs else outbox (net w1) k)" by auto
  have "\<forall>k \<in> P. outbox (net w2) k =
      (if k \<in> set (h # hs) then outbox (net w) k @ enc bs else outbox (net w) k)"
    using o1 o2 Cons.prems(2) by auto
  with s1 s2 show ?case by (auto simp: send_each_def)
qed (auto simp: send_each_def)

lemma ranks_at_root_agrees:
  assumes "sends_to V I enc outbox P" and "delivers V I inbox P" and "two_way V inbox outbox P"
    and "set ps \<subseteq> P" and "distinct ps" and "I (net w)" and "\<forall>h \<in> set ps. open_handle w h"
    and "\<forall>h \<in> set ps. inbox (net w) h (int_bytes (rk h) # rest h) \<and> is_rank (rk h)"
    and "length ps < 2 ^ 28"
  shows "\<exists>w'. ranks_at_root junk V r ps w = Ret (r # map rk ps, w')
    \<and> (\<forall>k \<in> set ps. outbox (net w') k = outbox (net w) k @ enc (int_bytes r) @ enc (ints_bytes (r # map rk ps)))"
proof -
  from exchange_ranks_collects [OF assms(1-8), of junk r] obtain w1 where
    s1: "exchange_ranks junk V r ps w = Ret (map rk ps, w1)" "heap w1 = heap w" "I (net w1)"
    and o1: "\<forall>k \<in> P. outbox (net w1) k =
      (if k \<in> set ps then outbox (net w) k @ enc (int_bytes r) else outbox (net w) k)" by blast
  have ok: "\<forall>h \<in> set ps. heap w1 h \<noteq> None" using assms(7) s1(2) by (auto simp: open_handle_def)
  have "length (ints_bytes (r # map rk ps)) < 2 ^ 31" using assms(9) by simp
  from send_each_reaches [OF assms(1) this assms(4,5) s1(3) ok] obtain w2 where
    s2: "send_each V (ints_bytes (r # map rk ps)) ps w1 = Ret w2"
    and o2: "\<forall>k \<in> P. outbox (net w2) k =
      (if k \<in> set ps then outbox (net w1) k @ enc (ints_bytes (r # map rk ps)) else outbox (net w1) k)" by blast
  have "\<forall>k \<in> set ps. outbox (net w2) k = outbox (net w) k @ enc (int_bytes r) @ enc (ints_bytes (r # map rk ps))"
    using o1 o2 assms(4) by auto
  with s1(1) s2 show ?thesis by (simp add: ranks_at_root_def)
qed

lemma ranks_at_member_agrees:
  assumes "sends_to V I enc outbox P" and "delivers V I inbox P" and "two_way V inbox outbox P"
    and "h \<in> P" and "I (net w)" and "open_handle w h"
    and "inbox (net w) h (int_bytes r0 # ints_bytes rs # rest)" and "is_rank r0" and "\<forall>x \<in> set rs. is_rank x"
    and "rs \<noteq> []" and "length rs \<le> 2 ^ 28"
  shows "\<exists>w'. ranks_at_member junk V r (h # hs) w = Ret (r0, rs, w')
    \<and> outbox (net w') h = outbox (net w) h @ enc (int_bytes r)"
proof -
  have "int_bytes r0 \<noteq> []" "length (int_bytes r0) < 2 ^ 31" "of_nat (length (int_bytes r0)) \<le> sizeof_int"
    using int_bytes_length [of r0] by (auto simp del: int_bytes_length)
  from receive_next_two_way [OF assms(2-7) this] obtain w1 where
    s1: "receiveFromHandle V h sizeof_int w = Ret (4, int_bytes r0, w1)" "heap w1 = heap w" "I (net w1)"
      "inbox (net w1) h (ints_bytes rs # rest)" "outbox (net w1) = outbox (net w)" by auto
  have op1: "open_handle w1 h" "heap w1 h \<noteq> None" "length (int_bytes r) < 2 ^ 31"
    using assms(6) s1(2) by (auto simp: open_handle_def)
  from sends_toD [OF assms(1,4) s1(3) op1(2,3)] obtain w2 where
    s2: "vt_send V h (int_bytes r) w1 = Ret (int (length (int_bytes r)), w2)" "heap w2 = heap w1" "I (net w2)"
    and o2: "\<forall>k \<in> P. outbox (net w2) k =
      (if k = h then outbox (net w1) k @ enc (int_bytes r) else outbox (net w1) k)" .
  let ?m = "ints_bytes rs"
  have op2: "open_handle w2 h" using op1(1) s2(2) by (simp add: open_handle_def)
  have in2: "inbox (net w2) h (?m # rest)" by (rule two_wayD(1) [OF assms(3,4) s2(1) assms(4) s1(4)])
  have m: "?m \<noteq> []" "length ?m < 2 ^ 31"
    using assms(10,11) by (simp_all flip: length_greater_0_conv)
  from probe_next [OF assms(2-4) s2(3) op2 in2 m, of "of_le_bytes (overlay junk 8 [])"] obtain w3 w4 where
    s3: "probeHandle V h (of_le_bytes (overlay junk 8 [])) True w2 = Ret (8, of_nat (length ?m), w3)"
    "receiveFromHandle V h (of_nat (length ?m)) w3 = Ret (int (length ?m), ?m, w4)"
    "outbox (net w4) = outbox (net w2)" by blast
  have "(of_nat (4 * length rs) :: u64) div sizeof_int = of_nat (length rs)"
    using assms(11) by (simp add: word_unat_eq_iff unat_div_distrib unat_of_nat_u64 del: of_nat_mult)
  then have n: "nat (int_count (of_nat (length ?m) div sizeof_int)) = length rs"
    using assms(11) int_count_of_nat [of "length rs"] by simp
  have "bytes_int (int_bytes r0) = r0" using assms(8) by (intro bytes_int_roundtrip) auto
  moreover have "bytes_ints (length rs) (overlay junk (4 * length rs) ?m) = rs"
    using bytes_ints_bytes [OF assms(9)] by simp
  moreover have "outbox (net w4) h = outbox (net w) h @ enc (int_bytes r)" using s3(3) o2 assms(4) s1(5) by simp
  ultimately show ?thesis
    using s1(1) s2(1) s3(1,2) n by (simp add: ranks_at_member_def vec_at_def Let_def)
qed

lemma new_collective_member:
  assumes "ranks_at_member junk V (mpi_comm_rank A (mpi_os (net v))) ps v = Ret (r0, rs, v1)"
  shows "\<exists>c s. new_MPICollective junk A V ps False uniqtag v = Ret (c, set_mpi None s v1)
    \<and> root_rank c = r0 \<and> mc_ranks c = rs \<and> \<not> mc_root c"
  using assms by (auto simp: new_MPICollective_def Let_def case_prod_unfold)

lemma new_collective_root:
  assumes "ranks_at_root junk V (mpi_comm_rank A (mpi_os (net w))) ps w = Ret (rs, w1)"
  shows "\<exists>c s. new_MPICollective junk A V ps True uniqtag w = Ret (c, set_mpi None s w1)
    \<and> root_rank c = mpi_comm_rank A (mpi_os (net w)) \<and> mc_ranks c = rs \<and> mc_root c"
  using assms by (auto simp: new_MPICollective_def Let_def case_prod_unfold)

text \<open>Making a communicator leaves the messages between the members alone.\<close>

definition quiet_create :: "('o, 'a) mpic_lib_scheme \<Rightarrow> (('o, 'm) mpi_state_scheme \<Rightarrow> hid \<Rightarrow> 'e list) \<Rightarrow> bool" where
  "quiet_create A outbox \<longleftrightarrow>
     (\<forall>rs tag t. outbox (t\<lparr>mpi_os := snd (mpi_comm_create A rs tag (mpi_os t))\<rparr>) = outbox t)"

lemma new_collective_quiet:
  assumes "quiet_create A outbox"
    and "(if root then bnd (ranks_at_root junk V r ps w) (\<lambda>(rs, w). Ret (r, rs, w)) else ranks_at_member junk V r ps w)
      = Ret (rr, rs, w1)" and "r = mpi_comm_rank A (mpi_os (net w))"
  shows "\<exists>c w2. new_MPICollective junk A V ps root uniqtag w = Ret (c, w2)
    \<and> root_rank c = rr \<and> mc_ranks c = rs \<and> outbox (net w2) = outbox (net w1)"
proof -
  obtain c s where cs: "mpi_comm_create A rs uniqtag (mpi_os (net w1)) = (c, s)" by fastforce
  have "s = snd (mpi_comm_create A rs uniqtag (mpi_os (net w1)))" by (simp add: cs)
  then have "outbox (net (set_mpi None s w1)) = outbox (net w1)" using assms(1) by (simp add: quiet_create_def)
  moreover have "new_MPICollective junk A V ps root uniqtag w = Ret (\<lparr>mc_participants = ps, mc_root = root,
      root_rank = rr, local_rank = r, mc_ranks = rs, mc_comm = c, mc_closing = False\<rparr>, set_mpi None s w1)"
    unfolding new_MPICollective_def Let_def assms(3) [symmetric] assms(2) by (simp add: cs)
  ultimately show ?thesis by simp
qed

text \<open>The handles over MPI are two_way when sending leaves the incoming messages alone and receiving the outgoing ones.\<close>

lemma mpi_two_way:
  assumes "\<And>c r t n bs s q. inq q (snd (mpi_send A c r t n bs s)) = inq q s"
    and "\<And>c r t n s e bs s' q. mpi_recv A c r t n s = Ret (e, bs, s') \<Longrightarrow> outq q s' = outq q s"
  shows "two_way (mpi_vtable A :: ('o, 'm, 'x) mpi_world vtable) (mpi_inbox inq) (\<lambda>t h. outq (mpi_chan t h) (mpi_os t)) P"
proof -
  have send: "inq q (snd (snd (chn_send A c r t bs s))) = inq q s" for q c r t bs s
    using assms(1) by (simp add: chn_send_def case_prod_unfold Let_def)
  have hdr: "outq q s' = outq q s" if "chn_header A c r t sz s = Ret (x, sz', e, s')" for q c r t sz s x sz' e s'
    using that by (auto simp: chn_header_def bnd_Ret_conv split: if_splits dest: assms(2))
  have recv: "outq q s' = outq q s" if "chn_receive A c r t n s = Ret (x, bs, e, s')" for q c r t n s x bs e s'
    using that by (auto simp: chn_receive_def bnd_Ret_conv split: if_splits dest: assms(2))
  show ?thesis
    unfolding two_way_def mpi_vtable_def vtable.simps
  proof (intro conjI ballI allI impI)
    fix h bs r k ms and w w' :: "('o, 'm, 'x) mpi_world"
    assume "hmpi_send A h bs w = Ret (r, w')" and "mpi_inbox inq (net w) k ms"
    then show "mpi_inbox inq (net w') k ms"
      by (auto simp: hmpi_send_def bnd_Ret_conv mpi_inbox_def case_prod_unfold Let_def send)
  next
    fix h sz r sz' and w w' :: "('o, 'm, 'x) mpi_world"
    assume "hmpi_probe A h True sz w = Ret (r, sz', w')"
    then obtain e s where "chn_header A MPI_COMM_WORLD (mpi_rank_of (net w) h) (mpi_tag_of (net w) h) sz (mpi_os (net w)) =
        Ret (r, sz', e, s)" "w' = set_mpi e s w"
      by (auto simp: hmpi_probe_def chn_probe_def bnd_Ret_conv)
    with hdr [OF this(1)]
    show "(\<lambda>h. outq (mpi_chan (net w') h) (mpi_os (net w'))) = (\<lambda>h. outq (mpi_chan (net w) h) (mpi_os (net w)))"
      by simp
  next
    fix h n r bs and w w' :: "('o, 'm, 'x) mpi_world"
    assume "hmpi_receive A h n w = Ret (r, bs, w')"
    then obtain e s where "chn_receive A MPI_COMM_WORLD (mpi_rank_of (net w) h) (mpi_tag_of (net w) h) n (mpi_os (net w)) =
        Ret (r, bs, e, s)" "w' = set_mpi e s w"
      by (auto simp: hmpi_receive_def bnd_Ret_conv)
    with recv [OF this(1)]
    show "(\<lambda>h. outq (mpi_chan (net w') h) (mpi_os (net w'))) = (\<lambda>h. outq (mpi_chan (net w) h) (mpi_os (net w)))"
      by simp
  qed
qed

text \<open>
  A library with a rank, and a queue for every channel and direction. A broadcast gives every member what the
  member with the number of the root passed: in the team of ranks 2, 0 and 1 they are \<open>[7]\<close>, \<open>[8]\<close>, \<open>[9]\<close>.
\<close>

definition sample_mpic :: "(int \<times> mpi_qs) mpic_lib" where
  "sample_mpic = \<lparr>mpi_thread_multiple = 3, mpi_init_thread = (\<lambda>s. ((0, 3), s)), mpi_comm_rank = fst,
     mpi_send = (\<lambda>c r t n bs (i, q). (0, (i, (fst q, (snd q)((c, r, t) := snd q (c, r, t) @ [take (nat n) bs]))))),
     mpi_recv = (\<lambda>c r t n (i, q). case fst q (c, r, t) of
        [] \<Rightarrow> Fault No_return
      | m # ms \<Rightarrow> if int (length m) \<le> n then Ret (0, m, (i, ((fst q)((c, r, t) := ms), snd q))) else Ret (15, [], (i, q))),
     mpi_iprobe = (\<lambda>c r t s. ((0, fst (snd s) (c, r, t) \<noteq> []), s)),
     mpi_iprobe_any = (\<lambda>c t s. ((0, None), s)), mpi_finalize = (\<lambda>s. s),
     mpi_comm_create = (\<lambda>rs tag s. (1, s)),
     mpi_bcast = (\<lambda>c root n buf s. if 0 \<le> root \<and> root < 3 then Ret (0, [[7], [8], [9]] ! nat root, s) else Fault Aborted),
     mpi_gather = (\<lambda>c root sbuf n rbuf s. Ret (0, rbuf, s)), mpi_comm_free = (\<lambda>c s. s)\<rparr>"

lemma sample_mpic_sends: "mpi_sends sample_mpic (\<lambda>q s. snd (snd s) q)"
  by (simp add: mpi_sends_def sample_mpic_def)

lemma sample_mpic_fifo: "mpi_fifo sample_mpic (\<lambda>q s. fst (snd s) q)"
  by (auto simp: mpi_fifo_def sample_mpic_def)

lemma sample_mpic_two_way:
  "two_way (mpi_vtable sample_mpic :: (int \<times> mpi_qs, unit, unit) mpi_world vtable)
     (mpi_inbox (\<lambda>q s. fst (snd s) q)) (\<lambda>t h. snd (snd (mpi_os t)) (mpi_chan t h)) P"
  by (rule mpi_two_way [where outq = "\<lambda>q s. snd (snd s) q"])
    (auto simp: sample_mpic_def split: list.splits if_splits prod.splits)

definition mpic_world :: "int \<Rightarrow> (int \<Rightarrow> byte list list) \<Rightarrow> (int \<times> mpi_qs, unit, unit) mpi_world" where
  "mpic_world i q = \<lparr>heap = (\<lambda>h. if h < 10 then Some (new_handle ''MPI'') else None), errno = OK_errno, next_hid = 10,
     net = \<lparr>mpi_rank_of = int, mpi_tag_of = (\<lambda>_. 5), mpi_conns = [], mpi_rank = i,
       mpi_os = (i, ((\<lambda>(c, r, t). if c = MPI_COMM_WORLD then q r else []), (\<lambda>q. [])))\<rparr>\<rparr>"

lemma mpic_world_ok:
  "own_channels P (net (mpic_world i q))" "h < 10 \<Longrightarrow> open_handle (mpic_world i q) h"
  "q (int h) = concat (map mpi_frame ms) \<Longrightarrow> mpi_inbox (\<lambda>q s. fst (snd s) q) (net (mpic_world i q)) h ms"
  by (auto simp: mpic_world_def own_channels_def inj_on_def mpi_chan_def open_handle_def new_handle_def mpi_inbox_def)

text \<open>The members of a team make the same MPI group. When every member has sent its rank, the root makes the
  group of its own rank and theirs, in the order of the handles, and sends everyone its rank and that array;
  a member that has received these makes the same group with the same root.\<close>

theorem mpi_ranks_agree:
  assumes "sends_to V I enc outbox P" and "delivers V I inbox P" and "two_way V inbox outbox P"
    and "set ps \<subseteq> P" and "distinct ps" and "I (net w)" and "\<forall>h \<in> set ps. open_handle w h"
    and "\<forall>h \<in> set ps. inbox (net w) h (int_bytes (rk h) # rest h) \<and> is_rank (rk h)"
    and "length ps < 2 ^ 28" and "mpi_comm_rank A (mpi_os (net w)) = r0" and "is_rank r0"
    and "h \<in> P" and "I (net v)" and "open_handle v h"
    and "inbox (net v) h (int_bytes r0 # ints_bytes (r0 # map rk ps) # later)"
  shows "(\<exists>c w1 s. new_MPICollective junk A V ps True uniqtag w = Ret (c, set_mpi None s w1)
      \<and> root_rank c = r0 \<and> mc_ranks c = r0 # map rk ps
      \<and> (\<forall>k \<in> set ps. outbox (net w1) k =
           outbox (net w) k @ enc (int_bytes r0) @ enc (ints_bytes (r0 # map rk ps))))
    \<and> (\<exists>c v'. new_MPICollective junk A V [h] False uniqtag v = Ret (c, v')
      \<and> root_rank c = r0 \<and> mc_ranks c = r0 # map rk ps)"
proof
  from ranks_at_root_agrees [OF assms(1-9), of junk r0] obtain w1 where
    w1: "ranks_at_root junk V r0 ps w = Ret (r0 # map rk ps, w1)"
    "\<forall>k \<in> set ps. outbox (net w1) k = outbox (net w) k @ enc (int_bytes r0) @ enc (ints_bytes (r0 # map rk ps))"
    by blast
  with new_collective_root [of junk V A w ps "r0 # map rk ps" w1 uniqtag] assms(10)
  show "\<exists>c w1 s. new_MPICollective junk A V ps True uniqtag w = Ret (c, set_mpi None s w1)
      \<and> root_rank c = r0 \<and> mc_ranks c = r0 # map rk ps
      \<and> (\<forall>k \<in> set ps. outbox (net w1) k =
           outbox (net w) k @ enc (int_bytes r0) @ enc (ints_bytes (r0 # map rk ps)))"
    by blast
  have rs: "\<forall>x \<in> set (r0 # map rk ps). is_rank x" "r0 # map rk ps \<noteq> []" "length (r0 # map rk ps) \<le> 2 ^ 28"
    using assms(8,9,11) by auto
  from ranks_at_member_agrees [OF assms(1-3,12-15,11) rs, of junk "mpi_comm_rank A (mpi_os (net v))" "[]"]
  obtain v1 where "ranks_at_member junk V (mpi_comm_rank A (mpi_os (net v))) [h] v = Ret (r0, r0 # map rk ps, v1)"
    by blast
  from new_collective_member [OF this, of uniqtag]
  show "\<exists>c v'. new_MPICollective junk A V [h] False uniqtag v = Ret (c, v')
      \<and> root_rank c = r0 \<and> mc_ranks c = r0 # map rk ps" by blast
qed

theorem mpi_ranks_agree_witness:
  "(\<exists>c w1. new_MPICollective (\<lambda>_. 0) sample_mpic (mpi_vtable sample_mpic) [0, 1] True 9
        (mpic_world 2 (\<lambda>r. if r < 2 then mpi_frame (int_bytes r) else [])) = Ret (c, w1)
      \<and> root_rank c = 2 \<and> mc_ranks c = [2, 0, 1])
    \<and> (\<exists>c v'. new_MPICollective (\<lambda>_. 0) sample_mpic (mpi_vtable sample_mpic) [2] False 9
        (mpic_world 1 (\<lambda>r. if r = 2 then mpi_frame (int_bytes 2) @ mpi_frame (ints_bytes [2, 0, 1]) else [])) = Ret (c, v')
      \<and> root_rank c = 2 \<and> mc_ranks c = [2, 0, 1])"
proof -
  let ?P = "{0, 1, 2} :: hid set"
  let ?w = "mpic_world 2 (\<lambda>r. if r < 2 then mpi_frame (int_bytes r) else [])"
  let ?v = "mpic_world 1 (\<lambda>r. if r = 2 then mpi_frame (int_bytes 2) @ mpi_frame (ints_bytes [2, 0, 1]) else [])"
  have 1: "\<forall>h \<in> set [0, 1]. open_handle ?w h" by (simp add: mpic_world_ok(2))
  have 2: "\<forall>h \<in> set [0, 1]. mpi_inbox (\<lambda>q s. fst (snd s) q) (net ?w) h (int_bytes (int h) # []) \<and> is_rank (int h)"
    by (auto intro!: mpic_world_ok(3))
  have 3: "mpi_comm_rank sample_mpic (mpi_os (net ?w)) = 2" by (simp add: mpic_world_def sample_mpic_def)
  have 4: "open_handle ?v 2" by (simp add: mpic_world_ok(2))
  have 5: "mpi_inbox (\<lambda>q s. fst (snd s) q) (net ?v) 2 (int_bytes 2 # ints_bytes (2 # map int [0, 1]) # [])"
    by (rule mpic_world_ok(3)) simp
  have 6: "set [0, 1] \<subseteq> ?P" "distinct [0, 1 :: hid]" "length [0, 1 :: hid] < 2 ^ 28" "is_rank 2" "(2 :: hid) \<in> ?P"
    by simp_all
  from mpi_ranks_agree [OF mpi_sends_to [OF sample_mpic_sends] mpi_delivers [OF sample_mpic_fifo]
      sample_mpic_two_way 6(1,2) mpic_world_ok(1) 1 2 6(3) 3 6(4,5) mpic_world_ok(1) 4 5, of "\<lambda>_. 0" 9]
  show ?thesis by auto
qed

section \<open>The root of a broadcast\<close>

text \<open>
  \<open>bcast_of\<close>: what the MPI standard says of \<open>MPI_Bcast\<close> in a communicator of \<open>n\<close> members, \<open>bufs ! i\<close> being
  the buffer of the member of rank \<open>i\<close> there: everyone ends with the buffer of the root, which must be a rank of
  the communicator. A wrong root is an error, and the handler of the communicator, which is the default
  \<open>MPI_ERRORS_ARE_FATAL\<close> as the code sets no other, ends the program.
\<close>

definition bcast_of :: "('o, 'a) mpic_lib_scheme \<Rightarrow> byte list list \<Rightarrow> bool" where
  "bcast_of A bufs \<longleftrightarrow>
     (\<forall>c root n buf s. if 0 \<le> root \<and> root < int (length bufs) then \<exists>s'. mpi_bcast A c root n buf s = Ret (0, bufs ! nat root, s')
        else mpi_bcast A c root n buf s = Fault Aborted)"

text \<open>C38: \<open>BroadcastMPI\<close> passes the rank of the root in \<open>MPI_COMM_WORLD\<close> as the root of the team's communicator,
  whose ranks are positions in the group, the root of the team being rank 0: a member receives the buffer of
  the member at that position instead of the message of the root, and when the team is not that large the
  program is ended by the default error handler of MPI, so that \<open>receive\<close> does not return and the code's own
  \<open>ECOMM\<close> is never seen.\<close>

theorem bcast_root_is_world_rank:
  assumes "sends_to V I enc outbox P" and "delivers V I inbox P" and "two_way V inbox outbox P"
    and "h \<in> P" and "I (net v)" and "open_handle v h"
    and "inbox (net v) h (int_bytes r0 # ints_bytes rs # later)" and "is_rank r0" and "\<forall>x \<in> set rs. is_rank x"
    and "rs \<noteq> []" and "length rs \<le> 2 ^ 28"
    and "bcast_of A bufs" and "length bufs = length rs" and "length m < 2 ^ 31"
  shows "\<exists>c v1. new_MPICollective junk A V [h] False uniqtag v = Ret (c, v1) \<and> mc_ranks c = rs
    \<and> (if r0 < int (length rs)
       then \<exists>v2. bmpi_sendrecv A c sb m (of_nat (length m)) v1 = Ret (int (length m), sb, bufs ! nat r0, v2)
       else bmpi_sendrecv A c sb m (of_nat (length m)) v1 = Fault Aborted)"
proof -
  from ranks_at_member_agrees [OF assms(1-11), of junk "mpi_comm_rank A (mpi_os (net v))" "[]"]
  obtain v0 where "ranks_at_member junk V (mpi_comm_rank A (mpi_os (net v))) [h] v = Ret (r0, rs, v0)"
    by blast
  from new_collective_member [OF this, of uniqtag] obtain c s where
    c: "new_MPICollective junk A V [h] False uniqtag v = Ret (c, set_mpi None s v0)" "root_rank c = r0" "\<not> mc_root c"
    "mc_ranks c = rs" by blast
  have n: "ssize_of (of_nat (length m)) = int (length m)" using assms(14) by (intro ssize_of_nat) simp
  have b: "if r0 < int (length rs)
    then \<exists>s'. mpi_bcast A (mc_comm c) r0 (int_count (of_nat (length m))) m s = Ret (0, bufs ! nat r0, s')
    else mpi_bcast A (mc_comm c) r0 (int_count (of_nat (length m))) m s = Fault Aborted"
    using assms(8,12,13) unfolding bcast_of_def by (auto split: if_splits)
  from b c n show ?thesis
    by (intro exI [of _ c] exI [of _ "set_mpi None s v0"])
      (auto simp: bmpi_sendrecv_def bmpi_receive_def bcast_call_def split: if_splits)
qed

text \<open>The root has rank 2 and passed \<open>[7]\<close>; the member gets \<open>[9]\<close>.\<close>

theorem bcast_root_is_world_rank_witness:
  "\<exists>c v1 v2. new_MPICollective (\<lambda>_. 0) sample_mpic (mpi_vtable sample_mpic) [2] False 9
      (mpic_world 1 (\<lambda>r. if r = 2 then mpi_frame (int_bytes 2) @ mpi_frame (ints_bytes [2, 0, 1]) else [])) = Ret (c, v1)
    \<and> bmpi_sendrecv sample_mpic c [] [0] 1 v1 = Ret (1, [], [9], v2)"
proof -
  let ?v = "mpic_world 1 (\<lambda>r. if r = 2 then mpi_frame (int_bytes 2) @ mpi_frame (ints_bytes [2, 0, 1]) else [])"
  have 1: "open_handle ?v 2" by (simp add: mpic_world_ok(2))
  have 2: "mpi_inbox (\<lambda>q s. fst (snd s) q) (net ?v) 2 (int_bytes 2 # ints_bytes [2, 0, 1] # [])"
    by (rule mpic_world_ok(3)) simp
  have 3: "is_rank 2" "\<forall>x \<in> set [2, 0, 1]. is_rank x" "[2, 0, 1 :: int] \<noteq> []" "length [2, 0, 1 :: int] \<le> 2 ^ 28"
    "length [[7], [8], [9 :: byte]] = length [2, 0, 1 :: int]" "length [0 :: byte] < 2 ^ 31" "(2 :: hid) \<in> {2}"
    by simp_all
  have 4: "bcast_of sample_mpic [[7], [8], [9]]"
    by (simp add: bcast_of_def sample_mpic_def)
  from bcast_root_is_world_rank [OF mpi_sends_to [OF sample_mpic_sends] mpi_delivers [OF sample_mpic_fifo]
      sample_mpic_two_way 3(7) mpic_world_ok(1) 1 2 3(1-4) 4 3(5,6), of "\<lambda>_. 0" 9 "[]"]
  show ?thesis by auto
qed

end
