(* ===== verification/CollUccProps.thy ===== *)
theory CollUccProps
  imports CollUcc CollMpiProps
begin

text \<open>
  The exchange of addresses that UCC asks of \<open>UCCCollective\<close>: the root collects the blocks of all members at
  their ranks, and everyone ends with the buffer of the root.
\<close>

lemma allgather_rounds_collect:
  assumes "sends_to V I enc outbox P" and "delivers V I inbox P" and "two_way V inbox outbox P"
    and "unat msglen = sz" and "0 < sz" and "sz < 2 ^ 31"
  shows "set hs \<subseteq> P \<Longrightarrow> distinct hs \<Longrightarrow> I (net w) \<Longrightarrow> \<forall>h \<in> set hs. open_handle w h \<Longrightarrow>
    \<forall>h \<in> set hs. inbox (net w) h (int_bytes (int (rk h)) # blk h # rest h)
      \<and> length (blk h) = sz \<and> (rk h + 1) * sz \<le> length buf \<and> rk h < 2 ^ 31 \<Longrightarrow>
    inj_on rk (set hs) \<Longrightarrow>
    \<exists>buf' w'. allgather_rounds junk V r msglen (length hs) hs buf w = Ret (buf', w') \<and> heap w' = heap w
      \<and> I (net w') \<and> gathered sz hs rk blk buf buf'
      \<and> (\<forall>k \<in> P. outbox (net w') k =
           (if k \<in> set hs then outbox (net w) k @ enc (int_bytes r) else outbox (net w) k))"
proof (induction hs arbitrary: w buf)
  case Nil
  then show ?case by (simp add: gathered_def)
next
  case (Cons h hs)
  have h: "h \<in> P" "open_handle w h" "heap w h \<noteq> None" "length (int_bytes r) < 2 ^ 31"
    "length (blk h) = sz" "(rk h + 1) * sz \<le> length buf" "rk h < 2 ^ 31"
    using Cons.prems by (auto simp: open_handle_def)
  from sends_toD [OF assms(1) h(1) Cons.prems(3) h(3,4)] obtain w0 where
    s0: "vt_send V h (int_bytes r) w = Ret (int (length (int_bytes r)), w0)" "heap w0 = heap w" "I (net w0)"
    and o0: "\<forall>k \<in> P. outbox (net w0) k =
      (if k = h then outbox (net w) k @ enc (int_bytes r) else outbox (net w) k)" .
  have in0: "inbox (net w0) k (int_bytes (int (rk k)) # blk k # rest k)" if "k \<in> set (h # hs)" for k
    using two_wayD(1) [OF assms(3) h(1) s0(1)] that Cons.prems(1,5) by blast
  have r0: "open_handle w0 h" "int_bytes (int (rk h)) \<noteq> []" "length (int_bytes (int (rk h))) < 2 ^ 31"
    "of_nat (length (int_bytes (int (rk h)))) \<le> sizeof_int"
    using h(2) s0(2) int_bytes_length [of "int (rk h)"] by (auto simp: open_handle_def simp del: int_bytes_length)
  from receive_next_two_way [OF assms(2,3) h(1) s0(3) r0(1) in0 [of h] r0(2-4)] obtain w1 where
    s1: "receiveFromHandle V h sizeof_int w0 = Ret (4, int_bytes (int (rk h)), w1)" "heap w1 = heap w0"
      "I (net w1)" "inbox (net w1) h (blk h # rest h)" "outbox (net w1) = outbox (net w0)"
    and k1: "\<forall>k \<in> P. \<forall>ns. k \<noteq> h \<and> inbox (net w0) k ns \<longrightarrow> inbox (net w1) k ns" by auto
  have b1: "open_handle w1 h" "blk h \<noteq> []" "length (blk h) < 2 ^ 31" "of_nat (length (blk h)) \<le> msglen"
    using r0(1) s1(2) h(5) assms(4-6) by (auto simp: open_handle_def word_le_nat_alt unat_of_nat_u64)
  from receive_next_two_way [OF assms(2,3) h(1) s1(3) b1(1) s1(4) b1(2-4)] obtain w2 where
    s2: "receiveFromHandle V h msglen w1 = Ret (int (length (blk h)), blk h, w2)" "heap w2 = heap w1"
      "I (net w2)" "outbox (net w2) = outbox (net w1)"
    and k2: "\<forall>k \<in> P. \<forall>ns. k \<noteq> h \<and> inbox (net w1) k ns \<longrightarrow> inbox (net w2) k ns" by blast
  have "rk h * sz < 2 ^ 31 * 2 ^ 31" using h(7) assms(6) by (intro mult_strict_mono) auto
  then have off: "unat (word_of_int (int (rk h)) * msglen) = rk h * sz"
    using assms(4) h(7) by (simp add: unat_mult_lem [THEN iffD1] unat_word_ariths unat_of_nat_u64 unsigned_of_int
        take_bit_int_eq_self)
  let ?b = "take (rk h * sz) buf @ blk h @ drop (rk h * sz + length (blk h)) buf"
  have fits: "rk h * sz + length (blk h) \<le> length buf" using h(5,6) by (auto simp: algebra_simps)
  then have lenb: "length ?b = length buf" by simp
  have open2: "\<forall>k \<in> set hs. open_handle w2 k"
    using Cons.prems(4) s0(2) s1(2) s2(2) by (simp add: open_handle_def)
  have box2: "\<forall>k \<in> set hs. inbox (net w2) k (int_bytes (int (rk k)) # blk k # rest k)
      \<and> length (blk k) = sz \<and> (rk k + 1) * sz \<le> length ?b \<and> rk k < 2 ^ 31"
  proof
    fix k assume k: "k \<in> set hs"
    then have "k \<in> P" "k \<noteq> h" "k \<in> set (h # hs)" using Cons.prems(1,2) by auto
    with in0 [of k] k1 k2 have "inbox (net w2) k (int_bytes (int (rk k)) # blk k # rest k)" by blast
    with k Cons.prems(5) show "inbox (net w2) k (int_bytes (int (rk k)) # blk k # rest k)
      \<and> length (blk k) = sz \<and> (rk k + 1) * sz \<le> length ?b \<and> rk k < 2 ^ 31" unfolding lenb by simp
  qed
  from Cons.IH [OF _ _ s2(3) open2 box2] Cons.prems obtain buf' w3 where
    s3: "allgather_rounds junk V r msglen (length hs) hs ?b w2 = Ret (buf', w3)" "heap w3 = heap w2" "I (net w3)"
    and g: "gathered sz hs rk blk ?b buf'"
    and o3: "\<forall>k \<in> P. outbox (net w3) k =
      (if k \<in> set hs then outbox (net w2) k @ enc (int_bytes r) else outbox (net w2) k)" by auto
  have "gathered sz (h # hs) rk blk buf buf'"
    using Cons.prems by (intro gathered_step [OF g]) auto
  moreover have "bytes_int (int_bytes (int (rk h))) = int (rk h)"
    using h(7) by (intro bytes_int_roundtrip) auto
  moreover have "\<forall>k \<in> P. outbox (net w3) k =
      (if k \<in> set (h # hs) then outbox (net w) k @ enc (int_bytes r) else outbox (net w) k)"
    using o0 o3 s1(5) s2(4) Cons.prems(2) by auto
  ultimately show ?case
    using s0 s1 s2 s3 off fits by (simp add: write_at_ok Let_def)
qed

text \<open>The own block is written last, and does not disturb the others.\<close>

lemma block_of_written:
  assumes "rank * sz + length bs \<le> length buf" and "length bs = sz" and "a \<noteq> rank" and "a * sz + sz \<le> length buf"
  shows "take sz (drop (a * sz) (take (rank * sz) buf @ bs @ drop (rank * sz + length bs) buf)) =
    take sz (drop (a * sz) buf)"
proof -
  let ?b = "take (rank * sz) buf @ bs @ drop (rank * sz + length bs) buf"
  have len: "length ?b = length buf" using assms(1) by simp
  have same: "?b ! (a * sz + i) = buf ! (a * sz + i)" if i: "i < sz" for i
  proof -
    have "\<not> (rank * sz \<le> a * sz + i \<and> a * sz + i < rank * sz + length bs)"
    proof
      assume "rank * sz \<le> a * sz + i \<and> a * sz + i < rank * sz + length bs"
      then obtain l where "a * sz + i = rank * sz + l" "l < sz"
        using assms(2) by (metis add_less_cancel_left le_Suc_ex)
      with block_apart [OF assms(3) i] show False by blast
    qed
    with written_nth [OF assms(1), of "a * sz + i"] i assms(4) show ?thesis by simp
  qed
  have "length (take sz (drop (a * sz) buf)) = sz" using assms(4) by simp
  with take_drop_eqI [of "a * sz" "take sz (drop (a * sz) buf)" ?b] assms(4) len same
  show ?thesis by (simp only: nth_take nth_drop length_take length_drop)
qed

lemma allgather_root_run:
  assumes "write_at (r * sz) sbuf b1 = Ret b"
    and "allgather_rounds junk V (int r) (of_nat sz) (length ps) ps rbuf w = Ret (b1, w1)"
    and "send_each V b ps w1 = Ret w2"
    and "unat (word_of_int (int r) * of_nat (length sbuf) :: u64) = r * sz"
    and "unat (of_nat (length sbuf) * word_of_int (int (length ps + 1)) :: u64) = length b"
    and "length sbuf = sz"
  shows "allgather_root junk V ps (int r) (int (length ps + 1)) sbuf rbuf w = Ret (b, w2)"
  using assms by (simp add: allgather_root_def Let_def)

lemma allgather_root_gathers:
  assumes "sends_to V I enc outbox P" and "delivers V I inbox P" and "two_way V inbox outbox P"
    and "set ps \<subseteq> P" and "distinct ps" and "I (net w)" and "\<forall>h \<in> set ps. open_handle w h"
    and "\<forall>h \<in> set ps. inbox (net w) h (int_bytes (int (rk h)) # blk h # rest h)
      \<and> length (blk h) = sz \<and> rk h \<le> length ps \<and> rk h \<noteq> r"
    and "inj_on rk (set ps)" and "r \<le> length ps" and "length sbuf = sz" and "0 < sz"
    and "length rbuf = (length ps + 1) * sz" and "(length ps + 1) * sz < 2 ^ 31"
  shows "\<exists>buf' w'. allgather_root junk V ps (int r) (int (length ps + 1)) sbuf rbuf w = Ret (buf', w')
    \<and> length buf' = length rbuf \<and> take sz (drop (r * sz) buf') = sbuf
    \<and> (\<forall>h \<in> set ps. take sz (drop (rk h * sz) buf') = blk h)
    \<and> (\<forall>k \<in> set ps. outbox (net w') k = outbox (net w) k @ enc (int_bytes (int r)) @ enc buf')"
proof -
  have "sz \<le> (length ps + 1) * sz" by simp
  then have sz31: "sz < 2 ^ 31" by (rule le_less_trans [OF _ assms(14)])
  have "length ps + 1 \<le> (length ps + 1) * sz" using mult_le_mono2 [of 1 sz "length ps + 1"] assms(12) by simp
  then have n31: "length ps + 1 < 2 ^ 31" by (rule le_less_trans [OF _ assms(14)])
  have msglen: "unat (of_nat sz :: u64) = sz" using sz31 by (simp add: unat_of_nat_u64)
  have blocks: "a * sz + sz \<le> length rbuf" if "a \<le> length ps" for a
    using mult_le_mono1 [of "a + 1" "length ps + 1" sz] that unfolding assms(13) by (simp add: algebra_simps)
  have box: "\<forall>h \<in> set ps. inbox (net w) h (int_bytes (int (rk h)) # blk h # rest h)
      \<and> length (blk h) = sz \<and> (rk h + 1) * sz \<le> length rbuf \<and> rk h < 2 ^ 31"
    using assms(8) blocks n31 by (auto simp: algebra_simps)
  from allgather_rounds_collect [OF assms(1-3) msglen assms(12) sz31 assms(4-7) box assms(9), of junk "int r"]
  obtain b1 w1 where
    s1: "allgather_rounds junk V (int r) (of_nat sz) (length ps) ps rbuf w = Ret (b1, w1)" "heap w1 = heap w" "I (net w1)"
    and g: "gathered sz ps rk blk rbuf b1"
    and o1: "\<forall>k \<in> P. outbox (net w1) k =
      (if k \<in> set ps then outbox (net w) k @ enc (int_bytes (int r)) else outbox (net w) k)" by blast
  have len1: "length b1 = length rbuf" using g by (simp add: gathered_def)
  have fits: "r * sz + length sbuf \<le> length b1" using blocks [OF assms(10)] assms(11) len1 by simp
  let ?b = "take (r * sz) b1 @ sbuf @ drop (r * sz + length sbuf) b1"
  have lenb: "length ?b = length rbuf" using fits len1 by simp
  have "r * sz < 2 ^ 64" using fits len1 assms(13,14) by simp
  then have off: "unat (word_of_int (int r) * of_nat (length sbuf) :: u64) = r * sz"
    using assms(11) by (simp add: unat_of_nat_u64 flip: of_nat_mult)
  have "of_nat (length sbuf) * word_of_int (int (length ps + 1)) = (of_nat ((length ps + 1) * sz) :: u64)"
    using assms(11) by (simp add: algebra_simps)
  then have total: "unat (of_nat (length sbuf) * word_of_int (int (length ps + 1)) :: u64) = length ?b"
    unfolding lenb assms(13) using unat_of_nat_u64 [OF less_trans [OF assms(14)]] by simp
  have ok: "\<forall>h \<in> set ps. heap w1 h \<noteq> None" using assms(7) s1(2) by (auto simp: open_handle_def)
  have "length ?b < 2 ^ 31" using lenb assms(13,14) by simp
  from send_each_reaches [OF assms(1) this assms(4,5) s1(3) ok] obtain w2 where
    s2: "send_each V ?b ps w1 = Ret w2"
    and o2: "\<forall>k \<in> P. outbox (net w2) k = (if k \<in> set ps then outbox (net w1) k @ enc ?b else outbox (net w1) k)"
    by blast
  have "write_at (r * sz) sbuf b1 = Ret ?b" by (rule write_at_ok [OF fits])
  then have run: "allgather_root junk V ps (int r) (int (length ps + 1)) sbuf rbuf w = Ret (?b, w2)"
    using s1(1) s2 off total assms(11) by (rule allgather_root_run)
  have own: "take sz (drop (r * sz) ?b) = sbuf" using fits assms(11) by simp
  have others: "take sz (drop (rk h * sz) ?b) = blk h" if "h \<in> set ps" for h
  proof -
    have a: "rk h \<noteq> r" "rk h * sz + sz \<le> length b1" "length (blk h) = sz" using assms(8) blocks that len1 by auto
    have "take (length (blk h)) (drop (rk h * sz) b1) = blk h"
      using g a that by (intro take_drop_eqI) (auto simp: gathered_def)
    with block_of_written [OF fits assms(11) a(1,2)] a(3) show ?thesis by simp
  qed
  have "\<forall>k \<in> set ps. outbox (net w2) k = outbox (net w) k @ enc (int_bytes (int r)) @ enc ?b"
    using o1 o2 assms(4) by auto
  with run lenb own others show ?thesis by blast
qed

lemma allgather_member_gets:
  assumes "sends_to V I enc outbox P" and "delivers V I inbox P" and "two_way V inbox outbox P"
    and "h \<in> P" and "I (net w)" and "open_handle w h"
    and "inbox (net w) h (int_bytes r0 # m # rest)" and "is_rank r0" and "m \<noteq> []" and "length m < 2 ^ 31"
    and "length rbuf = length m" and "length sbuf < 2 ^ 31"
  shows "\<exists>w'. allgather_member junk V (h # hs) r sbuf rbuf w = Ret (m, r0, w')
    \<and> outbox (net w') h = outbox (net w) h @ enc (int_bytes r) @ enc sbuf"
proof -
  have "int_bytes r0 \<noteq> []" "length (int_bytes r0) < 2 ^ 31" "of_nat (length (int_bytes r0)) \<le> sizeof_int"
    using int_bytes_length [of r0] by (auto simp del: int_bytes_length)
  from receive_next_two_way [OF assms(2-7) this] obtain w1 where
    s1: "receiveFromHandle V h sizeof_int w = Ret (4, int_bytes r0, w1)" "heap w1 = heap w" "I (net w1)"
      "inbox (net w1) h (m # rest)" "outbox (net w1) = outbox (net w)" by auto
  have op1: "open_handle w1 h" "heap w1 h \<noteq> None" "length (int_bytes r) < 2 ^ 31"
    using assms(6) s1(2) by (auto simp: open_handle_def)
  from sends_toD [OF assms(1,4) s1(3) op1(2,3)] obtain w2 where
    s2: "vt_send V h (int_bytes r) w1 = Ret (int (length (int_bytes r)), w2)" "heap w2 = heap w1" "I (net w2)"
    and o2: "\<forall>k \<in> P. outbox (net w2) k =
      (if k = h then outbox (net w1) k @ enc (int_bytes r) else outbox (net w1) k)" .
  have in2: "inbox (net w2) h (m # rest)" by (rule two_wayD(1) [OF assms(3,4) s2(1) assms(4) s1(4)])
  have "heap w2 h \<noteq> None" using op1(2) s2(2) by simp
  from sends_toD [OF assms(1,4) s2(3) this assms(12)] obtain w3 where
    s3: "vt_send V h sbuf w2 = Ret (int (length sbuf), w3)" "heap w3 = heap w2" "I (net w3)"
    and o3: "\<forall>k \<in> P. outbox (net w3) k = (if k = h then outbox (net w2) k @ enc sbuf else outbox (net w2) k)" .
  have op3: "open_handle w3 h" using op1(1) s2(2) s3(2) by (simp add: open_handle_def)
  have in3: "inbox (net w3) h (m # rest)" by (rule two_wayD(1) [OF assms(3,4) s3(1) assms(4) in2])
  from probe_next [OF assms(2-4) s3(3) op3 in3 assms(9,10), of "of_le_bytes (overlay junk 8 [])"] obtain w4 w5 where
    s5: "probeHandle V h (of_le_bytes (overlay junk 8 [])) True w3 = Ret (8, of_nat (length m), w4)"
    "receiveFromHandle V h (of_nat (length m)) w4 = Ret (int (length m), m, w5)"
    "outbox (net w5) = outbox (net w3)" by blast
  have "bytes_int (int_bytes r0) = r0" using assms(8) by (intro bytes_int_roundtrip) auto
  moreover have "write_at 0 m rbuf = Ret m" using write_at_ok [of 0 m rbuf] assms(11) by simp
  moreover have "outbox (net w5) h = outbox (net w) h @ enc (int_bytes r) @ enc sbuf"
    using s5(3) o2 o3 assms(4) s1(5) by simp
  ultimately show ?thesis
    using s1(1) s2(1) s3(1) s5(1,2) by (simp add: allgather_member_def vec_at_def Let_def)
qed

text \<open>C28: The exchange of addresses for UCC is an all-gather: when every member has sent its rank and its block, the
  root's buffer holds the block of each member at the place of its rank, its own included, and that buffer
  goes to everyone; a member that receives it ends with the same buffer, knows the rank of the root, and has
  sent its rank and its block.\<close>

theorem ucc_allgather:
  assumes "sends_to V I enc outbox P" and "delivers V I inbox P" and "two_way V inbox outbox P"
    and "set ps \<subseteq> P" and "distinct ps" and "I (net w)" and "\<forall>h \<in> set ps. open_handle w h"
    and "\<forall>h \<in> set ps. inbox (net w) h (int_bytes (int (rk h)) # blk h # rest h)
      \<and> length (blk h) = sz \<and> rk h \<le> length ps \<and> rk h \<noteq> r"
    and "inj_on rk (set ps)" and "r \<le> length ps" and "length sbuf = sz" and "0 < sz"
    and "length rbuf = (length ps + 1) * sz" and "(length ps + 1) * sz < 2 ^ 31"
  shows "\<exists>buf' w'. oob_allgather junk V ps (int r) (int (length ps + 1)) True sbuf rbuf (rr, w) = Ret (buf', rr, w')
    \<and> take sz (drop (r * sz) buf') = sbuf
    \<and> (\<forall>h \<in> set ps. take sz (drop (rk h * sz) buf') = blk h)
    \<and> (\<forall>k \<in> set ps. outbox (net w') k = outbox (net w) k @ enc (int_bytes (int r)) @ enc buf')
    \<and> (\<forall>h \<in> P. \<forall>v mine mbuf later i n rr'. I (net v) \<and> open_handle v h \<and> length mine = sz \<and> length mbuf = length rbuf
        \<and> inbox (net v) h (int_bytes (int r) # buf' # later) \<longrightarrow>
        (\<exists>v'. oob_allgather junk V [h] i n False mine mbuf (rr', v) = Ret (buf', int r, v')
           \<and> outbox (net v') h = outbox (net v) h @ enc (int_bytes i) @ enc mine))"
proof -
  from allgather_root_gathers [OF assms, of junk] obtain buf' w' where
    run: "allgather_root junk V ps (int r) (int (length ps + 1)) sbuf rbuf w = Ret (buf', w')"
    and len: "length buf' = length rbuf" and blocks: "take sz (drop (r * sz) buf') = sbuf"
    "\<forall>h \<in> set ps. take sz (drop (rk h * sz) buf') = blk h"
    "\<forall>k \<in> set ps. outbox (net w') k = outbox (net w) k @ enc (int_bytes (int r)) @ enc buf'" by blast
  have "sz \<le> (length ps + 1) * sz" "length ps + 1 \<le> (length ps + 1) * sz"
    using mult_le_mono2 [of 1 sz "length ps + 1"] assms(12) by simp_all
  then have lt: "sz < 2 ^ 31" "length ps + 1 < 2 ^ 31" using le_less_trans [OF _ assms(14)] by blast+
  have r: "is_rank (int r)" using lt(2) assms(10) by simp
  have "0 < length buf'" using \<open>sz \<le> (length ps + 1) * sz\<close> assms(12) unfolding len assms(13) by simp
  then have buf: "buf' \<noteq> []" "length buf' < 2 ^ 31" using len assms(13,14) by auto
  have member: "\<exists>v'. oob_allgather junk V [h] i n False mine mbuf (rr', v) = Ret (buf', int r, v')
      \<and> outbox (net v') h = outbox (net v) h @ enc (int_bytes i) @ enc mine"
    if "h \<in> P" "I (net v)" "open_handle v h" "length mine = sz" "length mbuf = length rbuf"
      "inbox (net v) h (int_bytes (int r) # buf' # later)" for h v mine mbuf later i n rr'
  proof -
    have m: "length mbuf = length buf'" "length mine < 2 ^ 31" using that(4,5) len lt(1) by simp_all
    from allgather_member_gets [OF assms(1-3) that(1-3,6) r buf m, of junk "[]" i] show ?thesis
      by (simp add: oob_allgather_def)
  qed
  have "oob_allgather junk V ps (int r) (int (length ps + 1)) True sbuf rbuf (rr, w) = Ret (buf', rr, w')"
    using run by (simp add: oob_allgather_def)
  with blocks member show ?thesis by blast
qed

text \<open>The root of a team of three has rank 2; the others have sent \<open>[5]\<close> and \<open>[6]\<close>.\<close>

theorem ucc_allgather_witness:
  "\<exists>buf' w'. oob_allgather (\<lambda>_. 0) (mpi_vtable sample_mpic) [0, 1] 2 3 True [9] [0, 0, 0]
      (0, mpic_world 2 (\<lambda>r. if r < 2 then mpi_frame (int_bytes r) @ mpi_frame [if r = 0 then 5 else 6] else [])) =
      Ret (buf', 0, w')
    \<and> take 1 (drop 2 buf') = [9] \<and> take 1 (drop 0 buf') = [5] \<and> take 1 (drop 1 buf') = [6]"
proof -
  let ?w = "mpic_world 2 (\<lambda>r. if r < 2 then mpi_frame (int_bytes r) @ mpi_frame [if r = 0 then 5 else 6] else [])"
  let ?P = "{0, 1, 2} :: hid set" and ?blk = "\<lambda>h :: hid. [if h = 0 then 5 else 6] :: byte list"
  have 1: "\<forall>h \<in> set [0, 1]. open_handle ?w h" by (simp add: mpic_world_ok(2))
  have 2: "\<forall>h \<in> set [0, 1]. mpi_inbox (\<lambda>q s. fst (snd s) q) (net ?w) h (int_bytes (int (id h)) # ?blk h # [])
      \<and> length (?blk h) = 1 \<and> id h \<le> length [0, 1 :: hid] \<and> id h \<noteq> 2"
    by (auto intro!: mpic_world_ok(3))
  have 3: "set [0, 1] \<subseteq> ?P" "distinct [0, 1 :: hid]" "inj_on id (set [0, 1 :: hid])" "(2 :: nat) \<le> length [0, 1 :: hid]"
    "length [9 :: byte] = 1" "(0 :: nat) < 1" "length [0, 0, 0 :: byte] = (length [0, 1 :: hid] + 1) * 1"
    "(length [0, 1 :: hid] + 1) * 1 < (2 :: nat) ^ 31" by simp_all
  from ucc_allgather [OF mpi_sends_to [OF sample_mpic_sends] mpi_delivers [OF sample_mpic_fifo]
      sample_mpic_two_way 3(1,2) mpic_world_ok(1) 1 2 3(3-8), of "\<lambda>_. 0" 0] obtain buf' w' where
    r: "oob_allgather (\<lambda>_. 0) (mpi_vtable sample_mpic) [0, 1] (int 2) (int (length [0, 1 :: hid] + 1)) True [9] [0, 0, 0]
      (0, ?w) = Ret (buf', 0, w')" "take 1 (drop (2 * 1) buf') = [9]"
    "\<forall>h \<in> set [0, 1]. take 1 (drop (id h * 1) buf') = ?blk h" by blast
  then show ?thesis by (intro exI [of _ buf'] exI [of _ w']) simp
qed

section \<open>Waiting for a collective\<close>

text \<open>
  \<open>fin req s = Some (k, bs)\<close>: the request is done after \<open>k\<close> more calls of \<open>ucc_context_progress\<close>, which do not
  call back, and leaves \<open>bs\<close> in the buffer.
\<close>

definition ucc_finishes :: "('s, 'a) ucc_lib_scheme \<Rightarrow> (nat \<Rightarrow> 's \<Rightarrow> (nat \<times> byte list) option) \<Rightarrow> bool" where
  "ucc_finishes L fin \<longleftrightarrow>
     (\<forall>req s k bs. fin req s = Some (k, bs) \<longrightarrow>
        (\<exists>s'. ucc_collective_test L req s = (if k = 0 then UCC_OK else UCC_INPROGRESS, s') \<and> fin req s' = Some (k, bs))
      \<and> (\<forall>cb ctx1. k \<noteq> 0 \<longrightarrow> (\<exists>s'. ucc_context_progress L cb ctx1 s = Ret s' \<and> fin req s' = Some (k - 1, bs)))
      \<and> (k = 0 \<longrightarrow> fst (ucc_collective_finalize L req s) = bs))"

lemma ucc_finishesE:
  assumes "ucc_finishes L fin" and "fin req s = Some (k, bs)"
  obtains s' where "ucc_collective_test L req s = (if k = 0 then UCC_OK else UCC_INPROGRESS, s')"
      and "fin req s' = Some (k, bs)"
  using assms unfolding ucc_finishes_def by blast

lemma collective_wait_returns:
  assumes "ucc_finishes L fin"
  shows "fin req s = Some (k, bs) \<Longrightarrow> k < c \<Longrightarrow>
    \<exists>s'. collective_wait c L ctx1 req s = Ret s' \<and> fin req s' = Some (0, bs)"
proof (induction c arbitrary: s k)
  case (Suc c)
  from ucc_finishesE [OF assms Suc.prems(1)] obtain s1 where
    s1: "ucc_collective_test L req s = (if k = 0 then UCC_OK else UCC_INPROGRESS, s1)" "fin req s1 = Some (k, bs)" .
  show ?case
  proof (cases k)
    case 0
    with s1 show ?thesis by simp
  next
    case (Suc j)
    with assms s1(2) obtain s2 where "ucc_context_progress L stale_oob ctx1 s1 = Ret s2" "fin req s2 = Some (j, bs)"
      unfolding ucc_finishes_def by fastforce
    with Suc.IH [of s2 j] Suc s1(1) Suc.prems(2) show ?thesis by simp
  qed
qed simp

text \<open>C37: A broadcast over UCC returns: when the library finishes the request after \<open>k\<close> calls of its progress
  function, a member that gives it more rounds than that leaves the loop, returns the size of its buffer and
  has in it what the library put there; the buffer it would have sent is as before.\<close>

theorem ucc_broadcast_returns:
  assumes "ucc_finishes L fin" and "\<not> uc_root cl" and "length buf < 2 ^ 63"
    and "ucc_collective_init L \<lparr>ua_type = UCC_BCAST, ua_src = buf, ua_dst = None, ua_root = uc_root_rank cl\<rparr>
           (uc_team cl) (uc_root_rank cl, w) = (req, s)"
    and "fin req (ucc_collective_post L req s) = Some (k, bs)" and "k < c"
  shows "\<exists>w'. bucc_sendrecv c L cl sb buf w = Ret (int (length buf), sb, bs, w')"
proof -
  from collective_wait_returns [OF assms(1,5,6), of "uc_ctx cl"] obtain s' where
    s': "collective_wait c L (uc_ctx cl) req (ucc_collective_post L req s) = Ret s'" "fin req s' = Some (0, bs)" by blast
  then have "fst (ucc_collective_finalize L req s') = bs" using assms(1) unfolding ucc_finishes_def by blast
  moreover have "ssize_of (of_nat (length buf)) = int (length buf)" using assms(3) by (intro ssize_of_nat) simp
  ultimately show ?thesis
    using assms(2,4) s'(1) by (simp add: bucc_sendrecv_def bucc_receive_def bucc_call_def run_collective_def case_prod_unfold Let_def)
qed

text \<open>A library that needs two calls of its progress function, counted in \<open>next_hid\<close>.\<close>

definition sample_ucc :: "(int \<times> unit world) ucc_lib" where
  "sample_ucc = \<lparr>ucc_start = id, ucc_context_create = (\<lambda>cb n r s. Ret (0, s)),
     ucc_team_create_post = (\<lambda>cb x n r s. Ret (0, s)), ucc_team_create_test = (\<lambda>cb t s. Ret (UCC_OK, s)),
     ucc_context_progress = (\<lambda>cb x (r, w). Ret (r, w\<lparr>next_hid := next_hid w - 1\<rparr>)),
     ucc_collective_init = (\<lambda>args t s. (0, s)), ucc_collective_post = (\<lambda>q (r, w). (r, w\<lparr>next_hid := 2\<rparr>)),
     ucc_collective_test = (\<lambda>q (r, w). (if next_hid w = 0 then UCC_OK else UCC_INPROGRESS, r, w)),
     ucc_collective_finalize = (\<lambda>q s. ([7], s))\<rparr>"

definition idle_world :: "unit world" where
  "idle_world = \<lparr>heap = (\<lambda>_. None), errno = OK_errno, next_hid = 0, net = ()\<rparr>"

theorem ucc_broadcast_returns_witness:
  "\<exists>w'. bucc_sendrecv 3 sample_ucc \<lparr>uc_participants = [1], uc_rank = 1, uc_size = 2, uc_root = False, uc_root_rank = 0,
      uc_ctx = 0, uc_team = 0, uc_closing = False\<rparr> [] [0] idle_world = Ret (1, [], [7], w')"
proof -
  have fin: "ucc_finishes sample_ucc (\<lambda>q s. Some (next_hid (snd s), [7]))"
    by (simp add: ucc_finishes_def sample_ucc_def)
  show ?thesis
    using ucc_broadcast_returns [OF fin, of "\<lparr>uc_participants = [1], uc_rank = 1, uc_size = 2, uc_root = False,
        uc_root_rank = 0, uc_ctx = 0, uc_team = 0, uc_closing = False\<rparr>" "[0]" idle_world 0 "(0, idle_world)" 2 "[7]" 3 "[]"]
    by (simp add: sample_ucc_def)
qed

end
