(* ===== verification/LibContext.thy ===== *)
theory LibContext
  imports CollectiveContext CollUccProps
begin

text \<open>
  \<open>CollectiveContext\<close> in a build with \<open>ENABLE_MPI\<close> or \<open>ENABLE_UCX\<close> (\<open>include/collectives/collectiveContext.hpp\<close>):
  the pointer \<open>coll\<close> may be an object of the MPI or UCC collectives.
  \<^item> \<open>impls\<close> gives that object for a context; where it gives none, \<open>coll\<close> is the generic one or null, and every
    member is that of the build without libraries.
  \<^item> \<open>libs\<close> are the libraries of the build with the vtable of the handles; \<open>None\<close> is a library that is not
    enabled. \<open>lib_junk\<close> is the content of uninitialised memory.
\<close>

datatype impl =
    BroadcastMPI mpi_coll
  | GatherMPI mpi_coll
  | BroadcastUCC ucc_coll
  | GatherUCC ucc_coll

record 'n lworld = "'n cworld" +
  impls :: "hid \<Rightarrow> impl option"

type_synonym ('o, 'm, 'x) lib_world = "(('o, 'm) mpi_state_scheme, 'x) lworld_scheme"

record ('o, 'w) libs =
  en_mpi :: "'o mpic_lib option"
  en_ucx :: "(int \<times> 'w) ucc_lib option"
  lib_vtab :: "'w vtable"
  lib_junk :: "nat \<Rightarrow> byte"
  lib_bound :: nat

section \<open>setImplementation\<close>

text \<open>The cases that make an object of a library; the others are those of \<open>make_coll\<close>.\<close>

definition make_impl ::
  "('o, ('o, 'm, 'x) lib_world) libs \<Rightarrow> handle_type \<Rightarrow> ImplementationType \<Rightarrow> ctx \<Rightarrow> hid list \<Rightarrow> int
     \<Rightarrow> ('o, 'm, 'x) lib_world \<Rightarrow> (impl option \<times> ('o, 'm, 'x) lib_world) out" where
  "make_impl B type im cx ps uniqtag w =
     (let mpi = (\<lambda>C. case en_mpi B of
            None \<Rightarrow> Ret (None, w)
          | Some A \<Rightarrow> bnd (new_MPICollective (lib_junk B) A (lib_vtab B) ps (ctx_root cx) uniqtag w)
              (\<lambda>(c, w). Ret (Some (C c), w)));
          ucc = (\<lambda>C. case en_ucx B of
            None \<Rightarrow> Ret (None, w)
          | Some L \<Rightarrow> bnd (new_UCCCollective (lib_bound B) (lib_junk B) L (lib_vtab B) ps (ctx_rank cx) (ctx_size cx)
              (ctx_root cx) w) (\<lambda>(c, w). Ret (Some (C c), w)))
      in case type of
           BROADCAST \<Rightarrow> (case im of GENERIC \<Rightarrow> Ret (None, w) | MPI_lib \<Rightarrow> mpi BroadcastMPI | UCC_lib \<Rightarrow> ucc BroadcastUCC)
         | GATHER \<Rightarrow> (case im of GENERIC \<Rightarrow> Ret (None, w) | MPI_lib \<Rightarrow> mpi GatherMPI | UCC_lib \<Rightarrow> ucc GatherUCC)
         | _ \<Rightarrow> Ret (None, w))"

definition set_impl ::
  "('o, ('o, 'm, 'x) lib_world) libs \<Rightarrow> hid \<Rightarrow> ImplementationType \<Rightarrow> hid list \<Rightarrow> int \<Rightarrow> ('o, 'm, 'x) lib_world
     \<Rightarrow> (bool \<times> ('o, 'm, 'x) lib_world) out" where
  "set_impl B h im ps uniqtag w =
     bnd (get_ctx h w) (\<lambda>cx. bnd (obj h w) (\<lambda>ob.
     bnd (make_impl B (htype ob) im cx ps uniqtag w) (\<lambda>(i, w).
     let g = (if i = None then make_coll (htype ob) im cx ps else None)
     in Ret (i \<noteq> None \<or> g \<noteq> None, (put_ctx h (cx\<lparr>ctx_coll := g\<rparr>) w)\<lparr>impls := (impls w)(h := i)\<rparr>))))"

section \<open>The members of the library objects\<close>

text \<open>\<open>receive\<close> and \<open>sendrecv\<close> take the content of the buffer, which the library may leave as it is.\<close>

definition impl_send ::
  "('o, ('o, 'm, 'x) lib_world) libs \<Rightarrow> impl \<Rightarrow> byte list \<Rightarrow> ('o, 'm, 'x) lib_world
     \<Rightarrow> (int \<times> ('o, 'm, 'x) lib_world) out" where
  "impl_send B i bs w =
     (case i of
        BroadcastMPI c \<Rightarrow> deref (en_mpi B) (\<lambda>A. bnd (bmpi_send A c bs w) (\<lambda>(r, _, w). Ret (r, w)))
      | GatherMPI c \<Rightarrow> Ret (gmpi_send bs w)
      | BroadcastUCC c \<Rightarrow> deref (en_ucx B) (\<lambda>L. bnd (bucc_send (lib_bound B) L c bs w) (\<lambda>(r, _, w). Ret (r, w)))
      | GatherUCC c \<Rightarrow> Ret (gucc_send bs w))"

definition impl_receive ::
  "('o, ('o, 'm, 'x) lib_world) libs \<Rightarrow> impl \<Rightarrow> byte list \<Rightarrow> ('o, 'm, 'x) lib_world
     \<Rightarrow> (int \<times> byte list \<times> ('o, 'm, 'x) lib_world) out" where
  "impl_receive B i buf w =
     (let n = of_nat (length buf) in
      case i of
        BroadcastMPI c \<Rightarrow> deref (en_mpi B) (\<lambda>A. bmpi_receive A c buf n w)
      | GatherMPI c \<Rightarrow> (let (r, w) = gmpi_receive n w in Ret (r, buf, w))
      | BroadcastUCC c \<Rightarrow> deref (en_ucx B) (\<lambda>L. bucc_receive (lib_bound B) L c buf w)
      | GatherUCC c \<Rightarrow> (let (r, w) = gucc_receive n w in Ret (r, buf, w)))"

definition impl_probe :: "impl \<Rightarrow> u64 \<Rightarrow> ('n, 'x) world_scheme \<Rightarrow> int \<times> u64 \<times> ('n, 'x) world_scheme" where
  "impl_probe i sz w =
     (case i of BroadcastMPI c \<Rightarrow> mpic_probe sz w | GatherMPI c \<Rightarrow> mpic_probe sz w
      | BroadcastUCC c \<Rightarrow> uccc_probe sz w | GatherUCC c \<Rightarrow> uccc_probe sz w)"

definition impl_peek :: "impl \<Rightarrow> ('n, 'x) world_scheme \<Rightarrow> bool \<times> ('n, 'x) world_scheme" where
  "impl_peek i w =
     (case i of BroadcastMPI c \<Rightarrow> mpic_peek w | GatherMPI c \<Rightarrow> mpic_peek w
      | BroadcastUCC c \<Rightarrow> uccc_peek w | GatherUCC c \<Rightarrow> uccc_peek w)"

definition impl_sendrecv ::
  "('o, ('o, 'm, 'x) lib_world) libs \<Rightarrow> impl \<Rightarrow> byte list \<Rightarrow> byte list \<Rightarrow> u64 \<Rightarrow> ('o, 'm, 'x) lib_world
     \<Rightarrow> (int \<times> byte list \<times> ('o, 'm, 'x) lib_world) out" where
  "impl_sendrecv B i sendbuff recvbuff recvsize w =
     (case i of
        BroadcastMPI c \<Rightarrow> deref (en_mpi B) (\<lambda>A.
          bnd (bmpi_sendrecv A c sendbuff recvbuff recvsize w) (\<lambda>(r, _, buf, w). Ret (r, buf, w)))
      | GatherMPI c \<Rightarrow> deref (en_mpi B) (\<lambda>A. gmpi_sendrecv A c sendbuff recvbuff recvsize w)
      | BroadcastUCC c \<Rightarrow> deref (en_ucx B) (\<lambda>L.
          bnd (bucc_sendrecv (lib_bound B) L c sendbuff recvbuff w) (\<lambda>(r, _, buf, w). Ret (r, buf, w)))
      | GatherUCC c \<Rightarrow> deref (en_ucx B) (\<lambda>L. gucc_sendrecv (lib_bound B) L c sendbuff recvbuff recvsize w))"

definition impl_close :: "impl \<Rightarrow> impl" where
  "impl_close i =
     (case i of BroadcastMPI c \<Rightarrow> BroadcastMPI (mpic_close c) | GatherMPI c \<Rightarrow> GatherMPI (mpic_close c)
      | BroadcastUCC c \<Rightarrow> BroadcastUCC (uccc_close c) | GatherUCC c \<Rightarrow> GatherUCC (uccc_close c))"

definition impl_finalize ::
  "('o, ('o, 'm, 'x) lib_world) libs \<Rightarrow> impl \<Rightarrow> ('o, 'm, 'x) lib_world \<Rightarrow> (impl \<times> ('o, 'm, 'x) lib_world) out" where
  "impl_finalize B i w =
     (case i of
        BroadcastMPI c \<Rightarrow> deref (en_mpi B) (\<lambda>A. let (c, w) = mpic_finalize A c w in Ret (BroadcastMPI c, w))
      | GatherMPI c \<Rightarrow> deref (en_mpi B) (\<lambda>A. let (c, w) = mpic_finalize A c w in Ret (GatherMPI c, w))
      | BroadcastUCC c \<Rightarrow> Ret (BroadcastUCC (uccc_finalize c), w)
      | GatherUCC c \<Rightarrow> Ret (GatherUCC (uccc_finalize c), w))"

section \<open>The members of the context\<close>

definition put_impl :: "hid \<Rightarrow> impl \<Rightarrow> ('n, 'x) lworld_scheme \<Rightarrow> ('n, 'x) lworld_scheme" where
  "put_impl h i w = w\<lparr>impls := (impls w)(h \<mapsto> i)\<rparr>"

definition lctx_send ::
  "('o, ('o, 'm, 'x) lib_world) libs \<Rightarrow> hid \<Rightarrow> byte list \<Rightarrow> ('o, 'm, 'x) lib_world
     \<Rightarrow> (int \<times> ('o, 'm, 'x) lib_world) out" where
  "lctx_send B h bs w =
     (case impls w h of
        None \<Rightarrow> ctx_send (lib_vtab B) h bs w
      | Some i \<Rightarrow> bnd (get_ctx h w) (\<lambda>cx.
          if \<not> canSend cx then Ret (-1, set_errno EINVAL w) else impl_send B i bs w))"

definition lctx_receive ::
  "('o, ('o, 'm, 'x) lib_world) libs \<Rightarrow> byte list \<Rightarrow> hid \<Rightarrow> byte list \<Rightarrow> ('o, 'm, 'x) lib_world
     \<Rightarrow> (int \<times> byte list \<times> ('o, 'm, 'x) lib_world) out" where
  "lctx_receive B junk4 h buf w =
     (case impls w h of
        None \<Rightarrow> ctx_receive junk4 (lib_vtab B) h (of_nat (length buf)) w
      | Some i \<Rightarrow> bnd (get_ctx h w) (\<lambda>cx.
          if \<not> canReceive cx then Ret (-1, [], set_errno EINVAL w) else impl_receive B i buf w))"

definition lctx_probe ::
  "('o, ('o, 'm, 'x) lib_world) libs \<Rightarrow> hid \<Rightarrow> bool \<Rightarrow> u64 \<Rightarrow> ('o, 'm, 'x) lib_world
     \<Rightarrow> (int \<times> u64 \<times> ('o, 'm, 'x) lib_world) out" where
  "lctx_probe B h blocking sz w =
     (case impls w h of
        None \<Rightarrow> ctx_probe (lib_bound B) (lib_vtab B) h blocking sz w
      | Some i \<Rightarrow> bnd (get_ctx h w) (\<lambda>cx.
          if \<not> canReceive cx then Ret (-1, sz, set_errno EINVAL w) else Ret (impl_probe i sz w)))"

definition lctx_peek ::
  "('o, ('o, 'm, 'x) lib_world) libs \<Rightarrow> hid \<Rightarrow> ('o, 'm, 'x) lib_world \<Rightarrow> (bool \<times> ('o, 'm, 'x) lib_world) out" where
  "lctx_peek B h w =
     (case impls w h of
        None \<Rightarrow> ctx_peek (lib_vtab B) h w
      | Some i \<Rightarrow> bnd (get_ctx h w) (\<lambda>cx. Ret (impl_peek i w)))"

definition lctx_sendrecv ::
  "('o, ('o, 'm, 'x) lib_world) libs \<Rightarrow> byte list \<Rightarrow> hid \<Rightarrow> byte list \<Rightarrow> byte list \<Rightarrow> u64 \<Rightarrow> ('o, 'm, 'x) lib_world
     \<Rightarrow> (int \<times> byte list \<times> ('o, 'm, 'x) lib_world) out" where
  "lctx_sendrecv B junk4 h sendbuff recvbuff recvsize w =
     (case impls w h of
        None \<Rightarrow> ctx_sendrecv junk4 (lib_vtab B) h sendbuff recvbuff recvsize w
      | Some i \<Rightarrow> bnd (get_ctx h w) (\<lambda>cx. impl_sendrecv B i sendbuff recvbuff recvsize w))"

definition lctx_close ::
  "('o, ('o, 'm, 'x) lib_world) libs \<Rightarrow> hid \<Rightarrow> bool \<Rightarrow> bool \<Rightarrow> ('o, 'm, 'x) lib_world \<Rightarrow> ('o, 'm, 'x) lib_world out" where
  "lctx_close B h close_wr close_rd w =
     (case impls w h of
        None \<Rightarrow> ctx_close (lib_vtab B) h close_wr close_rd w
      | Some i \<Rightarrow>
          bnd (upd_obj h (\<lambda>ob. ob\<lparr>closed_rd := closed_rd ob \<or> close_rd\<rparr>) w) (\<lambda>w.
          upd_obj h (\<lambda>ob. ob\<lparr>closed_wr := closed_wr ob \<or> close_wr\<rparr>) (put_impl h (impl_close i) w)))"

definition lctx_finalize ::
  "('o, ('o, 'm, 'x) lib_world) libs \<Rightarrow> hid \<Rightarrow> ('o, 'm, 'x) lib_world \<Rightarrow> ('o, 'm, 'x) lib_world out" where
  "lctx_finalize B h w =
     (case impls w h of
        None \<Rightarrow> ctx_finalize h w
      | Some i \<Rightarrow> bnd (get_ctx h w) (\<lambda>cx. bnd (impl_finalize B i w) (\<lambda>(i, w). Ret (put_impl h i w))))"

section \<open>A build without libraries, and a team over MPI\<close>

text \<open>Without libraries \<open>set_impl\<close> is \<open>setImplementation\<close>, and no object of a library ever appears.\<close>

lemma set_impl_plain:
  assumes "en_mpi B = None" and "en_ucx B = None" and "impls w = (\<lambda>_. None)"
  shows "set_impl B h im ps uniqtag w = setImplementation h im ps w"
proof -
  have none: "make_impl B type im cx ps uniqtag v = Ret (None, v)" for type cx v
    using assms(1,2) by (cases type; cases im) (simp_all add: make_impl_def)
  have keep: "(put_ctx h cx w)\<lparr>impls := (impls (put_ctx h cx w))(h := None)\<rparr> = put_ctx h cx w" for cx
    using assms(3) by (cases w) (simp add: put_ctx_def fun_upd_idem)
  have same: "impls (put_ctx h cx w) = impls w" for cx by (simp add: put_ctx_def)
  show ?thesis
    unfolding set_impl_def setImplementation_def none using keep unfolding same by (simp add: Let_def)
qed

lemma set_impl_made:
  assumes "heap w hc = Some ob" and "ctxs w hc = Some cx" and "htype ob \<in> {BROADCAST, GATHER}"
    and "en_mpi B = Some A" and "new_MPICollective (lib_junk B) A (lib_vtab B) ps (ctx_root cx) uniqtag w = Ret (c, w1)"
  shows "\<exists>w'. set_impl B hc MPI_lib ps uniqtag w = Ret (True, w')
    \<and> impls w' hc = Some (if htype ob = BROADCAST then BroadcastMPI c else GatherMPI c) \<and> net w' = net w1"
  using assms by (auto simp: set_impl_def make_impl_def get_ctx_def obj_Some Let_def put_ctx_def)

text \<open>Three processes with the context 9 of a broadcast team.\<close>

definition lib_sample :: "bool \<Rightarrow> int \<Rightarrow> (int \<Rightarrow> byte list list) \<Rightarrow> (int \<times> mpi_qs, unit, unit) lib_world" where
  "lib_sample root i q = \<lparr>heap = (\<lambda>h. if h < 9 then Some (new_handle ''MPI'')
       else if h = 9 then Some ((new_handle [])\<lparr>htype := BROADCAST, counter := 1\<rparr>) else None),
     errno = OK_errno, next_hid = 10, net = net (mpic_world i q),
     ctxs = [9 \<mapsto> \<lparr>ctx_size = 3, ctx_root = root, ctx_rank = i, canSend = False, canReceive = False, completed = True,
       ctx_coll = None\<rparr>], impls = (\<lambda>_. None)\<rparr>"

definition lib_build :: "(int \<times> mpi_qs, (int \<times> mpi_qs, unit, unit) lib_world) libs" where
  "lib_build = \<lparr>en_mpi = Some sample_mpic, en_ucx = None, lib_vtab = mpi_vtable sample_mpic, lib_junk = (\<lambda>_. 0),
     lib_bound = 5\<rparr>"

lemma lib_sample_open: "h < 9 \<Longrightarrow> open_handle (lib_sample b i q) h"
  by (simp add: lib_sample_def open_handle_def new_handle_def)

lemma lib_sample_net [simp]: "net (lib_sample b i q) = net (mpic_world i q)"
  by (simp add: lib_sample_def)

text \<open>C27: In a build with MPI, \<open>setImplementation\<close> gives the contexts of a broadcast or gather team an object of the MPI
  collectives, and the objects of the members fit together. When every member has sent its rank, the context of the
  root sends each of them its own rank and the array of all ranks and nothing else, and makes the group of that
  array. A member on whose handle arrives what the root has put on its own handle makes the same group, in the same
  order, and the same root, and has sent the rank that the root has read.\<close>

theorem mpi_context_formed:
  assumes "lib_vtab B = V" and "en_mpi B = Some A"
    and "sends_to V I enc outbox P" and "delivers V I inbox P" and "two_way V inbox outbox P" and "quiet_create A outbox"
    and "set ps \<subseteq> P" and "distinct ps" and "I (net w)" and "\<forall>h \<in> set ps. open_handle w h"
    and "\<forall>h \<in> set ps. inbox (net w) h (int_bytes (rk h) # rest h) \<and> is_rank (rk h)"
    and "length ps < 2 ^ 28" and "mpi_comm_rank A (mpi_os (net w)) = r0" and "is_rank r0"
    and "heap w hc = Some ob" and "ctxs w hc = Some cx" and "ctx_root cx"
    and "set_impl B hc MPI_lib ps uniqtag w = Ret (ok, w')"
    and "k \<in> set ps" and "\<And>ms. outbox (net w') k = outbox (net w) k @ concat (map enc ms) \<Longrightarrow> inbox (net v) h ms"
    and "h \<in> P" and "I (net v)" and "open_handle v h" and "mpi_comm_rank A (mpi_os (net v)) = rk k"
    and "heap v hm = Some ob'" and "ctxs v hm = Some cx'" and "\<not> ctx_root cx'"
    and "htype ob = type" and "htype ob' = type" and "type \<in> {BROADCAST, GATHER}"
  shows "ok \<and> (\<forall>j \<in> set ps. outbox (net w') j = outbox (net w) j @ enc (int_bytes r0) @ enc (ints_bytes (r0 # map rk ps)))
    \<and> (\<exists>c v' d. impls w' hc = Some (if type = BROADCAST then BroadcastMPI c else GatherMPI c)
         \<and> root_rank c = r0 \<and> mc_ranks c = r0 # map rk ps
         \<and> set_impl B hm MPI_lib [h] uniqtag v = Ret (True, v')
         \<and> impls v' hm = Some (if type = BROADCAST then BroadcastMPI d else GatherMPI d)
         \<and> root_rank d = r0 \<and> mc_ranks d = mc_ranks c
         \<and> outbox (net v') h = outbox (net v) h @ enc (int_bytes (rk k)))"
proof -
  let ?rs = "r0 # map rk ps"
  have cx: "ctx_root cx = True" "ctx_root cx' = False" using assms(17,27) by simp_all
  have t: "htype ob \<in> {BROADCAST, GATHER}" "htype ob' \<in> {BROADCAST, GATHER}" using assms(28-30) by simp_all
  from ranks_at_root_agrees [OF assms(3-5,7-12), of "lib_junk B" r0] obtain w1 where
    w1: "ranks_at_root (lib_junk B) V r0 ps w = Ret (?rs, w1)"
    "\<forall>j \<in> set ps. outbox (net w1) j = outbox (net w) j @ enc (int_bytes r0) @ enc (ints_bytes ?rs)" by blast
  have "(if True then bnd (ranks_at_root (lib_junk B) V r0 ps w) (\<lambda>(rs, w). Ret (r0, rs, w))
      else ranks_at_member (lib_junk B) V r0 ps w) = Ret (r0, ?rs, w1)" using w1(1) by simp
  from new_collective_quiet [OF assms(6) this assms(13) [symmetric], of uniqtag] obtain c w2 where
    c: "new_MPICollective (lib_junk B) A V ps True uniqtag w = Ret (c, w2)" "root_rank c = r0" "mc_ranks c = ?rs"
    "outbox (net w2) = outbox (net w1)" by blast
  from set_impl_made [OF assms(15,16) t(1) assms(2), unfolded assms(1) cx, OF c(1)] assms(18,28)
  have w': "ok" "impls w' hc = Some (if type = BROADCAST then BroadcastMPI c else GatherMPI c)" "net w' = net w2" by auto
  have out: "\<forall>j \<in> set ps. outbox (net w') j = outbox (net w) j @ enc (int_bytes r0) @ enc (ints_bytes ?rs)"
    using w1(2) c(4) w'(3) by simp
  have i: "inbox (net v) h (int_bytes r0 # ints_bytes ?rs # [])"
    using out assms(19) by (intro assms(20)) simp
  have rs: "\<forall>x \<in> set ?rs. is_rank x" "?rs \<noteq> []" "length ?rs \<le> 2 ^ 28" using assms(11,12,14) by auto
  from ranks_at_member_agrees [OF assms(3-5,21-23) i assms(14) rs, of "lib_junk B" "rk k" "[]"] obtain v1 where
    v1: "ranks_at_member (lib_junk B) V (rk k) [h] v = Ret (r0, ?rs, v1)"
    "outbox (net v1) h = outbox (net v) h @ enc (int_bytes (rk k))" by blast
  have "(if False then bnd (ranks_at_root (lib_junk B) V (rk k) [h] v) (\<lambda>(rs, w). Ret (rk k, rs, w))
      else ranks_at_member (lib_junk B) V (rk k) [h] v) = Ret (r0, ?rs, v1)" using v1(1) by simp
  from new_collective_quiet [OF assms(6) this assms(24) [symmetric], of uniqtag] obtain d v2 where
    d: "new_MPICollective (lib_junk B) A V [h] False uniqtag v = Ret (d, v2)" "root_rank d = r0" "mc_ranks d = ?rs"
    "outbox (net v2) = outbox (net v1)" by blast
  from set_impl_made [OF assms(25,26) t(2) assms(2), unfolded assms(1) cx, OF d(1)] assms(29) obtain v' where
    v': "set_impl B hm MPI_lib [h] uniqtag v = Ret (True, v')"
    "impls v' hm = Some (if type = BROADCAST then BroadcastMPI d else GatherMPI d)" "net v' = net v2" by auto
  have o': "outbox (net v') h = outbox (net v) h @ enc (int_bytes (rk k))" using v'(3) d(4) v1(2) by simp
  have md: "mc_ranks d = mc_ranks c" using c(3) d(3) by simp
  show ?thesis using w'(1,2) out c(2,3) v'(1,2) d(2) md o' by blast
qed

theorem mpi_context_formed_witness:
  "\<exists>w' c. set_impl lib_build 9 MPI_lib [0, 1] 7 (lib_sample True 2 (\<lambda>r. if r < 2 then mpi_frame (int_bytes r) else []))
       = Ret (True, w') \<and> impls w' 9 = Some (BroadcastMPI c) \<and> mc_ranks c = [2, 0, 1]
     \<and> (\<exists>v' d. set_impl lib_build 9 MPI_lib [2] 7
            (lib_sample False 1 (\<lambda>r. if r = 2 then snd (snd (mpi_os (net w'))) (mpi_chan (net w') 1) else [])) = Ret (True, v')
          \<and> impls v' 9 = Some (BroadcastMPI d) \<and> mc_ranks d = [2, 0, 1])"
proof -
  let ?P = "{0, 1, 2} :: hid set"
  let ?w = "lib_sample True 2 (\<lambda>r. if r < 2 then mpi_frame (int_bytes r) else [])"
  let ?out = "\<lambda>t h. snd (snd (mpi_os t)) (mpi_chan t h)"
  have tw: "two_way (mpi_vtable sample_mpic :: (int \<times> mpi_qs, unit, unit) lib_world vtable)
      (mpi_inbox (\<lambda>q s. fst (snd s) q)) ?out ?P"
    by (rule mpi_two_way [where outq = "\<lambda>q s. snd (snd s) q"])
      (auto simp: sample_mpic_def split: list.splits if_splits prod.splits)
  have qc: "quiet_create sample_mpic ?out"
    by (simp add: quiet_create_def sample_mpic_def mpi_chan_def fun_eq_iff)
  have b: "lib_vtab lib_build = mpi_vtable sample_mpic" "en_mpi lib_build = Some sample_mpic"
    by (simp_all add: lib_build_def)
  have own: "own_channels ?P (net (lib_sample b i q))" for b i q using mpic_world_ok(1) by simp
  have 1: "\<forall>h \<in> set [0, 1]. open_handle ?w h" by (simp add: lib_sample_open)
  have 2: "\<forall>h \<in> set [0, 1]. mpi_inbox (\<lambda>q s. fst (snd s) q) (net ?w) h (int_bytes (int h) # []) \<and> is_rank (int h)"
    unfolding lib_sample_net by (auto intro!: mpic_world_ok(3))
  have 3: "mpi_comm_rank sample_mpic (mpi_os (net (lib_sample b i q))) = i" for b i q
    by (simp add: mpic_world_def sample_mpic_def)
  have 6: "set [0, 1] \<subseteq> ?P" "distinct [0, 1 :: hid]" "length [0, 1 :: hid] < 2 ^ 28" "is_rank 2" "(2 :: hid) \<in> ?P"
    "(1 :: hid) \<in> set [0, 1]" by simp_all
  let ?cx = "\<lambda>b i. \<lparr>ctx_size = 3, ctx_root = b, ctx_rank = i, canSend = False, canReceive = False, completed = True,
       ctx_coll = None\<rparr>"
  let ?ob = "(new_handle [])\<lparr>htype := BROADCAST, counter := 1\<rparr>"
  have 7: "heap (lib_sample b i q) 9 = Some ?ob" "ctxs (lib_sample b i q) 9 = Some (?cx b i)" "ctx_root (?cx True i)"
    "\<not> ctx_root (?cx False i)" "htype ?ob = BROADCAST" "BROADCAST \<in> {BROADCAST, GATHER}" for b i q
    by (simp_all add: lib_sample_def)
  have "ranks_at_root (lib_junk lib_build) (mpi_vtable sample_mpic) 2 [0, 1] ?w \<noteq> Fault f" for f
    using ranks_at_root_agrees [OF mpi_sends_to [OF sample_mpic_sends] mpi_delivers [OF sample_mpic_fifo]
      tw 6(1,2) own 1 2 6(3), of "lib_junk lib_build" 2] by auto
  then obtain x where "ranks_at_root (lib_junk lib_build) (mpi_vtable sample_mpic) 2 [0, 1] ?w = Ret x"
    by (cases "ranks_at_root (lib_junk lib_build) (mpi_vtable sample_mpic) 2 [0, 1] ?w") auto
  then obtain c0 w1 where "new_MPICollective (lib_junk lib_build) sample_mpic (mpi_vtable sample_mpic) [0, 1]
      (ctx_root (?cx True 2)) 7 ?w = Ret (c0, w1)"
    using 3 [of True 2] by (cases x) (auto simp: new_MPICollective_def Let_def case_prod_unfold simp del: lib_sample_net)
  from set_impl_made [OF 7(1,2) _ b(2), unfolded b(1), OF _ this] obtain w' where
    run: "set_impl lib_build 9 MPI_lib [0, 1] 7 ?w = Ret (True, w')" by auto
  let ?v = "lib_sample False 1 (\<lambda>r. if r = 2 then snd (snd (mpi_os (net w'))) (mpi_chan (net w') 1) else [])"
  have 4: "open_handle ?v 2" by (simp add: lib_sample_open)
  have 5: "mpi_inbox (\<lambda>q s. fst (snd s) q) (net ?v) 2 ms" if "?out (net w') 1 = ?out (net ?w) 1 @ concat (map mpi_frame ms)" for ms
  proof -
    have "?out (net ?w) 1 = []" by (simp add: mpic_world_def)
    with that show ?thesis unfolding lib_sample_net by (intro mpic_world_ok(3)) simp
  qed
  have 8: "mpi_comm_rank sample_mpic (mpi_os (net ?v)) = int 1" using 3 by simp
  from mpi_context_formed [OF b mpi_sends_to [OF sample_mpic_sends] mpi_delivers [OF sample_mpic_fifo]
      tw qc 6(1,2) own 1 2 6(3) 3 6(4) 7(1-3) run 6(6) 5 6(5) own 4 8 7(1,2,4,5,5,6)] run
  show ?thesis by auto
qed

end
