(* ===== verification/Serving.thy ===== *)
theory Serving
  imports ProxyProps Handshakes
begin

text \<open>
  What the programs under \<open>examples/\<close> share: waiting for a handle, and the operations on one connection over TCP.
  \<^item> \<open>getNext\<close> waits: \<open>wait_next\<close> lets rounds of the IO thread pass until a handle is queued, \<open>getNext_for\<close> those
    that fit into its time limit.
  \<^item> \<open>peers\<close> is the contract of the sockets: independent streams in both directions, and a \<open>select\<close> that reports
    the descriptors with bytes to read; a listening descriptor has some when a connection waits.
  \<^item> \<open>serving\<close> is the state of a process with one connection, between two operations on it.
\<close>

section \<open>Waiting for a handle\<close>

primrec wait_next ::
  "nat \<Rightarrow> ('n, 'x) env \<Rightarrow> ('n, 'x) mworld \<Rightarrow> (huser \<times> ('n, 'x) mworld) out" where
  "wait_next 0 e w = Fault No_return"
| "wait_next (Suc n) e w =
     (if handleReady w \<noteq> [] then Ret (getNext w) else bnd (backend_round e w) (wait_next n e))"

text \<open>\<open>getNext(us)\<close>: \<open>n\<close> rounds end within the time limit.\<close>

primrec getNext_for ::
  "nat \<Rightarrow> ('n, 'x) env \<Rightarrow> ('n, 'x) mworld \<Rightarrow> (huser \<times> ('n, 'x) mworld) out" where
  "getNext_for 0 e w = Ret (getNext w)"
| "getNext_for (Suc n) e w =
     (if handleReady w \<noteq> [] then Ret (getNext w) else bnd (backend_round e w) (getNext_for n e))"

text \<open>A body that is run for each element, and its rule.\<close>

primrec run_each :: "('a \<Rightarrow> 's \<Rightarrow> 's out) \<Rightarrow> 'a list \<Rightarrow> 's \<Rightarrow> 's out" where
  "run_each body [] s = Ret s"
| "run_each body (x # xs) s = bnd (body x s) (run_each body xs)"

lemma run_each_inv:
  assumes "\<And>x xs s. P (x # xs) s \<Longrightarrow> \<exists>s'. body x s = Ret s' \<and> P xs s'"
  shows "P xs s \<Longrightarrow> \<exists>s'. run_each body xs s = Ret s' \<and> P [] s'"
proof (induction xs arbitrary: s)
  case (Cons x xs)
  from assms [OF Cons.prems] obtain s' where "body x s = Ret s'" "P xs s'" by blast
  with Cons.IH show ?case by simp
qed simp

section \<open>Sockets\<close>

definition readable :: "(int \<Rightarrow> 'o \<Rightarrow> byte list) \<Rightarrow> int set \<Rightarrow> 'o \<Rightarrow> int set" where
  "readable inq S s = {fd \<in> S. inq fd s \<noteq> []}"

definition peers ::
  "('o, 'a) tcp_sys_scheme \<Rightarrow> (int \<Rightarrow> 'o \<Rightarrow> byte list) \<Rightarrow> (int \<Rightarrow> 'o \<Rightarrow> byte list) \<Rightarrow> bool" where
  "peers A inq outq \<longleftrightarrow> reads_stream A inq \<and> writes_stream A outq \<and> reads_only A inq
     \<and> (\<forall>fd n s k. outq k (snd (sk_read A fd n s)) = outq k s)
     \<and> (\<forall>fd iov s k. inq k (snd (sk_writev A fd iov s)) = inq k s)
     \<and> (\<forall>n S s. sk_select A n S s = (((int (card (readable inq S s)), None), readable inq S s), s))"

lemma peersD:
  assumes "peers A inq outq"
  shows "reads_stream A inq" and "writes_stream A outq" and "reads_only A inq"
    and "outq k (snd (sk_read A fd n s)) = outq k s" and "inq k (snd (sk_writev A fd iov s)) = inq k s"
    and "sk_select A nfds S s = (((int (card (readable inq S s)), None), readable inq S s), s)"
  using assms by (simp_all add: peers_def)

lemma readn_keeps:
  assumes "\<And>fd n st. f (snd (sk_read A fd n st)) = f st" and "readn A fd n st = (r, bs, en, st')"
  shows "f st' = f st"
  using readn_loop_keeps [of f A fd n n "[]" st r bs en st', OF assms(1)] assms(2) by (simp add: readn_def)

lemma writevn_keeps:
  assumes "\<And>fd iov st. f (snd (sk_writev A fd iov st)) = f st"
  shows "writevn c A fd iov st = Ret (r, en, st') \<Longrightarrow> f st' = f st"
proof (induction c arbitrary: iov st)
  case (Suc c)
  obtain res s1 where wr: "sk_writev A fd iov st = (res, s1)" by fastforce
  with assms [of fd iov st] have "f s1 = f st" by simp
  with Suc.prems Suc.IH wr show ?case by (auto split: wr_result.splits list.splits)
qed simp

text \<open>Only the stream of \<open>fd\<close> has changed: \<open>a\<close> is left of the incoming one, \<open>b\<close> added to the outgoing one.\<close>

definition moved_on where
  "moved_on inq outq fd a b s s' \<longleftrightarrow> inq fd s' = a \<and> outq fd s' = outq fd s @ b \<and> (\<forall>k. k \<noteq> fd \<longrightarrow> inq k s' = inq k s)"

lemma moved_on_trans:
  "moved_on inq outq fd a b s t \<Longrightarrow> moved_on inq outq fd a' b' t u \<Longrightarrow> moved_on inq outq fd a' (b @ b') s u"
  by (simp add: moved_on_def)

lemma probe_call:
  assumes "peers A inq outq" and "inq fd s = concat (tcp_frame m) @ rest"
  shows "\<exists>s'. fd_probe A fd True sz s = (8, of_nat (length m), None, s') \<and> moved_on inq outq fd (m @ rest) [] s s'"
proof -
  from fd_probe_stream [OF peersD(1) [OF assms(1)] assms(2), of sz] obtain s' where
    p: "fd_probe A fd True sz s = (8, of_nat (length m), None, s')" "inq fd s' = m @ rest" by auto
  from p(1) have "\<exists>r bs en. readn A fd 8 s = (r, bs, en, s')"
    by (auto simp: fd_probe_def Let_def split: prod.splits if_splits)
  then obtain r bs en where "readn A fd 8 s = (r, bs, en, s')" by blast
  from readn_keeps [of "outq fd", OF peersD(4) [OF assms(1)] this] have "outq fd s' = outq fd s" .
  with p fd_probe_only [OF peersD(3) [OF assms(1)] _ p(1)] show ?thesis by (simp add: moved_on_def)
qed

lemma receive_call:
  assumes "peers A inq outq" and "inq fd s = m @ rest" and "length m < 2 ^ 63"
  shows "\<exists>s'. fd_receive A fd (of_nat (length m)) s = (int (length m), m, None, s') \<and> moved_on inq outq fd rest [] s s'"
proof -
  have len: "length m < 2 ^ 64" using assms(3) by simp
  from fd_receive_stream [OF peersD(1) [OF assms(1)] assms(2) len] obtain s' where
    p: "fd_receive A fd (of_nat (length m)) s = (int (length m), m, None, s')" "inq fd s' = rest" by auto
  from readn_keeps [of "outq fd", OF peersD(4) [OF assms(1)] p(1) [unfolded fd_receive_def]]
  have "outq fd s' = outq fd s" .
  with p fd_receive_only [OF peersD(3) [OF assms(1)] _ p(1)] show ?thesis by (simp add: moved_on_def)
qed

lemma send_call:
  assumes "peers A inq outq" and "length m < 2 ^ 63"
  shows "\<exists>s'. fd_send A fd m s = Ret (int (length m), None, s')
    \<and> moved_on inq outq fd (inq fd s) (concat (tcp_frame m)) s s'"
proof -
  from fd_send_stream [OF peersD(2) [OF assms(1)] assms(2), of fd s] obtain s' where
    p: "fd_send A fd m s = Ret (int (length m), None, s')" "outq fd s' = outq fd s @ concat (tcp_frame m)" by auto
  from p(1) have "\<exists>c r en. writevn c A fd (tcp_frame m) s = Ret (r, en, s')"
    by (auto simp: fd_send_def bnd_Ret_conv split: if_splits)
  then obtain c r en where "writevn c A fd (tcp_frame m) s = Ret (r, en, s')" by blast
  from writevn_keeps [of "inq k" for k, OF peersD(5) [OF assms(1)] this] p show ?thesis by (simp add: moved_on_def)
qed

section \<open>A process with one connection\<close>

text \<open>The handle \<open>h\<close> on \<open>fd\<close> is open, \<open>n\<close> user handles refer to it; \<open>L\<close> are the other descriptors in the \<open>select\<close>
  set, none of them ready.\<close>

definition tcp_env :: "('o, 'a) tcp_sys_scheme \<Rightarrow> (('o, 'm) tcp_state_scheme, 'x) env \<Rightarrow> bool" where
  "tcp_env A e \<longleftrightarrow> vtab e = tcp_vtable A \<and> (\<exists>c. proto e ''TCP'' = tcp_conn c A ''TCP'')"

definition serving where
  "serving inq L fd h n w \<longleftrightarrow>
     protocols w = [''TCP''] \<and> contexts w = [] \<and> ctxs w h = None
   \<and> (\<exists>ob. heap w h = Some ob \<and> \<not> closed_rd ob \<and> \<not> closed_wr ob \<and> probed ob = (False, 0) \<and> counter ob = n)
   \<and> fd_inv (net w) \<and> fdset (net w) - {fd} = L \<and> fd_of (net w) h = fd \<and> 0 \<le> fd \<and> fd < FD_SETSIZE
   \<and> fd \<noteq> listen_sck (net w) \<and> smap_get (connections (net w)) fd = Some h \<and> readable inq L (os (net w)) = {}"

lemma servingE:
  assumes "serving inq L fd h n w"
  obtains ob where "heap w h = Some ob" and "\<not> closed_rd ob" and "\<not> closed_wr ob" and "probed ob = (False, 0)"
    and "counter ob = n"
  using assms by (auto simp: serving_def)

lemma servingD:
  assumes "serving inq L fd h n w"
  shows "protocols w = [''TCP'']" and "contexts w = []" and "ctxs w h = None" and "fd_inv (net w)"
    and "fd_of (net w) h = fd" and "0 \<le> fd" and "fd < FD_SETSIZE" and "fd \<noteq> listen_sck (net w)"
    and "smap_get (connections (net w)) fd = Some h" and "readable inq L (os (net w)) = {}"
    and "fdset (net w) - {fd} = L"
  using assms by (simp_all add: serving_def)

lemma more_tables_os [simp]:
  "protocols (set_os en s w) = protocols w" "contexts (set_os en s w) = contexts w"
  "protocols (put_obj h ob w) = protocols w" "contexts (put_obj h ob w) = contexts w"
  by (simp_all add: set_os_def with_net_def put_obj_def)

lemma serving_moved:
  assumes "serving inq L fd h n w" and "moved_on inq outq fd a b (os (net w)) s"
  shows "serving inq L fd h n (set_os None s w)"
proof -
  have "readable inq L s = readable inq L (os (net w))"
    using assms by (auto simp: readable_def moved_on_def serving_def)
  with assms(1) show ?thesis by (simp add: serving_def)
qed

lemma user_read:
  assumes "peers A inq outq" and "tcp_env A e" and "serving inq L fd h n w" and "realHandle u = Some h"
    and "isReadable u" and "inq fd (os (net w)) = concat (tcp_frame m) @ rest" and "m \<noteq> []" and "length m \<le> k" and "k < 2 ^ 63"
  shows "\<exists>w1 s. huser_probe (mgr_comm e) u sz True w = Ret (8, of_nat (length m), u\<lparr>newConnection := False\<rparr>, w1)
    \<and> huser_receive (mgr_comm e) (u\<lparr>newConnection := False\<rparr>) (of_nat k) w1 =
        Ret (int (length m), m, u\<lparr>newConnection := False\<rparr>, set_os None s w)
    \<and> (\<exists>ob. heap w1 h = Some ob \<and> probed ob = (True, of_nat (length m)) \<and> \<not> closed_rd ob)
    \<and> moved_on inq outq fd rest [] (os (net w)) s"
proof -
  from servingE [OF assms(3)] obtain ob where ob: "heap w h = Some ob" "\<not> closed_rd ob" "probed ob = (False, 0)"
    by blast
  note d = servingD [OF assms(3)]
  have len: "length m < 2 ^ 63" using assms(8,9) by simp
  have room: "\<not> (of_nat k :: u64) < of_nat (length m)"
    using assms(8,9) len by (simp add: word_less_nat_alt unat_of_nat_u64)
  from probe_call [OF assms(1,6), of sz] obtain s1 where
    s1: "fd_probe A fd True sz (os (net w)) = (8, of_nat (length m), None, s1)"
    and m1: "moved_on inq outq fd (m @ rest) [] (os (net w)) s1" by blast
  let ?ob = "ob\<lparr>probed := (True, of_nat (length m))\<rparr>" and ?u = "u\<lparr>newConnection := False\<rparr>"
  let ?w1 = "put_obj h ?ob (set_os None s1 w)"
  have nz: "(of_nat (length m) :: u64) \<noteq> 0" using assms(7) len by (subst of_nat_u64_eq_0) auto
  have p: "huser_probe (mgr_comm e) u sz True w = Ret (8, of_nat (length m), ?u, ?w1)"
    using s1 nz assms(2,4,5) ob d(3,5)
    by (simp add: tcp_env_def huser_probe_def mgr_comm_def mtcl_comm_def handle_comm_def tcp_vtable_def
        tcp_probe_def obj_Some upd_obj_Some Let_def)
  from m1 have "inq fd s1 = m @ rest" by (simp add: moved_on_def)
  from receive_call [OF assms(1) this len] obtain s2 where
    s2: "fd_receive A fd (of_nat (length m)) s1 = (int (length m), m, None, s2)"
    and m2: "moved_on inq outq fd rest [] s1 s2" by blast
  have restored: "set_os None s2 (put_obj h (?ob\<lparr>probed := (False, 0)\<rparr>) ?w1) = set_os None s2 w"
    using ob by (simp add: put_set_os set_os_heap_id)
  have "heap ?w1 h = Some ?ob" "realHandle ?u = Some h" "isReadable ?u" "\<not> closed_rd ?ob"
    "probed ?ob = (True, of_nat (length m))" using ob assms(4,5) by simp_all
  note pending = HandleUser.receive_pending [OF this(2,1,5,3,4), of "mgr_comm e" "of_nat k"]
  have r: "huser_receive (mgr_comm e) ?u (of_nat k) ?w1 = Ret (int (length m), m, ?u, set_os None s2 w)"
    using s2 room assms(2) ob(1) d(3,5) pending restored
    by (simp add: tcp_env_def mgr_comm_def mtcl_comm_def handle_comm_def tcp_vtable_def tcp_receive_def
        obj_Some put_obj_def Let_def)
  have "\<exists>ob. heap ?w1 h = Some ob \<and> probed ob = (True, of_nat (length m)) \<and> \<not> closed_rd ob" using ob(2) by simp
  with p r moved_on_trans [OF m1 m2] show ?thesis by (intro exI [of _ ?w1] exI [of _ s2]) simp
qed

lemma user_write:
  assumes "peers A inq outq" and "tcp_env A e" and "serving inq L fd h n w" and "realHandle u = Some h"
    and "length m < 2 ^ 63"
  shows "\<exists>s. huser_send (mgr_comm e) u m w = Ret (int (length m), u\<lparr>newConnection := False\<rparr>, set_os None s w)
    \<and> moved_on inq outq fd (inq fd (os (net w))) (concat (tcp_frame m)) (os (net w)) s"
proof -
  from servingE [OF assms(3)] obtain ob where ob: "heap w h = Some ob" "\<not> closed_wr ob" by blast
  from send_call [OF assms(1,5), of fd "os (net w)"] obtain s where
    s: "fd_send A fd m (os (net w)) = Ret (int (length m), None, s)"
    and m: "moved_on inq outq fd (inq fd (os (net w))) (concat (tcp_frame m)) (os (net w)) s" by blast
  have "huser_send (mgr_comm e) u m w = Ret (int (length m), u\<lparr>newConnection := False\<rparr>, set_os None s w)"
    using s assms(2,4) ob servingD(3,5) [OF assms(3)]
    by (simp add: tcp_env_def huser_send_def mgr_comm_def mtcl_comm_def handle_comm_def tcp_vtable_def
        tcp_send_def obj_Some Let_def)
  with m show ?thesis by blast
qed

text \<open>\<open>yield\<close> puts the descriptor into the \<open>select\<close> set.\<close>

lemma user_yields:
  assumes "tcp_env A e" and "serving inq L fd h n w" and "realHandle u = Some h"
  shows "\<exists>w'. huser_yield (mgr_comm e) u w = Ret (u\<lparr>isReadable := False, newConnection := False\<rparr>, w')
    \<and> serving inq L fd h n w' \<and> fd \<in> fdset (net w') \<and> os (net w') = os (net w) \<and> handleReady w' = handleReady w"
proof -
  from servingE [OF assms(2)] obtain ob where ob: "heap w h = Some ob" "\<not> closed_rd ob" "\<not> closed_wr ob"
    "probed ob = (False, 0)" "counter ob = n" by blast
  note d = servingD [OF assms(2)]
  let ?t = "(net w)\<lparr>fdset := insert fd (fdset (net w)), fdmax := (if fdmax (net w) < fd then fd else fdmax (net w))\<rparr>"
  have "huser_yield (mgr_comm e) u w = Ret (u\<lparr>isReadable := False, newConnection := False\<rparr>, w\<lparr>net := ?t\<rparr>)"
    using assms(1,3) ob d(3,5,6,7)
    by (simp add: tcp_env_def huser_yield_def mgr_comm_def mtcl_comm_def handle_comm_def
        handle_yield_def obj_Some tcp_vtable_def tcp_notify_yield_def isClosed_def FD_SET_def with_net_def Let_def)
  moreover have "fd_inv ?t" using d(4,6,7) by (auto simp: fd_inv_def)
  ultimately show ?thesis
    using ob d by (intro exI [of _ "w\<lparr>net := ?t\<rparr>"]) (auto simp: serving_def)
qed

text \<open>The destructor puts the descriptor back into the \<open>select\<close> set.\<close>

lemma user_drop:
  assumes "tcp_env A e" and "serving inq L fd h n w" and "realHandle u = Some h" and "isReadable u"
  shows "\<exists>w'. huser_destroy (mgr_comm e) u w = Ret w' \<and> serving inq L fd h (n - 1) w'
    \<and> fd \<in> fdset (net w') \<and> os (net w') = os (net w) \<and> handleReady w' = handleReady w"
proof -
  from servingE [OF assms(2)] obtain ob where ob: "heap w h = Some ob" "\<not> closed_rd ob" "\<not> closed_wr ob"
    "probed ob = (False, 0)" "counter ob = n" by blast
  note d = servingD [OF assms(2)]
  let ?ob = "ob\<lparr>counter := counter ob - 1\<rparr>"
  let ?t = "(net w)\<lparr>fdset := insert fd (fdset (net w)), fdmax := (if fdmax (net w) < fd then fd else fdmax (net w))\<rparr>"
  have "huser_destroy (mgr_comm e) u w = Ret (put_obj h ?ob (w\<lparr>net := ?t\<rparr>))"
    using assms(1,3,4) ob d(3,5,6,7)
    by (simp add: tcp_env_def huser_destroy_def huser_yield_def mgr_comm_def mtcl_comm_def handle_comm_def
        handle_yield_def obj_Some tcp_vtable_def tcp_notify_yield_def isClosed_def FD_SET_def with_net_def
        Let_def decrementReferenceCounter_def upd_obj_def put_obj_def)
  moreover have "fd_inv ?t" using d(4,6,7) by (auto simp: fd_inv_def)
  ultimately show ?thesis
    using ob d by (intro exI [of _ "put_obj h ?ob (w\<lparr>net := ?t\<rparr>)"]) (auto simp: serving_def put_obj_def)
qed

text \<open>A round of the IO thread queues the handle when bytes have arrived.\<close>

lemma clear_fd_tables:
  assumes "clear_fd fd w = Ret w'"
  shows "heap w' = heap w" and "world.more w' = world.more w"
  using assms by (auto simp: clear_fd_def FD_CLR_def with_net_def Let_def split: if_splits)

lemma same_tables:
  assumes "world.more w' = world.more w"
  shows "protocols w' = protocols w" and "contexts w' = contexts w" and "ctxs w' = ctxs w"
    and "handleReady w' = handleReady w"
  using assms by (cases w; cases w'; simp)+

lemma poll_round:
  fixes w :: "(('o, 'm) tcp_state_scheme, 'x) mworld"
  assumes "peers A inq outq" and "tcp_env A e" and "serving inq L fd h n w" and "fd \<in> fdset (net w)"
    and "handleReady w = []" and "inq fd (os (net w)) \<noteq> []"
  shows "\<exists>w'. backend_round e w = Ret w' \<and> serving inq L fd h (n + 1) w' \<and> os (net w') = os (net w)
    \<and> handleReady w' = [\<lparr>realHandle = Some h, isReadable = True, newConnection = False\<rparr>]"
proof -
  from servingE [OF assms(3)] obtain ob where ob: "heap w h = Some ob" "\<not> closed_rd ob" "\<not> closed_wr ob"
    "probed ob = (False, 0)" "counter ob = n" by blast
  note d = servingD [OF assms(3)]
  let ?s = "os (net w)" and ?w0 = "with_net (\<lambda>t. t\<lparr>os := os (net w), tmpset := {fd}\<rparr>) w"
  have R: "readable inq (fdset (net w)) ?s = {fd}" using d(10,11) assms(4,6) by (auto simp: readable_def)
  have sel: "sk_select A (fdmax (net w) + 1) (fdset (net w)) ?s = (((int (card {fd}), None), {fd}), ?s)"
    using peersD(6) [OF assms(1), of "fdmax (net w) + 1" "fdset (net w)" ?s] unfolding R .
  have ne: "fdset (net w) \<noteq> {}" "{fd} \<subseteq> fdset (net w)" "listen_sck (net w) \<notin> {fd}"
    using assms(4) d(8) by auto
  have up: "tcp_update A ''TCP'' (addinQ (tcp_vtable A)) w = deliver (addinQ (tcp_vtable A)) [fd] ?w0"
    using tcp_update_deliver [OF addinQ_keeps_tables d(4) ne sel, of "''TCP''"] by simp
  from clear_fd_Ret [OF d(6,7)] obtain w1 where c: "clear_fd fd ?w0 = Ret w1" by blast
  note keep = clear_fd_tables [OF c] clear_fd_effect [OF c]
  have inv: "fd_inv (net w1)" using clear_fd_inv [OF c] d(4) by simp
  have ob1: "heap w1 h = Some ob" using keep(1) ob(1) by simp
  let ?w2 = "put_obj h (ob\<lparr>counter := counter ob + 1\<rparr>) w1\<lparr>handleReady := handleReady w1 @
      [\<lparr>realHandle = Some h, isReadable = True, newConnection = False\<rparr>]\<rparr>"
  have "deliver (addinQ (tcp_vtable A)) [fd] ?w0 = Ret ?w2"
    using c keep(3) d(9) by (simp add: addinQ_def push_ready_live [OF ob1])
  with up have u: "tcp_update A ''TCP'' (addinQ (tcp_vtable A)) w = Ret ?w2" by simp
  have more: "world.more w1 = world.more w" using keep(2) by (simp add: with_net_def)
  note tables = same_tables [OF more]
  have "backend_round e w = Ret (sleep_us IO_THREAD_POLL_TIMEOUT ?w2)"
    using assms(2) u d(1,2) tables
    by (auto simp: backend_round_def tcp_env_def tcp_conn_def Let_def sleep_us_def)
  moreover have "serving inq L fd h (n + 1) (sleep_us IO_THREAD_POLL_TIMEOUT ?w2)"
    using d keep inv ob tables by (auto simp: serving_def sleep_us_def put_obj_def)
  ultimately show ?thesis
    using keep tables(4) assms(5)
    by (intro exI [of _ "sleep_us IO_THREAD_POLL_TIMEOUT ?w2"]) (simp add: sleep_us_def put_obj_def)
qed

lemma wait_polled:
  fixes w :: "(('o, 'm) tcp_state_scheme, 'x) mworld"
  assumes "peers A inq outq" and "tcp_env A e" and "serving inq L fd h n w" and "fd \<in> fdset (net w)"
    and "handleReady w = []" and "inq fd (os (net w)) \<noteq> []" and "2 \<le> k"
  shows "\<exists>w'. wait_next k e w = Ret (\<lparr>realHandle = Some h, isReadable = True, newConnection = False\<rparr>, w')
    \<and> serving inq L fd h (n + 1) w' \<and> os (net w') = os (net w) \<and> handleReady w' = []"
proof -
  from poll_round [OF assms(1-6)] obtain w' where
    r: "backend_round e w = Ret w'" and s: "serving inq L fd h (n + 1) w'" "os (net w') = os (net w)"
    and q: "handleReady w' = [\<lparr>realHandle = Some h, isReadable = True, newConnection = False\<rparr>]" by blast
  from assms(7) obtain j where k: "k = Suc (Suc j)" by (metis Suc_le_D numeral_2_eq_2 Suc_le_mono)
  have "wait_next k e w = Ret (\<lparr>realHandle = Some h, isReadable = True, newConnection = False\<rparr>, w'\<lparr>handleReady := []\<rparr>)"
    using r q assms(5) by (simp add: k getNext_def)
  moreover have "serving inq L fd h (n + 1) (w'\<lparr>handleReady := []\<rparr>)" using s(1) by (simp add: serving_def)
  ultimately show ?thesis using s(2) by (intro exI [of _ "w'\<lparr>handleReady := []\<rparr>"]) simp
qed

lemma next_polled:
  fixes w :: "(('o, 'm) tcp_state_scheme, 'x) mworld"
  assumes "peers A inq outq" and "tcp_env A e" and "serving inq L fd h n w" and "fd \<in> fdset (net w)"
    and "handleReady w = []" and "inq fd (os (net w)) \<noteq> []" and "1 \<le> k"
  shows "\<exists>w'. getNext_for k e w = Ret (\<lparr>realHandle = Some h, isReadable = True, newConnection = False\<rparr>, w')
    \<and> serving inq L fd h (n + 1) w' \<and> os (net w') = os (net w) \<and> handleReady w' = []"
proof -
  from poll_round [OF assms(1-6)] obtain w' where
    r: "backend_round e w = Ret w'" and s: "serving inq L fd h (n + 1) w'" "os (net w') = os (net w)"
    and q: "handleReady w' = [\<lparr>realHandle = Some h, isReadable = True, newConnection = False\<rparr>]" by blast
  from assms(7) obtain j where k: "k = Suc j" by (cases k) auto
  have "getNext_for j e w' = Ret (getNext w')" using q by (cases j) simp_all
  then have "getNext_for k e w = Ret (\<lparr>realHandle = Some h, isReadable = True, newConnection = False\<rparr>, w'\<lparr>handleReady := []\<rparr>)"
    using r q assms(5) by (simp add: k getNext_def)
  moreover have "serving inq L fd h (n + 1) (w'\<lparr>handleReady := []\<rparr>)" using s(1) by (simp add: serving_def)
  ultimately show ?thesis using s(2) by (intro exI [of _ "w'\<lparr>handleReady := []\<rparr>"]) simp
qed

text \<open>\<open>close\<close> ends the outgoing stream only; the destructor yields the handle, whose other side is still open.\<close>

definition wr_ended :: "('o, 'a) tcp_sys_scheme \<Rightarrow> int \<Rightarrow> 'o \<Rightarrow> 'o" where
  "wr_ended A fd s = sk_shutdown_wr A fd (eos_sent A fd s)"

definition half_closed :: "hid \<Rightarrow> int \<Rightarrow> ('n, 'x) world_scheme \<Rightarrow> bool" where
  "half_closed h n w \<longleftrightarrow> (\<exists>ob. heap w h = Some ob \<and> closed_wr ob \<and> \<not> closed_rd ob \<and> counter ob = n)"

lemma user_close_drop:
  fixes w :: "(('o, 'm) tcp_state_scheme, 'x) mworld"
  assumes "tcp_env A e" and "serving inq L fd h n w" and "realHandle u = Some h" and "isReadable u"
  shows "\<exists>w1 w2. huser_close (mgr_comm e) u w = Ret w1 \<and> huser_destroy (mgr_comm e) u w1 = Ret w2
    \<and> half_closed h (n - 1) w2 \<and> fd \<in> fdset (net w2) \<and> smap_get (connections (net w2)) fd = Some h
    \<and> os (net w2) = wr_ended A fd (os (net w))"
proof -
  from servingE [OF assms(2)] obtain ob where ob: "heap w h = Some ob" "\<not> closed_rd ob" "\<not> closed_wr ob"
    "counter ob = n" by blast
  note d = servingD [OF assms(2)]
  let ?s = "eos_sent A fd (os (net w))" and ?ob = "ob\<lparr>closed_wr := True\<rparr>"
  from sendEOS_call [OF ob(1), of A] d(5) obtain r en where
    eos: "tcp_sendEOS A h w = Ret (r, set_os en ?s w)" by blast
  let ?v = "put_obj h ?ob (set_os en ?s w)"
  let ?w1 = "os_call (sk_shutdown_wr A fd) ?v"
  have "tcp_notify_close A h True False ?v = Ret ?w1"
    by (rule shut_writing [of _ _ _ ?ob]) (use d(5,6,9) in auto)
  with assms(1,3) ob eos d(3) have cl: "huser_close (mgr_comm e) u w = Ret ?w1"
    by (simp add: tcp_env_def huser_close_def mgr_comm_def mtcl_comm_def handle_comm_def tcp_vtable_def
        handle_close_def obj_Some upd_obj_Some Let_def)
  let ?t = "(net ?w1)\<lparr>fdset := insert fd (fdset (net ?w1)),
    fdmax := (if fdmax (net ?w1) < fd then fd else fdmax (net ?w1))\<rparr>"
  let ?w2 = "put_obj h (?ob\<lparr>counter := counter ob - 1\<rparr>) (?w1\<lparr>net := ?t\<rparr>)"
  have w1: "heap ?w1 h = Some ?ob" "ctxs ?w1 h = None" "fd_of (net ?w1) h = fd"
    using d(3,5) by (simp_all add: os_call_def with_net_def)
  have "huser_destroy (mgr_comm e) u ?w1 = Ret ?w2"
    using assms(1,3,4) ob(2) w1 d(6,7)
    by (simp add: tcp_env_def huser_destroy_def huser_yield_def mgr_comm_def mtcl_comm_def handle_comm_def
        handle_yield_def obj_Some tcp_vtable_def tcp_notify_yield_def isClosed_def FD_SET_def with_net_def
        Let_def decrementReferenceCounter_def upd_obj_def put_obj_def)
  with cl ob d(9) show ?thesis
    by (intro exI [of _ ?w1] exI [of _ ?w2]) (simp add: half_closed_def wr_ended_def os_call_def)
qed

lemma frame_nonempty: "concat (tcp_frame m) \<noteq> []"
  using frame_length [of m] by (metis add_is_0 list.size(3) zero_neq_numeral)

section \<open>Loops over messages\<close>

lemma wire_concat: "wire ms = concat (map (\<lambda>bs. concat (tcp_frame bs)) ms)"
  by (induction ms) simp_all

text \<open>A direct \<open>receive\<close> of a message that fits.\<close>

lemma user_take:
  assumes "peers A inq outq" and "tcp_env A e" and "serving inq L fd h n w" and "realHandle u = Some h"
    and "isReadable u" and "inq fd (os (net w)) = concat (tcp_frame m) @ rest" and "m \<noteq> []" and "length m \<le> k"
    and "k < 2 ^ 63"
  shows "\<exists>s. huser_receive (mgr_comm e) u (of_nat k) w =
      Ret (int (length m), m, u\<lparr>newConnection := False\<rparr>, set_os None s w)
    \<and> moved_on inq outq fd rest [] (os (net w)) s"
proof -
  from servingE [OF assms(3)] obtain ob where ob: "heap w h = Some ob" "\<not> fst (probed ob)" by (metis fst_conv)
  let ?u = "u\<lparr>newConnection := False\<rparr>"
  from user_read [OF assms, of 0] obtain w1 s ob1 where
    p: "huser_probe (mgr_comm e) u 0 True w = Ret (8, of_nat (length m), ?u, w1)"
    and r: "huser_receive (mgr_comm e) ?u (of_nat k) w1 = Ret (int (length m), m, ?u, set_os None s w)"
    and m: "moved_on inq outq fd rest [] (os (net w)) s"
    and ob1: "heap w1 h = Some ob1" "probed ob1 = (True, of_nat (length m))" "\<not> closed_rd ob1" by blast
  have "huser_receive (mgr_comm e) u (of_nat k) w = huser_receive (mgr_comm e) ?u (of_nat k) w1"
    by (rule receive_unprobed [OF assms(4) ob p]) (use assms(4,5) ob1 in simp_all)
  with r m show ?thesis by auto
qed

text \<open>The end of the stream: the reading side is closed, and a \<open>close\<close> after it tears the connection down.\<close>

lemma notify_close_tables: "tcp_notify_close A h cw cr w = Ret w' \<Longrightarrow> world.more w' = world.more w"
  by (auto simp: tcp_notify_close_def shut_wr_def shut_rd_def os_call_def with_net_def Let_def bnd_Ret_conv
      dest: clear_fd_tables split: if_splits)

lemma ctxs_more: "world.more w' = world.more w \<Longrightarrow> ctxs w' = ctxs w"
  by (cases w; cases w') simp

lemma user_eos:
  fixes w :: "(('o, 'm) tcp_state_scheme, 'x) mworld"
  assumes "peers A inq outq" and "tcp_env A e" and "serving inq L fd h n w" and "n \<noteq> 0" and "realHandle u = Some h"
    and "isReadable u" and "inq fd (os (net w)) = concat (tcp_frame []) @ rest"
  shows "\<exists>w' ob. huser_receive (mgr_comm e) u k w = Ret (0, [], u\<lparr>newConnection := False, isReadable := False\<rparr>, w')
    \<and> heap w' h = Some ob \<and> closed_rd ob \<and> \<not> closed_wr ob \<and> counter ob = n \<and> ctxs w' h = None
    \<and> fd_of (net w') h = fd"
proof -
  from servingE [OF assms(3)] obtain ob where ob: "heap w h = Some ob" "\<not> closed_rd ob" "\<not> closed_wr ob"
    "probed ob = (False, 0)" "counter ob = n" by blast
  note d = servingD [OF assms(3)]
  from probe_call [OF assms(1,7), of 0] obtain s where
    s: "fd_probe A fd True 0 (os (net w)) = (8, 0, None, s)" by auto
  let ?ob = "ob\<lparr>probed := (True, 0), closed_rd := True\<rparr>"
  let ?w1 = "put_obj h ?ob (set_os None s w)"
  from shut_reading [OF d(6,7), of ?w1 h ?ob A] d(5) obtain w2 where
    nc: "tcp_notify_close A h False True ?w1 = Ret w2" and w2: "heap w2 = heap ?w1" "fd_of (net w2) h = fd" by auto
  from ctxs_more [OF notify_close_tables [OF nc]] d(3) have cx: "ctxs w2 h = None" by (simp add: put_obj_def set_os_def with_net_def)
  have "handle_close (tcp_vtable A) h False True (put_obj h (ob\<lparr>probed := (True, 0)\<rparr>) (set_os None s w)) = Ret w2"
    using ob(2,3,5) nc w2(1) assms(4)
    by (simp add: handle_close_def obj_Some upd_obj_Some tcp_vtable_def)
  then have "huser_probe (mgr_comm e) u 0 True w = Ret (0, 0, u\<lparr>newConnection := False, isReadable := False\<rparr>, w2)"
    using s assms(2,5,6) ob d(3,5)
    by (simp add: tcp_env_def huser_probe_def mgr_comm_def mtcl_comm_def handle_comm_def tcp_vtable_def
        tcp_probe_def obj_Some upd_obj_Some Let_def)
  then have "huser_receive (mgr_comm e) u k w = Ret (0, [], u\<lparr>newConnection := False, isReadable := False\<rparr>, w2)"
    using assms(5) ob(1,4) by (simp add: huser_receive_def obj_Some)
  with w2 cx ob(3,5) show ?thesis by (intro exI [of _ w2] exI [of _ ?ob]) simp
qed

lemma user_close_half:
  fixes w :: "(('o, 'm) tcp_state_scheme, 'x) mworld"
  assumes "tcp_env A e" and "realHandle u = Some h" and "\<not> isReadable u" and "heap w h = Some ob" and "closed_rd ob"
    and "\<not> closed_wr ob" and "counter ob = n" and "1 < n" and "ctxs w h = None" and "fd_of (net w) h = fd" and "0 \<le> fd"
    and "fd < FD_SETSIZE"
  shows "\<exists>w1 w2 ob'. huser_close (mgr_comm e) u w = Ret w1 \<and> huser_destroy (mgr_comm e) u w1 = Ret w2
    \<and> heap w2 h = Some ob' \<and> closed_rd ob' \<and> closed_wr ob' \<and> counter ob' = n - 1 \<and> fd_of (net w2) h = -1
    \<and> fd \<notin> fdset (net w2)"
proof -
  let ?s = "eos_sent A fd (os (net w))" and ?ob = "ob\<lparr>closed_wr := True\<rparr>"
  from sendEOS_call [OF assms(4), of A] assms(10) obtain r en where
    eos: "tcp_sendEOS A h w = Ret (r, set_os en ?s w)" by blast
  let ?v = "put_obj h ?ob (set_os en ?s w)"
  from shut_both [OF assms(11,12), of ?v h ?ob A] assms(10) obtain w1 where
    nc: "tcp_notify_close A h True True ?v = Ret w1"
    and w1: "heap w1 = heap ?v" "fd_of (net w1) h = -1" "fd \<notin> fdset (net w1)" by auto
  have cl: "huser_close (mgr_comm e) u w = Ret w1"
    using assms(1,2,4-9) eos nc w1(1)
    by (simp add: tcp_env_def huser_close_def mgr_comm_def mtcl_comm_def handle_comm_def tcp_vtable_def
        handle_close_def obj_Some upd_obj_Some Let_def)
  let ?w2 = "put_obj h (?ob\<lparr>counter := n - 1\<rparr>) w1"
  have "huser_destroy (mgr_comm e) u w1 = Ret ?w2"
    using assms(2,3,7,8) w1(1)
    by (simp add: huser_destroy_def decrementReferenceCounter_def obj_Some upd_obj_Some)
  with cl w1 assms(5) show ?thesis by (intro exI [of _ w1] exI [of _ ?w2]) (simp add: put_obj_def)
qed

text \<open>Every message of a stream is one that the loop, whose variables change on the way, takes.\<close>

fun stream_ok :: "('c \<Rightarrow> byte list \<Rightarrow> bool) \<Rightarrow> ('c \<Rightarrow> byte list \<Rightarrow> 'c) \<Rightarrow> 'c \<Rightarrow> byte list list \<Rightarrow> bool" where
  "stream_ok ok nxt c [] \<longleftrightarrow> True"
| "stream_ok ok nxt c (m # ms) \<longleftrightarrow> ok c m \<and> stream_ok ok nxt (nxt c m) ms"

lemma stream_ok_const: "stream_ok (\<lambda>c. P) nxt c ms \<longleftrightarrow> (\<forall>m \<in> set ms. P m)"
  by (induction ms arbitrary: c) simp_all

text \<open>
  The contract of a loop that serves one message in every iteration: on a message that is \<open>ok\<close>, the body
  takes it, writes \<open>reply m\<close> and leaves the connection as it was; \<open>nxt\<close> is what it does to the variables of the
  loop. \<open>serves_all\<close> is what the loop makes of a stream of messages.
\<close>

locale message_loop =
  fixes run :: "(('o, 'm) tcp_state_scheme, 'x) env \<Rightarrow> nat \<Rightarrow> 'c \<Rightarrow> (('o, 'm) tcp_state_scheme, 'x) mworld \<Rightarrow> 'r out"
    and ok :: "'c \<Rightarrow> byte list \<Rightarrow> bool" and nxt :: "'c \<Rightarrow> byte list \<Rightarrow> 'c" and reply :: "byte list \<Rightarrow> byte list"
    and A :: "('o, 'a) tcp_sys_scheme"
  assumes serves_one: "peers A inq outq \<Longrightarrow> tcp_env A e \<Longrightarrow> 2 \<le> bound e \<Longrightarrow> serving inq L fd h k w \<Longrightarrow> fd \<in> fdset (net w) \<Longrightarrow> handleReady w = [] \<Longrightarrow> ok c m
    \<Longrightarrow> inq fd (os (net w)) = concat (tcp_frame m) @ rest
    \<Longrightarrow> \<exists>w'. run e (Suc n) c w = run e n (nxt c m) w' \<and> serving inq L fd h k w' \<and> fd \<in> fdset (net w')
          \<and> handleReady w' = [] \<and> moved_on inq outq fd rest (reply m) (os (net w)) (os (net w'))"
begin

lemma serves_all:
  assumes "peers A inq outq" and "tcp_env A e" and "2 \<le> bound e"
  shows "stream_ok ok nxt c ms \<Longrightarrow> serving inq L fd h k w \<Longrightarrow> fd \<in> fdset (net w) \<Longrightarrow> handleReady w = []
    \<Longrightarrow> inq fd (os (net w)) = wire ms @ rest
    \<Longrightarrow> \<exists>w'. run e (length ms + n) c w = run e n (foldl nxt c ms) w' \<and> serving inq L fd h k w'
          \<and> fd \<in> fdset (net w') \<and> handleReady w' = []
          \<and> moved_on inq outq fd rest (concat (map reply ms)) (os (net w)) (os (net w'))"
proof (induction ms arbitrary: c w)
  case Nil
  then show ?case by (intro exI [of _ w]) (simp add: moved_on_def)
next
  case (Cons m ms)
  have ok: "ok c m" "stream_ok ok nxt (nxt c m) ms" using Cons.prems(1) by simp_all
  have "inq fd (os (net w)) = concat (tcp_frame m) @ (wire ms @ rest)" using Cons.prems(5) by simp
  from serves_one [OF assms Cons.prems(2-4) ok(1) this, of "length ms + n"] obtain w1 where
    r1: "run e (Suc (length ms + n)) c w = run e (length ms + n) (nxt c m) w1"
    and s1: "serving inq L fd h k w1" "fd \<in> fdset (net w1)" "handleReady w1 = []"
    and m1: "moved_on inq outq fd (wire ms @ rest) (reply m) (os (net w)) (os (net w1))" by blast
  have "inq fd (os (net w1)) = wire ms @ rest" using m1 by (simp add: moved_on_def)
  from Cons.IH [OF ok(2) s1 this] obtain w2 where
    r2: "run e (length ms + n) (nxt c m) w1 = run e n (foldl nxt (nxt c m) ms) w2"
    and s2: "serving inq L fd h k w2" "fd \<in> fdset (net w2)" "handleReady w2 = []"
    and m2: "moved_on inq outq fd rest (concat (map reply ms)) (os (net w1)) (os (net w2))" by blast
  from r1 r2 s2 moved_on_trans [OF m1 m2] show ?case by (intro exI [of _ w2]) simp
qed

end

section \<open>A sample system\<close>

text \<open>A stream in each direction for every descriptor, and a process with two connections.\<close>

definition sel_sys :: "mos tcp_sys" where
  "sel_sys = multi_sys\<lparr>sk_select := (\<lambda>n S s.
     (((int (card (readable (\<lambda>fd s. fst s fd) S s)), None), readable (\<lambda>fd s. fst s fd) S s), s))\<rparr>"

lemma sel_peers: "peers sel_sys (\<lambda>fd s. fst s fd) (\<lambda>fd s. snd s fd)"
proof -
  have r: "reads_stream sel_sys = reads_stream multi_sys" "reads_only sel_sys = reads_only multi_sys"
    "writes_stream sel_sys = writes_stream multi_sys"
    by (simp_all add: fun_eq_iff reads_stream_def reads_only_def writes_stream_def sel_sys_def)
  show ?thesis
    unfolding peers_def r using multi_reads multi_writes(1) by (simp add: sel_sys_def multi_sys_def)
qed

lemma sel_writes_only: "writes_only sel_sys (\<lambda>fd s. snd s fd)"
  using multi_writes(2) by (simp add: writes_only_def sel_sys_def)

definition mw_env :: "(mos tcp_state, unit) env" where
  "mw_env = \<lparr>vtab = tcp_vtable sel_sys, proto = tcp_conn 5 sel_sys, bound = 2, junk = []\<rparr>"

definition mw_world :: "(int \<Rightarrow> byte list) \<Rightarrow> (mos tcp_state) mgr" where
  "mw_world inp = \<lparr>heap = [7 \<mapsto> new_handle ''TCP'', 8 \<mapsto> new_handle ''TCP''], errno = OK_errno, next_hid = 9,
     net = \<lparr>fd_of = (\<lambda>h. int h - 4), connections = [(3, 7), (4, 8)], fdset = {3}, tmpset = {}, listen_sck = 5,
       fdmax = 3, tcp_address = [], tcp_port = 0, os = (inp, \<lambda>_. [])\<rparr>,
     ctxs = (\<lambda>_. None), protocols = [''TCP''], handleReady = [], groupsReady = [], contexts = [],
     listening_endps = {}, createdTeams = {}, appName = ''client'', poolName = [], cfg = config_empty, stopped = False,
     mtcl_verbose = -1, initialized = True, slept = 0\<rparr>"

definition mw_users :: "huser list" where
  "mw_users = map (\<lambda>h. \<lparr>realHandle = Some h, isReadable = True, newConnection = True\<rparr>) [7, 8]"

lemma sel_ready:
  "tcp_env sel_sys mw_env" "2 \<le> bound mw_env" "serving (\<lambda>fd s. fst s fd) {} 3 7 0 (mw_world inp)"
  "3 \<in> fdset (net (mw_world inp))" "handleReady (mw_world inp) = []"
  by (auto simp: tcp_env_def mw_env_def mw_world_def new_handle_def serving_def readable_def fd_inv_def
      FD_SETSIZE_def smap_get_def)

end
