(* ===== verification/MasterWorker.thy ===== *)
theory MasterWorker
  imports Serving
begin

text \<open>
  Two programs on top of the library, \<open>examples/master-worker/master.cpp\<close> and \<open>worker.cpp\<close>, in the build
  without \<open>EXPLICIT_MSG_SIZE\<close> and without configuration file: the master deals messages to its workers in
  turn, a worker acknowledges each with its first byte until it gets \<open>EOS\<close>.
  \<^item> The lines of \<open>workers.list\<close> are an argument; \<open>rnd\<close> is \<open>rand()\<close> with its state. What is printed is not
    modelled, so a message about a failed call leaves no trace.
  \<^item> The two threads of the master share the handles, one sends and the other receives: \<open>deal_all\<close> is
    the body of the sending thread, \<open>collect_acks\<close> the loop of the other.
\<close>

section \<open>Messages\<close>

definition NMSGS :: nat where
  "NMSGS = 50"

definition maxpayload :: nat where
  "maxpayload = 100"

definition EOS :: string where
  "EOS = ''EOS''"

definition charset :: string where
  "charset = ''0123456789abcdefghijklmnopqrstuvwxyz''"

text \<open>\<open>std::generate_n\<close> with \<open>randchar\<close>.\<close>

fun randchars :: "('r \<Rightarrow> nat \<times> 'r) \<Rightarrow> nat \<Rightarrow> 'r \<Rightarrow> string \<times> 'r" where
  "randchars rnd 0 s = ([], s)"
| "randchars rnd (Suc n) s =
     (let (k, s) = rnd s; (str, s) = randchars rnd n s in (charset ! (k mod length charset) # str, s))"

definition random_string :: "('r \<Rightarrow> nat \<times> 'r) \<Rightarrow> nat \<Rightarrow> 'r \<Rightarrow> (string \<times> 'r) out" where
  "random_string rnd length1 s = (if maxpayload < length1 then Fault Aborted else Ret (randchars rnd length1 s))"

section \<open>The master\<close>

text \<open>The attempts to connect to one worker: \<open>for(int i=0;i<5;++i)\<close>.\<close>

primrec connect_worker ::
  "nat \<Rightarrow> ('n, 'x) env \<Rightarrow> string \<Rightarrow> huser list \<Rightarrow> ('n, 'x) mworld \<Rightarrow> (huser list \<times> ('n, 'x) mworld) out" where
  "connect_worker 0 e c us w = Ret (us, w)"
| "connect_worker (Suc n) e c us w =
     bnd (mgr_connect e c (-1) 0 w) (\<lambda>(h, w).
     if \<not> huser_isValid h then connect_worker n e c us (sleep_us 500000 w)
     else
       let (u, h) = huser_move h
       in bnd (huser_setName u (''worker'' @ to_string (int (length us))) w) (\<lambda>w. Ret (us @ [u], w)))"

fun connect_workers ::
  "('n, 'x) env \<Rightarrow> string list \<Rightarrow> huser list \<Rightarrow> ('n, 'x) mworld \<Rightarrow> (huser list \<times> ('n, 'x) mworld) out" where
  "connect_workers e [] us w = Ret (us, w)"
| "connect_workers e (c # cs) us w =
     bnd (connect_worker 5 e c us w) (\<lambda>(us, w). connect_workers e cs us w)"

text \<open>\<open>main\<close> up to the start of the sending thread; \<open>None\<close> when there is no worker and the program ends.\<close>

definition master_start ::
  "('n, 'x) env \<Rightarrow> string option \<Rightarrow> string list \<Rightarrow> ('n, 'x) mworld \<Rightarrow> (huser list option \<times> ('n, 'x) mworld) out" where
  "master_start e level input w =
     bnd (mgr_init_plain e level ''master'' w) (\<lambda>(_, w).
     bnd (connect_workers e (filter (\<lambda>line. line \<noteq> []) input) [] w) (\<lambda>(us, w).
     if us = [] then bnd (mgr_finalize e False w) (\<lambda>w. Ret (None, w)) else Ret (Some us, w)))"

text \<open>The sending thread: the loop over the messages, \<open>n\<close> of them left at \<open>i\<close>, and the loop that sends \<open>EOS\<close>.\<close>

fun deal ::
  "('n, 'x) env \<Rightarrow> ('r \<Rightarrow> nat \<times> 'r) \<Rightarrow> nat \<Rightarrow> nat \<Rightarrow> huser list \<Rightarrow> ('n, 'x) mworld \<Rightarrow> 'r
     \<Rightarrow> (huser list \<times> ('n, 'x) mworld \<times> 'r) out" where
  "deal e rnd i 0 us w s = Ret (us, w, s)"
| "deal e rnd i (Suc n) us w s =
     (let (k, s) = rnd s; sz = k mod maxpayload + 1
      in bnd (random_string rnd sz s) (\<lambda>(str, s).
         bnd (huser_send (mgr_comm e) (us ! (i mod length us)) (bytes_of_string str) w) (\<lambda>(r, u, w).
         deal e rnd (i + 1) n (us[i mod length us := u]) w s)))"

fun send_eos ::
  "('n, 'x) env \<Rightarrow> nat \<Rightarrow> nat \<Rightarrow> huser list \<Rightarrow> ('n, 'x) mworld \<Rightarrow> (huser list \<times> ('n, 'x) mworld) out" where
  "send_eos e i 0 us w = Ret (us, w)"
| "send_eos e i (Suc n) us w =
     bnd (huser_send (mgr_comm e) (us ! i) (bytes_of_string EOS) w) (\<lambda>(r, u, w).
     bnd (if r = -1 then huser_close (mgr_comm e) u w else Ret w) (send_eos e (i + 1) n (us[i := u])))"

definition deal_all ::
  "('n, 'x) env \<Rightarrow> ('r \<Rightarrow> nat \<times> 'r) \<Rightarrow> huser list \<Rightarrow> ('n, 'x) mworld \<Rightarrow> 'r \<Rightarrow> (huser list \<times> ('n, 'x) mworld \<times> 'r) out" where
  "deal_all e rnd us w s =
     bnd (deal e rnd 0 NMSGS us w s) (\<lambda>(us, w, s).
     bnd (send_eos e 0 (length us) us w) (\<lambda>(us, w). Ret (us, w, s)))"

text \<open>The other thread: yielding every handle, and the loop \<open>while(workers>0)\<close>.\<close>

fun yield_all ::
  "('n, 'x) env \<Rightarrow> huser list \<Rightarrow> ('n, 'x) mworld \<Rightarrow> (huser list \<times> ('n, 'x) mworld) out" where
  "yield_all e [] w = Ret ([], w)"
| "yield_all e (u # us) w =
     bnd (huser_yield (mgr_comm e) u w) (\<lambda>(u, w). bnd (yield_all e us w) (\<lambda>(us, w). Ret (u # us, w)))"

text \<open>The body of the loop: whether it goes on, and the workers that are left.\<close>

definition ack_step ::
  "('n, 'x) env \<Rightarrow> huser \<Rightarrow> nat \<Rightarrow> ('n, 'x) mworld \<Rightarrow> (bool \<times> nat \<times> ('n, 'x) mworld) out" where
  "ack_step e h workers w =
     bnd (huser_receive (mgr_comm e) h 1 w) (\<lambda>(r, ack, h, w).
     bnd (if r = -1 then
            (if errno w = ECONNRESET then bnd (huser_close (mgr_comm e) h w) (\<lambda>w. Ret (True, workers - 1, w))
             else Ret (False, workers, w))
          else if r = 0 then bnd (huser_close (mgr_comm e) h w) (\<lambda>w. Ret (True, workers - 1, w))
          else Ret (True, workers, w)) (\<lambda>(go, workers, w).
     bnd (huser_destroy (mgr_comm e) h w) (\<lambda>w. Ret (go, workers, w))))"

primrec collect_acks ::
  "nat \<Rightarrow> ('n, 'x) env \<Rightarrow> nat \<Rightarrow> ('n, 'x) mworld \<Rightarrow> (nat \<times> ('n, 'x) mworld) out" where
  "collect_acks 0 e workers w = Fault No_return"
| "collect_acks (Suc n) e workers w =
     (if workers = 0 then Ret (workers, w)
      else bnd (wait_next (bound e) e w) (\<lambda>(h, w).
           bnd (ack_step e h workers w) (\<lambda>(go, workers, w).
           if go then collect_acks n e workers w else Ret (workers, w))))"

text \<open>After the loop: \<open>close\<close> on every handle, and when the other thread has ended, \<open>finalize\<close>; the vector is
  destroyed last.\<close>

fun close_users :: "('n, 'x) env \<Rightarrow> huser list \<Rightarrow> ('n, 'x) mworld \<Rightarrow> ('n, 'x) mworld out" where
  "close_users e [] w = Ret w"
| "close_users e (u # us) w = bnd (huser_close (mgr_comm e) u w) (close_users e us)"

fun destroy_users :: "('n, 'x) env \<Rightarrow> huser list \<Rightarrow> ('n, 'x) mworld \<Rightarrow> ('n, 'x) mworld out" where
  "destroy_users e [] w = Ret w"
| "destroy_users e (u # us) w = bnd (huser_destroy (mgr_comm e) u w) (destroy_users e us)"

definition master_end :: "('n, 'x) env \<Rightarrow> huser list \<Rightarrow> ('n, 'x) mworld \<Rightarrow> ('n, 'x) mworld out" where
  "master_end e us w =
     bnd (close_users e us w) (\<lambda>w. bnd (mgr_finalize e False w) (destroy_users e us))"

section \<open>The worker\<close>

text \<open>The loop over the lines: the first endpoint on which it can listen; \<open>myid\<close> counts those before it.\<close>

fun listen_first ::
  "('n, 'x) env \<Rightarrow> string list \<Rightarrow> nat \<Rightarrow> ('n, 'x) mworld \<Rightarrow> (nat \<times> ('n, 'x) mworld) out" where
  "listen_first e [] myid w = Ret (myid, w)"
| "listen_first e (line # ls) myid w =
     (if line = [] then listen_first e ls myid w
      else bnd (mgr_listen e line w) (\<lambda>(r, w).
           if r = 0 then Ret (myid, w) else listen_first e ls (myid + 1) w))"

text \<open>One message on the handle: whether the loop goes on, the count, and the handle. \<open>size0\<close> is the content of the
  uninitialised \<open>size\<close>.\<close>

definition worker_message ::
  "('n, 'x) env \<Rightarrow> u64 \<Rightarrow> huser \<Rightarrow> nat \<Rightarrow> ('n, 'x) mworld \<Rightarrow> (bool \<times> nat \<times> huser \<times> ('n, 'x) mworld) out" where
  "worker_message e size0 h nmsgs w =
     bnd (huser_probe (mgr_comm e) h size0 True w) (\<lambda>(r, size1, h, w).
     let give_up = (\<lambda>h w. bnd (huser_close (mgr_comm e) h w) (\<lambda>w. Ret (False, nmsgs, h, w)))
     in if r \<le> 0 then give_up h w
     else bnd (huser_receive (mgr_comm e) h size1 w) (\<lambda>(r, buff, h, w).
     if r = -1 \<or> r = 0 \<or> word_of_int r < size1 then give_up h w
     else if c_string buff = EOS then give_up h w
     else bnd (huser_send (mgr_comm e) h (take 1 buff) w) (\<lambda>(r, h, w).
          if r = -1 then bnd (huser_close (mgr_comm e) h w) (\<lambda>w. Ret (False, nmsgs + 1, h, w))
          else Ret (True, nmsgs + 1, h, w))))"

text \<open>The body of the loop, with the destructor of \<open>h\<close> on every way out.\<close>

definition worker_step ::
  "('n, 'x) env \<Rightarrow> u64 \<Rightarrow> huser \<Rightarrow> nat \<Rightarrow> ('n, 'x) mworld \<Rightarrow> (bool \<times> nat \<times> ('n, 'x) mworld) out" where
  "worker_step e size0 h nmsgs w =
     bnd (if huser_isNewConnection h then Ret (True, nmsgs, h, w) else worker_message e size0 h nmsgs w)
       (\<lambda>(go, nmsgs, h, w).
     bnd (huser_destroy (mgr_comm e) h w) (\<lambda>w. Ret (go, nmsgs, w)))"

primrec worker_loop ::
  "nat \<Rightarrow> ('n, 'x) env \<Rightarrow> u64 \<Rightarrow> nat \<Rightarrow> ('n, 'x) mworld \<Rightarrow> (nat \<times> ('n, 'x) mworld) out" where
  "worker_loop 0 e size0 nmsgs w = Fault No_return"
| "worker_loop (Suc n) e size0 nmsgs w =
     bnd (wait_next (bound e) e w) (\<lambda>(h, w).
     bnd (worker_step e size0 h nmsgs w) (\<lambda>(go, nmsgs, w).
     if go then worker_loop n e size0 nmsgs w else Ret (nmsgs, w)))"

definition worker_main ::
  "nat \<Rightarrow> ('n, 'x) env \<Rightarrow> u64 \<Rightarrow> string option \<Rightarrow> string list \<Rightarrow> ('n, 'x) mworld
     \<Rightarrow> (nat \<times> nat \<times> ('n, 'x) mworld) out" where
  "worker_main n e size0 level input w =
     bnd (mgr_init_plain e level ''client'' w) (\<lambda>(_, w).
     bnd (listen_first e input 0 w) (\<lambda>(myid, w).
     bnd (worker_loop n e size0 0 w) (\<lambda>(nmsgs, w).
     bnd (mgr_finalize e False w) (\<lambda>w. Ret (myid, nmsgs, w)))))"

end
