(* ===== verification/MasterWorkerProps.thy ===== *)
theory MasterWorkerProps
  imports MasterWorker
begin

text \<open>
  The master and its workers over TCP: what the master deals and what a worker makes of it.
\<close>

section \<open>The worker\<close>

lemma worker_step_message:
  fixes w :: "(('o, 'm) tcp_state_scheme, 'x) mworld"
  assumes "peers A inq outq" and "tcp_env A e" and "serving inq L fd h n w" and "realHandle u = Some h"
    and "isReadable u" and "\<not> newConnection u" and "inq fd (os (net w)) = concat (tcp_frame m) @ rest"
    and "m \<noteq> []" and "length m < 2 ^ 63" and "c_string m \<noteq> EOS"
  shows "\<exists>w'. worker_step e size0 u k w = Ret (True, k + 1, w') \<and> serving inq L fd h (n - 1) w'
    \<and> fd \<in> fdset (net w') \<and> handleReady w' = handleReady w
    \<and> moved_on inq outq fd rest (concat (tcp_frame (take 1 m))) (os (net w)) (os (net w'))"
proof -
  let ?u = "u\<lparr>newConnection := False\<rparr>"
  from user_read [OF assms(1-5,7,8) order_refl assms(9), of size0] obtain w1 s where
    p: "huser_probe (mgr_comm e) u size0 True w = Ret (8, of_nat (length m), ?u, w1)"
    and r: "huser_receive (mgr_comm e) ?u (of_nat (length m)) w1 = Ret (int (length m), m, ?u, set_os None s w)"
    and m1: "moved_on inq outq fd rest [] (os (net w)) s" by blast
  note sv = serving_moved [OF assms(3) m1]
  have short: "length (take 1 m) < 2 ^ 63" by simp
  have ru: "realHandle ?u = Some h" "isReadable ?u" using assms(4,5) by simp_all
  from user_write [OF assms(1,2) sv ru(1) short] obtain s2 where
    x: "huser_send (mgr_comm e) ?u (take 1 m) (set_os None s w) =
      Ret (int (length (take 1 m)), ?u\<lparr>newConnection := False\<rparr>, set_os None s2 (set_os None s w))"
    and m2: "moved_on inq outq fd (inq fd s) (concat (tcp_frame (take 1 m))) s s2" by auto
  have "moved_on inq outq fd (inq fd s) (concat (tcp_frame (take 1 m))) (os (net (set_os None s w))) s2"
    using m2 by simp
  note sv2 = serving_moved [OF sv this]
  from user_drop [OF assms(2) sv2 ru] obtain w' where
    dr: "huser_destroy (mgr_comm e) ?u (set_os None s2 (set_os None s w)) = Ret w'" "serving inq L fd h (n - 1) w'"
    "fd \<in> fdset (net w')" "os (net w') = s2" "handleReady w' = handleReady w" by auto
  have wd: "(word_of_int (int (length m)) :: u64) = of_nat (length m)" by simp
  have one: "int (length (take 1 m)) = 1" using assms(8) by (cases m) auto
  have ends: "inq fd s = rest" using m1 by (simp add: moved_on_def)
  have "worker_message e size0 u k w = Ret (True, k + 1, ?u, set_os None s2 (set_os None s w))"
    using p r x assms(8,10) one wd by (simp add: worker_message_def Let_def)
  with dr(1) assms(6) have "worker_step e size0 u k w = Ret (True, k + 1, w')"
    by (simp add: worker_step_def huser_isNewConnection_def)
  with dr(2-5) moved_on_trans [OF m1 m2] ends show ?thesis by auto
qed

lemma worker_step_eos:
  fixes w :: "(('o, 'm) tcp_state_scheme, 'x) mworld"
  assumes "peers A inq outq" and "tcp_env A e" and "serving inq L fd h 1 w" and "realHandle u = Some h"
    and "isReadable u" and "\<not> newConnection u" and "inq fd (os (net w)) = concat (tcp_frame m) @ rest"
    and "m \<noteq> []" and "length m < 2 ^ 63" and "c_string m = EOS"
  shows "\<exists>w' s. worker_step e size0 u k w = Ret (False, k, w') \<and> half_closed h 0 w'
    \<and> os (net w') = wr_ended A fd s \<and> moved_on inq outq fd rest [] (os (net w)) s"
proof -
  let ?u = "u\<lparr>newConnection := False\<rparr>"
  from user_read [OF assms(1-5,7,8) order_refl assms(9), of size0] obtain w1 s where
    p: "huser_probe (mgr_comm e) u size0 True w = Ret (8, of_nat (length m), ?u, w1)"
    and r: "huser_receive (mgr_comm e) ?u (of_nat (length m)) w1 = Ret (int (length m), m, ?u, set_os None s w)"
    and m1: "moved_on inq outq fd rest [] (os (net w)) s" by blast
  have ru: "realHandle ?u = Some h" "isReadable ?u" using assms(4,5) by simp_all
  from user_close_drop [OF assms(2) serving_moved [OF assms(3) m1] ru] obtain w2 w3 where
    c: "huser_close (mgr_comm e) ?u (set_os None s w) = Ret w2" "huser_destroy (mgr_comm e) ?u w2 = Ret w3"
    and w3: "half_closed h 0 w3" "os (net w3) = wr_ended A fd s" by auto
  have wd: "(word_of_int (int (length m)) :: u64) = of_nat (length m)" by simp
  have "worker_message e size0 u k w = Ret (False, k, ?u, w2)"
    using p r c assms(8,10) wd by (simp add: worker_message_def Let_def)
  with c(2) assms(6) have "worker_step e size0 u k w = Ret (False, k, w3)"
    by (simp add: worker_step_def huser_isNewConnection_def)
  with w3 m1 show ?thesis by blast
qed

text \<open>The whole loop, on a stream of messages that ends with \<open>EOS\<close>.\<close>

definition acks :: "byte list list \<Rightarrow> byte list" where
  "acks ms = concat (map (\<lambda>m. concat (tcp_frame (take 1 m))) ms)"

definition dealt_ok :: "byte list \<Rightarrow> bool" where
  "dealt_ok m \<longleftrightarrow> m \<noteq> [] \<and> length m < 2 ^ 63 \<and> c_string m \<noteq> EOS"

lemma c_string_EOS: "c_string (bytes_of_string EOS) = EOS" "bytes_of_string EOS \<noteq> []"
  by (rule c_string_bytes) (simp_all add: EOS_def bytes_of_string_def)

interpretation worker: message_loop "\<lambda>e n k w. worker_loop n e size0 k w" "\<lambda>k. dealt_ok" "\<lambda>k m. k + 1"
  "\<lambda>m. concat (tcp_frame (take 1 m))" A for size0 and A :: "('o, 'a) tcp_sys_scheme"
proof
  fix inq outq and e :: "(('o, 'b) tcp_state_scheme, 'c) env" and L fd h and j :: int
    and w :: "(('o, 'b) tcp_state_scheme, 'c) mworld" and k n :: nat and m rest
  assume env: "peers A inq outq" "tcp_env A e" "2 \<le> bound e"
    and w: "serving inq L fd h j w" "fd \<in> fdset (net w)" "handleReady w = []"
    and m: "dealt_ok m" "inq fd (os (net w)) = concat (tcp_frame m) @ rest"
  have ok: "m \<noteq> []" "length m < 2 ^ 63" "c_string m \<noteq> EOS" using m(1) by (simp_all add: dealt_ok_def)
  have ne: "inq fd (os (net w)) \<noteq> []" using m(2) frame_nonempty by simp
  from wait_polled [OF env(1,2) w ne env(3)] obtain w1 where
    wt: "wait_next (bound e) e w = Ret (huser_at h, w1)" and s1: "serving inq L fd h (j + 1) w1" "os (net w1) = os (net w)"
    "handleReady w1 = []" by auto
  have "inq fd (os (net w1)) = concat (tcp_frame m) @ rest" using m(2) s1(2) by simp
  from worker_step_message [OF env(1,2) s1(1) _ _ _ this ok, of "huser_at h" size0 k] wt s1
  show "\<exists>w'. worker_loop (Suc n) e size0 k w = worker_loop n e size0 (k + 1) w' \<and> serving inq L fd h j w'
      \<and> fd \<in> fdset (net w') \<and> handleReady w' = []
      \<and> moved_on inq outq fd rest (concat (tcp_frame (take 1 m))) (os (net w)) (os (net w'))"
    by fastforce
qed

lemma worker_loop_eos:
  fixes w :: "(('o, 'm) tcp_state_scheme, 'x) mworld"
  assumes "peers A inq outq" and "tcp_env A e" and "2 \<le> bound e" and "serving inq L fd h 0 w" and "fd \<in> fdset (net w)"
    and "handleReady w = []" and "inq fd (os (net w)) = concat (tcp_frame (bytes_of_string EOS)) @ rest"
  shows "\<exists>w' s. worker_loop (Suc n) e size0 k w = Ret (k, w') \<and> half_closed h 0 w'
     \<and> os (net w') = wr_ended A fd s \<and> moved_on inq outq fd rest [] (os (net w)) s"
proof -
  have ne: "inq fd (os (net w)) \<noteq> []" using assms(7) frame_nonempty by simp
  from wait_polled [OF assms(1,2,4-6) ne assms(3)] obtain w1 where
    wt: "wait_next (bound e) e w = Ret (huser_at h, w1)" and s1: "serving inq L fd h 1 w1" "os (net w1) = os (net w)"
    by auto
  have "inq fd (os (net w1)) = concat (tcp_frame (bytes_of_string EOS)) @ rest"
    using assms(7) s1(2) by simp
  from worker_step_eos [OF assms(1,2) s1(1) _ _ _ this c_string_EOS(2) _ c_string_EOS(1), of "huser_at h" size0 k]
  obtain w2 s where "worker_step e size0 (huser_at h) k w1 = Ret (False, k, w2)" "half_closed h 0 w2"
    "os (net w2) = wr_ended A fd s" "moved_on inq outq fd rest [] (os (net w1)) s"
    by (auto simp: EOS_def)
  with wt s1(2) show ?thesis by (intro exI [of _ w2] exI [of _ s]) simp
qed

lemma foldl_count: "foldl (\<lambda>k m. k + 1) k ms = k + length ms" for k :: nat
  by (induction ms arbitrary: k) simp_all

lemma worker_loop_stream:
  fixes w :: "(('o, 'm) tcp_state_scheme, 'x) mworld"
  assumes "peers A inq outq" and "tcp_env A e" and "2 \<le> bound e" and "\<forall>m \<in> set ms. dealt_ok m"
    and "serving inq L fd h 0 w" and "fd \<in> fdset (net w)" and "handleReady w = []" and "length ms < n"
    and "inq fd (os (net w)) = wire ms @ concat (tcp_frame (bytes_of_string EOS)) @ rest"
  shows "\<exists>w' s. worker_loop n e size0 k w = Ret (k + length ms, w') \<and> half_closed h 0 w'
       \<and> os (net w') = wr_ended A fd s \<and> moved_on inq outq fd rest (acks ms) (os (net w)) s"
proof -
  from assms(8) obtain j where n: "n = length ms + Suc j" by (metis less_iff_Suc_add add_Suc_right)
  have ok: "stream_ok (\<lambda>k. dealt_ok) (\<lambda>k m. k + 1) k ms" using assms(4) by (simp add: stream_ok_const)
  from worker.serves_all [OF assms(1-3) ok assms(5-7,9), of "Suc j" size0] obtain w1 where
    r: "worker_loop n e size0 k w = worker_loop (Suc j) e size0 (k + length ms) w1"
    and s1: "serving inq L fd h 0 w1" "fd \<in> fdset (net w1)" "handleReady w1 = []"
    and m1: "moved_on inq outq fd (concat (tcp_frame (bytes_of_string EOS)) @ rest) (acks ms) (os (net w)) (os (net w1))"
    unfolding n foldl_count acks_def by blast
  have "inq fd (os (net w1)) = concat (tcp_frame (bytes_of_string EOS)) @ rest" using m1 by (simp add: moved_on_def)
  from worker_loop_eos [OF assms(1-3) s1 this, of j size0 "k + length ms"] r show ?thesis
    using moved_on_trans [OF m1] by fastforce
qed

section \<open>The master\<close>

text \<open>The payloads that \<open>rand\<close> gives, and those of worker \<open>i\<close> of \<open>n\<close>.\<close>

fun payloads :: "('r \<Rightarrow> nat \<times> 'r) \<Rightarrow> nat \<Rightarrow> 'r \<Rightarrow> string list" where
  "payloads rnd 0 s = []"
| "payloads rnd (Suc n) s =
     (let (k, s) = rnd s; (str, s) = randchars rnd (k mod maxpayload + 1) s in str # payloads rnd n s)"

definition share :: "nat \<Rightarrow> nat \<Rightarrow> 'a list \<Rightarrow> 'a list" where
  "share n i ms = map fst (filter (\<lambda>(m, j). j mod n = i) (zip ms [0..<length ms]))"

lemma share_set: "set (share n i ms) \<subseteq> set ms"
  by (auto simp: share_def dest: set_zip_leftD)

lemma share_map: "share n i (map f ms) = map f (share n i ms)"
  unfolding share_def zip_map1 filter_map length_map by (simp add: comp_def case_prod_unfold)

lemma share_length: "length (share n i ms) \<le> length ms"
proof -
  have "length (share n i ms) \<le> length (zip ms [0..<length ms])"
    unfolding share_def length_map by (rule length_filter_le)
  then show ?thesis by simp
qed

lemma payloads_length [simp]: "length (payloads rnd n s) = n"
  by (induction n arbitrary: s) (simp_all add: split_beta Let_def)

lemma randchars_ok: "randchars rnd n s = (str, s') \<Longrightarrow> length str = n \<and> set str \<subseteq> set charset"
proof (induction n arbitrary: s str s')
  case (Suc n)
  obtain k s1 where k: "rnd s = (k, s1)" by fastforce
  obtain t s2 where t: "randchars rnd n s1 = (t, s2)" by fastforce
  have "charset ! (k mod length charset) \<in> set charset" by (rule nth_mem) (simp add: charset_def)
  moreover have "str = charset ! (k mod length charset) # t" using Suc.prems k t by simp
  moreover note Suc.IH [OF t]
  ultimately show ?case by simp
qed simp

lemma payloads_ok:
  "str \<in> set (payloads rnd n s) \<Longrightarrow> set str \<subseteq> set charset \<and> 0 < length str \<and> length str \<le> maxpayload"
proof (induction n arbitrary: s)
  case (Suc n)
  obtain k s1 where k: "rnd s = (k, s1)" by fastforce
  obtain t s2 where t: "randchars rnd (k mod maxpayload + 1) s1 = (t, s2)" by fastforce
  have "k mod maxpayload < maxpayload" by (simp add: maxpayload_def)
  with Suc.prems Suc.IH k t randchars_ok [OF t] show ?case by (auto simp: Let_def)
qed simp

text \<open>No payload is taken for the end mark: its letters are not in \<open>charset\<close>.\<close>

lemma payload_dealt_ok:
  assumes "str \<in> set (payloads rnd n s)"
  shows "dealt_ok (bytes_of_string str)"
proof -
  note ok = payloads_ok [OF assms]
  have "CHR 0x00 \<notin> set charset" "CHR ''E'' \<notin> set charset" by (simp_all add: charset_def)
  with ok have no: "CHR 0x00 \<notin> set str" "CHR ''E'' \<notin> set str" by auto
  then have "str \<noteq> EOS" by (auto simp: EOS_def)
  with c_string_bytes [OF no(1)] ok show ?thesis
    by (auto simp: dealt_ok_def maxpayload_def bytes_of_string_def)
qed

text \<open>User handles that can send.\<close>

definition writable :: "huser list \<Rightarrow> hid list \<Rightarrow> ('n, 'x) cworld_scheme \<Rightarrow> bool" where
  "writable us ps w \<longleftrightarrow> length us = length ps \<and> (\<forall>i < length ps. realHandle (us ! i) = Some (ps ! i)
     \<and> ctxs w (ps ! i) = None \<and> (\<exists>ob. heap w (ps ! i) = Some ob \<and> \<not> closed_wr ob))"

lemma writable_sent:
  assumes "writable us ps w" and "heap w' = heap w" and "ctxs w' = ctxs w" and "realHandle u = realHandle (us ! i)"
  shows "writable (us[i := u]) ps w'"
proof -
  have "realHandle (us[i := u] ! k) = realHandle (us ! k)" for k
    using assms(4) by (cases "i = k"; cases "i < length us") (simp_all add: list_update_beyond)
  with assms(1-3) show ?thesis by (simp add: writable_def)
qed

lemma user_sends:
  fixes w :: "('n, 'x) mworld"
  assumes "sends_to (vtab e) I enc outbox P" and "pipe (vtab e)" and "set ps \<subseteq> P" and "writable us ps w"
    and "i < length ps" and "I (net w)" and "length m < 2 ^ 31"
  shows "\<exists>u w'. huser_send (mgr_comm e) (us ! i) m w = Ret (int (length m), u, w') \<and> writable (us[i := u]) ps w'
    \<and> I (net w') \<and> (\<forall>k \<in> P. outbox (net w') k =
         (if k = ps ! i then outbox (net w) k @ enc m else outbox (net w) k))"
proof -
  from assms(4,5) obtain ob where u: "realHandle (us ! i) = Some (ps ! i)" "ctxs w (ps ! i) = None"
    "heap w (ps ! i) = Some ob" "\<not> closed_wr ob" by (auto simp: writable_def)
  have "ps ! i \<in> P" "heap w (ps ! i) \<noteq> None" using assms(3,5) u(3) by auto
  from sends_toD [OF assms(1) this(1) assms(6) this(2) assms(7)] obtain w1 where
    s: "vt_send (vtab e) (ps ! i) m w = Ret (int (length m), w1)" "heap w1 = heap w" "I (net w1)"
    and o1: "\<forall>k \<in> P. outbox (net w1) k = (if k = ps ! i then outbox (net w) k @ enc m else outbox (net w) k)" by blast
  from pipe.send_more [OF assms(2) s(1)] have "ctxs w1 = ctxs w" by (rule same_tables(3))
  with s(2) u(1) have "writable (us[i := (us ! i)\<lparr>newConnection := False\<rparr>]) ps w1"
    by (intro writable_sent [OF assms(4)]) simp_all
  moreover have "huser_send (mgr_comm e) (us ! i) m w = Ret (int (length m), (us ! i)\<lparr>newConnection := False\<rparr>, w1)"
    using u s(1) by (simp add: huser_send_def mgr_comm_def mtcl_comm_def handle_comm_def obj_Some Let_def)
  ultimately show ?thesis using s(3) o1 by blast
qed

lemma deal_shares:
  fixes w :: "('n, 'x) mworld"
  assumes "sends_to (vtab e) I enc outbox P" and "pipe (vtab e)" and "set ps \<subseteq> P" and "distinct ps" and "ps \<noteq> []"
  shows "writable us ps w \<Longrightarrow> I (net w) \<Longrightarrow> \<exists>us' w' s'. deal e rnd i n us w s = Ret (us', w', s')
    \<and> writable us' ps w' \<and> I (net w') \<and> (\<forall>k < length ps. outbox (net w') (ps ! k) = outbox (net w) (ps ! k)
        @ concat (map enc (dealt (length ps) (i mod length ps) k (map bytes_of_string (payloads rnd n s)))))"
proof (induction n arbitrary: i us w s)
  case (Suc n)
  obtain k s1 where k: "rnd s = (k, s1)" by fastforce
  obtain str s2 where str: "randchars rnd (k mod maxpayload + 1) s1 = (str, s2)" by fastforce
  have sz: "k mod maxpayload + 1 \<le> maxpayload" using mod_less_divisor [of maxpayload k] by (simp add: maxpayload_def)
  have len: "length (bytes_of_string str) < 2 ^ 31"
    using randchars_ok [OF str] sz by (simp add: maxpayload_def)
  let ?j = "i mod length ps"
  have j: "?j < length ps" using assms(5) by simp
  have lu: "length us = length ps" using Suc.prems(1) by (simp add: writable_def)
  from user_sends [OF assms(1-3) Suc.prems(1) j Suc.prems(2) len] obtain u w1 where
    snd1: "huser_send (mgr_comm e) (us ! ?j) (bytes_of_string str) w = Ret (int (length (bytes_of_string str)), u, w1)"
    and w1: "writable (us[?j := u]) ps w1" "I (net w1)"
    and o1: "\<forall>k \<in> P. outbox (net w1) k =
        (if k = ps ! ?j then outbox (net w) k @ enc (bytes_of_string str) else outbox (net w) k)" by blast
  from Suc.IH [OF w1, of "i + 1" s2] obtain us' w' s' where
    rest: "deal e rnd (i + 1) n (us[?j := u]) w1 s2 = Ret (us', w', s')" "writable us' ps w'" "I (net w')"
    and o2: "\<forall>k < length ps. outbox (net w') (ps ! k) = outbox (net w1) (ps ! k)
        @ concat (map enc (dealt (length ps) ((i + 1) mod length ps) k (map bytes_of_string (payloads rnd n s2))))"
    by blast
  have run: "deal e rnd i (Suc n) us w s = Ret (us', w', s')"
    using k str sz snd1 rest(1) lu by (simp add: random_string_def Let_def)
  have first: "outbox (net w1) (ps ! k) = outbox (net w) (ps ! k) @ (if ?j = k then enc (bytes_of_string str) else [])"
    if "k < length ps" for k
  proof -
    have "ps ! k \<in> P" using that assms(3) by auto
    with o1 nth_eq_iff_index_eq [OF assms(4) that j] show ?thesis by auto
  qed
  have "(?j + 1) mod length ps = (i + 1) mod length ps" by (simp add: mod_simps)
  with run rest(2,3) o2 first k str show ?case by (intro exI [of _ us'] exI [of _ w'] exI [of _ s']) (auto simp: Let_def)
qed simp

lemma eos_to_all:
  fixes w :: "('n, 'x) mworld"
  assumes "sends_to (vtab e) I enc outbox P" and "pipe (vtab e)" and "set ps \<subseteq> P" and "distinct ps"
  shows "writable us ps w \<Longrightarrow> I (net w) \<Longrightarrow> i + n = length ps \<Longrightarrow> \<exists>us' w'. send_eos e i n us w = Ret (us', w')
    \<and> (\<forall>k < length ps. outbox (net w') (ps ! k) = outbox (net w) (ps ! k)
        @ (if i \<le> k then enc (bytes_of_string EOS) else []))"
proof (induction n arbitrary: i us w)
  case (Suc n)
  have i: "i < length ps" and len: "length (bytes_of_string EOS) < 2 ^ 31" using Suc.prems(3) by (simp_all add: EOS_def)
  from user_sends [OF assms(1-3) Suc.prems(1) i Suc.prems(2) len] obtain u w1 where
    snd1: "huser_send (mgr_comm e) (us ! i) (bytes_of_string EOS) w = Ret (int (length (bytes_of_string EOS)), u, w1)"
    and w1: "writable (us[i := u]) ps w1" "I (net w1)"
    and o1: "\<forall>k \<in> P. outbox (net w1) k =
        (if k = ps ! i then outbox (net w) k @ enc (bytes_of_string EOS) else outbox (net w) k)" by blast
  have "i + 1 + n = length ps" using Suc.prems(3) by simp
  from Suc.IH [OF w1 this] obtain us' w' where
    rest: "send_eos e (i + 1) n (us[i := u]) w1 = Ret (us', w')"
    and o2: "\<forall>k < length ps. outbox (net w') (ps ! k) = outbox (net w1) (ps ! k)
        @ (if i + 1 \<le> k then enc (bytes_of_string EOS) else [])" by blast
  have run: "send_eos e i (Suc n) us w = Ret (us', w')" using snd1 rest by simp
  have first: "outbox (net w1) (ps ! k) = outbox (net w) (ps ! k) @ (if i = k then enc (bytes_of_string EOS) else [])"
    if "k < length ps" for k
  proof -
    have "ps ! k \<in> P" using that assms(3) by auto
    with o1 nth_eq_iff_index_eq [OF assms(4) that i] show ?thesis by auto
  qed
  from run o2 first show ?case by (intro exI [of _ us'] exI [of _ w']) auto
qed simp

section \<open>The loop over the acknowledgements\<close>

interpretation collector: message_loop "\<lambda>e n workers w. collect_acks n e workers w"
  "\<lambda>workers m. workers \<noteq> 0 \<and> length m = 1" "\<lambda>workers m. workers" "\<lambda>m. []" A for A :: "('o, 'a) tcp_sys_scheme"
proof
  fix inq outq and e :: "(('o, 'b) tcp_state_scheme, 'c) env" and L fd h and j :: int
    and w :: "(('o, 'b) tcp_state_scheme, 'c) mworld" and workers n :: nat and m rest :: "byte list"
  assume env: "peers A inq outq" "tcp_env A e" "2 \<le> bound e"
    and w: "serving inq L fd h j w" "fd \<in> fdset (net w)" "handleReady w = []"
    and m: "workers \<noteq> 0 \<and> length m = 1" "inq fd (os (net w)) = concat (tcp_frame m) @ rest"
  have ne: "inq fd (os (net w)) \<noteq> []" using m(2) frame_nonempty by simp
  from wait_polled [OF env(1,2) w ne env(3)] obtain w1 where
    wt: "wait_next (bound e) e w = Ret (huser_at h, w1)" and s1: "serving inq L fd h (j + 1) w1" "os (net w1) = os (net w)"
    "handleReady w1 = []" by auto
  have len: "m \<noteq> []" "length m \<le> 1" "length m = 1" using m(1) by auto
  have i: "inq fd (os (net w1)) = concat (tcp_frame m) @ rest" using m(2) s1(2) by simp
  from user_take [OF env(1,2) s1(1) _ _ i len(1,2), of "huser_at h"] len(3) obtain t where
    r: "huser_receive (mgr_comm e) (huser_at h) 1 w1 = Ret (1, m, huser_at h, set_os None t w1)"
    and mv: "moved_on inq outq fd rest [] (os (net w1)) t" by auto
  from user_drop [OF env(2) serving_moved [OF s1(1) mv], of "huser_at h"] obtain w2 where
    d: "huser_destroy (mgr_comm e) (huser_at h) (set_os None t w1) = Ret w2" "serving inq L fd h j w2" "fd \<in> fdset (net w2)"
    "os (net w2) = t" "handleReady w2 = []" using s1(3) by auto
  have "collect_acks (Suc n) e workers w = collect_acks n e workers w2"
    using wt r d(1) m(1) by (simp add: ack_step_def)
  with d mv s1(2) show "\<exists>w'. collect_acks (Suc n) e workers w = collect_acks n e workers w'
      \<and> serving inq L fd h j w' \<and> fd \<in> fdset (net w') \<and> handleReady w' = []
      \<and> moved_on inq outq fd rest [] (os (net w)) (os (net w'))"
    by (intro exI [of _ w2]) simp
qed

lemma ack_step_eos:
  fixes w :: "(('o, 'm) tcp_state_scheme, 'x) mworld"
  assumes "peers A inq outq" and "tcp_env A e" and "serving inq L fd h n w" and "1 < n" and "realHandle u = Some h"
    and "isReadable u" and "inq fd (os (net w)) = concat (tcp_frame []) @ rest"
  shows "\<exists>w' ob. ack_step e u workers w = Ret (True, workers - 1, w') \<and> heap w' h = Some ob \<and> isClosed ob
    \<and> counter ob = n - 1 \<and> fd_of (net w') h = -1 \<and> fd \<notin> fdset (net w')"
proof -
  let ?u = "u\<lparr>newConnection := False, isReadable := False\<rparr>"
  have n: "n \<noteq> 0" using assms(4) by simp
  from user_eos [OF assms(1-3) n assms(5-7)] obtain w1 ob where
    r: "huser_receive (mgr_comm e) u 1 w = Ret (0, [], ?u, w1)"
    and w1: "heap w1 h = Some ob" "closed_rd ob" "\<not> closed_wr ob" "counter ob = n" "ctxs w1 h = None"
    "fd_of (net w1) h = fd" by blast
  have u: "realHandle ?u = Some h" "\<not> isReadable ?u" using assms(5) by simp_all
  from user_close_half [OF assms(2) u w1(1-4) assms(4) w1(5,6) servingD(6,7) [OF assms(3)]] obtain w2 w3 ob' where
    "huser_close (mgr_comm e) ?u w1 = Ret w2" "huser_destroy (mgr_comm e) ?u w2 = Ret w3"
    "heap w3 h = Some ob'" "closed_rd ob'" "closed_wr ob'" "counter ob' = n - 1" "fd_of (net w3) h = -1" "fd \<notin> fdset (net w3)"
    by blast
  with r show ?thesis by (intro exI [of _ w3] exI [of _ ob']) (simp add: ack_step_def isClosed_def)
qed

lemma foldl_same: "foldl (\<lambda>k m. k) k ms = k"
  by (induction ms) simp_all

lemma acks_wire: "acks ms = wire (map (take 1) ms)"
  by (simp add: acks_def wire_concat comp_def)

lemma collect_stream:
  fixes w :: "(('o, 'm) tcp_state_scheme, 'x) mworld"
  assumes "peers A inq outq" and "tcp_env A e" and "2 \<le> bound e" and "serving inq L fd h n w" and "1 \<le> n"
    and "fd \<in> fdset (net w)" and "handleReady w = []" and "\<forall>m \<in> set ms. m \<noteq> []"
    and "inq fd (os (net w)) = acks ms @ concat (tcp_frame []) @ rest"
  shows "\<exists>w' ob. collect_acks (length ms + 2) e 1 w = Ret (0, w') \<and> heap w' h = Some ob \<and> isClosed ob
    \<and> counter ob = n \<and> fd_of (net w') h = -1 \<and> fd \<notin> fdset (net w')"
proof -
  let ?as = "map (take 1) ms"
  have ok: "stream_ok (\<lambda>workers m. workers \<noteq> 0 \<and> length m = 1) (\<lambda>workers m. workers) (1 :: nat) ?as"
    using assms(8) by (induction ms) (auto simp: Suc_le_eq)
  have i: "inq fd (os (net w)) = wire ?as @ concat (tcp_frame []) @ rest" using assms(9) by (simp add: acks_wire)
  have len: "length ?as + 2 = length ms + 2" by simp
  from collector.serves_all [OF assms(1-3) ok assms(4,6,7) i, of 2] obtain w1 where
    r: "collect_acks (length ms + 2) e 1 w = collect_acks 2 e 1 w1"
    and s1: "serving inq L fd h n w1" "fd \<in> fdset (net w1)" "handleReady w1 = []"
    and m1: "inq fd (os (net w1)) = concat (tcp_frame []) @ rest"
    unfolding foldl_same len by (auto simp: moved_on_def)
  have ne: "inq fd (os (net w1)) \<noteq> []" using m1 frame_nonempty by simp
  from wait_polled [OF assms(1,2) s1 ne assms(3)] obtain w2 where
    wt: "wait_next (bound e) e w1 = Ret (huser_at h, w2)" and s2: "serving inq L fd h (n + 1) w2"
    "os (net w2) = os (net w1)" by blast
  have n: "1 < n + 1" using assms(5) by simp
  from s2(2) m1 have "inq fd (os (net w2)) = concat (tcp_frame []) @ rest" by simp
  from ack_step_eos [OF assms(1,2) s2(1) n _ _ this, of "huser_at h" 1] obtain w3 ob where
    st: "ack_step e (huser_at h) 1 w2 = Ret (True, 0, w3)" and w3: "heap w3 h = Some ob" "isClosed ob"
    "counter ob = n" "fd_of (net w3) h = -1" "fd \<notin> fdset (net w3)" by auto
  have "collect_acks 2 e 1 w1 = Ret (0, w3)" using wt st by (simp add: numeral_2_eq_2)
  with r w3 show ?thesis by auto
qed

section \<open>Properties\<close>

lemma deal_all_shares:
  fixes w :: "('n, 'x) mworld"
  assumes "sends_to (vtab e) I enc outbox P" and "pipe (vtab e)" and "set ps \<subseteq> P" and "distinct ps" and "ps \<noteq> []"
    and "writable us ps w" and "I (net w)"
  shows "\<exists>us' w' s'. deal_all e rnd us w s = Ret (us', w', s') \<and> (\<forall>i < length ps. outbox (net w') (ps ! i) =
    outbox (net w) (ps ! i) @ concat (map enc (share (length ps) i (map bytes_of_string (payloads rnd NMSGS s))
      @ [bytes_of_string EOS])))"
proof -
  let ?ms = "map bytes_of_string (payloads rnd NMSGS s)" and ?n = "length ps"
  have n: "0 < ?n" using assms(5) by simp
  from deal_shares [OF assms, of rnd 0 NMSGS s] obtain us1 w1 s1 where
    d: "deal e rnd 0 NMSGS us w s = Ret (us1, w1, s1)" "writable us1 ps w1" "I (net w1)"
    and o1: "\<forall>k < ?n. outbox (net w1) (ps ! k) = outbox (net w) (ps ! k) @ concat (map enc (dealt ?n 0 k ?ms))"
    by auto
  from eos_to_all [OF assms(1-4) d(2,3), of 0 ?n] obtain us2 w2 where
    e: "send_eos e 0 ?n us1 w1 = Ret (us2, w2)"
    and o2: "\<forall>k < ?n. outbox (net w2) (ps ! k) = outbox (net w1) (ps ! k) @ enc (bytes_of_string EOS)" by auto
  have "length us1 = ?n" using d(2) by (simp add: writable_def)
  with d(1) e have "deal_all e rnd us w s = Ret (us2, w2, s1)" by (simp add: deal_all_def)
  moreover have "dealt ?n 0 k ?ms = share ?n k ?ms" if "k < ?n" for k
    using dealt_nth [OF n that] by (simp add: share_def)
  ultimately show ?thesis using o1 o2 by (intro exI [of _ us2] exI [of _ w2] exI [of _ s1]) simp
qed

lemma mw_ready:
  "tcp_env sel_sys mw_env" "2 \<le> bound mw_env" "writable mw_users [7, 8] (mw_world inp)"
  "own_fds {7, 8} (net (mw_world inp))" "serving (\<lambda>fd s. fst s fd) {} 3 7 0 (mw_world inp)"
  "3 \<in> fdset (net (mw_world inp))" "handleReady (mw_world inp) = []"
  by (auto simp: tcp_env_def mw_env_def writable_def mw_users_def mw_world_def new_handle_def own_fds_def inj_on_def
      serving_def readable_def fd_inv_def FD_SETSIZE_def smap_get_def less_Suc_eq nth_Cons')

text \<open>The sending thread of the master deals its \<open>NMSGS\<close> random strings to the connected workers in turn and
  then ends the work: over any transport that delivers what is sent, worker \<open>i\<close> of \<open>n\<close> is sent the strings number
  \<open>j\<close> with \<open>j mod n = i\<close>, in order, and \<open>EOS\<close> after them.\<close>

theorem master_deals:
  fixes w :: "('n, 'x) mworld"
  assumes "sends_to (vtab e) I enc outbox P" and "pipe (vtab e)" and "set ps \<subseteq> P" and "distinct ps" and "ps \<noteq> []"
    and "writable us ps w" and "I (net w)"
  shows "\<exists>us' w' s'. deal_all e rnd us w s = Ret (us', w', s') \<and> (\<forall>i < length ps. outbox (net w') (ps ! i) =
    outbox (net w) (ps ! i) @ concat (map enc (share (length ps) i (map bytes_of_string (payloads rnd NMSGS s))
      @ [bytes_of_string EOS])))"
  by (rule deal_all_shares [OF assms])

theorem master_deals_witness:
  "\<exists>us' w' s'. deal_all mw_env (\<lambda>k. (k, Suc k)) mw_users (mw_world (\<lambda>_. [])) 0 = Ret (us', w', s')"
proof -
  have st: "sends_to (vtab mw_env) (own_fds {7, 8}) (\<lambda>bs. concat (tcp_frame bs))
      (\<lambda>t h. snd (os t) (fd_of t h)) {7, 8}"
    using tcp_sends_to [OF peersD(2) [OF sel_peers] sel_writes_only, of "{7, 8}"] by (simp add: mw_env_def)
  have pp: "pipe (vtab mw_env)" by (simp add: mw_env_def tcp_pipe.pipe_axioms)
  have ps: "set [7, 8 :: nat] \<subseteq> {7, 8}" "distinct [7, 8 :: nat]" "[7, 8 :: nat] \<noteq> []" by simp_all
  from master_deals [OF st pp ps mw_ready(3,4), of "\<lambda>k. (k, Suc k)" "\<lambda>_. []" 0] show ?thesis by blast
qed

text \<open>C29: A worker over TCP does its share and no more. On the bytes that the master has written for worker \<open>i\<close>, and
  through the rounds of its IO thread, the loop of the worker returns; it has counted exactly the strings that were
  dealt to it, none of which it takes for \<open>EOS\<close>, has acknowledged each with its first byte, in order, and has
  then closed its side of the connection.\<close>

theorem worker_does_share:
  fixes w :: "(('o, 'm) tcp_state_scheme, 'x) mworld" and v :: "(('p, 'k) tcp_state_scheme, 'y) mworld"
  assumes "writes_stream A out" and "writes_only A out" and "vtab e = tcp_vtable A" and "own_fds (set ps) (net w)"
    and "distinct ps" and "i < length ps" and "writable us ps w" and "deal_all e rnd us w s = Ret (us', w', s')"
    and "peers B inq outq" and "tcp_env B d" and "2 \<le> bound d" and "serving inq L fd h 0 v"
    and "fd \<in> fdset (net v)" and "handleReady v = []"
    and "out (fd_of (net w') (ps ! i)) (os (net w')) = out (fd_of (net w) (ps ! i)) (os (net w)) @ inq fd (os (net v))"
  shows "\<exists>v' t. worker_loop (NMSGS + 1) d size0 0 v = Ret (length (share (length ps) i (payloads rnd NMSGS s)), v')
    \<and> half_closed h 0 v' \<and> os (net v') = wr_ended B fd t
    \<and> outq fd t = outq fd (os (net v)) @ acks (share (length ps) i (map bytes_of_string (payloads rnd NMSGS s)))"
proof -
  let ?ms = "share (length ps) i (map bytes_of_string (payloads rnd NMSGS s))"
  have st: "sends_to (vtab e) (own_fds (set ps)) (\<lambda>bs. concat (tcp_frame bs)) (\<lambda>t h. out (fd_of t h) (os t)) (set ps)"
    unfolding assms(3) by (rule tcp_sends_to [OF assms(1,2)])
  have pp: "pipe (vtab e)" unfolding assms(3) by (rule tcp_pipe.pipe_axioms)
  have ne: "ps \<noteq> []" using assms(6) by auto
  from deal_all_shares [OF st pp subset_refl assms(5) ne assms(7,4), of rnd s] assms(6,8)
  have "out (fd_of (net w') (ps ! i)) (os (net w')) = out (fd_of (net w) (ps ! i)) (os (net w))
      @ concat (map (\<lambda>bs. concat (tcp_frame bs)) (?ms @ [bytes_of_string EOS]))" by simp
  with assms(15) have inp: "inq fd (os (net v)) = wire ?ms @ concat (tcp_frame (bytes_of_string EOS)) @ []"
    by (simp add: wire_concat)
  have ok: "\<forall>m \<in> set ?ms. dealt_ok m" using share_set payload_dealt_ok by fastforce
  have len: "length ?ms < NMSGS + 1" using share_length [of "length ps" i "map bytes_of_string (payloads rnd NMSGS s)"] by simp
  have same: "length ?ms = length (share (length ps) i (payloads rnd NMSGS s))"
    by (simp add: share_map)
  from worker_loop_stream [OF assms(9-11) ok assms(12-14) len inp, of size0 0] same show ?thesis
    by (auto simp: moved_on_def)
qed

theorem worker_does_share_witness:
  "\<exists>us' w' s' v'. deal_all mw_env (\<lambda>k. (k, Suc k)) mw_users (mw_world (\<lambda>_. [])) 0 = Ret (us', w', s')
     \<and> worker_loop (NMSGS + 1) mw_env 0 0 (mw_world (\<lambda>fd. if fd = 3 then snd (os (net w')) (fd_of (net w') 7) else []))
         = Ret (length (share 2 0 (payloads (\<lambda>k. (k, Suc k)) NMSGS 0)), v')"
proof -
  let ?w = "mw_world (\<lambda>_. [])"
  have V: "vtab mw_env = tcp_vtable sel_sys" by (simp add: mw_env_def)
  have st: "sends_to (vtab mw_env) (own_fds {7, 8}) (\<lambda>bs. concat (tcp_frame bs))
      (\<lambda>t h. snd (os t) (fd_of t h)) {7, 8}"
    unfolding V by (rule tcp_sends_to [OF peersD(2) [OF sel_peers] sel_writes_only])
  have ps: "set [7, 8 :: nat] \<subseteq> {7, 8}" "distinct [7, 8 :: nat]" "[7, 8 :: nat] \<noteq> []" by simp_all
  have pp: "pipe (vtab mw_env)" unfolding V by (rule tcp_pipe.pipe_axioms)
  from deal_all_shares [OF st pp ps mw_ready(3,4), of "\<lambda>k. (k, Suc k)" "\<lambda>_. []" 0] obtain us' w' s' where
    d: "deal_all mw_env (\<lambda>k. (k, Suc k)) mw_users ?w 0 = Ret (us', w', s')" by blast
  let ?v = "mw_world (\<lambda>fd. if fd = 3 then snd (os (net w')) (fd_of (net w') 7) else [])"
  have set: "set [7, 8 :: nat] = {7, 8}" by simp
  have own: "own_fds (set [7, 8]) (net ?w)" unfolding set by (rule mw_ready(4))
  have i: "0 < length [7, 8 :: nat]" by simp
  have str: "snd (os (net w')) (fd_of (net w') ([7, 8] ! 0)) = snd (os (net ?w)) (fd_of (net ?w) ([7, 8] ! 0))
      @ fst (os (net ?v)) 3"
    by (simp add: mw_world_def)
  from worker_does_share [OF peersD(2) [OF sel_peers] sel_writes_only V own ps(2) i mw_ready(3) d sel_peers
      mw_ready(1,2) mw_ready(5-7) str, of 0] d show ?thesis by (auto simp: numeral_2_eq_2)
qed

text \<open>C30: The loop of the master over the acknowledgements ends. With one worker over TCP, on what that worker writes,
  its acknowledgements and then the mark with which it closes, the loop passes every acknowledgement, is handed the
  connection once more for the mark, returns with no worker left, and has torn the connection down; the object
  lives on for the handle that the master still holds.\<close>

theorem acknowledgements_end:
  fixes w :: "(('o, 'm) tcp_state_scheme, 'x) mworld"
  assumes "peers A inq outq" and "tcp_env A e" and "2 \<le> bound e" and "serving inq L fd h n w" and "1 \<le> n"
    and "fd \<in> fdset (net w)" and "handleReady w = []" and "\<forall>m \<in> set ms. m \<noteq> []"
    and "inq fd (os (net w)) = acks ms @ concat (tcp_frame []) @ rest"
  shows "\<exists>w' ob. collect_acks (length ms + 2) e 1 w = Ret (0, w') \<and> heap w' h = Some ob \<and> isClosed ob
    \<and> counter ob = n \<and> fd_of (net w') h = -1 \<and> fd \<notin> fdset (net w')"
  by (rule collect_stream [OF assms])

theorem acknowledgements_end_witness:
  "\<exists>w'. collect_acks 4 mw_env 1 (put_obj 7 ((new_handle ''TCP'')\<lparr>counter := 1\<rparr>)
     (mw_world (\<lambda>fd. acks [[65, 66], [67]] @ concat (tcp_frame [])))) = Ret (0, w') \<and> fd_of (net w') 7 = -1"
proof -
  let ?w = "put_obj 7 ((new_handle ''TCP'')\<lparr>counter := 1\<rparr>) (mw_world (\<lambda>fd. acks [[65, 66], [67]] @ concat (tcp_frame [])))"
  have sv: "serving (\<lambda>fd s. fst s fd) {} 3 7 1 ?w"
    by (simp add: serving_def mw_world_def put_obj_def new_handle_def readable_def fd_inv_def FD_SETSIZE_def smap_get_def)
  have q: "3 \<in> fdset (net ?w)" "handleReady ?w = []" by (simp_all add: put_obj_def mw_world_def)
  have ms: "\<forall>m \<in> set [[65, 66], [67 :: byte]]. m \<noteq> []" by simp
  have i: "fst (os (net ?w)) 3 = acks [[65, 66], [67]] @ concat (tcp_frame []) @ []"
    unfolding mw_world_def put_obj_def by simp
  have n: "length [[65, 66], [67 :: byte]] + 2 = 4" by simp
  from acknowledgements_end [OF sel_peers sel_ready(1,2) sv order_refl q ms i] show ?thesis unfolding n by blast
qed

end
