(* ===== verification/Pingpong.thy ===== *)
theory Pingpong
  imports MasterWorkerProps
begin

text \<open>
  \<open>examples/pingpong.cpp\<close> with \<open>TPROTOCOL=TCP\<close>: a server that answers \<open>ping\<close> on every new connection and counts the
  connections that are closed, and its client. The messages are the five bytes with the final NUL.
\<close>

section \<open>The programs\<close>

definition MAX_NUM_CLIENTS :: nat where
  "MAX_NUM_CLIENTS = 4"

definition pp_endpoint :: string where
  "pp_endpoint = ''TCP:0.0.0.0:42000''"

definition ping :: "byte list" where
  "ping = bytes_of_string ''ping'' @ [0]"

definition pong :: "byte list" where
  "pong = bytes_of_string ''pong'' @ [0]"

text \<open>The body of the server's loop; \<open>size0\<close> is the content of the uninitialised \<open>sz\<close>.\<close>

definition pp_server_step ::
  "('n, 'x) env \<Rightarrow> u64 \<Rightarrow> huser \<Rightarrow> nat \<Rightarrow> ('n, 'x) mworld \<Rightarrow> (nat \<times> ('n, 'x) mworld) out" where
  "pp_server_step e size0 handle1 count w =
     bnd (if huser_isNewConnection handle1
          then bnd (huser_receive (mgr_comm e) handle1 5 w) (\<lambda>(_, _, u, w).
               bnd (huser_send (mgr_comm e) u pong w) (\<lambda>(_, u, w). Ret (count, u, w)))
          else bnd (huser_probe (mgr_comm e) handle1 size0 True w) (\<lambda>(_, sz, u, w).
               if sz = 0 then bnd (huser_close (mgr_comm e) u w) (\<lambda>w. Ret (count + 1, u, w))
               else Ret (count, u, w))) (\<lambda>(count, u, w).
     bnd (huser_destroy (mgr_comm e) u w) (\<lambda>w. Ret (count, w)))"

primrec pp_server_loop ::
  "nat \<Rightarrow> ('n, 'x) env \<Rightarrow> u64 \<Rightarrow> nat \<Rightarrow> ('n, 'x) mworld \<Rightarrow> ('n, 'x) mworld out" where
  "pp_server_loop 0 e size0 count w = Fault No_return"
| "pp_server_loop (Suc n) e size0 count w =
     (if count < MAX_NUM_CLIENTS then
        bnd (wait_next (bound e) e w) (\<lambda>(u, w).
        bnd (pp_server_step e size0 u count w) (\<lambda>(count, w). pp_server_loop n e size0 count w))
      else Ret w)"

definition pp_server ::
  "nat \<Rightarrow> ('n, 'x) env \<Rightarrow> u64 \<Rightarrow> ('n, 'x) mworld \<Rightarrow> ('n, 'x) mworld out" where
  "pp_server n e size0 w =
     bnd (mgr_listen e pp_endpoint w) (\<lambda>(_, w).
     bnd (pp_server_loop n e size0 0 w) (mgr_finalize e False))"

text \<open>The attempts of the client; the handle goes out of scope, which yields it. The result is \<open>connected\<close>.\<close>

primrec pp_connect ::
  "nat \<Rightarrow> ('n, 'x) env \<Rightarrow> ('n, 'x) mworld \<Rightarrow> (bool \<times> ('n, 'x) mworld) out" where
  "pp_connect 0 e w = Ret (False, w)"
| "pp_connect (Suc n) e w =
     bnd (mgr_connect e pp_endpoint (-1) 0 w) (\<lambda>(h, w).
     if huser_isValid h then
       bnd (huser_send (mgr_comm e) h ping w) (\<lambda>(r, h, w).
       bnd (huser_destroy (mgr_comm e) h w) (\<lambda>w. Ret (r = 5, w)))
     else pp_connect n e (sleep_us 1000000 w))"

definition pp_reply :: "('n, 'x) env \<Rightarrow> huser \<Rightarrow> ('n, 'x) mworld \<Rightarrow> (int \<times> byte list \<times> ('n, 'x) mworld) out" where
  "pp_reply e u w =
     bnd (huser_receive (mgr_comm e) u 5 w) (\<lambda>(r, buff, u, w).
     bnd (if r = 0 then Ret w else huser_close (mgr_comm e) u w) (\<lambda>w.
     bnd (huser_destroy (mgr_comm e) u w) (\<lambda>w. Ret (r, buff, w))))"

text \<open>The result is the exit code.\<close>

definition pp_client :: "('n, 'x) env \<Rightarrow> ('n, 'x) mworld \<Rightarrow> (int \<times> ('n, 'x) mworld) out" where
  "pp_client e w =
     bnd (pp_connect 10 e w) (\<lambda>(connected, w).
     if \<not> connected then bnd (mgr_finalize e False w) (\<lambda>w. Ret (-1, w))
     else bnd (wait_next (bound e) e w) (\<lambda>(u, w).
          bnd (pp_reply e u w) (\<lambda>(_, _, w).
          bnd (mgr_finalize e False w) (\<lambda>w. Ret (0, w)))))"

definition pingpong_main ::
  "nat \<Rightarrow> ('n, 'x) env \<Rightarrow> u64 \<Rightarrow> string option \<Rightarrow> string \<Rightarrow> bool \<Rightarrow> ('n, 'x) mworld \<Rightarrow> (int \<times> ('n, 'x) mworld) out" where
  "pingpong_main n e size0 level arg rank0 w =
     bnd (mgr_init_plain e level arg w) (\<lambda>(_, w).
     if rank0 then bnd (pp_server n e size0 w) (\<lambda>w. Ret (0, w)) else pp_client e w)"

section \<open>An exchange over TCP\<close>

lemma messages_fit: "ping \<noteq> []" "pong \<noteq> []" "length ping \<le> 5" "length pong \<le> 5" "length pong < 2 ^ 63"
  by (simp_all add: ping_def pong_def)

lemma pp_server_answers:
  fixes w :: "(('o, 'm) tcp_state_scheme, 'x) mworld"
  assumes "peers A inq outq" and "tcp_env A e" and "serving inq L fd h n w" and "realHandle u = Some h"
    and "isReadable u" and "newConnection u" and "inq fd (os (net w)) = concat (tcp_frame ping) @ rest"
  shows "\<exists>w'. pp_server_step e size0 u count w = Ret (count, w') \<and> serving inq L fd h (n - 1) w'
    \<and> fd \<in> fdset (net w') \<and> moved_on inq outq fd rest (concat (tcp_frame pong)) (os (net w)) (os (net w'))"
proof -
  let ?u = "u\<lparr>newConnection := False\<rparr>"
  have five: "(5 :: nat) < 2 ^ 63" by simp
  from user_take [OF assms(1-5,7) messages_fit(1,3) five] obtain s where
    r: "huser_receive (mgr_comm e) u 5 w = Ret (int (length ping), ping, ?u, set_os None s w)"
    and m1: "moved_on inq outq fd rest [] (os (net w)) s" by auto
  note sv = serving_moved [OF assms(3) m1]
  have ru: "realHandle ?u = Some h" "isReadable ?u" using assms(4,5) by simp_all
  from user_write [OF assms(1,2) sv ru(1) messages_fit(5)] obtain s2 where
    x: "huser_send (mgr_comm e) ?u pong (set_os None s w) =
      Ret (int (length pong), ?u\<lparr>newConnection := False\<rparr>, set_os None s2 (set_os None s w))"
    and m2: "moved_on inq outq fd (inq fd s) (concat (tcp_frame pong)) s s2" by auto
  have "moved_on inq outq fd (inq fd s) (concat (tcp_frame pong)) (os (net (set_os None s w))) s2" using m2 by simp
  note sv2 = serving_moved [OF sv this]
  from user_drop [OF assms(2) sv2 ru] obtain w' where
    dr: "huser_destroy (mgr_comm e) ?u (set_os None s2 (set_os None s w)) = Ret w'" "serving inq L fd h (n - 1) w'"
    "fd \<in> fdset (net w')" "os (net w') = s2" by auto
  have "inq fd s = rest" using m1 by (simp add: moved_on_def)
  moreover have "pp_server_step e size0 u count w = Ret (count, w')"
    using r x dr(1) assms(6) by (simp add: pp_server_step_def huser_isNewConnection_def)
  ultimately show ?thesis using dr(2-4) moved_on_trans [OF m1 m2] by auto
qed

lemma pp_reply_read:
  fixes w :: "(('o, 'm) tcp_state_scheme, 'x) mworld"
  assumes "peers A inq outq" and "tcp_env A e" and "serving inq L fd h n w" and "realHandle u = Some h"
    and "isReadable u" and "inq fd (os (net w)) = concat (tcp_frame pong) @ rest"
  shows "\<exists>w' s. pp_reply e u w = Ret (5, pong, w') \<and> half_closed h (n - 1) w' \<and> os (net w') = wr_ended A fd s
    \<and> moved_on inq outq fd rest [] (os (net w)) s"
proof -
  let ?u = "u\<lparr>newConnection := False\<rparr>"
  have five: "(5 :: nat) < 2 ^ 63" by simp
  from user_take [OF assms(1-6) messages_fit(2,4) five] obtain s where
    r: "huser_receive (mgr_comm e) u 5 w = Ret (int (length pong), pong, ?u, set_os None s w)"
    and m1: "moved_on inq outq fd rest [] (os (net w)) s" by auto
  have ru: "realHandle ?u = Some h" "isReadable ?u" using assms(4,5) by simp_all
  from user_close_drop [OF assms(2) serving_moved [OF assms(3) m1] ru] obtain w2 w3 where
    c: "huser_close (mgr_comm e) ?u (set_os None s w) = Ret w2" "huser_destroy (mgr_comm e) ?u w2 = Ret w3"
    and w3: "half_closed h (n - 1) w3" "os (net w3) = wr_ended A fd s" by auto
  have "int (length pong) = 5" by (simp add: pong_def)
  with r c have "pp_reply e u w = Ret (5, pong, w3)" by (simp add: pp_reply_def)
  with w3 m1 show ?thesis by blast
qed

text \<open>Ping and pong over TCP, through the rounds of both IO threads. The server answers the \<open>ping\<close> on a new
  connection with \<open>pong\<close> and yields the handle; the client, waiting for its connection, is handed it, reads the
  five bytes of \<open>pong\<close>, has used up what the server wrote, and ends its side of the connection.\<close>

theorem pingpong_exchange:
  fixes w :: "(('o, 'm) tcp_state_scheme, 'x) mworld"
  assumes "peers A inq outq" and "tcp_env A e" and "serving inq L fd h n w" and "realHandle u = Some h"
    and "isReadable u" and "newConnection u" and "inq fd (os (net w)) = concat (tcp_frame ping) @ rest"
    and "peers B inq' outq'" and "tcp_env B d" and "2 \<le> bound d"
  shows "\<exists>w'. pp_server_step e size0 u count w = Ret (count, w') \<and> serving inq L fd h (n - 1) w' \<and> fd \<in> fdset (net w')
    \<and> (\<forall>v :: (('p, 'k) tcp_state_scheme, 'y) mworld. serving inq' L' fd' h' 0 v \<and> fd' \<in> fdset (net v)
          \<and> handleReady v = [] \<and> outq fd (os (net w')) = outq fd (os (net w)) @ inq' fd' (os (net v)) \<longrightarrow>
        (\<exists>u' v' v'' t. wait_next (bound d) d v = Ret (u', v') \<and> pp_reply d u' v' = Ret (5, pong, v'')
          \<and> half_closed h' 0 v'' \<and> os (net v'') = wr_ended B fd' t \<and> inq' fd' t = []))"
proof -
  from pp_server_answers [OF assms(1-7)] obtain w' where
    s: "pp_server_step e size0 u count w = Ret (count, w')" "serving inq L fd h (n - 1) w'" "fd \<in> fdset (net w')"
    "moved_on inq outq fd rest (concat (tcp_frame pong)) (os (net w)) (os (net w'))" by blast
  have "\<exists>u' v' v'' t. wait_next (bound d) d v = Ret (u', v') \<and> pp_reply d u' v' = Ret (5, pong, v'')
      \<and> half_closed h' 0 v'' \<and> os (net v'') = wr_ended B fd' t \<and> inq' fd' t = []"
    if v: "serving inq' L' fd' h' 0 v" "fd' \<in> fdset (net v)" "handleReady v = []"
      and o1: "outq fd (os (net w')) = outq fd (os (net w)) @ inq' fd' (os (net v))"
    for v :: "(('p, 'k) tcp_state_scheme, 'y) mworld"
  proof -
    from o1 s(4) have i: "inq' fd' (os (net v)) = concat (tcp_frame pong) @ []" by (simp add: moved_on_def)
    then have "inq' fd' (os (net v)) \<noteq> []" using frame_nonempty by simp
    from wait_polled [OF assms(8,9) v this assms(10)] obtain v' where
      wt: "wait_next (bound d) d v = Ret (huser_at h', v')" "serving inq' L' fd' h' (0 + 1) v'"
      "os (net v') = os (net v)" by blast
    from wt(3) i have "inq' fd' (os (net v')) = concat (tcp_frame pong) @ []" by simp
    from pp_reply_read [OF assms(8,9) wt(2) _ _ this, of "huser_at h'"] wt(1) show ?thesis
      by (auto simp: moved_on_def)
  qed
  with s show ?thesis by blast
qed

definition pp_world :: "(int \<Rightarrow> byte list) \<Rightarrow> (mos tcp_state) mgr" where
  "pp_world inp = put_obj 7 ((new_handle ''TCP'')\<lparr>counter := 1\<rparr>) (mw_world inp)"

theorem pingpong_exchange_witness:
  "\<exists>w'. pp_server_step mw_env 0 (mw_users ! 0) 2 (pp_world (\<lambda>fd. concat (tcp_frame ping))) = Ret (2, w')
     \<and> 3 \<in> fdset (net w')"
proof -
  let ?w = "pp_world (\<lambda>fd. concat (tcp_frame ping))"
  have sv: "serving (\<lambda>fd s. fst s fd) {} 3 7 1 ?w"
    by (simp add: serving_def pp_world_def mw_world_def put_obj_def new_handle_def readable_def fd_inv_def
        FD_SETSIZE_def smap_get_def)
  have u: "realHandle (mw_users ! 0) = Some 7" "isReadable (mw_users ! 0)" "newConnection (mw_users ! 0)"
    by (simp_all add: mw_users_def)
  have i: "fst (os (net ?w)) 3 = concat (tcp_frame ping) @ []" by (simp add: pp_world_def mw_world_def put_obj_def)
  from pingpong_exchange [OF sel_peers mw_ready(1) sv u i sel_peers mw_ready(1,2), of 0 2] show ?thesis by blast
qed

end
