(* ===== verification/HelloWorld.thy ===== *)
theory HelloWorld
  imports Serving
begin

text \<open>
  \<open>examples/hello_world.cpp\<close>: a server that greets every new connection and echoes its messages up to \<open>Bye!\<close>,
  and its client.
  \<^item> \<open>stop\<close> is set by a signal: \<open>n\<close> is the number of times the loop of the server finds it unset, \<open>polls\<close>
    gives the rounds of the IO thread that end within the 300 ms of the \<open>getNext\<close> before the last \<open>i\<close> ones.
  \<^item> The buffer of the server outlives the iterations, it is an argument and a result; the local
    buffers of the client are what has been received. The lines the client prints are a result.
  \<^item> \<open>ndebug\<close>: the program is built with \<open>-DNDEBUG\<close>, as \<open>examples/Makefile\<close> does unless \<open>DEBUG\<close> is set, and
    \<open>assert\<close> does nothing; otherwise a failed assertion aborts.
\<close>

section \<open>The server\<close>

definition welcome_msg :: string where
  "welcome_msg = ''Hello!''"

definition bye_msg :: string where
  "bye_msg = ''Bye!''"

definition max_msg_size :: nat where
  "max_msg_size = 100"

definition hw_endpoints :: "string list" where
  "hw_endpoints = [''SHM:/MTCA-server'', ''TCP:0.0.0.0:42000'', ''MPI:0:10'', ''MPIP2P:test'', ''MQTT:label'',
     ''UCX:0.0.0.0:21000'']"

text \<open>The reply to a message of \<open>r\<close> bytes in the buffer.\<close>

definition hw_reply ::
  "('n, 'x) env \<Rightarrow> huser \<Rightarrow> int \<Rightarrow> byte list \<Rightarrow> ('n, 'x) mworld \<Rightarrow> (huser \<times> ('n, 'x) mworld) out" where
  "hw_reply e u r buff w =
     (if c_string buff = bye_msg then bnd (huser_close (mgr_comm e) u w) (\<lambda>w. Ret (u, w))
      else bnd (huser_send (mgr_comm e) u (take (nat r) buff) w) (\<lambda>(r, u, w).
           if r \<le> 0 then bnd (huser_close (mgr_comm e) u w) (\<lambda>w. Ret (u, w)) else Ret (u, w)))"

text \<open>A message on a connection. Writing behind the end of \<open>buff\<close> is undefined.\<close>

definition hw_message ::
  "bool \<Rightarrow> ('n, 'x) env \<Rightarrow> huser \<Rightarrow> byte list \<Rightarrow> ('n, 'x) mworld \<Rightarrow> (byte list \<times> huser \<times> ('n, 'x) mworld) out" where
  "hw_message ndebug e u buff w =
     bnd (huser_probe (mgr_comm e) u 0 True w) (\<lambda>(r, size1, u, w).
     if r \<le> 0 then bnd (huser_close (mgr_comm e) u w) (\<lambda>w. Ret (buff, u, w))
     else if \<not> ndebug \<and> \<not> size1 < of_nat max_msg_size then Fault Aborted
     else bnd (huser_receive (mgr_comm e) u size1 w) (\<lambda>(r, bs, u, w).
          if length buff < length bs then Fault Out_of_bounds
          else let buff = bs @ drop (length bs) buff
          in if r \<le> 0 then bnd (huser_close (mgr_comm e) u w) (\<lambda>w. Ret (buff, u, w))
             else if length buff \<le> unat size1 then Fault Out_of_bounds
             else let buff = buff[unat size1 := 0]
                  in bnd (hw_reply e u r buff w) (\<lambda>(u, w). Ret (buff, u, w))))"

text \<open>The body of the loop, with the destructor of \<open>handle\<close> on every way out.\<close>

definition hw_server_step ::
  "bool \<Rightarrow> ('n, 'x) env \<Rightarrow> huser \<Rightarrow> byte list \<Rightarrow> ('n, 'x) mworld \<Rightarrow> (byte list \<times> ('n, 'x) mworld) out" where
  "hw_server_step ndebug e u buff w =
     bnd (if \<not> huser_isValid u then Ret (buff, u, w)
          else if huser_isNewConnection u then
            bnd (huser_send (mgr_comm e) u (bytes_of_string welcome_msg) w) (\<lambda>(_, u, w). Ret (buff, u, w))
          else hw_message ndebug e u buff w) (\<lambda>(buff, u, w).
     bnd (huser_destroy (mgr_comm e) u w) (\<lambda>w. Ret (buff, w)))"

primrec hw_server_loop ::
  "bool \<Rightarrow> (nat \<Rightarrow> nat) \<Rightarrow> nat \<Rightarrow> ('n, 'x) env \<Rightarrow> byte list \<Rightarrow> ('n, 'x) mworld \<Rightarrow> (byte list \<times> ('n, 'x) mworld) out" where
  "hw_server_loop ndebug polls 0 e buff w = Ret (buff, w)"
| "hw_server_loop ndebug polls (Suc i) e buff w =
     bnd (getNext_for (polls i) e w) (\<lambda>(u, w).
     bnd (hw_server_step ndebug e u buff w) (\<lambda>(buff, w). hw_server_loop ndebug polls i e buff w))"

definition hw_server ::
  "bool \<Rightarrow> (nat \<Rightarrow> nat) \<Rightarrow> nat \<Rightarrow> ('n, 'x) env \<Rightarrow> byte list \<Rightarrow> ('n, 'x) mworld \<Rightarrow> ('n, 'x) mworld out" where
  "hw_server ndebug polls n e buff w =
     bnd (listen_all e hw_endpoints w) (\<lambda>w. bnd (hw_server_loop ndebug polls n e buff w) (\<lambda>(_, w). Ret w))"

section \<open>The client\<close>

text \<open>The nested attempts; \<open>assert(h.isValid())\<close> after the last one, whose handle is the result in any case.\<close>

definition hw_candidates :: "string list" where
  "hw_candidates = [''MPIP2P:test'', ''MPI:0:10'', ''MQTT:label'', ''UCX:0.0.0.0:21000'', ''TCP:0.0.0.0:42000'']"

fun hw_connect :: "bool \<Rightarrow> ('n, 'x) env \<Rightarrow> string list \<Rightarrow> ('n, 'x) mworld \<Rightarrow> (huser \<times> ('n, 'x) mworld) out" where
  "hw_connect ndebug e [] w = Ret (huser_null, w)"
| "hw_connect ndebug e (s # ss) w =
     bnd (mgr_connect e s (-1) 0 w) (\<lambda>(h, w).
     if huser_isValid h then Ret (h, w)
     else if ss \<noteq> [] then hw_connect ndebug e ss w
     else if ndebug then Ret (h, w) else Fault Aborted)"

definition hw_text :: "byte list" where
  "hw_text = bytes_of_string ''ciao!''"

text \<open>The loop \<open>for(int i=1;i<=5;++i)\<close>, \<open>n\<close> of the values left at \<open>i\<close>, with the lines printed so far; a
  failure only leaves this loop.\<close>

fun hw_rounds ::
  "('n, 'x) env \<Rightarrow> nat \<Rightarrow> nat \<Rightarrow> huser \<Rightarrow> string list \<Rightarrow> ('n, 'x) mworld
     \<Rightarrow> (huser \<times> string list \<times> ('n, 'x) mworld) out" where
  "hw_rounds e i 0 u out1 w = Ret (u, out1, w)"
| "hw_rounds e i (Suc n) u out1 w =
     bnd (huser_send (mgr_comm e) u (take i hw_text) w) (\<lambda>(r, u, w).
     if r \<le> 0 then Ret (u, out1, w)
     else bnd (huser_receive (mgr_comm e) u (of_nat i) w) (\<lambda>(r, rbuf, u, w).
     if r \<le> 0 then Ret (u, out1, w)
     else hw_rounds e (i + 1) n u (out1 @ [c_string rbuf]) w))"

text \<open>The block \<open>do \<dots> while(false)\<close>; after it, \<open>close\<close> and the destructor.\<close>

definition hw_talk ::
  "('n, 'x) env \<Rightarrow> huser \<Rightarrow> ('n, 'x) mworld \<Rightarrow> (huser \<times> string list \<times> ('n, 'x) mworld) out" where
  "hw_talk e u w =
     bnd (huser_receive (mgr_comm e) u (of_nat (length welcome_msg)) w) (\<lambda>(r, buff, u, w).
     if r \<le> 0 then Ret (u, [], w)
     else bnd (hw_rounds e 1 5 u [] w) (\<lambda>(u, out1, w).
          bnd (huser_send (mgr_comm e) u (bytes_of_string bye_msg) w) (\<lambda>(r, u, w). Ret (u, out1, w))))"

definition hw_session ::
  "('n, 'x) env \<Rightarrow> huser \<Rightarrow> ('n, 'x) mworld \<Rightarrow> (string list \<times> ('n, 'x) mworld) out" where
  "hw_session e u w =
     bnd (hw_talk e u w) (\<lambda>(u, out1, w).
     bnd (huser_close (mgr_comm e) u w) (\<lambda>w.
     bnd (huser_destroy (mgr_comm e) u w) (\<lambda>w. Ret (out1, w))))"

definition hw_client :: "bool \<Rightarrow> ('n, 'x) env \<Rightarrow> ('n, 'x) mworld \<Rightarrow> (string list \<times> ('n, 'x) mworld) out" where
  "hw_client ndebug e w = bnd (hw_connect ndebug e hw_candidates w) (\<lambda>(u, w). hw_session e u w)"

text \<open>\<open>main\<close>: \<open>argv\<close> are the arguments after the name of the program; the exit code and the lines printed.\<close>

fun hw_main ::
  "bool \<Rightarrow> (nat \<Rightarrow> nat) \<Rightarrow> nat \<Rightarrow> ('n, 'x) env \<Rightarrow> byte list \<Rightarrow> string option \<Rightarrow> string list \<Rightarrow> ('n, 'x) mworld
     \<Rightarrow> (int \<times> string list \<times> ('n, 'x) mworld) out" where
  "hw_main ndebug polls n e buff level (role # app # argv) w =
     bnd (mgr_init_plain e level app w) (\<lambda>(_, w).
     bnd (stol role) (\<lambda>k.
     bnd (if k = 0 then bnd (hw_server ndebug polls n e buff w) (\<lambda>w. Ret ([], w)) else hw_client ndebug e w) (\<lambda>(out1, w).
     bnd (mgr_finalize e False w) (\<lambda>w. Ret (0, out1, w)))))"
| "hw_main ndebug polls n e buff level argv w = Ret (-1, [], w)"

end
