(* ===== verification/HelloWorldProps.thy ===== *)
theory HelloWorldProps
  imports HelloWorld
begin

text \<open>
  The greeter and its client over TCP: what the server does with a stream of messages, as an instance of
  \<open>message_loop\<close>, and a whole session of a client.
\<close>

section \<open>One message\<close>

definition hw_ok :: "byte list \<Rightarrow> byte list \<Rightarrow> bool" where
  "hw_ok buff m \<longleftrightarrow> length buff = max_msg_size + 1 \<and> m \<noteq> [] \<and> length m < max_msg_size \<and> c_string m \<noteq> bye_msg"

definition hw_stored :: "byte list \<Rightarrow> byte list \<Rightarrow> byte list" where
  "hw_stored buff m = (m @ drop (length m) buff)[length m := 0]"

lemma hw_stored_length: "length m \<le> length buff \<Longrightarrow> length (hw_stored buff m) = length buff"
  by (simp add: hw_stored_def)

lemma takeWhile_at_0: "takeWhile (\<lambda>b. b \<noteq> 0) (m @ 0 # x) = takeWhile (\<lambda>b. b \<noteq> 0) m"
  by (induction m) auto

lemma hw_stored_message:
  assumes "length m < length buff"
  shows "c_string (hw_stored buff m) = c_string m" and "take (length m) (hw_stored buff m) = m"
proof -
  from assms have "hw_stored buff m = m @ 0 # drop (Suc (length m)) buff"
    by (simp add: hw_stored_def list_update_append Cons_nth_drop_Suc [symmetric])
  then show "c_string (hw_stored buff m) = c_string m" "take (length m) (hw_stored buff m) = m"
    by (simp_all add: c_string_def takeWhile_at_0)
qed

lemma hw_read:
  fixes w :: "(('o, 'm) tcp_state_scheme, 'x) mworld"
  assumes "peers A inq outq" and "tcp_env A e" and "serving inq L fd h n w" and "realHandle u = Some h"
    and "isReadable u" and "inq fd (os (net w)) = concat (tcp_frame m) @ rest" and "m \<noteq> []"
    and "length m < max_msg_size" and "length m < length buff"
  shows "\<exists>s. hw_message ndebug e u buff w =
      bnd (hw_reply e (u\<lparr>newConnection := False\<rparr>) (int (length m)) (hw_stored buff m) (set_os None s w)) (\<lambda>(u, w).
        Ret (hw_stored buff m, u, w))
    \<and> moved_on inq outq fd rest [] (os (net w)) s"
proof -
  have len: "length m < 2 ^ 63" using assms(8) by (simp add: max_msg_size_def)
  from user_read [OF assms(1-7) order_refl len, of 0] obtain w1 s where
    p: "huser_probe (mgr_comm e) u 0 True w = Ret (8, of_nat (length m), u\<lparr>newConnection := False\<rparr>, w1)"
    and r: "huser_receive (mgr_comm e) (u\<lparr>newConnection := False\<rparr>) (of_nat (length m)) w1 =
      Ret (int (length m), m, u\<lparr>newConnection := False\<rparr>, set_os None s w)"
    and m: "moved_on inq outq fd rest [] (os (net w)) s" by blast
  have sz: "unat (of_nat (length m) :: u64) = length m" using len by (simp add: unat_of_nat_u64)
  have "(of_nat (length m) :: u64) < of_nat max_msg_size"
    using assms(8) len by (simp add: word_less_nat_alt unat_of_nat_u64 max_msg_size_def)
  with p r m assms(7,9) sz show ?thesis by (auto simp: hw_message_def hw_stored_def Let_def)
qed

lemma hw_echoes:
  fixes w :: "(('o, 'm) tcp_state_scheme, 'x) mworld"
  assumes "peers A inq outq" and "tcp_env A e" and "serving inq L fd h n w" and "realHandle u = Some h"
    and "isReadable u" and "\<not> newConnection u" and "inq fd (os (net w)) = concat (tcp_frame m) @ rest"
    and "hw_ok buff m"
  shows "\<exists>w'. hw_server_step ndebug e u buff w = Ret (hw_stored buff m, w') \<and> serving inq L fd h (n - 1) w'
    \<and> fd \<in> fdset (net w') \<and> handleReady w' = handleReady w
    \<and> moved_on inq outq fd rest (concat (tcp_frame m)) (os (net w)) (os (net w'))"
proof -
  let ?u = "u\<lparr>newConnection := False\<rparr>"
  have ok: "m \<noteq> []" "length m < max_msg_size" "length m < length buff" "length m < 2 ^ 63" "c_string m \<noteq> bye_msg"
    using assms(8) by (simp_all add: hw_ok_def max_msg_size_def)
  from hw_read [OF assms(1-5,7) ok(1-3), of ndebug] obtain s where
    r: "hw_message ndebug e u buff w = bnd (hw_reply e ?u (int (length m)) (hw_stored buff m) (set_os None s w)) (\<lambda>(u, w).
        Ret (hw_stored buff m, u, w))"
    and m1: "moved_on inq outq fd rest [] (os (net w)) s" by blast
  note sv = serving_moved [OF assms(3) m1]
  have ru: "realHandle ?u = Some h" "isReadable ?u" using assms(4,5) by simp_all
  from user_write [OF assms(1,2) sv ru(1) ok(4)] obtain s2 where
    x: "huser_send (mgr_comm e) ?u m (set_os None s w) =
      Ret (int (length m), ?u\<lparr>newConnection := False\<rparr>, set_os None s2 (set_os None s w))"
    and m2: "moved_on inq outq fd (inq fd s) (concat (tcp_frame m)) s s2" by auto
  have "moved_on inq outq fd (inq fd s) (concat (tcp_frame m)) (os (net (set_os None s w))) s2" using m2 by simp
  note sv2 = serving_moved [OF sv this]
  from user_drop [OF assms(2) sv2 ru] obtain w' where
    dr: "huser_destroy (mgr_comm e) ?u (set_os None s2 (set_os None s w)) = Ret w'" "serving inq L fd h (n - 1) w'"
    "fd \<in> fdset (net w')" "os (net w') = s2" "handleReady w' = handleReady w" by auto
  have "hw_server_step ndebug e u buff w = Ret (hw_stored buff m, w')"
    using r x dr(1) assms(4,6) ok hw_stored_message [OF ok(3)]
    by (simp add: hw_server_step_def hw_reply_def huser_isNewConnection_def huser_isValid_def)
  moreover have "inq fd s = rest" using m1 by (simp add: moved_on_def)
  ultimately show ?thesis using dr(2-5) moved_on_trans [OF m1 m2] by auto
qed

lemma hw_ends:
  fixes w :: "(('o, 'm) tcp_state_scheme, 'x) mworld"
  assumes "peers A inq outq" and "tcp_env A e" and "serving inq L fd h n w" and "realHandle u = Some h"
    and "isReadable u" and "\<not> newConnection u" and "inq fd (os (net w)) = concat (tcp_frame (bytes_of_string bye_msg)) @ rest"
    and "length buff = max_msg_size + 1"
  shows "\<exists>buff' w' s. hw_server_step ndebug e u buff w = Ret (buff', w') \<and> half_closed h (n - 1) w'
    \<and> os (net w') = wr_ended A fd s \<and> moved_on inq outq fd rest [] (os (net w)) s"
proof -
  let ?u = "u\<lparr>newConnection := False\<rparr>" and ?m = "bytes_of_string bye_msg"
  have ok: "?m \<noteq> []" "length ?m < max_msg_size" "length ?m < length buff" "c_string ?m = bye_msg"
    using c_string_bytes [of bye_msg] assms(8) by (simp_all add: bye_msg_def max_msg_size_def bytes_of_string_def)
  from hw_read [OF assms(1-5,7) ok(1-3), of ndebug] obtain s where
    r: "hw_message ndebug e u buff w = bnd (hw_reply e ?u (int (length ?m)) (hw_stored buff ?m) (set_os None s w)) (\<lambda>(u, w).
        Ret (hw_stored buff ?m, u, w))"
    and m1: "moved_on inq outq fd rest [] (os (net w)) s" by blast
  have ru: "realHandle ?u = Some h" "isReadable ?u" using assms(4,5) by simp_all
  from user_close_drop [OF assms(2) serving_moved [OF assms(3) m1] ru] obtain w2 w3 where
    c: "huser_close (mgr_comm e) ?u (set_os None s w) = Ret w2" "huser_destroy (mgr_comm e) ?u w2 = Ret w3"
    and w3: "half_closed h (n - 1) w3" "os (net w3) = wr_ended A fd s" by auto
  have "hw_server_step ndebug e u buff w = Ret (hw_stored buff ?m, w3)"
    using r c assms(4,6) ok(4) hw_stored_message(1) [OF ok(3)]
    by (simp add: hw_server_step_def hw_reply_def huser_isNewConnection_def huser_isValid_def)
  with w3 m1 show ?thesis by blast
qed

section \<open>The loop of the server\<close>

text \<open>Every wait lasts for a round at least.\<close>

interpretation greeter: message_loop "\<lambda>e n buff w. hw_server_loop ndebug (\<lambda>i. Suc (polls i)) n e buff w" hw_ok hw_stored
  "\<lambda>m. concat (tcp_frame m)" A for ndebug polls and A :: "('o, 'a) tcp_sys_scheme"
proof
  fix inq outq and e :: "(('o, 'b) tcp_state_scheme, 'c) env" and L fd h and j :: int
    and w :: "(('o, 'b) tcp_state_scheme, 'c) mworld" and buff m rest :: "byte list" and n :: nat
  assume env: "peers A inq outq" "tcp_env A e" "2 \<le> bound e"
    and w: "serving inq L fd h j w" "fd \<in> fdset (net w)" "handleReady w = []"
    and m: "hw_ok buff m" "inq fd (os (net w)) = concat (tcp_frame m) @ rest"
  have ne: "inq fd (os (net w)) \<noteq> []" using m(2) frame_nonempty by simp
  have one: "1 \<le> Suc (polls n)" by simp
  from next_polled [OF env(1,2) w ne one] obtain w1 where
    wt: "getNext_for (Suc (polls n)) e w = Ret (huser_at h, w1)" and s1: "serving inq L fd h (j + 1) w1"
    "os (net w1) = os (net w)" "handleReady w1 = []" by auto
  have "inq fd (os (net w1)) = concat (tcp_frame m) @ rest" using m(2) s1(2) by simp
  from hw_echoes [OF env(1,2) s1(1) _ _ _ this m(1), of "huser_at h" ndebug] wt s1
  show "\<exists>w'. hw_server_loop ndebug (\<lambda>i. Suc (polls i)) (Suc n) e buff w =
        hw_server_loop ndebug (\<lambda>i. Suc (polls i)) n e (hw_stored buff m) w'
      \<and> serving inq L fd h j w' \<and> fd \<in> fdset (net w') \<and> handleReady w' = []
      \<and> moved_on inq outq fd rest (concat (tcp_frame m)) (os (net w)) (os (net w'))"
    by fastforce
qed

text \<open>A message that the server echoes: not empty, shorter than the limit, and not the good-bye.\<close>

definition echoed :: "byte list \<Rightarrow> bool" where
  "echoed m \<longleftrightarrow> m \<noteq> [] \<and> length m < max_msg_size \<and> c_string m \<noteq> bye_msg"

lemma hw_stream_ok:
  "\<forall>m \<in> set ms. echoed m \<Longrightarrow> length buff = max_msg_size + 1 \<Longrightarrow>
   stream_ok hw_ok hw_stored buff ms \<and> length (foldl hw_stored buff ms) = max_msg_size + 1"
  by (induction ms arbitrary: buff) (simp_all add: hw_ok_def echoed_def hw_stored_length)

text \<open>An echo: the messages before the good-bye are written back, in order and byte by byte.\<close>

lemma greeter_stream:
  fixes w :: "(('o, 'm) tcp_state_scheme, 'x) mworld"
  assumes "peers A inq outq" and "tcp_env A e" and "2 \<le> bound e" and "serving inq L fd h 0 w"
    and "fd \<in> fdset (net w)" and "handleReady w = []" and "length buff = max_msg_size + 1" and "\<forall>m \<in> set ms. echoed m"
    and "inq fd (os (net w)) = wire ms @ concat (tcp_frame (bytes_of_string bye_msg)) @ rest"
  shows "\<exists>buff' w' s. hw_server_loop ndebug (\<lambda>i. Suc (polls i)) (length ms + 1) e buff w = Ret (buff', w') \<and> half_closed h 0 w'
     \<and> os (net w') = wr_ended A fd s \<and> moved_on inq outq fd rest (wire ms) (os (net w)) s"
proof -
  let ?buff = "foldl hw_stored buff ms"
  note ok = hw_stream_ok [OF assms(8,7)]
  from greeter.serves_all [OF assms(1-3) _ assms(4-6,9), where c = buff and n = 1 and polls = polls and ndebug = ndebug] ok obtain w1 where
    r: "hw_server_loop ndebug (\<lambda>i. Suc (polls i)) (length ms + 1) e buff w =
      hw_server_loop ndebug (\<lambda>i. Suc (polls i)) 1 e ?buff w1"
    and s1: "serving inq L fd h 0 w1" "fd \<in> fdset (net w1)" "handleReady w1 = []"
    and m1: "moved_on inq outq fd (concat (tcp_frame (bytes_of_string bye_msg)) @ rest) (wire ms) (os (net w)) (os (net w1))"
    unfolding wire_concat by blast
  have i: "inq fd (os (net w1)) = concat (tcp_frame (bytes_of_string bye_msg)) @ rest" using m1 by (simp add: moved_on_def)
  then have ne: "inq fd (os (net w1)) \<noteq> []" using frame_nonempty by simp
  have one: "1 \<le> Suc (polls 0)" by simp
  from next_polled [OF assms(1,2) s1 ne one] obtain w2 where
    wt: "getNext_for (Suc (polls 0)) e w1 = Ret (huser_at h, w2)" and s2: "serving inq L fd h 1 w2"
    "os (net w2) = os (net w1)" by auto
  from i s2(2) have "inq fd (os (net w2)) = concat (tcp_frame (bytes_of_string bye_msg)) @ rest" by simp
  from hw_ends [OF assms(1,2) s2(1) _ _ _ this, of "huser_at h" ?buff ndebug] ok obtain buff' w' s where
    "hw_server_step ndebug e (huser_at h) ?buff w2 = Ret (buff', w')" "half_closed h 0 w'" "os (net w') = wr_ended A fd s"
    and m2: "moved_on inq outq fd rest [] (os (net w2)) s" by auto
  with r wt moved_on_trans [OF m1] s2(2) show ?thesis by fastforce
qed

section \<open>The session of a client\<close>

definition hw_line :: "nat \<Rightarrow> string" where
  "hw_line i = take i ''ciao!''"

lemma hw_text_take: "take i hw_text = bytes_of_string (hw_line i)" "c_string (take i hw_text) = hw_line i"
proof -
  show eq: "take i hw_text = bytes_of_string (hw_line i)"
    unfolding hw_text_def hw_line_def bytes_of_string_def by (rule take_map)
  have "CHR 0x00 \<notin> set (hw_line i)" using set_take_subset [of i "''ciao!''"] by (auto simp: hw_line_def)
  then show "c_string (take i hw_text) = hw_line i" unfolding eq by (rule c_string_bytes)
qed

lemma hw_rounds_stream:
  fixes w :: "(('o, 'm) tcp_state_scheme, 'x) mworld"
  assumes "peers A inq outq" and "tcp_env A e"
  shows "serving inq L fd h n w \<Longrightarrow> realHandle u = Some h \<Longrightarrow> isReadable u \<Longrightarrow> 1 \<le> i \<Longrightarrow> i + k \<le> 6
    \<Longrightarrow> inq fd (os (net w)) = wire (map (\<lambda>j. take j hw_text) [i..<i + k]) @ rest
    \<Longrightarrow> \<exists>u' w'. hw_rounds e i k u lines w = Ret (u', lines @ map hw_line [i..<i + k], w')
       \<and> serving inq L fd h n w' \<and> realHandle u' = Some h \<and> isReadable u'
       \<and> moved_on inq outq fd rest (wire (map (\<lambda>j. take j hw_text) [i..<i + k])) (os (net w)) (os (net w'))"
proof (induction k arbitrary: i u lines w)
  case 0
  then show ?case by (intro exI [of _ u] exI [of _ w]) (simp add: moved_on_def)
next
  case (Suc k)
  let ?m = "take i hw_text" and ?u = "u\<lparr>newConnection := False\<rparr>"
  have up: "[i..<i + Suc k] = i # [Suc i..<Suc i + k]" by (simp add: upt_conv_Cons)
  have m: "?m \<noteq> []" "length ?m = i" "length ?m < 2 ^ 63" "i < 2 ^ 63"
    using Suc.prems(4,5) by (auto simp: hw_text_def bytes_of_string_def)
  from user_write [OF assms Suc.prems(1,2) m(3)] obtain s1 where
    x: "huser_send (mgr_comm e) u ?m w = Ret (int (length ?m), ?u, set_os None s1 w)"
    and m1: "moved_on inq outq fd (inq fd (os (net w))) (concat (tcp_frame ?m)) (os (net w)) s1" by blast
  note sv1 = serving_moved [OF Suc.prems(1) m1]
  have ru: "realHandle ?u = Some h" "isReadable ?u" using Suc.prems(2,3) by simp_all
  have "inq fd (os (net (set_os None s1 w))) = concat (tcp_frame ?m) @ (wire (map (\<lambda>j. take j hw_text) [Suc i..<Suc i + k]) @ rest)"
    using m1 Suc.prems(6) unfolding up by (simp add: moved_on_def)
  from user_take [OF assms sv1 ru this m(1) _ m(4)] m(2) obtain s2 where
    r: "huser_receive (mgr_comm e) ?u (of_nat i) (set_os None s1 w) = Ret (int i, ?m, ?u, set_os None s2 (set_os None s1 w))"
    and m2: "moved_on inq outq fd (wire (map (\<lambda>j. take j hw_text) [Suc i..<Suc i + k]) @ rest) [] s1 s2"
    by auto
  let ?w2 = "set_os None s2 (set_os None s1 w)"
  have "moved_on inq outq fd (wire (map (\<lambda>j. take j hw_text) [Suc i..<Suc i + k]) @ rest) [] (os (net (set_os None s1 w))) s2"
    using m2 by simp
  note sv2 = serving_moved [OF sv1 this]
  have left: "inq fd (os (net ?w2)) = wire (map (\<lambda>j. take j hw_text) [Suc i..<Suc i + k]) @ rest"
    using m2 by (simp add: moved_on_def)
  have i: "1 \<le> Suc i" "Suc i + k \<le> 6" using Suc.prems(5) by simp_all
  from Suc.IH [OF sv2 ru i left, of "lines @ [hw_line i]"] obtain u' w' where
    rest: "hw_rounds e (Suc i) k ?u (lines @ [hw_line i]) ?w2 =
        Ret (u', (lines @ [hw_line i]) @ map hw_line [Suc i..<Suc i + k], w')"
    "serving inq L fd h n w'" "realHandle u' = Some h" "isReadable u'"
    and m3: "moved_on inq outq fd rest (wire (map (\<lambda>j. take j hw_text) [Suc i..<Suc i + k])) (os (net ?w2)) (os (net w'))"
    by blast
  have "hw_rounds e i (Suc k) u lines w = Ret (u', lines @ map hw_line [i..<i + Suc k], w')"
    using x r rest(1) m(1,2) Suc.prems(4) hw_text_take(2) [of i] unfolding up by simp
  moreover have "moved_on inq outq fd rest (wire (map (\<lambda>j. take j hw_text) [i..<i + Suc k])) (os (net w)) (os (net w'))"
    using moved_on_trans [OF moved_on_trans [OF m1 m2]] m3 unfolding up by simp
  ultimately show ?case using rest(2-4) by blast
qed

abbreviation hw_messages :: "byte list list" where
  "hw_messages \<equiv> map (\<lambda>j. take j hw_text) [1..<6]"

lemma hw_messages_echoed: "\<forall>m \<in> set hw_messages. echoed m"
proof
  fix m assume "m \<in> set hw_messages"
  then obtain i where i: "1 \<le> i" "i < 6" "m = take i hw_text" by auto
  have len: "length m = min i 5" unfolding i(3) by (simp add: hw_text_def)
  have "c_string m \<noteq> bye_msg" using i(1) unfolding i(3) hw_text_take(2) by (cases i) (simp_all add: hw_line_def bye_msg_def)
  with i(1) len show "echoed m" by (auto simp: echoed_def max_msg_size_def)
qed

lemma hw_session_stream:
  fixes w :: "(('o, 'm) tcp_state_scheme, 'x) mworld"
  assumes "peers A inq outq" and "tcp_env A e" and "serving inq L fd h n w" and "realHandle u = Some h"
    and "isReadable u" and "inq fd (os (net w)) = concat (tcp_frame (bytes_of_string welcome_msg)) @ wire hw_messages @ rest"
  shows "\<exists>w' s. hw_session e u w = Ret (map hw_line [1..<6], w') \<and> half_closed h (n - 1) w' \<and> os (net w') = wr_ended A fd s
    \<and> moved_on inq outq fd rest (wire hw_messages @ concat (tcp_frame (bytes_of_string bye_msg))) (os (net w)) s"
proof -
  let ?u = "u\<lparr>newConnection := False\<rparr>" and ?hi = "bytes_of_string welcome_msg" and ?by = "bytes_of_string bye_msg"
  have hi: "?hi \<noteq> []" "length ?hi \<le> length welcome_msg" "length welcome_msg < 2 ^ 63" "length ?by < 2 ^ 63" "length ?hi = 6"
    by (simp_all add: welcome_msg_def bye_msg_def bytes_of_string_def)
  from user_take [OF assms hi(1-3)] obtain s1 where
    r: "huser_receive (mgr_comm e) u (of_nat (length welcome_msg)) w = Ret (int (length ?hi), ?hi, ?u, set_os None s1 w)"
    and m1: "moved_on inq outq fd (wire hw_messages @ rest) [] (os (net w)) s1" by blast
  note sv1 = serving_moved [OF assms(3) m1]
  have ru: "realHandle ?u = Some h" "isReadable ?u" using assms(4,5) by simp_all
  have i: "(1 :: nat) \<le> 1" "1 + 5 \<le> (6 :: nat)" by simp_all
  have "inq fd (os (net (set_os None s1 w))) = wire (map (\<lambda>j. take j hw_text) [1..<1 + 5]) @ rest"
    using m1 by (simp add: moved_on_def)
  from hw_rounds_stream [OF assms(1,2) sv1 ru i this, of "[]"] obtain u2 w2 where
    l: "hw_rounds e 1 5 ?u [] (set_os None s1 w) = Ret (u2, map hw_line [1..<6], w2)"
    and sv2: "serving inq L fd h n w2" and u2: "realHandle u2 = Some h" "isReadable u2"
    and m2: "moved_on inq outq fd rest (wire hw_messages) s1 (os (net w2))" by auto
  from user_write [OF assms(1,2) sv2 u2(1) hi(4)] obtain s3 where
    x: "huser_send (mgr_comm e) u2 ?by w2 = Ret (int (length ?by), u2\<lparr>newConnection := False\<rparr>, set_os None s3 w2)"
    and m3: "moved_on inq outq fd (inq fd (os (net w2))) (concat (tcp_frame ?by)) (os (net w2)) s3" by blast
  let ?u2 = "u2\<lparr>newConnection := False\<rparr>"
  have ru2: "realHandle ?u2 = Some h" "isReadable ?u2" using u2 by simp_all
  from user_close_drop [OF assms(2) serving_moved [OF sv2 m3] ru2] obtain w4 w5 where
    c: "huser_close (mgr_comm e) ?u2 (set_os None s3 w2) = Ret w4" "huser_destroy (mgr_comm e) ?u2 w4 = Ret w5"
    and w5: "half_closed h (n - 1) w5" "os (net w5) = wr_ended A fd s3" by auto
  have "hw_session e u w = Ret (map hw_line [1..<6], w5)"
    using r l x c hi(5) by (simp add: hw_session_def hw_talk_def)
  moreover have "inq fd (os (net w2)) = rest" using m2 by (simp add: moved_on_def)
  ultimately show ?thesis using w5 moved_on_trans [OF moved_on_trans [OF m1 m2] m3] by auto
qed

lemma hw_greets:
  fixes w :: "(('o, 'm) tcp_state_scheme, 'x) mworld"
  assumes "peers A inq outq" and "tcp_env A e" and "serving inq L fd h n w" and "realHandle u = Some h"
    and "isReadable u" and "newConnection u"
  shows "\<exists>w'. hw_server_step ndebug e u buff w = Ret (buff, w') \<and> serving inq L fd h (n - 1) w' \<and> fd \<in> fdset (net w')
    \<and> handleReady w' = handleReady w
    \<and> moved_on inq outq fd (inq fd (os (net w))) (concat (tcp_frame (bytes_of_string welcome_msg))) (os (net w)) (os (net w'))"
proof -
  have len: "length (bytes_of_string welcome_msg) < 2 ^ 63" by (simp add: welcome_msg_def)
  from user_write [OF assms(1-4) len] obtain s where
    x: "huser_send (mgr_comm e) u (bytes_of_string welcome_msg) w =
      Ret (int (length (bytes_of_string welcome_msg)), u\<lparr>newConnection := False\<rparr>, set_os None s w)"
    and m: "moved_on inq outq fd (inq fd (os (net w))) (concat (tcp_frame (bytes_of_string welcome_msg))) (os (net w)) s"
    by blast
  have ru: "realHandle (u\<lparr>newConnection := False\<rparr>) = Some h" "isReadable (u\<lparr>newConnection := False\<rparr>)"
    using assms(4,5) by simp_all
  from user_drop [OF assms(2) serving_moved [OF assms(3) m] ru] x m assms(4,6) show ?thesis
    by (auto simp: hw_server_step_def huser_isValid_def huser_isNewConnection_def)
qed

text \<open>A message that is too long for the build: the assertion, or the buffer.\<close>

definition hw_long :: "bool \<Rightarrow> byte list \<Rightarrow> bool" where
  "hw_long ndebug m \<longleftrightarrow> (if ndebug then max_msg_size < length m else max_msg_size \<le> length m) \<and> length m < 2 ^ 63"

lemma hw_too_long:
  fixes w :: "(('o, 'm) tcp_state_scheme, 'x) mworld"
  assumes "peers A inq outq" and "tcp_env A e" and "serving inq L fd h n w" and "realHandle u = Some h"
    and "isReadable u" and "\<not> newConnection u" and "inq fd (os (net w)) = concat (tcp_frame m) @ rest"
    and "hw_long ndebug m" and "length buff = max_msg_size + 1"
  shows "hw_server_step ndebug e u buff w = Fault (if ndebug then Out_of_bounds else Aborted)"
proof -
  have m: "max_msg_size \<le> length m" "length m < 2 ^ 63" "ndebug \<Longrightarrow> length buff \<le> length m"
    using assms(8,9) by (auto simp: hw_long_def split: if_splits)
  have ne: "m \<noteq> []" using m(1) by (auto simp: max_msg_size_def)
  from user_read [OF assms(1-5,7) ne order_refl m(2), of 0] obtain w1 s where
    p: "huser_probe (mgr_comm e) u 0 True w = Ret (8, of_nat (length m), u\<lparr>newConnection := False\<rparr>, w1)"
    and r: "huser_receive (mgr_comm e) (u\<lparr>newConnection := False\<rparr>) (of_nat (length m)) w1 =
      Ret (int (length m), m, u\<lparr>newConnection := False\<rparr>, set_os None s w)" by blast
  have sz: "\<not> (of_nat (length m) :: u64) < of_nat max_msg_size" "unat (of_nat (length m) :: u64) = length m"
    using m(1,2) by (simp_all add: word_less_nat_alt unat_of_nat_u64 max_msg_size_def)
  have "hw_message ndebug e u buff w = Fault (if ndebug then Out_of_bounds else Aborted)"
    using p r sz m(3) ne by (cases ndebug) (auto simp: hw_message_def Let_def)
  with assms(4,6) show ?thesis by (simp add: hw_server_step_def huser_isValid_def huser_isNewConnection_def)
qed

lemma greeter_too_long:
  fixes w :: "(('o, 'm) tcp_state_scheme, 'x) mworld"
  assumes "peers A inq outq" and "tcp_env A e" and "2 \<le> bound e" and "serving inq L fd h 0 w"
    and "fd \<in> fdset (net w)" and "handleReady w = []" and "length buff = max_msg_size + 1" and "\<forall>m \<in> set ms. echoed m"
    and "inq fd (os (net w)) = wire ms @ concat (tcp_frame m) @ rest" and "hw_long ndebug m"
  shows "hw_server_loop ndebug (\<lambda>i. Suc (polls i)) (length ms + Suc k) e buff w = Fault (if ndebug then Out_of_bounds else Aborted)"
proof -
  let ?buff = "foldl hw_stored buff ms"
  note ok = hw_stream_ok [OF assms(8,7)]
  from greeter.serves_all [OF assms(1-3) _ assms(4-6,9), where c = buff and n = "Suc k" and polls = polls and ndebug = ndebug] ok obtain w1 where
    r: "hw_server_loop ndebug (\<lambda>i. Suc (polls i)) (length ms + Suc k) e buff w =
      hw_server_loop ndebug (\<lambda>i. Suc (polls i)) (Suc k) e ?buff w1"
    and s1: "serving inq L fd h 0 w1" "fd \<in> fdset (net w1)" "handleReady w1 = []"
    and m1: "moved_on inq outq fd (concat (tcp_frame m) @ rest) (wire ms) (os (net w)) (os (net w1))"
    unfolding wire_concat by blast
  have i: "inq fd (os (net w1)) = concat (tcp_frame m) @ rest" using m1 by (simp add: moved_on_def)
  then have ne: "inq fd (os (net w1)) \<noteq> []" using frame_nonempty by simp
  have one: "1 \<le> Suc (polls k)" by simp
  from next_polled [OF assms(1,2) s1 ne one] obtain w2 where
    wt: "getNext_for (Suc (polls k)) e w1 = Ret (huser_at h, w2)" and s2: "serving inq L fd h (0 + 1) w2"
    "os (net w2) = os (net w1)" by blast
  from i s2(2) have "inq fd (os (net w2)) = concat (tcp_frame m) @ rest" by simp
  from hw_too_long [OF assms(1,2) s2(1) _ _ _ this assms(10), of "huser_at h" ?buff] ok
  have "hw_server_step ndebug e (huser_at h) ?buff w2 = Fault (if ndebug then Out_of_bounds else Aborted)" by simp
  with r wt show ?thesis by (simp del: getNext_for.simps)
qed

section \<open>Properties\<close>

text \<open>C32: A session of \<open>hello_world\<close> over TCP, between the two ends of one connection: each side reads what the other
  writes. The server greets the new connection, echoes five messages and ends its side at the good-bye; the client
  reads the greeting, prints \<open>c\<close>, \<open>ci\<close>, \<open>cia\<close>, \<open>ciao\<close>, \<open>ciao!\<close>, has then written exactly the bytes that the
  server has been assumed to read, and ends its side.\<close>

theorem hello_session:
  fixes w :: "(('o, 'm) tcp_state_scheme, 'x) mworld"
  assumes "peers A inq outq" and "tcp_env A e" and "2 \<le> bound e" and "serving inq L fd h 1 w" and "realHandle u = Some h"
    and "isReadable u" and "newConnection u" and "handleReady w = []" and "length buff = max_msg_size + 1"
    and "inq fd (os (net w)) = wire hw_messages @ concat (tcp_frame (bytes_of_string bye_msg)) @ rest"
    and "peers B inq' outq'" and "tcp_env B d"
  shows "\<exists>w1 buff' w2 s. hw_server_step ndebug e u buff w = Ret (buff, w1)
    \<and> hw_server_loop ndebug (\<lambda>i. Suc (polls i)) 6 e buff w1 = Ret (buff', w2) \<and> half_closed h 0 w2 \<and> os (net w2) = wr_ended A fd s
    \<and> (\<forall>v :: (('p, 'k) tcp_state_scheme, 'y) mworld. \<forall>u' L' fd' h'. serving inq' L' fd' h' 1 v \<and> realHandle u' = Some h'
          \<and> isReadable u' \<and> outq fd s = outq fd (os (net w)) @ inq' fd' (os (net v)) \<longrightarrow>
        (\<exists>v' t. hw_session d u' v = Ret ([''c'', ''ci'', ''cia'', ''ciao'', ''ciao!''], v') \<and> half_closed h' 0 v'
          \<and> os (net v') = wr_ended B fd' t \<and> inq' fd' t = []
          \<and> outq' fd' t @ rest = outq' fd' (os (net v)) @ inq fd (os (net w))))"
proof -
  from hw_greets [OF assms(1,2,4-7), of ndebug buff] assms(8) obtain w1 where
    g: "hw_server_step ndebug e u buff w = Ret (buff, w1)" and s1: "serving inq L fd h 0 w1" "fd \<in> fdset (net w1)" "handleReady w1 = []"
    and m1: "moved_on inq outq fd (inq fd (os (net w))) (concat (tcp_frame (bytes_of_string welcome_msg))) (os (net w)) (os (net w1))"
    by auto
  have i: "inq fd (os (net w1)) = wire hw_messages @ concat (tcp_frame (bytes_of_string bye_msg)) @ rest"
    using m1 assms(10) by (simp only: moved_on_def)
  have six: "length hw_messages + 1 = 6" by simp
  from greeter_stream [OF assms(1-3) s1 assms(9) hw_messages_echoed i, of ndebug polls] obtain buff' w2 s where
    l: "hw_server_loop ndebug (\<lambda>i. Suc (polls i)) 6 e buff w1 = Ret (buff', w2)" "half_closed h 0 w2" "os (net w2) = wr_ended A fd s"
    and m2: "moved_on inq outq fd rest (wire hw_messages) (os (net w1)) s" unfolding six by blast
  have "\<exists>v' t. hw_session d u' v = Ret (map hw_line [1..<6], v') \<and> half_closed h' 0 v' \<and> os (net v') = wr_ended B fd' t
      \<and> inq' fd' t = [] \<and> outq' fd' t @ rest = outq' fd' (os (net v)) @ inq fd (os (net w))"
    if v: "serving inq' L' fd' h' 1 v" "realHandle u' = Some h'" "isReadable u'"
      and o: "outq fd s = outq fd (os (net w)) @ inq' fd' (os (net v))"
    for v :: "(('p, 'k) tcp_state_scheme, 'y) mworld" and u' L' fd' h'
  proof -
    from o moved_on_trans [OF m1 m2]
    have "inq' fd' (os (net v)) = concat (tcp_frame (bytes_of_string welcome_msg)) @ wire hw_messages @ []"
      by (simp add: moved_on_def)
    from hw_session_stream [OF assms(11,12) v this] assms(10) show ?thesis by (fastforce simp: moved_on_def)
  qed
  moreover have "map hw_line [1..<6] = [''c'', ''ci'', ''cia'', ''ciao'', ''ciao!'']"
    by (simp add: hw_line_def upt_rec numeral_eq_Suc)
  ultimately show ?thesis using g l by metis
qed

theorem hello_session_witness:
  "\<exists>w1. hw_server_step True mw_env (mw_users ! 0) (replicate 101 0)
     (put_obj 7 ((new_handle ''TCP'')\<lparr>counter := 1\<rparr>) (mw_world (\<lambda>fd. wire hw_messages @ concat (tcp_frame (bytes_of_string bye_msg)))))
     = Ret (replicate 101 0, w1)"
proof -
  let ?w = "put_obj 7 ((new_handle ''TCP'')\<lparr>counter := 1\<rparr>) (mw_world (\<lambda>fd. wire hw_messages @ concat (tcp_frame (bytes_of_string bye_msg))))"
  have sv: "serving (\<lambda>fd s. fst s fd) {} 3 7 1 ?w"
    by (simp add: serving_def mw_world_def put_obj_def new_handle_def readable_def fd_inv_def FD_SETSIZE_def smap_get_def)
  have u: "realHandle (mw_users ! 0) = Some 7" "isReadable (mw_users ! 0)" "newConnection (mw_users ! 0)"
    by (simp_all add: mw_users_def)
  have q: "handleReady ?w = []" "length (replicate 101 0 :: byte list) = max_msg_size + 1"
    by (simp_all add: put_obj_def mw_world_def max_msg_size_def)
  have i: "fst (os (net ?w)) 3 = wire hw_messages @ concat (tcp_frame (bytes_of_string bye_msg)) @ []"
    unfolding mw_world_def put_obj_def by simp
  from hello_session [OF sel_peers sel_ready(1,2) sv u q i sel_peers sel_ready(1), of True "\<lambda>i. 0"] show ?thesis by blast
qed

text \<open>C36: A client can stop the server, whatever the server has echoed before. In a build with \<open>DEBUG\<close>, a message of
  100 bytes or more fails the assertion on its size: the process aborts, with every other connection it serves. In
  the default build, with \<open>NDEBUG\<close>, nothing checks the size, and a message of more than 100 bytes is written
  behind the end of the buffer.\<close>

theorem hello_long_message_aborts:
  fixes w :: "(('o, 'm) tcp_state_scheme, 'x) mworld"
  assumes "peers A inq outq" and "tcp_env A e" and "2 \<le> bound e" and "serving inq L fd h 0 w"
    and "fd \<in> fdset (net w)" and "handleReady w = []" and "length buff = max_msg_size + 1" and "\<forall>m \<in> set ms. echoed m"
    and "inq fd (os (net w)) = wire ms @ concat (tcp_frame m) @ rest"
    and "(if ndebug then max_msg_size < length m else max_msg_size \<le> length m)" and "length m < 2 ^ 63"
  shows "hw_server_loop ndebug (\<lambda>i. Suc (polls i)) (length ms + Suc k) e buff w =
    Fault (if ndebug then Out_of_bounds else Aborted)"
  using assms(10,11) by (intro greeter_too_long [OF assms(1-9)]) (simp add: hw_long_def)

theorem hello_long_message_aborts_witness:
  "hw_server_loop False (\<lambda>i. Suc 0) 9 mw_env (replicate 101 0)
     (mw_world (\<lambda>fd. wire [[1]] @ concat (tcp_frame (replicate 100 65)))) = Fault Aborted
   \<and> hw_server_loop True (\<lambda>i. Suc 0) 9 mw_env (replicate 101 0)
     (mw_world (\<lambda>fd. wire [[1]] @ concat (tcp_frame (replicate 101 65)))) = Fault Out_of_bounds"
proof -
  have b: "length (replicate 101 0 :: byte list) = max_msg_size + 1" by (simp add: max_msg_size_def)
  have ms: "\<forall>m \<in> set [[1]]. echoed m" by (simp add: echoed_def max_msg_size_def bye_msg_def c_string_def)
  have i: "fst (os (net (mw_world (\<lambda>fd. q)))) 3 = q @ []" for q by (simp add: mw_world_def)
  have n: "length [[1 :: byte]] + Suc 7 = 9" by simp
  have l: "if False then max_msg_size < length (replicate 100 65 :: byte list) else max_msg_size \<le> length (replicate 100 65 :: byte list)"
    "if True then max_msg_size < length (replicate 101 65 :: byte list) else max_msg_size \<le> length (replicate 101 65 :: byte list)"
    by (simp_all add: max_msg_size_def)
  have len: "length (replicate 100 65 :: byte list) < 2 ^ 63" "length (replicate 101 65 :: byte list) < 2 ^ 63" by simp_all
  note go = hello_long_message_aborts [OF sel_peers sel_ready b ms, where rest = "[]" and polls = "\<lambda>i. 0" and k = 7, unfolded n]
  from go [OF _ l(1) len(1)] go [OF _ l(2) len(2)] show ?thesis by (simp add: mw_world_def)
qed

end
