(* ===== verification/PerfP2p.thy ===== *)
theory PerfP2p
  imports Serving
begin

text \<open>
  \<open>examples/p2p-perf.cpp\<close>, built with \<open>DATACHECK\<close>: a server that marks one byte of every message and sends it back, and
  a client that checks the reply.
  \<^item> The loop over the sizes is \<open>doubling\<close>, which would not end from the size 0.
  \<^item> \<open>size_t r\<close> takes the results, so that \<open>r <= 0\<close> is \<open>r = 0\<close>.
  \<^item> The clock, the averages and the table that is printed are not modelled.
\<close>

section \<open>Loops\<close>

function doubling :: "nat \<Rightarrow> nat \<Rightarrow> (nat \<Rightarrow> 's \<Rightarrow> 's out) \<Rightarrow> 's \<Rightarrow> 's out" where
  "doubling hi size1 body s =
     (if hi < size1 then Ret s
      else if size1 = 0 then Fault No_return
      else bnd (body size1 s) (\<lambda>s. doubling hi (size1 * 2) body s))"
  by auto
termination by (relation "measure (\<lambda>(hi, size1, _). Suc hi - size1)") auto

function doublings :: "nat \<Rightarrow> nat \<Rightarrow> nat list" where
  "doublings hi size1 = (if hi < size1 \<or> size1 = 0 then [] else size1 # doublings hi (size1 * 2))"
  by auto
termination by (relation "measure (\<lambda>(hi, size1). Suc hi - size1)") auto

declare doubling.simps [simp del] doublings.simps [simp del]

lemma doubling_each: "0 < size1 \<Longrightarrow> doubling hi size1 body s = run_each body (doublings hi size1) s"
proof (induction hi size1 body s rule: doubling.induct)
  case (1 hi size1 body s)
  show ?case
  proof (cases "hi < size1")
    case False
    then have "doubling hi size1 body s = bnd (body size1 s) (\<lambda>s. doubling hi (size1 * 2) body s)"
      using "1.prems" by (subst doubling.simps) simp
    also have "\<dots> = bnd (body size1 s) (run_each body (doublings hi (size1 * 2)))"
      using "1.IH" [OF False] "1.prems" by (intro bnd_eqI) simp
    also have "\<dots> = run_each body (doublings hi size1) s"
      using False "1.prems" by (subst (2) doublings.simps) simp
    finally show ?thesis .
  qed (subst doubling.simps, subst doublings.simps, simp)
qed

lemma doublings_bounds: "s \<in> set (doublings hi size1) \<Longrightarrow> size1 \<le> s \<and> s \<le> hi \<and> 0 < s"
proof (induction hi size1 rule: doublings.induct)
  case (1 hi size1)
  then show ?case by (auto simp: doublings.simps [of hi size1] split: if_splits)
qed

section \<open>The programs\<close>

definition NROUND :: nat where
  "NROUND = 100"

definition minsize :: nat where
  "minsize = 16"

definition maxsize :: nat where
  "maxsize = 2 ^ 24"

text \<open>The rounds of the server at one size, \<open>n\<close> of them left at \<open>i\<close>; \<open>b\<close> is 98, \<open>a\<close> is 97.\<close>

fun perf_server_rounds ::
  "('n, 'x) env \<Rightarrow> nat \<Rightarrow> nat \<Rightarrow> nat \<Rightarrow> huser \<times> byte list \<times> ('n, 'x) mworld
     \<Rightarrow> (huser \<times> byte list \<times> ('n, 'x) mworld) out" where
  "perf_server_rounds e size1 i 0 s = Ret s"
| "perf_server_rounds e size1 i (Suc n) (u, buff, w) =
     bnd (huser_receive (mgr_comm e) u (of_nat size1) w) (\<lambda>(res, bs, u, w).
     let r = (word_of_int res :: u64); buff = bs @ drop (length bs) buff
     in if r = 0 then Ret (u, buff, w)
        else let buff = buff[i := 98]
             in if r \<noteq> of_nat size1 then Fault Aborted
                else bnd (huser_send (mgr_comm e) u (take size1 buff) w) (\<lambda>(res, u, w).
                     if res \<le> 0 then Ret (u, buff, w) else perf_server_rounds e size1 (i + 1) n (u, buff, w)))"

definition perf_server_sizes ::
  "('n, 'x) env \<Rightarrow> huser \<times> byte list \<times> ('n, 'x) mworld \<Rightarrow> (huser \<times> byte list \<times> ('n, 'x) mworld) out" where
  "perf_server_sizes e s = doubling maxsize minsize (\<lambda>size1. perf_server_rounds e size1 0 NROUND) s"

text \<open>\<open>Server\<close>: \<open>buff0\<close> is the content of the new buffer. The handles are destroyed in the reverse order.\<close>

definition perf_server ::
  "('n, 'x) env \<Rightarrow> string \<Rightarrow> byte list \<Rightarrow> ('n, 'x) mworld \<Rightarrow> ('n, 'x) mworld out" where
  "perf_server e addr buff0 w =
     bnd (mgr_listen e addr w) (\<lambda>(r, w).
     if r = -1 then Ret w
     else bnd (wait_next (bound e) e w) (\<lambda>(u, w).
          bnd (perf_server_sizes e (u, buff0, w)) (\<lambda>(u, _, w).
          bnd (huser_yield (mgr_comm e) u w) (\<lambda>(u, w).
          bnd (wait_next (bound e) e w) (\<lambda>(h, w).
          bnd (huser_close (mgr_comm e) h w) (\<lambda>w.
          bnd (huser_destroy (mgr_comm e) h w) (\<lambda>w. huser_destroy (mgr_comm e) u w)))))))"

text \<open>The data check of the client on \<open>size1\<close> bytes.\<close>

definition perf_check :: "nat \<Rightarrow> nat \<Rightarrow> byte list \<Rightarrow> bool" where
  "perf_check i size1 buff2 = (\<forall>j < size1. buff2 ! j = (if i = j then 98 else 97))"

fun perf_client_rounds ::
  "('n, 'x) env \<Rightarrow> nat \<Rightarrow> nat \<Rightarrow> nat \<Rightarrow> huser \<times> byte list \<times> ('n, 'x) mworld
     \<Rightarrow> (huser \<times> byte list \<times> ('n, 'x) mworld) out" where
  "perf_client_rounds e size1 i 0 s = Ret s"
| "perf_client_rounds e size1 i (Suc n) (u, buff2, w) =
     bnd (huser_send (mgr_comm e) u (take size1 (replicate maxsize 97)) w) (\<lambda>(res, u, w).
     if (word_of_int res :: u64) = 0 then Ret (u, buff2, w)
     else bnd (huser_receive (mgr_comm e) u (of_nat size1) w) (\<lambda>(res, bs, u, w).
          let r = (word_of_int res :: u64); buff2 = bs @ drop (length bs) buff2
          in if r = 0 then Ret (u, buff2, w)
             else if r \<noteq> of_nat size1 then Fault Aborted
             else if \<not> perf_check i size1 buff2 then Fault Aborted
             else perf_client_rounds e size1 (i + 1) n (u, buff2, w)))"

definition perf_client_sizes ::
  "('n, 'x) env \<Rightarrow> huser \<times> byte list \<times> ('n, 'x) mworld \<Rightarrow> (huser \<times> byte list \<times> ('n, 'x) mworld) out" where
  "perf_client_sizes e s = doubling maxsize minsize (\<lambda>size1. perf_client_rounds e size1 0 NROUND) s"

definition perf_client ::
  "('n, 'x) env \<Rightarrow> string \<Rightarrow> byte list \<Rightarrow> ('n, 'x) mworld \<Rightarrow> ('n, 'x) mworld out" where
  "perf_client e addr buff0 w =
     bnd (mgr_connect e addr 5 1000 w) (\<lambda>(u, w).
     if \<not> huser_isValid u then huser_destroy (mgr_comm e) u w
     else bnd (perf_client_sizes e (u, buff0, w)) (\<lambda>(u, _, w).
          bnd (huser_close (mgr_comm e) u w) (\<lambda>w. huser_destroy (mgr_comm e) u w)))"

fun perf_main ::
  "('n, 'x) env \<Rightarrow> byte list \<Rightarrow> string option \<Rightarrow> string list \<Rightarrow> ('n, 'x) mworld \<Rightarrow> (int \<times> ('n, 'x) mworld) out" where
  "perf_main e buff0 level (role # addr # argv) w =
     bnd (mgr_init_plain e level role w) (\<lambda>(_, w).
     bnd (stol role) (\<lambda>k.
     bnd (if k = 0 then perf_server e addr buff0 w else perf_client e addr buff0 w) (\<lambda>w.
     bnd (mgr_finalize e True w) (\<lambda>w. Ret (0, w)))))"
| "perf_main e buff0 level argv w = Ret (-1, w)"

end
