(* ===== verification/PerfP2pProps.thy ===== *)
theory PerfP2pProps
  imports PerfP2p
begin

text \<open>
  The benchmark over TCP: on the streams of one connection, neither an assertion nor the data check of the client
  ever fails.
\<close>

section \<open>Streams\<close>

definition perf_request :: "nat \<Rightarrow> byte list" where
  "perf_request size1 = replicate size1 97"

definition perf_reply :: "nat \<Rightarrow> nat \<Rightarrow> byte list" where
  "perf_reply size1 i = (perf_request size1)[i := 98]"

definition perf_size :: "nat \<Rightarrow> bool" where
  "perf_size size1 \<longleftrightarrow> 0 < size1 \<and> size1 \<le> maxsize"

lemma perf_request_ok:
  assumes "perf_size size1"
  shows "perf_request size1 \<noteq> []" "length (perf_request size1) = size1" "size1 < 2 ^ 63" "size1 < 2 ^ 64"
    "perf_reply size1 i \<noteq> []" "length (perf_reply size1 i) = size1" "take size1 (replicate maxsize 97) = perf_request size1"
  using assms by (auto simp: perf_request_def perf_reply_def perf_size_def maxsize_def min_def simp flip: length_greater_0_conv)

lemma perf_result:
  assumes "perf_size size1"
  shows "(word_of_int (int size1) :: u64) = of_nat size1" and "(of_nat size1 :: u64) \<noteq> 0"
  using assms of_nat_u64_eq_0 [of size1] by (simp_all add: perf_size_def maxsize_def)

section \<open>Roles\<close>

definition perf_sizes :: "nat list" where
  "perf_sizes = doublings maxsize minsize"

lemma perf_sizes_ok: "s \<in> set perf_sizes \<Longrightarrow> perf_size s"
  using doublings_bounds [of s maxsize minsize] by (simp add: perf_sizes_def perf_size_def)

text \<open>All the messages of a kind, for some sizes.\<close>

definition perf_stream :: "(nat \<Rightarrow> nat \<Rightarrow> byte list) \<Rightarrow> nat list \<Rightarrow> byte list list" where
  "perf_stream f ss = concat (map (\<lambda>s. map (f s) [0..<NROUND]) ss)"

abbreviation perf_requests :: "byte list list" where
  "perf_requests \<equiv> perf_stream (\<lambda>s i. perf_request s) perf_sizes"

abbreviation perf_replies :: "byte list list" where
  "perf_replies \<equiv> perf_stream perf_reply perf_sizes"

text \<open>
  The contract of a role: with a message to take and one to give in every round, a round takes the one and gives
  the other. \<open>st ins outs\<close> says which messages are still to be taken and to be given.
\<close>

locale perf_role =
  fixes role :: "nat \<Rightarrow> nat \<Rightarrow> nat \<Rightarrow> 's \<Rightarrow> 's out" and st :: "byte list list \<Rightarrow> byte list list \<Rightarrow> 's \<Rightarrow> bool"
    and takes gives :: "nat \<Rightarrow> nat \<Rightarrow> byte list"
  assumes role_0: "role size1 i 0 s = Ret s"
    and role_Suc: "perf_size size1 \<Longrightarrow> st (takes size1 i # ins) (gives size1 i # outs) s
      \<Longrightarrow> \<exists>s'. role size1 i (Suc n) s = role size1 (i + 1) n s' \<and> st ins outs s'"
begin

lemma rounds_run:
  assumes "perf_size size1"
  shows "st (map (takes size1) [i..<i + k] @ ins) (map (gives size1) [i..<i + k] @ outs) s
    \<Longrightarrow> \<exists>s'. role size1 i k s = Ret s' \<and> st ins outs s'"
proof (induction k arbitrary: i s)
  case (Suc k)
  have up: "[i..<i + Suc k] = i # [i + 1..<i + 1 + k]" by (simp add: upt_conv_Cons)
  have "st (takes size1 i # map (takes size1) [i + 1..<i + 1 + k] @ ins)
      (gives size1 i # map (gives size1) [i + 1..<i + 1 + k] @ outs) s"
    using Suc.prems unfolding up by simp
  from role_Suc [OF assms this] Suc.IH show ?case by metis
qed (simp add: role_0)

lemma sizes_run:
  assumes "st (perf_stream takes perf_sizes) (perf_stream gives perf_sizes) s"
  shows "\<exists>s'. doubling maxsize minsize (\<lambda>size1. role size1 0 NROUND) s = Ret s' \<and> st [] [] s'"
proof -
  let ?P = "\<lambda>ss s. (\<forall>x \<in> set ss. perf_size x) \<and> st (perf_stream takes ss) (perf_stream gives ss) s"
  have step: "\<exists>s'. role x 0 NROUND s = Ret s' \<and> ?P xs s'" if "?P (x # xs) s" for x xs s
    using that rounds_run [of x 0 NROUND "perf_stream takes xs" "perf_stream gives xs" s] by (simp add: perf_stream_def)
  have "?P perf_sizes s" using assms perf_sizes_ok by blast
  from run_each_inv [where P = ?P, OF step this] show ?thesis
    by (simp add: doubling_each minsize_def perf_sizes_def perf_stream_def)
qed

end

section \<open>One connection of the library\<close>

text \<open>The connection between two calls: what is still to be read and, behind what is written, still to be written.\<close>

definition perf_state where
  "perf_state inq outq L fd h n rest full ins outs s \<longleftrightarrow> (case s of (u, buff, w) \<Rightarrow>
     serving inq L fd h n w \<and> realHandle u = Some h \<and> isReadable u \<and> length buff = maxsize
   \<and> inq fd (os (net w)) = wire ins @ rest \<and> outq fd (os (net w)) @ wire outs = full)"

lemma perf_take:
  fixes w :: "(('o, 'm) tcp_state_scheme, 'x) mworld"
  assumes "peers A inq outq" and "tcp_env A e"
    and "perf_state inq outq L fd h n rest full (m # ins) outs (u, buff, w)" and "perf_size size1" and "length m = size1"
    and "length buff' = maxsize"
  shows "\<exists>w'. huser_receive (mgr_comm e) u (of_nat size1) w = Ret (int size1, m, u\<lparr>newConnection := False\<rparr>, w')
    \<and> perf_state inq outq L fd h n rest full ins outs (u\<lparr>newConnection := False\<rparr>, buff', w')"
proof -
  have st: "serving inq L fd h n w" "realHandle u = Some h" "isReadable u"
    "inq fd (os (net w)) = concat (tcp_frame m) @ (wire ins @ rest)"
    using assms(3) by (simp_all add: perf_state_def)
  have m: "m \<noteq> []" "length m \<le> size1" "size1 < 2 ^ 63" using assms(4,5) by (auto simp: perf_size_def maxsize_def)
  from user_take [OF assms(1,2) st m] assms(5) obtain s where
    r: "huser_receive (mgr_comm e) u (of_nat size1) w = Ret (int size1, m, u\<lparr>newConnection := False\<rparr>, set_os None s w)"
    and mv: "moved_on inq outq fd (wire ins @ rest) [] (os (net w)) s" by blast
  from serving_moved [OF st(1) mv] r mv assms(3,6) show ?thesis
    by (intro exI [of _ "set_os None s w"]) (simp add: perf_state_def moved_on_def)
qed

lemma perf_put:
  fixes w :: "(('o, 'm) tcp_state_scheme, 'x) mworld"
  assumes "peers A inq outq" and "tcp_env A e"
    and "perf_state inq outq L fd h n rest full ins (m # outs) (u, buff, w)" and "perf_size size1" and "length m = size1"
  shows "\<exists>w'. huser_send (mgr_comm e) u m w = Ret (int size1, u\<lparr>newConnection := False\<rparr>, w')
    \<and> perf_state inq outq L fd h n rest full ins outs (u\<lparr>newConnection := False\<rparr>, buff, w')"
proof -
  have st: "serving inq L fd h n w" "realHandle u = Some h" "length m < 2 ^ 63"
    using assms(3-5) by (simp_all add: perf_state_def perf_size_def maxsize_def)
  from user_write [OF assms(1,2) st] assms(5) obtain s where
    r: "huser_send (mgr_comm e) u m w = Ret (int size1, u\<lparr>newConnection := False\<rparr>, set_os None s w)"
    and mv: "moved_on inq outq fd (inq fd (os (net w))) (concat (tcp_frame m)) (os (net w)) s" by blast
  from serving_moved [OF st(1) mv] r mv assms(3) show ?thesis
    by (intro exI [of _ "set_os None s w"]) (simp add: perf_state_def moved_on_def)
qed

lemma perf_check_reply:
  assumes "perf_size size1"
  shows "perf_check i size1 (perf_reply size1 i @ buff)"
  using perf_request_ok(6) [OF assms]
  by (simp add: perf_check_def nth_append perf_reply_def perf_request_def nth_list_update)

lemma perf_marked:
  assumes "perf_size size1" and "length buff = maxsize"
  shows "take size1 ((perf_request size1 @ drop size1 buff)[i := 98]) = perf_reply size1 i"
    and "length ((perf_request size1 @ drop size1 buff)[i := 98]) = maxsize"
    and "length (perf_reply size1 i @ drop size1 buff) = maxsize"
  using assms perf_request_ok [OF assms(1)] by (simp_all add: perf_reply_def take_update_swap perf_size_def)

text \<open>The states of a role over TCP.\<close>

definition perf_tcp where
  "perf_tcp A e inq outq L fd h n rest full ins outs s \<longleftrightarrow>
     peers A inq outq \<and> tcp_env A e \<and> perf_state inq outq L fd h n rest full ins outs s"

interpretation tcp_server: perf_role "perf_server_rounds e" "perf_tcp A e inq outq L fd h n rest full"
  "\<lambda>size1 i. perf_request size1" perf_reply
  for A :: "('o, 'a) tcp_sys_scheme" and e :: "(('o, 'm) tcp_state_scheme, 'x) env" and inq outq L fd h n rest full
proof
  fix size1 i k :: nat and ins outs and s :: "huser \<times> byte list \<times> (('o, 'm) tcp_state_scheme, 'x) mworld"
  assume sz: "perf_size size1"
    and s: "perf_tcp A e inq outq L fd h n rest full (perf_request size1 # ins) (perf_reply size1 i # outs) s"
  obtain u buff w where e: "s = (u, buff, w)" by (cases s) auto
  let ?m = "perf_request size1" and ?u = "u\<lparr>newConnection := False\<rparr>"
  let ?buff = "(?m @ drop size1 buff)[i := 98]"
  note ok = perf_request_ok [OF sz]
  from s have env: "peers A inq outq" "tcp_env A e"
    and st: "perf_state inq outq L fd h n rest full (?m # ins) (perf_reply size1 i # outs) (u, buff, w)"
    by (simp_all add: perf_tcp_def e)
  have lb: "length buff = maxsize" using st by (simp add: perf_state_def)
  note mk = perf_marked [OF sz lb]
  from perf_take [OF env st sz ok(2) mk(2)] obtain w1 where
    r: "huser_receive (mgr_comm e) u (of_nat size1) w = Ret (int size1, ?m, ?u, w1)"
    and s1: "perf_state inq outq L fd h n rest full ins (perf_reply size1 i # outs) (?u, ?buff, w1)" by blast
  from perf_put [OF env s1 sz ok(6)] obtain w2 where
    x: "huser_send (mgr_comm e) ?u (perf_reply size1 i) w1 = Ret (int size1, ?u, w2)"
    and s2: "perf_state inq outq L fd h n rest full ins outs (?u, ?buff, w2)" by auto
  have "perf_server_rounds e size1 i (Suc k) s = perf_server_rounds e size1 (i + 1) k (?u, ?buff, w2)"
    using r x mk(1) ok(2) perf_result [OF sz] sz by (simp add: e Let_def perf_size_def)
  with s2 env show "\<exists>s'. perf_server_rounds e size1 i (Suc k) s = perf_server_rounds e size1 (i + 1) k s'
      \<and> perf_tcp A e inq outq L fd h n rest full ins outs s'"
    by (auto simp: perf_tcp_def)
qed simp

interpretation tcp_client: perf_role "perf_client_rounds e" "perf_tcp A e inq outq L fd h n rest full"
  perf_reply "\<lambda>size1 i. perf_request size1"
  for A :: "('o, 'a) tcp_sys_scheme" and e :: "(('o, 'm) tcp_state_scheme, 'x) env" and inq outq L fd h n rest full
proof
  fix size1 i k :: nat and ins outs and s :: "huser \<times> byte list \<times> (('o, 'm) tcp_state_scheme, 'x) mworld"
  assume sz: "perf_size size1"
    and s: "perf_tcp A e inq outq L fd h n rest full (perf_reply size1 i # ins) (perf_request size1 # outs) s"
  obtain u buff w where e: "s = (u, buff, w)" by (cases s) auto
  let ?m = "perf_request size1" and ?u = "u\<lparr>newConnection := False\<rparr>"
  let ?buff = "perf_reply size1 i @ drop size1 buff"
  note ok = perf_request_ok [OF sz]
  from s have env: "peers A inq outq" "tcp_env A e"
    and st: "perf_state inq outq L fd h n rest full (perf_reply size1 i # ins) (?m # outs) (u, buff, w)"
    by (simp_all add: perf_tcp_def e)
  have lb: "length buff = maxsize" using st by (simp add: perf_state_def)
  from perf_put [OF env st sz ok(2)] obtain w1 where
    x: "huser_send (mgr_comm e) u ?m w = Ret (int size1, ?u, w1)"
    and s1: "perf_state inq outq L fd h n rest full (perf_reply size1 i # ins) outs (?u, buff, w1)" by blast
  from perf_take [OF env s1 sz ok(6) perf_marked(3) [OF sz lb]] obtain w2 where
    r: "huser_receive (mgr_comm e) ?u (of_nat size1) w1 = Ret (int size1, perf_reply size1 i, ?u, w2)"
    and s2: "perf_state inq outq L fd h n rest full ins outs (?u, ?buff, w2)" by auto
  have "perf_client_rounds e size1 i (Suc k) s = perf_client_rounds e size1 (i + 1) k (?u, ?buff, w2)"
    using r x ok(6,7) perf_result [OF sz] perf_check_reply [OF sz] by (simp add: e Let_def)
  with s2 env show "\<exists>s'. perf_client_rounds e size1 i (Suc k) s = perf_client_rounds e size1 (i + 1) k s'
      \<and> perf_tcp A e inq outq L fd h n rest full ins outs s'"
    by (auto simp: perf_tcp_def)
qed simp

section \<open>Properties\<close>

text \<open>C31: The benchmark \<open>p2p-perf\<close> runs to its end over TCP, between the two ends of one connection, where each side
  reads what the other writes: the server returns from its loops over sizes and rounds, so does the client, none of
  their assertions and no data check of the client fails, and the client has written exactly the requests that
  the server has been assumed to read.\<close>

theorem perf_never_aborts:
  fixes w :: "(('o, 'm) tcp_state_scheme, 'x) mworld"
  assumes "peers A inq outq" and "tcp_env A e" and "serving inq L fd h n w" and "realHandle u = Some h"
    and "isReadable u" and "length buff = maxsize" and "inq fd (os (net w)) = wire perf_requests @ rest"
    and "peers B inq' outq'" and "tcp_env B d"
  shows "\<exists>u1 buff1 w'. perf_server_sizes e (u, buff, w) = Ret (u1, buff1, w') \<and> serving inq L fd h n w'
    \<and> inq fd (os (net w')) = rest
    \<and> (\<forall>v :: (('p, 'k) tcp_state_scheme, 'y) mworld. \<forall>u' buff' L' fd' h' n'. serving inq' L' fd' h' n' v
          \<and> realHandle u' = Some h' \<and> isReadable u' \<and> length buff' = maxsize
          \<and> outq fd (os (net w')) = outq fd (os (net w)) @ inq' fd' (os (net v)) \<longrightarrow>
        (\<exists>u2 buff2 v'. perf_client_sizes d (u', buff', v) = Ret (u2, buff2, v') \<and> serving inq' L' fd' h' n' v'
          \<and> inq' fd' (os (net v')) = []
          \<and> outq' fd' (os (net v')) @ rest = outq' fd' (os (net v)) @ inq fd (os (net w))))"
proof -
  let ?req = perf_requests and ?rep = perf_replies
  have "perf_tcp A e inq outq L fd h n rest (outq fd (os (net w)) @ wire ?rep) ?req ?rep (u, buff, w)"
    using assms(1-7) by (simp add: perf_tcp_def perf_state_def)
  from tcp_server.sizes_run [OF this] obtain u1 buff1 w' where
    s: "perf_server_sizes e (u, buff, w) = Ret (u1, buff1, w')" "serving inq L fd h n w'"
    "inq fd (os (net w')) = rest" "outq fd (os (net w')) = outq fd (os (net w)) @ wire ?rep"
    by (auto simp: perf_tcp_def perf_state_def perf_server_sizes_def)
  have "\<exists>u2 buff2 v'. perf_client_sizes d (u', buff', v) = Ret (u2, buff2, v') \<and> serving inq' L' fd' h' n' v'
      \<and> inq' fd' (os (net v')) = [] \<and> outq' fd' (os (net v')) @ rest = outq' fd' (os (net v)) @ inq fd (os (net w))"
    if v: "serving inq' L' fd' h' n' v" "realHandle u' = Some h'" "isReadable u'" "length buff' = maxsize"
      and o: "outq fd (os (net w')) = outq fd (os (net w)) @ inq' fd' (os (net v))"
    for v :: "(('p, 'k) tcp_state_scheme, 'y) mworld" and u' buff' L' fd' h' n'
  proof -
    from o s(4) have "inq' fd' (os (net v)) = wire ?rep @ []" by simp
    then have "perf_tcp B d inq' outq' L' fd' h' n' [] (outq' fd' (os (net v)) @ wire ?req) ?rep ?req (u', buff', v)"
      using v assms(8,9) by (simp add: perf_tcp_def perf_state_def)
    from tcp_client.sizes_run [OF this] obtain u2 buff2 v' where
      "perf_client_sizes d (u', buff', v) = Ret (u2, buff2, v')" "serving inq' L' fd' h' n' v'"
      "inq' fd' (os (net v')) = []" "outq' fd' (os (net v')) = outq' fd' (os (net v)) @ wire ?req"
      by (auto simp: perf_tcp_def perf_state_def perf_client_sizes_def)
    with assms(7) show ?thesis by simp
  qed
  with s show ?thesis by blast
qed

theorem perf_never_aborts_witness:
  "\<exists>u1 buff1 w'. perf_server_sizes mw_env (mw_users ! 0, replicate maxsize 0,
     mw_world (\<lambda>fd. wire perf_requests)) = Ret (u1, buff1, w')"
proof -
  have u: "realHandle (mw_users ! 0) = Some 7" "isReadable (mw_users ! 0)" by (simp_all add: mw_users_def)
  have b: "length (replicate maxsize 0 :: byte list) = maxsize" by simp
  have i: "fst (os (net (mw_world (\<lambda>fd. wire perf_requests)))) 3 = wire perf_requests @ []"
    by (simp add: mw_world_def)
  from perf_never_aborts [OF sel_peers sel_ready(1,3) u b i sel_peers sel_ready(1)] show ?thesis by blast
qed

end
