(* ===== verification/MpiPerf.thy ===== *)
theory MpiPerf
  imports PerfP2pProps
begin

text \<open>
  \<open>examples/mpi_p2p-perf.cpp\<close> and \<open>examples/mpi_p2p-perf_async.cpp\<close>: the same benchmark on the MPI library alone, to
  compare with. The two differ in how a message is given away, \<open>MPI_Send\<close> or \<open>MPI_Isend\<close> and \<open>MPI_Wait\<close>, which is
  the argument \<open>put\<close>; every call goes to \<open>MPI_COMM_WORLD\<close> with tag 1, and the peer of rank 0 is rank 1. As in
  \<open>PerfP2p\<close>, neither clock nor output is modelled.
\<close>

section \<open>The programs\<close>

record 'o mpi_nb_lib = "'o mpi_lib" +
  mpi_isend :: "nat \<Rightarrow> int \<Rightarrow> int \<Rightarrow> int \<Rightarrow> byte list \<Rightarrow> 'o \<Rightarrow> (int \<times> nat) \<times> 'o"   \<comment> \<open>code, request\<close>
  mpi_wait :: "nat \<Rightarrow> 'o \<Rightarrow> 'o out"

definition put_send :: "('o, 'a) mpi_lib_scheme \<Rightarrow> int \<Rightarrow> nat \<Rightarrow> byte list \<Rightarrow> 'o \<Rightarrow> (int \<times> 'o) out" where
  "put_send A peer size1 bs s = Ret (mpi_send A MPI_COMM_WORLD peer 1 (int_count (of_nat size1)) bs s)"

definition put_isend :: "('o, 'a) mpi_nb_lib_scheme \<Rightarrow> int \<Rightarrow> nat \<Rightarrow> byte list \<Rightarrow> 'o \<Rightarrow> (int \<times> 'o) out" where
  "put_isend A peer size1 bs s =
     (let ((e, req), s) = mpi_isend A MPI_COMM_WORLD peer 1 (int_count (of_nat size1)) bs s
      in if e \<noteq> 0 then Ret (e, s) else bnd (mpi_wait A req s) (\<lambda>s. Ret (0, s)))"

fun mpi_server_rounds ::
  "('o, 'a) mpi_lib_scheme \<Rightarrow> (int \<Rightarrow> nat \<Rightarrow> byte list \<Rightarrow> 'o \<Rightarrow> (int \<times> 'o) out) \<Rightarrow> nat \<Rightarrow> nat \<Rightarrow> nat \<Rightarrow> byte list \<times> 'o
     \<Rightarrow> (byte list \<times> 'o) out" where
  "mpi_server_rounds A put size1 i 0 st = Ret st"
| "mpi_server_rounds A put size1 i (Suc n) (buff, s) =
     bnd (mpi_recv A MPI_COMM_WORLD 1 1 (int_count (of_nat size1)) s) (\<lambda>(e, bs, s).
     let buff = bs @ drop (length bs) buff
     in if e \<noteq> 0 then Ret (buff, s)
        else let buff = buff[i := 98]
             in bnd (put 1 size1 (take size1 buff) s) (\<lambda>(e, s).
                if e \<noteq> 0 then Ret (buff, s) else mpi_server_rounds A put size1 (i + 1) n (buff, s)))"

fun mpi_client_rounds ::
  "('o, 'a) mpi_lib_scheme \<Rightarrow> (int \<Rightarrow> nat \<Rightarrow> byte list \<Rightarrow> 'o \<Rightarrow> (int \<times> 'o) out) \<Rightarrow> nat \<Rightarrow> nat \<Rightarrow> nat \<Rightarrow> byte list \<times> 'o
     \<Rightarrow> (byte list \<times> 'o) out" where
  "mpi_client_rounds A put size1 i 0 st = Ret st"
| "mpi_client_rounds A put size1 i (Suc n) (buff2, s) =
     bnd (put 0 size1 (take size1 (replicate maxsize 97)) s) (\<lambda>(e, s).
     if e \<noteq> 0 then Ret (buff2, s)
     else bnd (mpi_recv A MPI_COMM_WORLD 0 1 (int_count (of_nat size1)) s) (\<lambda>(e, bs, s).
          let buff2 = bs @ drop (length bs) buff2
          in if e \<noteq> 0 then Ret (buff2, s)
             else if \<not> perf_check i size1 buff2 then Fault Aborted
             else mpi_client_rounds A put size1 (i + 1) n (buff2, s)))"

definition mpi_perf_server where
  "mpi_perf_server A put st = doubling maxsize minsize (\<lambda>size1. mpi_server_rounds A put size1 0 NROUND) st"

definition mpi_perf_client where
  "mpi_perf_client A put st = doubling maxsize minsize (\<lambda>size1. mpi_client_rounds A put size1 0 NROUND) st"

definition mpi_async_server :: "('o, 'a) mpi_nb_lib_scheme \<Rightarrow> byte list \<times> 'o \<Rightarrow> (byte list \<times> 'o) out" where
  "mpi_async_server A = mpi_perf_server A (put_isend A)"

definition mpi_async_client :: "('o, 'a) mpi_nb_lib_scheme \<Rightarrow> byte list \<times> 'o \<Rightarrow> (byte list \<times> 'o) out" where
  "mpi_async_client A = mpi_perf_client A (put_isend A)"

text \<open>\<open>main\<close>: the rank decides the role, and \<open>argv[2]\<close> is read whatever the number \<open>argc\<close> of arguments; after the
  last one \<open>argv\<close> has a null pointer. \<open>mpi_init1\<close> is \<open>MPI_Init\<close>, \<open>buff0\<close> the content of the new buffer.\<close>

definition mpi_perf_main ::
  "('o, 'a) mpi_lib_scheme \<Rightarrow> ('o \<Rightarrow> 'o) \<Rightarrow> nat \<Rightarrow> byte list \<Rightarrow> 'o \<Rightarrow> 'o out" where
  "mpi_perf_main A mpi_init1 argc buff0 s =
     (let s = mpi_init1 s
      in if argc < 2 then Fault Out_of_bounds
         else bnd (if mpi_comm_rank A s = 0 then mpi_perf_server A (put_send A) (buff0, s)
                   else mpi_perf_client A (put_send A) (buff0, s)) (\<lambda>(_, s). Ret (mpi_finalize A s)))"

definition mpi_async_main ::
  "('o, 'a) mpi_nb_lib_scheme \<Rightarrow> ('o \<Rightarrow> 'o) \<Rightarrow> nat \<Rightarrow> byte list \<Rightarrow> 'o \<Rightarrow> 'o out" where
  "mpi_async_main A mpi_init1 argc buff0 s =
     (let s = mpi_init1 s
      in if argc < 2 then Fault Out_of_bounds
         else bnd (if mpi_comm_rank A s = 0 then mpi_async_server A (buff0, s) else mpi_async_client A (buff0, s))
                (\<lambda>(_, s). Ret (mpi_finalize A s)))"

section \<open>What is given is taken\<close>

text \<open>A way to give a message away: it is added to its channel, and the messages that have arrived stay.\<close>

definition puts_to ::
  "(int \<Rightarrow> nat \<Rightarrow> byte list \<Rightarrow> 'o \<Rightarrow> (int \<times> 'o) out) \<Rightarrow> 'o queues \<Rightarrow> 'o queues \<Rightarrow> bool" where
  "puts_to put inq outq \<longleftrightarrow>
     (\<forall>peer size1 bs s. perf_size size1 \<and> length bs = size1 \<longrightarrow>
        (\<exists>s'. put peer size1 bs s = Ret (0, s') \<and> (\<forall>q. inq q s' = inq q s)
           \<and> (\<forall>q. outq q s' = (if q = (MPI_COMM_WORLD, peer, 1) then outq q s @ [bs] else outq q s))))"

definition takes_from :: "('o, 'a) mpi_lib_scheme \<Rightarrow> 'o queues \<Rightarrow> 'o queues \<Rightarrow> bool" where
  "takes_from A inq outq \<longleftrightarrow>
     mpi_fifo A inq \<and> (\<forall>c r t n s e bs s'. mpi_recv A c r t n s = Ret (e, bs, s') \<longrightarrow> (\<forall>q. outq q s' = outq q s))"

lemma size_count: "perf_size size1 \<Longrightarrow> int_count (of_nat size1) = int size1"
  by (rule int_count_of_nat) (simp add: perf_size_def maxsize_def)

lemma put_send_puts:
  assumes "mpi_sends A outq" and "\<forall>c r t n bs s q. inq q (snd (mpi_send A c r t n bs s)) = inq q s"
  shows "puts_to (put_send A) inq outq"
  unfolding puts_to_def
proof (intro allI impI)
  fix peer :: int and size1 :: nat and bs :: "byte list" and s
  assume "perf_size size1 \<and> length bs = size1"
  then have sz: "perf_size size1" "length bs = size1" by simp_all
  from assms(1) have "\<exists>s'. mpi_send A MPI_COMM_WORLD peer 1 (int (length bs)) bs s = (0, s')
      \<and> (\<forall>q. outq q s' = (if q = (MPI_COMM_WORLD, peer, 1) then outq q s @ [bs] else outq q s))"
    unfolding mpi_sends_def by blast
  then obtain s' where s': "mpi_send A MPI_COMM_WORLD peer 1 (int (length bs)) bs s = (0, s')"
    "\<forall>q. outq q s' = (if q = (MPI_COMM_WORLD, peer, 1) then outq q s @ [bs] else outq q s)" by blast
  from assms(2) s'(1) have "\<forall>q. inq q s' = inq q s" by (metis snd_conv)
  with s' sz(2) size_count [OF sz(1)]
  show "\<exists>s'. put_send A peer size1 bs s = Ret (0, s') \<and> (\<forall>q. inq q s' = inq q s)
      \<and> (\<forall>q. outq q s' = (if q = (MPI_COMM_WORLD, peer, 1) then outq q s @ [bs] else outq q s))"
    by (intro exI [of _ s']) (simp add: put_send_def)
qed

text \<open>\<open>MPI_Isend\<close> queues the message, which the library delivers, and \<open>MPI_Wait\<close> returns.\<close>

definition nb_sends :: "('o, 'a) mpi_nb_lib_scheme \<Rightarrow> 'o queues \<Rightarrow> 'o queues \<Rightarrow> bool" where
  "nb_sends A inq outq \<longleftrightarrow>
     (\<forall>c r t bs s. \<exists>req s'. mpi_isend A c r t (int (length bs)) bs s = ((0, req), s') \<and> (\<forall>q. inq q s' = inq q s)
        \<and> (\<forall>q. outq q s' = (if q = (c, r, t) then outq q s @ [bs] else outq q s)))
   \<and> (\<forall>req s. \<exists>s'. mpi_wait A req s = Ret s' \<and> (\<forall>q. inq q s' = inq q s \<and> outq q s' = outq q s))"

lemma put_isend_puts:
  assumes "nb_sends A inq outq"
  shows "puts_to (put_isend A) inq outq"
  unfolding puts_to_def
proof (intro allI impI)
  fix peer :: int and size1 :: nat and bs :: "byte list" and s
  assume "perf_size size1 \<and> length bs = size1"
  then have sz: "perf_size size1" "length bs = size1" by simp_all
  from assms obtain req s1 where s1: "mpi_isend A MPI_COMM_WORLD peer 1 (int (length bs)) bs s = ((0, req), s1)"
    "\<forall>q. inq q s1 = inq q s" "\<forall>q. outq q s1 = (if q = (MPI_COMM_WORLD, peer, 1) then outq q s @ [bs] else outq q s)"
    unfolding nb_sends_def by blast
  from assms obtain s2 where "mpi_wait A req s1 = Ret s2" "\<forall>q. inq q s2 = inq q s1 \<and> outq q s2 = outq q s1"
    unfolding nb_sends_def by blast
  with s1 sz(2) size_count [OF sz(1)]
  show "\<exists>s'. put_isend A peer size1 bs s = Ret (0, s') \<and> (\<forall>q. inq q s' = inq q s)
      \<and> (\<forall>q. outq q s' = (if q = (MPI_COMM_WORLD, peer, 1) then outq q s @ [bs] else outq q s))"
    by (intro exI [of _ s2]) (simp add: put_isend_def)
qed

text \<open>The state of a process: what has still to arrive from its peer and to be given to it.\<close>

definition perf_mpi where
  "perf_mpi A put inq outq peer full ins outs st \<longleftrightarrow> (case st of (buff, s) \<Rightarrow>
     takes_from A inq outq \<and> puts_to put inq outq \<and> length buff = maxsize
   \<and> inq (MPI_COMM_WORLD, peer, 1) s = ins \<and> outq (MPI_COMM_WORLD, peer, 1) s @ outs = full)"

lemma mpi_take:
  assumes "perf_mpi A put inq outq peer full (m # ins) outs (buff, s)" and "perf_size size1" and "length m = size1"
    and "length buff' = maxsize"
  shows "\<exists>s'. mpi_recv A MPI_COMM_WORLD peer 1 (int_count (of_nat size1)) s = Ret (0, m, s')
    \<and> perf_mpi A put inq outq peer full ins outs (buff', s')"
proof -
  have "mpi_fifo A inq" "inq (MPI_COMM_WORLD, peer, 1) s = m # ins" using assms(1) by (simp_all add: perf_mpi_def takes_from_def)
  then obtain s' where s': "mpi_recv A MPI_COMM_WORLD peer 1 (int size1) s = Ret (0, m, s')"
    "\<forall>q. inq q s' = (if q = (MPI_COMM_WORLD, peer, 1) then ins else inq q s)"
    using assms(3) unfolding mpi_fifo_def by (metis order_refl)
  from assms(1) s'(1) have "\<forall>q. outq q s' = outq q s" unfolding perf_mpi_def takes_from_def by fast
  with assms(1,4) s' show ?thesis
    by (intro exI [of _ s']) (simp add: perf_mpi_def size_count [OF assms(2)])
qed

lemma mpi_put:
  assumes "perf_mpi A put inq outq peer full ins (m # outs) (buff, s)" and "perf_size size1" and "length m = size1"
  shows "\<exists>s'. put peer size1 m s = Ret (0, s') \<and> perf_mpi A put inq outq peer full ins outs (buff, s')"
proof -
  have "puts_to put inq outq" using assms(1) by (simp add: perf_mpi_def)
  then obtain s' where "put peer size1 m s = Ret (0, s')" "\<forall>q. inq q s' = inq q s"
    "\<forall>q. outq q s' = (if q = (MPI_COMM_WORLD, peer, 1) then outq q s @ [m] else outq q s)"
    using assms(2,3) unfolding puts_to_def by blast
  with assms(1) show ?thesis by (intro exI [of _ s']) (simp add: perf_mpi_def)
qed

interpretation mpi_server: perf_role "mpi_server_rounds A put" "perf_mpi A put inq outq 1 full"
  "\<lambda>size1 i. perf_request size1" perf_reply
  for A :: "('o, 'a) mpi_lib_scheme" and put inq outq full
proof
  fix size1 i k :: nat and ins outs and st :: "byte list \<times> 'o"
  assume sz: "perf_size size1" and st: "perf_mpi A put inq outq 1 full (perf_request size1 # ins) (perf_reply size1 i # outs) st"
  obtain buff s where e: "st = (buff, s)" by (cases st) auto
  note ok = perf_request_ok [OF sz]
  have lb: "length buff = maxsize" using st by (simp add: perf_mpi_def e)
  note mk = perf_marked [OF sz lb]
  let ?buff = "(perf_request size1 @ drop size1 buff)[i := 98]"
  from mpi_take [OF st [unfolded e] sz ok(2) mk(2)] obtain s1 where
    r: "mpi_recv A MPI_COMM_WORLD 1 1 (int_count (of_nat size1)) s = Ret (0, perf_request size1, s1)"
    and s1: "perf_mpi A put inq outq 1 full ins (perf_reply size1 i # outs) (?buff, s1)" by blast
  from mpi_put [OF s1 sz ok(6)] obtain s2 where
    x: "put 1 size1 (perf_reply size1 i) s1 = Ret (0, s2)" "perf_mpi A put inq outq 1 full ins outs (?buff, s2)" by blast
  from r x mk(1) ok(2)
  show "\<exists>s'. mpi_server_rounds A put size1 i (Suc k) st = mpi_server_rounds A put size1 (i + 1) k s'
      \<and> perf_mpi A put inq outq 1 full ins outs s'"
    by (intro exI [of _ "(?buff, s2)"]) (simp add: e Let_def)
qed simp

interpretation mpi_client: perf_role "mpi_client_rounds A put" "perf_mpi A put inq outq 0 full"
  perf_reply "\<lambda>size1 i. perf_request size1"
  for A :: "('o, 'a) mpi_lib_scheme" and put inq outq full
proof
  fix size1 i k :: nat and ins outs and st :: "byte list \<times> 'o"
  assume sz: "perf_size size1" and st: "perf_mpi A put inq outq 0 full (perf_reply size1 i # ins) (perf_request size1 # outs) st"
  obtain buff s where e: "st = (buff, s)" by (cases st) auto
  note ok = perf_request_ok [OF sz]
  have lb: "length buff = maxsize" using st by (simp add: perf_mpi_def e)
  from mpi_put [OF st [unfolded e] sz ok(2)] obtain s1 where
    x: "put 0 size1 (perf_request size1) s = Ret (0, s1)"
    and s1: "perf_mpi A put inq outq 0 full (perf_reply size1 i # ins) outs (buff, s1)" by blast
  let ?buff = "perf_reply size1 i @ drop size1 buff"
  from mpi_take [OF s1 sz ok(6) perf_marked(3) [OF sz lb]] obtain s2 where
    r: "mpi_recv A MPI_COMM_WORLD 0 1 (int_count (of_nat size1)) s1 = Ret (0, perf_reply size1 i, s2)"
    and s2: "perf_mpi A put inq outq 0 full ins outs (?buff, s2)" by blast
  from x r s2 ok(6,7) perf_check_reply [OF sz]
  show "\<exists>s'. mpi_client_rounds A put size1 i (Suc k) st = mpi_client_rounds A put size1 (i + 1) k s'
      \<and> perf_mpi A put inq outq 0 full ins outs s'"
    by (intro exI [of _ "(?buff, s2)"]) (simp add: e Let_def)
qed simp

text \<open>Over a library that keeps the order of the messages the loops of either program end, and no check of the data
  fails; \<open>put_send_puts\<close> and \<open>put_isend_puts\<close> give what \<open>perf_mpi\<close> asks of \<open>put\<close>.\<close>

lemma mpi_server_ends:
  assumes "perf_mpi A put inq outq 1 full perf_requests perf_replies st"
  shows "\<exists>st'. mpi_perf_server A put st = Ret st' \<and> perf_mpi A put inq outq 1 full [] [] st'"
  using mpi_server.sizes_run [OF assms] by (simp add: mpi_perf_server_def)

lemma mpi_client_ends:
  assumes "perf_mpi A put inq outq 0 full perf_replies perf_requests st"
  shows "\<exists>st'. mpi_perf_client A put st = Ret st' \<and> perf_mpi A put inq outq 0 full [] [] st'"
  using mpi_client.sizes_run [OF assms] by (simp add: mpi_perf_client_def)

end
