(* ===== verification/ReqRep.thy ===== *)
theory ReqRep
  imports Serving
begin

text \<open>
  \<open>examples/reqrep-th.cpp\<close>: a server and clients in which a thread of its own sends to the other peer.
  \<^item> The bodies of the threads and of the loops are separate definitions, and a run of a peer is a list of events,
    each an iteration of one of its threads; \<open>conns\<close> is the map \<open>connections\<close>, and \<open>rnd\<close> is \<open>rand()\<close> with its state.
  \<^item> A thread is given an iteration of a \<open>getNext\<close> only when the rounds of \<open>wait_next\<close> suffice for it to return.
  \<^item> What is printed is not modelled but for the number of mismatches that the client reports.
\<close>

section \<open>Sending\<close>

definition nmsg :: nat where
  "nmsg = 100"

definition maxwaittime :: nat where
  "maxwaittime = 10"

text \<open>An iteration of a sending thread, for the number \<open>i\<close>. After a failure the server goes on without the pause,
  the client with it: \<open>skip\<close>.\<close>

definition rr_send_one ::
  "('n, 'x) env \<Rightarrow> ('r \<Rightarrow> nat \<times> 'r) \<Rightarrow> bool \<Rightarrow> nat \<Rightarrow> huser \<Rightarrow> ('n, 'x) mworld \<Rightarrow> 'r
     \<Rightarrow> (huser \<times> ('n, 'x) mworld \<times> 'r) out" where
  "rr_send_one e rnd skip i u w s =
     bnd (huser_send (mgr_comm e) u (int_bytes (int i)) w) (\<lambda>(r, u, w).
     if r \<le> 0 \<and> skip then Ret (u, w, s)
     else let (k, s) = rnd s in Ret (u, sleep_us (1000 * (k mod maxwaittime + 1)) w, s))"

text \<open>What the thread of the server does after its loop; \<open>handle\<close> goes with the thread.\<close>

definition rr_sender_end ::
  "('n, 'x) env \<Rightarrow> huser \<Rightarrow> (nat, bool) smap \<Rightarrow> ('n, 'x) mworld \<Rightarrow> ((nat, bool) smap \<times> ('n, 'x) mworld) out" where
  "rr_sender_end e u conns w =
     bnd (huser_close (mgr_comm e) u w) (\<lambda>w.
     let conns = smap_put (huser_getID u) True conns
     in bnd (huser_destroy (mgr_comm e) u w) (\<lambda>w. Ret (conns, w)))"

section \<open>Receiving\<close>

text \<open>The body of the loop of the server: the handle of a thread that is started, and the map. \<open>operator[]\<close> inserts
  \<open>false\<close> for a key that is missing.\<close>

definition rr_server_step ::
  "('n, 'x) env \<Rightarrow> huser \<Rightarrow> (nat, bool) smap \<Rightarrow> ('n, 'x) mworld
     \<Rightarrow> (huser option \<times> (nat, bool) smap \<times> ('n, 'x) mworld) out" where
  "rr_server_step e u conns w =
     (if huser_isNewConnection u then
        let conns = smap_put (huser_getID u) False conns; (moved, u) = huser_move u
        in bnd (huser_destroy (mgr_comm e) u w) (\<lambda>w. Ret (Some moved, conns, w))
      else bnd (huser_receive (mgr_comm e) u sizeof_int w) (\<lambda>(r, _, u, w).
           bnd (if r \<le> 0 then
                  let conns = smap_emplace (huser_getID u) False conns
                  in if smap_get conns (huser_getID u) = Some True
                     then bnd (huser_close (mgr_comm e) u w) (\<lambda>w. Ret (conns, w)) else Ret (conns, w)
                else Ret (conns, w)) (\<lambda>(conns, w).
           bnd (huser_destroy (mgr_comm e) u w) (\<lambda>w. Ret (None, conns, w)))))"

text \<open>The server, given its events: \<open>None\<close> is an iteration of its loop, \<open>Some k\<close> one of the \<open>k\<close>-th sending thread,
  whose state is its handle and its next number. A thread that has ended, and one that has not been started, does
  nothing.\<close>

fun rr_server_event ::
  "('n, 'x) env \<Rightarrow> ('r \<Rightarrow> nat \<times> 'r) \<Rightarrow> nat option \<Rightarrow> (huser \<times> nat) option list \<times> (nat, bool) smap \<times> ('n, 'x) mworld \<times> 'r
     \<Rightarrow> ((huser \<times> nat) option list \<times> (nat, bool) smap \<times> ('n, 'x) mworld \<times> 'r) out" where
  "rr_server_event e rnd None (ts, conns, w, s) =
     bnd (wait_next (bound e) e w) (\<lambda>(u, w).
     bnd (rr_server_step e u conns w) (\<lambda>(t, conns, w).
     Ret (case t of None \<Rightarrow> ts | Some u \<Rightarrow> ts @ [Some (u, 0)], conns, w, s)))"
| "rr_server_event e rnd (Some k) (ts, conns, w, s) =
     (case (if k < length ts then ts ! k else None) of
        None \<Rightarrow> Ret (ts, conns, w, s)
      | Some (u, i) \<Rightarrow>
          if i < nmsg then
            bnd (rr_send_one e rnd True i u w s) (\<lambda>(u, w, s). Ret (ts[k := Some (u, i + 1)], conns, w, s))
          else bnd (rr_sender_end e u conns w) (\<lambda>(conns, w). Ret (ts[k := None], conns, w, s)))"

definition rr_server ::
  "('n, 'x) env \<Rightarrow> ('r \<Rightarrow> nat \<times> 'r) \<Rightarrow> nat option list \<Rightarrow> ('n, 'x) mworld \<Rightarrow> 'r
     \<Rightarrow> ((huser \<times> nat) option list \<times> (nat, bool) smap \<times> ('n, 'x) mworld \<times> 'r) out" where
  "rr_server e rnd sched w s =
     bnd (mgr_listen e ''TCP:0.0.0.0:42000'' w) (\<lambda>(_, w). run_each (rr_server_event e rnd) sched ([], [], w, s))"

text \<open>An iteration of the receiving loop of the client, at \<open>i\<close>: \<open>y\<close> are the bytes of the variable, \<open>bad\<close>
  counts the numbers that are not the expected ones.\<close>

definition rr_receive_one ::
  "('n, 'x) env \<Rightarrow> nat \<times> byte list \<times> nat \<Rightarrow> ('n, 'x) mworld \<Rightarrow> ((nat \<times> byte list \<times> nat) \<times> ('n, 'x) mworld) out" where
  "rr_receive_one e v w =
     bnd (wait_next (bound e) e w) (\<lambda>(u, w).
     bnd (huser_receive (mgr_comm e) u sizeof_int w) (\<lambda>(r, bs, u, w).
     bnd (huser_destroy (mgr_comm e) u w) (\<lambda>w.
     let (i, y, bad) = v; y = bs @ drop (length bs) y;
         bad = (if 0 < r \<and> int i \<noteq> bytes_int y then bad + 1 else bad)
     in Ret ((i + 1, y, bad), w))))"

text \<open>The client, given its events: \<open>True\<close> is an iteration of its sending thread, which is at the number \<open>i\<close>, \<open>False\<close> a
  step of the main thread, whose \<open>c\<close>-th step is the \<open>yield\<close> for 0 and then an iteration. Both use the same \<open>handle\<close>.\<close>

fun rr_client_event ::
  "('n, 'x) env \<Rightarrow> ('r \<Rightarrow> nat \<times> 'r) \<Rightarrow> bool \<Rightarrow> huser \<times> nat \<times> nat \<times> (nat \<times> byte list \<times> nat) \<times> ('n, 'x) mworld \<times> 'r
     \<Rightarrow> (huser \<times> nat \<times> nat \<times> (nat \<times> byte list \<times> nat) \<times> ('n, 'x) mworld \<times> 'r) out" where
  "rr_client_event e rnd True (u, i, c, v, w, s) =
     (if i < nmsg then bnd (rr_send_one e rnd False i u w s) (\<lambda>(u, w, s). Ret (u, i + 1, c, v, w, s))
      else Ret (u, i, c, v, w, s))"
| "rr_client_event e rnd False (u, i, c, v, w, s) =
     (if c = 0 then bnd (huser_yield (mgr_comm e) u w) (\<lambda>(u, w). Ret (u, i, c + 1, v, w, s))
      else if c \<le> nmsg then bnd (rr_receive_one e v w) (\<lambda>(v, w). Ret (u, i, c + 1, v, w, s))
      else Ret (u, i, c, v, w, s))"

text \<open>\<open>join\<close> waits for the sending thread, so the client returns when the events cover both threads. \<open>y0\<close> is the
  uninitialised \<open>y\<close>; \<open>None\<close> when the client cannot connect, otherwise the mismatches.\<close>

definition rr_client ::
  "('n, 'x) env \<Rightarrow> ('r \<Rightarrow> nat \<times> 'r) \<Rightarrow> bool list \<Rightarrow> byte list \<Rightarrow> ('n, 'x) mworld \<Rightarrow> 'r \<Rightarrow> (nat option \<times> ('n, 'x) mworld) out" where
  "rr_client e rnd sched y0 w s =
     bnd (mgr_connect e ''TCP:0.0.0.0:42000'' (-1) 0 w) (\<lambda>(u, w).
     if \<not> huser_isValid u then bnd (huser_destroy (mgr_comm e) u w) (\<lambda>w. Ret (None, w))
     else bnd (run_each (rr_client_event e rnd) sched (u, 0, 0, (0, y0, 0), w, s)) (\<lambda>(u, i, c, v, w, s).
          if i < nmsg \<or> c \<le> nmsg then Fault No_return
          else bnd (huser_close (mgr_comm e) u w) (\<lambda>w.
               bnd (huser_destroy (mgr_comm e) u w) (\<lambda>w. Ret (Some (snd (snd v)), w)))))"

text \<open>\<open>main\<close>: \<open>argv\<close> are the arguments after the name of the program. The server never returns.\<close>

fun rr_main ::
  "('n, 'x) env \<Rightarrow> ('r \<Rightarrow> nat \<times> 'r) \<Rightarrow> nat option list \<Rightarrow> bool list \<Rightarrow> byte list \<Rightarrow> string option \<Rightarrow> string list
     \<Rightarrow> ('n, 'x) mworld \<Rightarrow> 'r \<Rightarrow> (int \<times> nat option \<times> ('n, 'x) mworld) out" where
  "rr_main e rnd events sched y0 level (role # app # argv) w s =
     bnd (mgr_init_plain e level app w) (\<lambda>(_, w).
     bnd (stol role) (\<lambda>k.
     bnd (if k = 0 then bnd (rr_server e rnd events w s) (\<lambda>_. Fault No_return)
          else rr_client e rnd sched y0 w s) (\<lambda>(bad, w).
     bnd (mgr_finalize e False w) (\<lambda>w. Ret (0, bad, w)))))"
| "rr_main e rnd events sched y0 level argv w s = Ret (-1, None, w)"

end
