(* ===== verification/ReqRepProps.thy ===== *)
theory ReqRepProps
  imports ReqRep
begin

text \<open>
  The client of \<open>reqrep-th\<close> over TCP, in every interleaving of its two threads: what the sending thread writes and what
  the receiving loop makes of the numbers of the server. \<open>rr_inv\<close> is the invariant of the events.
\<close>

section \<open>The two kinds of iteration\<close>

lemma serving_slept: "serving inq L fd h n (sleep_us t w) = serving inq L fd h n w"
  by (simp add: serving_def sleep_us_def)

lemma slept_fields [simp]: "net (sleep_us t w) = net w" "handleReady (sleep_us t w) = handleReady w"
  by (simp_all add: sleep_us_def)

abbreviation numbers :: "nat \<Rightarrow> nat \<Rightarrow> byte list list" where
  "numbers i n \<equiv> map (\<lambda>k. int_bytes (int k)) [i..<i + n]"

lemma numbers_snoc: "numbers 0 (Suc i) = numbers 0 i @ [int_bytes (int i)]"
  by simp

lemma numbers_front: "k < n \<Longrightarrow> numbers k (n - k) = int_bytes (int k) # numbers (Suc k) (n - Suc k)"
  by (simp add: upt_conv_Cons)

lemma wire_Cons: "wire (m # ms) = concat (tcp_frame m) @ wire ms"
  by (simp add: wire_concat)

lemma wire_snoc: "wire (ms @ [m]) = wire ms @ concat (tcp_frame m)"
  by (simp add: wire_concat)

lemma rr_send_writes:
  fixes w :: "(('o, 'm) tcp_state_scheme, 'x) mworld"
  assumes "peers A inq outq" and "tcp_env A e" and "serving inq L fd h n w" and "realHandle u = Some h"
  shows "\<exists>w' s'. rr_send_one e rnd skip i u w s = Ret (u\<lparr>newConnection := False\<rparr>, w', s') \<and> serving inq L fd h n w'
    \<and> fdset (net w') = fdset (net w) \<and> handleReady w' = handleReady w
    \<and> moved_on inq outq fd (inq fd (os (net w))) (concat (tcp_frame (int_bytes (int i)))) (os (net w)) (os (net w'))"
proof -
  have len: "length (int_bytes (int i)) < 2 ^ 63" by (simp add: int_bytes_def)
  from user_write [OF assms len] obtain t where
    x: "huser_send (mgr_comm e) u (int_bytes (int i)) w =
      Ret (int (length (int_bytes (int i))), u\<lparr>newConnection := False\<rparr>, set_os None t w)"
    and m: "moved_on inq outq fd (inq fd (os (net w))) (concat (tcp_frame (int_bytes (int i)))) (os (net w)) t" by blast
  obtain c s1 where c: "rnd s = (c, s1)" by fastforce
  let ?w = "sleep_us (1000 * (c mod maxwaittime + 1)) (set_os None t w)"
  have "serving inq L fd h n ?w" unfolding serving_slept by (rule serving_moved [OF assms(3) m])
  moreover have "rr_send_one e rnd skip i u w s = Ret (u\<lparr>newConnection := False\<rparr>, ?w, s1)"
    using x c by (simp add: rr_send_one_def int_bytes_def)
  ultimately show ?thesis using m by (intro exI [of _ ?w] exI [of _ s1]) simp
qed

lemma rr_receive_reads:
  fixes w :: "(('o, 'm) tcp_state_scheme, 'x) mworld"
  assumes "peers A inq outq" and "tcp_env A e" and "2 \<le> bound e" and "serving inq L fd h n w"
    and "fd \<in> fdset (net w)" and "handleReady w = []" and "length m = 4"
    and "inq fd (os (net w)) = concat (tcp_frame m) @ rest" and "length y = 4"
  shows "\<exists>w'. rr_receive_one e (i, y, bad) w = Ret ((i + 1, m, if int i \<noteq> bytes_int m then bad + 1 else bad), w')
    \<and> serving inq L fd h n w' \<and> fd \<in> fdset (net w') \<and> handleReady w' = []
    \<and> moved_on inq outq fd rest [] (os (net w)) (os (net w'))"
proof -
  have ne: "inq fd (os (net w)) \<noteq> []" using assms(8) frame_nonempty by simp
  from wait_polled [OF assms(1,2,4-6) ne assms(3)] obtain w1 where
    wt: "wait_next (bound e) e w = Ret (huser_at h, w1)" and s1: "serving inq L fd h (n + 1) w1" "os (net w1) = os (net w)"
    "handleReady w1 = []" by auto
  have len: "m \<noteq> []" "length m \<le> 4" using assms(7) by auto
  have j: "inq fd (os (net w1)) = concat (tcp_frame m) @ rest" using assms(8) s1(2) by simp
  from user_take [OF assms(1,2) s1(1) _ _ j len, of "huser_at h"] assms(7) obtain t where
    r: "huser_receive (mgr_comm e) (huser_at h) sizeof_int w1 = Ret (4, m, huser_at h, set_os None t w1)"
    and mv: "moved_on inq outq fd rest [] (os (net w1)) t" by auto
  from user_drop [OF assms(2) serving_moved [OF s1(1) mv], of "huser_at h"] obtain w2 where
    d: "huser_destroy (mgr_comm e) (huser_at h) (set_os None t w1) = Ret w2" "serving inq L fd h n w2" "fd \<in> fdset (net w2)"
    "os (net w2) = t" "handleReady w2 = []" using s1(3) by auto
  have "rr_receive_one e (i, y, bad) w = Ret ((i + 1, m, if int i \<noteq> bytes_int m then bad + 1 else bad), w2)"
    using wt r d(1) assms(7,9) by (simp add: rr_receive_one_def Let_def)
  with d mv s1(2) show ?thesis by (intro exI [of _ w2]) simp
qed

section \<open>The events of the client\<close>

text \<open>After \<open>i\<close> iterations of the sending thread and \<open>c\<close> steps of the main thread; \<open>out0\<close> is what the stream to the
  server held before, \<open>rest\<close> what follows the numbers of the server.\<close>

definition rr_inv where
  "rr_inv inq outq L fd h n out0 rest i c st \<longleftrightarrow> (case st of (u, i', c', (k, y, bad), w, s) \<Rightarrow>
     i' = i \<and> c' = c \<and> i \<le> nmsg \<and> c \<le> nmsg + 1 \<and> k = c - 1 \<and> bad = 0 \<and> length y = 4 \<and> realHandle u = Some h
   \<and> serving inq L fd h n w \<and> (c \<noteq> 0 \<longrightarrow> fd \<in> fdset (net w)) \<and> handleReady w = []
   \<and> inq fd (os (net w)) = wire (numbers (c - 1) (nmsg - (c - 1))) @ rest
   \<and> outq fd (os (net w)) = out0 @ wire (numbers 0 i))"

lemma rr_event_sends:
  fixes st :: "huser \<times> nat \<times> nat \<times> (nat \<times> byte list \<times> nat) \<times> (('o, 'm) tcp_state_scheme, 'x) mworld \<times> 'r"
  assumes "peers A inq outq" and "tcp_env A e" and "rr_inv inq outq L fd h n out0 rest i c st"
  shows "\<exists>st'. rr_client_event e rnd True st = Ret st' \<and> rr_inv inq outq L fd h n out0 rest (min nmsg (i + 1)) c st'"
proof -
  obtain u k y bad w s where st: "st = (u, i, c, (k, y, bad), w, s)"
    using assms(3) by (cases st) (auto simp: rr_inv_def)
  show ?thesis
  proof (cases "i < nmsg")
    case True
    have sv: "serving inq L fd h n w" and u: "realHandle u = Some h" using assms(3) by (simp_all add: st rr_inv_def)
    from rr_send_writes [OF assms(1,2) sv u, of rnd False i s] obtain w' s' where
      r: "rr_send_one e rnd False i u w s = Ret (u\<lparr>newConnection := False\<rparr>, w', s')" "serving inq L fd h n w'"
      "fdset (net w') = fdset (net w)" "handleReady w' = handleReady w"
      and m: "moved_on inq outq fd (inq fd (os (net w))) (concat (tcp_frame (int_bytes (int i)))) (os (net w)) (os (net w'))"
      by blast
    have "min nmsg (i + 1) = Suc i" using True by simp
    with True r m assms(3) show ?thesis
      by (simp add: st rr_inv_def moved_on_def wire_snoc)
  next
    case False
    with assms(3) have "min nmsg (i + 1) = i" by (simp add: st rr_inv_def)
    with False assms(3) show ?thesis by (simp add: st)
  qed
qed

lemma rr_event_main:
  fixes st :: "huser \<times> nat \<times> nat \<times> (nat \<times> byte list \<times> nat) \<times> (('o, 'm) tcp_state_scheme, 'x) mworld \<times> 'r"
  assumes "peers A inq outq" and "tcp_env A e" and "2 \<le> bound e" and "rr_inv inq outq L fd h n out0 rest i c st"
  shows "\<exists>st'. rr_client_event e rnd False st = Ret st'
    \<and> rr_inv inq outq L fd h n out0 rest i (min (nmsg + 1) (c + 1)) st'"
proof -
  obtain u k y bad w s where st: "st = (u, i, c, (k, y, bad), w, s)"
    using assms(4) by (cases st) (auto simp: rr_inv_def)
  have sv: "serving inq L fd h n w" and u: "realHandle u = Some h" and q: "handleReady w = []" and y: "length y = 4"
    using assms(4) by (simp_all add: st rr_inv_def)
  consider "c = 0" | "c \<noteq> 0" "c \<le> nmsg" | "c = nmsg + 1" using assms(4) by (force simp: st rr_inv_def)
  then show ?thesis
  proof cases
    case 1
    from user_yields [OF assms(2) sv u] obtain w' where
      "huser_yield (mgr_comm e) u w = Ret (u\<lparr>isReadable := False, newConnection := False\<rparr>, w')"
      "serving inq L fd h n w'" "fd \<in> fdset (net w')" "os (net w') = os (net w)" "handleReady w' = handleReady w" by blast
    with 1 assms(4) show ?thesis by (simp add: st rr_inv_def nmsg_def)
  next
    case 2
    let ?m = "int_bytes (int k)"
    have k: "k = c - 1" "k < nmsg" using assms(4) 2 by (simp_all add: st rr_inv_def)
    have f: "fd \<in> fdset (net w)" using assms(4) 2 by (simp add: st rr_inv_def)
    have i: "inq fd (os (net w)) = concat (tcp_frame ?m) @ wire (numbers (Suc k) (nmsg - Suc k)) @ rest"
      using assms(4) numbers_front [OF k(2)] by (simp add: st rr_inv_def wire_Cons k(1) [symmetric])
    have len: "length ?m = 4" by (simp add: int_bytes_def)
    have v: "bytes_int ?m = int k" using bytes_int_roundtrip [of "int k"] k(2) by (simp add: nmsg_def)
    from rr_receive_reads [OF assms(1-3) sv f q len i y, of k bad] v obtain w' where
      "rr_receive_one e (k, y, bad) w = Ret ((k + 1, ?m, bad), w')" "serving inq L fd h n w'" "fd \<in> fdset (net w')"
      "handleReady w' = []" "moved_on inq outq fd (wire (numbers (Suc k) (nmsg - Suc k)) @ rest) [] (os (net w)) (os (net w'))"
      by auto
    moreover have "min (nmsg + 1) (c + 1) = c + 1" "Suc k = c" using 2 k(1) by simp_all
    ultimately show ?thesis using 2 len assms(4) by (simp add: st rr_inv_def moved_on_def)
  next
    case 3
    then show ?thesis using assms(4) by (simp add: st)
  qed
qed

lemma rr_client_run:
  fixes st :: "huser \<times> nat \<times> nat \<times> (nat \<times> byte list \<times> nat) \<times> (('o, 'm) tcp_state_scheme, 'x) mworld \<times> 'r"
  assumes "peers A inq outq" and "tcp_env A e" and "2 \<le> bound e"
  shows "rr_inv inq outq L fd h n out0 rest i c st \<Longrightarrow> \<exists>st'. run_each (rr_client_event e rnd) sched st = Ret st'
    \<and> rr_inv inq outq L fd h n out0 rest (min nmsg (i + count_list sched True)) (min (nmsg + 1) (c + count_list sched False)) st'"
proof (induction sched arbitrary: i c st)
  case Nil
  then have "min nmsg i = i" "min (nmsg + 1) c = c" by (auto simp: rr_inv_def split: prod.splits)
  with Nil show ?case by simp
next
  case (Cons b sched)
  show ?case
  proof (cases b)
    case True
    from rr_event_sends [OF assms(1,2) Cons.prems] obtain st1 where
      e: "rr_client_event e rnd True st = Ret st1" "rr_inv inq outq L fd h n out0 rest (min nmsg (i + 1)) c st1" by blast
    have m: "min nmsg (min nmsg (i + 1) + count_list sched True) = min nmsg (i + count_list (b # sched) True)"
      "count_list sched False = count_list (b # sched) False" by (simp_all add: True)
    from Cons.IH [OF e(2)] e(1) show ?thesis unfolding m by (auto simp: True)
  next
    case False
    from rr_event_main [OF assms Cons.prems] obtain st1 where
      e: "rr_client_event e rnd False st = Ret st1" "rr_inv inq outq L fd h n out0 rest i (min (nmsg + 1) (c + 1)) st1" by blast
    have m: "min (nmsg + 1) (min (nmsg + 1) (c + 1) + count_list sched False) =
        min (nmsg + 1) (c + count_list (b # sched) False)"
      "count_list sched True = count_list (b # sched) True" by (simp_all add: False)
    from Cons.IH [OF e(2)] e(1) show ?thesis unfolding m by (auto simp: False)
  qed
qed

section \<open>Properties\<close>

text \<open>C34: In the client of \<open>reqrep-th\<close> over TCP the two threads that share one handle do not disturb each other: for
  every interleaving of their iterations, and whatever \<open>rand\<close> lets the sender pause, the sending thread has
  written its numbers in order and nothing else, the receiving loop, handed its connection by \<open>getNext\<close> again for every
  number, has consumed the numbers of the server in order without a mismatch, and what follows them is unread.\<close>

theorem reqrep_any_interleaving:
  fixes w :: "(('o, 'm) tcp_state_scheme, 'x) mworld"
  assumes "peers A inq outq" and "tcp_env A e" and "2 \<le> bound e" and "serving inq L fd h n w"
    and "realHandle u = Some h" and "handleReady w = []" and "length y0 = 4"
    and "inq fd (os (net w)) = wire (numbers 0 nmsg) @ rest"
    and "sent = min nmsg (count_list sched True)" and "taken = min nmsg (count_list sched False - 1)"
  shows "\<exists>u' c y' w' s'. run_each (rr_client_event e rnd) sched (u, 0, 0, (0, y0, 0), w, s) =
      Ret (u', sent, c, (taken, y', 0), w', s') \<and> serving inq L fd h n w'
    \<and> outq fd (os (net w')) = outq fd (os (net w)) @ wire (numbers 0 sent)
    \<and> inq fd (os (net w')) = wire (numbers taken (nmsg - taken)) @ rest"
proof -
  have "rr_inv inq outq L fd h n (outq fd (os (net w))) rest 0 0 (u, 0, 0, (0, y0, 0), w, s)"
    using assms(4-8) by (simp add: rr_inv_def wire_concat)
  from rr_client_run [OF assms(1-3) this, of rnd sched] obtain st' where
    r: "run_each (rr_client_event e rnd) sched (u, 0, 0, (0, y0, 0), w, s) = Ret st'"
    and i: "rr_inv inq outq L fd h n (outq fd (os (net w))) rest sent (min (nmsg + 1) (count_list sched False)) st'"
    using assms(9) by auto
  have "min (nmsg + 1) (count_list sched False) - 1 = taken" using assms(10) by simp
  with r i show ?thesis by (cases st') (auto simp: rr_inv_def)
qed

theorem reqrep_any_interleaving_witness:
  "\<exists>u' c y' w' s'. run_each (rr_client_event mw_env (\<lambda>k. (k, Suc k))) [True, False, False, True, False]
       (mw_users ! 0, 0, 0, (0, [0, 0, 0, 0], 0), mw_world (\<lambda>fd. if fd = 3 then wire (numbers 0 nmsg) else []), 0) =
     Ret (u', 2, c, (2, y', 0), w', s')
   \<and> snd (os (net w')) 3 = wire (numbers 0 2) \<and> fst (os (net w')) 3 = wire (numbers 2 98)"
proof -
  let ?q = "\<lambda>fd :: int. if fd = 3 then wire (numbers 0 nmsg) else []" and ?sched = "[True, False, False, True, False]"
  have u: "realHandle (mw_users ! 0) = Some 7" by (simp add: mw_users_def)
  have y: "length [0, 0, 0, 0 :: byte] = 4" by simp
  have i: "fst (os (net (mw_world ?q))) 3 = wire (numbers 0 nmsg) @ []" by (simp add: mw_world_def)
  have c: "2 = min nmsg (count_list ?sched True)" "2 = min nmsg (count_list ?sched False - 1)" by (simp_all add: nmsg_def)
  have o: "snd (os (net (mw_world ?q))) 3 = []" by (simp add: mw_world_def)
  from reqrep_any_interleaving [OF sel_peers sel_ready(1,2) sel_ready(3) [of ?q] u sel_ready(5) y i c,
      of "\<lambda>k. (k, Suc k)" "0 :: nat"] obtain u' c' y' w' s' where
    r: "run_each (rr_client_event mw_env (\<lambda>k. (k, Suc k))) ?sched (mw_users ! 0, 0, 0, (0, [0, 0, 0, 0], 0), mw_world ?q, 0) =
      Ret (u', 2, c', (2, y', 0), w', s')"
    and m: "snd (os (net w')) 3 = snd (os (net (mw_world ?q))) 3 @ wire (numbers 0 2)"
      "fst (os (net w')) 3 = wire (numbers 2 (nmsg - 2)) @ []" by blast
  have n: "nmsg - 2 = 98" by (simp add: nmsg_def)
  from m r show ?thesis unfolding o n append_Nil append_Nil2 by blast
qed

end
