(* ===== verification/IterBench.thy ===== *)
theory IterBench
  imports Serving
begin

text \<open>
  \<open>examples/collectives/iterative_benchmark.cpp\<close>: an emitter broadcasts data of growing size to the workers, a collector
  gathers what they send on and tells the emitter over a feedback connection.
  \<^item> The generated configuration is a JSON document, and \<open>files\<close> gives the document that is read from a file: what
    the writer of the JSON library writes is taken to be what its parser reads.
  \<^item> \<open>ENABLE_TCP\<close>, \<open>ENABLE_MPI\<close> and \<open>ENABLE_UCX\<close> are arguments of the generation; the teams are those of a
    build without collective libraries. What is printed is not modelled. Of the two versions of \<open>Emitter\<close>, the
    one that is compiled.
\<close>

section \<open>Configuration\<close>

definition EMITTER_RANK :: int where
  "EMITTER_RANK = 0"

definition COLLECTOR_RANK :: int where
  "COLLECTOR_RANK = 1"

definition WORKER_RANK :: int where
  "WORKER_RANK = 2"

definition iter_participants :: "(int, string) smap" where
  "iter_participants = [(0, ''Emitter''), (1, ''Collector''), (2, ''Worker'')]"

text \<open>\<open>participants.at(k)\<close>.\<close>

definition participant_at :: "int \<Rightarrow> string out" where
  "participant_at k = (case smap_get iter_participants k of None \<Rightarrow> Fault Out_of_range | Some s \<Rightarrow> Ret s)"

definition worker_name :: "int \<Rightarrow> string" where
  "worker_name i = ''Worker'' @ to_string i"

text \<open>\<open>PROTOCOL\<close>, \<open>EMITTER_ENDPOINT\<close> and \<open>COLLECTOR_ENDPOINT\<close>: the last protocol that is enabled wins.\<close>

definition iter_endpoints :: "bool \<Rightarrow> bool \<Rightarrow> bool \<Rightarrow> string \<times> string \<times> string" where
  "iter_endpoints tcp mpi ucx =
     (let p = ([], [], []);
          p = (if tcp then (''TCP'', ''TCP:0.0.0.0:42000'', ''TCP:0.0.0.0:42001'') else p);
          p = (if mpi then (''MPI'', ''MPI:0:10'', ''MPI:1:10'') else p)
      in if ucx then (''UCX'', ''UCX:0.0.0.0:42000'', ''UCX:0.0.0.0:42001'') else p)"

definition server_component :: "string \<Rightarrow> string \<Rightarrow> string \<Rightarrow> json" where
  "server_component name protocol ep1 =
     JObject [(''name'', JString name), (''host'', JString ''localhost''), (''protocols'', JArray [JString protocol]),
       (''listen-endpoints'', JArray [JString ep1])]"

definition worker_component :: "string \<Rightarrow> int \<Rightarrow> json" where
  "worker_component protocol i =
     JObject [(''host'', JString ''localhost''), (''protocols'', JArray [JString protocol]),
       (''name'', JString (worker_name i))]"

definition generate_configuration :: "bool \<Rightarrow> bool \<Rightarrow> bool \<Rightarrow> int \<Rightarrow> json" where
  "generate_configuration tcp mpi ucx num_workers =
     (let (protocol, emitter, collector) = iter_endpoints tcp mpi ucx
      in JObject [(''components'', JArray
           (server_component ''Emitter'' protocol emitter
            # map (worker_component protocol) [1..num_workers]
            @ [server_component ''Collector'' protocol collector]))])"

section \<open>The roles\<close>

text \<open>One iteration of the emitter: \<open>False\<close> when it gives up. \<open>res0\<close> are the bytes of the uninitialised \<open>res\<close>.\<close>

definition emitter_round ::
  "('n, 'x) env \<Rightarrow> byte list \<Rightarrow> huser \<Rightarrow> u64 \<Rightarrow> ('n, 'x) mworld \<Rightarrow> (bool \<times> ('n, 'x) mworld) out" where
  "emitter_round e res0 hg size1 w =
     bnd (huser_sendrecv (mgr_comm e) hg (replicate (unat size1) 0) [] 0 w) (\<lambda>(_, _, w).
     bnd (wait_next (bound e) e w) (\<lambda>(h, w).
     bnd (huser_receive (mgr_comm e) h sizeof_int w) (\<lambda>(r, bs, h, w).
     bnd (huser_destroy (mgr_comm e) h w) (\<lambda>w.
     Ret (\<not> (r \<le> 0 \<or> bytes_int (bs @ drop (length bs) res0) \<noteq> COLLECTOR_RANK), w)))))"

primrec emitter_loop ::
  "('n, 'x) env \<Rightarrow> byte list \<Rightarrow> huser \<Rightarrow> nat \<Rightarrow> u64 \<Rightarrow> ('n, 'x) mworld \<Rightarrow> (bool \<times> ('n, 'x) mworld) out" where
  "emitter_loop e res0 hg 0 size1 w = Ret (True, w)"
| "emitter_loop e res0 hg (Suc n) size1 w =
     bnd (emitter_round e res0 hg size1 w) (\<lambda>(go, w).
     if go then emitter_loop e res0 hg n (push_bit 1 size1) w else Ret (False, w))"

definition emitter_goodbye :: "('n, 'x) env \<Rightarrow> huser \<Rightarrow> ('n, 'x) mworld \<Rightarrow> ('n, 'x) mworld out" where
  "emitter_goodbye e hg w =
     bnd (wait_next (bound e) e w) (\<lambda>(h, w).
     bnd (huser_close (mgr_comm e) h w) (\<lambda>w.
     bnd (huser_close (mgr_comm e) hg w) (\<lambda>w. huser_destroy (mgr_comm e) h w)))"

definition Emitter ::
  "('n, 'x) env \<Rightarrow> byte list \<Rightarrow> string \<Rightarrow> string \<Rightarrow> nat \<Rightarrow> u64 \<Rightarrow> ('n, 'x) mworld \<Rightarrow> ('n, 'x) mworld out" where
  "Emitter e res0 bcast broot iterations size1 w =
     bnd (wait_next (bound e) e w) (\<lambda>(fbk, w).
     if \<not> huser_isValid fbk then huser_destroy (mgr_comm e) fbk w
     else bnd (huser_yield (mgr_comm e) fbk w) (\<lambda>(fbk, w).
          bnd (createTeam e bcast broot BROADCAST w) (\<lambda>(hg, w).
          bnd (if \<not> huser_isValid hg then Ret w
               else bnd (emitter_loop e res0 hg iterations size1 w) (\<lambda>(ok, w).
                    if ok then emitter_goodbye e hg w else Ret w)) (\<lambda>w.
          bnd (huser_destroy (mgr_comm e) hg w) (huser_destroy (mgr_comm e) fbk)))))"

text \<open>A worker: what it receives is what it sends on.\<close>

primrec worker_rounds ::
  "('n, 'x) env \<Rightarrow> huser \<Rightarrow> huser \<Rightarrow> nat \<Rightarrow> u64 \<Rightarrow> ('n, 'x) mworld \<Rightarrow> ('n, 'x) mworld out" where
  "worker_rounds e hb hg 0 size1 w = Ret w"
| "worker_rounds e hb hg (Suc n) size1 w =
     bnd (huser_sendrecv (mgr_comm e) hb [] (replicate (unat size1) 0) size1 w) (\<lambda>(_, data, w).
     bnd (huser_sendrecv (mgr_comm e) hg data [] 0 w) (\<lambda>(_, _, w).
     worker_rounds e hb hg n (push_bit 1 size1) w))"

definition Worker ::
  "('n, 'x) env \<Rightarrow> string \<Rightarrow> string \<Rightarrow> string \<Rightarrow> string \<Rightarrow> nat \<Rightarrow> u64 \<Rightarrow> ('n, 'x) mworld \<Rightarrow> ('n, 'x) mworld out" where
  "Worker e bcast gather broot groot iterations size1 w =
     bnd (createTeam e bcast broot BROADCAST w) (\<lambda>(hb, w).
     bnd (createTeam e gather groot GATHER w) (\<lambda>(hg, w).
     bnd (if huser_isValid hb \<and> huser_isValid hg then
            bnd (worker_rounds e hb hg iterations size1 w) (\<lambda>w.
            bnd (huser_close (mgr_comm e) hb w) (huser_close (mgr_comm e) hg))
          else Ret w) (\<lambda>w.
     bnd (huser_destroy (mgr_comm e) hg w) (huser_destroy (mgr_comm e) hb))))"

text \<open>The loop of the collector: the feedback handle and whether it has ended. The buffers are value-initialised;
  \<open>(nworkers+1)*size\<close> is computed in \<open>size_t\<close>.\<close>

definition collector_buffer :: "int \<Rightarrow> u64 \<Rightarrow> byte list" where
  "collector_buffer nworkers size1 = replicate (unat (word_of_int (nworkers + 1) * size1)) 0"

primrec collector_loop ::
  "('n, 'x) env \<Rightarrow> int \<Rightarrow> huser \<Rightarrow> huser \<Rightarrow> nat \<Rightarrow> u64 \<Rightarrow> ('n, 'x) mworld \<Rightarrow> (bool \<times> huser \<times> ('n, 'x) mworld) out" where
  "collector_loop e nworkers fbk hg 0 size1 w = Ret (True, fbk, w)"
| "collector_loop e nworkers fbk hg (Suc n) size1 w =
     bnd (huser_sendrecv (mgr_comm e) hg (replicate (unat size1) 0) (collector_buffer nworkers size1) size1 w) (\<lambda>(_, _, w).
     bnd (huser_send (mgr_comm e) fbk (int_bytes COLLECTOR_RANK) w) (\<lambda>(r, fbk, w).
     if r \<le> 0 then Ret (False, fbk, w) else collector_loop e nworkers fbk hg n (push_bit 1 size1) w))"

definition Collector ::
  "('n, 'x) env \<Rightarrow> string \<Rightarrow> string \<Rightarrow> int \<Rightarrow> nat \<Rightarrow> u64 \<Rightarrow> ('n, 'x) mworld \<Rightarrow> ('n, 'x) mworld out" where
  "Collector e gather groot nworkers iterations size1 w =
     bnd (mgr_connect e ''Emitter'' 100 200 w) (\<lambda>(fbk, w).
     if \<not> huser_isValid fbk then huser_destroy (mgr_comm e) fbk w
     else bnd (createTeam e gather groot GATHER w) (\<lambda>(hg, w).
          bnd (if \<not> huser_isValid hg then Ret (fbk, w)
               else bnd (collector_loop e nworkers fbk hg iterations size1 w) (\<lambda>(ok, fbk, w).
                    if \<not> ok then Ret (fbk, w)
                    else bnd (huser_close (mgr_comm e) fbk w) (\<lambda>w.
                         bnd (huser_close (mgr_comm e) hg w) (\<lambda>w. Ret (fbk, w))))) (\<lambda>(fbk, w).
          bnd (huser_destroy (mgr_comm e) hg w) (huser_destroy (mgr_comm e) fbk))))"

section \<open>The program\<close>

text \<open>An argument of type \<open>int\<close> that is parsed by \<open>stol\<close>.\<close>

definition int_arg :: "string \<Rightarrow> int out" where
  "int_arg s = bnd (stol s) (\<lambda>v. Ret (signed_take_bit 31 v))"

definition iter_appName :: "int \<Rightarrow> string out" where
  "iter_appName rank =
     (if WORKER_RANK \<le> rank then bnd (participant_at WORKER_RANK) (\<lambda>s. Ret (s @ to_string (rank - 1)))
      else participant_at rank)"

text \<open>The participants string of a team: its root and every worker.\<close>

definition team_string :: "string \<Rightarrow> int \<Rightarrow> string" where
  "team_string root num_workers = root @ concat (map (\<lambda>i. colon # worker_name i) [1..num_workers])"

definition auto_file :: string where
  "auto_file = ''iterative_bench_auto.json''"

definition iter_role ::
  "('n, 'x) env \<Rightarrow> byte list \<Rightarrow> int \<Rightarrow> int \<Rightarrow> nat \<Rightarrow> u64 \<Rightarrow> ('n, 'x) mworld \<Rightarrow> ('n, 'x) mworld out" where
  "iter_role e res0 rank num_workers iterations size1 w =
     (let bs = team_string ''Emitter'' num_workers; gs = team_string ''Collector'' num_workers
      in if rank = 0 then Emitter e res0 bs ''Emitter'' iterations size1 w
         else if rank = 1 then Collector e gs ''Collector'' (int (length iter_participants) - 1) iterations size1 w
         else Worker e bs gs ''Emitter'' ''Collector'' iterations size1 w)"

text \<open>\<open>main\<close>: \<open>argv\<close> are the arguments after the name of the program, \<open>argc\<close> their number and one.\<close>

fun iter_main ::
  "('n, 'x) env \<Rightarrow> byte list \<Rightarrow> bool \<times> bool \<times> bool \<Rightarrow> string option \<Rightarrow> (string \<Rightarrow> json option) \<Rightarrow> string list
     \<Rightarrow> ('n, 'x) mworld \<Rightarrow> (int \<times> ('n, 'x) mworld) out" where
  "iter_main e res0 (tcp, mpi, ucx) level files (a1 # a2 # a3 # a4 # argv) w =
     bnd (int_arg a1) (\<lambda>rank.
     bnd (int_arg a2) (\<lambda>num_workers.
     bnd (int_arg a3) (\<lambda>iterations.
     bnd (stol a4) (\<lambda>sz.
     let (name, files) =
           (case argv of
              [f] \<Rightarrow> (f, files)
            | _ \<Rightarrow> (auto_file, files(auto_file := Some (generate_configuration tcp mpi ucx num_workers))))
     in bnd (iter_appName rank) (\<lambda>app.
        bnd (mgr_init e level app (if name = [] then None else Some (files name)) None w) (\<lambda>(r, w).
        if r < 0 then Ret (-1, w)
        else bnd (iter_role e res0 rank num_workers (nat iterations) (word_of_int sz) w) (\<lambda>w.
             bnd (mgr_finalize e False w) (\<lambda>w. Ret (0, w)))))))))"
| "iter_main e res0 b level files argv w = Ret (1, w)"

end
