(* ===== verification/IterBenchProps.thy ===== *)
theory IterBenchProps
  imports IterBench
begin

text \<open>
  The iterative benchmark: the generated configuration is read back with every member of both teams in its place; a
  collector with more than two workers writes behind its buffer.
\<close>

section \<open>Names\<close>

lemma nat_to_string_inj: "nat_to_string m = nat_to_string n \<longleftrightarrow> m = n"
  by (metis digits_value_nat_to_string)

lemma worker_name_inj: "1 \<le> i \<Longrightarrow> 1 \<le> j \<Longrightarrow> worker_name i = worker_name j \<longleftrightarrow> i = j"
  by (simp add: worker_name_def to_string_def nat_to_string_inj eq_nat_nat_iff)

lemma worker_name_other: "worker_name i \<noteq> ''Emitter''" "worker_name i \<noteq> ''Collector''" "worker_name i \<noteq> []"
  by (simp_all add: worker_name_def)

lemma worker_name_colon: "1 \<le> i \<Longrightarrow> colon \<notin> set (worker_name i)"
  using nat_to_string_digits [of "nat i"]
  by (auto simp: worker_name_def to_string_def colon_def digit_value_def Let_def)

lemma join_colon_Cons: "join_colon (x # ys) = x @ concat (map (\<lambda>y. colon # y) ys)"
  by (induction ys arbitrary: x) simp_all

lemma team_lines:
  assumes "root \<in> {''Emitter'', ''Collector''}"
  shows "getlines (team_string root n) = root # map worker_name [1..n]"
proof -
  have "team_string root n = join_colon (root # map worker_name [1..n])"
    by (simp add: team_string_def join_colon_Cons comp_def)
  moreover have "\<forall>x \<in> set (root # map worker_name [1..n]). colon \<notin> set x \<and> x \<noteq> []"
    using assms worker_name_colon worker_name_other(3) by (auto simp: colon_def)
  ultimately show ?thesis by (simp only: getlines_join)
qed

section \<open>Reading the generated configuration\<close>

definition with_component :: "string \<Rightarrow> component \<Rightarrow> config \<Rightarrow> config" where
  "with_component name c cf = cf\<lparr>components := smap_put name c (components cf)\<rparr>"

lemma parse_server:
  "parse_component (server_component name p ep1) cf = Ret (with_component name (''localhost'', [p], [ep1]) cf)"
  by (simp add: parse_component_def server_component_def as_string_def as_array_def with_component_def)

lemma parse_worker:
  "parse_component (worker_component p i) cf = Ret (with_component (worker_name i) (''localhost'', [p], []) cf)"
  by (simp add: parse_component_def worker_component_def as_string_def as_array_def with_component_def)

lemma parse_workers:
  "parse_each parse_component (map (worker_component p) ks @ js) cf =
   parse_each parse_component js (fold (\<lambda>i. with_component (worker_name i) (''localhost'', [p], [])) ks cf)"
  by (induction ks arbitrary: cf) (simp_all add: parse_worker)

lemma get_component [simp]:
  "smap_get (components (with_component name c cf)) k = (if k = name then Some c else smap_get (components cf) k)"
  by (simp add: with_component_def smap_put_get)

lemma get_workers:
  "smap_get (components (fold (\<lambda>i. with_component (f i) c) ks cf)) k =
   (if k \<in> f ` set ks then Some c else smap_get (components cf) k)"
  by (induction ks arbitrary: cf) auto

text \<open>The loop of \<open>createTeam\<close> over members that all have one protocol.\<close>

lemma scan_team_uniform:
  assumes "\<forall>x \<in> set ls. \<exists>h les. smap_get (components c) x = Some (h, [p], les)" and "distinct ls"
  shows "scan_team c app root ls (sz, rk, ok, m, u) =
    Some (sz + int (length ls), if app \<in> set ls then sz + int (length (takeWhile (\<lambda>x. x \<noteq> app) ls)) else rk,
      ok \<or> root \<in> set ls, m \<and> (ls = [] \<or> p = ''MPI''), u \<and> (ls = [] \<or> p = ''UCX''))"
  using assms
proof (induction ls arbitrary: sz rk ok m u)
  case (Cons x ls)
  from Cons.prems(1) obtain h les where "smap_get (components c) x = Some (h, [p], les)" by auto
  with Cons.IH Cons.prems show ?case by auto
qed simp

lemma takeWhile_worker:
  assumes "1 \<le> i" "i \<le> n"
  shows "length (takeWhile (\<lambda>x. x \<noteq> worker_name i) (map worker_name [1..n])) = nat (i - 1)"
proof -
  have split1: "[1..n] = [1..i - 1] @ i # [i + 1..n]" by (rule upto_split3 [OF assms])
  have "\<forall>x \<in> set (map worker_name [1..i - 1]). x \<noteq> worker_name i"
    using assms worker_name_inj [of _ i] by auto
  then show ?thesis unfolding split1 by (simp add: takeWhile_append takeWhile_eq_all_conv [THEN iffD2])
qed

definition iter_protocol :: "bool \<Rightarrow> bool \<Rightarrow> bool \<Rightarrow> string" where
  "iter_protocol tcp mpi ucx = fst (iter_endpoints tcp mpi ucx)"

text \<open>What is read back: the two servers with their endpoint, the workers without one.\<close>

definition iter_config :: "bool \<Rightarrow> bool \<Rightarrow> bool \<Rightarrow> int \<Rightarrow> config" where
  "iter_config tcp mpi ucx n =
     (let (p, em, co) = iter_endpoints tcp mpi ucx
      in with_component ''Collector'' (''localhost'', [p], [co])
           (fold (\<lambda>i. with_component (worker_name i) (''localhost'', [p], [])) [1..n]
              (with_component ''Emitter'' (''localhost'', [p], [em]) config_empty)))"

lemma parse_generated:
  "parseConfig (Some (generate_configuration tcp mpi ucx n)) config_empty = Ret (0, iter_config tcp mpi ucx n)"
  by (simp add: parseConfig_def generate_configuration_def json_get_def as_array_def iter_config_def parse_server
      parse_workers split_beta)

lemma iter_member:
  assumes "root \<in> {''Emitter'', ''Collector''}" and "x \<in> set (root # map worker_name [1..n])"
  shows "\<exists>h les. smap_get (components (iter_config tcp mpi ucx n)) x = Some (h, [iter_protocol tcp mpi ucx], les)"
  using assms worker_name_other
  by (auto simp: iter_config_def iter_protocol_def split_beta get_workers)

lemma iter_endpoints_enabled:
  assumes "tcp \<or> mpi \<or> ucx"
  shows "iter_endpoints tcp mpi ucx =
    (if ucx then (''UCX'', ''UCX:0.0.0.0:42000'', ''UCX:0.0.0.0:42001'')
     else if mpi then (''MPI'', ''MPI:0:10'', ''MPI:1:10'') else (''TCP'', ''TCP:0.0.0.0:42000'', ''TCP:0.0.0.0:42001''))"
  using assms by (auto simp: iter_endpoints_def)

lemma iter_entries:
  assumes "iter_endpoints tcp mpi ucx = (p, em, co)"
  shows "smap_get (components (iter_config tcp mpi ucx n)) ''Emitter'' = Some (''localhost'', [p], [em])"
    and "smap_get (components (iter_config tcp mpi ucx n)) ''Collector'' = Some (''localhost'', [p], [co])"
    and "1 \<le> i \<Longrightarrow> i \<le> n \<Longrightarrow>
      smap_get (components (iter_config tcp mpi ucx n)) (worker_name i) = Some (''localhost'', [p], [])"
  using assms worker_name_other
  by (auto simp: iter_config_def get_workers eq_commute [of "''Emitter''"])

lemma iter_scan:
  assumes "root \<in> {''Emitter'', ''Collector''}" and "0 \<le> n"
  shows "scan_team (iter_config tcp mpi ucx n) app root (getlines (team_string root n)) (0, 0, False, True, True) =
    Some (n + 1, if app \<in> set (root # map worker_name [1..n])
        then int (length (takeWhile (\<lambda>x. x \<noteq> app) (root # map worker_name [1..n]))) else 0,
      True, iter_protocol tcp mpi ucx = ''MPI'', iter_protocol tcp mpi ucx = ''UCX'')"
proof -
  have "inj_on worker_name {1..n}" by (auto simp: inj_on_def worker_name_inj)
  then have d: "distinct (root # map worker_name [1..n])"
    using assms(1) worker_name_other by (auto simp: distinct_map)
  have m: "\<forall>x \<in> set (root # map worker_name [1..n]).
      \<exists>h les. smap_get (components (iter_config tcp mpi ucx n)) x = Some (h, [iter_protocol tcp mpi ucx], les)"
    using iter_member [OF assms(1)] by blast
  show ?thesis
    unfolding team_lines [OF assms(1)] using assms(2) by (simp only: scan_team_uniform [OF m d]) simp
qed

section \<open>The gather of the collector\<close>

lemma context_sendrecv:
  assumes "realHandle u = Some h" and "heap w h = Some ob" and "ctxs w h = Some cx" and "ctx_coll cx = Some cl"
  shows "huser_sendrecv (mgr_comm e) u sb rb n w =
    bnd (coll_sendrecv (junk e) (vtab e) cl sb rb n (put_obj h (ob\<lparr>probed := (False, 0)\<rparr>) w)) (\<lambda>(r, bs, cl, w).
      Ret (r, bs, put_ctx h (cx\<lparr>ctx_coll := Some cl\<rparr>) w))"
  using assms
  by (simp add: huser_sendrecv_def mgr_comm_def mtcl_comm_def context_comm_def ctx_sendrecv_def on_coll_def get_ctx_def
      obj_Some upd_obj_Some Let_def case_prod_unfold)

lemma collector_buffer_length:
  assumes "sz < 2 ^ 31"
  shows "length (collector_buffer (int (length iter_participants) - 1) (of_nat sz)) = 3 * sz"
proof -
  have "3 * sz < 2 ^ 64" using assms by simp
  then show ?thesis
    using assms
    by (simp add: collector_buffer_def iter_participants_def unat_word_ariths unat_of_nat_u64 flip: of_nat_mult)
qed

lemma collector_overflow:
  assumes "delivers (vtab e) I inbox P" and "length (junk e) = 4" and "realHandle hg = Some h" and "heap w h = Some ob"
    and "ctxs w h = Some cx" and "ctx_coll cx = Some (GatherGeneric ps True 0)" and "h \<notin> set ps" and "set ps \<subseteq> P"
    and "distinct ps" and "I (net w)" and "\<forall>k \<in> set ps. open_handle w k" and "0 < sz" and "sz < 2 ^ 31"
    and "\<forall>k \<in> set ps. inbox (net w) k (int_bytes (int (rk k)) # blk k # rest k) \<and> length (blk k) = sz"
    and "rk ` set ps = {1..length ps}" and "2 < length ps" and "length ps < 2 ^ 31"
  shows "collector_loop e (int (length iter_participants) - 1) fbk hg (Suc n) (of_nat sz) w = Fault Out_of_bounds"
proof -
  let ?s = "of_nat sz :: u64" and ?w = "put_obj h (ob\<lparr>probed := (False, 0)\<rparr>) w"
  let ?buf = "collector_buffer (int (length iter_participants) - 1) ?s"
  have sz: "unat ?s = sz" "?s < 2 ^ 31" using assms(13) by (simp_all add: unat_of_nat_u64 word_less_nat_alt)
  have lb: "length ?buf = 3 * sz" by (rule collector_buffer_length [OF assms(13)])
  obtain k where k: "k \<in> set ps" "rk k = 3" using assms(15,16) by (auto simp: set_eq_iff image_iff dest: spec [of _ 3])
  have op: "\<forall>k \<in> set ps. open_handle ?w k"
    using assms(7,11) by (auto simp: open_handle_def put_obj_def)
  have small: "rk k < 2 ^ 31" if "k \<in> set ps" for k
  proof -
    have "rk k \<in> {1..length ps}" using that assms(15) by blast
    then show ?thesis using assms(17) by simp
  qed
  have box: "\<forall>k \<in> set ps. inbox (net ?w) k (int_bytes (int (rk k)) # blk k # rest k) \<and> blk k \<noteq> []
      \<and> length (blk k) \<le> sz \<and> rk k < 2 ^ 31"
    using assms(12,14) small by (auto simp: put_obj_def)
  let ?b = "replicate sz 0 @ drop sz ?buf"
  have "length ?b < rk k * sz + length (blk k)" using lb k assms(12,14) by auto
  from gather_overflows [OF assms(1) sz assms(2) assms(8,9) _ op box k(1) this] assms(10)
  have g: "gather_receive (junk e) (vtab e) ps ?b ?s ?w = Fault Out_of_bounds" by (simp add: put_obj_def)
  have wr: "write_at 0 (replicate sz 0) ?buf = Ret ?b" using assms(12) lb by (simp add: write_at_def)
  show ?thesis
    using context_sendrecv [OF assms(3-6), of e] g wr sz(1)
    by (simp add: coll_sendrecv_def gather_sendrecv_def)
qed

section \<open>Properties\<close>

text \<open>C33: With a transport enabled, the configuration that the benchmark writes is one in which its teams can be
  formed. Read back by the library, every component has the one protocol that the build prefers (UCX before MPI
  before TCP), the two servers listen on two different endpoints of that protocol and the workers on none; and in
  either team \<open>createTeam\<close> finds the root and \<open>n\<close> workers, rank 0 for the root and rank \<open>i\<close> for the program
  that is started with the id \<open>i + 1\<close>.\<close>

theorem generated_teams:
  assumes "tcp \<or> mpi \<or> ucx" and "0 \<le> n" and "root \<in> {''Emitter'', ''Collector''}"
    and "(if ucx then (''UCX'', ''UCX:0.0.0.0:42000'', ''UCX:0.0.0.0:42001'')
     else if mpi then (''MPI'', ''MPI:0:10'', ''MPI:1:10'') else (''TCP'', ''TCP:0.0.0.0:42000'', ''TCP:0.0.0.0:42001''))
      = (p, em, co)"
  shows "em \<noteq> co \<and> before_colon em = p \<and> before_colon co = p
    \<and> (\<exists>cf. parseConfig (Some (generate_configuration tcp mpi ucx n)) config_empty = Ret (0, cf)
    \<and> smap_get (components cf) ''Emitter'' = Some (''localhost'', [p], [em])
    \<and> smap_get (components cf) ''Collector'' = Some (''localhost'', [p], [co])
    \<and> scan_team cf root root (getlines (team_string root n)) (0, 0, False, True, True) =
        Some (n + 1, 0, True, p = ''MPI'', p = ''UCX'')
    \<and> (\<forall>i. 1 \<le> i \<and> i \<le> n \<longrightarrow> (\<exists>app. iter_appName (i + 1) = Ret app
        \<and> smap_get (components cf) app = Some (''localhost'', [p], [])
        \<and> scan_team cf app root (getlines (team_string root n)) (0, 0, False, True, True) =
            Some (n + 1, i, True, p = ''MPI'', p = ''UCX''))))"
proof -
  let ?cf = "iter_config tcp mpi ucx n"
  have ep: "iter_endpoints tcp mpi ucx = (p, em, co)" using iter_endpoints_enabled [OF assms(1)] assms(4) by simp
  have pr: "iter_protocol tcp mpi ucx = p" by (simp add: iter_protocol_def ep)
  note scan = iter_scan [OF assms(3,2), of tcp mpi ucx, unfolded pr]
  have apart: "em \<noteq> co \<and> before_colon em = p \<and> before_colon co = p"
    using assms(4) by (auto simp: before_colon_def colon_def split: if_splits)
  have "scan_team ?cf (worker_name i) root (getlines (team_string root n)) (0, 0, False, True, True) =
      Some (n + 1, i, True, p = ''MPI'', p = ''UCX'')"
    if i: "1 \<le> i" "i \<le> n" for i
  proof -
    have "root \<noteq> worker_name i" using assms(3) worker_name_other by auto
    moreover have "worker_name i \<in> worker_name ` {1..n}" using i by simp
    ultimately show ?thesis unfolding scan using takeWhile_worker [OF i] i(1) by simp
  qed
  moreover have "iter_appName (i + 1) = Ret (worker_name i)" if "1 \<le> i" for i
    using that
    by (simp add: iter_appName_def WORKER_RANK_def participant_at_def iter_participants_def smap_get_def worker_name_def)
  ultimately show ?thesis
    using apart parse_generated [of tcp mpi ucx n] iter_entries [OF ep] scan [of root]
    by (intro conjI exI [of _ ?cf]) auto
qed

theorem generated_teams_witness:
  "\<exists>cf. parseConfig (Some (generate_configuration True False False 2)) config_empty = Ret (0, cf)
    \<and> smap_get (components cf) ''Collector'' = Some (''localhost'', [''TCP''], [''TCP:0.0.0.0:42001''])
    \<and> scan_team cf ''Emitter'' ''Emitter'' (getlines (team_string ''Emitter'' 2)) (0, 0, False, True, True) =
        Some (3, 0, True, False, False)"
proof -
  from generated_teams [of True False False 2 "''Emitter''" "''TCP''" "''TCP:0.0.0.0:42000''" "''TCP:0.0.0.0:42001''"]
  show ?thesis by auto
qed

text \<open>C35: The collector of the benchmark allocates its buffer for the number of roles, not for the number of workers it
  is started with: with more than two workers, once each has sent its rank and its block, the first gather writes
  the block of the third behind the end of the buffer, over any transport that delivers messages.\<close>

theorem collector_overflows:
  assumes "delivers (vtab e) I inbox P" and "length (junk e) = 4" and "realHandle hg = Some h" and "heap w h = Some ob"
    and "ctxs w h = Some cx" and "ctx_coll cx = Some (GatherGeneric ps True 0)" and "h \<notin> set ps" and "set ps \<subseteq> P"
    and "distinct ps" and "I (net w)" and "\<forall>k \<in> set ps. open_handle w k" and "0 < sz" and "sz < 2 ^ 31"
    and "\<forall>k \<in> set ps. inbox (net w) k (int_bytes (int (rk k)) # blk k # rest k) \<and> length (blk k) = sz"
    and "rk ` set ps = {1..length ps}" and "2 < length ps" and "length ps < 2 ^ 31"
  shows "collector_loop e (int (length iter_participants) - 1) fbk hg (Suc n) (of_nat sz) w = Fault Out_of_bounds"
  by (rule collector_overflow [OF assms])

text \<open>A collector with three workers on a transport of mailboxes.\<close>

definition mail_env :: "(mail, unit) env" where
  "mail_env = \<lparr>vtab = mail_vtable, proto = (\<lambda>_. \<lparr>conn_init = (\<lambda>_ w. Ret (0, w)), conn_listen = (\<lambda>_ w. Ret (0, w)),
     conn_connect = (\<lambda>_ _ _ w. Ret (None, w)), conn_update = (\<lambda>_ w. Ret w), conn_end = (\<lambda>_ w. Ret w)\<rparr>), bound = 2,
     junk = [0, 0, 0, 0]\<rparr>"

definition gather_world :: "mail mgr" where
  "gather_world = \<lparr>heap = (\<lambda>h. if h \<le> 4 then Some (new_handle ''M'') else None), errno = OK_errno, next_hid = 5,
     net = (\<lambda>h. [int_bytes (int h), [65]], \<lambda>_. []),
     ctxs = [0 \<mapsto> \<lparr>ctx_size = 4, ctx_root = True, ctx_rank = 0, canSend = False, canReceive = False, completed = True,
       ctx_coll = Some (GatherGeneric [1, 2, 3] True 0)\<rparr>], protocols = [], handleReady = [], groupsReady = [],
     contexts = [], listening_endps = {}, createdTeams = {}, appName = ''Collector'', poolName = [],
     cfg = config_empty, stopped = False, mtcl_verbose = -1, initialized = True, slept = 0\<rparr>"

theorem collector_overflows_witness:
  "collector_loop mail_env (int (length iter_participants) - 1) \<lparr>realHandle = Some 4, isReadable = True, newConnection = True\<rparr>
     \<lparr>realHandle = Some 0, isReadable = True, newConnection = True\<rparr> (Suc 9) (of_nat 1) gather_world = Fault Out_of_bounds"
proof -
  let ?hg = "\<lparr>realHandle = Some 0, isReadable = True, newConnection = True\<rparr>"
  have dl: "delivers (vtab mail_env) (\<lambda>_. True) (\<lambda>n h ms. fst n h = ms) UNIV" "length (junk mail_env) = 4"
    "realHandle ?hg = Some 0"
    using mail_delivers by (simp_all add: mail_env_def)
  have st: "heap gather_world 0 = Some (new_handle ''M'')" "ctxs gather_world 0 = Some \<lparr>ctx_size = 4, ctx_root = True,
      ctx_rank = 0, canSend = False, canReceive = False, completed = True, ctx_coll = Some (GatherGeneric [1, 2, 3] True 0)\<rparr>"
    by (simp_all add: gather_world_def)
  have cl: "ctx_coll \<lparr>ctx_size = 4, ctx_root = True, ctx_rank = 0, canSend = False, canReceive = False, completed = True,
      ctx_coll = Some (GatherGeneric [1, 2, 3] True 0)\<rparr> = Some (GatherGeneric [1, 2, 3] True 0)" by simp
  have ps: "0 \<notin> set [1, 2, 3 :: nat]" "set [1, 2, 3 :: nat] \<subseteq> UNIV" "distinct [1, 2, 3 :: nat]" by simp_all
  have op: "\<forall>k \<in> set [1, 2, 3]. open_handle gather_world k"
    by (simp add: open_handle_def gather_world_def new_handle_def)
  have box: "\<forall>k \<in> set [1, 2, 3]. fst (net gather_world) k = int_bytes (int (id k)) # [65] # [] \<and> length [65 :: byte] = 1"
    by (simp add: gather_world_def)
  have rk: "id ` set [1, 2, 3 :: nat] = {1..length [1, 2, 3 :: nat]}" by auto
  have sz: "0 < (1 :: nat)" "(1 :: nat) < 2 ^ 31" "2 < length [1, 2, 3 :: nat]" "length [1, 2, 3 :: nat] < 2 ^ 31" by simp_all
  show ?thesis
    by (rule collector_overflows [OF dl st cl ps TrueI op sz(1,2) box rk sz(3,4)])
qed

end
