(* ===== verification/Spec2Isabelle.thy ===== *)
theory Spec2Isabelle
  imports RefCount ProxyProps MqttProps MpiTable Handshakes LibContext Pingpong
    MasterWorkerProps HelloWorldProps MpiPerf ReqRepProps IterBenchProps
begin

text \<open>
  MTCL, a C++ communication library: point-to-point and collective communication over handles that
  hide the transport. This development models the library's own logic under \<open>src/\<close> and proves
  what its parts promise each other; the operating system and third-party libraries are parameters.

  The program. The application holds \<open>HandleUser\<close> objects (\<open>include/handleUser.hpp\<close>), each a reference to
  a \<open>CommunicationHandle\<close>: a \<open>Handle\<close> of a transport (\<open>include/handle.hpp\<close>,
  \<open>include/protocolInterface.hpp\<close>) or the context of a team (\<open>include/collectives/\<close>). A transport is a
  \<open>ConnType\<close>: TCP (\<open>include/protocols/tcp.hpp\<close>) and shared memory (\<open>shm.hpp\<close>, \<open>shm_buffer.hpp\<close>) are the
  default ones, MPI (\<open>mpi.hpp\<close>, \<open>mpip2p.hpp\<close>), MQTT (\<open>mqtt.hpp\<close>) and UCX (\<open>ucx.hpp\<close>) are chosen at build
  time. The \<open>Manager\<close> (\<open>include/manager.hpp\<close>) owns the transports, polls them in an IO thread, performs the
  handshake of new connections, queues what is ready for \<open>getNext\<close>, resolves names with a configuration file,
  and forms teams. A proxy process (\<open>proxy/proxy.cpp\<close>) connects components of different
  pools.

  Conventions. A call is a value of type \<open>out\<close>: \<open>Ret\<close> its result, or \<open>Fault\<close> when it leaves the defined
  behaviour of C++, lets an exception escape, or does not return within the bound it is given. Results of
  type \<open>ssize_t\<close> and \<open>int\<close> are read as \<open>int\<close>, sizes are 64-bit words, \<open>errno\<close> is part of the world. Objects
  live in a heap of the world, so that \<open>delete this\<close> is visible. A class with virtual members is a
  record of functions (\<open>vtable\<close>, \<open>comm\<close>, \<open>conn\<close>). The world is a record that every layer extends: the
  transports' state \<open>net\<close>, then the contexts (\<open>cworld\<close>), then the manager (\<open>mgr\<close>), then the
  tables of the proxy (\<open>proxy\<close>).

  Theories.
  \<^item> \<open>Prelude\<close>: outcomes, \<open>errno\<close>, ordered maps and their contract \<open>std_map\<close>. \<open>CxxString\<close>: the members of
    \<open>std::string\<close> in use, with their exceptions.
  \<^item> \<open>Handle\<close>, \<open>HandleUser\<close>: objects, reference counts, closing. The locales \<open>transport\<close> and \<open>comm_frame\<close> are
    the contracts between a transport, the handles and the users' wrapper. \<open>RefCount\<close>: the counter of an object
    is the number of user handles that refer to it or were overwritten while they did, in every reachable state of
    a process with point-to-point handles, so no call on one uses a deleted object.
  \<^item> \<open>TcpSocket\<close>, \<open>TcpConnect\<close>, \<open>ConnTcp\<close>: the byte stream and its framing, connecting with a deadline, the
    connector with its table and its \<open>select\<close> set. \<open>TcpProps\<close>, \<open>TcpLifecycle\<close>: messages arrive whole and
    in order, \<open>fdmax\<close> is the maximum of the set in every reachable state, a ready connection is
    reported once, a connection is torn down once. \<open>SampleOs\<close>: a small system for witnesses.
  \<^item> \<open>ShmBuffer\<close>, \<open>ConnShm\<close>: the one-slot buffer and the connector. \<open>ShmChannel\<close>: the two critical sections
    as a step relation, in which messages arrive whole and in order up to \<open>2^24\<close> bytes; \<open>ShmProps\<close>: \<open>put\<close>
    and \<open>get\<close> refine that relation.
  \<^item> \<open>MpiLib\<close>, \<open>ConnMpi\<close>, \<open>ConnMpip2p\<close>: messages on an MPI channel, the connector over ranks and tags and the
    one over intercommunicators, with its accepting thread as steps. \<open>MpiProps\<close>: MPI carries the collectives,
    a round of polling reports exactly the handles with a message, a communicator is disconnected with its
    last handle. \<open>MpiTable\<close>: in every reachable state the table holds handles that have the rank and tag of their key.
  \<^item> \<open>ConnMqtt\<close>: topics of a broker as channels. \<open>MqttProps\<close>: MQTT carries the collectives; what \<open>peek\<close> loses.
  \<^item> \<open>ConnUcx\<close>: stream endpoints with requests that are pending, the exchange of worker addresses over sockets.
    \<open>UcxProps\<close>: UCX carries the collectives however late the library finishes a request, a probe that does not block
    can be repeated until the header is there, both sides learn each other's address, a round reports what is ready.
  \<^item> \<open>Collectives\<close>, \<open>CollectiveContext\<close>: broadcast, fan-in, fan-out and gather over handles, and the context
    a user holds. \<open>CollProps\<close>: each reaches exactly the members it should, over any transport that satisfies
    \<open>sends_to\<close> and \<open>delivers\<close>; \<open>CollTcp\<close>: TCP satisfies both.
  \<^item> \<open>CollMpi\<close>, \<open>CollUcc\<close>: the collectives of the MPI and UCC libraries (\<open>mpiImpl.hpp\<close>, \<open>uccImpl.hpp\<close>), whose
    set-up the library does itself over the handles. \<open>CollMpiProps\<close>: all members make the same group; which rank a
    broadcast takes for its root. \<open>CollUccProps\<close>: the exchange of addresses is an all-gather; waiting for a
    collective ends. Both rest on \<open>two_way\<close>: the two directions of a handle do not disturb each other.
    \<open>LibContext\<close>: the context of a build that has them, where \<open>setImplementation\<close> makes these objects.
  \<^item> \<open>Config\<close>, \<open>Manager\<close>: the configuration file and the class \<open>Manager\<close>. \<open>ManagerTcp\<close>: the connectors behind
    \<open>ConnType\<close> (locale \<open>connector\<close>), both ends of the handshake, a round of the IO thread over TCP.
    \<open>ManagerProps\<close>: starting, listening, connecting by name, forming teams.
  \<^item> \<open>Carriers\<close>, \<open>Handshakes\<close>: the other connectors behind \<open>ConnType\<close>; the locale \<open>pipe\<close>, in which both ends of
    the handshake fit together over any transport that moves bytes and leaves the tables of the manager alone,
    and its interpretation for every transport.
  \<^item> \<open>Bimap\<close>, \<open>Proxy\<close>: the program that joins two pools (\<open>proxy/bimap.hpp\<close>, \<open>proxy/proxy.cpp\<close>). \<open>ProxyProps\<close>: it relays
    data unchanged within a pool and between pools; where setting up such a connection fails.
  \<^item> \<open>Serving\<close>: what the programs under \<open>examples/\<close> share as clients of the manager: waiting for a handle, and
    the calls on one connection over TCP, through \<open>select\<close>, the queue of the manager, the user handle and the byte
    stream. The locale \<open>message_loop\<close> is the contract of a body that serves one message per round; in it the
    loop consumes the whole stream and stops at its end. It is interpreted for the worker, the collector of the master and the greeter.
  \<^item> \<open>MasterWorker\<close>, \<open>MasterWorkerProps\<close> (\<open>master-worker/master.cpp\<close>, \<open>worker.cpp\<close>): what the master deals to a worker is what the
    worker counts and acknowledges; the collecting loop returns with the last acknowledgement.
    \<open>Pingpong\<close> (\<open>pingpong.cpp\<close>).
  \<^item> \<open>HelloWorld\<close>, \<open>HelloWorldProps\<close> (\<open>hello_world.cpp\<close>): a whole session of a client; the message for which the
    server aborts, or with \<open>NDEBUG\<close> writes behind its buffer. \<open>ReqRep\<close>, \<open>ReqRepProps\<close> (\<open>reqrep-th.cpp\<close>): the two threads of a client that share a handle, in every interleaving.
  \<^item> \<open>PerfP2p\<close>, \<open>PerfP2pProps\<close> (\<open>p2p-perf.cpp\<close>), \<open>MpiPerf\<close> (\<open>mpi_p2p-perf.cpp\<close>, \<open>mpi_p2p-perf_async.cpp\<close>): the
    locale \<open>perf_role\<close> is the contract of one exchange, from which the loops over rounds and sizes end without
    an abort; it is interpreted for both ends over TCP and over MPI.
  \<^item> \<open>IterBench\<close>, \<open>IterBenchProps\<close> (\<open>collectives/iterative_benchmark.cpp\<close>): the generated configuration is read
    back with its teams; the buffer of the collector is too small.

  Bounds. Loops that may run for ever carry a bound: the polling of a connect, \<open>writev\<close>, the spinning on a
  slot, the draining of \<open>setAsClosed\<close>, the receive loop of MQTT, the progress loops of UCX and UCC, the search
  of a fan-in, the wait for a group. Lemmas about their
  results say which bound is enough (the number of bytes left for \<open>writev\<close>, the rounds needed for a
  group, the calls of the progress function that a request still needs); a
  bound that is reached is \<open>Fault No_return\<close> and never a result.

  The benchmarks double a size until it exceeds the last one: \<open>doubling\<close> is total because it starts from a positive
  size. A server that runs until a signal is given the number of rounds it makes before,
  and the peers of \<open>reqrep-th\<close> the list of the iterations of their threads.

  Not modelled: \<open>createTeam\<close> of the manager in a build with the libraries, whose context is modelled beside it; the
  build facade (\<open>mtcl.hpp\<close>), which only includes; printing and clocks; the interleaving of the two threads of the
  master. Locks and
  condition variables only make the operations of two threads atomic and have no counterpart; the steps
  of the IO thread are interleaved as whole rounds.
\<close>

end
